(* ===== verification/Ryu_Prelude.thy ===== *)
theory Ryu_Prelude
  imports Main "HOL-Library.Word"
begin

unbundle bit_operations_syntax

text \<open>
  Shared vocabulary of the development: Python's exceptions as values, the result type the
  fallible operations return, big-endian integers, Python slices and the arithmetic of
  shift-and-mask packing on unbounded integers.

  The collections \<open>res_simps\<close> (unfolding the result monad), \<open>mask_simps\<close> (masks and shifts as
  \<open>mod\<close> and \<open>div\<close>) and \<open>codec_simps\<close> (the header formats) carry the component proofs.
\<close>

named_theorems res_simps \<open>computation rules of the result monad\<close>
named_theorems mask_simps \<open>masks, shifts and disjunctions of int as mod, div and +\<close>
named_theorems codec_simps \<open>definitions of header formats, parsers and serializers\<close>

section \<open>Exceptions as values\<close>

text \<open>
  \<open>StructError\<close> is \<^verbatim>\<open>struct.error\<close>, the one exception \<^verbatim>\<open>Packet._parser\<close> catches; the others
  are Python's builtins, and \<open>RyuError\<close> carries the name of an exception class of the
  controller itself.
\<close>

datatype py_error =
    StructError
  | AssertionError
  | KeyError
  | IndexError
  | ValueError
  | TypeError
  | AttributeError
  | RyuError string

type_synonym 'a res = "py_error + 'a"

definition res_bind :: "'a res \<Rightarrow> ('a \<Rightarrow> 'b res) \<Rightarrow> 'b res" where
  "res_bind m f = (case m of Inl e \<Rightarrow> Inl e | Inr x \<Rightarrow> f x)"

definition assertR :: "bool \<Rightarrow> unit res" where
  "assertR b = (if b then Inr () else Inl AssertionError)"

definition is_ok :: "'a res \<Rightarrow> bool" where
  "is_ok r = (case r of Inl _ \<Rightarrow> False | Inr _ \<Rightarrow> True)"

lemma res_bind_Inl [simp, res_simps]: "res_bind (Inl e) f = Inl e"
  by (simp add: res_bind_def)

lemma res_bind_Inr [simp, res_simps]: "res_bind (Inr x) f = f x"
  by (simp add: res_bind_def)

lemma res_bind_assoc: "res_bind (res_bind m f) g = res_bind m (\<lambda>x. res_bind (f x) g)"
  by (cases m) simp_all

lemma res_bind_eq_Inr: "res_bind m f = Inr y \<longleftrightarrow> (\<exists>x. m = Inr x \<and> f x = Inr y)"
  by (cases m) simp_all

lemma res_bind_eq_Inl:
  "res_bind m f = Inl e \<longleftrightarrow> m = Inl e \<or> (\<exists>x. m = Inr x \<and> f x = Inl e)"
  by (cases m) auto

lemma assertR_simps [simp, res_simps]:
  "assertR True = Inr ()"
  "assertR False = Inl AssertionError"
  by (simp_all add: assertR_def)

lemma assertR_eq_Inr [simp]: "assertR b = Inr u \<longleftrightarrow> b"
  by (simp add: assertR_def)

lemma is_ok_simps [simp]: "is_ok (Inr x)" "\<not> is_ok (Inl e)"
  by (simp_all add: is_ok_def)

lemma is_ok_iff: "is_ok r \<longleftrightarrow> (\<exists>x. r = Inr x)"
  by (cases r) simp_all

text \<open>A comprehension over a fallible function: the first failure is the result.\<close>

fun res_map :: "('a \<Rightarrow> 'b res) \<Rightarrow> 'a list \<Rightarrow> 'b list res" where
  "res_map f [] = Inr []"
| "res_map f (x # xs) = res_bind (f x) (\<lambda>y. res_bind (res_map f xs) (\<lambda>ys. Inr (y # ys)))"

lemma res_map_list_all2:
  "list_all2 (\<lambda>x y. f x = Inr y) xs ys \<Longrightarrow> res_map f xs = Inr ys"
  by (induction xs ys rule: list_all2_induct) simp_all

lemma res_map_each:
  "\<forall>x \<in> set xs. \<exists>y. f x = Inr y \<and> P x y \<Longrightarrow> \<exists>ys. res_map f xs = Inr ys \<and> list_all2 P xs ys"
proof (induction xs)
  case (Cons x xs)
  then obtain y ys where "f x = Inr y" "P x y" "res_map f xs = Inr ys" "list_all2 P xs ys" by auto
  then show ?case by (intro exI [of _ "y # ys"]) simp
qed simp

section \<open>Bytes and big-endian integers\<close>

type_synonym byte = "8 word"
type_synonym bytes = "8 word list"

fun be_bytes :: "nat \<Rightarrow> int \<Rightarrow> bytes" where
  "be_bytes 0 v = []"
| "be_bytes (Suc n) v = be_bytes n (v div 256) @ [word_of_int v]"

definition be_int :: "bytes \<Rightarrow> int" where
  "be_int bs = foldl (\<lambda>a b. a * 256 + uint b) 0 bs"

lemma length_be_bytes [simp]: "length (be_bytes n v) = n"
  by (induction n arbitrary: v) simp_all

lemma be_int_Nil [simp]: "be_int [] = 0"
  by (simp add: be_int_def)

lemma be_int_snoc: "be_int (bs @ [b]) = be_int bs * 256 + uint b"
  by (simp add: be_int_def)

lemma uint_byte_bounds: "0 \<le> uint (b :: byte)" "uint (b :: byte) < 256"
  using uint_bounded [of b] by simp_all

lemma be_int_bounds: "0 \<le> be_int bs \<and> be_int bs < 256 ^ length bs"
proof (induction bs rule: rev_induct)
  case Nil
  show ?case by simp
next
  case (snoc b bs)
  then have "be_int bs + 1 \<le> 256 ^ length bs" by simp
  then have "(be_int bs + 1) * 256 \<le> 256 ^ length bs * 256" by (rule mult_right_mono) simp
  with snoc uint_byte_bounds [of b] show ?case by (simp add: be_int_snoc)
qed

lemma be_int_nonneg [simp]: "0 \<le> be_int bs"
  using be_int_bounds by blast

lemma uint_word_of_int_byte: "uint (word_of_int v :: byte) = v mod 256"
  by (simp add: uint_word_of_int)

lemma be_int_be_bytes_mod: "be_int (be_bytes n v) = v mod 256 ^ n"
proof (induction n arbitrary: v)
  case 0
  show ?case by simp
next
  case (Suc n)
  have "be_int (be_bytes (Suc n) v) = (v div 256) mod 256 ^ n * 256 + v mod 256"
    by (simp add: be_int_snoc Suc uint_word_of_int_byte)
  also have "\<dots> = v mod (256 * 256 ^ n)"
    by (simp add: zmod_zmult2_eq)
  finally show ?case by simp
qed

lemma be_int_be_bytes [simp]: "0 \<le> v \<Longrightarrow> v < 256 ^ n \<Longrightarrow> be_int (be_bytes n v) = v"
  by (simp add: be_int_be_bytes_mod)

lemma be_bytes_be_int: "length bs = n \<Longrightarrow> be_bytes n (be_int bs) = bs"
proof (induction bs arbitrary: n rule: rev_induct)
  case Nil
  then show ?case by simp
next
  case (snoc b bs)
  then obtain m where m: "n = Suc m" "length bs = m" by auto
  have d: "(be_int bs * 256 + uint b) div 256 = be_int bs"
    using uint_byte_bounds [of b] by simp
  have w: "word_of_int (be_int bs * 256 + uint b) = b"
  proof (rule word_uint_eqI)
    show "uint (word_of_int (be_int bs * 256 + uint b) :: byte) = uint b"
      unfolding uint_word_of_int_byte using uint_byte_bounds [of b] by simp
  qed
  show ?case unfolding m(1) be_int_snoc be_bytes.simps d w using snoc.IH [OF m(2)] by simp
qed

lemma be_bytes_inject:
  "0 \<le> v \<Longrightarrow> v < 256 ^ n \<Longrightarrow> 0 \<le> w \<Longrightarrow> w < 256 ^ n \<Longrightarrow> be_bytes n v = be_bytes n w \<longleftrightarrow> v = w"
  by (metis be_int_be_bytes)

section \<open>Python slices\<close>

text \<open>\<^verbatim>\<open>buf[i:j]\<close> for indices that are not negative: out-of-range ends are cut, as Python does.\<close>

definition py_slice :: "nat \<Rightarrow> nat \<Rightarrow> 'a list \<Rightarrow> 'a list" where
  "py_slice i j xs = drop i (take j xs)"

lemma length_py_slice: "length (py_slice i j xs) = min j (length xs) - i"
  by (simp add: py_slice_def)

lemma py_slice_append_exact [simp]:
  "length xs = i \<Longrightarrow> length ys + i = j \<Longrightarrow> py_slice i j (xs @ ys @ zs) = ys"
  by (simp add: py_slice_def)

text \<open>\<^verbatim>\<open>b.strip(b'\x00')\<close> is empty exactly when every byte is zero.\<close>

definition all_zero :: "bytes \<Rightarrow> bool" where
  "all_zero bs = list_all (\<lambda>b. b = 0) bs"

lemma all_zero_simps [simp]:
  "all_zero []"
  "all_zero (b # bs) \<longleftrightarrow> b = 0 \<and> all_zero bs"
  "all_zero (bs @ cs) \<longleftrightarrow> all_zero bs \<and> all_zero cs"
  by (simp_all add: all_zero_def)

lemma all_zero_replicate [simp]: "all_zero (replicate n 0)"
  by (simp add: all_zero_def list_all_length)

section \<open>Shift and mask arithmetic\<close>

lemma and_mask_mod: "m = 2 ^ n - 1 \<Longrightarrow> k = 2 ^ n \<Longrightarrow> (x :: int) AND m = x mod k"
  by (metis mask_eq_exp_minus_1 take_bit_eq_mask take_bit_eq_mod)

lemma and_masks [mask_simps]:
  "(x :: int) AND 1 = x mod 2"
  "x AND 3 = x mod 4"
  "x AND 7 = x mod 8"
  "x AND 15 = x mod 16"
  "x AND 63 = x mod 64"
  "x AND 127 = x mod 128"
  "x AND 255 = x mod 256"
  "x AND 4095 = x mod 4096"
  "x AND 8191 = x mod 8192"
  "x AND 65535 = x mod 65536"
  "x AND 1048575 = x mod 1048576"
  "x AND 16777215 = x mod 16777216"
  "x AND 4294967295 = x mod 4294967296"
  "x AND 281474976710655 = x mod 281474976710656"
  apply (rule and_mask_mod [where n = 1]; simp)
  apply (rule and_mask_mod [where n = 2]; simp)
  apply (rule and_mask_mod [where n = 3]; simp)
  apply (rule and_mask_mod [where n = 4]; simp)
  apply (rule and_mask_mod [where n = 6]; simp)
  apply (rule and_mask_mod [where n = 7]; simp)
  apply (rule and_mask_mod [where n = 8]; simp)
  apply (rule and_mask_mod [where n = 12]; simp)
  apply (rule and_mask_mod [where n = 13]; simp)
  apply (rule and_mask_mod [where n = 16]; simp)
  apply (rule and_mask_mod [where n = 20]; simp)
  apply (rule and_mask_mod [where n = 24]; simp)
  apply (rule and_mask_mod [where n = 32]; simp)
  apply (rule and_mask_mod [where n = 48]; simp)
  done

lemma and_high_mask:
  "(x :: int) AND push_bit m (mask n) = push_bit m (take_bit n (drop_bit m x))"
  by (rule bit_eqI) (auto simp: bit_simps)

lemma and_high_masks:
  "(x :: int) AND 0xf0 = x div 16 mod 16 * 16"
  "x AND 0xf000 = x div 4096 mod 16 * 4096"
  using and_high_mask [of x 4 4] and_high_mask [of x 12 4]
  by (simp_all add: mask_eq_exp_minus_1 push_bit_eq_mult take_bit_eq_mod drop_bit_eq_div)

lemmas shift_simps [mask_simps] = drop_bit_eq_div push_bit_eq_mult

text \<open>A shifted field and a field that fits below it: the disjunction is a sum.\<close>

lemma or_disjoint_add:
  assumes "0 \<le> b" "b < 2 ^ n"
  shows "push_bit n a OR b = push_bit n a + (b :: int)"
proof -
  have "take_bit n b = b" using assms by (simp add: take_bit_int_eq_self)
  moreover have "concat_bit n b a = push_bit n a OR take_bit n b"
    by (simp add: concat_bit_def or.commute)
  ultimately show ?thesis using concat_bit_eq [of n b a] by simp
qed

lemma or_mult_add:
  "0 \<le> b \<Longrightarrow> b < 2 ^ n \<Longrightarrow> a * 2 ^ n OR b = a * 2 ^ n + (b :: int)"
  using or_disjoint_add [of b n a] by (simp add: push_bit_eq_mult)

lemma or3_disjoint_add:
  assumes "0 \<le> b" "b * 2 ^ m + c < 2 ^ n" "0 \<le> c" "c < 2 ^ m"
  shows "push_bit n a OR push_bit m b OR c = a * 2 ^ n + b * 2 ^ m + (c :: int)"
proof -
  have "push_bit m b OR c = b * 2 ^ m + c"
    using or_disjoint_add [OF assms(3,4), of b] by (simp only: push_bit_eq_mult)
  moreover have "0 \<le> b * 2 ^ m + c" using assms by simp
  then have "push_bit n a OR (b * 2 ^ m + c) = a * 2 ^ n + (b * 2 ^ m + c)"
    using or_disjoint_add [of "b * 2 ^ m + c" n a] assms(2) by (simp only: push_bit_eq_mult)
  ultimately show ?thesis by (simp only: or.assoc add.assoc)
qed

text \<open>Reading a field back from a packed sum.\<close>

lemma field_div: "0 \<le> r \<Longrightarrow> r < k \<Longrightarrow> (a * k + r) div k = (a :: int)"
  by (simp add: div_pos_pos_trivial)

lemma field_mod: "0 \<le> r \<Longrightarrow> r < k \<Longrightarrow> (a * k + r) mod k = (r :: int)"
  by (simp add: mod_pos_pos_trivial)

lemma field_divI: "w = a * k + r \<Longrightarrow> 0 \<le> r \<Longrightarrow> r < k \<Longrightarrow> w div k = (a :: int)"
  by (simp add: field_div)

lemma field_modI: "w = a * k + r \<Longrightarrow> 0 \<le> r \<Longrightarrow> r < k \<Longrightarrow> w mod k = (r :: int)"
  by (simp add: field_mod)

section \<open>Association lists as ordered dictionaries\<close>

text \<open>
  A Python dictionary whose iteration order matters: insertion keeps the place of a key that
  is already there and appends a new one; deletion keeps the order of the others.
\<close>

type_synonym ('k, 'v) odict = "('k \<times> 'v) list"

fun od_set :: "'k \<Rightarrow> 'v \<Rightarrow> ('k, 'v) odict \<Rightarrow> ('k, 'v) odict" where
  "od_set k v [] = [(k, v)]"
| "od_set k v ((k', v') # d) = (if k = k' then (k, v) # d else (k', v') # od_set k v d)"

definition od_del :: "'k \<Rightarrow> ('k, 'v) odict \<Rightarrow> ('k, 'v) odict" where
  "od_del k d = filter (\<lambda>(k', v). k' \<noteq> k) d"

definition od_wf :: "('k, 'v) odict \<Rightarrow> bool" where
  "od_wf d = distinct (map fst d)"

lemma map_of_od_set [simp]: "map_of (od_set k v d) = (map_of d)(k \<mapsto> v)"
  by (induction d) (auto simp: fun_eq_iff)

lemma map_of_od_del [simp]: "map_of (od_del k d) = (map_of d)(k := None)"
  by (induction d) (auto simp: od_del_def fun_eq_iff)

lemma keys_od_set: "fst ` set (od_set k v d) = insert k (fst ` set d)"
  by (induction k v d rule: od_set.induct) (simp_all add: insert_commute)

lemma keys_od_del: "fst ` set (od_del k d) = fst ` set d - {k}"
  by (auto simp: od_del_def)

lemma od_wf_Nil [simp]: "od_wf []"
  by (simp add: od_wf_def)

lemma od_wf_set [simp]: "od_wf d \<Longrightarrow> od_wf (od_set k v d)"
proof (induction d)
  case Nil
  then show ?case by (simp add: od_wf_def)
next
  case (Cons a d)
  then show ?case
    using keys_od_set [of k v d] by (cases a) (auto simp: od_wf_def)
qed

lemma od_wf_del [simp]: "od_wf d \<Longrightarrow> od_wf (od_del k d)"
  unfolding od_wf_def od_del_def by (induction d) auto

lemma map_of_eq_Some_iff_od: "od_wf d \<Longrightarrow> map_of d k = Some v \<longleftrightarrow> (k, v) \<in> set d"
  by (simp add: od_wf_def)

end
