(* ===== verification/Cmp_Order.thy ===== *)
theory Cmp_Order
  imports Ryu_Prelude "HOL-Library.Product_Lexorder"
begin

text \<open>
  Three-way comparisons by a key, as the spanning-tree library makes them
  (\<^verbatim>\<open>SUPERIOR\<close>, \<^verbatim>\<open>REPEATED\<close>, \<^verbatim>\<open>INFERIOR\<close>), and the loop that keeps the best element seen.

  The locale \<open>three_way\<close> is the contract of such a comparison: it orders by a key of a linear
  order. Its lemmas (the comparison is a total preorder, the loop finds a minimum and the first
  one) are proved once and interpreted where a component compares.
\<close>

datatype cmp_result = SUPERIOR | REPEATED | INFERIOR

definition py_cmp :: "int \<Rightarrow> int \<Rightarrow> int" where
  "py_cmp a b = of_bool (a > b) - of_bool (a < b)"

definition cmp_value :: "int \<Rightarrow> int \<Rightarrow> cmp_result" where
  "cmp_value value1 value2 =
     (let result = py_cmp value1 value2 in
      if result < 0 then SUPERIOR else if result = 0 then REPEATED else INFERIOR)"

text \<open>The loop \<^verbatim>\<open>for x in xs: if cmp(x, best) is SUPERIOR: best = x\<close>.\<close>

fun keep_best :: "('a \<Rightarrow> 'a \<Rightarrow> cmp_result) \<Rightarrow> 'a \<Rightarrow> 'a list \<Rightarrow> 'a" where
  "keep_best c best [] = best"
| "keep_best c best (x # xs) = keep_best c (if c x best = SUPERIOR then x else best) xs"

locale three_way =
  fixes c :: "'a \<Rightarrow> 'a \<Rightarrow> cmp_result"
    and key :: "'a \<Rightarrow> 'k :: linorder"
  assumes by_key: "c x y =
    (if key x < key y then SUPERIOR else if key x = key y then REPEATED else INFERIOR)"
begin

lemma superior_iff [simp]: "c x y = SUPERIOR \<longleftrightarrow> key x < key y"
  by (simp add: by_key)

lemma repeated_iff [simp]: "c x y = REPEATED \<longleftrightarrow> key x = key y"
  by (auto simp: by_key)

lemma inferior_iff [simp]: "c x y = INFERIOR \<longleftrightarrow> key y < key x"
  by (auto simp: by_key)

lemma swap: "c x y = SUPERIOR \<longleftrightarrow> c y x = INFERIOR"
  by simp

lemma superior_trans: "c x y = SUPERIOR \<Longrightarrow> c y z = SUPERIOR \<Longrightarrow> c x z = SUPERIOR"
  by simp

lemma keep_best_in: "keep_best c b xs \<in> insert b (set xs)"
  by (induction c b xs rule: keep_best.induct) auto

lemma keep_best_le: "y \<in> insert b (set xs) \<Longrightarrow> key (keep_best c b xs) \<le> key y"
proof (induction xs arbitrary: b y)
  case (Cons x xs)
  let ?b = "if key x < key b then x else b"
  have "key (keep_best c ?b xs) \<le> key ?b" by (rule Cons.IH) simp
  moreover have "key ?b \<le> key b" "key ?b \<le> key x" by auto
  moreover have "y \<in> set xs \<Longrightarrow> key (keep_best c ?b xs) \<le> key y" by (rule Cons.IH) simp
  ultimately show ?case using Cons.prems by auto
qed simp

lemma keep_best_first:
  "key (keep_best c b xs) = key b \<Longrightarrow> keep_best c b xs = b"
proof (induction xs arbitrary: b)
  case (Cons x xs)
  show ?case
  proof (cases "key x < key b")
    case True
    then have "key (keep_best c x xs) \<le> key x" by (intro keep_best_le) simp
    with True Cons.prems show ?thesis by simp
  next
    case False
    with Cons show ?thesis by simp
  qed
qed simp

end

lemma cmp_value_key: "cmp_value x y =
    (if x < y then SUPERIOR else if x = y then REPEATED else INFERIOR)"
  by (auto simp: cmp_value_def py_cmp_def Let_def)

interpretation val: three_way cmp_value "\<lambda>x. x"
  by unfold_locales (rule cmp_value_key)

end
