(* ===== verification/Py_Struct.thy ===== *)
theory Py_Struct
  imports Ryu_Prelude
begin

text \<open>
  Python's \<^verbatim>\<open>struct\<close> module for the big-endian formats the packet library uses, and the two
  interfaces of the library: \<open>addr_converter\<close>, the address conversions of \<^verbatim>\<open>ryu/lib/addrconv.py\<close>
  (third-party \<^verbatim>\<open>netaddr\<close> code, a parameter of the model), and \<open>header_codec\<close>, the contract of
  a header class's \<^verbatim>\<open>parser\<close> and \<^verbatim>\<open>serialize\<close>.
\<close>

section \<open>Formats\<close>

text \<open>
  A format string is a list of items: \<open>FU n\<close> an unsigned integer of \<open>n\<close> bytes (\<^verbatim>\<open>B H I Q\<close>),
  \<open>FS n\<close> the byte string \<^verbatim>\<open>ns\<close>, \<open>FX n\<close> the \<^verbatim>\<open>nx\<close> padding.
\<close>

datatype fmt = FU nat | FS nat | FX nat

datatype fval = VI int | VS bytes

abbreviation "fB \<equiv> FU (Suc 0)"
abbreviation "fH \<equiv> FU 2"
abbreviation "fI \<equiv> FU 4"
abbreviation "fQ \<equiv> FU 8"

fun fmt_len :: "fmt \<Rightarrow> nat" where
  "fmt_len (FU n) = n"
| "fmt_len (FS n) = n"
| "fmt_len (FX n) = n"

definition calcsize :: "fmt list \<Rightarrow> nat" where
  "calcsize fs = sum_list (map fmt_len fs)"

text \<open>
  \<^verbatim>\<open>struct.pack\<close>: an integer out of the item's range raises \<^verbatim>\<open>struct.error\<close>, a byte string is cut
  or padded with zero bytes, the wrong number or type of arguments raises.
\<close>

definition pack_uint :: "nat \<Rightarrow> int \<Rightarrow> bytes res" where
  "pack_uint n v = (if 0 \<le> v \<and> v < 256 ^ n then Inr (be_bytes n v) else Inl StructError)"

definition pack_str :: "nat \<Rightarrow> bytes \<Rightarrow> bytes" where
  "pack_str n bs = take n (bs @ replicate n 0)"

fun pack :: "fmt list \<Rightarrow> fval list \<Rightarrow> bytes res" where
  "pack [] [] = Inr []"
| "pack (FX n # fs) vs = res_bind (pack fs vs) (\<lambda>r. Inr (replicate n 0 @ r))"
| "pack (FU n # fs) (VI v # vs) =
     res_bind (pack_uint n v) (\<lambda>b. res_bind (pack fs vs) (\<lambda>r. Inr (b @ r)))"
| "pack (FS n # fs) (VS b # vs) = res_bind (pack fs vs) (\<lambda>r. Inr (pack_str n b @ r))"
| "pack _ _ = Inl StructError"

fun unpack_fields :: "fmt list \<Rightarrow> bytes \<Rightarrow> fval list" where
  "unpack_fields [] bs = []"
| "unpack_fields (FX n # fs) bs = unpack_fields fs (drop n bs)"
| "unpack_fields (FU n # fs) bs = VI (be_int (take n bs)) # unpack_fields fs (drop n bs)"
| "unpack_fields (FS n # fs) bs = VS (take n bs) # unpack_fields fs (drop n bs)"

text \<open>\<^verbatim>\<open>struct.unpack_from(fmt, buf)\<close>: a buffer shorter than the format raises \<^verbatim>\<open>struct.error\<close>.\<close>

definition unpack_from :: "fmt list \<Rightarrow> bytes \<Rightarrow> fval list res" where
  "unpack_from fs bs =
     (if calcsize fs \<le> length bs then Inr (unpack_fields fs bs) else Inl StructError)"

text \<open>\<^verbatim>\<open>struct.pack_into\<close> writes over part of a buffer, which keeps its length.\<close>

definition pack_into :: "fmt list \<Rightarrow> fval list \<Rightarrow> nat \<Rightarrow> bytes \<Rightarrow> bytes res" where
  "pack_into fs vs off buf =
     res_bind (pack fs vs) (\<lambda>b.
     if off + calcsize fs \<le> length buf
     then Inr (take off buf @ b @ drop (off + calcsize fs) buf) else Inl StructError)"

text \<open>Values a format holds without loss.\<close>

fun fits :: "fmt list \<Rightarrow> fval list \<Rightarrow> bool" where
  "fits [] [] = True"
| "fits (FX n # fs) vs = fits fs vs"
| "fits (FU n # fs) (VI v # vs) = (0 \<le> v \<and> v < 256 ^ n \<and> fits fs vs)"
| "fits (FS n # fs) (VS b # vs) = (length b = n \<and> fits fs vs)"
| "fits _ _ = False"

text \<open>The bytes a format writes for such values.\<close>

fun pack_bytes :: "fmt list \<Rightarrow> fval list \<Rightarrow> bytes" where
  "pack_bytes (FX n # fs) vs = replicate n 0 @ pack_bytes fs vs"
| "pack_bytes (FU n # fs) (VI v # vs) = be_bytes n v @ pack_bytes fs vs"
| "pack_bytes (FS n # fs) (VS b # vs) = b @ pack_bytes fs vs"
| "pack_bytes _ _ = []"

lemma calcsize_simps [simp]:
  "calcsize [] = 0"
  "calcsize (f # fs) = fmt_len f + calcsize fs"
  by (simp_all add: calcsize_def)

lemma pack_uint_ok [simp]: "0 \<le> v \<Longrightarrow> v < 256 ^ n \<Longrightarrow> pack_uint n v = Inr (be_bytes n v)"
  by (simp add: pack_uint_def)

lemma pack_str_exact [simp]: "length bs = n \<Longrightarrow> pack_str n bs = bs"
  by (simp add: pack_str_def)

lemma length_pack_str [simp]: "length (pack_str n bs) = n"
  by (simp add: pack_str_def)

lemma pack_fits: "fits fs vs \<Longrightarrow> pack fs vs = Inr (pack_bytes fs vs)"
  by (induction fs vs rule: fits.induct) simp_all

lemma length_pack_bytes: "fits fs vs \<Longrightarrow> length (pack_bytes fs vs) = calcsize fs"
  by (induction fs vs rule: fits.induct) simp_all

lemma length_pack: "pack fs vs = Inr bs \<Longrightarrow> length bs = calcsize fs"
  by (induction fs vs arbitrary: bs rule: pack.induct)
    (auto simp: res_bind_eq_Inr pack_uint_def split: if_splits)

lemma unpack_fields_pack_bytes:
  "fits fs vs \<Longrightarrow> unpack_fields fs (pack_bytes fs vs @ rest) = vs"
  by (induction fs vs rule: fits.induct) simp_all

lemma unpack_from_pack_bytes:
  "fits fs vs \<Longrightarrow> unpack_from fs (pack_bytes fs vs @ rest) = Inr vs"
  by (simp add: unpack_from_def unpack_fields_pack_bytes length_pack_bytes)

lemma unpack_from_short: "length bs < calcsize fs \<Longrightarrow> unpack_from fs bs = Inl StructError"
  by (simp add: unpack_from_def)

lemma unpack_fields_fits: "calcsize fs \<le> length bs \<Longrightarrow> fits fs (unpack_fields fs bs)"
proof (induction fs bs rule: unpack_fields.induct)
  case (3 n fs bs)
  then have "length (take n bs) = n" by simp
  then have "be_int (take n bs) < 256 ^ n" using be_int_bounds [of "take n bs"] by metis
  with 3 show ?case by simp
qed simp_all

lemma unpack_from_fits: "unpack_from fs bs = Inr vs \<Longrightarrow> fits fs vs"
  by (auto simp: unpack_from_def unpack_fields_fits split: if_splits)

text \<open>A format without padding loses nothing of the bytes it reads.\<close>

fun no_pad :: "fmt list \<Rightarrow> bool" where
  "no_pad [] = True"
| "no_pad (FX n # fs) = False"
| "no_pad (f # fs) = no_pad fs"

lemma pack_bytes_unpack_fields:
  "no_pad fs \<Longrightarrow> calcsize fs \<le> length bs \<Longrightarrow>
     pack_bytes fs (unpack_fields fs bs) = take (calcsize fs) bs"
proof (induction fs bs rule: unpack_fields.induct)
  case (3 n fs bs)
  then show ?case by (simp add: be_bytes_be_int take_add)
next
  case (4 n fs bs)
  then show ?case by (simp add: take_add)
qed simp_all

lemma pack_unpack_from:
  assumes "no_pad fs" "unpack_from fs bs = Inr vs"
  shows "pack fs vs = Inr (take (calcsize fs) bs)"
proof -
  from assms(2) have "calcsize fs \<le> length bs" "vs = unpack_fields fs bs"
    by (auto simp: unpack_from_def split: if_splits)
  with assms(1) show ?thesis
    by (simp add: pack_fits unpack_fields_fits pack_bytes_unpack_fields)
qed

text \<open>Parsers match the values of their own format only, so the default case is unreachable.\<close>

lemma fits_FU: "fits (FU n # fs) vs \<longleftrightarrow>
    (\<exists>v ws. vs = VI v # ws \<and> 0 \<le> v \<and> v < 256 ^ n \<and> fits fs ws)"
  by (cases vs rule: list.exhaust; (cases "hd vs")?) (auto split: fval.splits elim: fval.exhaust)

lemma fits_FS: "fits (FS n # fs) vs \<longleftrightarrow> (\<exists>b ws. vs = VS b # ws \<and> length b = n \<and> fits fs ws)"
  by (cases vs rule: list.exhaust; (cases "hd vs")?) (auto split: fval.splits elim: fval.exhaust)

lemma fits_Nil: "fits [] vs \<longleftrightarrow> vs = []"
  by (cases vs) simp_all

lemmas fits_iffs = fits_FU fits_FS fits_Nil

section \<open>Address conversion\<close>

text \<open>
  The converters \<^verbatim>\<open>addrconv.mac\<close>, \<^verbatim>\<open>addrconv.ipv4\<close> and \<^verbatim>\<open>addrconv.ipv6\<close>: \<open>text_to_bin\<close> may raise,
  \<open>bin_to_text\<close> formats. The repository implements them with the third-party \<^verbatim>\<open>netaddr\<close>, so
  they are a parameter of every header that holds an address.
\<close>

record addrconv =
  mac_to_bin :: "string \<Rightarrow> bytes res"
  mac_to_text :: "bytes \<Rightarrow> string"
  ip4_to_bin :: "string \<Rightarrow> bytes res"
  ip4_to_text :: "bytes \<Rightarrow> string"
  ip6_to_bin :: "string \<Rightarrow> bytes res"
  ip6_to_text :: "bytes \<Rightarrow> string"

text \<open>What the code relies on: formatting an address and reading the text gives it back, and a
  text that is read gives an address of the right length.\<close>

definition addrconv_ok :: "addrconv \<Rightarrow> bool" where
  "addrconv_ok A \<longleftrightarrow>
     (\<forall>b. length b = 6 \<longrightarrow> mac_to_bin A (mac_to_text A b) = Inr b) \<and>
     (\<forall>b. length b = 4 \<longrightarrow> ip4_to_bin A (ip4_to_text A b) = Inr b) \<and>
     (\<forall>b. length b = 16 \<longrightarrow> ip6_to_bin A (ip6_to_text A b) = Inr b) \<and>
     (\<forall>t b. mac_to_bin A t = Inr b \<longrightarrow> length b = 6) \<and>
     (\<forall>t b. ip4_to_bin A t = Inr b \<longrightarrow> length b = 4) \<and>
     (\<forall>t b. ip6_to_bin A t = Inr b \<longrightarrow> length b = 16)"

text \<open>A text in the canonical form \<open>bin_to_text\<close> writes.\<close>

definition canon_mac :: "addrconv \<Rightarrow> string \<Rightarrow> bool" where
  "canon_mac A t = (case mac_to_bin A t of Inl _ \<Rightarrow> False | Inr b \<Rightarrow> mac_to_text A b = t)"

definition canon_ip4 :: "addrconv \<Rightarrow> string \<Rightarrow> bool" where
  "canon_ip4 A t = (case ip4_to_bin A t of Inl _ \<Rightarrow> False | Inr b \<Rightarrow> ip4_to_text A b = t)"

lemma canon_macE:
  assumes "addrconv_ok A" "canon_mac A t"
  obtains b where "mac_to_bin A t = Inr b" "length b = 6" "mac_to_text A b = t"
  using assms by (auto simp: addrconv_ok_def canon_mac_def split: sum.splits)

lemma canon_ip4E:
  assumes "addrconv_ok A" "canon_ip4 A t"
  obtains b where "ip4_to_bin A t = Inr b" "length b = 4" "ip4_to_text A b = t"
  using assms by (auto simp: addrconv_ok_def canon_ip4_def split: sum.splits)

lemma canon_mac_text: "addrconv_ok A \<Longrightarrow> length b = 6 \<Longrightarrow> canon_mac A (mac_to_text A b)"
  by (simp add: addrconv_ok_def canon_mac_def)

lemma canon_ip4_text: "addrconv_ok A \<Longrightarrow> length b = 4 \<Longrightarrow> canon_ip4 A (ip4_to_text A b)"
  by (simp add: addrconv_ok_def canon_ip4_def)

section \<open>The contract of a header class\<close>

text \<open>
  What \<^verbatim>\<open>Packet\<close> relies on for a header class of fixed layout: for a header with its fields in
  range, \<^verbatim>\<open>serialize\<close> succeeds and \<^verbatim>\<open>parser\<close> gives the header back, with the class of what
  follows (\<open>nxt\<close>), and leaves the bytes that follow untouched.
\<close>

locale header_codec =
  fixes ser :: "'h \<Rightarrow> bytes res"
    and parse :: "bytes \<Rightarrow> ('h \<times> 'c \<times> bytes) res"
    and nxt :: "'h \<Rightarrow> 'c"
    and wf :: "'h \<Rightarrow> bool"
  assumes ser_ok: "wf h \<Longrightarrow> \<exists>bs. ser h = Inr bs"
    and parse_ser: "wf h \<Longrightarrow> ser h = Inr bs \<Longrightarrow> parse (bs @ rest) = Inr (h, nxt h, rest)"
begin

lemma roundtrip:
  "wf h \<Longrightarrow> \<exists>bs. ser h = Inr bs \<and> (\<forall>rest. parse (bs @ rest) = Inr (h, nxt h, rest))"
  using ser_ok parse_ser by blast

lemma ser_prefix_free:
  assumes "wf h" "wf h'" "ser h = Inr bs" "ser h' = Inr bs'" "bs @ rest = bs' @ rest'"
  shows "h = h' \<and> rest = rest'"
proof -
  have "parse (bs @ rest) = Inr (h, nxt h, rest)" using assms by (intro parse_ser)
  moreover have "parse (bs' @ rest') = Inr (h', nxt h', rest')" using assms by (intro parse_ser)
  ultimately show ?thesis using assms(5) by simp
qed

lemma ser_inject: "wf h \<Longrightarrow> wf h' \<Longrightarrow> ser h = ser h' \<longleftrightarrow> h = h'"
  using ser_ok [of h] ser_prefix_free [of h h' _ _ "[]" "[]"] by auto

fun ser_stack :: "'h list \<Rightarrow> bytes res" where
  "ser_stack [] = Inr []"
| "ser_stack (h # hs) = res_bind (ser h) (\<lambda>b. res_bind (ser_stack hs) (\<lambda>r. Inr (b @ r)))"

fun parse_stack :: "nat \<Rightarrow> bytes \<Rightarrow> ('h list \<times> bytes) res" where
  "parse_stack 0 bs = Inr ([], bs)"
| "parse_stack (Suc n) bs =
     res_bind (parse bs) (\<lambda>(h, c, r).
     res_bind (parse_stack n r) (\<lambda>(hs, r'). Inr (h # hs, r')))"

lemma parse_stack_ser_stack:
  "list_all wf hs \<Longrightarrow> \<exists>bs. ser_stack hs = Inr bs \<and>
     parse_stack (length hs) (bs @ rest) = Inr (hs, rest)"
proof (induction hs)
  case Nil
  show ?case by simp
next
  case (Cons h hs)
  from Cons.prems obtain b where b: "ser h = Inr b" using ser_ok by auto
  from Cons obtain r where r: "ser_stack hs = Inr r"
    "parse_stack (length hs) (r @ rest) = Inr (hs, rest)" by auto
  have "parse (b @ r @ rest) = Inr (h, nxt h, r @ rest)"
    using Cons.prems b by (intro parse_ser) simp_all
  with b r show ?case by simp
qed

end

text \<open>The documented behaviour of the address converters, as an interface of the headers.\<close>

locale addr_converter =
  fixes A :: addrconv
  assumes conv_ok: "addrconv_ok A"

end
