(* ===== verification/Packet_Link.thy ===== *)
theory Packet_Link
  imports Py_Struct
begin

text \<open>
  The link-layer headers of \<^verbatim>\<open>ryu/lib/packet/\<close>: \<^verbatim>\<open>ethernet.py\<close>, \<^verbatim>\<open>vlan.py\<close>, \<^verbatim>\<open>mpls.py\<close>, \<^verbatim>\<open>arp.py\<close>,
  \<^verbatim>\<open>llc.py\<close> and \<^verbatim>\<open>vxlan.py\<close>, with the registry \<^verbatim>\<open>PacketBase._TYPES\<close> that selects the class of
  the next header. Field values are Python integers (\<open>int\<close>), addresses are texts converted by
  the parameter \<open>A\<close>. Each class has its \<^verbatim>\<open>parser\<close> and \<^verbatim>\<open>serialize\<close>, the predicate of the headers
  it represents without loss, and an interpretation of \<open>header_codec\<close>.
\<close>

section \<open>The registry of header classes\<close>

datatype pkt_cls =
    C_ethernet | C_vlan | C_svlan | C_mpls | C_arp | C_llc | C_bpdu | C_lldp | C_slow | C_cfm
  | C_itag | C_ipv4 | C_ipv6 | C_icmp | C_icmpv6 | C_igmp | C_tcp | C_udp | C_sctp | C_ospf
  | C_gre | C_dhcp | C_dhcp6 | C_vxlan | C_geneve | C_vrrp

text \<open>
  \<^verbatim>\<open>PacketBase._TYPES\<close> is one dictionary that every class registers into: no subclass of the
  link or network layer defines its own, so EtherTypes, IP protocol numbers and LLC service
  access points share one key space. This is its content once \<^verbatim>\<open>ryu.lib.packet\<close> and its module \<^verbatim>\<open>vrrp\<close>
  are imported (parsing a GRE or Geneve header adds one more entry each).
\<close>

definition packet_types :: "int \<Rightarrow> pkt_cls option" where
  "packet_types = map_of
    [(0x0806, C_arp), (0x0800, C_ipv4), (0x86dd, C_ipv6), (0x88cc, C_lldp), (0x8809, C_slow),
     (0x05dc, C_llc), (0x8902, C_cfm), (0x8100, C_vlan), (0x88e7, C_itag), (0x88a8, C_svlan),
     (0x8847, C_mpls), (1, C_icmp), (2, C_igmp), (6, C_tcp), (17, C_udp), (132, C_sctp),
     (89, C_ospf), (47, C_gre), (58, C_icmpv6), (0x42, C_bpdu), (112, C_vrrp)]"

text \<open>
  \<^verbatim>\<open>ethernet\<close> and \<^verbatim>\<open>vlan\<close> override the look-up: a value up to 1500 is a length and means LLC.
\<close>

definition get_packet_type :: "int \<Rightarrow> pkt_cls option" where
  "get_packet_type t = packet_types t"

definition ethernet_get_packet_type :: "int \<Rightarrow> pkt_cls option" where
  "ethernet_get_packet_type t = (let t = (if t \<le> 0x05dc then 0x05dc else t) in packet_types t)"

section \<open>Ethernet\<close>

record ethernet =
  eth_dst :: string
  eth_src :: string
  eth_ethertype :: int

definition ethernet_fmt :: "fmt list" where
  "ethernet_fmt = [FS 6, FS 6, fH]"

definition ethernet_parser :: "addrconv \<Rightarrow> bytes \<Rightarrow> (ethernet \<times> pkt_cls option \<times> bytes) res" where
  "ethernet_parser A buf =
     res_bind (unpack_from ethernet_fmt buf) (\<lambda>vs.
     case vs of [VS dst, VS src, VI ethertype] \<Rightarrow>
       Inr (\<lparr>eth_dst = mac_to_text A dst, eth_src = mac_to_text A src, eth_ethertype = ethertype\<rparr>,
            ethernet_get_packet_type ethertype, drop (calcsize ethernet_fmt) buf)
     | _ \<Rightarrow> Inl StructError)"

definition ethernet_pack :: "addrconv \<Rightarrow> ethernet \<Rightarrow> bytes res" where
  "ethernet_pack A h =
     res_bind (mac_to_bin A (eth_dst h)) (\<lambda>dst.
     res_bind (mac_to_bin A (eth_src h)) (\<lambda>src.
     pack ethernet_fmt [VS dst, VS src, VI (eth_ethertype h)]))"

text \<open>\<^verbatim>\<open>serialize\<close> first pads the payload, which it is handed by reference, to 46 bytes.\<close>

definition ethernet_serialize :: "addrconv \<Rightarrow> ethernet \<Rightarrow> bytes \<Rightarrow> (bytes \<times> bytes) res" where
  "ethernet_serialize A h payload =
     (let payload = (if 46 - int (length payload) > 0
                     then payload @ replicate (46 - length payload) 0 else payload)
      in res_bind (ethernet_pack A h) (\<lambda>hdr. Inr (hdr, payload)))"

definition ethernet_wf :: "addrconv \<Rightarrow> ethernet \<Rightarrow> bool" where
  "ethernet_wf A h \<longleftrightarrow> canon_mac A (eth_dst h) \<and> canon_mac A (eth_src h) \<and>
     0 \<le> eth_ethertype h \<and> eth_ethertype h < 65536"

lemma ethernet_codec:
  assumes "addrconv_ok A" "ethernet_wf A h"
  shows "\<exists>bs. ethernet_pack A h = Inr bs \<and> length bs = 14 \<and> (\<forall>rest.
    ethernet_parser A (bs @ rest) = Inr (h, ethernet_get_packet_type (eth_ethertype h), rest))"
proof -
  from assms obtain d s where
    d: "mac_to_bin A (eth_dst h) = Inr d" "length d = 6" "mac_to_text A d = eth_dst h" and
    s: "mac_to_bin A (eth_src h) = Inr s" "length s = 6" "mac_to_text A s = eth_src h"
    unfolding ethernet_wf_def by (metis canon_macE)
  let ?vs = "[VS d, VS s, VI (eth_ethertype h)]"
  have f: "fits ethernet_fmt ?vs"
    using assms d s by (simp add: ethernet_fmt_def ethernet_wf_def)
  have l: "length (pack_bytes ethernet_fmt ?vs) = 14"
    using length_pack_bytes [OF f] by (simp add: ethernet_fmt_def)
  show ?thesis
    using d s l unpack_from_pack_bytes [OF f] pack_fits [OF f]
    by (simp add: ethernet_pack_def ethernet_parser_def ethernet_fmt_def [THEN arg_cong, of calcsize])
qed

section \<open>VLAN tags\<close>

text \<open>\<^verbatim>\<open>vlan\<close> and \<^verbatim>\<open>svlan\<close> share their parser and serializer in the base class \<^verbatim>\<open>_vlan\<close>.\<close>

record vlan =
  vlan_pcp :: int
  vlan_cfi :: int
  vlan_vid :: int
  vlan_ethertype :: int

definition vlan_fmt :: "fmt list" where
  "vlan_fmt = [fH, fH]"

definition vlan_parser :: "bytes \<Rightarrow> (vlan \<times> pkt_cls option \<times> bytes) res" where
  "vlan_parser buf =
     res_bind (unpack_from vlan_fmt buf) (\<lambda>vs.
     case vs of [VI tci, VI ethertype] \<Rightarrow>
       Inr (\<lparr>vlan_pcp = drop_bit 13 tci, vlan_cfi = drop_bit 12 tci AND 1,
             vlan_vid = tci AND (push_bit 12 1 - 1), vlan_ethertype = ethertype\<rparr>,
            ethernet_get_packet_type ethertype, drop (calcsize vlan_fmt) buf)
     | _ \<Rightarrow> Inl StructError)"

definition vlan_serialize :: "vlan \<Rightarrow> bytes res" where
  "vlan_serialize h =
     (let tci = push_bit 13 (vlan_pcp h) OR push_bit 12 (vlan_cfi h) OR vlan_vid h
      in pack vlan_fmt [VI tci, VI (vlan_ethertype h)])"

definition vlan_wf :: "vlan \<Rightarrow> bool" where
  "vlan_wf h \<longleftrightarrow> 0 \<le> vlan_pcp h \<and> vlan_pcp h < 8 \<and> 0 \<le> vlan_cfi h \<and> vlan_cfi h < 2 \<and>
     0 \<le> vlan_vid h \<and> vlan_vid h < 4096 \<and> 0 \<le> vlan_ethertype h \<and> vlan_ethertype h < 65536"

lemma vlan_tci: "vlan_wf h \<Longrightarrow>
    push_bit 13 (vlan_pcp h) OR push_bit 12 (vlan_cfi h) OR vlan_vid h
      = vlan_pcp h * 8192 + vlan_cfi h * 4096 + vlan_vid h"
  by (subst or3_disjoint_add) (auto simp: vlan_wf_def)

lemma vlan_codec:
  assumes "vlan_wf h"
  shows "\<exists>bs. vlan_serialize h = Inr bs \<and> length bs = 4 \<and> (\<forall>rest.
    vlan_parser (bs @ rest) = Inr (h, ethernet_get_packet_type (vlan_ethertype h), rest))"
proof -
  let ?t = "vlan_pcp h * 8192 + vlan_cfi h * 4096 + vlan_vid h"
  let ?vs = "[VI ?t, VI (vlan_ethertype h)]"
  have f: "fits vlan_fmt ?vs" using assms by (simp add: vlan_fmt_def vlan_wf_def)
  have l: "length (pack_bytes vlan_fmt ?vs) = 4"
    using length_pack_bytes [OF f] by (simp add: vlan_fmt_def)
  have b: "?t div 8192 = vlan_pcp h" "(?t div 4096) mod 2 = vlan_cfi h" "?t mod 4096 = vlan_vid h"
  proof -
    have w: "0 \<le> vlan_cfi h" "vlan_cfi h < 2" "0 \<le> vlan_vid h" "vlan_vid h < 4096"
      using assms by (simp_all add: vlan_wf_def)
    have t: "?t = vlan_pcp h * 8192 + (vlan_cfi h * 4096 + vlan_vid h)"
      "?t = (vlan_pcp h * 2 + vlan_cfi h) * 4096 + vlan_vid h" by simp_all
    show "?t div 8192 = vlan_pcp h" unfolding t(1) using w by (intro field_div) linarith+
    have "?t div 4096 = vlan_pcp h * 2 + vlan_cfi h"
      unfolding t(2) using w by (intro field_div) linarith+
    then show "(?t div 4096) mod 2 = vlan_cfi h" using w by (simp add: field_mod)
    show "?t mod 4096 = vlan_vid h" unfolding t(2) using w by (intro field_mod) linarith+
  qed
  have "\<lparr>vlan_pcp = drop_bit 13 ?t, vlan_cfi = drop_bit 12 ?t AND 1,
      vlan_vid = ?t AND (push_bit 12 1 - 1), vlan_ethertype = vlan_ethertype h\<rparr> = h"
    using b by (simp add: mask_simps)
  then show ?thesis
    using l unpack_from_pack_bytes [OF f] pack_fits [OF f]
    by (simp add: vlan_serialize_def vlan_parser_def vlan_tci [OF assms]
        vlan_fmt_def [THEN arg_cong, of calcsize])
qed

text \<open>
  \<^verbatim>\<open>svlan\<close> inherits \<^verbatim>\<open>_vlan.parser\<close>, which asks \<^verbatim>\<open>vlan.get_packet_type\<close> and not
  \<^verbatim>\<open>cls.get_packet_type\<close>: the two classes parse alike, and differ in the default EtherType only.
\<close>

interpretation vlan: header_codec vlan_serialize vlan_parser
    "\<lambda>h. ethernet_get_packet_type (vlan_ethertype h)" vlan_wf
  by unfold_locales (use vlan_codec in force)+

section \<open>MPLS\<close>

record mpls =
  mpls_label :: int
  mpls_exp :: int
  mpls_bsb :: int
  mpls_ttl :: int

definition mpls_fmt :: "fmt list" where
  "mpls_fmt = [fI]"

definition mpls_next :: "mpls \<Rightarrow> pkt_cls option" where
  "mpls_next h = (if mpls_bsb h \<noteq> 0 then Some C_ipv4 else Some C_mpls)"

definition mpls_parser :: "bytes \<Rightarrow> (mpls \<times> pkt_cls option \<times> bytes) res" where
  "mpls_parser buf =
     res_bind (unpack_from mpls_fmt buf) (\<lambda>vs.
     case vs of [VI label] \<Rightarrow>
       (let msg = \<lparr>mpls_label = drop_bit 12 label, mpls_exp = drop_bit 9 label AND 7,
                   mpls_bsb = drop_bit 8 label AND 1, mpls_ttl = label AND 0xff\<rparr>
        in Inr (msg, mpls_next msg, drop (calcsize mpls_fmt) buf))
     | _ \<Rightarrow> Inl StructError)"

definition mpls_serialize :: "mpls \<Rightarrow> bytes res" where
  "mpls_serialize h =
     (let val = push_bit 12 (mpls_label h) OR push_bit 9 (mpls_exp h) OR
                push_bit 8 (mpls_bsb h) OR mpls_ttl h
      in pack mpls_fmt [VI val])"

definition mpls_wf :: "mpls \<Rightarrow> bool" where
  "mpls_wf h \<longleftrightarrow> 0 \<le> mpls_label h \<and> mpls_label h < 1048576 \<and> 0 \<le> mpls_exp h \<and> mpls_exp h < 8 \<and>
     0 \<le> mpls_bsb h \<and> mpls_bsb h < 2 \<and> 0 \<le> mpls_ttl h \<and> mpls_ttl h < 256"

lemma mpls_val:
  assumes "mpls_wf h"
  shows "push_bit 12 (mpls_label h) OR push_bit 9 (mpls_exp h) OR push_bit 8 (mpls_bsb h) OR
      mpls_ttl h = mpls_label h * 4096 + (mpls_exp h * 512 + (mpls_bsb h * 256 + mpls_ttl h))"
proof -
  have "push_bit 9 (mpls_exp h) OR push_bit 8 (mpls_bsb h) OR mpls_ttl h
      = mpls_exp h * 2 ^ 9 + mpls_bsb h * 2 ^ 8 + mpls_ttl h"
    using assms by (intro or3_disjoint_add) (simp_all add: mpls_wf_def)
  then show ?thesis
    using or_disjoint_add [of "mpls_exp h * 512 + (mpls_bsb h * 256 + mpls_ttl h)" 12 "mpls_label h"]
      assms by (simp add: mpls_wf_def or.assoc push_bit_eq_mult add.assoc)
qed

lemma mpls_fields:
  assumes "mpls_wf h" "v = mpls_label h * 4096 + (mpls_exp h * 512 + (mpls_bsb h * 256 + mpls_ttl h))"
  shows "v div 4096 = mpls_label h" "v div 512 mod 8 = mpls_exp h"
    "v div 256 mod 2 = mpls_bsb h" "v mod 256 = mpls_ttl h"
proof -
  have w: "0 \<le> mpls_exp h" "mpls_exp h < 8" "0 \<le> mpls_bsb h" "mpls_bsb h < 2"
    "0 \<le> mpls_ttl h" "mpls_ttl h < 256"
    using assms by (simp_all add: mpls_wf_def)
  show "v div 4096 = mpls_label h"
    unfolding assms(2) using w by (intro field_div) linarith+
  have v: "v = (mpls_label h * 8 + mpls_exp h) * 512 + (mpls_bsb h * 256 + mpls_ttl h)"
    "v = ((mpls_label h * 8 + mpls_exp h) * 2 + mpls_bsb h) * 256 + mpls_ttl h"
    by (simp_all add: assms(2))
  have "v div 512 = mpls_label h * 8 + mpls_exp h"
    unfolding v(1) using w by (intro field_div) linarith+
  then show "v div 512 mod 8 = mpls_exp h" using w by (simp add: field_mod)
  have "v div 256 = (mpls_label h * 8 + mpls_exp h) * 2 + mpls_bsb h"
    unfolding v(2) using w by (intro field_div) linarith+
  then show "v div 256 mod 2 = mpls_bsb h" using w by (simp only: field_mod)
  show "v mod 256 = mpls_ttl h"
    unfolding v(2) using w by (intro field_mod) linarith+
qed

lemma mpls_codec:
  assumes "mpls_wf h"
  shows "\<exists>bs. mpls_serialize h = Inr bs \<and> length bs = 4 \<and>
    (\<forall>rest. mpls_parser (bs @ rest) = Inr (h, mpls_next h, rest))"
proof -
  define v where "v = mpls_label h * 4096 + (mpls_exp h * 512 + (mpls_bsb h * 256 + mpls_ttl h))"
  have f: "fits mpls_fmt [VI v]" using assms by (simp add: mpls_fmt_def mpls_wf_def v_def)
  have l: "length (pack_bytes mpls_fmt [VI v]) = 4"
    using length_pack_bytes [OF f] by (simp add: mpls_fmt_def)
  have "\<lparr>mpls_label = drop_bit 12 v, mpls_exp = drop_bit 9 v AND 7,
      mpls_bsb = drop_bit 8 v AND 1, mpls_ttl = v AND 0xff\<rparr> = h"
    using mpls_fields [OF assms v_def] by (simp add: mask_simps)
  then show ?thesis
    using l unpack_from_pack_bytes [OF f] pack_fits [OF f]
    by (simp add: mpls_serialize_def mpls_parser_def mpls_val [OF assms] Let_def
        mpls_fmt_def [THEN arg_cong, of calcsize] flip: v_def)
qed

interpretation mpls: header_codec mpls_serialize mpls_parser mpls_next mpls_wf
  by unfold_locales (use mpls_codec in force)+

section \<open>ARP\<close>

record arp =
  arp_hwtype :: int
  arp_proto :: int
  arp_hlen :: int
  arp_plen :: int
  arp_opcode :: int
  arp_src_mac :: string
  arp_src_ip :: string
  arp_dst_mac :: string
  arp_dst_ip :: string

definition arp_fmt :: "fmt list" where
  "arp_fmt = [fH, fH, fB, fB, fH, FS 6, FS 4, FS 6, FS 4]"

definition arp_parser :: "addrconv \<Rightarrow> bytes \<Rightarrow> (arp \<times> pkt_cls option \<times> bytes) res" where
  "arp_parser A buf =
     res_bind (unpack_from arp_fmt buf) (\<lambda>vs.
     case vs of [VI hwtype, VI proto, VI hlen, VI plen, VI opcode, VS src_mac, VS src_ip,
                 VS dst_mac, VS dst_ip] \<Rightarrow>
       Inr (\<lparr>arp_hwtype = hwtype, arp_proto = proto, arp_hlen = hlen, arp_plen = plen,
             arp_opcode = opcode, arp_src_mac = mac_to_text A src_mac,
             arp_src_ip = ip4_to_text A src_ip, arp_dst_mac = mac_to_text A dst_mac,
             arp_dst_ip = ip4_to_text A dst_ip\<rparr>, None, drop (calcsize arp_fmt) buf)
     | _ \<Rightarrow> Inl StructError)"

definition arp_serialize :: "addrconv \<Rightarrow> arp \<Rightarrow> bytes res" where
  "arp_serialize A h =
     res_bind (mac_to_bin A (arp_src_mac h)) (\<lambda>src_mac.
     res_bind (ip4_to_bin A (arp_src_ip h)) (\<lambda>src_ip.
     res_bind (mac_to_bin A (arp_dst_mac h)) (\<lambda>dst_mac.
     res_bind (ip4_to_bin A (arp_dst_ip h)) (\<lambda>dst_ip.
     pack arp_fmt [VI (arp_hwtype h), VI (arp_proto h), VI (arp_hlen h), VI (arp_plen h),
       VI (arp_opcode h), VS src_mac, VS src_ip, VS dst_mac, VS dst_ip]))))"

definition arp_wf :: "addrconv \<Rightarrow> arp \<Rightarrow> bool" where
  "arp_wf A h \<longleftrightarrow> 0 \<le> arp_hwtype h \<and> arp_hwtype h < 65536 \<and> 0 \<le> arp_proto h \<and> arp_proto h < 65536 \<and>
     0 \<le> arp_hlen h \<and> arp_hlen h < 256 \<and> 0 \<le> arp_plen h \<and> arp_plen h < 256 \<and>
     0 \<le> arp_opcode h \<and> arp_opcode h < 65536 \<and>
     canon_mac A (arp_src_mac h) \<and> canon_ip4 A (arp_src_ip h) \<and>
     canon_mac A (arp_dst_mac h) \<and> canon_ip4 A (arp_dst_ip h)"

definition arp_ip :: "int \<Rightarrow> string \<Rightarrow> string \<Rightarrow> string \<Rightarrow> string \<Rightarrow> arp" where
  "arp_ip opcode src_mac src_ip dst_mac dst_ip =
     \<lparr>arp_hwtype = 1, arp_proto = 0x0800, arp_hlen = 6, arp_plen = 4, arp_opcode = opcode,
      arp_src_mac = src_mac, arp_src_ip = src_ip, arp_dst_mac = dst_mac, arp_dst_ip = dst_ip\<rparr>"

lemma arp_codec:
  assumes "addrconv_ok A" "arp_wf A h"
  shows "\<exists>bs. arp_serialize A h = Inr bs \<and> length bs = 28 \<and>
    (\<forall>rest. arp_parser A (bs @ rest) = Inr (h, None, rest))"
proof -
  from assms obtain sm si dm di where
    sm: "mac_to_bin A (arp_src_mac h) = Inr sm" "length sm = 6" "mac_to_text A sm = arp_src_mac h" and
    si: "ip4_to_bin A (arp_src_ip h) = Inr si" "length si = 4" "ip4_to_text A si = arp_src_ip h" and
    dm: "mac_to_bin A (arp_dst_mac h) = Inr dm" "length dm = 6" "mac_to_text A dm = arp_dst_mac h" and
    di: "ip4_to_bin A (arp_dst_ip h) = Inr di" "length di = 4" "ip4_to_text A di = arp_dst_ip h"
    unfolding arp_wf_def by (metis canon_macE canon_ip4E)
  let ?vs = "[VI (arp_hwtype h), VI (arp_proto h), VI (arp_hlen h), VI (arp_plen h),
       VI (arp_opcode h), VS sm, VS si, VS dm, VS di]"
  have f: "fits arp_fmt ?vs"
    using assms sm(2) si(2) dm(2) di(2) by (simp add: arp_fmt_def arp_wf_def)
  have l: "length (pack_bytes arp_fmt ?vs) = 28"
    using length_pack_bytes [OF f] by (simp add: arp_fmt_def)
  show ?thesis
    using sm si dm di l unpack_from_pack_bytes [OF f] pack_fits [OF f]
    by (simp add: arp_serialize_def arp_parser_def arp_fmt_def [THEN arg_cong, of calcsize])
qed

section \<open>VXLAN\<close>

record vxlan =
  vxlan_vni :: int

definition vxlan_fmt :: "fmt list" where
  "vxlan_fmt = [fI, fI]"

definition vxlan_parser :: "bytes \<Rightarrow> (vxlan \<times> pkt_cls option \<times> bytes) res" where
  "vxlan_parser buf =
     res_bind (unpack_from vxlan_fmt buf) (\<lambda>vs.
     case vs of [VI flags_reserved, VI vni_reserved] \<Rightarrow>
       res_bind (assertR (push_bit 3 1 = drop_bit 24 flags_reserved)) (\<lambda>_.
       Inr (\<lparr>vxlan_vni = drop_bit 8 vni_reserved\<rparr>, Some C_ethernet, drop (calcsize vxlan_fmt) buf))
     | _ \<Rightarrow> Inl StructError)"

definition vxlan_serialize :: "vxlan \<Rightarrow> bytes res" where
  "vxlan_serialize h = pack vxlan_fmt [VI (push_bit (3 + 24) 1), VI (push_bit 8 (vxlan_vni h))]"

definition vxlan_wf :: "vxlan \<Rightarrow> bool" where
  "vxlan_wf h \<longleftrightarrow> 0 \<le> vxlan_vni h \<and> vxlan_vni h < 16777216"

lemma vxlan_codec:
  assumes "vxlan_wf h"
  shows "\<exists>bs. vxlan_serialize h = Inr bs \<and> length bs = 8 \<and>
    (\<forall>rest. vxlan_parser (bs @ rest) = Inr (h, Some C_ethernet, rest))"
proof -
  let ?vs = "[VI (push_bit (3 + 24) 1), VI (push_bit 8 (vxlan_vni h))]"
  have f: "fits vxlan_fmt ?vs"
    using assms by (simp add: vxlan_fmt_def vxlan_wf_def push_bit_eq_mult)
  have l: "length (pack_bytes vxlan_fmt ?vs) = 8"
    using length_pack_bytes [OF f] by (simp add: vxlan_fmt_def)
  have "drop_bit 8 (push_bit 8 (vxlan_vni h)) = vxlan_vni h"
    by (simp add: drop_bit_eq_div push_bit_eq_mult)
  then show ?thesis
    using l unpack_from_pack_bytes [OF f] pack_fits [OF f]
    by (simp add: vxlan_serialize_def vxlan_parser_def push_bit_eq_mult [of _ "1 :: int"]
        drop_bit_eq_div [of 24] vxlan_fmt_def [THEN arg_cong, of calcsize])
qed

interpretation vxlan: header_codec vxlan_serialize vxlan_parser "\<lambda>_. Some C_ethernet" vxlan_wf
  by unfold_locales (use vxlan_codec in force)+

section \<open>LLC\<close>

text \<open>The control field: I-format and S-format are two bytes, U-format is one.\<close>

datatype llc_control =
    ControlFormatI (cf_send: int) (cf_pf: int) (cf_recv: int)
  | ControlFormatS (cf_super: int) (cf_pf: int) (cf_recv: int)
  | ControlFormatU (cf_mod1: int) (cf_pf: int) (cf_mod2: int)

record llc =
  llc_dsap :: int
  llc_ssap :: int
  llc_ctrl :: llc_control

definition control_i_parser :: "bytes \<Rightarrow> (llc_control \<times> bytes) res" where
  "control_i_parser buf =
     res_bind (assertR (length buf \<ge> 2)) (\<lambda>_.
     res_bind (unpack_from [fH] buf) (\<lambda>vs.
     case vs of [VI control] \<Rightarrow>
       res_bind (assertR (drop_bit 8 control AND 1 = 0)) (\<lambda>_.
       Inr (ControlFormatI (drop_bit 9 control AND 127) (drop_bit 8 control AND 1)
              (drop_bit 1 control AND 127), drop 2 buf))
     | _ \<Rightarrow> Inl StructError))"

definition control_s_parser :: "bytes \<Rightarrow> (llc_control \<times> bytes) res" where
  "control_s_parser buf =
     res_bind (assertR (length buf \<ge> 2)) (\<lambda>_.
     res_bind (unpack_from [fH] buf) (\<lambda>vs.
     case vs of [VI control] \<Rightarrow>
       res_bind (assertR (drop_bit 8 control AND 3 = 1)) (\<lambda>_.
       Inr (ControlFormatS (drop_bit 10 control AND 3) (drop_bit 8 control AND 1)
              (drop_bit 1 control AND 127), drop 2 buf))
     | _ \<Rightarrow> Inl StructError))"

definition control_u_parser :: "bytes \<Rightarrow> (llc_control \<times> bytes) res" where
  "control_u_parser buf =
     res_bind (assertR (length buf \<ge> 1)) (\<lambda>_.
     res_bind (unpack_from [fB] buf) (\<lambda>vs.
     case vs of [VI control] \<Rightarrow>
       res_bind (assertR (control AND 3 = 3)) (\<lambda>_.
       Inr (ControlFormatU (drop_bit 2 control AND 3) (drop_bit 4 control AND 1)
              (drop_bit 5 control AND 7), drop 1 buf))
     | _ \<Rightarrow> Inl StructError))"

fun control_serialize :: "llc_control \<Rightarrow> bytes res" where
  "control_serialize (ControlFormatI ssn pf rsn) =
     pack [fH] [VI (push_bit 9 ssn OR push_bit 8 0 OR push_bit 1 rsn OR pf)]"
| "control_serialize (ControlFormatS sf pf rsn) =
     pack [fH] [VI (push_bit 10 sf OR push_bit 8 1 OR push_bit 1 rsn OR pf)]"
| "control_serialize (ControlFormatU m1 pf m2) =
     pack [fB] [VI (push_bit 5 m2 OR push_bit 4 pf OR push_bit 2 m1 OR 3)]"

text \<open>\<^verbatim>\<open>_get_control\<close> looks the low bits of the first control byte up in \<^verbatim>\<open>_CTR_TYPES\<close>.\<close>

definition llc_get_control :: "int \<Rightarrow> (bytes \<Rightarrow> (llc_control \<times> bytes) res) res" where
  "llc_get_control c =
     (let key = (if c AND 1 = 0 then c AND 1 else c AND 3)
      in if key = 0 then Inr control_i_parser
         else if key = 1 then Inr control_s_parser
         else if key = 3 then Inr control_u_parser
         else Inl KeyError)"

definition llc_parser :: "bytes \<Rightarrow> (llc \<times> pkt_cls option \<times> bytes) res" where
  "llc_parser buf =
     res_bind (assertR (length buf \<ge> 2)) (\<lambda>_.
     res_bind (unpack_from [fB, fB] buf) (\<lambda>vs.
     case vs of [VI dsap, VI ssap] \<Rightarrow>
       res_bind (unpack_from [FX 2, fB] buf) (\<lambda>ws.
       case ws of [VI control] \<Rightarrow>
         res_bind (llc_get_control control) (\<lambda>ctrl.
         res_bind (ctrl (drop 2 buf)) (\<lambda>(c, information).
         Inr (\<lparr>llc_dsap = dsap, llc_ssap = ssap, llc_ctrl = c\<rparr>, get_packet_type dsap,
              information)))
       | _ \<Rightarrow> Inl StructError)
     | _ \<Rightarrow> Inl StructError))"

definition llc_serialize :: "llc \<Rightarrow> bytes res" where
  "llc_serialize h =
     res_bind (pack [fB, fB] [VI (llc_dsap h), VI (llc_ssap h)]) (\<lambda>addr.
     res_bind (control_serialize (llc_ctrl h)) (\<lambda>control. Inr (addr @ control)))"

text \<open>
  The I- and S-format parsers read the poll/final bit from bit 8, where the serializers (and
  IEEE 802.2) have the type, so only the values fixed by the type survive.
\<close>

fun control_range :: "llc_control \<Rightarrow> bool" where
  "control_range (ControlFormatI ssn pf rsn) \<longleftrightarrow>
     0 \<le> ssn \<and> ssn < 128 \<and> 0 \<le> pf \<and> pf < 2 \<and> 0 \<le> rsn \<and> rsn < 128"
| "control_range (ControlFormatS sf pf rsn) \<longleftrightarrow>
     0 \<le> sf \<and> sf < 4 \<and> 0 \<le> pf \<and> pf < 2 \<and> 0 \<le> rsn \<and> rsn < 128"
| "control_range (ControlFormatU m1 pf m2) \<longleftrightarrow>
     0 \<le> m1 \<and> m1 < 4 \<and> 0 \<le> pf \<and> pf < 2 \<and> 0 \<le> m2 \<and> m2 < 8"

fun control_reread :: "llc_control \<Rightarrow> llc_control" where
  "control_reread (ControlFormatI ssn pf rsn) = ControlFormatI ssn 0 rsn"
| "control_reread (ControlFormatS sf pf rsn) = ControlFormatS sf 1 rsn"
| "control_reread (ControlFormatU m1 pf m2) = ControlFormatU m1 pf m2"

definition llc_range :: "llc \<Rightarrow> bool" where
  "llc_range h \<longleftrightarrow> 0 \<le> llc_dsap h \<and> llc_dsap h < 256 \<and> 0 \<le> llc_ssap h \<and> llc_ssap h < 256 \<and>
     control_range (llc_ctrl h)"

definition llc_wf :: "llc \<Rightarrow> bool" where
  "llc_wf h \<longleftrightarrow> llc_range h \<and> control_reread (llc_ctrl h) = llc_ctrl h"

text \<open>The three control words as sums, with their first byte.\<close>

lemma control_i_word:
  fixes ssn rsn pf :: int
  shows "0 \<le> pf \<Longrightarrow> pf < 2 \<Longrightarrow> 0 \<le> rsn \<Longrightarrow> rsn < 128 \<Longrightarrow>
     push_bit 9 ssn OR push_bit 8 0 OR push_bit 1 rsn OR pf = ssn * 512 + (rsn * 2 + pf)"
  using or3_disjoint_add [of rsn 1 pf 9 ssn] by (simp add: or.assoc)

lemma control_s_word:
  fixes sf rsn pf :: int
  assumes "0 \<le> pf" "pf < 2" "0 \<le> rsn" "rsn < 128"
  shows "push_bit 10 sf OR push_bit 8 1 OR push_bit 1 rsn OR pf
    = sf * 1024 + (256 + (rsn * 2 + pf))"
proof -
  have "push_bit 8 1 OR push_bit 1 rsn OR pf = 256 + (rsn * 2 + pf)"
    using assms or3_disjoint_add [of rsn 1 pf 8 1] by (simp add: or.assoc)
  then show ?thesis
    using assms or_disjoint_add [of "256 + (rsn * 2 + pf)" 10 sf]
    by (simp add: or.assoc push_bit_eq_mult)
qed

lemma control_u_word:
  fixes m1 m2 pf :: int
  assumes "0 \<le> pf" "pf < 2" "0 \<le> m1" "m1 < 4"
  shows "push_bit 5 m2 OR push_bit 4 pf OR push_bit 2 m1 OR 3 = m2 * 32 + (pf * 16 + (m1 * 4 + 3))"
proof -
  have "push_bit 4 pf OR push_bit 2 m1 OR 3 = pf * 16 + (m1 * 4 + 3)"
    using assms or3_disjoint_add [of m1 2 3 4 pf] by (simp add: or.assoc)
  then show ?thesis
    using assms or_disjoint_add [of "pf * 16 + (m1 * 4 + 3)" 5 m2]
    by (simp add: or.assoc push_bit_eq_mult)
qed

lemma hd_be_bytes2:
  "0 \<le> w \<Longrightarrow> w < 65536 \<Longrightarrow> uint (hd (be_bytes 2 w)) = w div 256"
  by (simp add: numeral_2_eq_2 uint_word_of_int_byte)

lemma be_bytes2_neq_Nil: "be_bytes 2 w \<noteq> []"
  using length_be_bytes [of 2 w] by (metis list.size(3) zero_neq_numeral)

lemma unpack_H: "0 \<le> w \<Longrightarrow> w < 65536 \<Longrightarrow> unpack_from [fH] (be_bytes 2 w @ rest) = Inr [VI w]"
  by (simp add: unpack_from_def)

lemma unpack_B:
  "0 \<le> w \<Longrightarrow> w < 256 \<Longrightarrow> unpack_from [fB] (be_bytes (Suc 0) w @ rest) = Inr [VI w]"
  using be_int_be_bytes [of w "Suc 0"] by (simp add: unpack_from_def)

lemma control_i_codec:
  assumes "control_range (ControlFormatI ssn pf rsn)"
  shows "\<exists>bs p. control_serialize (ControlFormatI ssn pf rsn) = Inr bs \<and> bs \<noteq> [] \<and>
    llc_get_control (uint (hd bs)) = Inr p \<and> (\<forall>rest. p (bs @ rest) = Inr (ControlFormatI ssn 0 rsn, rest))"
proof -
  define w where "w = ssn * 512 + (rsn * 2 + pf)"
  have r: "0 \<le> ssn" "ssn < 128" "0 \<le> pf" "pf < 2" "0 \<le> rsn" "rsn < 128" using assms by auto
  have w: "0 \<le> w" "w < 65536" using r by (simp_all add: w_def)
  have d3: "w div 512 = ssn"
    by (rule field_divI [where r = "rsn * 2 + pf"]) (use r w_def in simp_all)
  have d: "w div 256 = ssn * 2"
    by (rule field_divI [where r = "rsn * 2 + pf"]) (use r w_def in simp_all)
  have m: "w div 256 mod 2 = 0" unfolding d by simp
  have d1: "w div 2 mod 128 = rsn"
  proof -
    have "w div 2 = ssn * 256 + rsn"
      by (rule field_divI [where r = pf]) (use r w_def in simp_all)
    then show ?thesis
      by (intro field_modI [where a = "ssn * 2"]) (use r in simp_all)
  qed
  have d4: "ssn mod 128 = ssn" using r by simp
  have p: "control_i_parser (be_bytes 2 w @ rest) = Inr (ControlFormatI ssn 0 rsn, rest)" for rest
    by (simp add: control_i_parser_def unpack_H [OF w] mask_simps m d1 d3 d4)
  show ?thesis
  proof (intro exI conjI allI)
    show "control_serialize (ControlFormatI ssn pf rsn) = Inr (be_bytes 2 w)"
      using w control_i_word [OF r(3-6), of ssn] by (simp flip: w_def)
    show "llc_get_control (uint (hd (be_bytes 2 w))) = Inr control_i_parser"
      by (simp add: llc_get_control_def hd_be_bytes2 [OF w] mask_simps m)
  qed (use p be_bytes2_neq_Nil in auto)
qed

lemma control_s_codec:
  assumes "control_range (ControlFormatS sf pf rsn)"
  shows "\<exists>bs p. control_serialize (ControlFormatS sf pf rsn) = Inr bs \<and> bs \<noteq> [] \<and>
    llc_get_control (uint (hd bs)) = Inr p \<and> (\<forall>rest. p (bs @ rest) = Inr (ControlFormatS sf 1 rsn, rest))"
proof -
  define w where "w = sf * 1024 + (256 + (rsn * 2 + pf))"
  have r: "0 \<le> sf" "sf < 4" "0 \<le> pf" "pf < 2" "0 \<le> rsn" "rsn < 128" using assms by auto
  have w: "0 \<le> w" "w < 65536" using r by (simp_all add: w_def)
  have d3: "w div 1024 = sf"
    by (rule field_divI [where r = "256 + (rsn * 2 + pf)"]) (use r w_def in simp_all)
  have d: "w div 256 = sf * 4 + 1"
    by (rule field_divI [where r = "rsn * 2 + pf"]) (use r w_def in simp_all)
  have m: "w div 256 mod 4 = 1" "w div 256 mod 2 = 1"
    unfolding d by (rule field_modI [where a = sf], simp_all)
      (rule field_modI [where a = "sf * 2"], simp_all)
  have d1: "w div 2 mod 128 = rsn"
  proof -
    have "w div 2 = sf * 512 + (128 + rsn)"
      by (rule field_divI [where r = pf]) (use r w_def in simp_all)
    then show ?thesis
      by (intro field_modI [where a = "sf * 4 + 1"]) (use r in simp_all)
  qed
  have d4: "sf mod 4 = sf" using r by simp
  have p: "control_s_parser (be_bytes 2 w @ rest) = Inr (ControlFormatS sf 1 rsn, rest)" for rest
    by (simp add: control_s_parser_def unpack_H [OF w] mask_simps m d1 d3 d4)
  show ?thesis
  proof (intro exI conjI allI)
    show "control_serialize (ControlFormatS sf pf rsn) = Inr (be_bytes 2 w)"
      using w control_s_word [OF r(3-6), of sf] by (simp flip: w_def)
    show "llc_get_control (uint (hd (be_bytes 2 w))) = Inr control_s_parser"
      by (simp add: llc_get_control_def hd_be_bytes2 [OF w] mask_simps m)
  qed (use p be_bytes2_neq_Nil in auto)
qed

lemma control_u_codec:
  assumes "control_range (ControlFormatU m1 pf m2)"
  shows "\<exists>bs p. control_serialize (ControlFormatU m1 pf m2) = Inr bs \<and> bs \<noteq> [] \<and>
    llc_get_control (uint (hd bs)) = Inr p \<and> (\<forall>rest. p (bs @ rest) = Inr (ControlFormatU m1 pf m2, rest))"
proof -
  define w where "w = m2 * 32 + (pf * 16 + (m1 * 4 + 3))"
  have r: "0 \<le> m1" "m1 < 4" "0 \<le> pf" "pf < 2" "0 \<le> m2" "m2 < 8" using assms by auto
  have w: "0 \<le> w" "w < 256" using r by (simp_all add: w_def)
  have m: "w mod 4 = 3"
    by (rule field_modI [where a = "m2 * 8 + (pf * 4 + m1)"]) (use r w_def in simp_all)
  have m2: "w mod 2 = 1"
    by (rule field_modI [where a = "m2 * 16 + (pf * 8 + (m1 * 2 + 1))"]) (use r w_def in simp_all)
  have d1: "w div 4 mod 4 = m1"
  proof -
    have "w div 4 = m2 * 8 + (pf * 4 + m1)"
      by (rule field_divI [where r = 3]) (use r w_def in simp_all)
    then show ?thesis
      by (intro field_modI [where a = "m2 * 2 + pf"]) (use r in simp_all)
  qed
  have d2: "w div 16 mod 2 = pf"
  proof -
    have "w div 16 = m2 * 2 + pf"
      by (rule field_divI [where r = "m1 * 4 + 3"]) (use r w_def in simp_all)
    then show ?thesis
      by (intro field_modI [where a = m2]) (use r in simp_all)
  qed
  have d3: "w div 32 mod 8 = m2"
  proof -
    have "w div 32 = m2"
      by (rule field_divI [where r = "pf * 16 + (m1 * 4 + 3)"]) (use r w_def in simp_all)
    then show ?thesis using r by simp
  qed
  have p: "control_u_parser (be_bytes (Suc 0) w @ rest) = Inr (ControlFormatU m1 pf m2, rest)"
    and g: "llc_get_control w = Inr control_u_parser" for rest
    by (simp_all add: control_u_parser_def llc_get_control_def unpack_B [OF w] mask_simps m m2 d1 d2 d3
        del: be_bytes.simps)
  show ?thesis
  proof (intro exI conjI allI)
    show "control_serialize (ControlFormatU m1 pf m2) = Inr (be_bytes (Suc 0) w)"
      using w control_u_word [OF r(3,4,1,2), of m2]
      by (simp add: pack_uint_def flip: w_def del: be_bytes.simps)
    show "be_bytes (Suc 0) w \<noteq> []" by simp
    show "llc_get_control (uint (hd (be_bytes (Suc 0) w))) = Inr control_u_parser"
      using g w by (simp add: uint_word_of_int_byte)
  qed (use p in blast)
qed

lemma control_codec:
  assumes "control_range c"
  shows "\<exists>bs p. control_serialize c = Inr bs \<and> bs \<noteq> [] \<and> llc_get_control (uint (hd bs)) = Inr p \<and>
    (\<forall>rest. p (bs @ rest) = Inr (control_reread c, rest))"
  using assms control_i_codec control_s_codec control_u_codec by (cases c) auto

lemma llc_reread_codec:
  assumes "llc_range h"
  shows "\<exists>bs. llc_serialize h = Inr bs \<and> (\<forall>rest. llc_parser (bs @ rest) =
    Inr (h\<lparr>llc_ctrl := control_reread (llc_ctrl h)\<rparr>, get_packet_type (llc_dsap h), rest))"
proof -
  from assms have "control_range (llc_ctrl h)" by (simp add: llc_range_def)
  from control_codec [OF this] obtain cs p where
    cs: "control_serialize (llc_ctrl h) = Inr cs" "cs \<noteq> []" "llc_get_control (uint (hd cs)) = Inr p"
      "\<And>rest. p (cs @ rest) = Inr (control_reread (llc_ctrl h), rest)" by blast
  have f: "fits [fB, fB] [VI (llc_dsap h), VI (llc_ssap h)]"
    using assms by (simp add: llc_range_def)
  define ab where "ab = pack_bytes [fB, fB] [VI (llc_dsap h), VI (llc_ssap h)]"
  have l: "length ab = 2" using length_pack_bytes [OF f] by (simp add: ab_def)
  have u: "unpack_from [fB, fB] (ab @ r) = Inr [VI (llc_dsap h), VI (llc_ssap h)]" for r
    unfolding ab_def by (rule unpack_from_pack_bytes [OF f])
  have c: "unpack_from [FX 2, fB] (ab @ cs @ r) = Inr [VI (uint (hd cs))]" for r
    using l cs(2) by (cases cs) (simp_all add: unpack_from_def be_int_def)
  have "llc_parser (ab @ cs @ rest) =
      Inr (h\<lparr>llc_ctrl := control_reread (llc_ctrl h)\<rparr>, get_packet_type (llc_dsap h), rest)" for rest
    using l by (simp add: llc_parser_def u c cs)
  moreover have "llc_serialize h = Inr (ab @ cs)"
    using pack_fits [OF f] unfolding ab_def llc_serialize_def by (simp only: cs res_bind_Inr)
  ultimately show ?thesis by auto
qed

lemma llc_codec:
  "llc_wf h \<Longrightarrow> \<exists>bs. llc_serialize h = Inr bs \<and>
     (\<forall>rest. llc_parser (bs @ rest) = Inr (h, get_packet_type (llc_dsap h), rest))"
  using llc_reread_codec [of h] by (simp add: llc_wf_def)

interpretation llc: header_codec llc_serialize llc_parser "\<lambda>h. get_packet_type (llc_dsap h)" llc_wf
  by unfold_locales (use llc_codec in force)+

section \<open>The headers with addresses, over any address converter\<close>

sublocale addr_converter \<subseteq> ether: header_codec "ethernet_pack A" "ethernet_parser A"
    "\<lambda>h. ethernet_get_packet_type (eth_ethertype h)" "ethernet_wf A"
  by unfold_locales (use ethernet_codec [OF conv_ok] in force)+

sublocale addr_converter \<subseteq> arp: header_codec "arp_serialize A" "arp_parser A" "\<lambda>_. None" "arp_wf A"
  by unfold_locales (use arp_codec [OF conv_ok] in force)+

end
