(* ===== verification/Packet_Bpdu.thy ===== *)
theory Packet_Bpdu
  imports Packet_Link Complex_Main
begin

text \<open>
  \<^verbatim>\<open>ryu/lib/packet/bpdu.py\<close>: the spanning-tree messages. Timer attributes are Python numbers
  (floats with 8 binary digits after the point when parsed, exact for 16-bit counts) and are
  rationals here.
\<close>

section \<open>Constants\<close>

definition DEFAULT_BRIDGE_PRIORITY :: int where "DEFAULT_BRIDGE_PRIORITY = 32768"
definition DEFAULT_PORT_PRIORITY :: int where "DEFAULT_PORT_PRIORITY = 128"
definition PORT_PATH_COST_10MB :: int where "PORT_PATH_COST_10MB = 2000000"
definition PORT_PATH_COST_100MB :: int where "PORT_PATH_COST_100MB = 200000"
definition PORT_PATH_COST_1GB :: int where "PORT_PATH_COST_1GB = 20000"
definition PORT_PATH_COST_10GB :: int where "PORT_PATH_COST_10GB = 2000"
definition DEFAULT_MAX_AGE :: rat where "DEFAULT_MAX_AGE = 20"
definition DEFAULT_HELLO_TIME :: rat where "DEFAULT_HELLO_TIME = 2"
definition DEFAULT_FORWARD_DELAY :: rat where "DEFAULT_FORWARD_DELAY = 15"

section \<open>Identifiers and timers\<close>

definition encode_bridge_id :: "addrconv \<Rightarrow> int \<Rightarrow> int \<Rightarrow> string \<Rightarrow> int res" where
  "encode_bridge_id A priority system_id_extension mac_address =
     res_bind (mac_to_bin A mac_address) (\<lambda>b.
     Inr (push_bit 48 (priority + system_id_extension) + be_int b))"

definition decode_bridge_id :: "addrconv \<Rightarrow> int \<Rightarrow> int \<times> int \<times> string" where
  "decode_bridge_id A bridge_id =
     (let priority = drop_bit 48 bridge_id AND 0xf000;
          system_id_extension = drop_bit 48 bridge_id AND 0xfff;
          mac_addr = bridge_id AND 0xffffffffffff;
          mac_addr_list = map (\<lambda>i. word_of_int (drop_bit (8 * i) mac_addr AND 0xff)) [0..<6];
          mac_address_bin = rev mac_addr_list
      in (priority, system_id_extension, mac_to_text A mac_address_bin))"

definition encode_port_id :: "int \<Rightarrow> int \<Rightarrow> int" where
  "encode_port_id priority port_number = push_bit 8 priority + port_number"

definition decode_port_id :: "int \<Rightarrow> int \<times> int" where
  "decode_port_id port_id = (drop_bit 8 port_id AND 0xf0, port_id AND 0xfff)"

definition decode_timer :: "int \<Rightarrow> rat" where
  "decode_timer timer = of_int timer / 256"

text \<open>\<^verbatim>\<open>int(x)\<close> truncates towards zero.\<close>

definition py_int :: "rat \<Rightarrow> int" where
  "py_int x = (if 0 \<le> x then \<lfloor>x\<rfloor> else \<lceil>x\<rceil>)"

definition encode_timer :: "rat \<Rightarrow> int" where
  "encode_timer timer = py_int timer * 256"

text \<open>\<^verbatim>\<open>x % (1/256) == 0\<close>.\<close>

definition timer_step_ok :: "rat \<Rightarrow> bool" where
  "timer_step_ok x \<longleftrightarrow> of_int \<lfloor>x * 256\<rfloor> = x * 256"

definition bridge_id_ok :: "addrconv \<Rightarrow> int \<Rightarrow> int \<Rightarrow> string \<Rightarrow> bool" where
  "bridge_id_ok A priority ext mac \<longleftrightarrow> 0 \<le> priority \<and> priority < 65536 \<and> priority mod 4096 = 0 \<and>
     0 \<le> ext \<and> ext < 4096 \<and> canon_mac A mac"

definition port_id_ok :: "int \<Rightarrow> int \<Rightarrow> bool" where
  "port_id_ok priority port_number \<longleftrightarrow> 0 \<le> priority \<and> priority < 256 \<and> priority mod 16 = 0 \<and>
     0 \<le> port_number \<and> port_number < 4096"

lemma be_bytes_shift:
  "be_bytes n v = rev (map (\<lambda>i. word_of_int (drop_bit (8 * i) v AND 0xff)) [0..<n])"
proof (induction n arbitrary: v)
  case 0
  show ?case by simp
next
  case (Suc n)
  have s: "drop_bit (8 * i) (v div 256) = drop_bit (8 * Suc i) v" for i
    by (simp add: drop_bit_eq_div zdiv_zmult2_eq [symmetric] power_add mult.commute)
  have w: "word_of_int (v AND 255) = (word_of_int v :: byte)"
    by (rule word_uint_eqI) (simp add: uint_word_of_int_byte mask_simps del: word_of_int_eq_iff)
  have u: "[0..<Suc n] = 0 # map Suc [0..<n]" by (simp add: map_Suc_upt upt_conv_Cons)
  show ?case unfolding u by (simp add: Suc s w comp_def del: upt_Suc)
qed

lemma bridge_id_parts:
  assumes "bridge_id_ok A priority ext mac" "encode_bridge_id A priority ext mac = Inr v"
    "addrconv_ok A"
  shows "0 \<le> v \<and> v < 256 ^ 8 \<and> decode_bridge_id A v = (priority, ext, mac)"
proof -
  from assms(1,3) obtain b where b: "mac_to_bin A mac = Inr b" "length b = 6" "mac_to_text A b = mac"
    unfolding bridge_id_ok_def by (metis canon_macE)
  define m where "m = be_int b"
  have m: "0 \<le> m" "m < 281474976710656" using be_int_bounds [of b] by (simp_all add: m_def b)
  have r: "0 \<le> priority" "priority < 65536" "priority mod 4096 = 0" "0 \<le> ext" "ext < 4096"
    using assms(1) by (simp_all add: bridge_id_ok_def)
  define k where "k = priority div 4096"
  have k: "priority = k * 4096" using r(3) by (auto simp: k_def)
  have kb: "0 \<le> k" "k < 16" using r k by simp_all
  have v: "v = (priority + ext) * 281474976710656 + m"
    using assms(2) by (simp add: encode_bridge_id_def b m_def push_bit_eq_mult)
  have d: "v div 281474976710656 = priority + ext" "v mod 281474976710656 = m"
    unfolding v using m by (intro field_div field_mod; simp)+
  have e: "(priority + ext) mod 4096 = ext" "(priority + ext) div 4096 = k"
    unfolding k using r by (intro field_mod field_div; simp)+
  have w: "rev (map (\<lambda>i. word_of_int (drop_bit (8 * i) m AND 0xff)) [0..<6]) = b"
    using be_bytes_shift [of 6 m] be_bytes_be_int [of b 6] by (simp add: m_def b)
  have p48: "(2 :: int) ^ 48 = 281474976710656" by simp
  have "decode_bridge_id A v = (priority, ext, mac)"
    unfolding decode_bridge_id_def Let_def
    by (simp only: shift_simps and_high_masks and_masks p48 d e w [unfolded shift_simps and_masks])
      (use b kb k in simp)
  moreover have "0 \<le> v" using m r by (simp add: v)
  moreover have "v < 256 ^ 8" 
  proof -
    have "priority + ext \<le> 65535" using r k kb by simp
    then show ?thesis using m by (simp add: v)
  qed
  ultimately show ?thesis by blast
qed

lemma port_id_parts:
  assumes "port_id_ok priority port_number"
  shows "0 \<le> encode_port_id priority port_number" "encode_port_id priority port_number < 65536"
    "decode_port_id (encode_port_id priority port_number) = (priority, port_number)"
proof -
  define k where "k = priority div 16"
  have r: "0 \<le> priority" "priority < 256" "priority mod 16 = 0" "0 \<le> port_number" "port_number < 4096"
    using assms by (simp_all add: port_id_ok_def)
  have k: "priority = k * 16" using r(3) by (auto simp: k_def)
  have kb: "0 \<le> k" "k < 16" using r k by simp_all
  define v where "v = k * 4096 + port_number"
  have e: "encode_port_id priority port_number = v"
    by (simp add: encode_port_id_def push_bit_eq_mult k v_def)
  have d: "v mod 4096 = port_number" unfolding v_def using r by (intro field_mod) simp_all
  have "v div 256 div 16 = v div 4096" using zdiv_zmult2_eq [of 16 v 256] by simp
  also have "\<dots> = k" unfolding v_def using r by (intro field_div) simp_all
  finally have d2: "v div 256 div 16 mod 16 * 16 = priority" using kb k by simp
  show "0 \<le> encode_port_id priority port_number" "encode_port_id priority port_number < 65536"
    unfolding e v_def using r kb by simp_all
  show "decode_port_id (encode_port_id priority port_number) = (priority, port_number)"
    unfolding e decode_port_id_def
    by (simp only: shift_simps and_high_masks and_masks) (simp add: d d2)
qed

section \<open>Messages\<close>

text \<open>The attributes of \<^verbatim>\<open>ConfigurationBPDUs\<close>, which \<^verbatim>\<open>RstBPDUs\<close> inherits.\<close>

record config_bpdu =
  bp_flags :: int
  bp_root_priority :: int
  bp_root_ext :: int
  bp_root_mac :: string
  bp_root_path_cost :: int
  bp_bridge_priority :: int
  bp_bridge_ext :: int
  bp_bridge_mac :: string
  bp_port_priority :: int
  bp_port_number :: int
  bp_message_age :: rat
  bp_max_age :: rat
  bp_hello_time :: rat
  bp_forward_delay :: rat

text \<open>
  What \<^verbatim>\<open>bpdu.parser\<close> returns as the protocol: an instance of one of the three classes, or the
  buffer itself for an unknown version or type.
\<close>

datatype bpdu_proto =
    ConfigurationBPDUs config_bpdu
  | TopologyChangeNotificationBPDUs
  | RstBPDUs config_bpdu
  | UnknownBPDU bytes

text \<open>\<^verbatim>\<open>check_parameters\<close>, run by the constructors; the RST variant does not look at the flags.\<close>

definition rst_check_parameters :: "config_bpdu \<Rightarrow> bool" where
  "rst_check_parameters h \<longleftrightarrow> bp_root_priority h mod 4096 = 0 \<and> bp_bridge_priority h mod 4096 = 0 \<and>
     bp_port_priority h mod 16 = 0 \<and> timer_step_ok (bp_message_age h) \<and>
     timer_step_ok (bp_max_age h) \<and> timer_step_ok (bp_hello_time h) \<and>
     timer_step_ok (bp_forward_delay h)"

definition config_check_parameters :: "config_bpdu \<Rightarrow> bool" where
  "config_check_parameters h \<longleftrightarrow> drop_bit 1 (bp_flags h) AND 63 = 0 \<and> rst_check_parameters h"

definition config_fmt :: "fmt list" where
  "config_fmt = [fB, fQ, fI, fQ, fH, fH, fH, fH, fH]"

definition bpdu_fmt :: "fmt list" where
  "bpdu_fmt = [fH, fB, fB]"

text \<open>
  \<^verbatim>\<open>ConfigurationBPDUs.parser\<close>; \<open>check\<close> is the \<^verbatim>\<open>check_parameters\<close> of the class that is built.
\<close>

definition config_parser ::
    "addrconv \<Rightarrow> (config_bpdu \<Rightarrow> bool) \<Rightarrow> bytes \<Rightarrow> (config_bpdu \<times> bytes) res" where
  "config_parser A check buf =
     res_bind (unpack_from config_fmt buf) (\<lambda>vs.
     case vs of [VI flags, VI root_id, VI root_path_cost, VI bridge_id, VI port_id,
                 VI message_age, VI max_age, VI hello_time, VI forward_delay] \<Rightarrow>
       (let (root_priority, root_ext, root_mac) = decode_bridge_id A root_id;
            (bridge_priority, bridge_ext, bridge_mac) = decode_bridge_id A bridge_id;
            (port_priority, port_number) = decode_port_id port_id;
            h = \<lparr>bp_flags = flags, bp_root_priority = root_priority, bp_root_ext = root_ext,
                 bp_root_mac = root_mac, bp_root_path_cost = root_path_cost,
                 bp_bridge_priority = bridge_priority, bp_bridge_ext = bridge_ext,
                 bp_bridge_mac = bridge_mac, bp_port_priority = port_priority,
                 bp_port_number = port_number, bp_message_age = decode_timer message_age,
                 bp_max_age = decode_timer max_age, bp_hello_time = decode_timer hello_time,
                 bp_forward_delay = decode_timer forward_delay\<rparr>
        in res_bind (assertR (check h)) (\<lambda>_. Inr (h, drop (calcsize config_fmt) buf)))
     | _ \<Rightarrow> Inl StructError)"

definition rst_parser :: "addrconv \<Rightarrow> bytes \<Rightarrow> (config_bpdu \<times> bytes) res" where
  "rst_parser A buf =
     res_bind (config_parser A rst_check_parameters buf) (\<lambda>(h, buf).
     res_bind (unpack_from [fB] buf) (\<lambda>vs.
     case vs of [VI version_1_length] \<Rightarrow>
       res_bind (assertR (version_1_length = 0)) (\<lambda>_. Inr (h, drop 1 buf))
     | _ \<Rightarrow> Inl StructError))"

text \<open>
  \<^verbatim>\<open>bpdu.parser\<close>: the dispatch on version and type. The minimum length it asserts is the
  class attribute \<^verbatim>\<open>PACK_LEN\<close> of the selected class: 31, 0 and (the RST class redefines it) 1.
  \<^verbatim>\<open>TopologyChangeNotificationBPDUs.parser\<close> cuts four bytes once more.
\<close>

definition bpdu_parser :: "addrconv \<Rightarrow> bytes \<Rightarrow> (bpdu_proto \<times> bytes option) res" where
  "bpdu_parser A buf =
     res_bind (assertR (length buf \<ge> 4)) (\<lambda>_.
     res_bind (unpack_from bpdu_fmt buf) (\<lambda>vs.
     case vs of [VI protocol_id, VI version_id, VI bpdu_type] \<Rightarrow>
       res_bind (assertR (protocol_id = 0)) (\<lambda>_.
       let sub = drop 4 buf in
       if version_id = 0 \<and> bpdu_type = 0 then
         res_bind (assertR (length sub \<ge> calcsize config_fmt)) (\<lambda>_.
         res_bind (config_parser A config_check_parameters sub) (\<lambda>(h, rest).
         Inr (ConfigurationBPDUs h, Some rest)))
       else if version_id = 0 \<and> bpdu_type = 128 then
         Inr (TopologyChangeNotificationBPDUs, Some (drop 4 sub))
       else if version_id = 2 \<and> bpdu_type = 2 then
         res_bind (assertR (length sub \<ge> 1)) (\<lambda>_.
         res_bind (rst_parser A sub) (\<lambda>(h, rest). Inr (RstBPDUs h, Some rest)))
       else Inr (UnknownBPDU buf, None))
     | _ \<Rightarrow> Inl StructError))"

definition config_serialize :: "addrconv \<Rightarrow> config_bpdu \<Rightarrow> bytes res" where
  "config_serialize A h =
     res_bind (encode_bridge_id A (bp_root_priority h) (bp_root_ext h) (bp_root_mac h)) (\<lambda>root_id.
     res_bind (encode_bridge_id A (bp_bridge_priority h) (bp_bridge_ext h) (bp_bridge_mac h))
       (\<lambda>bridge_id.
     pack config_fmt [VI (bp_flags h), VI root_id, VI (bp_root_path_cost h), VI bridge_id,
       VI (encode_port_id (bp_port_priority h) (bp_port_number h)),
       VI (encode_timer (bp_message_age h)), VI (encode_timer (bp_max_age h)),
       VI (encode_timer (bp_hello_time h)), VI (encode_timer (bp_forward_delay h))]))"

fun bpdu_serialize :: "addrconv \<Rightarrow> bpdu_proto \<Rightarrow> bytes res" where
  "bpdu_serialize A (ConfigurationBPDUs h) =
     res_bind (pack bpdu_fmt [VI 0, VI 0, VI 0]) (\<lambda>base.
     res_bind (config_serialize A h) (\<lambda>sub. Inr (base @ sub)))"
| "bpdu_serialize A TopologyChangeNotificationBPDUs = pack bpdu_fmt [VI 0, VI 0, VI 128]"
| "bpdu_serialize A (RstBPDUs h) =
     res_bind (pack bpdu_fmt [VI 0, VI 2, VI 2]) (\<lambda>base.
     res_bind (config_serialize A h) (\<lambda>sub.
     res_bind (pack [fB] [VI 0]) (\<lambda>v1. Inr (base @ sub @ v1))))"
| "bpdu_serialize A (UnknownBPDU b) = Inr b"

section \<open>What a message survives\<close>

definition timer_range :: "rat \<Rightarrow> bool" where
  "timer_range t \<longleftrightarrow> 0 \<le> t \<and> t < 256"

definition config_range :: "addrconv \<Rightarrow> config_bpdu \<Rightarrow> bool" where
  "config_range A h \<longleftrightarrow> 0 \<le> bp_flags h \<and> bp_flags h < 256 \<and>
     bridge_id_ok A (bp_root_priority h) (bp_root_ext h) (bp_root_mac h) \<and>
     0 \<le> bp_root_path_cost h \<and> bp_root_path_cost h < 4294967296 \<and>
     bridge_id_ok A (bp_bridge_priority h) (bp_bridge_ext h) (bp_bridge_mac h) \<and>
     port_id_ok (bp_port_priority h) (bp_port_number h) \<and>
     timer_range (bp_message_age h) \<and> timer_range (bp_max_age h) \<and>
     timer_range (bp_hello_time h) \<and> timer_range (bp_forward_delay h)"

text \<open>\<^verbatim>\<open>_encode_timer\<close> drops the fraction that \<^verbatim>\<open>_decode_timer\<close> produces.\<close>

definition floor_timers :: "config_bpdu \<Rightarrow> config_bpdu" where
  "floor_timers h = h\<lparr>bp_message_age := of_int \<lfloor>bp_message_age h\<rfloor>,
     bp_max_age := of_int \<lfloor>bp_max_age h\<rfloor>, bp_hello_time := of_int \<lfloor>bp_hello_time h\<rfloor>,
     bp_forward_delay := of_int \<lfloor>bp_forward_delay h\<rfloor>\<rparr>"

lemma encode_timer_range:
  assumes "timer_range t"
  shows "0 \<le> encode_timer t \<and> encode_timer t < 65536 \<and> decode_timer (encode_timer t) = of_int \<lfloor>t\<rfloor>"
proof -
  have "0 \<le> \<lfloor>t\<rfloor>" using assms by (simp add: timer_range_def)
  moreover have "\<lfloor>t\<rfloor> < 256" using assms by (simp add: timer_range_def floor_less_iff)
  ultimately show ?thesis
    using assms by (simp add: encode_timer_def decode_timer_def py_int_def timer_range_def)
qed

lemma timer_step_ok_floor [simp]: "timer_step_ok (of_int n)"
proof -
  have "(of_int n :: rat) * 256 = of_int (n * 256)" by simp
  then show ?thesis unfolding timer_step_ok_def by (metis floor_of_int)
qed

lemma timer_step_ok_decode: "timer_step_ok (decode_timer n)"
  by (simp add: timer_step_ok_def decode_timer_def)

lemma floor_timers_fields:
  "\<lparr>bp_flags = bp_flags h, bp_root_priority = bp_root_priority h, bp_root_ext = bp_root_ext h,
    bp_root_mac = bp_root_mac h, bp_root_path_cost = bp_root_path_cost h,
    bp_bridge_priority = bp_bridge_priority h, bp_bridge_ext = bp_bridge_ext h,
    bp_bridge_mac = bp_bridge_mac h, bp_port_priority = bp_port_priority h,
    bp_port_number = bp_port_number h, bp_message_age = of_int \<lfloor>bp_message_age h\<rfloor>,
    bp_max_age = of_int \<lfloor>bp_max_age h\<rfloor>, bp_hello_time = of_int \<lfloor>bp_hello_time h\<rfloor>,
    bp_forward_delay = of_int \<lfloor>bp_forward_delay h\<rfloor>\<rparr> = floor_timers h"
  by (cases h) (simp add: floor_timers_def)

lemma config_codec:
  assumes A: "addrconv_ok A" and h: "config_range A h" and chk: "check (floor_timers h)"
  shows "\<exists>bs. config_serialize A h = Inr bs \<and> length bs = 31 \<and>
    (\<forall>rest. config_parser A check (bs @ rest) = Inr (floor_timers h, rest))"
proof -
  from h have ids: "bridge_id_ok A (bp_root_priority h) (bp_root_ext h) (bp_root_mac h)"
    "bridge_id_ok A (bp_bridge_priority h) (bp_bridge_ext h) (bp_bridge_mac h)"
    "port_id_ok (bp_port_priority h) (bp_port_number h)"
    by (simp_all add: config_range_def)
  obtain r where r: "encode_bridge_id A (bp_root_priority h) (bp_root_ext h) (bp_root_mac h) = Inr r"
    using ids(1) A unfolding bridge_id_ok_def encode_bridge_id_def by (metis canon_macE res_bind_Inr)
  obtain b where b: "encode_bridge_id A (bp_bridge_priority h) (bp_bridge_ext h) (bp_bridge_mac h) = Inr b"
    using ids(2) A unfolding bridge_id_ok_def encode_bridge_id_def by (metis canon_macE res_bind_Inr)
  note rb = bridge_id_parts [OF ids(1) r A] bridge_id_parts [OF ids(2) b A] port_id_parts [OF ids(3)]
  have t: "timer_range (bp_message_age h)" "timer_range (bp_max_age h)"
    "timer_range (bp_hello_time h)" "timer_range (bp_forward_delay h)"
    using h by (simp_all add: config_range_def)
  note ts = t [THEN encode_timer_range]
  let ?vs = "[VI (bp_flags h), VI r, VI (bp_root_path_cost h), VI b,
       VI (encode_port_id (bp_port_priority h) (bp_port_number h)),
       VI (encode_timer (bp_message_age h)), VI (encode_timer (bp_max_age h)),
       VI (encode_timer (bp_hello_time h)), VI (encode_timer (bp_forward_delay h))]"
  have f: "fits config_fmt ?vs"
    using h rb ts by (simp add: config_fmt_def config_range_def)
  have l: "length (pack_bytes config_fmt ?vs) = calcsize config_fmt"
    by (rule length_pack_bytes [OF f])
  have c: "calcsize config_fmt = 31" by (simp add: config_fmt_def)
  define bs where "bs = pack_bytes config_fmt ?vs"
  have "config_parser A check (bs @ rest) = Inr (floor_timers h, rest)" for rest
    unfolding config_parser_def bs_def unpack_from_pack_bytes [OF f]
    using rb ts l chk by (simp add: Let_def floor_timers_fields c)
  moreover have "config_serialize A h = Inr bs"
    unfolding config_serialize_def r b res_bind_Inr bs_def by (rule pack_fits [OF f])
  ultimately show ?thesis using l c by (auto simp: bs_def)
qed

section \<open>Round trips\<close>

definition config_wf :: "addrconv \<Rightarrow> config_bpdu \<Rightarrow> bool" where
  "config_wf A h \<longleftrightarrow> config_range A h \<and> bp_flags h div 2 mod 64 = 0"

text \<open>What parsing the serialized message gives back.\<close>

fun bpdu_wf :: "addrconv \<Rightarrow> bpdu_proto \<Rightarrow> bool" where
  "bpdu_wf A (ConfigurationBPDUs h) = config_wf A h"
| "bpdu_wf A TopologyChangeNotificationBPDUs = True"
| "bpdu_wf A (RstBPDUs h) = config_range A h"
| "bpdu_wf A (UnknownBPDU b) = False"

fun bpdu_reread :: "bpdu_proto \<Rightarrow> bpdu_proto" where
  "bpdu_reread (ConfigurationBPDUs h) = ConfigurationBPDUs (floor_timers h)"
| "bpdu_reread TopologyChangeNotificationBPDUs = TopologyChangeNotificationBPDUs"
| "bpdu_reread (RstBPDUs h) = RstBPDUs (floor_timers h)"
| "bpdu_reread (UnknownBPDU b) = UnknownBPDU b"

fun bpdu_rest :: "bpdu_proto \<Rightarrow> bytes \<Rightarrow> bytes option" where
  "bpdu_rest TopologyChangeNotificationBPDUs rest = Some (drop 4 rest)"
| "bpdu_rest (UnknownBPDU b) rest = None"
| "bpdu_rest _ rest = Some rest"

lemma floor_timers_checks:
  assumes "config_range A h"
  shows "rst_check_parameters (floor_timers h)"
  using assms by (simp add: rst_check_parameters_def floor_timers_def config_range_def
      bridge_id_ok_def port_id_ok_def)

lemma bpdu_header:
  assumes "0 \<le> v" "v < 256" "0 \<le> t" "t < 256"
  shows "\<exists>base. pack bpdu_fmt [VI 0, VI v, VI t] = Inr base \<and> length base = 4 \<and>
    (\<forall>r. unpack_from bpdu_fmt (base @ r) = Inr [VI 0, VI v, VI t])"
proof -
  have f: "fits bpdu_fmt [VI 0, VI v, VI t]" using assms by (simp add: bpdu_fmt_def)
  have "length (pack_bytes bpdu_fmt [VI 0, VI v, VI t]) = 4"
    using length_pack_bytes [OF f] by (simp add: bpdu_fmt_def)
  with pack_fits [OF f] unpack_from_pack_bytes [OF f] show ?thesis by blast
qed

lemma calcsize_config_fmt: "calcsize config_fmt = 31"
  by (simp add: config_fmt_def)

lemma bpdu_codec:
  assumes "addrconv_ok A" "bpdu_wf A m"
  shows "\<exists>bs. bpdu_serialize A m = Inr bs \<and>
    (\<forall>rest. bpdu_parser A (bs @ rest) = Inr (bpdu_reread m, bpdu_rest m rest))"
proof (cases m)
  case (ConfigurationBPDUs h)
  with assms(2) have h: "config_range A h" "bp_flags h div 2 mod 64 = 0"
    by (simp_all add: config_wf_def)
  have "config_check_parameters (floor_timers h)"
    using floor_timers_checks [OF h(1)] h(2)
    by (simp add: config_check_parameters_def floor_timers_def mask_simps)
  from config_codec [OF assms(1) h(1), of config_check_parameters, OF this] obtain sub where sub:
    "config_serialize A h = Inr sub" "length sub = 31"
    "\<And>rest. config_parser A config_check_parameters (sub @ rest) = Inr (floor_timers h, rest)"
    by blast
  obtain base where base: "pack bpdu_fmt [VI 0, VI 0, VI 0] = Inr base" "length base = 4"
    "\<And>r. unpack_from bpdu_fmt (base @ r) = Inr [VI 0, VI 0, VI 0]"
    using bpdu_header [of 0 0] by auto
  have "bpdu_parser A (base @ sub @ rest) = Inr (ConfigurationBPDUs (floor_timers h), Some rest)" for rest
    using base(2) sub(2) by (simp add: bpdu_parser_def base(3) sub(3) calcsize_config_fmt)
  with ConfigurationBPDUs base(1) sub(1) show ?thesis by simp
next
  case TopologyChangeNotificationBPDUs
  obtain base where base: "pack bpdu_fmt [VI 0, VI 0, VI 128] = Inr base" "length base = 4"
    "\<And>r. unpack_from bpdu_fmt (base @ r) = Inr [VI 0, VI 0, VI 128]"
    using bpdu_header [of 0 128] by auto
  have "bpdu_parser A (base @ rest) = Inr (TopologyChangeNotificationBPDUs, Some (drop 4 rest))" for rest
    using base(2) by (simp add: bpdu_parser_def base(3) Let_def)
  with TopologyChangeNotificationBPDUs base(1) show ?thesis by simp
next
  case (RstBPDUs h)
  with assms(2) have h: "config_range A h" by simp
  from config_codec [OF assms(1) h, of rst_check_parameters, OF floor_timers_checks [OF h]] obtain sub where sub:
    "config_serialize A h = Inr sub" "length sub = 31"
    "\<And>rest. config_parser A rst_check_parameters (sub @ rest) = Inr (floor_timers h, rest)"
    by blast
  obtain base where base: "pack bpdu_fmt [VI 0, VI 2, VI 2] = Inr base" "length base = 4"
    "\<And>r. unpack_from bpdu_fmt (base @ r) = Inr [VI 0, VI 2, VI 2]"
    using bpdu_header [of 2 2] by auto
  have "rst_parser A (sub @ 0 # rest) = Inr (floor_timers h, rest)" for rest
    by (simp add: rst_parser_def sub(3) unpack_from_def be_int_def)
  then have "bpdu_parser A (base @ sub @ 0 # rest) = Inr (RstBPDUs (floor_timers h), Some rest)" for rest
    using base(2) sub(2) by (simp add: bpdu_parser_def base(3))
  with RstBPDUs base(1) sub(1) show ?thesis by simp
qed (use assms in simp)

text \<open>Messages whose timers are whole seconds are a codec in the sense of the interface.\<close>

definition config_whole :: "addrconv \<Rightarrow> config_bpdu \<Rightarrow> bool" where
  "config_whole A h \<longleftrightarrow> config_wf A h \<and> floor_timers h = h"

sublocale addr_converter \<subseteq> config_bpdu: header_codec "\<lambda>h. bpdu_serialize A (ConfigurationBPDUs h)"
    "\<lambda>buf. res_bind (bpdu_parser A buf) (\<lambda>(m, r). case (m, r) of
       (ConfigurationBPDUs h, Some rest) \<Rightarrow> Inr (h, (), rest) | _ \<Rightarrow> Inl ValueError)"
    "\<lambda>_. ()" "config_whole A"
proof unfold_locales
  fix h assume "config_whole A h"
  then have w: "bpdu_wf A (ConfigurationBPDUs h)" "floor_timers h = h"
    by (simp_all add: config_whole_def)
  note codec = bpdu_codec [OF conv_ok w(1)]
  then show "\<exists>bs. bpdu_serialize A (ConfigurationBPDUs h) = Inr bs" by blast
  fix bs rest assume "bpdu_serialize A (ConfigurationBPDUs h) = Inr bs"
  with codec w(2) show "res_bind (bpdu_parser A (bs @ rest)) (\<lambda>(m, r). case (m, r) of
       (ConfigurationBPDUs h, Some rest) \<Rightarrow> Inr (h, (), rest) | _ \<Rightarrow> Inl ValueError)
      = Inr (h, (), rest)" by auto
qed

end
