(* ===== verification/Packet_Utils.thy ===== *)
theory Packet_Utils
  imports Py_Struct
begin

text \<open>
  \<^verbatim>\<open>ryu/lib/packet/packet_utils.py\<close>: the Internet checksum (RFC 1071), its pseudo-header variant
  and the Fletcher checksum (RFC 1008). The native byte order of \<^verbatim>\<open>array.array('H', data)\<close> and
  \<^verbatim>\<open>socket.ntohs\<close> is the parameter \<open>le\<close> (little-endian host), and the lemmas show that the
  result does not depend on it.
\<close>

section \<open>The Internet checksum\<close>

definition carry_around_add :: "int \<Rightarrow> int \<Rightarrow> int" where
  "carry_around_add a b = (let c = a + b in (c AND 0xffff) + drop_bit 16 c)"

text \<open>\<^verbatim>\<open>array.array('H', data)\<close> on a host of the given byte order.\<close>

fun words16 :: "bool \<Rightarrow> bytes \<Rightarrow> int list" where
  "words16 le (a # b # bs) =
     (if le then uint b * 256 + uint a else uint a * 256 + uint b) # words16 le bs"
| "words16 le _ = []"

definition ntohs :: "bool \<Rightarrow> int \<Rightarrow> int" where
  "ntohs le v = (if le then (v mod 256) * 256 + (v div 256) mod 256 else v)"

definition checksum :: "bool \<Rightarrow> bytes \<Rightarrow> int" where
  "checksum le data =
     (let data = (if length data mod 2 \<noteq> 0 then data @ [0] else data);
          s = sum_list (words16 le data);
          s = (s AND 0xffff) + drop_bit 16 s;
          s = s + drop_bit 16 s
      in ntohs le (NOT s AND 0xffff))"

text \<open>
  The specification: the complement of the sum in one's-complement arithmetic, whose residues
  modulo 65535 are represented by \<open>1..65535\<close>, with 0 only for a sum of zero.
\<close>

definition oc_rep :: "int \<Rightarrow> int" where
  "oc_rep s = (if s = 0 then 0 else (s - 1) mod 65535 + 1)"

definition pad_even :: "bytes \<Rightarrow> bytes" where
  "pad_even data = (if length data mod 2 \<noteq> 0 then data @ [0] else data)"

definition checksum_spec :: "bytes \<Rightarrow> int" where
  "checksum_spec data = 65535 - oc_rep (sum_list (words16 False (pad_even data)))"

lemma words16_bounds: "w \<in> set (words16 le bs) \<Longrightarrow> 0 \<le> w \<and> w \<le> 65535"
proof (induction le bs rule: words16.induct)
  case (1 le a b bs)
  then show ?case using uint_byte_bounds [of a] uint_byte_bounds [of b] by (auto split: if_splits)
qed simp_all

lemma length_words16: "length (words16 le bs) = length bs div 2"
  by (induction le bs rule: words16.induct) simp_all

lemma sum_words16_bounds:
  "0 \<le> sum_list (words16 le bs) \<and> sum_list (words16 le bs) \<le> int (length bs div 2) * 65535"
proof (induction le bs rule: words16.induct)
  case (1 le a b bs)
  then show ?case using uint_byte_bounds [of a] uint_byte_bounds [of b]
    by (auto simp: algebra_simps)
qed simp_all

lemma words16_append:
  "even (length xs) \<Longrightarrow> words16 le (xs @ ys) = words16 le xs @ words16 le ys"
  by (induction le xs rule: words16.induct) simp_all

lemma sum_words16_zero:
  "sum_list (words16 True bs) = 0 \<longleftrightarrow> sum_list (words16 False bs) = 0"
proof (induction "True" bs rule: words16.induct)
  case (1 a b bs)
  have "0 \<le> sum_list (words16 True bs)" "0 \<le> sum_list (words16 False bs)"
    using sum_words16_bounds by blast+
  with 1 show ?case
    using uint_byte_bounds [of a] uint_byte_bounds [of b]
    by (auto simp: add_nonneg_eq_0_iff)
qed simp_all

text \<open>Swapping the bytes of every word multiplies the sum by 256 modulo 65535.\<close>

lemma sum_words16_swap:
  "(sum_list (words16 True bs) - 256 * sum_list (words16 False bs)) mod 65535 = 0"
proof (induction "True" bs rule: words16.induct)
  case (1 a b bs)
  let ?t = "sum_list (words16 True bs)" and ?f = "sum_list (words16 False bs)"
  from 1 obtain k where k: "?t - 256 * ?f = 65535 * k" by (auto simp: mod_0_imp_dvd elim: dvdE)
  have "sum_list (words16 True (a # b # bs)) - 256 * sum_list (words16 False (a # b # bs))
      = 65535 * (k - uint a)"
    using k by (simp add: algebra_simps)
  then show ?case by simp
qed simp_all

text \<open>Two foldings of the carries reach the representative, for less than 65536 words.\<close>

definition fold_carries :: "int \<Rightarrow> int" where
  "fold_carries s =
     (let s1 = (s AND 0xffff) + drop_bit 16 s; s2 = s1 + drop_bit 16 s1 in s2 AND 0xffff)"

lemma oc_rep_bounds: "0 \<le> s \<Longrightarrow> 0 \<le> oc_rep s \<and> oc_rep s \<le> 65535"
proof -
  have "0 \<le> (s - 1) mod 65535" "(s - 1) mod 65535 < 65535" by simp_all
  then show ?thesis unfolding oc_rep_def by auto
qed

lemma oc_rep_unique:
  assumes "0 \<le> r" "r \<le> 65535" "0 \<le> s" "(s - r) mod 65535 = 0" "r = 0 \<longleftrightarrow> s = 0"
  shows "r = oc_rep s"
proof (cases "s = 0")
  case True
  with assms show ?thesis by (simp add: oc_rep_def)
next
  case False
  with assms have r: "1 \<le> r" by auto
  from assms(4) obtain k where "s - r = 65535 * k" by (auto simp: mod_0_imp_dvd elim: dvdE)
  then have "s - 1 = (r - 1) + 65535 * k" by simp
  then have "(s - 1) mod 65535 = (r - 1) mod 65535" by (metis mod_mult_self2)
  also have "\<dots> = r - 1" using r assms(2) by (intro mod_pos_pos_trivial) auto
  finally show ?thesis using False by (simp add: oc_rep_def)
qed

lemma fold_carries_oc_rep:
  assumes "0 \<le> s" "s \<le> 65535 * 65535"
  shows "fold_carries s = oc_rep s"
proof -
  define h l where "h = s div 65536" and "l = s mod 65536"
  have s: "s = 65536 * h + l" by (simp add: h_def l_def)
  have l: "0 \<le> l" "l < 65536" by (simp_all add: l_def)
  have h: "0 \<le> h" "h < 65536" using assms by (auto simp: h_def)
  have f: "fold_carries s = (let s1 = l + h in (s1 + s1 div 65536) mod 65536)"
    by (simp add: fold_carries_def mask_simps h_def l_def Let_def)
  have "fold_carries s = (if l + h < 65536 then l + h else l + h - 65535)"
  proof (cases "l + h < 65536")
    case True
    with l h show ?thesis by (simp add: f)
  next
    case False
    then have "(l + h) div 65536 = 1" using l h by auto
    moreover have "(l + h + 1) mod 65536 = l + h + 1 - 65536"
    proof -
      have "(l + h + 1) mod 65536 = (l + h + 1 - 65536) mod 65536"
        by (rule minus_mod_self2 [symmetric])
      also have "\<dots> = l + h + 1 - 65536"
        using False l h by (intro mod_pos_pos_trivial) linarith+
      finally show ?thesis .
    qed
    ultimately show ?thesis using False by (simp add: f)
  qed
  moreover have "l + h = oc_rep s" if "l + h < 65536"
  proof (rule oc_rep_unique)
    have "s - (l + h) = 65535 * h" by (simp add: s)
    then show "(s - (l + h)) mod 65535 = 0" by (simp only: mod_mult_self1_is_0)
    show "l + h = 0 \<longleftrightarrow> s = 0" using l(1) h(1) s by linarith
  qed (use assms l h that in linarith)+
  moreover have "l + h - 65535 = oc_rep s" if "\<not> l + h < 65536"
  proof (rule oc_rep_unique)
    have "s - (l + h - 65535) = 65535 * (h + 1)" by (simp add: s)
    then show "(s - (l + h - 65535)) mod 65535 = 0" by (simp only: mod_mult_self1_is_0)
    show "l + h - 65535 = 0 \<longleftrightarrow> s = 0" using that l h s by linarith
  qed (use assms l h that in linarith)+
  ultimately show ?thesis by (cases "l + h < 65536") simp_all
qed

lemma not_mask: "(NOT s :: int) AND 65535 = 65535 - s mod 65536"
proof -
  have "NOT s AND 65535 = (- s - 1) mod 65536"
    by (simp add: and_mask_mod [where n = 16] not_int_def)
  also have "- s - 1 = (65535 - s mod 65536) + 65536 * (- (s div 65536) - 1)"
    by (simp add: algebra_simps)
  also have "\<dots> mod 65536 = (65535 - s mod 65536) mod 65536" by (rule mod_mult_self2)
  also have "\<dots> = 65535 - s mod 65536" 
    using pos_mod_bound [of 65536 s] pos_mod_sign [of 65536 s] by (intro mod_pos_pos_trivial) linarith+
  finally show ?thesis .
qed

lemma oc_rep_cong: "0 \<le> s \<Longrightarrow> (s - oc_rep s) mod 65535 = 0"
proof (cases "s = 0")
  case False
  have "s - ((s - 1) mod 65535 + 1) = 65535 * ((s - 1) div 65535)"
    using minus_mod_eq_mult_div [of "s - 1" 65535] by linarith
  with False show ?thesis by (simp only: oc_rep_def if_False mod_mult_self1_is_0)
qed (simp add: oc_rep_def)

lemma oc_rep_eq_0: "0 \<le> s \<Longrightarrow> oc_rep s = 0 \<longleftrightarrow> s = 0"
proof -
  have "0 \<le> (s - 1) mod 65535" by simp
  then show ?thesis unfolding oc_rep_def by auto
qed

lemma checksum_fold:
  "checksum le data = ntohs le (65535 - fold_carries (sum_list (words16 le (pad_even data))))"
  by (simp add: checksum_def pad_even_def fold_carries_def not_mask Let_def
      and_mask_mod [where n = 16 and k = 65536])

lemma ntohs_oc_rep:
  assumes "0 \<le> s" "0 \<le> t" "(t - 256 * s) mod 65535 = 0" "t = 0 \<longleftrightarrow> s = 0"
  shows "ntohs True (65535 - oc_rep t) = 65535 - oc_rep s"
proof -
  define h l where "h = oc_rep t div 256" and "l = oc_rep t mod 256"
  have f: "oc_rep t = 256 * h + l" by (simp add: h_def l_def)
  have b: "0 \<le> l" "l < 256" "0 \<le> h" "h < 256"
    using oc_rep_bounds [OF assms(2)] by (auto simp: h_def l_def)
  have e: "65535 - oc_rep t = (255 - l) + 256 * (255 - h)" by (simp add: f)
  have d: "(65535 - oc_rep t) div 256 = 255 - h" "(65535 - oc_rep t) mod 256 = 255 - l"
    unfolding e using b by (simp_all only: div_mult_self2 mod_mult_self2) simp_all
  have "256 * l + h = oc_rep s"
  proof (rule oc_rep_unique)
    show "256 * l + h = 0 \<longleftrightarrow> s = 0"
      using b assms(4) oc_rep_eq_0 [OF assms(2)] f by linarith
    from assms(3) obtain k where k: "t - 256 * s = 65535 * k"
      by (auto simp: mod_0_imp_dvd elim: dvdE)
    from oc_rep_cong [OF assms(2)] obtain j where j: "t - oc_rep t = 65535 * j"
      by (auto simp: mod_0_imp_dvd elim: dvdE)
    have "s - (256 * l + h) = 65535 * (256 * j - 256 * k - s + h)"
      using k j f by (simp add: algebra_simps)
    then show "(s - (256 * l + h)) mod 65535 = 0" by (simp only: mod_mult_self1_is_0)
  qed (use b assms in linarith)+
  moreover have "ntohs True (65535 - oc_rep t) = 65535 - (256 * l + h)"
    using b by (simp add: ntohs_def d)
  ultimately show ?thesis by simp
qed

lemma length_pad_even: "length (pad_even data) \<le> length data + 1" "even (length (pad_even data))"
  by (auto simp: pad_even_def)

lemma checksum_eq_spec:
  assumes "length data \<le> 131070"
  shows "checksum le data = checksum_spec data"
proof -
  let ?S = "\<lambda>e. sum_list (words16 e (pad_even data))"
  have len: "length (pad_even data) div 2 \<le> 65535"
    using assms length_pad_even [of data] by (auto simp: pad_even_def)
  have S: "0 \<le> ?S e" "?S e \<le> 65535 * 65535" for e
  proof -
    have "?S e \<le> int (length (pad_even data) div 2) * 65535"
      using sum_words16_bounds by blast
    also have "\<dots> \<le> 65535 * 65535" using len by (intro mult_right_mono) linarith+
    finally show "?S e \<le> 65535 * 65535" .
  qed (use sum_words16_bounds in blast)
  show ?thesis
  proof (cases le)
    case True
    then show ?thesis
      using ntohs_oc_rep [OF S(1) [of False] S(1) [of True] sum_words16_swap sum_words16_zero]
      by (simp add: checksum_fold fold_carries_oc_rep [OF S] checksum_spec_def)
  next
    case False
    then show ?thesis
      by (simp add: checksum_fold fold_carries_oc_rep [OF S] checksum_spec_def ntohs_def)
  qed
qed

lemma checksum_spec_bounds: "0 \<le> checksum_spec data \<and> checksum_spec data \<le> 65535"
  using oc_rep_bounds sum_words16_bounds [of False "pad_even data"]
  unfolding checksum_spec_def by (metis diff_ge_0_iff_ge diff_le_eq le_add_same_cancel1 add.commute)

lemma words16_be_bytes:
  "0 \<le> c \<Longrightarrow> c < 65536 \<Longrightarrow> words16 False (be_bytes 2 c @ bs) = c # words16 False bs"
  by (simp add: numeral_2_eq_2 uint_word_of_int_byte)

lemma pad_even_append: "even (length a) \<Longrightarrow> pad_even (a @ b) = a @ pad_even b"
  by (simp add: pad_even_def flip: odd_iff_mod_2_eq_one even_iff_mod_2_eq_zero)

text \<open>Storing the checksum in a zeroed, even-aligned field makes the whole sum to zero.\<close>

lemma checksum_spec_inserted:
  assumes "even (length a)" "c = checksum_spec (a @ [0, 0] @ b)"
  shows "checksum_spec (a @ be_bytes 2 c @ b) = 0"
proof -
  let ?s = "sum_list (words16 False a) + sum_list (words16 False (pad_even b))"
  have c: "0 \<le> c" "c \<le> 65535" using checksum_spec_bounds assms(2) by blast+
  have s: "0 \<le> ?s" using sum_words16_bounds by (simp add: add_nonneg_nonneg)
  have pe: "pad_even (w @ b) = w @ pad_even b" if "length w = 2" for w
    using that by (simp add: pad_even_append)
  have c': "c = 65535 - oc_rep ?s"
    using assms by (simp add: checksum_spec_def pad_even_append words16_append pe [of "[0, 0]", simplified])
  have "65535 = oc_rep (?s + c)"
  proof (rule oc_rep_unique)
    from oc_rep_cong [OF s] obtain k where "?s - oc_rep ?s = 65535 * k"
      by (auto simp: mod_0_imp_dvd elim: dvdE)
    then have "?s + c - 65535 = 65535 * k" by (simp add: c')
    then show "(?s + c - 65535) mod 65535 = 0" by (simp only: mod_mult_self1_is_0)
    show "(65535 :: int) = 0 \<longleftrightarrow> ?s + c = 0"
      using s c c' oc_rep_eq_0 [OF s] by linarith
  qed (use s c in linarith)+
  moreover have "words16 False (a @ be_bytes 2 c @ pad_even b)
      = words16 False a @ c # words16 False (pad_even b)"
    using assms(1) c by (simp add: words16_append [of a] words16_be_bytes)
  then have "checksum_spec (a @ be_bytes 2 c @ b) = 65535 - oc_rep (?s + c)"
    using assms(1) by (simp add: checksum_spec_def pad_even_append pe algebra_simps)
  ultimately show ?thesis by simp
qed

section \<open>The checksum over the IP pseudo header\<close>

text \<open>
  The attributes \<^verbatim>\<open>checksum_ip\<close> reads of the outer \<^verbatim>\<open>ipv4\<close> or \<^verbatim>\<open>ipv6\<close> header; \<open>ip_upper\<close> is its
  \<^verbatim>\<open>proto\<close> or \<^verbatim>\<open>nxt\<close>.
\<close>

record ipvx =
  ip_version :: int
  ip_src :: string
  ip_dst :: string
  ip_upper :: int

definition ipv4_pseudo_fmt :: "fmt list" where
  "ipv4_pseudo_fmt = [FS 4, FS 4, FX 1, fB, fH]"

definition ipv6_pseudo_fmt :: "fmt list" where
  "ipv6_pseudo_fmt = [FS 16, FS 16, fI, FX 3, fB]"

definition pseudo_header :: "addrconv \<Rightarrow> ipvx \<Rightarrow> int \<Rightarrow> bytes res" where
  "pseudo_header A ip len =
     (if ip_version ip = 4 then
        res_bind (ip4_to_bin A (ip_src ip)) (\<lambda>src.
        res_bind (ip4_to_bin A (ip_dst ip)) (\<lambda>dst.
        pack ipv4_pseudo_fmt [VS src, VS dst, VI (ip_upper ip), VI len]))
      else if ip_version ip = 6 then
        res_bind (ip6_to_bin A (ip_src ip)) (\<lambda>src.
        res_bind (ip6_to_bin A (ip_dst ip)) (\<lambda>dst.
        pack ipv6_pseudo_fmt [VS src, VS dst, VI len, VI (ip_upper ip)]))
      else Inl ValueError)"

definition checksum_ip :: "bool \<Rightarrow> addrconv \<Rightarrow> ipvx \<Rightarrow> int \<Rightarrow> bytes \<Rightarrow> int res" where
  "checksum_ip le A ip len payload =
     res_bind (pseudo_header A ip len) (\<lambda>header. Inr (checksum le (header @ payload)))"

lemma length_pseudo_header:
  "pseudo_header A ip len = Inr h \<Longrightarrow> length h = 12 \<or> length h = 40"
  by (auto simp: pseudo_header_def res_bind_eq_Inr ipv4_pseudo_fmt_def ipv6_pseudo_fmt_def
      simp del: pack.simps dest!: length_pack split: if_splits)

section \<open>The Fletcher checksum\<close>

definition MODX :: nat where "MODX = 4102"

fun fletcher_block :: "bytes \<Rightarrow> int \<Rightarrow> int \<Rightarrow> int \<times> int" where
  "fletcher_block [] c0 c1 = (c0, c1)"
| "fletcher_block (d # ds) c0 c1 = fletcher_block ds (c0 + uint d) (c1 + (c0 + uint d))"

function fletcher_loop :: "nat \<Rightarrow> bytes \<Rightarrow> nat \<Rightarrow> int \<Rightarrow> int \<Rightarrow> int \<times> int" where
  "fletcher_loop len data pos c0 c1 =
     (if pos < len then
        let tlen = min (len - pos) MODX;
            (c0, c1) = fletcher_block (py_slice pos (pos + tlen) data) c0 c1
        in fletcher_loop len data (pos + tlen) (c0 mod 255) (c1 mod 255)
      else (c0, c1))"
  by pat_completeness auto
termination
  by (relation "measure (\<lambda>(len, data, pos, c0, c1). len - pos)") (auto simp: MODX_def)

declare fletcher_loop.simps [simp del]

definition fletcher_x :: "int \<Rightarrow> int \<Rightarrow> int \<Rightarrow> int" where
  "fletcher_x n c0 c1 = (let x = (n * c0 - c1) mod 255 in if x \<le> 0 then x + 255 else x)"

definition fletcher_y :: "int \<Rightarrow> int \<Rightarrow> int" where
  "fletcher_y c0 x = (let y = 510 - c0 - x in if y > 255 then y - 255 else y)"

definition fletcher_checksum :: "bytes \<Rightarrow> nat \<Rightarrow> int res" where
  "fletcher_checksum data0 offset =
     (let len = length data0;
          data = take offset data0 @ [0, 0] @ drop (offset + 2) data0;
          (c0, c1) = fletcher_loop len data 0 0 0;
          x = fletcher_x (int len - int offset - 1) c0 c1;
          y = fletcher_y c0 x
      in if offset + 1 < length data then Inr (push_bit 8 x OR (y AND 0xff)) else Inl IndexError)"

text \<open>The two sums of RFC 1008 over a whole buffer, without intermediate reductions.\<close>

fun fsum0 :: "bytes \<Rightarrow> int" where
  "fsum0 [] = 0"
| "fsum0 (b # bs) = uint b + fsum0 bs"

fun fsum1 :: "bytes \<Rightarrow> int" where
  "fsum1 [] = 0"
| "fsum1 (b # bs) = (int (length bs) + 1) * uint b + fsum1 bs"

definition fletcher_valid :: "bytes \<Rightarrow> bool" where
  "fletcher_valid data \<longleftrightarrow> fsum0 data mod 255 = 0 \<and> fsum1 data mod 255 = 0"

lemma fsum0_append: "fsum0 (xs @ ys) = fsum0 xs + fsum0 ys"
  by (induction xs) simp_all

lemma fsum1_append: "fsum1 (xs @ ys) = fsum1 xs + int (length ys) * fsum0 xs + fsum1 ys"
  by (induction xs) (simp_all add: algebra_simps)

lemma fletcher_block_eq:
  "fletcher_block bs c0 c1 = (c0 + fsum0 bs, c1 + int (length bs) * c0 + fsum1 bs)"
  by (induction bs c0 c1 rule: fletcher_block.induct) (simp_all add: algebra_simps)

text \<open>Reducing modulo 255 after each block of \<open>MODX\<close> bytes does not change the residues.\<close>

lemma mod_residues_step:
  "(b mod m + k * (a mod m) + z) mod m = (b + k * a + z) mod (m :: int)"
  by (intro mod_add_cong mod_mult_cong) simp_all

lemma fletcher_loop_cong:
  assumes "length data = len" "pos \<le> len" "fletcher_loop len data pos c0 c1 = (r0, r1)"
    "0 \<le> c0" "c0 < 255" "0 \<le> c1" "c1 < 255"
  shows "r0 = (c0 + fsum0 (drop pos data)) mod 255 \<and>
    r1 = (c1 + int (len - pos) * c0 + fsum1 (drop pos data)) mod 255"
  using assms
proof (induction len data pos c0 c1 arbitrary: r0 r1 rule: fletcher_loop.induct)
  case (1 len data pos c0 c1)
  show ?case
  proof (cases "pos < len")
    case False
    with "1.prems" show ?thesis by (simp add: fletcher_loop.simps [of len])
  next
    case True
    define tlen where "tlen = min (len - pos) MODX"
    define xs where "xs = py_slice pos (pos + tlen) data"
    define ys where "ys = drop (pos + tlen) data"
    have t: "pos + tlen \<le> len" using True by (simp add: tlen_def)
    have lx: "length xs = tlen" using t "1.prems"(1) by (simp add: xs_def length_py_slice)
    have d: "drop pos data = xs @ ys"
    proof -
      have "drop pos (take (pos + tlen) data @ drop (pos + tlen) data) = xs @ ys"
        unfolding drop_append using t "1.prems"(1) by (simp add: xs_def ys_def py_slice_def)
      then show ?thesis by (simp only: append_take_drop_id)
    qed
    let ?a = "c0 + fsum0 xs" and ?b = "c1 + int tlen * c0 + fsum1 xs"
    have r: "fletcher_loop len data (pos + tlen) (?a mod 255) (?b mod 255) = (r0, r1)"
      using "1.prems"(3) True
      by (simp add: fletcher_loop.simps [of len data pos] Let_def fletcher_block_eq lx
          flip: tlen_def xs_def)
    have IH: "r0 = (?a mod 255 + fsum0 ys) mod 255 \<and>
        r1 = (?b mod 255 + int (len - (pos + tlen)) * (?a mod 255) + fsum1 ys) mod 255"
      using "1.IH" [OF True tlen_def refl _ _ t] r "1.prems"(1)
      by (simp add: fletcher_block_eq lx ys_def flip: xs_def)
    have ly: "int (length ys) = int (len - (pos + tlen))" using "1.prems"(1) by (simp add: ys_def)
    have l: "int (len - pos) = int tlen + int (len - (pos + tlen))" using t by simp
    have e: "c1 + int (len - pos) * c0 + fsum1 (drop pos data)
        = ?b + int (len - (pos + tlen)) * ?a + fsum1 ys"
      unfolding d fsum1_append ly l by (simp add: algebra_simps)
    have "r1 = (c1 + int (len - pos) * c0 + fsum1 (drop pos data)) mod 255"
      unfolding e using IH mod_residues_step by metis
    moreover have "r0 = (c0 + fsum0 (drop pos data)) mod 255"
      using IH by (simp add: d fsum0_append mod_simps add.assoc)
    ultimately show ?thesis by blast
  qed
qed

lemma fletcher_loop_zero:
  "fletcher_loop (length data) data 0 0 0 = (fsum0 data mod 255, fsum1 data mod 255)"
  using fletcher_loop_cong [of data "length data" 0 0 0] 
  by (cases "fletcher_loop (length data) data 0 0 0") auto

text \<open>
  With \<open>c0\<close> and \<open>c1\<close> the sums over the zeroed buffer, the check bytes \<open>x\<close> and \<open>y\<close> cancel both
  sums; \<open>n\<close> bytes follow them.
\<close>

lemma fletcher_bytes_cancel:
  fixes n c0 c1 :: int
  assumes "0 \<le> c0" "c0 < 255"
    and x: "x = fletcher_x (n + 1) c0 c1" and y: "y = fletcher_y c0 x"
  shows "1 \<le> x \<and> x \<le> 255 \<and> 1 \<le> y \<and> y \<le> 255 \<and>
    (c0 + x + y) mod 255 = 0 \<and> (c1 + (n + 2) * x + (n + 1) * y) mod 255 = 0"
proof -
  define t where "t = (n + 1) * c0 - c1"
  have m: "0 \<le> t mod 255" "t mod 255 < 255" by simp_all
  have xm: "x = (if t mod 255 = 0 then 255 else t mod 255)"
    using m by (auto simp: x fletcher_x_def Let_def simp flip: t_def)
  then have xb: "1 \<le> x" "x \<le> 255" using m by auto
  obtain i where i: "x = t mod 255 + 255 * i"
    using that [of 0] that [of 1] xm by (cases "t mod 255 = 0") auto
  have "t mod 255 = t - 255 * (t div 255)" by (rule minus_mult_div_eq_mod [symmetric])
  then have k: "x = (n + 1) * c0 - c1 + 255 * (i - t div 255)"
    unfolding i by (simp add: algebra_simps flip: t_def) (simp add: t_def algebra_simps)
  obtain j where j: "y = 510 - c0 - x + 255 * j"
    using that [of 0] that [of "- 1"] y by (cases "510 - c0 - x > 255") (auto simp: fletcher_y_def Let_def)
  have yb: "1 \<le> y \<and> y \<le> 255" using assms(1,2) xb y by (auto simp: fletcher_y_def Let_def)
  have s0: "c0 + x + y = 255 * (2 + j)" by (simp add: j)
  have "c1 + x - (n + 1) * c0 = 255 * (i - t div 255)" using k by linarith
  moreover have "c1 + (n + 2) * x + (n + 1) * y = c1 + x - (n + 1) * c0 + 255 * ((n + 1) * (2 + j))"
    unfolding j by (simp add: algebra_simps)
  ultimately have "c1 + (n + 2) * x + (n + 1) * y = 255 * (i - t div 255 + (n + 1) * (2 + j))"
    by (simp only: distrib_left)
  with s0 show ?thesis using xb yb by simp
qed

lemma fletcher_checksum_valid:
  assumes "offset + 2 \<le> length data" "fletcher_checksum data offset = Inr r"
  shows "fletcher_valid (take offset data @ [word_of_int (r div 256), word_of_int (r mod 256)]
    @ drop (offset + 2) data)"
proof -
  define p q where "p = take offset data" and "q = drop (offset + 2) data"
  let ?z = "p @ [0, 0] @ q"
  have len: "length data = length ?z" "length p = offset" "length q = length data - offset - 2"
    using assms(1) by (simp_all add: p_def q_def)
  define n where "n = int (length q)"
  have n: "int (length data) - int offset - 1 = n + 1" using len assms(1) by (simp add: n_def)
  define c0 c1 where "c0 = fsum0 ?z mod 255" and "c1 = fsum1 ?z mod 255"
  define x y where "x = fletcher_x (n + 1) c0 c1" and "y = fletcher_y c0 x"
  have c0: "0 \<le> c0" "c0 < 255" by (simp_all add: c0_def)
  note xy = fletcher_bytes_cancel [OF c0 x_def y_def]
  have loop: "fletcher_loop (length data) ?z 0 0 0 = (c0, c1)"
    unfolding len(1) fletcher_loop_zero c0_def c1_def ..
  have "fletcher_checksum data offset = (if offset + 1 < length ?z
      then Inr (push_bit 8 x OR (y AND 0xff)) else Inl IndexError)"
    unfolding fletcher_checksum_def Let_def n loop p_def [symmetric] q_def [symmetric]
      x_def y_def by (simp only: loop prod.case)
  then have r: "r = push_bit 8 x OR (y AND 0xff)" using assms by (simp split: if_splits)
  have yw: "y AND 0xff = y" using xy by (simp add: mask_simps mod_pos_pos_trivial)
  have "r = 256 * x + y"
    unfolding r yw using xy by (subst or_disjoint_add) (auto simp: push_bit_eq_mult)
  then have rd: "r div 256 = x" "r mod 256 = y" using xy by auto
  have ux: "uint (word_of_int x :: byte) = x" "uint (word_of_int y :: byte) = y"
    using xy by (auto simp: uint_word_of_int_byte mod_pos_pos_trivial)
  have "fsum0 (p @ [word_of_int x, word_of_int y] @ q) = fsum0 ?z + (x + y)"
    by (simp add: fsum0_append ux)
  moreover have "fsum1 (p @ [word_of_int x, word_of_int y] @ q)
      = fsum1 ?z + ((n + 2) * x + (n + 1) * y)"
    by (simp add: fsum1_append ux n_def algebra_simps)
  moreover have "(fsum0 ?z + (x + y)) mod 255 = 0" "(fsum1 ?z + ((n + 2) * x + (n + 1) * y)) mod 255 = 0"
    using xy by (metis add.assoc c0_def mod_add_left_eq, metis add.assoc c1_def mod_add_left_eq)
  ultimately show ?thesis unfolding fletcher_valid_def rd by (simp add: p_def q_def)
qed

end
