(* ===== verification/Packet_Net.thy ===== *)
theory Packet_Net
  imports Packet_Link Packet_Utils
begin

text \<open>
  The headers of \<^verbatim>\<open>ryu/lib/packet/\<close> that carry checksums: \<^verbatim>\<open>ipv4.py\<close>, \<^verbatim>\<open>udp.py\<close> and \<^verbatim>\<open>icmp.py\<close>.
  Their \<^verbatim>\<open>serialize\<close> methods fill in lengths and checksums of the object, so the model returns
  the updated header beside the bytes.
\<close>

section \<open>IPv4\<close>

record ipv4 =
  ip4_version :: int
  ip4_header_length :: int
  ip4_tos :: int
  ip4_total_length :: int
  ip4_identification :: int
  ip4_flags :: int
  ip4_offset :: int
  ip4_ttl :: int
  ip4_proto :: int
  ip4_csum :: int
  ip4_src :: string
  ip4_dst :: string
  ip4_option :: "bytes option"

definition ipv4_fmt :: "fmt list" where
  "ipv4_fmt = [fB, fB, fH, fH, fH, fB, fB, fH, FS 4, FS 4]"

definition ipv4_parser :: "addrconv \<Rightarrow> bytes \<Rightarrow> (ipv4 \<times> pkt_cls option \<times> bytes) res" where
  "ipv4_parser A buf =
     res_bind (unpack_from ipv4_fmt buf) (\<lambda>vs.
     case vs of [VI version, VI tos, VI total_length, VI identification, VI flags, VI ttl,
                 VI proto, VI csum, VS src, VS dst] \<Rightarrow>
       (let header_length = version AND 0xf;
            version = drop_bit 4 version;
            offset = flags AND (push_bit 13 1 - 1);
            flags = drop_bit 13 flags;
            len = header_length * 4;
            option = (if len > 20 then Some (py_slice 20 (nat len) buf) else None);
            msg = \<lparr>ip4_version = version, ip4_header_length = header_length, ip4_tos = tos,
                   ip4_total_length = total_length, ip4_identification = identification,
                   ip4_flags = flags, ip4_offset = offset, ip4_ttl = ttl, ip4_proto = proto,
                   ip4_csum = csum, ip4_src = ip4_to_text A src, ip4_dst = ip4_to_text A dst,
                   ip4_option = option\<rparr>
        in Inr (msg, get_packet_type proto, py_slice (nat len) (nat total_length) buf))
     | _ \<Rightarrow> Inl StructError)"

text \<open>
  \<^verbatim>\<open>serialize\<close>: a zeroed buffer of the header length, the fixed part with checksum 0, the option
  if it is not empty, then the checksum at offset 10.
\<close>

definition ipv4_serialize :: "bool \<Rightarrow> addrconv \<Rightarrow> ipv4 \<Rightarrow> bytes \<Rightarrow> (bytes \<times> ipv4) res" where
  "ipv4_serialize le A h payload =
     (let len = ip4_header_length h * 4;
          version = push_bit 4 (ip4_version h) OR ip4_header_length h;
          flags = push_bit 13 (ip4_flags h) OR ip4_offset h;
          h = (if ip4_total_length h = 0
               then h\<lparr>ip4_total_length := ip4_header_length h * 4 + int (length payload)\<rparr> else h)
      in if len < 0 then Inl ValueError else
      res_bind (ip4_to_bin A (ip4_src h)) (\<lambda>src.
      res_bind (ip4_to_bin A (ip4_dst h)) (\<lambda>dst.
      res_bind (pack_into ipv4_fmt [VI version, VI (ip4_tos h), VI (ip4_total_length h),
          VI (ip4_identification h), VI flags, VI (ip4_ttl h), VI (ip4_proto h), VI 0,
          VS src, VS dst] 0 (replicate (nat len) 0)) (\<lambda>hdr.
      res_bind (case ip4_option h of
            None \<Rightarrow> Inr hdr
          | Some opt \<Rightarrow> if opt = [] then Inr hdr
              else res_bind (assertR (len - 20 \<ge> int (length opt))) (\<lambda>_.
                   Inr (take 20 hdr @ opt @ drop (20 + length opt) hdr))) (\<lambda>hdr.
      let csum = checksum le hdr in
      res_bind (pack_into [fH] [VI csum] 10 hdr) (\<lambda>hdr. Inr (hdr, h\<lparr>ip4_csum := csum\<rparr>)))))))"

definition ipv4_wf :: "addrconv \<Rightarrow> ipv4 \<Rightarrow> bool" where
  "ipv4_wf A h \<longleftrightarrow>
     0 \<le> ip4_version h \<and> ip4_version h < 16 \<and> 5 \<le> ip4_header_length h \<and> ip4_header_length h < 16 \<and>
     0 \<le> ip4_tos h \<and> ip4_tos h < 256 \<and> 0 \<le> ip4_identification h \<and> ip4_identification h < 65536 \<and>
     0 \<le> ip4_flags h \<and> ip4_flags h < 8 \<and> 0 \<le> ip4_offset h \<and> ip4_offset h < 8192 \<and>
     0 \<le> ip4_ttl h \<and> ip4_ttl h < 256 \<and> 0 \<le> ip4_proto h \<and> ip4_proto h < 256 \<and>
     canon_ip4 A (ip4_src h) \<and> canon_ip4 A (ip4_dst h) \<and>
     (case ip4_option h of None \<Rightarrow> ip4_header_length h = 5
      | Some opt \<Rightarrow> opt \<noteq> [] \<and> int (length opt) = ip4_header_length h * 4 - 20)"

text \<open>The header bytes before the checksum field, the option after the fixed part.\<close>

lemma pack_bytes_ipv4:
  assumes "length src = 4" "length dst = 4"
  shows "\<exists>a. length a = 10 \<and> (\<forall>c. pack_bytes ipv4_fmt [VI v, VI tos, VI len, VI ident, VI fl, VI ttl,
      VI proto, VI c, VS src, VS dst] = a @ be_bytes 2 c @ src @ dst)"
proof (intro exI conjI allI)
  let ?a = "be_bytes (Suc 0) v @ be_bytes (Suc 0) tos @ be_bytes 2 len @ be_bytes 2 ident @
    be_bytes 2 fl @ be_bytes (Suc 0) ttl @ be_bytes (Suc 0) proto"
  show "length ?a = 10" by simp
  show "pack_bytes ipv4_fmt [VI v, VI tos, VI len, VI ident, VI fl, VI ttl, VI proto, VI c,
      VS src, VS dst] = ?a @ be_bytes 2 c @ src @ dst" for c
    by (simp add: ipv4_fmt_def)
qed

lemma be_bytes2_zero: "be_bytes 2 0 = [0, 0]"
  by (simp add: numeral_2_eq_2)

lemma ipv4_first_byte:
  fixes hl v :: int
  assumes "0 \<le> hl" "hl < 16" "0 \<le> v" "v < 16"
  shows "push_bit 4 v OR hl = v * 16 + hl" "0 \<le> v * 16 + hl" "v * 16 + hl < 256"
    "(v * 16 + hl) mod 16 = hl" "(v * 16 + hl) div 16 = v"
  using assms or_disjoint_add [of hl 4 v] by (simp_all add: push_bit_eq_mult field_div field_mod)

lemma ipv4_frag_word:
  fixes off fl :: int
  assumes "0 \<le> off" "off < 8192" "0 \<le> fl" "fl < 8"
  shows "push_bit 13 fl OR off = fl * 8192 + off" "0 \<le> fl * 8192 + off" "fl * 8192 + off < 65536"
    "(fl * 8192 + off) mod 8192 = off" "(fl * 8192 + off) div 8192 = fl"
  using assms or_disjoint_add [of off 13 fl] by (simp_all add: push_bit_eq_mult field_div field_mod)

definition ipv4_fill :: "ipv4 \<Rightarrow> bytes \<Rightarrow> ipv4" where
  "ipv4_fill h payload = (if ip4_total_length h = 0
     then h\<lparr>ip4_total_length := ip4_header_length h * 4 + int (length payload)\<rparr> else h)"

definition ipv4_length_ok :: "ipv4 \<Rightarrow> bytes \<Rightarrow> bool" where
  "ipv4_length_ok h payload \<longleftrightarrow>
     ip4_total_length (ipv4_fill h payload) = ip4_header_length h * 4 + int (length payload) \<and>
     ip4_total_length (ipv4_fill h payload) < 65536"

definition opt_bytes :: "bytes option \<Rightarrow> bytes" where
  "opt_bytes ob = (case ob of None \<Rightarrow> [] | Some b \<Rightarrow> b)"

text \<open>The serialized header, computed.\<close>

lemma ipv4_serialize_eq:
  assumes A: "addrconv_ok A" and wf: "ipv4_wf A h" and len: "ipv4_length_ok h payload"
  defines "tot \<equiv> ip4_total_length (ipv4_fill h payload)"
  shows "\<exists>src dst a opt. ip4_to_text A src = ip4_src h \<and> ip4_to_text A dst = ip4_dst h \<and>
    length src = 4 \<and> length dst = 4 \<and> length a = 10 \<and> opt = opt_bytes (ip4_option h) \<and>
    int (length opt) = ip4_header_length h * 4 - 20 \<and>
    (\<forall>c. pack_bytes ipv4_fmt [VI (ip4_version h * 16 + ip4_header_length h), VI (ip4_tos h), VI tot,
       VI (ip4_identification h), VI (ip4_flags h * 8192 + ip4_offset h), VI (ip4_ttl h),
       VI (ip4_proto h), VI c, VS src, VS dst] = a @ be_bytes 2 c @ src @ dst) \<and>
    (let c = checksum_spec (a @ [0, 0] @ src @ dst @ opt)
     in ipv4_serialize le A h payload =
       Inr (a @ be_bytes 2 c @ src @ dst @ opt, (ipv4_fill h payload)\<lparr>ip4_csum := c\<rparr>))"
proof -
  have r: "0 \<le> ip4_version h" "ip4_version h < 16" "5 \<le> ip4_header_length h" "ip4_header_length h < 16"
    "0 \<le> ip4_tos h" "ip4_tos h < 256" "0 \<le> ip4_identification h" "ip4_identification h < 65536"
    "0 \<le> ip4_flags h" "ip4_flags h < 8" "0 \<le> ip4_offset h" "ip4_offset h < 8192"
    "0 \<le> ip4_ttl h" "ip4_ttl h < 256" "0 \<le> ip4_proto h" "ip4_proto h < 256"
    using wf by (simp_all add: ipv4_wf_def)
  have cn: "canon_ip4 A (ip4_src h)" "canon_ip4 A (ip4_dst h)" using wf by (simp_all add: ipv4_wf_def)
  obtain src where
    src: "ip4_to_bin A (ip4_src h) = Inr src" "length src = 4" "ip4_to_text A src = ip4_src h"
    by (rule canon_ip4E [OF A cn(1)])
  obtain dst where
    dst: "ip4_to_bin A (ip4_dst h) = Inr dst" "length dst = 4" "ip4_to_text A dst = ip4_dst h"
    by (rule canon_ip4E [OF A cn(2)])
  define opt where "opt = opt_bytes (ip4_option h)"
  have opt: "int (length opt) = ip4_header_length h * 4 - 20"
    using wf by (auto simp: opt_def opt_bytes_def ipv4_wf_def split: option.splits)
  have hl: "0 \<le> ip4_header_length h" using r(3) by simp
  note fb = ipv4_first_byte [OF hl r(4) r(1,2)] and fw = ipv4_frag_word [OF r(11,12) r(9,10)]
  have tot: "0 \<le> tot" "tot < 65536"
    using len hl by (auto simp: tot_def ipv4_length_ok_def)
  let ?vs = "\<lambda>c. [VI (ip4_version h * 16 + ip4_header_length h), VI (ip4_tos h), VI tot,
       VI (ip4_identification h), VI (ip4_flags h * 8192 + ip4_offset h), VI (ip4_ttl h),
       VI (ip4_proto h), VI c, VS src, VS dst]"
  obtain a where a: "length a = 10" "\<And>c. pack_bytes ipv4_fmt (?vs c) = a @ be_bytes 2 c @ src @ dst"
    using pack_bytes_ipv4 [OF src(2) dst(2)] by metis
  have f: "fits ipv4_fmt (?vs 0)"
    using r fb fw tot src(2) dst(2) by (simp add: ipv4_fmt_def)
  have cs: "calcsize ipv4_fmt = 20" by (simp add: ipv4_fmt_def)
  define n where "n = nat (ip4_header_length h * 4)"
  have n: "n = 20 + length opt" using opt r(3) by (simp add: n_def)
  have h1: "pack_into ipv4_fmt (?vs 0) 0 (replicate n 0)
      = Inr (a @ [0, 0] @ src @ dst @ replicate (length opt) 0)"
    by (simp add: pack_into_def pack_fits [OF f] a(2) cs n be_bytes2_zero)
  have h2: "(case ip4_option h of
            None \<Rightarrow> Inr (a @ [0, 0] @ src @ dst @ replicate (length opt) 0)
          | Some o' \<Rightarrow> if o' = [] then Inr (a @ [0, 0] @ src @ dst @ replicate (length opt) 0)
              else res_bind (assertR (ip4_header_length h * 4 - 20 \<ge> int (length o'))) (\<lambda>_.
                   Inr (take 20 (a @ [0, 0] @ src @ dst @ replicate (length opt) 0) @ o' @
                     drop (20 + length o') (a @ [0, 0] @ src @ dst @ replicate (length opt) 0))))
      = Inr (a @ [0, 0] @ src @ dst @ opt)"
    using opt a(1) src(2) dst(2) by (auto simp: opt_def opt_bytes_def split: option.splits)
  define c where "c = checksum_spec (a @ [0, 0] @ src @ dst @ opt)"
  have ck: "checksum le (a @ [0, 0] @ src @ dst @ opt) = c"
    unfolding c_def using n r(4) a(1) src(2) dst(2) opt
    by (intro checksum_eq_spec) simp
  have c: "0 \<le> c" "c \<le> 65535" using checksum_spec_bounds by (simp_all add: c_def)
  have h3: "pack_into [fH] [VI c] 10 (a @ [0, 0] @ src @ dst @ opt)
      = Inr (a @ be_bytes 2 c @ src @ dst @ opt)"
    using c a(1) by (simp add: pack_into_def)
  have "ipv4_serialize le A h payload =
       Inr (a @ be_bytes 2 c @ src @ dst @ opt, (ipv4_fill h payload)\<lparr>ip4_csum := c\<rparr>)"
  proof -
    have e: "(if ip4_total_length h = 0
        then h\<lparr>ip4_total_length := ip4_header_length h * 4 + int (length payload)\<rparr> else h)
        = ipv4_fill h payload" by (simp add: ipv4_fill_def)
    have k: "ip4_src (ipv4_fill h payload) = ip4_src h" "ip4_dst (ipv4_fill h payload) = ip4_dst h"
      "ip4_tos (ipv4_fill h payload) = ip4_tos h"
      "ip4_identification (ipv4_fill h payload) = ip4_identification h"
      "ip4_ttl (ipv4_fill h payload) = ip4_ttl h" "ip4_proto (ipv4_fill h payload) = ip4_proto h"
      "ip4_option (ipv4_fill h payload) = ip4_option h"
      by (simp_all add: ipv4_fill_def)
    have nn: "\<not> ip4_header_length h * 4 < 0" using hl by simp
    show ?thesis
      unfolding ipv4_serialize_def Let_def e k fb(1) fw(1) src(1) dst(1) res_bind_Inr if_not_P [OF nn]
        tot_def [symmetric] n_def [symmetric] h1 h2 ck h3 by (simp only: prod.case res_bind_Inr)
  qed
  with a src dst opt show ?thesis
    unfolding Let_def c_def opt_def by blast
qed

text \<open>Parsing what was serialized, followed by the payload and any trailer.\<close>

lemma ipv4_codec:
  assumes A: "addrconv_ok A" and wf: "ipv4_wf A h" and len: "ipv4_length_ok h payload"
  shows "\<exists>hdr h'. ipv4_serialize le A h payload = Inr (hdr, h') \<and>
    h' = (ipv4_fill h payload)\<lparr>ip4_csum := ip4_csum h'\<rparr> \<and> checksum_spec hdr = 0 \<and>
    (\<forall>trailer. ipv4_parser A (hdr @ payload @ trailer)
      = Inr (h', get_packet_type (ip4_proto h), payload))"
proof -
  define tot where "tot = ip4_total_length (ipv4_fill h payload)"
  define c where "c = (\<lambda>a src dst opt. checksum_spec (a @ [0, 0] @ src @ dst @ opt))"
  obtain src dst a opt where e: "ip4_to_text A src = ip4_src h" "ip4_to_text A dst = ip4_dst h"
    "length src = 4" "length dst = 4" "length a = 10" "opt = opt_bytes (ip4_option h)"
    "int (length opt) = ip4_header_length h * 4 - 20"
    "\<And>x. pack_bytes ipv4_fmt [VI (ip4_version h * 16 + ip4_header_length h), VI (ip4_tos h), VI tot,
       VI (ip4_identification h), VI (ip4_flags h * 8192 + ip4_offset h), VI (ip4_ttl h),
       VI (ip4_proto h), VI x, VS src, VS dst] = a @ be_bytes 2 x @ src @ dst"
    "ipv4_serialize le A h payload = Inr (a @ be_bytes 2 (c a src dst opt) @ src @ dst @ opt,
       (ipv4_fill h payload)\<lparr>ip4_csum := c a src dst opt\<rparr>)"
    using ipv4_serialize_eq [OF A wf len, of le] unfolding Let_def tot_def c_def by blast
  define x where "x = c a src dst opt"
  have x: "0 \<le> x" "x \<le> 65535" using checksum_spec_bounds by (simp_all add: x_def c_def)
  define h' where "h' = (ipv4_fill h payload)\<lparr>ip4_csum := x\<rparr>"
  have r: "0 \<le> ip4_version h" "ip4_version h < 16" "5 \<le> ip4_header_length h" "ip4_header_length h < 16"
    "0 \<le> ip4_tos h" "ip4_tos h < 256" "0 \<le> ip4_identification h" "ip4_identification h < 65536"
    "0 \<le> ip4_flags h" "ip4_flags h < 8" "0 \<le> ip4_offset h" "ip4_offset h < 8192"
    "0 \<le> ip4_ttl h" "ip4_ttl h < 256" "0 \<le> ip4_proto h" "ip4_proto h < 256"
    using wf by (simp_all add: ipv4_wf_def)
  have hl: "0 \<le> ip4_header_length h" using r(3) by simp
  note fb = ipv4_first_byte [OF hl r(4) r(1,2)] and fw = ipv4_frag_word [OF r(11,12) r(9,10)]
  have tot: "tot = ip4_header_length h * 4 + int (length payload)" "tot < 65536"
    using len by (simp_all add: tot_def ipv4_length_ok_def)
  have f: "fits ipv4_fmt [VI (ip4_version h * 16 + ip4_header_length h), VI (ip4_tos h), VI tot,
       VI (ip4_identification h), VI (ip4_flags h * 8192 + ip4_offset h), VI (ip4_ttl h),
       VI (ip4_proto h), VI x, VS src, VS dst]"
    using r fb fw tot e(3,4) x hl by (simp add: ipv4_fmt_def)
  have hdr: "checksum_spec (a @ be_bytes 2 x @ src @ dst @ opt) = 0"
    using e(5) by (intro checksum_spec_inserted) (simp_all add: x_def c_def)
  have u: "unpack_from ipv4_fmt ((a @ be_bytes 2 x @ src @ dst @ opt) @ payload @ t) = Inr [
       VI (ip4_version h * 16 + ip4_header_length h), VI (ip4_tos h), VI tot,
       VI (ip4_identification h), VI (ip4_flags h * 8192 + ip4_offset h), VI (ip4_ttl h),
       VI (ip4_proto h), VI x, VS src, VS dst]" for t
    using unpack_from_pack_bytes [OF f, of "opt @ payload @ t"] by (simp add: e(8))
  have n: "nat (ip4_header_length h * 4) = 20 + length opt" using e(7) r(3) by simp
  have nt: "nat tot = 20 + length opt + length payload" using tot n hl by simp
  have o: "(if ip4_header_length h * 4 > 20
      then Some (py_slice 20 (20 + length opt) ((a @ be_bytes 2 x @ src @ dst @ opt) @ payload @ t))
      else None) = ip4_option h" for t
  proof (cases "ip4_option h")
    case None
    then show ?thesis using wf by (simp add: ipv4_wf_def)
  next
    case (Some ob)
    then have "0 < length ob" using wf by (simp add: ipv4_wf_def)
    then have "0 < int (length opt)" using e(6) Some by (simp add: opt_bytes_def)
    then have "20 < ip4_header_length h * 4" using e(7) by linarith
    then show ?thesis using e(3-6) Some by (simp add: py_slice_def opt_bytes_def)
  qed
  have sl: "py_slice (20 + length opt) (20 + length opt + length payload)
      ((a @ be_bytes 2 x @ src @ dst @ opt) @ payload @ t) = payload" for t
    using e(3-5) by (intro py_slice_append_exact) simp_all
  have rec: "\<lparr>ip4_version = ip4_version h, ip4_header_length = ip4_header_length h,
       ip4_tos = ip4_tos h, ip4_total_length = tot, ip4_identification = ip4_identification h,
       ip4_flags = ip4_flags h, ip4_offset = ip4_offset h, ip4_ttl = ip4_ttl h,
       ip4_proto = ip4_proto h, ip4_csum = x, ip4_src = ip4_src h, ip4_dst = ip4_dst h,
       ip4_option = ip4_option h\<rparr> = h'"
    by (cases h) (simp add: h'_def tot_def ipv4_fill_def)
  have p: "(2 :: int) ^ 4 = 16" "(2 :: int) ^ 13 = 8192" "(1 :: int) * 8192 - 1 = 8191" by simp_all
  have "ipv4_parser A ((a @ be_bytes 2 x @ src @ dst @ opt) @ payload @ t)
      = Inr (h', get_packet_type (ip4_proto h), payload)" for t
    unfolding ipv4_parser_def u
    by (simp only: res_bind_Inr list.case fval.case Let_def shift_simps p and_masks
        fb(4,5) fw(4,5) n nt o sl e(1,2) rec)
  then show ?thesis
    using e(9) hdr by (auto simp: h'_def x_def)
qed

section \<open>UDP\<close>

record udp =
  udp_src_port :: int
  udp_dst_port :: int
  udp_total_length :: int
  udp_csum :: int

definition udp_fmt :: "fmt list" where
  "udp_fmt = [fH, fH, fH, fH]"

definition udp_get_packet_type :: "int \<Rightarrow> int \<Rightarrow> pkt_cls option" where
  "udp_get_packet_type src_port dst_port =
     (if (src_port \<in> {67, 68} \<and> dst_port = 67) \<or> (dst_port \<in> {67, 68} \<and> src_port = 67)
      then Some C_dhcp
      else if (src_port \<in> {546, 547} \<and> dst_port = 547) \<or> (dst_port \<in> {546, 547} \<and> src_port = 547)
      then Some C_dhcp6
      else if dst_port = 4789 \<or> dst_port = 8472 then Some C_vxlan
      else if dst_port = 6081 then Some C_geneve
      else None)"

definition udp_parser :: "bytes \<Rightarrow> (udp \<times> pkt_cls option \<times> bytes) res" where
  "udp_parser buf =
     res_bind (unpack_from udp_fmt buf) (\<lambda>vs.
     case vs of [VI src_port, VI dst_port, VI total_length, VI csum] \<Rightarrow>
       Inr (\<lparr>udp_src_port = src_port, udp_dst_port = dst_port, udp_total_length = total_length,
             udp_csum = csum\<rparr>, udp_get_packet_type src_port dst_port,
            py_slice 8 (nat total_length) buf)
     | _ \<Rightarrow> Inl StructError)"

text \<open>
  \<^verbatim>\<open>serialize(payload, prev)\<close>: \<open>prev\<close> is the outer IP header; without one, computing the checksum
  raises \<^verbatim>\<open>AttributeError\<close>.
\<close>

definition udp_pack :: "udp \<Rightarrow> bytes res" where
  "udp_pack h = pack udp_fmt [VI (udp_src_port h), VI (udp_dst_port h), VI (udp_total_length h),
     VI (udp_csum h)]"

definition udp_serialize ::
    "bool \<Rightarrow> addrconv \<Rightarrow> udp \<Rightarrow> bytes \<Rightarrow> ipvx option \<Rightarrow> (bytes \<times> udp) res" where
  "udp_serialize le A h payload prev =
     (let h = (if udp_total_length h = 0
               then h\<lparr>udp_total_length := 8 + int (length payload)\<rparr> else h)
      in res_bind (udp_pack h) (\<lambda>b.
         if udp_csum h = 0 then
           (case prev of
              None \<Rightarrow> Inl AttributeError
            | Some ip \<Rightarrow>
                res_bind (checksum_ip le A ip (udp_total_length h) (b @ payload)) (\<lambda>csum.
                let h = h\<lparr>udp_csum := csum\<rparr> in
                res_bind (udp_pack h) (\<lambda>b. Inr (b, h))))
         else Inr (b, h)))"

definition udp_wf :: "udp \<Rightarrow> bool" where
  "udp_wf h \<longleftrightarrow> 0 \<le> udp_src_port h \<and> udp_src_port h < 65536 \<and>
     0 \<le> udp_dst_port h \<and> udp_dst_port h < 65536 \<and>
     0 \<le> udp_csum h \<and> udp_csum h < 65536"

definition udp_fill :: "udp \<Rightarrow> bytes \<Rightarrow> udp" where
  "udp_fill h payload = (if udp_total_length h = 0
     then h\<lparr>udp_total_length := 8 + int (length payload)\<rparr> else h)"

definition udp_length_ok :: "udp \<Rightarrow> bytes \<Rightarrow> bool" where
  "udp_length_ok h payload \<longleftrightarrow>
     udp_total_length (udp_fill h payload) = 8 + int (length payload) \<and> length payload + 8 < 65536"

lemma udp_pack_ok:
  assumes "udp_wf h" "0 \<le> udp_total_length h" "udp_total_length h < 65536"
  shows "\<exists>a. length a = 6 \<and> (\<forall>c. 0 \<le> c \<longrightarrow> c < 65536 \<longrightarrow>
      udp_pack (h\<lparr>udp_csum := c\<rparr>) = Inr (a @ be_bytes 2 c) \<and>
      (\<forall>r. unpack_from udp_fmt (a @ be_bytes 2 c @ r) =
        Inr [VI (udp_src_port h), VI (udp_dst_port h), VI (udp_total_length h), VI c]))"
proof (intro exI conjI allI impI)
  let ?a = "be_bytes 2 (udp_src_port h) @ be_bytes 2 (udp_dst_port h) @ be_bytes 2 (udp_total_length h)"
  let ?vs = "\<lambda>c. [VI (udp_src_port h), VI (udp_dst_port h), VI (udp_total_length h), VI c]"
  show "length ?a = 6" by simp
  fix c :: int and r assume "0 \<le> c" "c < 65536"
  with assms have f: "fits udp_fmt (?vs c)" by (simp add: udp_fmt_def udp_wf_def)
  have p: "pack_bytes udp_fmt (?vs c) = ?a @ be_bytes 2 c" by (simp add: udp_fmt_def)
  show "udp_pack (h\<lparr>udp_csum := c\<rparr>) = Inr (?a @ be_bytes 2 c)"
    using pack_fits [OF f] by (simp add: udp_pack_def p)
  show "unpack_from udp_fmt (?a @ be_bytes 2 c @ r) = Inr (?vs c)"
    using unpack_from_pack_bytes [OF f, of r] by (simp add: p)
qed

text \<open>
  The datagram of an IPv4 packet: parsing gives the header back, and the computed checksum makes
  the sum over pseudo header, header and payload zero.
\<close>

lemma udp_codec:
  assumes A: "addrconv_ok A" and wf: "udp_wf h" and len: "udp_length_ok h payload"
    and ps: "pseudo_header A ip (8 + int (length payload)) = Inr ps"
  shows "\<exists>hdr h'. udp_serialize le A h payload (Some ip) = Inr (hdr, h') \<and>
    h' = (udp_fill h payload)\<lparr>udp_csum := udp_csum h'\<rparr> \<and>
    (udp_csum h = 0 \<longrightarrow> checksum_spec (ps @ hdr @ payload) = 0) \<and>
    (udp_csum h \<noteq> 0 \<longrightarrow> udp_csum h' = udp_csum h) \<and>
    (\<forall>trailer. udp_parser (hdr @ payload @ trailer) =
      Inr (h', udp_get_packet_type (udp_src_port h) (udp_dst_port h), payload))"
proof -
  define g where "g = udp_fill h payload"
  have g: "udp_wf g" "udp_total_length g = 8 + int (length payload)" "udp_csum g = udp_csum h"
    "udp_src_port g = udp_src_port h" "udp_dst_port g = udp_dst_port h"
    using wf len by (simp_all add: g_def udp_fill_def udp_wf_def udp_length_ok_def)
  have gl: "0 \<le> udp_total_length g" "udp_total_length g < 65536"
    using len by (simp_all add: g(2) udp_length_ok_def)
  obtain a where a: "length a = 6"
    "\<And>c. 0 \<le> c \<Longrightarrow> c < 65536 \<Longrightarrow> udp_pack (g\<lparr>udp_csum := c\<rparr>) = Inr (a @ be_bytes 2 c)"
    "\<And>c r. 0 \<le> c \<Longrightarrow> c < 65536 \<Longrightarrow> unpack_from udp_fmt (a @ be_bytes 2 c @ r) =
        Inr [VI (udp_src_port g), VI (udp_dst_port g), VI (udp_total_length g), VI c]"
    using udp_pack_ok [OF g(1) gl] by blast
  define x where "x = (if udp_csum h = 0 then checksum_spec ((ps @ a) @ [0, 0] @ payload) else udp_csum h)"
  have x: "0 \<le> x" "x < 65536"
    using checksum_spec_bounds [of "(ps @ a) @ [0, 0] @ payload"] wf by (auto simp: x_def udp_wf_def)
  have lps: "length ps = 12 \<or> length ps = 40" by (rule length_pseudo_header [OF ps])
  have ck: "checksum le (ps @ a @ [0, 0] @ payload) = checksum_spec ((ps @ a) @ [0, 0] @ payload)"
    using lps a(1) len by (subst checksum_eq_spec) (auto simp: udp_length_ok_def)
  have pk: "udp_pack g = Inr (a @ be_bytes 2 (udp_csum h))"
  proof -
    have "g\<lparr>udp_csum := udp_csum h\<rparr> = g" by (cases g) (use g(3) in simp)
    then show ?thesis using a(2) [of "udp_csum h"] wf by (simp add: udp_wf_def)
  qed
  have ser: "udp_serialize le A h payload (Some ip) = Inr (a @ be_bytes 2 x, g\<lparr>udp_csum := x\<rparr>)"
  proof (cases "udp_csum h = 0")
    case True
    then have xx: "x = checksum_spec ((ps @ a) @ [0, 0] @ payload)" by (simp add: x_def)
    have "checksum_ip le A ip (8 + int (length payload)) ((a @ be_bytes 2 0) @ payload) = Inr x"
      using ck by (simp add: checksum_ip_def ps xx be_bytes2_zero)
    then show ?thesis
      unfolding udp_serialize_def Let_def udp_fill_def [symmetric] g_def [symmetric] pk
      using True g a(2) [OF x] by simp
  next
    case False
    then have xh: "x = udp_csum h" by (simp add: x_def)
    have "g\<lparr>udp_csum := x\<rparr> = g" by (cases g) (use g(3) xh in simp)
    then show ?thesis
      unfolding udp_serialize_def Let_def udp_fill_def [symmetric] g_def [symmetric] pk
      using False by (simp add: xh g(3))
  qed
  have v: "checksum_spec (ps @ (a @ be_bytes 2 x) @ payload) = 0" if "udp_csum h = 0"
    using checksum_spec_inserted [of "ps @ a" x payload] that lps a(1) by (auto simp: x_def)
  have nt: "nat (udp_total_length g) = 8 + length payload" by (simp add: g(2))
  have sl: "py_slice 8 (8 + length payload) (a @ be_bytes 2 x @ payload @ t) = payload" for t
    using a(1) by (simp add: py_slice_def)
  have rec: "\<lparr>udp_src_port = udp_src_port h, udp_dst_port = udp_dst_port h,
      udp_total_length = udp_total_length g, udp_csum = x\<rparr> = g\<lparr>udp_csum := x\<rparr>"
    using g(4,5) by (cases g) simp
  have "udp_parser ((a @ be_bytes 2 x) @ payload @ t) = Inr (g\<lparr>udp_csum := x\<rparr>,
      udp_get_packet_type (udp_src_port h) (udp_dst_port h), payload)" for t
    unfolding udp_parser_def append_assoc a(3) [OF x] by (simp add: nt sl rec g(4,5))
  then have parse: "udp_parser ((a @ be_bytes 2 x) @ payload @ t) = Inr (g\<lparr>udp_csum := x\<rparr>,
      udp_get_packet_type (udp_src_port h) (udp_dst_port h), payload)" for t .
  show ?thesis
  proof (intro exI conjI allI impI)
    show "udp_serialize le A h payload (Some ip) = Inr (a @ be_bytes 2 x, g\<lparr>udp_csum := x\<rparr>)"
      by (rule ser)
    show "g\<lparr>udp_csum := x\<rparr> = (udp_fill h payload)\<lparr>udp_csum := udp_csum (g\<lparr>udp_csum := x\<rparr>)\<rparr>"
      by (simp add: g_def)
    show "udp_csum (g\<lparr>udp_csum := x\<rparr>) = udp_csum h" if "udp_csum h \<noteq> 0"
      using that by (simp add: x_def)
  qed (use v parse in blast)+
qed

section \<open>ICMP\<close>

text \<open>
  The attribute \<^verbatim>\<open>data\<close> of \<^verbatim>\<open>icmp\<close>: raw bytes, or one of the registered payload classes, whose
  own \<^verbatim>\<open>data\<close> may be \<^verbatim>\<open>None\<close>.
\<close>

datatype icmp_data =
    IcmpRaw bytes
  | IcmpEcho int int "bytes option"
  | IcmpDestUnreach int int "bytes option"
  | IcmpTimeExceeded int "bytes option"

record icmp =
  icmp_type :: int
  icmp_code :: int
  icmp_csum :: int
  icmp_payload :: icmp_data

definition icmp_fmt :: "fmt list" where
  "icmp_fmt = [fB, fB, fH]"

definition data_after :: "bytes \<Rightarrow> nat \<Rightarrow> bytes option" where
  "data_after buf offset = (if length buf > offset then Some (drop offset buf) else None)"

definition echo_parser :: "bytes \<Rightarrow> nat \<Rightarrow> icmp_data res" where
  "echo_parser buf offset =
     res_bind (unpack_from [fH, fH] (drop offset buf)) (\<lambda>vs.
     case vs of [VI i, VI seq] \<Rightarrow> Inr (IcmpEcho i seq (data_after buf (offset + 4)))
     | _ \<Rightarrow> Inl StructError)"

definition dest_unreach_parser :: "bytes \<Rightarrow> nat \<Rightarrow> icmp_data res" where
  "dest_unreach_parser buf offset =
     res_bind (unpack_from [FX 1, fB, fH] (drop offset buf)) (\<lambda>vs.
     case vs of [VI data_len, VI mtu] \<Rightarrow>
       if 0 \<le> data_len \<and> data_len \<le> 255
       then Inr (IcmpDestUnreach data_len mtu (data_after buf (offset + 4))) else Inl ValueError
     | _ \<Rightarrow> Inl StructError)"

definition time_exceeded_parser :: "bytes \<Rightarrow> nat \<Rightarrow> icmp_data res" where
  "time_exceeded_parser buf offset =
     res_bind (unpack_from [FX 1, fB, FX 2] (drop offset buf)) (\<lambda>vs.
     case vs of [VI data_len] \<Rightarrow>
       if 0 \<le> data_len \<and> data_len \<le> 255
       then Inr (IcmpTimeExceeded data_len (data_after buf (offset + 4))) else Inl ValueError
     | _ \<Rightarrow> Inl StructError)"

text \<open>\<^verbatim>\<open>_ICMP_TYPES\<close>: echo reply 0, destination unreachable 3, echo request 8, time exceeded 11.\<close>

definition icmp_types :: "int \<Rightarrow> (bytes \<Rightarrow> nat \<Rightarrow> icmp_data res) option" where
  "icmp_types t = (if t = 0 \<or> t = 8 then Some echo_parser
     else if t = 3 then Some dest_unreach_parser
     else if t = 11 then Some time_exceeded_parser else None)"

definition icmp_parser :: "bytes \<Rightarrow> icmp res" where
  "icmp_parser buf =
     res_bind (unpack_from icmp_fmt buf) (\<lambda>vs.
     case vs of [VI type_, VI code, VI csum] \<Rightarrow>
       (let msg = \<lparr>icmp_type = type_, icmp_code = code, icmp_csum = csum,
                   icmp_payload = IcmpRaw []\<rparr>
        in if length buf > 4 then
             (case icmp_types type_ of
                Some cls \<Rightarrow> res_bind (cls buf 4) (\<lambda>d. Inr (msg\<lparr>icmp_payload := d\<rparr>))
              | None \<Rightarrow> Inr (msg\<lparr>icmp_payload := IcmpRaw (drop 4 buf)\<rparr>))
           else Inr msg)
     | _ \<Rightarrow> Inl StructError)"

fun icmp_data_serialize :: "icmp_data \<Rightarrow> bytes res" where
  "icmp_data_serialize (IcmpRaw b) = Inr b"
| "icmp_data_serialize (IcmpEcho i seq d) =
     res_bind (pack [fH, fH] [VI i, VI seq]) (\<lambda>hdr. Inr (hdr @ opt_bytes d))"
| "icmp_data_serialize (IcmpDestUnreach data_len mtu d) =
     res_bind (pack [FX 1, fB, fH] [VI data_len, VI mtu]) (\<lambda>hdr. Inr (hdr @ opt_bytes d))"
| "icmp_data_serialize (IcmpTimeExceeded data_len d) =
     res_bind (pack [FX 1, fB, FX 2] [VI data_len]) (\<lambda>hdr. Inr (hdr @ opt_bytes d))"

fun is_raw :: "icmp_data \<Rightarrow> bool" where
  "is_raw (IcmpRaw _) = True"
| "is_raw _ = False"

text \<open>
  \<^verbatim>\<open>serialize\<close>: empty raw data becomes a default echo; a registered type requires a payload
  object, an unregistered one raw bytes (adding an object to a bytearray raises).
\<close>

definition icmp_serialize :: "bool \<Rightarrow> icmp \<Rightarrow> (bytes \<times> icmp) res" where
  "icmp_serialize le h =
     res_bind (pack icmp_fmt [VI (icmp_type h), VI (icmp_code h), VI (icmp_csum h)]) (\<lambda>hdr.
     let truthy = (icmp_payload h \<noteq> IcmpRaw []);
         h' = (if truthy then h else h\<lparr>icmp_payload := IcmpEcho 0 0 None\<rparr>) in
     res_bind
       (if truthy then
          (if icmp_types (icmp_type h) \<noteq> None then
             res_bind (assertR (\<not> is_raw (icmp_payload h))) (\<lambda>_. icmp_data_serialize (icmp_payload h))
           else if is_raw (icmp_payload h) then icmp_data_serialize (icmp_payload h)
           else Inl TypeError)
        else icmp_data_serialize (icmp_payload h')) (\<lambda>d.
     let hdr = hdr @ d in
     if icmp_csum h = 0 then
       (let csum = checksum le hdr in
        res_bind (pack_into [fH] [VI csum] 2 hdr) (\<lambda>hdr. Inr (hdr, h'\<lparr>icmp_csum := csum\<rparr>)))
     else Inr (hdr, h')))"

fun icmp_data_wf :: "int \<Rightarrow> icmp_data \<Rightarrow> bool" where
  "icmp_data_wf t (IcmpRaw b) \<longleftrightarrow> icmp_types t = None \<and> b \<noteq> []"
| "icmp_data_wf t (IcmpEcho i seq d) \<longleftrightarrow>
     (t = 0 \<or> t = 8) \<and> 0 \<le> i \<and> i < 65536 \<and> 0 \<le> seq \<and> seq < 65536 \<and> d \<noteq> Some []"
| "icmp_data_wf t (IcmpDestUnreach data_len mtu d) \<longleftrightarrow>
     t = 3 \<and> 0 \<le> data_len \<and> data_len < 256 \<and> 0 \<le> mtu \<and> mtu < 65536 \<and> d \<noteq> Some []"
| "icmp_data_wf t (IcmpTimeExceeded data_len d) \<longleftrightarrow>
     t = 11 \<and> 0 \<le> data_len \<and> data_len < 256 \<and> d \<noteq> Some []"

definition icmp_wf :: "icmp \<Rightarrow> bool" where
  "icmp_wf h \<longleftrightarrow> 0 \<le> icmp_type h \<and> icmp_type h < 256 \<and> 0 \<le> icmp_code h \<and> icmp_code h < 256 \<and>
     0 \<le> icmp_csum h \<and> icmp_csum h < 65536 \<and> icmp_data_wf (icmp_type h) (icmp_payload h)"

lemma data_after_opt:
  "ob \<noteq> Some [] \<Longrightarrow> data_after (pre @ opt_bytes ob) (length pre) = ob"
  by (cases ob) (auto simp: data_after_def opt_bytes_def)

text \<open>Each payload class reads its own bytes back, after the four bytes of the ICMP header.\<close>

lemma payload_codec:
  assumes f: "fits fs vs" and n: "calcsize fs = 4" and pre: "length pre = 4" and ob: "ob \<noteq> Some []"
  shows "unpack_from fs (drop 4 (pre @ pack_bytes fs vs @ opt_bytes ob)) = Inr vs"
    and "data_after (pre @ pack_bytes fs vs @ opt_bytes ob) (4 + 4) = ob"
    and "pack_bytes fs vs \<noteq> []"
proof -
  let ?b = "pack_bytes fs vs"
  have l: "length ?b = 4" using length_pack_bytes [OF f] n by simp
  then show "?b \<noteq> []" by auto
  show "unpack_from fs (drop 4 (pre @ ?b @ opt_bytes ob)) = Inr vs"
    using pre unpack_from_pack_bytes [OF f] by simp
  show "data_after (pre @ ?b @ opt_bytes ob) (4 + 4) = ob"
    using data_after_opt [OF ob, of "pre @ ?b"] l pre by simp
qed

lemma icmp_data_codec:
  assumes wf: "icmp_data_wf t d"
  shows "\<exists>b. icmp_data_serialize d = Inr b \<and> b \<noteq> [] \<and> (\<forall>pre. length pre = 4 \<longrightarrow>
    (case icmp_types t of Some cls \<Rightarrow> cls (pre @ b) 4 = Inr d | None \<Rightarrow> d = IcmpRaw b))"
proof (cases d)
  case (IcmpRaw b)
  with wf show ?thesis by simp
next
  case d: (IcmpEcho i seq ob)
  with wf have w: "t = 0 \<or> t = 8" "fits [fH, fH] [VI i, VI seq]" "ob \<noteq> Some []" by auto
  define b where "b = pack_bytes [fH, fH] [VI i, VI seq]"
  note c = payload_codec [OF w(2) _ _ w(3), folded b_def]
  show ?thesis
  proof (intro exI conjI allI impI)
    show "icmp_data_serialize d = Inr (b @ opt_bytes ob)"
      by (simp only: d icmp_data_serialize.simps pack_fits [OF w(2)] b_def res_bind_Inr)
    show "b @ opt_bytes ob \<noteq> []" using c(3) [of "[0,0,0,0]"] by simp
    show "case icmp_types t of Some cls \<Rightarrow> cls (pre @ b @ opt_bytes ob) 4 = Inr d
      | None \<Rightarrow> d = IcmpRaw (b @ opt_bytes ob)" if pre: "length pre = 4" for pre
      using w(1) c(1,2) [OF _ pre] d by (auto simp: icmp_types_def echo_parser_def)
  qed
next
  case d: (IcmpDestUnreach data_len mtu ob)
  with wf have w: "t = 3" "fits [FX 1, fB, fH] [VI data_len, VI mtu]" "ob \<noteq> Some []"
    "0 \<le> data_len" "data_len \<le> 255" by auto
  define b where "b = pack_bytes [FX 1, fB, fH] [VI data_len, VI mtu]"
  note c = payload_codec [OF w(2) _ _ w(3), folded b_def]
  show ?thesis
  proof (intro exI conjI allI impI)
    show "icmp_data_serialize d = Inr (b @ opt_bytes ob)"
      by (simp only: d icmp_data_serialize.simps pack_fits [OF w(2)] b_def res_bind_Inr)
    show "b @ opt_bytes ob \<noteq> []" using c(3) [of "[0,0,0,0]"] by simp
    show "case icmp_types t of Some cls \<Rightarrow> cls (pre @ b @ opt_bytes ob) 4 = Inr d
      | None \<Rightarrow> d = IcmpRaw (b @ opt_bytes ob)" if pre: "length pre = 4" for pre
      using w(1,4,5) c(1,2) [OF _ pre] d by (auto simp: icmp_types_def dest_unreach_parser_def)
  qed
next
  case d: (IcmpTimeExceeded data_len ob)
  with wf have w: "t = 11" "fits [FX 1, fB, FX 2] [VI data_len]" "ob \<noteq> Some []"
    "0 \<le> data_len" "data_len \<le> 255" by auto
  define b where "b = pack_bytes [FX 1, fB, FX 2] [VI data_len]"
  note c = payload_codec [OF w(2) _ _ w(3), folded b_def]
  show ?thesis
  proof (intro exI conjI allI impI)
    show "icmp_data_serialize d = Inr (b @ opt_bytes ob)"
      by (simp only: d icmp_data_serialize.simps pack_fits [OF w(2)] b_def res_bind_Inr)
    show "b @ opt_bytes ob \<noteq> []" using c(3) [of "[0,0,0,0]"] by simp
    show "case icmp_types t of Some cls \<Rightarrow> cls (pre @ b @ opt_bytes ob) 4 = Inr d
      | None \<Rightarrow> d = IcmpRaw (b @ opt_bytes ob)" if pre: "length pre = 4" for pre
      using w(1,4,5) c(1,2) [OF _ pre] d by (auto simp: icmp_types_def time_exceeded_parser_def)
  qed
qed

lemma icmp_header:
  assumes "icmp_wf h"
  shows "\<exists>a. length a = 2 \<and> (\<forall>c. 0 \<le> c \<longrightarrow> c < 65536 \<longrightarrow>
      pack icmp_fmt [VI (icmp_type h), VI (icmp_code h), VI c] = Inr (a @ be_bytes 2 c) \<and>
      (\<forall>r. unpack_from icmp_fmt (a @ be_bytes 2 c @ r) =
        Inr [VI (icmp_type h), VI (icmp_code h), VI c]))"
proof (intro exI conjI allI impI)
  let ?a = "be_bytes (Suc 0) (icmp_type h) @ be_bytes (Suc 0) (icmp_code h)"
  let ?vs = "\<lambda>c. [VI (icmp_type h), VI (icmp_code h), VI c]"
  show "length ?a = 2" by simp
  fix c :: int and r assume "0 \<le> c" "c < 65536"
  with assms have f: "fits icmp_fmt (?vs c)" by (simp add: icmp_fmt_def icmp_wf_def)
  have p: "pack_bytes icmp_fmt (?vs c) = ?a @ be_bytes 2 c" by (simp add: icmp_fmt_def)
  show "pack icmp_fmt (?vs c) = Inr (?a @ be_bytes 2 c)" using pack_fits [OF f] by (simp only: p)
  show "unpack_from icmp_fmt (?a @ be_bytes 2 c @ r) = Inr (?vs c)"
    using unpack_from_pack_bytes [OF f, of r] by (simp only: p append_assoc)
qed

lemma icmp_codec:
  assumes wf: "icmp_wf h" and small: "\<And>b. icmp_data_serialize (icmp_payload h) = Inr b \<Longrightarrow> length b \<le> 65531"
  shows "\<exists>hdr h'. icmp_serialize le h = Inr (hdr, h') \<and> h' = h\<lparr>icmp_csum := icmp_csum h'\<rparr> \<and>
    (icmp_csum h = 0 \<longrightarrow> checksum_spec hdr = 0) \<and> (icmp_csum h \<noteq> 0 \<longrightarrow> h' = h) \<and>
    icmp_parser hdr = Inr h'"
proof -
  have dwf: "icmp_data_wf (icmp_type h) (icmp_payload h)" using wf by (simp add: icmp_wf_def)
  obtain b where b: "icmp_data_serialize (icmp_payload h) = Inr b" "b \<noteq> []"
    "\<And>pre. length pre = 4 \<Longrightarrow> (case icmp_types (icmp_type h) of
        Some cls \<Rightarrow> cls (pre @ b) 4 = Inr (icmp_payload h) | None \<Rightarrow> icmp_payload h = IcmpRaw b)"
    using icmp_data_codec [OF dwf] by blast
  obtain a where a: "length a = 2"
    "\<And>c. 0 \<le> c \<Longrightarrow> c < 65536 \<Longrightarrow>
      pack icmp_fmt [VI (icmp_type h), VI (icmp_code h), VI c] = Inr (a @ be_bytes 2 c)"
    "\<And>c r. 0 \<le> c \<Longrightarrow> c < 65536 \<Longrightarrow> unpack_from icmp_fmt (a @ be_bytes 2 c @ r) =
        Inr [VI (icmp_type h), VI (icmp_code h), VI c]"
    using icmp_header [OF wf] by blast
  have cs: "0 \<le> icmp_csum h" "icmp_csum h < 65536" using wf by (simp_all add: icmp_wf_def)
  define x where "x = (if icmp_csum h = 0 then checksum_spec (a @ [0, 0] @ b) else icmp_csum h)"
  have x: "0 \<le> x" "x < 65536"
    using checksum_spec_bounds [of "a @ [0, 0] @ b"] cs by (auto simp: x_def)
  have truthy: "icmp_payload h \<noteq> IcmpRaw []" using dwf by auto
  have body: "(if icmp_types (icmp_type h) \<noteq> None then
             res_bind (assertR (\<not> is_raw (icmp_payload h))) (\<lambda>_. icmp_data_serialize (icmp_payload h))
           else if is_raw (icmp_payload h) then icmp_data_serialize (icmp_payload h)
           else Inl TypeError) = Inr b"
    using dwf b(1) by (cases "icmp_payload h") (auto simp: icmp_types_def)
  have ck: "checksum le ((a @ be_bytes 2 0) @ b) = checksum_spec (a @ [0, 0] @ b)"
    using small [OF b(1)] a(1) by (subst checksum_eq_spec) (simp_all add: be_bytes2_zero)
  have into: "pack_into [fH] [VI y] 2 ((a @ be_bytes 2 0) @ b) = Inr (a @ be_bytes 2 y @ b)"
    if "0 \<le> y" "y < 65536" for y
    using that a(1) by (simp add: pack_into_def)
  have ser: "icmp_serialize le h = Inr (a @ be_bytes 2 x @ b, h\<lparr>icmp_csum := x\<rparr>)"
  proof (cases "icmp_csum h = 0")
    case True
    have p: "pack icmp_fmt [VI (icmp_type h), VI (icmp_code h), VI (icmp_csum h)]
        = Inr (a @ be_bytes 2 0)" using a(2) [of 0] True by simp
    have xx: "checksum le ((a @ be_bytes 2 0) @ b) = x" unfolding ck x_def if_P [OF True] ..
    show ?thesis
      unfolding icmp_serialize_def p res_bind_Inr Let_def if_P [OF truthy] body xx into [OF x]
        if_P [OF True] ..
  next
    case False
    then have xh: "x = icmp_csum h" by (simp add: x_def)
    have e: "h\<lparr>icmp_csum := x\<rparr> = h" by (cases h) (use xh in simp)
    show ?thesis
      unfolding icmp_serialize_def a(2) [OF cs] res_bind_Inr Let_def if_P [OF truthy] body
        if_not_P [OF False] e by (simp add: xh)
  qed
  have parse: "icmp_parser (a @ be_bytes 2 x @ b) = Inr (h\<lparr>icmp_csum := x\<rparr>)"
  proof -
    have l: "length (a @ be_bytes 2 x) = 4" using a(1) by simp
    have l2: "length (a @ be_bytes 2 x @ b) > 4" using a(1) b(2) by simp
    have d: "drop 4 (a @ be_bytes 2 x @ b) = b" using a(1) by simp
    have r: "\<lparr>icmp_type = icmp_type h, icmp_code = icmp_code h, icmp_csum = x,
        icmp_payload = icmp_payload h\<rparr> = h\<lparr>icmp_csum := x\<rparr>" by (cases h) simp
    show ?thesis
    proof (cases "icmp_types (icmp_type h)")
      case None
      then have "icmp_payload h = IcmpRaw b" using b(3) [OF l] by simp
      then show ?thesis using l2 r None unfolding icmp_parser_def a(3) [OF x] d by (simp add: Let_def)
    next
      case (Some cls)
      then show ?thesis using b(3) [OF l] l2 r unfolding icmp_parser_def a(3) [OF x] by simp
    qed
  qed
  have v: "checksum_spec (a @ be_bytes 2 x @ b) = 0" if "icmp_csum h = 0"
    using checksum_spec_inserted [of a x b] that a(1) by (simp add: x_def)
  show ?thesis
  proof (intro exI conjI impI)
    show "h\<lparr>icmp_csum := x\<rparr> = h\<lparr>icmp_csum := icmp_csum (h\<lparr>icmp_csum := x\<rparr>)\<rparr>" by simp
    show "h\<lparr>icmp_csum := x\<rparr> = h" if "icmp_csum h \<noteq> 0"
      by (cases h) (use that in \<open>simp add: x_def\<close>)
  qed (use ser parse v in blast)+
qed

end
