(* ===== verification/Packet_Ipv6.thy ===== *)
theory Packet_Ipv6
  imports Packet_Link
begin

text \<open>
  \<^verbatim>\<open>ryu/lib/packet/ipv6.py\<close>: the fixed header, the extension headers and their options, with
  parsers and serializers. The main lemma is the round trip \<open>ipv6_codec\<close>.
\<close>

section \<open>Options\<close>

text \<open>\<^verbatim>\<open>class option\<close>: the one-byte pad has type 0, length -1 and no data.\<close>

record ip6_option =
  o6_type :: int
  o6_len :: int
  o6_data :: "bytes option"

text \<open>\<^verbatim>\<open>struct\<close> with the computed format \<^verbatim>\<open>"%ds" % n\<close>, which a negative number makes invalid.\<close>

definition unpack_s :: "int \<Rightarrow> bytes \<Rightarrow> bytes res" where
  "unpack_s n buf = (if n < 0 \<or> int (length buf) < n then Inl StructError else Inr (take (nat n) buf))"

definition pack_s :: "int \<Rightarrow> bytes \<Rightarrow> bytes res" where
  "pack_s n b = (if n < 0 then Inl StructError else Inr (pack_str (nat n) b))"

definition unpack_byte :: "bytes \<Rightarrow> int res" where
  "unpack_byte buf = (case buf of [] \<Rightarrow> Inl StructError | b # _ \<Rightarrow> Inr (uint b))"

definition option_parser :: "bytes \<Rightarrow> ip6_option res" where
  "option_parser buf =
     res_bind (unpack_byte buf) (\<lambda>ty.
     if ty = 0 then Inr \<lparr>o6_type = ty, o6_len = -1, o6_data = None\<rparr>
     else
       res_bind (unpack_byte (drop 1 buf)) (\<lambda>len.
       if len = 0 then Inr \<lparr>o6_type = ty, o6_len = len, o6_data = None\<rparr>
       else res_bind (unpack_s len (drop 2 buf)) (\<lambda>data.
         Inr \<lparr>o6_type = ty, o6_len = len, o6_data = Some data\<rparr>)))"

definition option_serialize :: "ip6_option \<Rightarrow> bytes res" where
  "option_serialize opt =
     (if o6_type opt = 0 then pack [fB] [VI (o6_type opt)]
      else if o6_len opt = 0 then pack [fB, fB] [VI (o6_type opt), VI (o6_len opt)]
      else if o6_len opt < 0 then Inl StructError
      else (case o6_data opt of None \<Rightarrow> Inl StructError
        | Some data \<Rightarrow> pack [fB, fB, FS (nat (o6_len opt))] [VI (o6_type opt), VI (o6_len opt), VS data]))"

definition option_len :: "ip6_option \<Rightarrow> int" where
  "option_len opt = 2 + o6_len opt"

lemma option_parser_len: "option_parser buf = Inr opt \<Longrightarrow> 0 < option_len opt"
  using uint_byte_bounds
  by (auto simp: option_parser_def unpack_byte_def option_len_def res_bind_eq_Inr add_pos_nonneg
      split: if_splits list.splits)

section \<open>Extension headers\<close>

record ip6_routing =
  r6_nxt :: int
  r6_size :: int
  r6_type :: int
  r6_seg :: int
  r6_cmpi :: int
  r6_cmpe :: int
  r6_adrs :: "string list"

text \<open>Hop-by-hop and destination options differ in their class only.\<close>

datatype ip6_ext =
    HopOpts int int "ip6_option list option"
  | DstOpts int int "ip6_option list option"
  | Routing3 ip6_routing
  | Fragment int int int int
  | Auth int int int int bytes

fun ext_nxt :: "ip6_ext \<Rightarrow> int" where
  "ext_nxt (HopOpts nxt sz data) = nxt"
| "ext_nxt (DstOpts nxt sz data) = nxt"
| "ext_nxt (Routing3 r) = r6_nxt r"
| "ext_nxt (Fragment nxt off mf ident) = nxt"
| "ext_nxt (Auth nxt sz spi seq data) = nxt"

fun ext_len :: "ip6_ext \<Rightarrow> int" where
  "ext_len (HopOpts nxt sz data) = 8 + sz"
| "ext_len (DstOpts nxt sz data) = 8 + sz"
| "ext_len (Routing3 r) = (r6_size r + 1) * 8"
| "ext_len (Fragment nxt off mf ident) = 8"
| "ext_len (Auth nxt sz spi seq data) = (sz + 2) * 4"

subsection \<open>Options headers\<close>

text \<open>
  The constructor takes the size to be a number of octets and asserts that it is a multiple of
  eight; the parser passes it the length byte of the wire.
\<close>

definition opt_header_init :: "(int \<Rightarrow> int \<Rightarrow> ip6_option list option \<Rightarrow> ip6_ext) \<Rightarrow> int \<Rightarrow> int \<Rightarrow>
    ip6_option list option \<Rightarrow> ip6_ext res" where
  "opt_header_init cls nxt sz data = res_bind (assertR (sz mod 8 = 0)) (\<lambda>_. Inr (cls nxt sz data))"

function opt_header_loop :: "bytes \<Rightarrow> int \<Rightarrow> int \<Rightarrow> ip6_option list res" where
  "opt_header_loop buf sz data_len =
     (if sz < data_len then
        (case unpack_byte (drop (nat sz) buf) of Inl e \<Rightarrow> Inl e
         | Inr ty \<Rightarrow>
             if ty = 0 then
               res_bind (opt_header_loop buf (sz + 1) data_len) (\<lambda>data.
               Inr (\<lparr>o6_type = ty, o6_len = -1, o6_data = None\<rparr> # data))
             else (case option_parser (drop (nat sz) buf) of Inl e \<Rightarrow> Inl e
               | Inr opt \<Rightarrow>
                   res_bind (opt_header_loop buf (sz + option_len opt) data_len) (\<lambda>data. Inr (opt # data))))
      else Inr [])"
  by pat_completeness auto
termination
  by (relation "measure (\<lambda>(buf, sz, data_len). nat (data_len - sz))") (auto dest: option_parser_len)

declare opt_header_loop.simps [simp del]

definition opt_header_parser :: "(int \<Rightarrow> int \<Rightarrow> ip6_option list option \<Rightarrow> ip6_ext) \<Rightarrow> bytes \<Rightarrow> ip6_ext res" where
  "opt_header_parser cls buf =
     res_bind (unpack_from [fB, fB] buf) (\<lambda>vs.
     case vs of [VI nxt, VI len] \<Rightarrow>
       res_bind (opt_header_loop buf 2 (8 + len)) (\<lambda>data. opt_header_init cls nxt len (Some data))
     | _ \<Rightarrow> Inl StructError)"

fun options_serialize :: "ip6_option list \<Rightarrow> bytes res" where
  "options_serialize [] = Inr []"
| "options_serialize (opt # opts) =
     res_bind (option_serialize opt) (\<lambda>b. res_bind (options_serialize opts) (\<lambda>r. Inr (b @ r)))"

definition default_option :: ip6_option where
  "default_option = \<lparr>o6_type = 1, o6_len = 4, o6_data = Some [0, 0, 0, 0]\<rparr>"

definition opt_header_serialize :: "int \<Rightarrow> int \<Rightarrow> ip6_option list option \<Rightarrow> (bytes \<times> ip6_option list) res" where
  "opt_header_serialize nxt sz data =
     res_bind (pack [fB, fB] [VI nxt, VI sz]) (\<lambda>buf.
     let data = (case data of None \<Rightarrow> [default_option] | Some d \<Rightarrow> d) in
     res_bind (options_serialize data) (\<lambda>b. Inr (buf @ b, data)))"

subsection \<open>The routing header\<close>

definition r6_pad :: "ip6_routing \<Rightarrow> int" where
  "r6_pad r = (8 - ((int (length (r6_adrs r)) - 1) * (16 - r6_cmpi r) + (16 - r6_cmpe r) mod 8)) mod 8"

definition routing3_fmt :: "fmt list" where
  "routing3_fmt = [fB, fB, fB, fB, fB, fB, FX 2]"

text \<open>\<open>lim\<close> is where the last address starts; \<open>pos\<close> stands for the source's \<^verbatim>\<open>data\<close>.\<close>

function routing3_loop :: "addrconv \<Rightarrow> bytes \<Rightarrow> int \<Rightarrow> int \<Rightarrow> int \<Rightarrow> (string list \<times> int) res" where
  "routing3_loop A buf cmpi pos lim =
     (if pos < lim \<and> cmpi < 16 then
        res_bind (unpack_s (16 - cmpi) (drop (nat pos) buf)) (\<lambda>adr.
        res_bind (routing3_loop A buf cmpi (pos + (16 - cmpi)) lim) (\<lambda>(adrs, pos').
        Inr (ip6_to_text A (replicate (nat cmpi) 0 @ adr) # adrs, pos')))
      else Inr ([], pos))"
  by pat_completeness auto
termination
  by (relation "measure (\<lambda>(A, buf, cmpi, pos, lim). nat (lim - pos))") auto

declare routing3_loop.simps [simp del]

definition routing3_parser :: "addrconv \<Rightarrow> bytes \<Rightarrow> ip6_ext res" where
  "routing3_parser A buf =
     res_bind (unpack_from routing3_fmt buf) (\<lambda>vs.
     case vs of [VI nxt, VI sz, VI ty, VI seg, VI cmp, VI pad] \<Rightarrow>
       (let header_len = (sz + 1) * 8;
            cmpi = drop_bit 4 cmp; cmpe = cmp AND 0xf; pad = drop_bit 4 pad in
        res_bind
          (if sz \<noteq> 0 then
             res_bind (routing3_loop A buf cmpi 8 (header_len - (16 - cmpe + pad))) (\<lambda>(adrs, pos).
             res_bind (unpack_s (16 - cmpe) (drop (nat pos) buf)) (\<lambda>adr.
             Inr (adrs @ [ip6_to_text A (replicate (nat cmpe) 0 @ adr)])))
           else Inr []) (\<lambda>adrs.
        Inr (Routing3 \<lparr>r6_nxt = nxt, r6_size = sz, r6_type = ty, r6_seg = seg, r6_cmpi = cmpi,
          r6_cmpe = cmpe, r6_adrs = adrs\<rparr>)))
     | _ \<Rightarrow> Inl StructError)"

fun routing3_addrs :: "addrconv \<Rightarrow> int \<Rightarrow> string list \<Rightarrow> bytes res" where
  "routing3_addrs A cmp [] = Inr []"
| "routing3_addrs A cmp (adr # adrs) =
     res_bind (ip6_to_bin A adr) (\<lambda>b.
     res_bind (pack_s (16 - cmp) (py_slice (nat cmp) 16 b)) (\<lambda>s.
     res_bind (routing3_addrs A cmp adrs) (\<lambda>r. Inr (s @ r))))"

definition routing3_serialize :: "addrconv \<Rightarrow> ip6_routing \<Rightarrow> (bytes \<times> ip6_routing) res" where
  "routing3_serialize A r =
     (let sz = (if r6_size r = 0 then ((int (length (r6_adrs r)) - 1) * (16 - r6_cmpi r) + (16 - r6_cmpe r)
           + r6_pad r) div 8 else r6_size r);
          r = r\<lparr>r6_size := sz\<rparr> in
      res_bind (pack routing3_fmt [VI (r6_nxt r), VI sz, VI (r6_type r), VI (r6_seg r),
          VI (push_bit 4 (r6_cmpi r) OR r6_cmpe r), VI (push_bit 4 (r6_pad r))]) (\<lambda>buf.
      if sz \<noteq> 0 then
        res_bind (routing3_addrs A (r6_cmpi r) (butlast (r6_adrs r))) (\<lambda>b.
        if r6_adrs r = [] then Inl IndexError
        else res_bind (routing3_addrs A (r6_cmpe r) [last (r6_adrs r)]) (\<lambda>e. Inr (buf @ b @ e, r)))
      else Inr (buf, r)))"

text \<open>\<^verbatim>\<open>class routing\<close>: a routing type without parser gives \<^verbatim>\<open>None\<close>, whose \<^verbatim>\<open>len\<close> the caller takes.\<close>

definition routing_parser :: "addrconv \<Rightarrow> bytes \<Rightarrow> ip6_ext res" where
  "routing_parser A buf =
     res_bind (unpack_byte (drop 2 buf)) (\<lambda>ty.
     if ty = 3 then routing3_parser A buf else Inl TypeError)"

subsection \<open>Fragment and authentication headers\<close>

definition fragment_fmt :: "fmt list" where "fragment_fmt = [fB, FX 1, fH, fI]"

definition fragment_parser :: "bytes \<Rightarrow> ip6_ext res" where
  "fragment_parser buf =
     res_bind (unpack_from fragment_fmt buf) (\<lambda>vs.
     case vs of [VI nxt, VI off_m, VI ident] \<Rightarrow> Inr (Fragment nxt (drop_bit 3 off_m) (off_m AND 0x1) ident)
     | _ \<Rightarrow> Inl StructError)"

definition auth_fmt :: "fmt list" where "auth_fmt = [fB, fB, FX 2, fI, fI]"

definition auth_parser :: "bytes \<Rightarrow> ip6_ext res" where
  "auth_parser buf =
     res_bind (unpack_from auth_fmt buf) (\<lambda>vs.
     case vs of [VI nxt, VI sz, VI spi, VI seq] \<Rightarrow>
       res_bind (unpack_s ((sz + 2) * 4 - 12) (drop 12 buf)) (\<lambda>data. Inr (Auth nxt sz spi seq data))
     | _ \<Rightarrow> Inl StructError)"

text \<open>The registered extension headers and their dispatch.\<close>

definition is_ext_type :: "int \<Rightarrow> bool" where
  "is_ext_type t \<longleftrightarrow> t \<in> {0, 60, 43, 44, 51}"

definition ext_hdr_parser :: "addrconv \<Rightarrow> int \<Rightarrow> bytes \<Rightarrow> ip6_ext res" where
  "ext_hdr_parser A t buf =
     (if t = 0 then opt_header_parser HopOpts buf
      else if t = 60 then opt_header_parser DstOpts buf
      else if t = 43 then routing_parser A buf
      else if t = 44 then fragment_parser buf
      else auth_parser buf)"

fun ext_serialize6 :: "addrconv \<Rightarrow> ip6_ext \<Rightarrow> (bytes \<times> ip6_ext) res" where
  "ext_serialize6 A (HopOpts nxt sz data) =
     res_bind (opt_header_serialize nxt sz data) (\<lambda>(b, data). Inr (b, HopOpts nxt sz (Some data)))"
| "ext_serialize6 A (DstOpts nxt sz data) =
     res_bind (opt_header_serialize nxt sz data) (\<lambda>(b, data). Inr (b, DstOpts nxt sz (Some data)))"
| "ext_serialize6 A (Routing3 r) = res_bind (routing3_serialize A r) (\<lambda>(b, r). Inr (b, Routing3 r))"
| "ext_serialize6 A (Fragment nxt off mf ident) =
     res_bind (pack fragment_fmt [VI nxt, VI (push_bit 3 off OR mf), VI ident]) (\<lambda>b.
     Inr (b, Fragment nxt off mf ident))"
| "ext_serialize6 A (Auth nxt sz spi seq data) =
     res_bind (pack auth_fmt [VI nxt, VI sz, VI spi, VI seq]) (\<lambda>b.
     res_bind (pack_s ((sz + 2) * 4 - 12) data) (\<lambda>d. Inr (b @ d, Auth nxt sz spi seq data)))"

section \<open>The header\<close>

record ipv6 =
  ip6_version :: int
  ip6_traffic_class :: int
  ip6_flow_label :: int
  ip6_payload_length :: int
  ip6_nxt :: int
  ip6_hop_limit :: int
  ip6_src :: string
  ip6_dst :: string
  ip6_ext_hdrs :: "ip6_ext list"

definition ipv6_fmt :: "fmt list" where "ipv6_fmt = [fI, fH, fB, fB, FS 16, FS 16]"

text \<open>The loop over the extension headers: the headers, where they end, and what follows them.\<close>

lemma unpack_byte_nonempty: "unpack_byte buf = Inr b \<Longrightarrow> buf \<noteq> []"
  by (auto simp: unpack_byte_def)

lemma ext_hdr_parser_shrinks:
  assumes "ext_hdr_parser A t buf = Inr h"
  shows "buf \<noteq> [] \<and> 0 < ext_len h"
proof -
  have opt: "buf \<noteq> [] \<and> (\<exists>nxt len data. h = cls nxt len (Some data) \<and> 0 \<le> len)"
    if "opt_header_parser cls buf = Inr h" for cls
    using that
    by (auto simp: opt_header_parser_def opt_header_init_def res_bind_eq_Inr unpack_from_def
        split: if_splits) (intro exI conjI, rule refl, simp)
  show ?thesis
    using assms
    unfolding ext_hdr_parser_def routing_parser_def
    by (auto simp: fragment_parser_def auth_parser_def routing3_parser_def res_bind_eq_Inr fragment_fmt_def
        auth_fmt_def routing3_fmt_def unpack_from_def Let_def add_nonneg_pos be_int_nonneg
        split: if_splits dest!: opt unpack_byte_nonempty)
qed

function ext_hdrs_loop :: "addrconv \<Rightarrow> bytes \<Rightarrow> int \<Rightarrow> int \<Rightarrow> (ip6_ext list \<times> int \<times> int) res" where
  "ext_hdrs_loop A buf off nxt =
     (if is_ext_type nxt then
        (case ext_hdr_parser A nxt (drop (nat off) buf) of Inl e \<Rightarrow> Inl e
         | Inr hdr \<Rightarrow>
             res_bind (ext_hdrs_loop A buf (off + ext_len hdr) (ext_nxt hdr)) (\<lambda>(hdrs, off', nxt').
             Inr (hdr # hdrs, off', nxt')))
      else Inr ([], off, nxt))"
  by pat_completeness auto
termination
  by (relation "measure (\<lambda>(A, buf, off, nxt). nat (int (length buf) - off))") (auto dest!: ext_hdr_parser_shrinks)

declare ext_hdrs_loop.simps [simp del]

definition ipv6_parser :: "addrconv \<Rightarrow> bytes \<Rightarrow> (ipv6 \<times> pkt_cls option \<times> bytes) res" where
  "ipv6_parser A buf =
     res_bind (unpack_from ipv6_fmt buf) (\<lambda>vs.
     case vs of [VI v_tc_flow, VI payload_length, VI nxt, VI hlim, VS src, VS dst] \<Rightarrow>
       res_bind (ext_hdrs_loop A buf 40 nxt) (\<lambda>(ext_hdrs, off, last).
       Inr (\<lparr>ip6_version = drop_bit 28 v_tc_flow, ip6_traffic_class = drop_bit 20 v_tc_flow AND 0xff,
              ip6_flow_label = v_tc_flow AND 0xfffff, ip6_payload_length = payload_length, ip6_nxt = nxt,
              ip6_hop_limit = hlim, ip6_src = ip6_to_text A src, ip6_dst = ip6_to_text A dst,
              ip6_ext_hdrs = ext_hdrs\<rparr>,
            get_packet_type last, py_slice (nat off) (nat (off + payload_length)) buf))
     | _ \<Rightarrow> Inl StructError)"

fun ext_hdrs_serialize :: "addrconv \<Rightarrow> ip6_ext list \<Rightarrow> (bytes \<times> ip6_ext list) res" where
  "ext_hdrs_serialize A [] = Inr ([], [])"
| "ext_hdrs_serialize A (h # hs) =
     res_bind (ext_serialize6 A h) (\<lambda>(b, h). res_bind (ext_hdrs_serialize A hs) (\<lambda>(r, hs).
     Inr (b @ r, h # hs)))"

definition ext_hdrs_len :: "ip6_ext list \<Rightarrow> int" where
  "ext_hdrs_len hs = sum_list (map ext_len hs)"

definition ipv6_len :: "ipv6 \<Rightarrow> int" where
  "ipv6_len h = 40 + ext_hdrs_len (ip6_ext_hdrs h)"

definition ipv6_serialize :: "addrconv \<Rightarrow> ipv6 \<Rightarrow> bytes \<Rightarrow> (bytes \<times> ipv6) res" where
  "ipv6_serialize A h payload =
     (let v_tc_flow = push_bit 28 (ip6_version h) OR push_bit 20 (ip6_traffic_class h) OR ip6_flow_label h in
      res_bind (ip6_to_bin A (ip6_src h)) (\<lambda>src.
      res_bind (ip6_to_bin A (ip6_dst h)) (\<lambda>dst.
      res_bind (pack ipv6_fmt [VI v_tc_flow, VI (ip6_payload_length h), VI (ip6_nxt h), VI (ip6_hop_limit h),
          VS src, VS dst]) (\<lambda>hdr.
      res_bind (ext_hdrs_serialize A (ip6_ext_hdrs h)) (\<lambda>(ext, hdrs).
      let h = h\<lparr>ip6_ext_hdrs := hdrs\<rparr> in
      if ip6_payload_length h = 0 then
        (let payload_length = int (length payload) + ext_hdrs_len hdrs in
         res_bind (pack_into [fH] [VI payload_length] 4 (hdr @ ext)) (\<lambda>hdr.
         Inr (hdr, h\<lparr>ip6_payload_length := payload_length\<rparr>)))
      else Inr (hdr @ ext, h))))))"

section \<open>Round trips\<close>

definition option_wf :: "ip6_option \<Rightarrow> bool" where
  "option_wf opt \<longleftrightarrow> 0 \<le> o6_type opt \<and> o6_type opt < 256 \<and>
     (if o6_type opt = 0 then o6_len opt = -1 \<and> o6_data opt = None
      else if o6_len opt = 0 then o6_data opt = None
      else 0 < o6_len opt \<and> o6_len opt < 256 \<and>
        (case o6_data opt of None \<Rightarrow> False | Some d \<Rightarrow> int (length d) = o6_len opt))"

lemma be_bytes_1: "be_bytes (Suc 0) v = [word_of_int v]"
  by simp

lemma option_codec:
  assumes "option_wf opt"
  obtains b where "option_serialize opt = Inr b" "int (length b) = option_len opt"
    "\<And>rest. unpack_byte (b @ rest) = Inr (o6_type opt)"
    "\<And>rest. option_parser (b @ rest) = Inr opt"
proof -
  consider (pad) "o6_type opt = 0" | (empty) "o6_type opt \<noteq> 0" "o6_len opt = 0"
    | (data) d where "o6_type opt \<noteq> 0" "o6_len opt \<noteq> 0" "o6_data opt = Some d"
    using assms by (auto simp: option_wf_def split: option.splits if_splits)
  then show thesis
  proof cases
    case pad
    with assms show thesis
      by (intro that [of "[0]"]) (auto simp: option_serialize_def option_len_def option_wf_def
          unpack_byte_def option_parser_def intro: ip6_option.equality)
  next
    case empty
    with assms show thesis
      by (intro that [of "[word_of_int (o6_type opt), 0]"])
        (auto simp: option_serialize_def option_len_def option_wf_def unpack_byte_def
          option_parser_def uint_word_of_int_byte intro: ip6_option.equality)
  next
    case (data d)
    with assms have "0 < o6_len opt" "o6_len opt < 256" "int (length d) = o6_len opt"
      by (auto simp: option_wf_def)
    with data assms show thesis
      by (intro that [of "word_of_int (o6_type opt) # word_of_int (o6_len opt) # d"])
        (auto simp: option_serialize_def option_len_def option_wf_def unpack_byte_def unpack_s_def
          option_parser_def uint_word_of_int_byte intro: ip6_option.equality)
  qed
qed

lemma options_codec:
  assumes "list_all option_wf opts"
  shows "\<exists>b. options_serialize opts = Inr b \<and> int (length b) = sum_list (map option_len opts) \<and>
    (\<forall>pre rest. opt_header_loop (pre @ b @ rest) (int (length pre)) (int (length pre + length b)) = Inr opts)"
  using assms
proof (induction opts)
  case Nil
  show ?case by (simp add: opt_header_loop.simps)
next
  case (Cons opt opts)
  then obtain r where r: "options_serialize opts = Inr r" "int (length r) = sum_list (map option_len opts)"
    "\<And>pre rest. opt_header_loop (pre @ r @ rest) (int (length pre)) (int (length pre + length r)) = Inr opts"
    by auto
  from Cons.prems have wf: "option_wf opt" by simp
  obtain b where b: "option_serialize opt = Inr b" "int (length b) = option_len opt"
    "\<And>rest. unpack_byte (b @ rest) = Inr (o6_type opt)" "\<And>rest. option_parser (b @ rest) = Inr opt"
    using option_codec [OF wf] by blast
  have "opt_header_loop (pre @ (b @ r) @ rest) (int (length pre)) (int (length pre + length (b @ r))) = Inr (opt # opts)"
    for pre rest
  proof -
    have next_: "opt_header_loop (pre @ b @ r @ rest) (int (length pre) + option_len opt)
        (int (length pre + length (b @ r))) = Inr opts"
      using r(3) [of "pre @ b" rest] b(2) by (simp add: add.assoc)
    have pos: "0 < option_len opt" using option_parser_len [OF b(4) [of "[]"]] .
    moreover have "opt = \<lparr>o6_type = 0, o6_len = -1, o6_data = None\<rparr>" "option_len opt = 1" if "o6_type opt = 0"
      using wf that by (auto simp: option_wf_def option_len_def intro: ip6_option.equality)
    ultimately show ?thesis
      using b next_ by (subst opt_header_loop.simps) auto
  qed
  with b r show ?case by (intro exI [of _ "b @ r"]) simp
qed

lemma opt_header_codec:
  assumes "list_all option_wf opts" "sum_list (map option_len opts) = 6 + sz" "sz mod 8 = 0"
    "0 \<le> sz" "sz < 256" "0 \<le> nxt" "nxt < 256"
  obtains b where "opt_header_serialize nxt sz (Some opts) = Inr (b, opts)" "int (length b) = 8 + sz"
    "\<And>cls rest. opt_header_parser cls (b @ rest) = Inr (cls nxt sz (Some opts))"
proof -
  obtain b where b: "options_serialize opts = Inr b" "int (length b) = 6 + sz"
    "\<And>pre rest. opt_header_loop (pre @ b @ rest) (int (length pre)) (int (length pre + length b)) = Inr opts"
    using options_codec [OF assms(1)] assms(2) by metis
  let ?h = "be_bytes (Suc 0) nxt @ be_bytes (Suc 0) sz"
  have f: "fits [fB, fB] [VI nxt, VI sz]" using assms by simp
  have lo: "opt_header_loop (?h @ b @ rest) 2 (8 + sz) = Inr opts" for rest
    using b(3) [of ?h rest] b(2) by (simp add: add.commute del: be_bytes.simps)
  show thesis
  proof (rule that)
    show "opt_header_serialize nxt sz (Some opts) = Inr (?h @ b, opts)"
      using pack_fits [OF f] b(1) by (simp add: opt_header_serialize_def del: be_bytes.simps)
    show "int (length (?h @ b)) = 8 + sz" using b(2) by simp
    show "opt_header_parser cls ((?h @ b) @ rest) = Inr (cls nxt sz (Some opts))" for cls rest
      using unpack_from_pack_bytes [OF f, of "b @ rest"] lo assms(3)
      by (simp add: opt_header_parser_def opt_header_init_def del: be_bytes.simps)
  qed
qed

text \<open>An address that shares its first octets with the prefix the routing header elides (zeros).\<close>

definition elided :: "addrconv \<Rightarrow> int \<Rightarrow> string \<Rightarrow> bool" where
  "elided A c t = (case ip6_to_bin A t of Inl _ \<Rightarrow> False
     | Inr b \<Rightarrow> length b = 16 \<and> ip6_to_text A b = t \<and> take (nat c) b = replicate (nat c) 0)"

lemma elided_parts:
  assumes "elided A c t" "0 \<le> c" "c < 16"
  obtains b where "ip6_to_bin A t = Inr b" "int (length (drop (nat c) b)) = 16 - c"
    "pack_s (16 - c) (py_slice (nat c) 16 b) = Inr (drop (nat c) b)"
    "ip6_to_text A (replicate (nat c) 0 @ drop (nat c) b) = t"
proof -
  obtain b where b: "ip6_to_bin A t = Inr b" "length b = 16" "ip6_to_text A b = t"
    "take (nat c) b = replicate (nat c) 0"
    using assms(1) by (auto simp: elided_def split: sum.splits)
  have s: "py_slice (nat c) 16 b = drop (nat c) b" using b(2) by (simp add: py_slice_def)
  have l: "length (drop (nat c) b) = nat (16 - c)" using b(2) assms by (simp add: nat_diff_distrib)
  have e: "replicate (nat c) 0 @ drop (nat c) b = b" using b(4) append_take_drop_id [of "nat c" b] by simp
  show thesis
  proof (rule that [OF b(1)])
    show "int (length (drop (nat c) b)) = 16 - c" using l assms by simp
    show "pack_s (16 - c) (py_slice (nat c) 16 b) = Inr (drop (nat c) b)"
      using assms by (simp add: pack_s_def s pack_str_exact [OF l])
    show "ip6_to_text A (replicate (nat c) 0 @ drop (nat c) b) = t" using e b(3) by simp
  qed
qed

lemma unpack_s_exact: "int (length b) = n \<Longrightarrow> unpack_s n (b @ rest) = Inr b"
  by (auto simp: unpack_s_def)

lemma routing3_addrs_codec:
  assumes "list_all (elided A c) adrs" "0 \<le> c" "c < 16"
  shows "\<exists>b. routing3_addrs A c adrs = Inr b \<and> int (length b) = int (length adrs) * (16 - c) \<and>
    (\<forall>pre rest. routing3_loop A (pre @ b @ rest) c (int (length pre)) (int (length pre + length b)) =
      Inr (adrs, int (length pre + length b)))"
  using assms
proof (induction adrs)
  case Nil
  show ?case by (simp add: routing3_loop.simps)
next
  case (Cons adr adrs)
  then obtain r where r: "routing3_addrs A c adrs = Inr r" "int (length r) = int (length adrs) * (16 - c)"
    "\<And>pre rest. routing3_loop A (pre @ r @ rest) c (int (length pre)) (int (length pre + length r)) =
      Inr (adrs, int (length pre + length r))"
    by auto
  have "elided A c adr" using Cons.prems by simp
  then obtain b where b: "ip6_to_bin A adr = Inr b" "int (length (drop (nat c) b)) = 16 - c"
    "pack_s (16 - c) (py_slice (nat c) 16 b) = Inr (drop (nat c) b)"
    "ip6_to_text A (replicate (nat c) 0 @ drop (nat c) b) = adr"
    using elided_parts Cons.prems by blast
  define d where "d = drop (nat c) b"
  have len: "int (length d) = 16 - c" using b(2) by (simp add: d_def)
  have "routing3_loop A (pre @ (d @ r) @ rest) c (int (length pre)) (int (length pre + length (d @ r))) =
      Inr (adr # adrs, int (length pre + length (d @ r)))" for pre rest
  proof -
    have "routing3_loop A (pre @ d @ r @ rest) c (int (length pre) + (16 - c)) (int (length pre + length (d @ r)))
        = Inr (adrs, int (length pre + length (d @ r)))"
      using r(3) [of "pre @ d" rest] len by (simp add: add.assoc)
    moreover have "int (length pre) < int (length pre + length (d @ r))" using len Cons.prems by simp
    ultimately show ?thesis
      using unpack_s_exact [OF len, of "r @ rest"] Cons.prems(3) b(4)
      by (subst routing3_loop.simps) (simp add: d_def)
  qed
  with b(1,3) r(1,2) len show ?case
    by (intro exI [of _ "d @ r"]) (simp add: d_def distrib_right)
qed

definition routing3_wf :: "addrconv \<Rightarrow> ip6_routing \<Rightarrow> bool" where
  "routing3_wf A r \<longleftrightarrow> 0 \<le> r6_nxt r \<and> r6_nxt r < 256 \<and> 0 < r6_size r \<and> r6_size r < 256 \<and>
     r6_type r = 3 \<and> 0 \<le> r6_seg r \<and> r6_seg r < 256 \<and> 0 \<le> r6_cmpi r \<and> r6_cmpi r < 16 \<and>
     0 \<le> r6_cmpe r \<and> r6_cmpe r < 16 \<and> r6_adrs r \<noteq> [] \<and>
     list_all (elided A (r6_cmpi r)) (butlast (r6_adrs r)) \<and> elided A (r6_cmpe r) (last (r6_adrs r)) \<and>
     r6_size r * 8 = (int (length (r6_adrs r)) - 1) * (16 - r6_cmpi r) + (16 - r6_cmpe r) + r6_pad r"

lemma r6_pad_bounds: "0 \<le> r6_pad r" "r6_pad r < 8"
  by (simp_all add: r6_pad_def)

lemma nibbles:
  fixes a b :: int
  assumes "0 \<le> a" "a < 16" "0 \<le> b" "b < 16"
  shows "push_bit 4 a OR b = a * 16 + b" "drop_bit 4 (a * 16 + b) = a" "(a * 16 + b) AND 0xf = b"
    "0 \<le> a * 16 + b" "a * 16 + b < 256"
  using assms or_mult_add [of b 4 a] by (simp_all add: mask_simps push_bit_eq_mult)

lemma routing3_codec:
  assumes wf: "routing3_wf A r"
  obtains b where "routing3_serialize A r = Inr (b, r)" "int (length b) = (r6_size r + 1) * 8 - r6_pad r"
    "\<And>rest. routing_parser A (b @ rest) = Inr (Routing3 r)"
proof -
  let ?n = "int (length (r6_adrs r))"
  have w: "0 \<le> r6_nxt r" "r6_nxt r < 256" "0 < r6_size r" "r6_size r < 256" "r6_type r = 3" "0 \<le> r6_seg r"
    "r6_seg r < 256" "0 \<le> r6_cmpi r" "r6_cmpi r < 16" "0 \<le> r6_cmpe r" "r6_cmpe r < 16" "r6_adrs r \<noteq> []"
    "list_all (elided A (r6_cmpi r)) (butlast (r6_adrs r))" "elided A (r6_cmpe r) (last (r6_adrs r))"
    "r6_size r * 8 = (?n - 1) * (16 - r6_cmpi r) + (16 - r6_cmpe r) + r6_pad r"
    using wf by (simp_all add: routing3_wf_def)
  note nb = nibbles [OF w(8-11)] and pd = nibbles [of "r6_pad r" 0, simplified]
  have pb: "0 \<le> r6_pad r" "r6_pad r < 16" using r6_pad_bounds [of r] by simp_all
  obtain as where as: "routing3_addrs A (r6_cmpi r) (butlast (r6_adrs r)) = Inr as"
    "int (length as) = (?n - 1) * (16 - r6_cmpi r)"
    "\<And>pre rest. routing3_loop A (pre @ as @ rest) (r6_cmpi r) (int (length pre)) (int (length pre + length as)) =
      Inr (butlast (r6_adrs r), int (length pre + length as))"
    using routing3_addrs_codec [OF w(13) w(8,9)] w(12) by (auto simp: of_nat_diff Suc_leI)
  obtain b where b: "ip6_to_bin A (last (r6_adrs r)) = Inr b" "int (length (drop (nat (r6_cmpe r)) b)) = 16 - r6_cmpe r"
    "pack_s (16 - r6_cmpe r) (py_slice (nat (r6_cmpe r)) 16 b) = Inr (drop (nat (r6_cmpe r)) b)"
    "ip6_to_text A (replicate (nat (r6_cmpe r)) 0 @ drop (nat (r6_cmpe r)) b) = last (r6_adrs r)"
    using elided_parts [OF w(14) w(10,11)] by blast
  define e where "e = drop (nat (r6_cmpe r)) b"
  let ?vs = "[VI (r6_nxt r), VI (r6_size r), VI 3, VI (r6_seg r),
    VI (r6_cmpi r * 16 + r6_cmpe r), VI (r6_pad r * 16)]"
  have f: "fits routing3_fmt ?vs" using w nb(4,5) pd(4,5) pb by (simp add: routing3_fmt_def)
  define hdr where "hdr = pack_bytes routing3_fmt ?vs"
  have lh: "length hdr = 8" using length_pack_bytes [OF f] by (simp add: hdr_def routing3_fmt_def)
  have le: "int (length e) = 16 - r6_cmpe r" using b(2) by (simp add: e_def)
  show thesis
  proof (rule that)
    show "routing3_serialize A r = Inr (hdr @ as @ e, r)"
      using pack_fits [OF f] as(1) b(1,3) w(3,5,12) pd(1) [OF pb]
      by (simp add: routing3_serialize_def nb(1) hdr_def e_def)
    show "int (length (hdr @ as @ e)) = (r6_size r + 1) * 8 - r6_pad r" using lh as(2) le w(15) by simp
    show "routing_parser A ((hdr @ as @ e) @ rest) = Inr (Routing3 r)" for rest
    proof -
      define buf where "buf = hdr @ as @ e @ rest"
      define pos where "pos = int (length hdr + length as)"
      have "unpack_byte (drop 2 buf) = Inr 3"
        using lh by (simp add: buf_def hdr_def routing3_fmt_def unpack_byte_def)
      moreover have "unpack_from routing3_fmt buf = Inr ?vs"
        using unpack_from_pack_bytes [OF f] by (simp add: hdr_def buf_def)
      moreover have "(r6_size r + 1) * 8 - (16 - r6_cmpe r + r6_pad r) = pos"
        using as(2) w(15) lh by (simp add: pos_def)
      moreover have "routing3_loop A buf (r6_cmpi r) 8 pos = Inr (butlast (r6_adrs r), pos)"
        using as(3) [of hdr "e @ rest"] lh by (simp add: buf_def pos_def)
      moreover have "unpack_s (16 - r6_cmpe r) (drop (nat pos) buf) = Inr e"
        using unpack_s_exact [OF le, of rest] by (simp add: buf_def pos_def nat_int_add)
      moreover have "butlast (r6_adrs r) @ [ip6_to_text A (replicate (nat (r6_cmpe r)) 0 @ e)] = r6_adrs r"
        using b(4) w(12) by (simp add: e_def)
      ultimately have "routing_parser A buf = Inr (Routing3 r)"
        using w(3,5) unfolding routing_parser_def routing3_parser_def
        by (simp only: res_bind_Inr list.case fval.case nb(2,3) pd(2) [OF pb] Let_def if_True simp_thms prod.case
            less_imp_neq [symmetric] if_False not_False_eq_True) simp
      then show ?thesis by (simp add: buf_def)
    qed
  qed
qed

text \<open>
  The extension headers that survive: consistent options, and a routing header that needs no
  padding, since the serializer announces padding octets without writing them.
\<close>

fun ext_wf :: "addrconv \<Rightarrow> ip6_ext \<Rightarrow> bool" where
  "ext_wf A (HopOpts nxt sz data) \<longleftrightarrow> 0 \<le> nxt \<and> nxt < 256 \<and> 0 \<le> sz \<and> sz < 256 \<and> sz mod 8 = 0 \<and>
     (case data of None \<Rightarrow> False | Some opts \<Rightarrow> list_all option_wf opts \<and> sum_list (map option_len opts) = 6 + sz)"
| "ext_wf A (DstOpts nxt sz data) \<longleftrightarrow> 0 \<le> nxt \<and> nxt < 256 \<and> 0 \<le> sz \<and> sz < 256 \<and> sz mod 8 = 0 \<and>
     (case data of None \<Rightarrow> False | Some opts \<Rightarrow> list_all option_wf opts \<and> sum_list (map option_len opts) = 6 + sz)"
| "ext_wf A (Routing3 r) \<longleftrightarrow> routing3_wf A r \<and> r6_pad r = 0"
| "ext_wf A (Fragment nxt off mf ident) \<longleftrightarrow> 0 \<le> nxt \<and> nxt < 256 \<and> 0 \<le> off \<and> off < 8192 \<and>
     0 \<le> mf \<and> mf < 2 \<and> 0 \<le> ident \<and> ident < 4294967296"
| "ext_wf A (Auth nxt sz spi seq data) \<longleftrightarrow> 0 \<le> nxt \<and> nxt < 256 \<and> 0 < sz \<and> sz < 256 \<and>
     0 \<le> spi \<and> spi < 4294967296 \<and> 0 \<le> seq \<and> seq < 4294967296 \<and> int (length data) = (sz + 2) * 4 - 12"

fun ext_type :: "ip6_ext \<Rightarrow> int" where
  "ext_type (HopOpts nxt sz data) = 0"
| "ext_type (DstOpts nxt sz data) = 60"
| "ext_type (Routing3 r) = 43"
| "ext_type (Fragment nxt off mf ident) = 44"
| "ext_type (Auth nxt sz spi seq data) = 51"

lemma is_ext_type_ext_type [simp]: "is_ext_type (ext_type h)"
  by (cases h) (simp_all add: is_ext_type_def)

lemma fragment_word:
  fixes off mf :: int
  assumes "0 \<le> off" "off < 8192" "0 \<le> mf" "mf < 2"
  shows "push_bit 3 off OR mf = off * 8 + mf" "drop_bit 3 (off * 8 + mf) = off" "(off * 8 + mf) AND 0x1 = mf"
    "0 \<le> off * 8 + mf" "off * 8 + mf < 65536"
proof -
  show "(off * 8 + mf) AND 0x1 = mf" using assms(3,4) by (simp add: mask_simps) presburger
qed (use assms or_mult_add [of mf 3 off] in \<open>simp_all add: mask_simps push_bit_eq_mult\<close>)

lemma ext_codec:
  assumes "ext_wf A h"
  obtains b where "ext_serialize6 A h = Inr (b, h)" "int (length b) = ext_len h"
    "\<And>rest. ext_hdr_parser A (ext_type h) (b @ rest) = Inr h"
proof (cases h)
  case (HopOpts nxt sz data)
  with assms obtain opts where o: "data = Some opts" "list_all option_wf opts"
    "sum_list (map option_len opts) = 6 + sz" by (auto split: option.splits)
  from HopOpts assms have r: "sz mod 8 = 0" "0 \<le> sz" "sz < 256" "0 \<le> nxt" "nxt < 256" by simp_all
  obtain b where "opt_header_serialize nxt sz (Some opts) = Inr (b, opts)" "int (length b) = 8 + sz"
    "\<And>cls rest. opt_header_parser cls (b @ rest) = Inr (cls nxt sz (Some opts))"
    using opt_header_codec [OF o(2,3) r] by blast
  then show thesis using HopOpts o(1) by (intro that [of b]) (simp_all add: ext_hdr_parser_def)
next
  case (DstOpts nxt sz data)
  with assms obtain opts where o: "data = Some opts" "list_all option_wf opts"
    "sum_list (map option_len opts) = 6 + sz" by (auto split: option.splits)
  from DstOpts assms have r: "sz mod 8 = 0" "0 \<le> sz" "sz < 256" "0 \<le> nxt" "nxt < 256" by simp_all
  obtain b where "opt_header_serialize nxt sz (Some opts) = Inr (b, opts)" "int (length b) = 8 + sz"
    "\<And>cls rest. opt_header_parser cls (b @ rest) = Inr (cls nxt sz (Some opts))"
    using opt_header_codec [OF o(2,3) r] by blast
  then show thesis using DstOpts o(1) by (intro that [of b]) (simp_all add: ext_hdr_parser_def)
next
  case (Routing3 r)
  with assms have r: "routing3_wf A r" "r6_pad r = 0" by simp_all
  obtain b where "routing3_serialize A r = Inr (b, r)" "int (length b) = (r6_size r + 1) * 8 - r6_pad r"
    "\<And>rest. routing_parser A (b @ rest) = Inr (Routing3 r)"
    using routing3_codec [OF r(1)] by blast
  then show thesis using Routing3 r(2) by (intro that [of b]) (simp_all add: ext_hdr_parser_def)
next
  case (Fragment nxt off mf ident)
  with assms have w: "0 \<le> nxt" "nxt < 256" "0 \<le> ident" "ident < 4294967296"
    and o: "0 \<le> off" "off < 8192" "0 \<le> mf" "mf < 2" by simp_all
  note fw = fragment_word [OF o]
  have f: "fits fragment_fmt [VI nxt, VI (off * 8 + mf), VI ident]" using w fw(4,5) by (simp add: fragment_fmt_def)
  from that [of "pack_bytes fragment_fmt [VI nxt, VI (off * 8 + mf), VI ident]"] show thesis
    using pack_fits [OF f] unpack_from_pack_bytes [OF f] length_pack_bytes [OF f] Fragment
    by (simp add: fw(1-3) ext_hdr_parser_def fragment_parser_def fragment_fmt_def)
next
  case (Auth nxt sz spi seq data)
  with assms have w: "0 \<le> nxt" "nxt < 256" "0 < sz" "sz < 256" "0 \<le> spi" "spi < 4294967296" "0 \<le> seq"
    "seq < 4294967296" and d: "int (length data) = (sz + 2) * 4 - 12" by simp_all
  let ?vs = "[VI nxt, VI sz, VI spi, VI seq]"
  have f: "fits auth_fmt ?vs" using w by (simp add: auth_fmt_def)
  have l: "length (pack_bytes auth_fmt ?vs) = 12" using length_pack_bytes [OF f] by (simp add: auth_fmt_def)
  have ps: "pack_s ((sz + 2) * 4 - 12) data = Inr data" using d w by (simp add: pack_s_def pack_str_exact)
  show thesis
  proof (rule that)
    show "ext_serialize6 A h = Inr (pack_bytes auth_fmt ?vs @ data, h)"
      using pack_fits [OF f] ps Auth by simp
    show "int (length (pack_bytes auth_fmt ?vs @ data)) = ext_len h" using l d Auth by simp
    show "ext_hdr_parser A (ext_type h) ((pack_bytes auth_fmt ?vs @ data) @ rest) = Inr h" for rest
      using unpack_from_pack_bytes [OF f, of "data @ rest"] unpack_s_exact [OF d, of rest] l Auth
      by (simp add: ext_hdr_parser_def auth_parser_def)
  qed
qed

text \<open>The \<^verbatim>\<open>nxt\<close> fields name the header that follows; the last one names the payload.\<close>

fun ext_chain :: "int \<Rightarrow> ip6_ext list \<Rightarrow> bool" where
  "ext_chain nxt [] \<longleftrightarrow> \<not> is_ext_type nxt"
| "ext_chain nxt (h # hs) \<longleftrightarrow> nxt = ext_type h \<and> ext_chain (ext_nxt h) hs"

fun last_nxt :: "int \<Rightarrow> ip6_ext list \<Rightarrow> int" where
  "last_nxt nxt [] = nxt"
| "last_nxt nxt (h # hs) = last_nxt (ext_nxt h) hs"

lemma ext_hdrs_codec:
  assumes "list_all (ext_wf A) hs" "ext_chain nxt hs"
  shows "\<exists>b. ext_hdrs_serialize A hs = Inr (b, hs) \<and> int (length b) = ext_hdrs_len hs \<and>
    (\<forall>pre rest. ext_hdrs_loop A (pre @ b @ rest) (int (length pre)) nxt =
      Inr (hs, int (length pre) + ext_hdrs_len hs, last_nxt nxt hs))"
  using assms
proof (induction hs arbitrary: nxt)
  case Nil
  then show ?case by (simp add: ext_hdrs_loop.simps ext_hdrs_len_def)
next
  case (Cons h hs)
  obtain r where r: "ext_hdrs_serialize A hs = Inr (r, hs)" "int (length r) = ext_hdrs_len hs"
    "\<And>pre rest. ext_hdrs_loop A (pre @ r @ rest) (int (length pre)) (ext_nxt h) =
      Inr (hs, int (length pre) + ext_hdrs_len hs, last_nxt (ext_nxt h) hs)"
    using Cons.IH [of "ext_nxt h"] Cons.prems by auto
  from Cons.prems have "ext_wf A h" by simp
  then obtain b where b: "ext_serialize6 A h = Inr (b, h)" "int (length b) = ext_len h"
    "\<And>rest. ext_hdr_parser A (ext_type h) (b @ rest) = Inr h"
    using ext_codec by blast
  have "ext_hdrs_loop A (pre @ (b @ r) @ rest) (int (length pre)) nxt =
      Inr (h # hs, int (length pre) + ext_hdrs_len (h # hs), last_nxt nxt (h # hs))" for pre rest
    using r(3) [of "pre @ b" rest] b(2,3) Cons.prems(2)
    by (subst ext_hdrs_loop.simps) (simp add: ext_hdrs_len_def add.assoc)
  with b r(1,2) show ?case by (intro exI [of _ "b @ r"]) (simp add: ext_hdrs_len_def)
qed

definition ipv6_wf :: "addrconv \<Rightarrow> ipv6 \<Rightarrow> bool" where
  "ipv6_wf A h \<longleftrightarrow> 0 \<le> ip6_version h \<and> ip6_version h < 16 \<and> 0 \<le> ip6_traffic_class h \<and>
     ip6_traffic_class h < 256 \<and> 0 \<le> ip6_flow_label h \<and> ip6_flow_label h < 1048576 \<and>
     0 \<le> ip6_nxt h \<and> ip6_nxt h < 256 \<and> 0 \<le> ip6_hop_limit h \<and> ip6_hop_limit h < 256 \<and>
     elided A 0 (ip6_src h) \<and> elided A 0 (ip6_dst h) \<and>
     list_all (ext_wf A) (ip6_ext_hdrs h) \<and> ext_chain (ip6_nxt h) (ip6_ext_hdrs h)"

text \<open>A payload length of zero is computed; one that is given has to be right.\<close>

definition ipv6_fill :: "ipv6 \<Rightarrow> bytes \<Rightarrow> ipv6" where
  "ipv6_fill h payload = (if ip6_payload_length h = 0
     then h\<lparr>ip6_payload_length := int (length payload) + ext_hdrs_len (ip6_ext_hdrs h)\<rparr> else h)"

definition ipv6_length_ok :: "ipv6 \<Rightarrow> bytes \<Rightarrow> bool" where
  "ipv6_length_ok h payload \<longleftrightarrow>
     ip6_payload_length (ipv6_fill h payload) = int (length payload) + ext_hdrs_len (ip6_ext_hdrs h) \<and>
     ip6_payload_length (ipv6_fill h payload) < 65536"

text \<open>What the slice takes beyond the payload.\<close>

definition ipv6_excess :: "ipv6 \<Rightarrow> bytes \<Rightarrow> nat" where
  "ipv6_excess h payload = nat (ip6_payload_length (ipv6_fill h payload)) - length payload"

definition ipv6_length_covers :: "ipv6 \<Rightarrow> bytes \<Rightarrow> bool" where
  "ipv6_length_covers h payload \<longleftrightarrow>
     int (length payload) \<le> ip6_payload_length (ipv6_fill h payload) \<and>
     ip6_payload_length (ipv6_fill h payload) < 65536"

lemma ext_hdrs_len_nonneg:
  assumes "list_all (ext_wf A) hs"
  shows "0 \<le> ext_hdrs_len hs"
proof -
  have "0 \<le> ext_len h" if "ext_wf A h" for h using ext_codec [OF that] by (metis of_nat_0_le_iff)
  with assms show ?thesis by (induction hs) (simp_all add: ext_hdrs_len_def)
qed

lemma ipv6_length_ok_covers:
  assumes "ipv6_wf A h" "ipv6_length_ok h payload"
  shows "ipv6_length_covers h payload" "ipv6_excess h payload = nat (ext_hdrs_len (ip6_ext_hdrs h))"
  using assms ext_hdrs_len_nonneg [of A "ip6_ext_hdrs h"]
  by (simp_all add: ipv6_wf_def ipv6_length_ok_def ipv6_length_covers_def ipv6_excess_def nat_add_distrib)

lemma ipv6_first_word:
  fixes v t f :: int
  assumes "0 \<le> v" "v < 16" "0 \<le> t" "t < 256" "0 \<le> f" "f < 1048576"
  defines "w \<equiv> push_bit 28 v OR push_bit 20 t OR f"
  shows "w = v * 268435456 + (t * 1048576 + f)" "drop_bit 28 w = v" "drop_bit 20 w AND 0xff = t"
    "w AND 0xfffff = f" "0 \<le> w" "w < 4294967296"
proof -
  have a: "push_bit 20 t OR f = t * 1048576 + f" using or_mult_add [of f 20 t] assms(5,6) by (simp add: push_bit_eq_mult)
  have b: "0 \<le> t * 1048576 + f" "t * 1048576 + f < 268435456" using assms(3-6) by simp_all
  show w: "w = v * 268435456 + (t * 1048576 + f)"
    using or_mult_add [of "t * 1048576 + f" 28 v] b unfolding w_def or.assoc a by (simp add: push_bit_eq_mult)
  show "drop_bit 28 w = v" "0 \<le> w" "w < 4294967296"
    using assms(1-6) b by (simp_all add: w drop_bit_eq_div)
  define q where "q = t + 256 * v"
  have w2: "w = f + 1048576 * q" using w by (simp add: q_def)
  have "w div 1048576 = q" "w mod 1048576 = f" using assms(5,6) by (simp_all add: w2)
  moreover have "q mod 256 = t" using assms(3,4) by (simp add: q_def)
  ultimately show "drop_bit 20 w AND 0xff = t" "w AND 0xfffff = f"
    by (simp_all add: mask_simps)
qed

text \<open>
  A serialized header in front of its payload parses to itself. The slice of the payload starts
  after the extension headers but is as long as the payload length field, which counts them: with
  extension headers, or a field that is too large, it takes octets from what follows (\<open>trailer\<close>).
\<close>

lemma ipv6_codec:
  assumes A: "addrconv_ok A" and wf: "ipv6_wf A h" and len: "ipv6_length_covers h payload"
  shows "\<exists>hdr. ipv6_serialize A h payload = Inr (hdr, ipv6_fill h payload) \<and>
    int (length hdr) = ipv6_len h \<and>
    (\<forall>trailer. ipv6_parser A (hdr @ payload @ trailer) =
      Inr (ipv6_fill h payload, get_packet_type (last_nxt (ip6_nxt h) (ip6_ext_hdrs h)),
        payload @ take (ipv6_excess h payload) trailer))"
proof -
  define pl where "pl = ip6_payload_length (ipv6_fill h payload)"
  let ?el = "ext_hdrs_len (ip6_ext_hdrs h)"
  have w: "0 \<le> ip6_version h" "ip6_version h < 16" "0 \<le> ip6_traffic_class h" "ip6_traffic_class h < 256"
    "0 \<le> ip6_flow_label h" "ip6_flow_label h < 1048576" "0 \<le> ip6_nxt h" "ip6_nxt h < 256"
    "0 \<le> ip6_hop_limit h" "ip6_hop_limit h < 256" "elided A 0 (ip6_src h)" "elided A 0 (ip6_dst h)"
    "list_all (ext_wf A) (ip6_ext_hdrs h)" "ext_chain (ip6_nxt h) (ip6_ext_hdrs h)"
    using wf by (simp_all add: ipv6_wf_def)
  note fw = ipv6_first_word [OF w(1-6)]
  obtain src where src: "ip6_to_bin A (ip6_src h) = Inr src" "length src = 16" "ip6_to_text A src = ip6_src h"
    using w(11) by (auto simp: elided_def split: sum.splits)
  obtain dst where dst: "ip6_to_bin A (ip6_dst h) = Inr dst" "length dst = 16" "ip6_to_text A dst = ip6_dst h"
    using w(12) by (auto simp: elided_def split: sum.splits)
  obtain ext where ext: "ext_hdrs_serialize A (ip6_ext_hdrs h) = Inr (ext, ip6_ext_hdrs h)"
    "int (length ext) = ?el"
    "\<And>pre rest. ext_hdrs_loop A (pre @ ext @ rest) (int (length pre)) (ip6_nxt h) =
      Inr (ip6_ext_hdrs h, int (length pre) + ?el, last_nxt (ip6_nxt h) (ip6_ext_hdrs h))"
    using ext_hdrs_codec [OF w(13,14)] by auto
  have pl: "int (length payload) \<le> pl" "pl < 65536" using len by (simp_all add: pl_def ipv6_length_covers_def)
  define fw0 where "fw0 = push_bit 28 (ip6_version h) OR push_bit 20 (ip6_traffic_class h) OR ip6_flow_label h"
  define rest where "rest = be_bytes 1 (ip6_nxt h) @ be_bytes 1 (ip6_hop_limit h) @ src @ dst"
  let ?vs = "\<lambda>l. [VI fw0, VI l, VI (ip6_nxt h), VI (ip6_hop_limit h), VS src, VS dst]"
  have f: "fits ipv6_fmt (?vs l)" if "0 \<le> l" "l < 65536" for l
    using that w(7-10) fw(5,6) src(2) dst(2) by (simp add: ipv6_fmt_def fw0_def)
  have pb: "pack_bytes ipv6_fmt (?vs l) = be_bytes 4 fw0 @ be_bytes 2 l @ rest" for l
    by (simp add: ipv6_fmt_def rest_def)
  have lr: "length rest = 34" using src(2) dst(2) by (simp add: rest_def)
  have pl0: "0 \<le> pl" using pl(1) by simp
  let ?hdr = "be_bytes 4 fw0 @ be_bytes 2 pl @ rest @ ext"
  have ser: "ipv6_serialize A h payload = Inr (?hdr, ipv6_fill h payload)"
  proof (cases "ip6_payload_length h = 0")
    case True
    have fl: "ipv6_fill h payload = h\<lparr>ip6_payload_length := pl\<rparr>" "pl = int (length payload) + ?el"
      using True by (simp_all add: ipv6_fill_def pl_def)
    have into: "pack_into [fH] [VI pl] 4 (be_bytes 4 fw0 @ be_bytes 2 0 @ rest @ ext) = Inr ?hdr"
      using pl0 pl(2) by (simp add: pack_into_def)
    show ?thesis
      using True src(1) dst(1) ext(1) pack_fits [OF f [of 0]] into fl
      by (simp add: ipv6_serialize_def fw0_def [symmetric] pb Let_def del: be_bytes.simps)
  next
    case False
    then have "ipv6_fill h payload = h" "ip6_payload_length h = pl" by (simp_all add: ipv6_fill_def pl_def)
    with False show ?thesis
      using src(1) dst(1) ext(1) pack_fits [OF f [OF pl0 pl(2)]]
      by (simp add: ipv6_serialize_def fw0_def [symmetric] pb Let_def)
  qed
  have parse: "ipv6_parser A (?hdr @ payload @ trailer) = Inr (ipv6_fill h payload,
      get_packet_type (last_nxt (ip6_nxt h) (ip6_ext_hdrs h)), payload @ take (ipv6_excess h payload) trailer)" for trailer
  proof -
    define buf where "buf = ?hdr @ payload @ trailer"
    have u: "unpack_from ipv6_fmt buf = Inr (?vs pl)"
      using unpack_from_pack_bytes [OF f [OF pl0 pl(2)], of "ext @ payload @ trailer"] by (simp add: pb buf_def)
    have e: "ext_hdrs_loop A buf 40 (ip6_nxt h) =
        Inr (ip6_ext_hdrs h, 40 + ?el, last_nxt (ip6_nxt h) (ip6_ext_hdrs h))"
      using ext(3) [of "be_bytes 4 fw0 @ be_bytes 2 pl @ rest" "payload @ trailer"] lr by (simp add: buf_def)
    have d: "buf = (be_bytes 4 fw0 @ be_bytes 2 pl @ rest @ ext) @ payload @ trailer" by (simp add: buf_def)
    have x: "ipv6_excess h payload = nat pl - length payload" by (simp add: ipv6_excess_def pl_def)
    have e0: "nat (40 + ?el) = 40 + length ext" "nat (40 + ?el + pl) = 40 + length ext + nat pl"
      using ext(2) pl0 by (simp_all add: nat_add_distrib flip: ext(2))
    have sl: "py_slice (nat (40 + ?el)) (nat (40 + ?el + pl)) buf = payload @ take (ipv6_excess h payload) trailer"
      using lr pl(1) unfolding d py_slice_def e0 x by simp
    have fl: "ipv6_fill h payload = h\<lparr>ip6_payload_length := pl\<rparr>" by (simp add: pl_def ipv6_fill_def)
    show ?thesis
      unfolding ipv6_parser_def buf_def [symmetric] u
      using e sl fw(2-4) src(3) dst(3) by (simp add: fl fw0_def)
  qed
  have "int (length ?hdr) = ipv6_len h" using lr ext(2) by (simp add: ipv6_len_def)
  with ser parse show ?thesis by blast
qed

end
