(* ===== verification/Vrrp_Packet.thy ===== *)
theory Vrrp_Packet
  imports Complex_Main Packet_Net
begin

text \<open>
  The VRRP packets of \<^verbatim>\<open>ryu/lib/packet/vrrp.py\<close>, versions 2 and 3: parser, serializer, validity and
  checksum tests and the conversion of the advertisement interval.
\<close>

section \<open>Addresses and intervals\<close>

definition VRRP_VERSION_V2 :: int where "VRRP_VERSION_V2 = 2"
definition VRRP_VERSION_V3 :: int where "VRRP_VERSION_V3 = 3"
definition VRRP_TYPE_ADVERTISEMENT :: int where "VRRP_TYPE_ADVERTISEMENT = 1"
definition VRRP_PRIORITY_ADDRESS_OWNER :: int where "VRRP_PRIORITY_ADDRESS_OWNER = 255"
definition VRRP_V3_MAX_ADVER_INT_MASK :: int where "VRRP_V3_MAX_ADVER_INT_MASK = 0xfff"

definition vrrp_from_version_type :: "int \<Rightarrow> int \<times> int" where
  "vrrp_from_version_type version_type = (drop_bit 4 version_type, version_type AND 0xf)"

definition vrrp_to_version_type :: "int \<Rightarrow> int \<Rightarrow> int" where
  "vrrp_to_version_type version ty = push_bit 4 version OR ty"

text \<open>\<^verbatim>\<open>is_ipv6\<close>: a text that is no IPv4 address must be an IPv6 address.\<close>

definition is_ipv6 :: "addrconv \<Rightarrow> string \<Rightarrow> bool res" where
  "is_ipv6 A ip_address =
     (case ip4_to_bin A ip_address of Inr b \<Rightarrow> Inr False
      | Inl e \<Rightarrow> res_bind (ip6_to_bin A ip_address) (\<lambda>_. Inr True))"

definition vrrp_ip_text_to_bin :: "addrconv \<Rightarrow> string \<Rightarrow> bytes res" where
  "vrrp_ip_text_to_bin A ip_text =
     res_bind (is_ipv6 A ip_text) (\<lambda>v6. if v6 then ip6_to_bin A ip_text else ip4_to_bin A ip_text)"

text \<open>Python compares byte strings lexicographically.\<close>

fun bytes_lt :: "bytes \<Rightarrow> bytes \<Rightarrow> bool" where
  "bytes_lt xs [] = False"
| "bytes_lt [] (y # ys) = True"
| "bytes_lt (x # xs) (y # ys) = (x < y \<or> x = y \<and> bytes_lt xs ys)"

definition ip_address_lt :: "addrconv \<Rightarrow> string \<Rightarrow> string \<Rightarrow> bool res" where
  "ip_address_lt A ip1 ip2 =
     res_bind (vrrp_ip_text_to_bin A ip1) (\<lambda>b1. res_bind (vrrp_ip_text_to_bin A ip2) (\<lambda>b2.
     Inr (bytes_lt b1 b2)))"

text \<open>The unit of the interval field: seconds in version 2, hundredths of a second in version 3.\<close>

definition sec_in_max_adver_int_unit :: "int \<Rightarrow> rat res" where
  "sec_in_max_adver_int_unit version =
     (if version = VRRP_VERSION_V2 then Inr 1 else if version = VRRP_VERSION_V3 then Inr 100 else Inl KeyError)"

definition py_trunc :: "rat \<Rightarrow> int" where
  "py_trunc x = (if x < 0 then - \<lfloor>- x\<rfloor> else \<lfloor>x\<rfloor>)"

definition sec_to_max_adver_int :: "int \<Rightarrow> rat \<Rightarrow> int res" where
  "sec_to_max_adver_int version seconds =
     res_bind (sec_in_max_adver_int_unit version) (\<lambda>u. Inr (py_trunc (seconds * u)))"

definition max_adver_int_to_sec :: "int \<Rightarrow> int \<Rightarrow> rat res" where
  "max_adver_int_to_sec version max_adver_int =
     res_bind (sec_in_max_adver_int_unit version) (\<lambda>u. Inr (of_int max_adver_int / u))"

section \<open>The header\<close>

text \<open>\<^verbatim>\<open>checksum\<close>, \<^verbatim>\<open>auth_type\<close> and \<^verbatim>\<open>auth_data\<close> are \<^verbatim>\<open>None\<close> until they are computed or set.\<close>

record vrrp =
  vr_version :: int
  vr_type :: int
  vr_vrid :: int
  vr_priority :: int
  vr_count_ip :: int
  vr_max_adver_int :: int
  vr_checksum :: "int option"
  vr_ip_addresses :: "string list"
  vr_auth_type :: "int option"
  vr_auth_data :: "(int \<times> int) option"
  vr_is_ipv6 :: bool
  vr_identification :: int

definition vrrp_init :: "addrconv \<Rightarrow> int \<Rightarrow> int \<Rightarrow> int \<Rightarrow> int \<Rightarrow> int \<Rightarrow> int \<Rightarrow> int option \<Rightarrow> string list \<Rightarrow>
    int option \<Rightarrow> (int \<times> int) option \<Rightarrow> vrrp res" where
  "vrrp_init A version ty vrid priority count_ip max_adver_int csum ip_addresses auth_type auth_data =
     res_bind (assertR (int (length ip_addresses) = count_ip)) (\<lambda>_.
     case ip_addresses of [] \<Rightarrow> Inl IndexError
     | ip # _ \<Rightarrow> res_bind (is_ipv6 A ip) (\<lambda>v6.
         Inr \<lparr>vr_version = version, vr_type = ty, vr_vrid = vrid, vr_priority = priority,
              vr_count_ip = count_ip, vr_max_adver_int = max_adver_int, vr_checksum = csum,
              vr_ip_addresses = ip_addresses, vr_auth_type = auth_type, vr_auth_data = auth_data,
              vr_is_ipv6 = v6, vr_identification = 0\<rparr>))"

text \<open>
  \<^verbatim>\<open>create_version\<close> and the two \<^verbatim>\<open>create\<close>. An interval of \<^verbatim>\<open>None\<close> calls \<^verbatim>\<open>sec_to_max_adver_int\<close> with one
  argument, which raises.
\<close>

definition create_version :: "addrconv \<Rightarrow> int \<Rightarrow> int \<Rightarrow> int \<Rightarrow> int option \<Rightarrow> int option \<Rightarrow> string list \<Rightarrow>
    int option \<Rightarrow> (int \<times> int) option \<Rightarrow> vrrp res" where
  "create_version A version ty vrid priority max_adver_int ip_addresses auth_type auth_data =
     (if version \<noteq> VRRP_VERSION_V2 \<and> version \<noteq> VRRP_VERSION_V3 then Inl ValueError
      else
        (let priority = (case priority of None \<Rightarrow> 100 | Some p \<Rightarrow> p) in
         case max_adver_int of None \<Rightarrow> Inl TypeError
         | Some i \<Rightarrow> vrrp_init A version ty vrid priority (int (length ip_addresses)) i None ip_addresses
             auth_type auth_data))"

definition vrrpv2_create :: "addrconv \<Rightarrow> int \<Rightarrow> int \<Rightarrow> int \<Rightarrow> int \<Rightarrow> string list \<Rightarrow> vrrp res" where
  "vrrpv2_create A ty vrid priority max_adver_int ip_addresses =
     create_version A VRRP_VERSION_V2 ty vrid (Some priority) (Some max_adver_int) ip_addresses (Some 0) (Some (0, 0))"

definition vrrpv3_create :: "addrconv \<Rightarrow> int \<Rightarrow> int \<Rightarrow> int \<Rightarrow> int \<Rightarrow> string list \<Rightarrow> vrrp res" where
  "vrrpv3_create A ty vrid priority max_adver_int ip_addresses =
     create_version A VRRP_VERSION_V3 ty vrid (Some priority) (Some max_adver_int) ip_addresses None None"

text \<open>\<^verbatim>\<open>len(self)\<close> of the two versions.\<close>

definition vrrp_len :: "vrrp \<Rightarrow> nat" where
  "vrrp_len h = (if vr_version h = VRRP_VERSION_V2 then 8 + 4 * nat (vr_count_ip h) + 8
     else 8 + (if vr_is_ipv6 h then 16 else 4) * nat (vr_count_ip h))"

section \<open>Parsers\<close>

definition vrrpv2_fmt :: "fmt list" where "vrrpv2_fmt = [fB, fB, fB, fB, fB, fB, fH]"

definition vrrpv3_fmt :: "fmt list" where "vrrpv3_fmt = [fB, fB, fB, fB, fH, fH]"

fun vs_bytes :: "fval \<Rightarrow> bytes" where
  "vs_bytes (VS b) = b"
| "vs_bytes (VI i) = []"

definition vrrpv2_parser :: "addrconv \<Rightarrow> bytes \<Rightarrow> (vrrp \<times> bytes) res" where
  "vrrpv2_parser A buf =
     res_bind (unpack_from vrrpv2_fmt buf) (\<lambda>vs.
     case vs of [VI version_type, VI vrid, VI priority, VI count_ip, VI auth_type, VI adver_int, VI csum] \<Rightarrow>
       (let (version, ty) = vrrp_from_version_type version_type in
        res_bind (unpack_from (replicate (nat count_ip) (FS 4)) (drop 8 buf)) (\<lambda>addrs.
        let ip_addresses = map (\<lambda>a. ip4_to_text A (vs_bytes a)) addrs in
        res_bind (unpack_from [fI, fI] (drop (8 + 4 * nat count_ip) buf)) (\<lambda>auth.
        case auth of [VI a, VI b] \<Rightarrow>
          res_bind (vrrp_init A version ty vrid priority count_ip adver_int (Some csum) ip_addresses
              (Some auth_type) (Some (a, b))) (\<lambda>msg. Inr (msg, drop (vrrp_len msg) buf))
        | _ \<Rightarrow> Inl StructError)))
     | _ \<Rightarrow> Inl StructError)"

text \<open>Version 3 guesses the address family from the length; a count of zero divides by zero.\<close>

definition vrrpv3_parser :: "addrconv \<Rightarrow> bytes \<Rightarrow> (vrrp \<times> bytes) res" where
  "vrrpv3_parser A buf =
     res_bind (unpack_from vrrpv3_fmt buf) (\<lambda>vs.
     case vs of [VI version_type, VI vrid, VI priority, VI count_ip, VI max_adver_int, VI csum] \<Rightarrow>
       (let (version, ty) = vrrp_from_version_type version_type;
            max_adver_int = max_adver_int AND VRRP_V3_MAX_ADVER_INT_MASK in
        if count_ip = 0 then Inl (RyuError ''ZeroDivisionError'')
        else
          (let address_len = (int (length buf) - 8) div count_ip in
           if address_len \<noteq> 4 \<and> address_len \<noteq> 16 then Inl ValueError
           else
             (let conv = (if address_len = 4 then ip4_to_text A else ip6_to_text A) in
              res_bind (unpack_from (replicate (nat count_ip) (FS (nat address_len))) (drop 8 buf)) (\<lambda>addrs.
              let ip_addresses = map (\<lambda>a. conv (vs_bytes a)) addrs in
              res_bind (vrrp_init A version ty vrid priority count_ip max_adver_int (Some csum) ip_addresses
                  None None) (\<lambda>msg. Inr (msg, drop (vrrp_len msg) buf)))))
       )
     | _ \<Rightarrow> Inl StructError)"

definition vrrp_parser :: "addrconv \<Rightarrow> bytes \<Rightarrow> (vrrp \<times> bytes) res" where
  "vrrp_parser A buf =
     res_bind (unpack_from [fB] buf) (\<lambda>vs.
     case vs of [VI version_type] \<Rightarrow>
       (let (version, ty) = vrrp_from_version_type version_type in
        if version = VRRP_VERSION_V2 then vrrpv2_parser A buf
        else if version = VRRP_VERSION_V3 then vrrpv3_parser A buf
        else Inl KeyError)
     | _ \<Rightarrow> Inl StructError)"

section \<open>Serializers\<close>

definition or_default :: "'a option \<Rightarrow> 'a \<Rightarrow> 'a" where
  "or_default x d = (case x of None \<Rightarrow> d | Some v \<Rightarrow> v)"

definition vrrpv2_serialize :: "bool \<Rightarrow> addrconv \<Rightarrow> vrrp \<Rightarrow> (bytes \<times> vrrp) res" where
  "vrrpv2_serialize le A h =
     res_bind (assertR (\<not> vr_is_ipv6 h)) (\<lambda>_.
     let checksum_flag = (vr_checksum h = None);
         csum = or_default (vr_checksum h) 0;
         auth_type = or_default (vr_auth_type h) 0;
         (auth1, auth2) = or_default (vr_auth_data h) (0, 0);
         h = h\<lparr>vr_checksum := Some csum, vr_auth_type := Some auth_type, vr_auth_data := Some (auth1, auth2)\<rparr> in
     res_bind (pack vrrpv2_fmt [VI (vrrp_to_version_type (vr_version h) (vr_type h)), VI (vr_vrid h),
         VI (vr_priority h), VI (vr_count_ip h), VI auth_type, VI (vr_max_adver_int h), VI csum]) (\<lambda>hdr.
     res_bind (res_map (ip4_to_bin A) (vr_ip_addresses h)) (\<lambda>bs.
     res_bind (pack (replicate (nat (vr_count_ip h)) (FS 4)) (map VS bs)) (\<lambda>addrs.
     res_bind (pack [fI, fI] [VI auth1, VI auth2]) (\<lambda>auth.
     let buf = hdr @ addrs @ auth in
     if checksum_flag then
       (let csum = checksum le buf in
        res_bind (pack_into [fH] [VI csum] 6 buf) (\<lambda>buf. Inr (buf, h\<lparr>vr_checksum := Some csum\<rparr>)))
     else Inr (buf, h))))))"

text \<open>The header before this one, as far as \<^verbatim>\<open>isinstance\<close> tells.\<close>

datatype net_prev = PrevIPv4 ipvx | PrevIPv6 ipvx | PrevOther

definition vrrpv3_serialize :: "bool \<Rightarrow> addrconv \<Rightarrow> vrrp \<Rightarrow> net_prev \<Rightarrow> (bytes \<times> vrrp) res" where
  "vrrpv3_serialize le A h prev =
     res_bind (case prev of PrevIPv4 ip \<Rightarrow> Inr (ip4_to_bin A, 4 :: nat, ip)
       | PrevIPv6 ip \<Rightarrow> Inr (ip6_to_bin A, 16, ip) | PrevOther \<Rightarrow> Inl ValueError) (\<lambda>(conv, address_len, ip).
     let checksum_flag = (vr_checksum h = None);
         csum = or_default (vr_checksum h) 0;
         h = h\<lparr>vr_checksum := Some csum\<rparr> in
     res_bind (assertR (vr_max_adver_int h \<le> VRRP_V3_MAX_ADVER_INT_MASK)) (\<lambda>_.
     res_bind (pack vrrpv3_fmt [VI (vrrp_to_version_type (vr_version h) (vr_type h)), VI (vr_vrid h),
         VI (vr_priority h), VI (vr_count_ip h), VI (vr_max_adver_int h), VI csum]) (\<lambda>hdr.
     res_bind (res_map conv (vr_ip_addresses h)) (\<lambda>bs.
     res_bind (pack (replicate (nat (vr_count_ip h)) (FS address_len)) (map VS bs)) (\<lambda>addrs.
     let buf = hdr @ addrs in
     if checksum_flag then
       res_bind (checksum_ip le A ip (int (length buf)) buf) (\<lambda>csum.
       res_bind (pack_into [fH] [VI csum] 6 buf) (\<lambda>buf. Inr (buf, h\<lparr>vr_checksum := Some csum\<rparr>)))
     else Inr (buf, h))))))"

definition vrrp_serialize :: "bool \<Rightarrow> addrconv \<Rightarrow> vrrp \<Rightarrow> net_prev \<Rightarrow> (bytes \<times> vrrp) res" where
  "vrrp_serialize le A h prev =
     (if vr_version h = VRRP_VERSION_V2 then vrrpv2_serialize le A h
      else if vr_version h = VRRP_VERSION_V3 then vrrpv3_serialize le A h prev
      else Inl KeyError)"

section \<open>Checks of a received packet\<close>

definition vrrp_checksum_ok :: "bool \<Rightarrow> addrconv \<Rightarrow> vrrp \<Rightarrow> ipvx \<Rightarrow> bytes \<Rightarrow> bool res" where
  "vrrp_checksum_ok le A h ip buf =
     (if vr_version h = VRRP_VERSION_V2 then Inr (checksum le buf = 0)
      else if vr_version h = VRRP_VERSION_V3 then
        res_bind (checksum_ip le A ip (int (vrrp_len h)) buf) (\<lambda>c. Inr (c = 0))
      else Inl KeyError)"

definition vrrpv2_is_valid :: "vrrp \<Rightarrow> bool" where
  "vrrpv2_is_valid h \<longleftrightarrow> vr_version h = VRRP_VERSION_V2 \<and> vr_type h = VRRP_TYPE_ADVERTISEMENT \<and>
     1 \<le> vr_vrid h \<and> vr_vrid h \<le> 255 \<and> 0 \<le> vr_priority h \<and> vr_priority h \<le> 255 \<and>
     vr_auth_type h = Some 0 \<and> 1 \<le> vr_max_adver_int h \<and> vr_max_adver_int h \<le> 0xff \<and>
     vr_count_ip h = int (length (vr_ip_addresses h))"

definition vrrpv3_is_valid :: "vrrp \<Rightarrow> bool" where
  "vrrpv3_is_valid h \<longleftrightarrow> vr_version h = VRRP_VERSION_V3 \<and> vr_type h = VRRP_TYPE_ADVERTISEMENT \<and>
     1 \<le> vr_vrid h \<and> vr_vrid h \<le> 255 \<and> 0 \<le> vr_priority h \<and> vr_priority h \<le> 255 \<and>
     1 \<le> vr_max_adver_int h \<and> vr_max_adver_int h \<le> 0xfff \<and>
     vr_count_ip h = int (length (vr_ip_addresses h))"

definition vrrp_is_valid :: "vrrp \<Rightarrow> bool" where
  "vrrp_is_valid h = (if vr_version h = VRRP_VERSION_V2 then vrrpv2_is_valid h
     else if vr_version h = VRRP_VERSION_V3 then vrrpv3_is_valid h else False)"

end
