(* ===== verification/Vrrp_Codec.thy ===== *)
theory Vrrp_Codec
  imports Vrrp_Packet
begin

text \<open>What a VRRP router sends is what its neighbours parse, with a checksum they accept.\<close>

section \<open>Addresses\<close>

lemma res_map_addrs:
  assumes "\<forall>ip \<in> set ips. \<exists>b. conv ip = Inr b \<and> length b = k \<and> text b = ip"
  shows "\<exists>bs. res_map conv ips = Inr bs \<and> length bs = length ips \<and> (\<forall>b \<in> set bs. length b = k) \<and>
    map text bs = ips"
  using assms
proof (induction ips)
  case (Cons ip ips)
  then obtain bs where "res_map conv ips = Inr bs" "length bs = length ips" "\<forall>b \<in> set bs. length b = k"
    "map text bs = ips" by auto
  moreover obtain b where "conv ip = Inr b" "length b = k" "text b = ip" using Cons.prems by auto
  ultimately show ?case by (intro exI [of _ "b # bs"]) simp
qed simp

lemma fits_addrs: "\<forall>b \<in> set bs. length b = k \<Longrightarrow> fits (replicate (length bs) (FS k)) (map VS bs)"
  by (induction bs) simp_all

lemma pack_addrs: "\<forall>b \<in> set bs. length b = k \<Longrightarrow> pack_bytes (replicate (length bs) (FS k)) (map VS bs) = concat bs"
  by (induction bs) simp_all

lemma length_addrs: "\<forall>b \<in> set bs. length b = k \<Longrightarrow> length (concat bs) = k * length bs"
  by (induction bs) simp_all

lemma map_vs_bytes: "map (\<lambda>a. f (vs_bytes a)) (map VS bs) = map f bs"
  by simp

lemma addrs_codec:
  assumes "\<forall>b \<in> set bs. length b = k"
  shows "pack (replicate (length bs) (FS k)) (map VS bs) = Inr (concat bs)"
    "unpack_from (replicate (length bs) (FS k)) (concat bs @ rest) = Inr (map VS bs)"
  using pack_fits [OF fits_addrs [OF assms]] unpack_from_pack_bytes [OF fits_addrs [OF assms], of rest]
  by (simp_all add: pack_addrs [OF assms])

lemma version_type_parts:
  assumes "0 \<le> v" "0 \<le> t" "t < 16"
  shows "vrrp_to_version_type v t = v * 16 + t" "vrrp_from_version_type (v * 16 + t) = (v, t)"
proof -
  have "v * 2 ^ 4 OR t = v * 2 ^ 4 + t" using assms by (intro or_mult_add) simp_all
  then show "vrrp_to_version_type v t = v * 16 + t" by (simp add: vrrp_to_version_type_def push_bit_eq_mult)
  show "vrrp_from_version_type (v * 16 + t) = (v, t)"
    using assms by (simp add: vrrp_from_version_type_def drop_bit_eq_div mask_simps)
qed

section \<open>Well-formed headers\<close>

definition vrrp_common :: "vrrp \<Rightarrow> bool" where
  "vrrp_common h \<longleftrightarrow> 0 \<le> vr_type h \<and> vr_type h < 16 \<and> 0 \<le> vr_vrid h \<and> vr_vrid h < 256 \<and>
     0 \<le> vr_priority h \<and> vr_priority h < 256 \<and> vr_ip_addresses h \<noteq> [] \<and> length (vr_ip_addresses h) < 256 \<and>
     vr_count_ip h = int (length (vr_ip_addresses h)) \<and> vr_checksum h = None"

definition vrrpv2_wf :: "addrconv \<Rightarrow> vrrp \<Rightarrow> bool" where
  "vrrpv2_wf A h \<longleftrightarrow> vrrp_common h \<and> vr_version h = VRRP_VERSION_V2 \<and> \<not> vr_is_ipv6 h \<and>
     0 \<le> vr_max_adver_int h \<and> vr_max_adver_int h < 256 \<and>
     list_all (canon_ip4 A) (vr_ip_addresses h) \<and>
     (case vr_auth_type h of None \<Rightarrow> False | Some t \<Rightarrow> 0 \<le> t \<and> t < 256) \<and>
     (case vr_auth_data h of None \<Rightarrow> False
      | Some (a, b) \<Rightarrow> 0 \<le> a \<and> a < 4294967296 \<and> 0 \<le> b \<and> b < 4294967296)"

definition canon_ip6 :: "addrconv \<Rightarrow> string \<Rightarrow> bool" where
  "canon_ip6 A t = (case ip6_to_bin A t of Inl _ \<Rightarrow> False | Inr b \<Rightarrow> ip6_to_text A b = t)"

definition vrrpv3_wf :: "addrconv \<Rightarrow> vrrp \<Rightarrow> bool" where
  "vrrpv3_wf A h \<longleftrightarrow> vrrp_common h \<and> vr_version h = VRRP_VERSION_V3 \<and>
     0 \<le> vr_max_adver_int h \<and> vr_max_adver_int h < 4096 \<and>
     (if vr_is_ipv6 h then list_all (canon_ip6 A) (vr_ip_addresses h) \<and> is_ipv6 A (hd (vr_ip_addresses h)) = Inr True
      else list_all (canon_ip4 A) (vr_ip_addresses h)) \<and>
     vr_auth_type h = None \<and> vr_auth_data h = None"

lemma canon_ip4_each:
  assumes "addrconv_ok A" "list_all (canon_ip4 A) ips"
  shows "\<forall>ip \<in> set ips. \<exists>b. ip4_to_bin A ip = Inr b \<and> length b = 4 \<and> ip4_to_text A b = ip"
  using assms canon_ip4E by (metis list_all_iff)

lemma canon_ip6_each:
  assumes "addrconv_ok A" "list_all (canon_ip6 A) ips"
  shows "\<forall>ip \<in> set ips. \<exists>b. ip6_to_bin A ip = Inr b \<and> length b = 16 \<and> ip6_to_text A b = ip"
proof
  fix ip assume "ip \<in> set ips"
  then have "canon_ip6 A ip" using assms(2) by (simp add: list_all_iff)
  then obtain b where b: "ip6_to_bin A ip = Inr b" "ip6_to_text A b = ip"
    by (auto simp: canon_ip6_def split: sum.splits)
  moreover have "length b = 16" using assms(1) b(1) by (simp add: addrconv_ok_def)
  ultimately show "\<exists>b. ip6_to_bin A ip = Inr b \<and> length b = 16 \<and> ip6_to_text A b = ip" by blast
qed

lemma is_ipv6_canon4:
  assumes "addrconv_ok A" "list_all (canon_ip4 A) ips" "ips \<noteq> []"
  shows "is_ipv6 A (hd ips) = Inr False"
proof -
  obtain b where "ip4_to_bin A (hd ips) = Inr b"
    using canon_ip4_each [OF assms(1,2)] hd_in_set [OF assms(3)] by blast
  then show ?thesis by (simp add: is_ipv6_def)
qed

text \<open>The parsed object: the one sent, with its checksum, and a fresh identification.\<close>

definition vrrp_received :: "vrrp \<Rightarrow> vrrp" where
  "vrrp_received h = h\<lparr>vr_identification := 0\<rparr>"

lemma vrrp_init_eq:
  assumes "ips \<noteq> []" "cnt = int (length ips)" "is_ipv6 A (hd ips) = Inr v6"
  shows "vrrp_init A v t vrid prio cnt adv csum ips aty ad = Inr \<lparr>vr_version = v, vr_type = t, vr_vrid = vrid,
    vr_priority = prio, vr_count_ip = cnt, vr_max_adver_int = adv, vr_checksum = csum, vr_ip_addresses = ips,
    vr_auth_type = aty, vr_auth_data = ad, vr_is_ipv6 = v6, vr_identification = 0\<rparr>"
  using assms by (cases ips) (simp_all add: vrrp_init_def)

text \<open>A checksum written at offset 6 of a buffer with zeros there.\<close>

lemma checksum_at_6:
  assumes "length a = 6" "0 \<le> c" "c < 65536"
  shows "pack_into [fH] [VI c] 6 (a @ [0, 0] @ r) = Inr (a @ be_bytes 2 c @ r)"
  using assms by (simp add: pack_into_def)

section \<open>Version 2\<close>

lemma vrrpv2_codec:
  assumes A: "addrconv_ok A" and wf: "vrrpv2_wf A h"
  shows "\<exists>buf h'. vrrp_serialize le A h prev = Inr (buf, h') \<and> h' = h\<lparr>vr_checksum := vr_checksum h'\<rparr> \<and>
    length buf = vrrp_len h \<and> (\<forall>rest. vrrp_parser A (buf @ rest) = Inr (vrrp_received h', rest)) \<and>
    (\<forall>le' ip. vrrp_checksum_ok le' A h' ip buf = Inr True) \<and>
    vrrp_serialize le A h' prev = Inr (buf, h')"
proof -
  let ?n = "length (vr_ip_addresses h)"
  from wf have c: "vrrp_common h" and v: "vr_version h = 2" "\<not> vr_is_ipv6 h" "0 \<le> vr_max_adver_int h"
    "vr_max_adver_int h < 256" "list_all (canon_ip4 A) (vr_ip_addresses h)"
    by (simp_all add: vrrpv2_wf_def VRRP_VERSION_V2_def)
  from wf obtain aty a1 a2 where au: "vr_auth_type h = Some aty" "0 \<le> aty" "aty < 256"
    "vr_auth_data h = Some (a1, a2)" "0 \<le> a1" "a1 < 4294967296" "0 \<le> a2" "a2 < 4294967296"
    unfolding vrrpv2_wf_def by (auto split: option.splits)
  from c have r: "0 \<le> vr_type h" "vr_type h < 16" "0 \<le> vr_vrid h" "vr_vrid h < 256" "0 \<le> vr_priority h"
    "vr_priority h < 256" "vr_ip_addresses h \<noteq> []" "?n < 256" "vr_count_ip h = int ?n" "vr_checksum h = None"
    by (simp_all add: vrrp_common_def)
  obtain bs where bs: "res_map (ip4_to_bin A) (vr_ip_addresses h) = Inr bs" "length bs = ?n"
    "\<forall>b \<in> set bs. length b = 4" "map (ip4_to_text A) bs = vr_ip_addresses h"
    using res_map_addrs [OF canon_ip4_each [OF A v(5)]] by blast
  note vt = version_type_parts [of 2, OF _ r(1,2), simplified]
  let ?vs = "\<lambda>x. [VI (32 + vr_type h), VI (vr_vrid h), VI (vr_priority h), VI (int ?n), VI aty, VI (vr_max_adver_int h), VI x]"
  define a where "a = be_bytes 1 (32 + vr_type h) @ be_bytes 1 (vr_vrid h) @ be_bytes 1 (vr_priority h) @
    be_bytes 1 (int ?n) @ be_bytes 1 aty @ be_bytes 1 (vr_max_adver_int h)"
  define w where "w = concat bs @ be_bytes 4 a1 @ be_bytes 4 a2"
  have la: "length a = 6" by (simp add: a_def)
  have lw: "length w = 4 * ?n + 8" using length_addrs [OF bs(3)] bs(2) by (simp add: w_def)
  have f: "fits vrrpv2_fmt (?vs x)" if "0 \<le> x" "x < 65536" for x
    using r v au that by (simp add: vrrpv2_fmt_def)
  have pb: "pack_bytes vrrpv2_fmt (?vs x) = a @ be_bytes 2 x" for x by (simp add: vrrpv2_fmt_def a_def)
  have pk: "pack vrrpv2_fmt (?vs 0) = Inr (a @ [0, 0])" using pack_fits [OF f [of 0]] by (simp add: pb be_bytes2_zero)
  have z: "(0::int) \<le> 0" by simp
  define x where "x = checksum_spec (a @ [0, 0] @ w)"
  have x: "0 \<le> x" "x < 65536" using checksum_spec_bounds [of "a @ [0, 0] @ w"] by (simp_all add: x_def)
  have len: "length (a @ [0, 0] @ w) \<le> 131070" "length (a @ be_bytes 2 x @ w) \<le> 131070"
    using la lw r(8) by simp_all
  let ?buf = "a @ be_bytes 2 x @ w"
  let ?h' = "h\<lparr>vr_checksum := Some x\<rparr>"
  have au_pack: "pack [fI, fI] [VI a1, VI a2] = Inr (be_bytes 4 a1 @ be_bytes 4 a2)"
    using pack_fits [of "[fI, fI]" "[VI a1, VI a2]"] au by simp
  have h0: "h\<lparr>vr_checksum := Some c, vr_auth_type := Some aty, vr_auth_data := Some (a1, a2)\<rparr> = h\<lparr>vr_checksum := Some c\<rparr>" for c
    using au by (cases h) simp
  have ck: "checksum le (a @ [0, 0] @ w) = x" using checksum_eq_spec [OF len(1), of le] by (simp add: x_def)
  have into: "pack_into [fH] [VI x] 6 (a @ [0, 0] @ w) = Inr ?buf" by (rule checksum_at_6 [OF la x])
  have ser: "vrrp_serialize le A h prev = Inr (?buf, ?h')"
  proof -
    have "vrrpv2_serialize le A h = Inr (?buf, ?h')"
      unfolding vrrpv2_serialize_def
      using pk addrs_codec(1) [OF bs(3)] au_pack ck into
      by (simp add: v(2) r(9,10) or_default_def au(1,4) Let_def h0 vt(1) v(1) bs(1,2) flip: w_def)
    then show ?thesis by (simp add: vrrp_serialize_def v(1) VRRP_VERSION_V2_def)
  qed
  have again: "vrrp_serialize le A ?h' prev = Inr (?buf, ?h')"
  proof -
    have "vrrpv2_serialize le A ?h' = Inr (?buf, ?h')"
      unfolding vrrpv2_serialize_def
      using pack_fits [OF f [OF x]] pb [of x] addrs_codec(1) [OF bs(3)] au_pack
      by (simp add: v(2) r(9) or_default_def au(1,4) Let_def h0 vt(1) v(1) bs(1,2) flip: w_def)
    then show ?thesis by (simp add: vrrp_serialize_def v(1) VRRP_VERSION_V2_def)
  qed
  have parse: "vrrp_parser A (?buf @ rest) = Inr (vrrp_received ?h', rest)" for rest
  proof -
    have u: "unpack_from vrrpv2_fmt (?buf @ rest) = Inr (?vs x)"
      using unpack_from_pack_bytes [OF f [OF x], of "w @ rest"] by (simp add: pb)
    have u1: "unpack_from [fB] (?buf @ rest) = Inr [VI (32 + vr_type h)]"
      using unpack_from_pack_bytes [of "[fB]" "[VI (32 + vr_type h)]" "drop 1 (?buf @ rest)"] r by (simp add: a_def)
    have d: "drop 8 (?buf @ rest) = concat bs @ (be_bytes 4 a1 @ be_bytes 4 a2 @ rest)" using la by (simp add: w_def)
    have d2: "drop (8 + 4 * ?n) (?buf @ rest) = be_bytes 4 a1 @ be_bytes 4 a2 @ rest"
      using la length_addrs [OF bs(3)] bs(2) by (simp add: w_def)
    have ua: "unpack_from (replicate ?n (FS 4)) (drop 8 (?buf @ rest)) = Inr (map VS bs)"
      unfolding d using addrs_codec(2) [OF bs(3)] bs(2) by simp
    have uu: "unpack_from [fI, fI] (drop (8 + 4 * ?n) (?buf @ rest)) = Inr [VI a1, VI a2]"
      unfolding d2 using unpack_from_pack_bytes [of "[fI, fI]" "[VI a1, VI a2]" rest] au by simp
    have i6: "is_ipv6 A (hd (vr_ip_addresses h)) = Inr False" by (rule is_ipv6_canon4 [OF A v(5) r(7)])
    have init: "vrrp_init A 2 (vr_type h) (vr_vrid h) (vr_priority h) (int ?n) (vr_max_adver_int h) (Some x)
        (vr_ip_addresses h) (Some aty) (Some (a1, a2)) = Inr (vrrp_received ?h')"
      unfolding vrrp_init_eq [OF r(7) refl i6] using v r au by (cases h) (simp add: vrrp_received_def)
    have ln: "drop (vrrp_len (vrrp_received ?h')) (?buf @ rest) = rest"
      using la lw by (simp add: vrrp_len_def vrrp_received_def v(1) VRRP_VERSION_V2_def r(9))
    have "vrrpv2_parser A (?buf @ rest) = Inr (vrrp_received ?h', rest)"
      unfolding vrrpv2_parser_def u by (simp add: vt(2) ua uu map_vs_bytes bs(4) init ln Let_def o_def del: drop_append append_assoc)
    then show ?thesis unfolding vrrp_parser_def u1 by (simp add: vt(2) VRRP_VERSION_V2_def)
  qed
  have "vrrp_checksum_ok le' A ?h' ip ?buf = Inr True" for le' ip
    using checksum_spec_inserted [of a x w] la checksum_eq_spec [OF len(2), of le']
    by (simp add: vrrp_checksum_ok_def v(1) VRRP_VERSION_V2_def x_def)
  moreover have "length ?buf = vrrp_len h" using la lw by (simp add: vrrp_len_def v(1) VRRP_VERSION_V2_def r(9))
  ultimately show ?thesis using ser parse again by (intro exI [of _ ?buf] exI [of _ ?h']) simp
qed

section \<open>Version 3\<close>

lemma vrrpv3_codec:
  assumes A: "addrconv_ok A" and wf: "vrrpv3_wf A h"
    and prv: "prev = (if vr_is_ipv6 h then PrevIPv6 ip else PrevIPv4 ip)"
    and ps: "pseudo_header A ip (int (vrrp_len h)) = Inr ps"
  shows "\<exists>buf h'. vrrp_serialize le A h prev = Inr (buf, h') \<and> h' = h\<lparr>vr_checksum := vr_checksum h'\<rparr> \<and>
    length buf = vrrp_len h \<and> vrrp_parser A buf = Inr (vrrp_received h', []) \<and>
    (\<forall>le'. vrrp_checksum_ok le' A h' ip buf = Inr True) \<and>
    vrrp_serialize le A h' prev = Inr (buf, h')"
proof -
  let ?n = "length (vr_ip_addresses h)"
  define k :: nat where "k = (if vr_is_ipv6 h then 16 else 4)"
  define conv where "conv = (if vr_is_ipv6 h then ip6_to_bin A else ip4_to_bin A)"
  define totext where "totext = (if vr_is_ipv6 h then ip6_to_text A else ip4_to_text A)"
  from wf have c: "vrrp_common h" and v: "vr_version h = 3" "0 \<le> vr_max_adver_int h" "vr_max_adver_int h < 4096"
    "vr_auth_type h = None" "vr_auth_data h = None"
    by (simp_all add: vrrpv3_wf_def VRRP_VERSION_V3_def)
  from c have r: "0 \<le> vr_type h" "vr_type h < 16" "0 \<le> vr_vrid h" "vr_vrid h < 256" "0 \<le> vr_priority h"
    "vr_priority h < 256" "vr_ip_addresses h \<noteq> []" "?n < 256" "vr_count_ip h = int ?n" "vr_checksum h = None"
    by (simp_all add: vrrp_common_def)
  have n0: "0 < ?n" using r(7) by simp
  have each: "\<forall>ip \<in> set (vr_ip_addresses h). \<exists>b. conv ip = Inr b \<and> length b = k \<and> totext b = ip"
    proof (cases "vr_is_ipv6 h")
    case True
    then have "list_all (canon_ip6 A) (vr_ip_addresses h)" using wf by (simp add: vrrpv3_wf_def)
    from canon_ip6_each [OF A this] True show ?thesis by (simp add: conv_def totext_def k_def)
  next
    case False
    then have "list_all (canon_ip4 A) (vr_ip_addresses h)" using wf by (simp add: vrrpv3_wf_def)
    from canon_ip4_each [OF A this] False show ?thesis by (simp add: conv_def totext_def k_def)
  qed
  have i6: "is_ipv6 A (hd (vr_ip_addresses h)) = Inr (vr_is_ipv6 h)"
    using wf is_ipv6_canon4 [OF A _ r(7)] by (cases "vr_is_ipv6 h") (simp_all add: vrrpv3_wf_def)
  obtain bs where bs: "res_map conv (vr_ip_addresses h) = Inr bs" "length bs = ?n" "\<forall>b \<in> set bs. length b = k"
    "map totext bs = vr_ip_addresses h" using res_map_addrs [OF each] by blast
  note vt = version_type_parts [of 3, OF _ r(1,2), simplified]
  let ?vs = "\<lambda>x. [VI (48 + vr_type h), VI (vr_vrid h), VI (vr_priority h), VI (int ?n), VI (vr_max_adver_int h), VI x]"
  define a where "a = be_bytes 1 (48 + vr_type h) @ be_bytes 1 (vr_vrid h) @ be_bytes 1 (vr_priority h) @
    be_bytes 1 (int ?n) @ be_bytes 2 (vr_max_adver_int h)"
  define w where "w = concat bs"
  have la: "length a = 6" by (simp add: a_def)
  have lw: "length w = k * ?n" using length_addrs [OF bs(3)] bs(2) by (simp add: w_def)
  have k: "k = 4 \<or> k = 16" by (simp add: k_def)
  have f: "fits vrrpv3_fmt (?vs x)" if "0 \<le> x" "x < 65536" for x
    using r v that by (simp add: vrrpv3_fmt_def)
  have pb: "pack_bytes vrrpv3_fmt (?vs x) = a @ be_bytes 2 x" for x by (simp add: vrrpv3_fmt_def a_def)
  have pk: "pack vrrpv3_fmt (?vs 0) = Inr (a @ [0, 0])" using pack_fits [OF f [of 0]] by (simp add: pb be_bytes2_zero)
  have lps: "length ps = 12 \<or> length ps = 40" by (rule length_pseudo_header [OF ps])
  define x where "x = checksum_spec ((ps @ a) @ [0, 0] @ w)"
  have x: "0 \<le> x" "x < 65536" using checksum_spec_bounds [of "(ps @ a) @ [0, 0] @ w"] by (simp_all add: x_def)
  have len: "length (ps @ a @ [0, 0] @ w) \<le> 131070" "length (ps @ a @ be_bytes 2 x @ w) \<le> 131070"
    using la lw r(8) k lps by auto
  let ?buf = "a @ be_bytes 2 x @ w"
  let ?h' = "h\<lparr>vr_checksum := Some x\<rparr>"
  have vl: "vrrp_len h = 8 + k * ?n" by (simp add: vrrp_len_def v(1) VRRP_VERSION_V2_def r(9) k_def)
  have ck: "checksum le (ps @ a @ [0, 0] @ w) = x" using checksum_eq_spec [OF len(1), of le] by (simp add: x_def)
  have ci: "checksum_ip le A ip (int (length (a @ [0, 0] @ w))) (a @ [0, 0] @ w) = Inr x"
    using ps ck by (simp add: checksum_ip_def la lw vl)
  have into: "pack_into [fH] [VI x] 6 (a @ [0, 0] @ w) = Inr ?buf" by (rule checksum_at_6 [OF la x])
  have cv: "(case prev of PrevIPv4 ip \<Rightarrow> Inr (ip4_to_bin A, 4 :: nat, ip)
       | PrevIPv6 ip \<Rightarrow> Inr (ip6_to_bin A, 16, ip) | PrevOther \<Rightarrow> Inl ValueError) = Inr (conv, k, ip)"
    using prv by (simp add: conv_def k_def)
  have adr: "pack (replicate ?n (FS k)) (map VS bs) = Inr w" using addrs_codec(1) [OF bs(3)] bs(2) by (simp add: w_def)
  have ser: "vrrp_serialize le A h prev = Inr (?buf, ?h')"
  proof -
    have "vrrpv3_serialize le A h prev = Inr (?buf, ?h')"
      unfolding vrrpv3_serialize_def cv
      using pk adr ci into v(3)
      by (simp add: r(9,10) or_default_def Let_def vt(1) v(1) bs(1) VRRP_V3_MAX_ADVER_INT_MASK_def)
    then show ?thesis by (simp add: vrrp_serialize_def v(1) VRRP_VERSION_V2_def VRRP_VERSION_V3_def)
  qed
  have again: "vrrp_serialize le A ?h' prev = Inr (?buf, ?h')"
  proof -
    have "vrrpv3_serialize le A ?h' prev = Inr (?buf, ?h')"
      unfolding vrrpv3_serialize_def cv
      using pack_fits [OF f [OF x]] pb [of x] adr v(3)
      by (simp add: r(9) or_default_def Let_def vt(1) v(1) bs(1) VRRP_V3_MAX_ADVER_INT_MASK_def)
    then show ?thesis by (simp add: vrrp_serialize_def v(1) VRRP_VERSION_V2_def VRRP_VERSION_V3_def)
  qed
  have parse: "vrrp_parser A ?buf = Inr (vrrp_received ?h', [])"
  proof -
    have u: "unpack_from vrrpv3_fmt ?buf = Inr (?vs x)"
      using unpack_from_pack_bytes [OF f [OF x], of w] by (simp add: pb)
    have u1: "unpack_from [fB] ?buf = Inr [VI (48 + vr_type h)]"
      using unpack_from_pack_bytes [of "[fB]" "[VI (48 + vr_type h)]" "drop 1 ?buf"] r by (simp add: a_def)
    have al: "(int (length ?buf) - 8) div int ?n = int k" using la lw n0 by simp
    have d: "drop 8 ?buf = concat bs @ []" using la by (simp add: w_def)
    have ua: "unpack_from (replicate ?n (FS k)) (drop 8 ?buf) = Inr (map VS bs)"
      unfolding d using addrs_codec(2) [OF bs(3), of "[]"] bs(2) by simp
    have m: "vr_max_adver_int h AND VRRP_V3_MAX_ADVER_INT_MASK = vr_max_adver_int h"
      using v(2,3) by (simp add: VRRP_V3_MAX_ADVER_INT_MASK_def mask_simps)
    have tx: "k = 4 \<Longrightarrow> map ((\<lambda>a. ip4_to_text A (vs_bytes a)) \<circ> VS) bs = vr_ip_addresses h"
      "k \<noteq> 4 \<Longrightarrow> map ((\<lambda>a. ip6_to_text A (vs_bytes a)) \<circ> VS) bs = vr_ip_addresses h"
      using bs(4) by (cases "vr_is_ipv6 h"; simp add: k_def totext_def comp_def)+
    have init: "vrrp_init A 3 (vr_type h) (vr_vrid h) (vr_priority h) (int ?n) (vr_max_adver_int h) (Some x)
        (vr_ip_addresses h) None None = Inr (vrrp_received ?h')"
      unfolding vrrp_init_eq [OF r(7) refl i6] using v r by (cases h) (simp add: vrrp_received_def)
    have "vrrp_len (vrrp_received ?h') = vrrp_len h" by (simp add: vrrp_len_def vrrp_received_def)
    then have ln: "drop (vrrp_len (vrrp_received ?h')) ?buf = []" using la lw vl by simp
    have "vrrpv3_parser A ?buf = Inr (vrrp_received ?h', [])"
      unfolding vrrpv3_parser_def u using n0 k
      by (simp add: vt(2) al ua m tx init ln Let_def del: drop_append append_assoc length_append)
    then show ?thesis unfolding vrrp_parser_def u1 by (simp add: vt(2) VRRP_VERSION_V2_def VRRP_VERSION_V3_def)
  qed
  have "vrrp_checksum_ok le' A ?h' ip ?buf = Inr True" for le'
  proof -
    have "checksum le' (ps @ ?buf) = 0"
      using checksum_spec_inserted [of "ps @ a" x w] la lps checksum_eq_spec [OF len(2), of le'] by (auto simp: x_def)
    moreover have "vrrp_len ?h' = vrrp_len h" by (simp add: vrrp_len_def)
    ultimately show ?thesis using ps
      by (simp add: vrrp_checksum_ok_def v(1) VRRP_VERSION_V2_def VRRP_VERSION_V3_def checksum_ip_def)
  qed
  moreover have "length ?buf = vrrp_len h" using la lw by (simp add: vl)
  ultimately show ?thesis using ser parse again by (intro exI [of _ ?buf] exI [of _ ?h']) simp
qed

section \<open>Packets the parsers do not survive\<close>

text \<open>A count of zero addresses raises an exception that the packet parser does not catch.\<close>

lemma vrrp_zero_count:
  assumes "8 \<le> length buf" "uint (buf ! 0) div 16 = 3" "buf ! 3 = 0"
  shows "vrrp_parser A buf = Inl (RyuError ''ZeroDivisionError'')"
proof -
  obtain b0 b1 b2 b3 b4 b5 b6 b7 rest where b: "buf = b0 # b1 # b2 # b3 # b4 # b5 # b6 # b7 # rest"
    using assms(1) by (auto simp: numeral_eq_Suc Suc_le_length_iff)
  have v: "fst (vrrp_from_version_type (uint b0)) = 3"
    using assms(2) by (simp add: b vrrp_from_version_type_def drop_bit_eq_div)
  have be1: "be_int [y] = uint y" for y using be_int_snoc [of "[]" y] by simp
  have "vrrpv3_parser A buf = Inl (RyuError ''ZeroDivisionError'')"
    using assms(3) by (simp add: vrrpv3_parser_def unpack_from_def vrrpv3_fmt_def b be1 Let_def split: prod.splits)
  moreover obtain t where "vrrp_from_version_type (uint b0) = (3, t)"
    using v by (cases "vrrp_from_version_type (uint b0)") simp
  ultimately show ?thesis
    by (simp add: vrrp_parser_def unpack_from_def b be1 VRRP_VERSION_V2_def VRRP_VERSION_V3_def)
qed

end
