(* ===== verification/Addr_Text.thy ===== *)
theory Addr_Text
  imports Py_Struct
begin

text \<open>
  Texts of addresses and identifiers: \<^verbatim>\<open>ryu/lib/mac.py\<close>, \<^verbatim>\<open>dpid.py\<close>, \<^verbatim>\<open>port_no.py\<close>, \<^verbatim>\<open>ip.py\<close>
  and the integer descriptors and type dispatcher of \<^verbatim>\<open>type_desc.py\<close>, with the parts of
  Python's \<^verbatim>\<open>int(s, 16)\<close>, \<^verbatim>\<open>str.split\<close> and \<^verbatim>\<open>'%x'\<close> they use.

  The last section gives one concrete address converter (lower-case MAC texts, dotted IPv4,
  uncompressed IPv6), shows that it satisfies the contract \<^const>\<open>addrconv_ok\<close> the header
  classes rely on, and interprets the converter locales on it.
\<close>

section \<open>Python text primitives\<close>

fun py_split :: "'a \<Rightarrow> 'a list \<Rightarrow> 'a list list" where
  "py_split c [] = [[]]"
| "py_split c (x # xs) =
     (if x = c then [] # py_split c xs
      else (case py_split c xs of [] \<Rightarrow> [[x]] | y # ys \<Rightarrow> (x # y) # ys))"

fun py_join :: "'a \<Rightarrow> 'a list list \<Rightarrow> 'a list" where
  "py_join c [] = []"
| "py_join c [p] = p"
| "py_join c (p # q # ps) = p @ c # py_join c (q # ps)"

lemma py_split_single: "c \<notin> set p \<Longrightarrow> py_split c p = [p]"
  by (induction p) auto

lemma py_split_append: "c \<notin> set p \<Longrightarrow> py_split c (p @ c # q) = p # py_split c q"
  by (induction p) auto

lemma py_split_join:
  "ps \<noteq> [] \<Longrightarrow> (\<And>p. p \<in> set ps \<Longrightarrow> c \<notin> set p) \<Longrightarrow> py_split c (py_join c ps) = ps"
  by (induction c ps rule: py_join.induct) (simp_all add: py_split_single py_split_append)

definition hexdig :: "nat \<Rightarrow> char" where
  "hexdig k = char_of (if k < 10 then 48 + k else 87 + k)"

definition hexval :: "char \<Rightarrow> nat option" where
  "hexval c = (let k = of_char c :: nat in
     if 48 \<le> k \<and> k \<le> 57 then Some (k - 48)
     else if 97 \<le> k \<and> k \<le> 102 then Some (k - 87)
     else if 65 \<le> k \<and> k \<le> 70 then Some (k - 55) else None)"

lemma hexval_hexdig [simp]: "k < 16 \<Longrightarrow> hexval (hexdig k) = Some k"
  by (auto simp: hexval_def hexdig_def Let_def)

lemma hexval_less: "hexval c = Some k \<Longrightarrow> k < 16"
  by (auto simp: hexval_def Let_def split: if_splits)

definition all_hex :: "string \<Rightarrow> bool" where
  "all_hex s = list_all (\<lambda>c. hexval c \<noteq> None) s"

definition hexnum :: "string \<Rightarrow> nat" where
  "hexnum s = foldl (\<lambda>a c. a * 16 + the (hexval c)) 0 s"

lemma all_hex_simps [simp]:
  "all_hex []" "all_hex (c # s) \<longleftrightarrow> hexval c \<noteq> None \<and> all_hex s"
  "all_hex (s @ t) \<longleftrightarrow> all_hex s \<and> all_hex t"
  by (simp_all add: all_hex_def)

lemma hexnum_snoc [simp]: "hexnum (s @ [c]) = hexnum s * 16 + the (hexval c)"
  by (simp add: hexnum_def)

lemma hexnum_Nil [simp]: "hexnum [] = 0"
  by (simp add: hexnum_def)

text \<open>\<^verbatim>\<open>'%x' % n\<close> for a natural number, and \<^verbatim>\<open>'%0<w>x' % i\<close>: the sign counts for the width.\<close>

fun hex_min :: "nat \<Rightarrow> string" where
  "hex_min n = (if n < 16 then [hexdig n] else hex_min (n div 16) @ [hexdig (n mod 16)])"

declare hex_min.simps [simp del]

definition fmt_0x :: "nat \<Rightarrow> int \<Rightarrow> string" where
  "fmt_0x w i = (let ds = hex_min (nat \<bar>i\<bar>) in
     if i < 0 then CHR ''-'' # replicate (w - 1 - length ds) CHR ''0'' @ ds
     else replicate (w - length ds) CHR ''0'' @ ds)"

text \<open>
  \<^verbatim>\<open>int(s, 16)\<close> on an ASCII text: surrounding white space, a sign, the prefix \<^verbatim>\<open>0x\<close>, and single
  underscores between digits are accepted; anything else is a \<^verbatim>\<open>ValueError\<close>.
\<close>

definition py_space :: "char \<Rightarrow> bool" where
  "py_space c = (let k = of_char c :: nat in k = 32 \<or> 9 \<le> k \<and> k \<le> 13)"

fun hex_body :: "nat \<Rightarrow> string \<Rightarrow> nat option" where
  "hex_body a [] = Some a"
| "hex_body a (c # r) =
     (if c = CHR ''_''
      then (case r of [] \<Rightarrow> None
            | d # _ \<Rightarrow> (case hexval d of None \<Rightarrow> None | Some _ \<Rightarrow> hex_body a r))
      else (case hexval c of None \<Rightarrow> None | Some v \<Rightarrow> hex_body (a * 16 + v) r))"

definition hex_start :: "string \<Rightarrow> nat option" where
  "hex_start s = (case s of [] \<Rightarrow> None
     | c # _ \<Rightarrow> (case hexval c of None \<Rightarrow> None | Some _ \<Rightarrow> hex_body 0 s))"

definition hex_prefix :: "string \<Rightarrow> string" where
  "hex_prefix s = (case s of
       z # x # r \<Rightarrow>
         if z = CHR ''0'' \<and> (x = CHR ''x'' \<or> x = CHR ''X'')
         then (case r of [] \<Rightarrow> [] | u # r' \<Rightarrow> if u = CHR ''_'' then r' else r) else s
     | _ \<Rightarrow> s)"

definition py_int16 :: "string \<Rightarrow> int res" where
  "py_int16 t =
     (let s = dropWhile py_space (rev (dropWhile py_space (rev t)));
          neg = (s \<noteq> [] \<and> hd s = CHR ''-'');
          u = (if s \<noteq> [] \<and> (hd s = CHR ''-'' \<or> hd s = CHR ''+'') then tl s else s)
      in case hex_start (hex_prefix u) of None \<Rightarrow> Inl ValueError
         | Some v \<Rightarrow> Inr (if neg then - int v else int v))"

lemma hexval_special [simp]:
  "hexval CHR ''_'' = None" "hexval CHR ''x'' = None" "hexval CHR ''X'' = None"
  "hexval CHR ''-'' = None" "hexval CHR ''+'' = None" "hexval CHR '':'' = None"
  "hexval CHR ''.'' = None" "hexval CHR ''0'' = Some 0"
  by (simp_all add: hexval_def)

lemma hexval_not_space: "hexval c \<noteq> None \<Longrightarrow> \<not> py_space c"
  by (auto simp: hexval_def py_space_def Let_def split: if_splits)

lemma hex_body_digits:
  "all_hex s \<Longrightarrow> hex_body a s = Some (foldl (\<lambda>a c. a * 16 + the (hexval c)) a s)"
  by (induction s arbitrary: a) auto

lemma dropWhile_hex: "all_hex s \<Longrightarrow> dropWhile py_space s = s"
  by (cases s) (simp_all add: hexval_not_space)

lemma all_hex_rev [simp]: "all_hex (rev s) = all_hex s"
  by (simp add: all_hex_def list_all_iff)

lemma hex_prefix_digits: "all_hex s \<Longrightarrow> hex_prefix s = s"
  by (auto simp: hex_prefix_def split: list.splits)

lemma py_int16_digits:
  assumes "all_hex s" "s \<noteq> []"
  shows "py_int16 s = Inr (int (hexnum s))"
proof -
  have h: "hd s \<noteq> CHR ''-''" "hd s \<noteq> CHR ''+''" using assms by (cases s; auto)+
  have st: "hex_start s = Some (hexnum s)"
    using assms hex_body_digits [OF assms(1), of 0]
    by (cases s) (auto simp: hex_start_def hexnum_def)
  show ?thesis
    using assms h st by (simp add: py_int16_def Let_def dropWhile_hex hex_prefix_digits)
qed

lemma hex_min_props:
  "all_hex (hex_min n) \<and> hex_min n \<noteq> [] \<and> hexnum (hex_min n) = n"
proof (induction n rule: hex_min.induct)
  case (1 n)
  show ?case
  proof (cases "n < 16")
    case True
    then show ?thesis using hexnum_snoc [of "[]" "hexdig n"] by (simp add: hex_min.simps)
  next
    case False
    with 1 have "hexnum (hex_min (n div 16)) = n div 16" "all_hex (hex_min (n div 16))" by auto
    with False show ?thesis by (simp add: hex_min.simps [of n])
  qed
qed

lemma hexnum_zeros: "hexnum (replicate k CHR ''0'' @ s) = hexnum s"
  by (induction k) (simp_all add: hexnum_def)

lemma all_hex_zeros [simp]: "all_hex (replicate k CHR ''0'')"
  by (simp add: all_hex_def list_all_length)

lemma fmt_0x_reads_back: "0 \<le> i \<Longrightarrow> py_int16 (fmt_0x w i) = Inr i"
  using hex_min_props [of "nat i"]
  by (simp add: fmt_0x_def Let_def py_int16_digits hexnum_zeros)

lemma length_hex_min: "n < 16 ^ Suc k \<Longrightarrow> length (hex_min n) \<le> Suc k"
proof (induction n arbitrary: k rule: hex_min.induct)
  case (1 n)
  show ?case
  proof (cases "n < 16")
    case True
    then show ?thesis by (simp add: hex_min.simps [of n])
  next
    case False
    then obtain j where k: "k = Suc j" using 1(2) by (cases k) auto
    then have "n div 16 < 16 ^ Suc j" using 1(2) by (simp add: less_mult_imp_div_less)
    with 1(1) [OF False] k False show ?thesis by (simp add: hex_min.simps [of n])
  qed
qed

lemma length_fmt_0x:
  "0 \<le> i \<Longrightarrow> i < 16 ^ w \<Longrightarrow> 0 < w \<Longrightarrow> length (fmt_0x w i) = w"
  using length_hex_min [of "nat i" "w - 1"] by (simp add: fmt_0x_def Let_def nat_less_iff)

section \<open>Datapath and port identifiers\<close>

definition dpid_to_str :: "int \<Rightarrow> string" where
  "dpid_to_str dpid = fmt_0x 16 dpid"

definition str_to_dpid :: "string \<Rightarrow> int res" where
  "str_to_dpid s = res_bind (assertR (length s = 16)) (\<lambda>_. py_int16 s)"

definition port_no_to_str :: "int \<Rightarrow> string" where
  "port_no_to_str port_no = fmt_0x 8 port_no"

definition str_to_port_no :: "string \<Rightarrow> int res" where
  "str_to_port_no s = res_bind (assertR (length s = 8)) (\<lambda>_. py_int16 s)"

lemma dpid_reads_back:
  "0 \<le> d \<Longrightarrow> d < 2 ^ 64 \<Longrightarrow> str_to_dpid (dpid_to_str d) = Inr d"
  by (simp add: str_to_dpid_def dpid_to_str_def length_fmt_0x fmt_0x_reads_back)

lemma port_no_reads_back:
  "0 \<le> p \<Longrightarrow> p < 2 ^ 32 \<Longrightarrow> str_to_port_no (port_no_to_str p) = Inr p"
  by (simp add: str_to_port_no_def port_no_to_str_def length_fmt_0x fmt_0x_reads_back)

lemma hexnum_less: "all_hex s \<Longrightarrow> hexnum s < 16 ^ length s"
proof (induction s rule: rev_induct)
  case Nil
  show ?case by simp
next
  case (snoc c s)
  then obtain k where "hexval c = Some k" by auto
  with snoc hexval_less [of c k] show ?case by simp
qed

lemma dpid_too_wide:
  assumes "2 ^ 64 \<le> d"
  shows "str_to_dpid (dpid_to_str d) = Inl AssertionError"
proof -
  let ?s = "hex_min (nat d)"
  have "\<not> length ?s \<le> 16"
  proof
    assume "length ?s \<le> 16"
    then have "(16 :: int) ^ length ?s \<le> 16 ^ 16" by (rule power_increasing) simp
    moreover have "nat d < 16 ^ length ?s"
      using hexnum_less [of ?s] hex_min_props [of "nat d"] by simp
    ultimately show False using assms by simp
  qed
  with assms show ?thesis
    by (simp add: str_to_dpid_def dpid_to_str_def fmt_0x_def Let_def assertR_def)
qed

section \<open>Integer descriptors\<close>

text \<open>
  \<^verbatim>\<open>IntDescr\<close> of \<^verbatim>\<open>type_desc.py\<close>, loop by loop: \<^verbatim>\<open>to_user\<close> takes \<open>size\<close> bytes from the front
  (\<^verbatim>\<open>ord(b'')\<close> raises \<^verbatim>\<open>TypeError\<close>), \<^verbatim>\<open>from_user\<close> peels \<open>size\<close> bytes from the low end.
\<close>

fun to_user_loop :: "nat \<Rightarrow> int \<Rightarrow> bytes \<Rightarrow> int res" where
  "to_user_loop 0 i binary = Inr i"
| "to_user_loop (Suc n) i binary =
     (case binary of [] \<Rightarrow> Inl TypeError
      | c # rest \<Rightarrow> to_user_loop n (i * 256 + uint c) rest)"

definition int_to_user :: "nat \<Rightarrow> bytes \<Rightarrow> int res" where
  "int_to_user sz binary = to_user_loop sz 0 binary"

fun from_user_loop :: "nat \<Rightarrow> int \<Rightarrow> bytes \<Rightarrow> bytes" where
  "from_user_loop 0 i binary = binary"
| "from_user_loop (Suc n) i binary =
     from_user_loop n (i div 256) (word_of_int (i AND 255) # binary)"

definition int_from_user :: "nat \<Rightarrow> int \<Rightarrow> bytes" where
  "int_from_user sz i = from_user_loop sz i []"

text \<open>\<^verbatim>\<open>_split_str\<close>: pieces of \<open>n\<close> bytes, the last one shorter when the length is no multiple.\<close>

function split_str :: "nat \<Rightarrow> 'a list \<Rightarrow> 'a list list" where
  "split_str n s = (if n = 0 \<or> s = [] then [] else take n s # split_str n (drop n s))"
  by pat_completeness auto
termination by (relation "measure (\<lambda>(n, s). length s)") auto

declare split_str.simps [simp del]

fun res_list :: "('a \<Rightarrow> 'b res) \<Rightarrow> 'a list \<Rightarrow> 'b list res" where
  "res_list f [] = Inr []"
| "res_list f (x # xs) = res_bind (f x) (\<lambda>y. res_bind (res_list f xs) (\<lambda>ys. Inr (y # ys)))"

definition mlt_to_user :: "nat \<Rightarrow> nat \<Rightarrow> bytes \<Rightarrow> int list res" where
  "mlt_to_user len num binary =
     res_bind (assertR (length binary = len * num)) (\<lambda>_.
     res_list (int_to_user len) (split_str len binary))"

definition mlt_from_user :: "nat \<Rightarrow> nat \<Rightarrow> int list \<Rightarrow> bytes res" where
  "mlt_from_user len num li =
     res_bind (assertR (length li = num)) (\<lambda>_. Inr (concat (map (int_from_user len) li)))"

lemma from_user_loop_be: "from_user_loop n i bs = be_bytes n i @ bs"
proof (induction n arbitrary: i bs)
  case (Suc n)
  have "(word_of_int (i AND 255) :: byte) = word_of_int i"
    by (rule word_uint_eqI) (simp add: uint_word_of_int_byte and_masks)
  with Suc show ?case by simp
qed simp

lemma int_from_user_be: "int_from_user n i = be_bytes n i"
  by (simp add: int_from_user_def from_user_loop_be)

lemma to_user_loop_foldl:
  "n \<le> length bs \<Longrightarrow> to_user_loop n i bs = Inr (foldl (\<lambda>a b. a * 256 + uint b) i (take n bs))"
  by (induction n arbitrary: i bs) (auto split: list.splits simp: Suc_le_length_iff)

lemma int_to_user_be: "n \<le> length bs \<Longrightarrow> int_to_user n bs = Inr (be_int (take n bs))"
  by (simp add: int_to_user_def be_int_def to_user_loop_foldl)

lemma int_to_user_short: "length bs < n \<Longrightarrow> int_to_user n bs = Inl TypeError"
proof -
  have "length bs < n \<Longrightarrow> to_user_loop n i bs = Inl TypeError" for i
    by (induction n arbitrary: i bs) (auto split: list.splits)
  then show "length bs < n \<Longrightarrow> ?thesis" by (simp add: int_to_user_def)
qed

lemma int_descr_codec:
  "int_to_user n (int_from_user n i @ rest) = Inr (i mod 256 ^ n)"
  by (simp add: int_from_user_be int_to_user_be be_int_be_bytes_mod)

lemma int_descr_back: "length bs = n \<Longrightarrow> int_to_user n bs = Inr i \<Longrightarrow> int_from_user n i = bs"
  by (auto simp: int_from_user_be int_to_user_be be_bytes_be_int)

lemma split_str_concat:
  "0 < n \<Longrightarrow> (\<And>p. p \<in> set ps \<Longrightarrow> length p = n) \<Longrightarrow> split_str n (concat ps) = ps"
proof (induction ps)
  case Nil
  show ?case by (simp add: split_str.simps)
next
  case (Cons p ps)
  from Cons.prems have "length p = n" "p \<noteq> []" by auto
  with Cons show ?case by (simp add: split_str.simps [of n "p @ concat ps"])
qed

lemma res_list_map_Inr:
  "(\<And>x. x \<in> set xs \<Longrightarrow> f x = Inr (g x)) \<Longrightarrow> res_list f xs = Inr (map g xs)"
  by (induction xs) auto

lemma length_concat_be: "length (concat (map (be_bytes len) li)) = len * length li"
  by (induction li) simp_all

lemma mlt_codec:
  assumes "0 < len" "length li = num"
  shows "\<exists>b. mlt_from_user len num li = Inr b \<and> length b = len * num \<and>
    mlt_to_user len num b = Inr (map (\<lambda>i. i mod 256 ^ len) li)"
proof (intro exI conjI)
  let ?b = "concat (map (be_bytes len) li)"
  have e: "int_from_user len = be_bytes len" by (rule ext) (rule int_from_user_be)
  show "mlt_from_user len num li = Inr ?b" using assms by (simp add: mlt_from_user_def e)
  show l: "length ?b = len * num" using assms by (simp add: length_concat_be)
  have s: "split_str len ?b = map (be_bytes len) li"
    using assms by (intro split_str_concat) auto
  have "res_list (int_to_user len) (map (be_bytes len) li) =
      Inr (map be_int (map (be_bytes len) li))"
    by (rule res_list_map_Inr) (auto simp: int_to_user_be)
  with s l show "mlt_to_user len num ?b = Inr (map (\<lambda>i. i mod 256 ^ len) li)"
    by (simp add: mlt_to_user_def o_def be_int_be_bytes_mod)
qed

section \<open>The type dispatcher\<close>

text \<open>
  \<^verbatim>\<open>TypeDisp\<close>: the registry of a class, the lazily built reverse registry (\<^verbatim>\<open>None\<close> until it is
  asked for, dropped by every registration) and the class of unregistered types.
\<close>

record ('k, 'c) type_disp =
  td_types :: "('k, 'c) odict"
  td_rev :: "('c, 'k) odict option"
  td_unknown :: "'c option"

definition td_empty :: "('k, 'c) type_disp" where
  "td_empty = \<lparr>td_types = [], td_rev = None, td_unknown = None\<rparr>"

definition register_unknown_type :: "'c \<Rightarrow> ('k, 'c) type_disp \<Rightarrow> ('k, 'c) type_disp" where
  "register_unknown_type subcls d = d\<lparr>td_unknown := Some subcls\<rparr>"

definition register_type :: "'k \<Rightarrow> 'c \<Rightarrow> ('k, 'c) type_disp \<Rightarrow> ('k, 'c) type_disp" where
  "register_type ty subcls d =
     d\<lparr>td_types := od_set ty subcls (td_types d), td_rev := None\<rparr>"

definition lookup_type :: "'k \<Rightarrow> ('k, 'c) type_disp \<Rightarrow> 'c option" where
  "lookup_type ty d = (case map_of (td_types d) ty of Some c \<Rightarrow> Some c | None \<Rightarrow> td_unknown d)"

definition rev_dict :: "('k, 'c) odict \<Rightarrow> ('c, 'k) odict" where
  "rev_dict ts = foldl (\<lambda>r (k, v). od_set v k r) [] ts"

definition rev_lookup_type :: "'c \<Rightarrow> ('k, 'c) type_disp \<Rightarrow> 'k res \<times> ('k, 'c) type_disp" where
  "rev_lookup_type targ d =
     (let rev = (case td_rev d of None \<Rightarrow> rev_dict (td_types d) | Some r \<Rightarrow> r)
      in (case map_of rev targ of None \<Rightarrow> Inl KeyError | Some k \<Rightarrow> Inr k, d\<lparr>td_rev := Some rev\<rparr>))"

text \<open>The invariant: the registry has one entry per type and the cached reverse is up to date.\<close>

definition td_inv :: "('k, 'c) type_disp \<Rightarrow> bool" where
  "td_inv d \<longleftrightarrow> od_wf (td_types d) \<and> (case td_rev d of None \<Rightarrow> True | Some r \<Rightarrow> r = rev_dict (td_types d))"

lemma td_inv_empty: "td_inv td_empty"
  by (simp add: td_inv_def td_empty_def)

lemma td_inv_register_unknown: "td_inv d \<Longrightarrow> td_inv (register_unknown_type c d)"
  by (simp add: td_inv_def register_unknown_type_def split: option.splits)

lemma td_inv_register: "td_inv d \<Longrightarrow> td_inv (register_type t c d)"
  by (simp add: td_inv_def register_type_def)

lemma td_inv_rev_lookup: "td_inv d \<Longrightarrow> td_inv (snd (rev_lookup_type c d))"
  by (auto simp: td_inv_def rev_lookup_type_def Let_def split: option.splits)

lemma map_of_rev_dict:
  "map_of (rev_dict ts) = map_of (rev (map (\<lambda>(k, v). (v, k)) ts))"
proof (induction ts rule: rev_induct)
  case Nil
  show ?case by (simp add: rev_dict_def)
next
  case (snoc kv ts)
  then show ?case by (cases kv) (simp add: rev_dict_def)
qed

lemma rev_lookup_result:
  "td_inv d \<Longrightarrow> fst (rev_lookup_type c d) =
     (case map_of (rev_dict (td_types d)) c of None \<Rightarrow> Inl KeyError | Some k \<Rightarrow> Inr k)"
  by (auto simp: td_inv_def rev_lookup_type_def Let_def split: option.splits)

lemma rev_lookup_sound:
  assumes "td_inv d" "fst (rev_lookup_type c d) = Inr k"
  shows "lookup_type k d = Some c"
proof -
  have "map_of (rev (map (\<lambda>(k, v). (v, k)) (td_types d))) c = Some k"
    using assms by (simp add: rev_lookup_result map_of_rev_dict split: option.splits)
  then have "(k, c) \<in> set (td_types d)" by (auto dest: map_of_SomeD)
  then have "map_of (td_types d) k = Some c"
    using assms(1) by (simp add: td_inv_def map_of_eq_Some_iff_od)
  then show ?thesis by (simp add: lookup_type_def)
qed

lemma rev_lookup_complete:
  assumes "td_inv d" "map_of (td_types d) k = Some c"
  shows "\<exists>k'. fst (rev_lookup_type c d) = Inr k'"
proof -
  have "(c, k) \<in> set (rev (map (\<lambda>(k, v). (v, k)) (td_types d)))"
    using assms(2) by (force dest: map_of_SomeD)
  then have "c \<in> fst ` set (rev (map (\<lambda>(k, v). (v, k)) (td_types d)))" by force
  then obtain k' where "map_of (rev (map (\<lambda>(k, v). (v, k)) (td_types d))) c = Some k'"
    by (metis map_of_eq_None_iff not_None_eq)
  then show ?thesis using assms(1) by (simp add: rev_lookup_result map_of_rev_dict)
qed

section \<open>MAC and IP helpers\<close>

definition mac_is_multicast :: "bytes \<Rightarrow> bool res" where
  "mac_is_multicast addr =
     (case addr of [] \<Rightarrow> Inl IndexError | b # _ \<Rightarrow> Inr (uint b AND 0x01 \<noteq> 0))"

text \<open>The converter refuses a binary address that has not six bytes; the wrapper turns every
  exception into an \<^verbatim>\<open>AssertionError\<close>.\<close>

definition haddr_to_str :: "addrconv \<Rightarrow> bytes option \<Rightarrow> string res" where
  "haddr_to_str A addr = (case addr of None \<Rightarrow> Inr ''None''
     | Some b \<Rightarrow> if length b = 6 then Inr (mac_to_text A b) else Inl AssertionError)"

definition haddr_to_int :: "string \<Rightarrow> int res" where
  "haddr_to_int addr =
     (case py_int16 (filter (\<lambda>c. c \<noteq> CHR '':'') addr) of Inl _ \<Rightarrow> Inl ValueError | Inr i \<Rightarrow> Inr i)"

definition haddr_to_bin :: "addrconv \<Rightarrow> string \<Rightarrow> bytes res" where
  "haddr_to_bin A s = (case mac_to_bin A s of Inl _ \<Rightarrow> Inl ValueError | Inr b \<Rightarrow> Inr b)"

definition haddr_bitand :: "bytes \<Rightarrow> bytes \<Rightarrow> bytes" where
  "haddr_bitand addr m = map (\<lambda>(a, b). a AND b) (zip addr m)"

definition ipv4_to_int :: "addrconv \<Rightarrow> string \<Rightarrow> int res" where
  "ipv4_to_int A ip = res_bind (ip4_to_bin A ip) (\<lambda>b.
     if length b = 4 then Inr (be_int b) else Inl StructError)"

definition ipv4_int_to_str :: "addrconv \<Rightarrow> int \<Rightarrow> string res" where
  "ipv4_int_to_str A ip = res_bind (pack [fI] [VI ip]) (\<lambda>b. Inr (ip4_to_text A b))"

definition ipv6_to_int :: "addrconv \<Rightarrow> string \<Rightarrow> int res" where
  "ipv6_to_int A ip = res_bind (ip6_to_bin A ip) (\<lambda>b. int_to_user 16 b)"

definition ipv6_int_to_str :: "addrconv \<Rightarrow> int \<Rightarrow> string" where
  "ipv6_int_to_str A ip = ip6_to_text A (int_from_user 16 ip)"

definition ip_text_to_bin :: "addrconv \<Rightarrow> string \<Rightarrow> bytes res" where
  "ip_text_to_bin A ip = (if CHR '':'' \<notin> set ip then ip4_to_bin A ip else ip6_to_bin A ip)"

definition ip_text_to_int :: "addrconv \<Rightarrow> string \<Rightarrow> int res" where
  "ip_text_to_int A ip = (if CHR '':'' \<notin> set ip then ipv4_to_int A ip else ipv6_to_int A ip)"

definition ip_bin_to_text :: "addrconv \<Rightarrow> bytes \<Rightarrow> string res" where
  "ip_bin_to_text A ip =
     (if length ip = 4 then Inr (ip4_to_text A ip)
      else if length ip = 16 then Inr (ip6_to_text A ip) else Inl StructError)"

lemma ipv4_int_codec:
  assumes "addrconv_ok A" "0 \<le> i" "i < 2 ^ 32"
  shows "\<exists>t. ipv4_int_to_str A i = Inr t \<and> ipv4_to_int A t = Inr i"
proof -
  have f: "fits [fI] [VI i]" using assms by simp
  have "pack_bytes [fI] [VI i] = be_bytes 4 i" by (simp add: eval_nat_numeral)
  with pack_fits [OF f] have p: "pack [fI] [VI i] = Inr (be_bytes 4 i)" by simp
  have "ip4_to_bin A (ip4_to_text A (be_bytes 4 i)) = Inr (be_bytes 4 i)"
    using assms(1) by (simp add: addrconv_ok_def)
  moreover have "be_int (be_bytes 4 i) = i" using assms by (intro be_int_be_bytes) simp_all
  ultimately show ?thesis unfolding ipv4_int_to_str_def ipv4_to_int_def p by simp
qed

lemma ipv6_int_codec:
  assumes "addrconv_ok A" "0 \<le> i" "i < 2 ^ 128"
  shows "ipv6_to_int A (ipv6_int_to_str A i) = Inr i"
proof -
  have "ip6_to_bin A (ip6_to_text A (be_bytes 16 i)) = Inr (be_bytes 16 i)"
    using assms(1) by (simp add: addrconv_ok_def)
  moreover have "int_to_user 16 (be_bytes 16 i) = Inr i"
    using int_descr_codec [of 16 i "[]"] assms by (simp add: int_from_user_be)
  ultimately show ?thesis by (simp add: ipv6_to_int_def ipv6_int_to_str_def int_from_user_be)
qed

section \<open>A concrete converter\<close>

text \<open>Texts made of parts joined by a separator that no part contains.\<close>

definition join_parts :: "char \<Rightarrow> ('a \<Rightarrow> string) \<Rightarrow> 'a list \<Rightarrow> string" where
  "join_parts c g xs = py_join c (map g xs)"

definition parse_parts :: "char \<Rightarrow> nat \<Rightarrow> (string \<Rightarrow> 'a option) \<Rightarrow> string \<Rightarrow> 'a list res" where
  "parse_parts c n f t = (let ps = py_split c t in
     if length ps = n \<and> list_all (\<lambda>p. f p \<noteq> None) ps then Inr (map (the \<circ> f) ps)
     else Inl ValueError)"

lemma parse_join_parts:
  assumes "\<And>x. x \<in> set xs \<Longrightarrow> f (g x) = Some x" "\<And>x. x \<in> set xs \<Longrightarrow> c \<notin> set (g x)"
    and "length xs = n" "0 < n"
  shows "parse_parts c n f (join_parts c g xs) = Inr xs"
proof -
  have s: "py_split c (join_parts c g xs) = map g xs"
    unfolding join_parts_def using assms by (intro py_split_join) auto
  have "map (the \<circ> f) (map g xs) = xs" using assms(1) by (simp add: map_idI)
  with assms s show ?thesis by (simp add: parse_parts_def list_all_iff)
qed

lemma parse_parts_length: "parse_parts c n f t = Inr xs \<Longrightarrow> length xs = n"
  by (auto simp: parse_parts_def Let_def split: if_splits)

definition hex_part :: "nat \<Rightarrow> string \<Rightarrow> int option" where
  "hex_part w p = (if p \<noteq> [] \<and> length p \<le> w \<and> all_hex p then Some (int (hexnum p)) else None)"

definition hex_byte :: "string \<Rightarrow> byte option" where
  "hex_byte p = map_option word_of_int (hex_part 2 p)"

definition byte_text :: "byte \<Rightarrow> string" where
  "byte_text b = fmt_0x 2 (uint b)"

lemma hex_part_fmt:
  assumes "0 \<le> i" "i < 16 ^ w" "0 < w"
  shows "hex_part w (fmt_0x w i) = Some i" and "hexval c = None \<Longrightarrow> c \<notin> set (fmt_0x w i)"
proof -
  have l: "length (fmt_0x w i) = w" using assms by (rule length_fmt_0x)
  have f: "fmt_0x w i = replicate (w - length (hex_min (nat i))) CHR ''0'' @ hex_min (nat i)"
    using assms by (simp add: fmt_0x_def Let_def)
  have h: "all_hex (fmt_0x w i)" "hexnum (fmt_0x w i) = nat i"
    unfolding f using hex_min_props [of "nat i"] by (simp_all add: hexnum_zeros)
  show "hex_part w (fmt_0x w i) = Some i"
    using l h assms by (auto simp: hex_part_def)
  show "hexval c = None \<Longrightarrow> c \<notin> set (fmt_0x w i)"
    using h(1) by (auto simp: all_hex_def list_all_iff)
qed

lemma hex_byte_text: "hex_byte (byte_text b) = Some b" "hexval c = None \<Longrightarrow> c \<notin> set (byte_text b)"
  using hex_part_fmt [of "uint b" 2] uint_byte_bounds [of b]
  by (simp_all add: hex_byte_def byte_text_def)

definition dec_part :: "string \<Rightarrow> byte option" where
  "dec_part p = (if p \<noteq> [] \<and> length p \<le> 3 \<and> list_all (\<lambda>c. hexval c \<noteq> None \<and> the (hexval c) < 10) p
     then (let n = foldl (\<lambda>a c. a * 10 + the (hexval c)) 0 p in
           if n < 256 then Some (word_of_int (int n)) else None)
     else None)"

definition dec_text :: "byte \<Rightarrow> string" where
  "dec_text b = (let n = unat b in
     if n < 10 then [hexdig n]
     else if n < 100 then [hexdig (n div 10), hexdig (n mod 10)]
     else [hexdig (n div 100), hexdig (n div 10 mod 10), hexdig (n mod 10)])"

lemma unat_byte_less: "unat (b :: byte) < 256"
proof -
  have "int (unat b) = uint b" by simp
  then show ?thesis using uint_byte_bounds [of b] by linarith
qed

lemma dec_part_digits:
  "a < 10 \<Longrightarrow> dec_part [hexdig a] = Some (word_of_int (int a))"
  "a < 10 \<Longrightarrow> b < 10 \<Longrightarrow> dec_part [hexdig a, hexdig b] = Some (word_of_int (int (a * 10 + b)))"
  "a < 10 \<Longrightarrow> b < 10 \<Longrightarrow> c < 10 \<Longrightarrow> (a * 10 + b) * 10 + c < 256 \<Longrightarrow>
     dec_part [hexdig a, hexdig b, hexdig c] = Some (word_of_int (int ((a * 10 + b) * 10 + c)))"
  by (simp_all add: dec_part_def)

lemma dec_text_digits:
  obtains (one) "dec_text b = [hexdig (unat b)]" "unat b < 10"
  | (two) x y where "dec_text b = [hexdig x, hexdig y]" "x < 10" "y < 10" "x * 10 + y = unat b"
  | (three) x y z where "dec_text b = [hexdig x, hexdig y, hexdig z]" "x < 10" "y < 10" "z < 10"
      "(x * 10 + y) * 10 + z = unat b"
proof -
  define n where "n = unat b"
  have n: "n < 256" unfolding n_def by (rule unat_byte_less)
  note t = dec_text_def [of b, folded n_def, unfolded Let_def]
  consider "n < 10" | "10 \<le> n" "n < 100" | "100 \<le> n" by linarith
  then show ?thesis
  proof cases
    case 1
    with t show ?thesis by (intro one) (simp_all add: n_def)
  next
    case 2
    then have d: "n div 10 < 10" "n mod 10 < 10" "n div 10 * 10 + n mod 10 = n" by simp_all
    from 2 t have "dec_text b = [hexdig (n div 10), hexdig (n mod 10)]" by simp
    from two [OF this d(1,2)] d(3) show ?thesis by (simp add: n_def)
  next
    case 3
    have d: "n div 100 < 10" "n div 10 mod 10 < 10" "n mod 10 < 10" using n by auto
    have "n div 100 = n div 10 div 10" by (simp flip: div_mult2_eq)
    then have e: "(n div 100 * 10 + n div 10 mod 10) * 10 + n mod 10 = n"
      by (simp only: div_mult_mod_eq)
    from 3 t have "dec_text b = [hexdig (n div 100), hexdig (n div 10 mod 10), hexdig (n mod 10)]"
      by simp
    from three [OF this d] e show ?thesis by (simp add: n_def)
  qed
qed

lemma hexdig_neq: "hexval c = None \<Longrightarrow> k < 10 \<Longrightarrow> c \<noteq> hexdig k"
  by auto

lemma dec_part_text: "dec_part (dec_text b) = Some b" "hexval c = None \<Longrightarrow> c \<notin> set (dec_text b)"
proof -
  have w: "word_of_int (int (unat b)) = b" by simp
  show "dec_part (dec_text b) = Some b"
  proof (cases b rule: dec_text_digits)
    case one
    then show ?thesis using dec_part_digits(1) [of "unat b"] w by metis
  next
    case (two x y)
    then show ?thesis using dec_part_digits(2) [of x y] w by metis
  next
    case (three x y z)
    then show ?thesis using dec_part_digits(3) [of x y z] unat_byte_less [of b] w by metis
  qed
  show "hexval c = None \<Longrightarrow> c \<notin> set (dec_text b)"
    by (cases b rule: dec_text_digits) (simp_all add: hexdig_neq)
qed

definition quads :: "bytes \<Rightarrow> int list" where
  "quads b = map be_int (split_str 2 b)"

definition unix_addrconv :: addrconv where
  "unix_addrconv =
    \<lparr>mac_to_bin = parse_parts CHR '':'' 6 hex_byte,
     mac_to_text = join_parts CHR '':'' byte_text,
     ip4_to_bin = parse_parts CHR ''.'' 4 dec_part,
     ip4_to_text = join_parts CHR ''.'' dec_text,
     ip6_to_bin = (\<lambda>t. res_bind (parse_parts CHR '':'' 8 (hex_part 4) t)
        (\<lambda>qs. Inr (concat (map (be_bytes 2) qs)))),
     ip6_to_text = (\<lambda>b. join_parts CHR '':'' (fmt_0x 4) (quads b))\<rparr>"

lemma length_concat_const: "(\<And>x. x \<in> set xs \<Longrightarrow> length (f x) = k) \<Longrightarrow> length (concat (map f xs)) = k * length xs"
  by (induction xs) simp_all

lemma split_str_len:
  "0 < n \<Longrightarrow> length s = n * m \<Longrightarrow>
    length (split_str n s) = m \<and> list_all (\<lambda>p. length p = n) (split_str n s) \<and> concat (split_str n s) = s"
proof (induction m arbitrary: s)
  case 0
  then show ?case by (simp add: split_str.simps)
next
  case (Suc m)
  have l: "length (drop n s) = n * m" "length (take n s) = n" "s \<noteq> []" using Suc.prems by auto
  have e: "split_str n s = take n s # split_str n (drop n s)"
    using Suc.prems(1) l(3) by (subst split_str.simps) simp
  show ?case unfolding e using Suc.IH [OF Suc.prems(1) l(1)] l(2) by simp
qed

lemma unix_ip6:
  assumes "length b = 16"
  shows "ip6_to_bin unix_addrconv (ip6_to_text unix_addrconv b) = Inr b"
proof -
  have s: "length (split_str 2 b) = 8" "\<And>p. p \<in> set (split_str 2 b) \<Longrightarrow> length p = 2"
    "concat (split_str 2 b) = b"
    using split_str_len [of 2 b 8] assms by (auto simp: list_all_iff)
  have r: "0 \<le> x \<and> x < 16 ^ 4" if "x \<in> set (quads b)" for x
  proof -
    obtain p where "p \<in> set (split_str 2 b)" "x = be_int p" using \<open>x \<in> set (quads b)\<close> by (auto simp: quads_def)
    then show ?thesis using be_int_bounds [of p] s(2) [of p] by simp
  qed
  have p: "parse_parts CHR '':'' 8 (hex_part 4) (join_parts CHR '':'' (fmt_0x 4) (quads b)) = Inr (quads b)"
    by (rule parse_join_parts) (use r hex_part_fmt in \<open>auto simp: quads_def s(1)\<close>)
  have "map (be_bytes 2) (quads b) = split_str 2 b"
    unfolding quads_def map_map using s(2) by (intro map_idI) (simp add: be_bytes_be_int)
  then show ?thesis by (simp add: unix_addrconv_def p s(3))
qed

lemma unix_addrconv_ok: "addrconv_ok unix_addrconv"
  unfolding addrconv_ok_def
proof (intro conjI allI impI)
  fix b :: bytes
  show "mac_to_bin unix_addrconv (mac_to_text unix_addrconv b) = Inr b" if "length b = 6"
    using that by (simp add: unix_addrconv_def parse_join_parts hex_byte_text)
  show "ip4_to_bin unix_addrconv (ip4_to_text unix_addrconv b) = Inr b" if "length b = 4"
    using that by (simp add: unix_addrconv_def parse_join_parts dec_part_text)
  show "ip6_to_bin unix_addrconv (ip6_to_text unix_addrconv b) = Inr b" if "length b = 16"
    using that by (rule unix_ip6)
next
  fix t b
  show "length b = 6" if "mac_to_bin unix_addrconv t = Inr b"
    using that parse_parts_length [of "CHR '':''" 6 hex_byte t b] by (simp add: unix_addrconv_def)
  show "length b = 4" if "ip4_to_bin unix_addrconv t = Inr b"
    using that parse_parts_length [of "CHR ''.''" 4 dec_part t b] by (simp add: unix_addrconv_def)
  show "length b = 16" if "ip6_to_bin unix_addrconv t = Inr b"
    using that length_concat_const [of _ "be_bytes 2" 2]
    by (auto simp: unix_addrconv_def res_bind_eq_Inr dest!: parse_parts_length)
qed

text \<open>\<^verbatim>\<open>haddr_to_int\<close> of a MAC text is the big-endian value of the address.\<close>

lemma filter_join: "(\<And>p. p \<in> set ps \<Longrightarrow> c \<notin> set p) \<Longrightarrow> filter (\<lambda>x. x \<noteq> c) (py_join c ps) = concat ps"
  by (induction c ps rule: py_join.induct) (auto simp: filter_id_conv)

lemma byte_text_digits: "all_hex (byte_text b) \<and> length (byte_text b) = 2 \<and> hexnum (byte_text b) = unat b"
proof -
  have "hex_part 2 (byte_text b) = Some (uint b)"
    unfolding byte_text_def using uint_byte_bounds [of b] by (intro hex_part_fmt) simp_all
  moreover have "length (byte_text b) = 2"
    unfolding byte_text_def using uint_byte_bounds [of b] by (intro length_fmt_0x) simp_all
  ultimately have h: "all_hex (byte_text b)" "length (byte_text b) = 2"
    "int (hexnum (byte_text b)) = uint b" by (auto simp: hex_part_def split: if_splits)
  then have "hexnum (byte_text b) = unat b" by (metis nat_int unat_eq_nat_uint)
  with h show ?thesis by simp
qed

lemma hexnum_append: "hexnum (s @ t) = hexnum s * 16 ^ length t + hexnum t"
  by (induction t rule: rev_induct) (simp_all add: algebra_simps flip: append_assoc)

lemma hexnum_concat_bytes:
  "all_hex (concat (map byte_text b)) \<and> int (hexnum (concat (map byte_text b))) = be_int b"
proof (induction b rule: rev_induct)
  case (snoc x b)
  with byte_text_digits [of x] show ?case by (simp add: be_int_snoc hexnum_append)
qed simp

lemma haddr_to_int_text:
  assumes "length b = 6"
  shows "haddr_to_int (mac_to_text unix_addrconv b) = Inr (be_int b)"
proof -
  have "filter (\<lambda>c. c \<noteq> CHR '':'') (mac_to_text unix_addrconv b) = concat (map byte_text b)"
    unfolding unix_addrconv_def by (simp add: join_parts_def) (rule filter_join, auto simp: hex_byte_text)
  moreover have "concat (map byte_text b) \<noteq> []"
    using assms byte_text_digits by (cases b) (auto, metis length_0_conv zero_neq_numeral)
  ultimately show ?thesis
    using hexnum_concat_bytes [of b] by (simp add: haddr_to_int_def py_int16_digits)
qed

end
