(* ===== verification/Packet_Chain.thy ===== *)
theory Packet_Chain
  imports Packet_Bpdu Packet_Net Packet_Ipv6 Vrrp_Codec Addr_Text
begin

text \<open>
  \<^verbatim>\<open>ryu/lib/packet/packet.py\<close>: the class \<^verbatim>\<open>Packet\<close>, which walks the chain of header classes when
  it decodes a frame and serializes the headers from the innermost outwards.

  The classes of \<open>Packet_Link\<close>, \<open>Packet_Bpdu\<close>, \<open>Packet_Net\<close>, \<open>Packet_Ipv6\<close> and
  \<open>Vrrp_Packet\<close> take part with their own parsers and
  serializers; the others are the record \<open>ext\<close>, an argument of the definitions. The theory shows
  that decoding ends, and that decoding a serialized stack gives the stack back.
\<close>

section \<open>Protocols of a packet\<close>

datatype 'o proto =
    PEth ethernet | PVlan vlan | PSvlan vlan | PMpls mpls | PArp arp | PLlc llc | PBpdu bpdu_proto
  | PIpv4 ipv4 | PIpv6 ipv6 | PUdp udp | PIcmp icmp | PVxlan vxlan | PVrrp vrrp | POther 'o | Raw bytes

text \<open>
  The classes with no model of their own: their parser (\<^verbatim>\<open>None\<close> for an object whose truth value is
  false, which is not kept), their serializer, the addresses of those that are IP headers, and their
  \<^verbatim>\<open>len\<close>.
\<close>

record 'o ext =
  ext_parser :: "pkt_cls \<Rightarrow> bytes \<Rightarrow> ('o option \<times> pkt_cls option \<times> bytes) res"
  ext_serialize :: "'o \<Rightarrow> bytes \<Rightarrow> 'o proto option \<Rightarrow> (bytes \<times> bytes \<times> 'o) res"
  ext_ipvx :: "'o \<Rightarrow> ipvx option"
  ext_size :: "'o \<Rightarrow> int"

type_synonym 'o parsed = "('o proto option \<times> pkt_cls option \<times> bytes) res"

definition keep :: "('h \<Rightarrow> 'o proto) \<Rightarrow> ('h \<times> pkt_cls option \<times> bytes) res \<Rightarrow> 'o parsed" where
  "keep f r = res_bind r (\<lambda>(h, c, rest). Inr (Some (f h), c, rest))"

text \<open>
  \<^verbatim>\<open>cls.parser(buf)\<close>. The length of an IPv4 header object is its header length, so one that
  claims zero words is false and is not kept. A rest of \<^verbatim>\<open>None\<close> (ICMP, an unknown BPDU) ends
  the chain like an empty one.
\<close>

definition cls_parser :: "addrconv \<Rightarrow> 'o ext \<Rightarrow> pkt_cls \<Rightarrow> bytes \<Rightarrow> 'o parsed" where
  "cls_parser A E c buf =
     (case c of
        C_ethernet \<Rightarrow> keep PEth (ethernet_parser A buf)
      | C_vlan \<Rightarrow> keep PVlan (vlan_parser buf)
      | C_svlan \<Rightarrow> keep PSvlan (vlan_parser buf)
      | C_mpls \<Rightarrow> keep PMpls (mpls_parser buf)
      | C_arp \<Rightarrow> keep PArp (arp_parser A buf)
      | C_llc \<Rightarrow> keep PLlc (llc_parser buf)
      | C_bpdu \<Rightarrow> res_bind (bpdu_parser A buf) (\<lambda>(m, rest).
          Inr (Some (case m of UnknownBPDU b \<Rightarrow> Raw b | _ \<Rightarrow> PBpdu m), None,
               case rest of None \<Rightarrow> [] | Some r \<Rightarrow> r))
      | C_ipv4 \<Rightarrow> res_bind (ipv4_parser A buf) (\<lambda>(h, c, rest).
          Inr (if ip4_header_length h * 4 \<noteq> 0 then Some (PIpv4 h) else None, c, rest))
      | C_ipv6 \<Rightarrow> keep PIpv6 (ipv6_parser A buf)
      | C_udp \<Rightarrow> keep PUdp (udp_parser buf)
      | C_icmp \<Rightarrow> res_bind (icmp_parser buf) (\<lambda>h. Inr (Some (PIcmp h), None, []))
      | C_vrrp \<Rightarrow> res_bind (vrrp_parser A buf) (\<lambda>(h, rest). Inr (Some (PVrrp h), None, rest))
      | C_vxlan \<Rightarrow> keep PVxlan (vxlan_parser buf)
      | _ \<Rightarrow> res_bind (ext_parser E c buf) (\<lambda>(h, c, rest). Inr (map_option POther h, c, rest)))"

text \<open>\<^verbatim>\<open>Packet._parser\<close>, with the number of iterations bounded by \<open>fuel\<close>: \<^verbatim>\<open>None\<close> when it runs out.\<close>

fun parser_loop :: "addrconv \<Rightarrow> 'o ext \<Rightarrow> nat \<Rightarrow> pkt_cls option \<Rightarrow> bytes \<Rightarrow> 'o proto list \<Rightarrow>
    ('o proto list \<times> bytes) res option" where
  "parser_loop A E 0 cls rest_data protocols = None"
| "parser_loop A E (Suc fuel) cls rest_data protocols =
     (case cls of
        None \<Rightarrow> Some (Inr (protocols, rest_data))
      | Some c \<Rightarrow>
          if all_zero rest_data then Some (Inr (protocols, rest_data))
          else (case cls_parser A E c rest_data of
              Inl e \<Rightarrow> if e = StructError then Some (Inr (protocols, rest_data)) else Some (Inl e)
            | Inr (proto, cls', rest') \<Rightarrow>
                parser_loop A E fuel cls' rest'
                  (case proto of None \<Rightarrow> protocols | Some p \<Rightarrow> protocols @ [p])))"

definition add_rest :: "'o proto list \<times> bytes \<Rightarrow> 'o proto list" where
  "add_rest = (\<lambda>(protocols, rest_data).
     if all_zero rest_data then protocols else protocols @ [Raw rest_data])"

definition packet_fuel :: "bytes \<Rightarrow> nat" where
  "packet_fuel data = 2 * length data + 2"

definition packet_parser :: "addrconv \<Rightarrow> 'o ext \<Rightarrow> pkt_cls option \<Rightarrow> bytes \<Rightarrow> 'o proto list res option" where
  "packet_parser A E cls data =
     map_option (\<lambda>r. res_bind r (\<lambda>pr. Inr (add_rest pr)))
       (parser_loop A E (packet_fuel data) cls data [])"

text \<open>\<^verbatim>\<open>Packet(data)\<close> and \<^verbatim>\<open>Packet(protocols=...)\<close>.\<close>

record 'o packet =
  pk_data :: bytes
  pk_protocols :: "'o proto list"

definition packet_decode :: "addrconv \<Rightarrow> 'o ext \<Rightarrow> bytes \<Rightarrow> 'o packet res option" where
  "packet_decode A E data =
     (if data = [] then Some (Inr \<lparr>pk_data = data, pk_protocols = []\<rparr>)
      else map_option (\<lambda>r. res_bind r (\<lambda>ps. Inr \<lparr>pk_data = data, pk_protocols = ps\<rparr>))
        (packet_parser A E (Some C_ethernet) data))"

definition add_protocol :: "'o proto \<Rightarrow> 'o packet \<Rightarrow> 'o packet" where
  "add_protocol p pkt = pkt\<lparr>pk_protocols := pk_protocols pkt @ [p]\<rparr>"

text \<open>\<^verbatim>\<open>get_protocols\<close> and \<^verbatim>\<open>get_protocol\<close>; \<open>is_cls\<close> is the test \<^verbatim>\<open>isinstance(p, protocol)\<close>.\<close>

definition get_protocols :: "('o proto \<Rightarrow> bool) \<Rightarrow> 'o packet \<Rightarrow> 'o proto list" where
  "get_protocols is_cls pkt = filter is_cls (pk_protocols pkt)"

definition get_protocol :: "('o proto \<Rightarrow> bool) \<Rightarrow> 'o packet \<Rightarrow> 'o proto option" where
  "get_protocol is_cls pkt =
     (let result = get_protocols is_cls pkt in if length result > 0 then Some (result ! 0) else None)"

text \<open>
  \<^verbatim>\<open>p.serialize(self.data, prev)\<close>: the header, the payload (Ethernet pads the buffer it is given)
  and the object, whose length and checksum fields the call may fill in.
\<close>

definition ipvx_of :: "'o ext \<Rightarrow> 'o proto option \<Rightarrow> ipvx option" where
  "ipvx_of E prev = (case prev of
     Some (PIpv4 h) \<Rightarrow> Some \<lparr>ip_version = ip4_version h, ip_src = ip4_src h, ip_dst = ip4_dst h,
                          ip_upper = ip4_proto h\<rparr>
   | Some (PIpv6 h) \<Rightarrow> Some \<lparr>ip_version = ip6_version h, ip_src = ip6_src h, ip_dst = ip6_dst h,
                          ip_upper = ip6_nxt h\<rparr>
   | Some (POther h) \<Rightarrow> ext_ipvx E h
   | _ \<Rightarrow> None)"

definition net_prev_of :: "'o ext \<Rightarrow> 'o proto option \<Rightarrow> net_prev" where
  "net_prev_of E prev = (case prev of
     Some (PIpv4 h) \<Rightarrow> (case ipvx_of E prev of Some ip \<Rightarrow> PrevIPv4 ip | None \<Rightarrow> PrevOther)
   | Some (PIpv6 h) \<Rightarrow> (case ipvx_of E prev of Some ip \<Rightarrow> PrevIPv6 ip | None \<Rightarrow> PrevOther)
   | _ \<Rightarrow> PrevOther)"

definition plain :: "'o proto \<Rightarrow> bytes \<Rightarrow> bytes res \<Rightarrow> (bytes \<times> bytes \<times> 'o proto) res" where
  "plain p payload r = res_bind r (\<lambda>hdr. Inr (hdr, payload, p))"

fun proto_serialize :: "bool \<Rightarrow> addrconv \<Rightarrow> 'o ext \<Rightarrow> 'o proto \<Rightarrow> bytes \<Rightarrow> 'o proto option \<Rightarrow>
    (bytes \<times> bytes \<times> 'o proto) res" where
  "proto_serialize le A E (PEth h) payload prev =
     res_bind (ethernet_serialize A h payload) (\<lambda>(hdr, payload). Inr (hdr, payload, PEth h))"
| "proto_serialize le A E (PVlan h) payload prev = plain (PVlan h) payload (vlan_serialize h)"
| "proto_serialize le A E (PSvlan h) payload prev = plain (PSvlan h) payload (vlan_serialize h)"
| "proto_serialize le A E (PMpls h) payload prev = plain (PMpls h) payload (mpls_serialize h)"
| "proto_serialize le A E (PArp h) payload prev = plain (PArp h) payload (arp_serialize A h)"
| "proto_serialize le A E (PLlc h) payload prev = plain (PLlc h) payload (llc_serialize h)"
| "proto_serialize le A E (PBpdu m) payload prev = plain (PBpdu m) payload (bpdu_serialize A m)"
| "proto_serialize le A E (PIpv4 h) payload prev =
     res_bind (ipv4_serialize le A h payload) (\<lambda>(hdr, h). Inr (hdr, payload, PIpv4 h))"
| "proto_serialize le A E (PIpv6 h) payload prev =
     res_bind (ipv6_serialize A h payload) (\<lambda>(hdr, h). Inr (hdr, payload, PIpv6 h))"
| "proto_serialize le A E (PUdp h) payload prev =
     res_bind (udp_serialize le A h payload (ipvx_of E prev)) (\<lambda>(hdr, h). Inr (hdr, payload, PUdp h))"
| "proto_serialize le A E (PIcmp h) payload prev =
     res_bind (icmp_serialize le h) (\<lambda>(hdr, h). Inr (hdr, payload, PIcmp h))"
| "proto_serialize le A E (PVxlan h) payload prev = plain (PVxlan h) payload (vxlan_serialize h)"
| "proto_serialize le A E (PVrrp h) payload prev =
     res_bind (vrrp_serialize le A h (net_prev_of E prev)) (\<lambda>(hdr, h). Inr (hdr, payload, PVrrp h))"
| "proto_serialize le A E (POther h) payload prev =
     res_bind (ext_serialize E h payload prev) (\<lambda>(hdr, payload, h). Inr (hdr, payload, POther h))"
| "proto_serialize le A E (Raw b) payload prev = Inr (b, payload, Raw b)"

text \<open>
  \<^verbatim>\<open>Packet.serialize\<close> runs over the protocols from the last to the first; the one before in wire
  order is \<^verbatim>\<open>prev\<close>. Here the same order is the recursion: the tail first, then the head.
\<close>

fun serialize_protos :: "bool \<Rightarrow> addrconv \<Rightarrow> 'o ext \<Rightarrow> 'o proto option \<Rightarrow> 'o proto list \<Rightarrow>
    (bytes \<times> 'o proto list) res" where
  "serialize_protos le A E prev [] = Inr ([], [])"
| "serialize_protos le A E prev (p # ps) =
     res_bind (serialize_protos le A E (Some p) ps) (\<lambda>(data, ps).
     res_bind (proto_serialize le A E p data prev) (\<lambda>(hdr, data, p). Inr (hdr @ data, p # ps)))"

definition packet_serialize :: "bool \<Rightarrow> addrconv \<Rightarrow> 'o ext \<Rightarrow> 'o packet \<Rightarrow> 'o packet res" where
  "packet_serialize le A E pkt =
     res_bind (serialize_protos le A E None (pk_protocols pkt)) (\<lambda>(data, ps).
     Inr \<lparr>pk_data = data, pk_protocols = ps\<rparr>)"

section \<open>Decoding ends\<close>

text \<open>Every modelled parser but IPv4's consumes something; IPv4's rest is never longer.\<close>

lemma unpack_bindD:
  "res_bind (unpack_from fs buf) f = Inr r \<Longrightarrow>
    calcsize fs \<le> length buf \<and> f (unpack_fields fs buf) = Inr r"
  by (simp add: unpack_from_def split: if_splits)

lemma keep_eq_Inr: "keep f r = Inr (p, c, rest) \<longleftrightarrow> (\<exists>h. r = Inr (h, c, rest) \<and> p = Some (f h))"
  by (auto simp: keep_def res_bind_eq_Inr)

lemma link_parser_shorter:
  "ethernet_parser A buf = Inr (h1, c, rest) \<Longrightarrow> length rest < length buf"
  "vlan_parser buf = Inr (h2, c, rest) \<Longrightarrow> length rest < length buf"
  "mpls_parser buf = Inr (h3, c, rest) \<Longrightarrow> length rest < length buf"
  "arp_parser A buf = Inr (h4, c, rest) \<Longrightarrow> length rest < length buf"
  "vxlan_parser buf = Inr (h5, c, rest) \<Longrightarrow> length rest < length buf"
  unfolding ethernet_parser_def vlan_parser_def mpls_parser_def arp_parser_def vxlan_parser_def
  by (auto simp: ethernet_fmt_def vlan_fmt_def mpls_fmt_def arp_fmt_def
      vxlan_fmt_def res_bind_eq_Inr unpack_from_def Let_def split: if_splits)

lemma udp_parser_shorter: "udp_parser buf = Inr (h, c, rest) \<Longrightarrow> length rest < length buf"
  unfolding udp_parser_def
  by (drule unpack_bindD) (auto simp: udp_fmt_def length_py_slice)

lemma ipv4_parser_shorter:
  "ipv4_parser A buf = Inr (h, c, rest) \<Longrightarrow> length rest \<le> length buf"
  unfolding ipv4_parser_def
  by (drule unpack_bindD) (auto simp: ipv4_fmt_def length_py_slice Let_def)

lemma ext_hdrs_loop_forward:
  "ext_hdrs_loop A buf off nxt = Inr (hs, off', nxt') \<Longrightarrow> off \<le> off'"
proof (induction A buf off nxt arbitrary: hs rule: ext_hdrs_loop.induct)
  case (1 A buf off nxt)
  show ?case
  proof (cases "is_ext_type nxt")
    case True
    with "1.prems" obtain h hs' where h: "ext_hdr_parser A nxt (drop (nat off) buf) = Inr h"
      "ext_hdrs_loop A buf (off + ext_len h) (ext_nxt h) = Inr (hs', off', nxt')"
      by (subst (asm) ext_hdrs_loop.simps) (auto simp: res_bind_eq_Inr split: sum.splits)
    from "1.IH" [OF True h] ext_hdr_parser_shrinks [OF h(1)] show ?thesis by simp
  next
    case False
    with "1.prems" show ?thesis by (subst (asm) ext_hdrs_loop.simps) simp
  qed
qed

lemma ipv6_parser_shorter:
  assumes "ipv6_parser A buf = Inr (h, c, rest)"
  shows "length rest < length buf"
proof -
  obtain off' n hs nxt' pl where o: "ext_hdrs_loop A buf 40 n = Inr (hs, off', nxt')"
    "rest = py_slice (nat off') (nat (off' + pl)) buf" and l: "40 \<le> length buf"
    using assms unfolding ipv6_parser_def
    by - (drule unpack_bindD, auto simp: ipv6_fmt_def res_bind_eq_Inr)
  have "length rest \<le> length buf - nat off'" by (simp add: o(2) length_py_slice)
  with ext_hdrs_loop_forward [OF o(1)] l show ?thesis by simp
qed

lemma vrrp_parser_shorter:
  assumes "vrrp_parser A buf = Inr (h, rest)"
  shows "length rest < length buf"
proof -
  have len: "8 \<le> vrrp_len m" for m by (simp add: vrrp_len_def)
  have "8 \<le> length buf \<and> (\<exists>m. rest = drop (vrrp_len m) buf)"
    using assms unfolding vrrp_parser_def vrrpv2_parser_def vrrpv3_parser_def Let_def
    by (auto simp: res_bind_eq_Inr unpack_from_def vrrpv2_fmt_def vrrpv3_fmt_def split: if_splits prod.splits)
  then obtain m where "8 \<le> length buf" "rest = drop (vrrp_len m) buf" by blast
  with len [of m] show ?thesis by simp
qed

lemma control_shorter:
  "control_i_parser buf = Inr (k1, rest) \<Longrightarrow> length rest \<le> length buf"
  "control_s_parser buf = Inr (k2, rest) \<Longrightarrow> length rest \<le> length buf"
  "control_u_parser buf = Inr (k3, rest) \<Longrightarrow> length rest \<le> length buf"
  unfolding control_i_parser_def control_s_parser_def control_u_parser_def
  by (auto simp: res_bind_eq_Inr unpack_from_def split: if_splits)

lemma llc_parser_shorter: "llc_parser buf = Inr (h, c, rest) \<Longrightarrow> length rest < length buf"
  unfolding llc_parser_def llc_get_control_def Let_def
  by (force simp: res_bind_eq_Inr unpack_from_def split: if_splits dest!: control_shorter)

lemma config_parser_shorter:
  "config_parser A check buf = Inr (h, rest) \<Longrightarrow> length rest \<le> length buf"
  unfolding config_parser_def
  by (drule unpack_bindD) (auto simp: config_fmt_def res_bind_eq_Inr Let_def split: prod.splits)

lemma bpdu_parser_shorter:
  "bpdu_parser A buf = Inr (m, Some rest) \<Longrightarrow> length rest < length buf"
  unfolding bpdu_parser_def rst_parser_def Let_def
  by (force simp: res_bind_eq_Inr unpack_from_def bpdu_fmt_def
      split: if_splits dest!: config_parser_shorter)

text \<open>What termination needs of the classes with no model: their parsers consume something.\<close>

definition ext_shrinks :: "'o ext \<Rightarrow> bool" where
  "ext_shrinks E \<longleftrightarrow> (\<forall>c buf h c' rest.
     ext_parser E c buf = Inr (h, c', rest) \<longrightarrow> buf \<noteq> [] \<longrightarrow> length rest < length buf)"

definition cls_weight :: "pkt_cls option \<Rightarrow> bytes \<Rightarrow> nat" where
  "cls_weight c rest = 2 * length rest + (if c = Some C_ipv4 then 1 else 0)"

text \<open>A header length of zero keeps IPv4 in place, but no IP protocol number is IPv4's key.\<close>

lemma packet_types_ipv4: "packet_types t = Some C_ipv4 \<Longrightarrow> t = 0x0800"
  by (auto simp: packet_types_def split: if_splits)

lemma ipv4_parser_next: "ipv4_parser A buf = Inr (h, c, rest) \<Longrightarrow> c \<noteq> Some C_ipv4"
proof -
  assume "ipv4_parser A buf = Inr (h, c, rest)"
  then obtain b where "c = get_packet_type (be_int b)" "length b \<le> 1"
    unfolding ipv4_parser_def
    by - (drule unpack_bindD, auto simp: ipv4_fmt_def Let_def)
  moreover have "be_int b < 256 ^ length b" using be_int_bounds [of b] by simp
  moreover have "(256 :: int) ^ length b \<le> 256 ^ 1" using \<open>length b \<le> 1\<close> by (intro power_increasing) simp_all
  ultimately show ?thesis by (auto simp: get_packet_type_def dest!: packet_types_ipv4)
qed

lemma cls_parser_weight:
  assumes E: "ext_shrinks E" and ne: "buf \<noteq> []"
    and p: "cls_parser A E c buf = Inr (p, c', rest)"
  shows "cls_weight c' rest < cls_weight (Some c) buf"
proof (cases "c = C_ipv4")
  case True
  with p obtain h where "ipv4_parser A buf = Inr (h, c', rest)"
    by (auto simp: cls_parser_def res_bind_eq_Inr)
  with True ipv4_parser_shorter [of A buf h c' rest] ipv4_parser_next [of A buf h c' rest]
  show ?thesis by (simp add: cls_weight_def)
next
  case False
  have "length rest < length buf"
    using p False ne E unfolding cls_parser_def ext_shrinks_def
    by (cases c) (auto simp: keep_eq_Inr res_bind_eq_Inr link_parser_shorter llc_parser_shorter
        udp_parser_shorter ipv6_parser_shorter split: option.splits dest: bpdu_parser_shorter
        vrrp_parser_shorter)
  with False show ?thesis by (simp add: cls_weight_def)
qed

lemma parser_loop_ends:
  "ext_shrinks E \<Longrightarrow> cls_weight cls rest < fuel \<Longrightarrow> parser_loop A E fuel cls rest ps \<noteq> None"
proof (induction fuel arbitrary: cls rest ps)
  case 0
  then show ?case by simp
next
  case (Suc fuel)
  show ?case
  proof (cases "cls = None \<or> all_zero rest")
    case True
    then show ?thesis by (auto split: option.splits)
  next
    case False
    then obtain c where c: "cls = Some c" by auto
    show ?thesis
    proof (cases "cls_parser A E c rest")
      case (Inl e)
      with c False show ?thesis by simp
    next
      case (Inr r)
      obtain p c' rest' where r: "r = (p, c', rest')" by (cases r)
      have "rest \<noteq> []" using False by auto
      from cls_parser_weight [OF Suc.prems(1) this Inr [unfolded r]] Suc.prems(2) c
      have "cls_weight c' rest' < fuel" by simp
      from Suc.IH [OF Suc.prems(1) this] c Inr False r show ?thesis by simp
    qed
  qed
qed

lemma packet_parser_ends: "ext_shrinks E \<Longrightarrow> packet_parser A E c data \<noteq> None"
  using parser_loop_ends [of E c data "packet_fuel data" A "[]"]
  by (simp add: packet_parser_def packet_fuel_def cls_weight_def split: if_splits)

section \<open>Decoding a serialized stack\<close>

lemma parser_loop_more:
  "parser_loop A E n c data ps = Some r \<Longrightarrow> n \<le> m \<Longrightarrow> parser_loop A E m c data ps = Some r"
proof (induction n arbitrary: m c data ps)
  case (Suc n)
  then obtain k where "m = Suc k" "n \<le> k" by (cases m) auto
  with Suc show ?case by (auto split: option.splits if_splits sum.splits)
qed simp

lemma parser_loop_acc:
  "parser_loop A E n c data ps = Some (Inr (qs, r)) \<Longrightarrow>
    parser_loop A E n c data (acc @ ps) = Some (Inr (acc @ qs, r))"
proof (induction n arbitrary: c data ps)
  case (Suc n)
  show ?case
  proof (cases "c = None \<or> all_zero data")
    case True
    with Suc.prems show ?thesis by (auto split: option.splits)
  next
    case False
    with Suc.prems show ?thesis
      by (auto split: option.splits sum.splits if_splits dest!: Suc.IH)
  qed
qed simp

text \<open>With enough iterations, \<open>data\<close> decodes from class \<open>c\<close> to \<open>items\<close>.\<close>

definition decodes :: "addrconv \<Rightarrow> 'o ext \<Rightarrow> pkt_cls option \<Rightarrow> bytes \<Rightarrow> 'o proto list \<Rightarrow> bool" where
  "decodes A E c data items \<longleftrightarrow>
     (\<exists>n ps r. parser_loop A E n c data [] = Some (Inr (ps, r)) \<and> add_rest (ps, r) = items)"

lemma decodes_stop: "c = None \<or> all_zero data \<Longrightarrow> decodes A E c data (if all_zero data then [] else [Raw data])"
  unfolding decodes_def by (rule exI [of _ 1]) (auto simp: add_rest_def split: option.splits)

lemma decodes_step:
  assumes "cls_parser A E c data = Inr (Some p, c', rest)" "\<not> all_zero data"
    "decodes A E c' rest items"
  shows "decodes A E (Some c) data (p # items)"
proof -
  obtain n ps r where n: "parser_loop A E n c' rest [] = Some (Inr (ps, r))" "add_rest (ps, r) = items"
    using assms(3) by (auto simp: decodes_def)
  have "parser_loop A E (Suc n) (Some c) data [] = Some (Inr ([p] @ ps, r))"
    using parser_loop_acc [OF n(1), of "[p]"] assms(1,2) by simp
  moreover have "add_rest ([p] @ ps, r) = p # items" using n(2) by (auto simp: add_rest_def)
  ultimately show ?thesis unfolding decodes_def by blast
qed

lemma decodes_packet:
  assumes "ext_shrinks E" "decodes A E c data items"
  shows "packet_parser A E c data = Some (Inr items)"
proof -
  obtain n ps r where n: "parser_loop A E n c data [] = Some (Inr (ps, r))" "add_rest (ps, r) = items"
    using assms(2) by (auto simp: decodes_def)
  obtain x where x: "parser_loop A E (packet_fuel data) c data [] = Some x"
    using packet_parser_ends [OF assms(1), of A c data] by (auto simp: packet_parser_def)
  have "x = Inr (ps, r)"
    using parser_loop_more [OF n(1), of "n + packet_fuel data"]
      parser_loop_more [OF x, of "n + packet_fuel data"] by simp
  with x n(2) show ?thesis by (simp add: packet_parser_def)
qed

text \<open>
  \<open>items\<close>, inside the header \<open>prev\<close>, serialize to \<open>bs\<close> (as \<open>items'\<close>, lengths and checksums filled
  in), and \<open>bs\<close> decodes from class \<open>c\<close> to \<open>items'\<close>; if \<open>pad\<close> holds, also with padding behind it.
\<close>

definition encodes :: "bool \<Rightarrow> addrconv \<Rightarrow> 'o ext \<Rightarrow> 'o proto option \<Rightarrow> pkt_cls option \<Rightarrow> 'o proto list \<Rightarrow>
    bytes \<Rightarrow> 'o proto list \<Rightarrow> bool \<Rightarrow> bool" where
  "encodes le A E prev c items bs items' pad \<longleftrightarrow>
     serialize_protos le A E prev items = Inr (bs, items') \<and> \<not> all_zero bs \<and>
     (\<forall>z. all_zero z \<longrightarrow> pad \<or> z = [] \<longrightarrow> decodes A E c (bs @ z) items')"

lemma encodes_raw: "\<not> all_zero b \<Longrightarrow> encodes le A E prev None [Raw b] b [Raw b] False"
  using decodes_stop [of None b A E] by (auto simp: encodes_def)

lemma encodes_leaf:
  assumes "proto_serialize le A E p [] prev = Inr (hdr, [], p')" "\<not> all_zero hdr"
    "\<And>z. all_zero z \<Longrightarrow> pad \<or> z = [] \<Longrightarrow>
      \<exists>z'. all_zero z' \<and> cls_parser A E c (hdr @ z) = Inr (Some p', None, z')"
  shows "encodes le A E prev (Some c) [p] hdr [p'] pad"
  unfolding encodes_def
proof (intro conjI allI impI)
  show "serialize_protos le A E prev [p] = Inr (hdr, [p'])" using assms(1) by simp
  show "\<not> all_zero hdr" by (rule assms(2))
  fix z assume "all_zero z" "pad \<or> z = []"
  then obtain z' where z': "all_zero z'" "cls_parser A E c (hdr @ z) = Inr (Some p', None, z')"
    using assms(3) by blast
  have "decodes A E None z' []" using decodes_stop [of None z' A E] z'(1) by simp
  with z' assms(2) show "decodes A E (Some c) (hdr @ z) [p']" by (intro decodes_step) auto
qed

text \<open>
  One more layer: its header \<open>hdr\<close>, the padding \<open>zs\<close> it adds, and a parser that leaves the payload,
  cut to its length (\<open>trim\<close>) or with the padding.
\<close>

lemma encodes_layer_cut:
  assumes inner: "encodes le A E (Some p) nxt items bs items' pad"
    and ser: "proto_serialize le A E p bs prev = Inr (hdr, bs @ zs, p')"
    and zs: "all_zero zs" "zs \<noteq> [] \<longrightarrow> pad"
    and par: "\<And>z. cls_parser A E c (hdr @ bs @ z) = Inr (Some p', nxt, bs @ left z)"
    and left: "\<And>z. all_zero z \<Longrightarrow> all_zero (left z)" "\<And>z. trim \<or> z = [] \<Longrightarrow> left z = []"
  shows "encodes le A E prev (Some c) (p # items) (hdr @ bs @ zs) (p' # items') (pad \<or> trim)"
  unfolding encodes_def
proof (intro conjI allI impI)
  show "serialize_protos le A E prev (p # items) = Inr (hdr @ bs @ zs, p' # items')"
    using inner ser by (simp add: encodes_def)
  show "\<not> all_zero (hdr @ bs @ zs)" using inner by (simp add: encodes_def)
  fix z assume z: "all_zero z" "(pad \<or> trim) \<or> z = []"
  have "all_zero (left (zs @ z))" using zs z by (intro left) simp
  moreover have "pad \<or> left (zs @ z) = []" using z zs left(2) [of "zs @ z"] by auto
  ultimately have "decodes A E nxt (bs @ left (zs @ z)) items'" using inner unfolding encodes_def by blast
  moreover have "cls_parser A E c ((hdr @ bs @ zs) @ z) = Inr (Some p', nxt, bs @ left (zs @ z))"
    using par [of "zs @ z"] by simp
  ultimately show "decodes A E (Some c) ((hdr @ bs @ zs) @ z) (p' # items')"
    using inner by (intro decodes_step) (simp_all add: encodes_def)
qed

lemmas encodes_layer = encodes_layer_cut [where left = "\<lambda>z. if trim then [] else z" and trim = trim] for trim

subsection \<open>The layers\<close>

lemma encodes_ethernet_pad:
  assumes "addrconv_ok A" "ethernet_wf A h"
    "encodes le A E (Some (PEth h)) (ethernet_get_packet_type (eth_ethertype h)) items bs items' pad"
    "pad \<or> 46 \<le> length bs"
  shows "\<exists>bs'. encodes le A E prev (Some C_ethernet) (PEth h # items) bs' (PEth h # items') pad \<and>
    60 \<le> length bs'"
proof -
  define zs where "zs = replicate (46 - length bs) (0 :: byte)"
  obtain hdr where hdr: "ethernet_pack A h = Inr hdr" "length hdr = 14"
    "\<And>rest. ethernet_parser A (hdr @ rest) = Inr (h, ethernet_get_packet_type (eth_ethertype h), rest)"
    using ethernet_codec [OF assms(1,2)] by blast
  have "ethernet_serialize A h bs = Inr (hdr, bs @ zs)"
    by (simp add: ethernet_serialize_def hdr(1) zs_def)
  then have ser: "proto_serialize le A E (PEth h) bs prev = Inr (hdr, bs @ zs, PEth h)" by simp
  have "encodes le A E prev (Some C_ethernet) (PEth h # items) (hdr @ bs @ zs) (PEth h # items') (pad \<or> False)"
    by (rule encodes_layer [OF assms(3) ser])
      (use assms(4) in \<open>auto simp: zs_def cls_parser_def hdr(3) keep_def\<close>)
  moreover have "60 \<le> length (hdr @ bs @ zs)" by (simp add: hdr(2) zs_def)
  ultimately show ?thesis by auto
qed

lemmas encodes_ethernet = encodes_ethernet_pad [where pad = True, simplified]

text \<open>Tags between the Ethernet header and the payload class \<open>d\<close>.\<close>

fun tags_lead :: "pkt_cls option \<Rightarrow> 'o proto list \<Rightarrow> pkt_cls option \<Rightarrow> bool" where
  "tags_lead c [] d \<longleftrightarrow> c = d"
| "tags_lead c (PVlan h # ts) d \<longleftrightarrow> c = Some C_vlan \<and> vlan_wf h \<and>
     tags_lead (ethernet_get_packet_type (vlan_ethertype h)) ts d"
| "tags_lead c (PSvlan h # ts) d \<longleftrightarrow> c = Some C_svlan \<and> vlan_wf h \<and>
     tags_lead (ethernet_get_packet_type (vlan_ethertype h)) ts d"
| "tags_lead c (PMpls h # ts) d \<longleftrightarrow> c = Some C_mpls \<and> mpls_wf h \<and> tags_lead (mpls_next h) ts d"
| "tags_lead c _ d \<longleftrightarrow> False"

lemma encodes_tag:
  assumes "\<exists>hdr. proto_serialize le A E p bs prev = Inr (hdr, bs, p) \<and>
      (\<forall>rest. cls_parser A E c (hdr @ rest) = Inr (Some p, nxt, rest))"
    and "encodes le A E (Some p) nxt items bs items' pad"
  shows "\<exists>bs'. encodes le A E prev (Some c) (p # items) bs' (p # items') pad"
proof -
  obtain hdr where hdr: "proto_serialize le A E p bs prev = Inr (hdr, bs, p)"
    "\<And>rest. cls_parser A E c (hdr @ rest) = Inr (Some p, nxt, rest)" using assms(1) by blast
  have "encodes le A E prev (Some c) (p # items) (hdr @ bs @ []) (p # items') (pad \<or> False)"
    by (rule encodes_layer [OF assms(2)]) (simp_all add: hdr)
  then show ?thesis by auto
qed

lemma tag_codecs:
  "vlan_wf v \<Longrightarrow> \<exists>hdr. proto_serialize le A E (PVlan v) bs prev = Inr (hdr, bs, PVlan v) \<and>
    (\<forall>rest. cls_parser A E C_vlan (hdr @ rest) =
      Inr (Some (PVlan v), ethernet_get_packet_type (vlan_ethertype v), rest))"
  "vlan_wf v \<Longrightarrow> \<exists>hdr. proto_serialize le A E (PSvlan v) bs prev = Inr (hdr, bs, PSvlan v) \<and>
    (\<forall>rest. cls_parser A E C_svlan (hdr @ rest) =
      Inr (Some (PSvlan v), ethernet_get_packet_type (vlan_ethertype v), rest))"
  "mpls_wf m \<Longrightarrow> \<exists>hdr. proto_serialize le A E (PMpls m) bs prev = Inr (hdr, bs, PMpls m) \<and>
    (\<forall>rest. cls_parser A E C_mpls (hdr @ rest) = Inr (Some (PMpls m), mpls_next m, rest))"
  "llc_wf l \<Longrightarrow> \<exists>hdr. proto_serialize le A E (PLlc l) bs prev = Inr (hdr, bs, PLlc l) \<and>
    (\<forall>rest. cls_parser A E C_llc (hdr @ rest) =
      Inr (Some (PLlc l), get_packet_type (llc_dsap l), rest))"
  using vlan_codec [of v] mpls_codec [of m] llc_codec [of l]
  by (auto simp: cls_parser_def keep_def plain_def)

lemma encodes_tags:
  "tags_lead c ts d \<Longrightarrow> \<forall>prev. \<exists>bs. encodes le A E prev d items bs items' pad \<Longrightarrow>
    \<exists>bs. encodes le A E prev c (ts @ items) bs (ts @ items') pad"
proof (induction c ts d arbitrary: prev rule: tags_lead.induct)
  case (1 c d)
  then show ?case by simp
next
  case (2 c h ts d)
  then obtain bs where "encodes le A E (Some (PVlan h)) (ethernet_get_packet_type (vlan_ethertype h))
    (ts @ items) bs (ts @ items') pad" by fastforce
  from encodes_tag [OF tag_codecs(1) this] 2(2) show ?case by simp
next
  case (3 c h ts d)
  then obtain bs where "encodes le A E (Some (PSvlan h)) (ethernet_get_packet_type (vlan_ethertype h))
    (ts @ items) bs (ts @ items') pad" by fastforce
  from encodes_tag [OF tag_codecs(2) this] 3(2) show ?case by simp
next
  case (4 c h ts d)
  then obtain bs where "encodes le A E (Some (PMpls h)) (mpls_next h)
    (ts @ items) bs (ts @ items') pad" by fastforce
  from encodes_tag [OF tag_codecs(3) this] 4(2) show ?case by simp
qed simp_all

text \<open>A header with a field that is not zero is not taken for padding.\<close>

lemma all_zero_sub [simp]: "all_zero b \<Longrightarrow> all_zero (take n b)" "all_zero b \<Longrightarrow> all_zero (drop n b)"
  by (auto simp: all_zero_def list_all_iff dest: in_set_takeD in_set_dropD)

lemma be_int_all_zero: "all_zero b \<Longrightarrow> be_int b = 0"
  by (induction b rule: rev_induct) (simp_all add: be_int_snoc)

lemma nonzero_headers:
  "arp_parser A buf = Inr (a, c1, r1) \<Longrightarrow> arp_hwtype a \<noteq> 0 \<Longrightarrow> \<not> all_zero buf"
  "udp_parser buf = Inr (u, c2, r2) \<Longrightarrow> udp_total_length u \<noteq> 0 \<Longrightarrow> \<not> all_zero buf"
  "ipv4_parser A buf = Inr (i, c3, r3) \<Longrightarrow> ip4_header_length i \<noteq> 0 \<Longrightarrow> \<not> all_zero buf"
  unfolding arp_parser_def udp_parser_def ipv4_parser_def
  by (auto dest!: unpack_bindD simp: arp_fmt_def udp_fmt_def ipv4_fmt_def Let_def be_int_all_zero)

definition bpdu_nonzero :: "bpdu_proto \<Rightarrow> bool" where
  "bpdu_nonzero m = (case m of ConfigurationBPDUs h \<Rightarrow> bp_port_number h \<noteq> 0 | _ \<Rightarrow> True)"

lemma nonzero_bpdu:
  assumes "bpdu_parser A buf = Inr (m, r)" "bpdu_nonzero m"
  shows "\<not> all_zero buf"
proof
  assume z: "all_zero buf"
  with assms(1) obtain h rest where
    "config_parser A config_check_parameters (drop 4 buf) = Inr (h, rest)" "m = ConfigurationBPDUs h"
    by (auto simp: bpdu_parser_def res_bind_eq_Inr unpack_from_def bpdu_fmt_def be_int_all_zero Let_def
        split: if_splits)
  with z assms(2) show False
    unfolding config_parser_def
    by (auto simp: unpack_from_def config_fmt_def Let_def be_int_all_zero res_bind_eq_Inr
        bpdu_nonzero_def decode_port_id_def split: prod.splits if_splits)
qed

lemma encodes_arp:
  assumes "addrconv_ok A" "arp_wf A h" "arp_hwtype h \<noteq> 0"
  shows "\<exists>bs. encodes le A E prev (Some C_arp) [PArp h] bs [PArp h] True"
proof -
  obtain hdr where hdr: "arp_serialize A h = Inr hdr" "\<And>r. arp_parser A (hdr @ r) = Inr (h, None, r)"
    using arp_codec [OF assms(1,2)] by blast
  have "\<not> all_zero hdr" using nonzero_headers(1) [OF hdr(2) [of "[]"] assms(3)] by simp
  then have "encodes le A E prev (Some C_arp) [PArp h] hdr [PArp h] True"
    by (intro encodes_leaf) (simp_all add: hdr plain_def cls_parser_def keep_def)
  then show ?thesis by blast
qed

lemma encodes_bpdu:
  assumes "addrconv_ok A" "bpdu_wf A m" "bpdu_reread m = m" "bpdu_nonzero m"
  shows "\<exists>bs. encodes le A E prev (Some C_bpdu) [PBpdu m] bs [PBpdu m] True"
proof -
  obtain hdr where hdr: "bpdu_serialize A m = Inr hdr"
    "\<And>r. bpdu_parser A (hdr @ r) = Inr (m, bpdu_rest m r)"
    using bpdu_codec [OF assms(1,2)] assms(3) by auto
  have "\<not> all_zero hdr" using nonzero_bpdu [OF hdr(2) [of "[]"] assms(4)] by simp
  moreover have "cls_parser A E C_bpdu (hdr @ r) =
      Inr (Some (PBpdu m), None, case bpdu_rest m r of None \<Rightarrow> [] | Some r \<Rightarrow> r)" for r
    using assms(2) by (cases m) (simp_all add: cls_parser_def hdr(2))
  moreover have "all_zero (case bpdu_rest m r of None \<Rightarrow> [] | Some r \<Rightarrow> r)" if "all_zero r" for r
    using that by (cases m) simp_all
  ultimately have "encodes le A E prev (Some C_bpdu) [PBpdu m] hdr [PBpdu m] True"
    by (intro encodes_leaf) (auto simp: hdr(1) plain_def)
  then show ?thesis by blast
qed

lemma encodes_llc:
  assumes "llc_wf h" "encodes le A E (Some (PLlc h)) (get_packet_type (llc_dsap h)) items bs items' pad"
  shows "\<exists>bs'. encodes le A E prev (Some C_llc) (PLlc h # items) bs' (PLlc h # items') pad"
  by (rule encodes_tag [OF tag_codecs(4) [OF assms(1)] assms(2)])

text \<open>IPv4 and UDP cut the payload to its length, so what follows may be anything.\<close>

lemma encodes_ipv4:
  assumes A: "addrconv_ok A" and wf: "ipv4_wf A h" and len: "ipv4_length_ok h bs"
    and inner: "encodes le A E (Some (PIpv4 h)) (get_packet_type (ip4_proto h)) items bs items' pad"
  shows "\<exists>hdr h'. (\<forall>prev.
      encodes le A E prev (Some C_ipv4) (PIpv4 h # items) (hdr @ bs) (PIpv4 h' # items') True) \<and>
    h' = (ipv4_fill h bs)\<lparr>ip4_csum := ip4_csum h'\<rparr> \<and> checksum_spec hdr = 0"
proof -
  obtain hdr h' where e: "ipv4_serialize le A h bs = Inr (hdr, h')"
    "h' = (ipv4_fill h bs)\<lparr>ip4_csum := ip4_csum h'\<rparr>" "checksum_spec hdr = 0"
    "\<And>z. ipv4_parser A (hdr @ bs @ z) = Inr (h', get_packet_type (ip4_proto h), bs)"
    using ipv4_codec [OF A wf len, of le] by blast
  have "ip4_header_length h' = ip4_header_length h"
    by (subst e(2)) (simp add: ipv4_fill_def)
  then have "ip4_header_length h' \<noteq> 0" using wf by (simp add: ipv4_wf_def)
  then have "encodes le A E prev (Some C_ipv4) (PIpv4 h # items) (hdr @ bs @ []) (PIpv4 h' # items')
      (pad \<or> True)" for prev
    by (intro encodes_layer [OF inner, where trim = True]) (simp_all add: e(1,4) cls_parser_def)
  with e(2,3) show ?thesis by auto
qed

text \<open>IPv6 cuts the payload as well, but not to its length when there are extension headers.\<close>

lemma encodes_ipv6:
  assumes A: "addrconv_ok A" and wf: "ipv6_wf A h" and len: "ipv6_length_covers h bs"
    and inner: "encodes le A E (Some (PIpv6 h)) (get_packet_type (last_nxt (ip6_nxt h) (ip6_ext_hdrs h)))
      items bs items' pad"
  shows "\<exists>hdr. \<forall>prev. encodes le A E prev (Some C_ipv6) (PIpv6 h # items) (hdr @ bs)
    (PIpv6 (ipv6_fill h bs) # items') (pad \<or> ipv6_excess h bs = 0)"
proof -
  obtain hdr where e: "ipv6_serialize A h bs = Inr (hdr, ipv6_fill h bs)"
    "\<And>z. ipv6_parser A (hdr @ bs @ z) =
      Inr (ipv6_fill h bs, get_packet_type (last_nxt (ip6_nxt h) (ip6_ext_hdrs h)),
        bs @ take (ipv6_excess h bs) z)"
    using ipv6_codec [OF A wf len] by blast
  have "encodes le A E prev (Some C_ipv6) (PIpv6 h # items) (hdr @ bs @ []) (PIpv6 (ipv6_fill h bs) # items')
      (pad \<or> ipv6_excess h bs = 0)" for prev
    by (rule encodes_layer_cut [OF inner, where left = "take (ipv6_excess h bs)"])
      (auto simp: e cls_parser_def keep_def)
  then show ?thesis by auto
qed

lemma encodes_udp:
  assumes A: "addrconv_ok A" and wf: "udp_wf h" and len: "udp_length_ok h bs"
    and ps: "pseudo_header A ip (8 + int (length bs)) = Inr ps" and prev: "ipvx_of E prev = Some ip"
    and inner: "encodes le A E (Some (PUdp h)) (udp_get_packet_type (udp_src_port h) (udp_dst_port h))
      items bs items' pad"
  shows "\<exists>hdr h'. encodes le A E prev (Some C_udp) (PUdp h # items) (hdr @ bs) (PUdp h' # items') True \<and>
    h' = (udp_fill h bs)\<lparr>udp_csum := udp_csum h'\<rparr> \<and>
    (udp_csum h = 0 \<longrightarrow> checksum_spec (ps @ hdr @ bs) = 0)"
proof -
  obtain hdr h' where e: "udp_serialize le A h bs (Some ip) = Inr (hdr, h')"
    "h' = (udp_fill h bs)\<lparr>udp_csum := udp_csum h'\<rparr>"
    "udp_csum h = 0 \<longrightarrow> checksum_spec (ps @ hdr @ bs) = 0"
    "\<And>z. udp_parser (hdr @ bs @ z) = Inr (h', udp_get_packet_type (udp_src_port h) (udp_dst_port h), bs)"
    using udp_codec [OF A wf len ps, of le] by blast
  have "encodes le A E prev (Some C_udp) (PUdp h # items) (hdr @ bs @ []) (PUdp h' # items') (pad \<or> True)"
    by (intro encodes_layer [OF inner, where trim = True])
      (simp_all add: e(1,4) prev cls_parser_def keep_def)
  with e(2,3) show ?thesis by auto
qed

subsection \<open>Whole frames\<close>

lemma encodes_packet:
  assumes "encodes le A E None (Some C_ethernet) items bs items' pad" "ext_shrinks E"
  shows "packet_serialize le A E \<lparr>pk_data = d, pk_protocols = items\<rparr> =
      Inr \<lparr>pk_data = bs, pk_protocols = items'\<rparr>"
    and "packet_decode A E bs = Some (Inr \<lparr>pk_data = bs, pk_protocols = items'\<rparr>)"
proof -
  show "packet_serialize le A E \<lparr>pk_data = d, pk_protocols = items\<rparr> =
      Inr \<lparr>pk_data = bs, pk_protocols = items'\<rparr>"
    using assms(1) by (simp add: packet_serialize_def encodes_def)
  have "decodes A E (Some C_ethernet) (bs @ []) items'"
    using assms(1) all_zero_simps(1) unfolding encodes_def by blast
  then have "packet_parser A E (Some C_ethernet) bs = Some (Inr items')"
    using decodes_packet [OF assms(2)] by simp
  moreover have "bs \<noteq> []" using assms(1) by (auto simp: encodes_def)
  ultimately show "packet_decode A E bs = Some (Inr \<lparr>pk_data = bs, pk_protocols = items'\<rparr>)"
    by (simp add: packet_decode_def)
qed

lemma ipv4_pseudo_header:
  assumes A: "addrconv_ok A" and wf: "ipv4_wf A h" "ip4_version h = 4" and n: "0 \<le> n" "n < 65536"
  shows "\<exists>ps. pseudo_header A \<lparr>ip_version = ip4_version h, ip_src = ip4_src h, ip_dst = ip4_dst h,
    ip_upper = ip4_proto h\<rparr> n = Inr ps"
proof -
  have c: "canon_ip4 A (ip4_src h)" "canon_ip4 A (ip4_dst h)" "0 \<le> ip4_proto h" "ip4_proto h < 256"
    using wf by (simp_all add: ipv4_wf_def)
  obtain s where s: "ip4_to_bin A (ip4_src h) = Inr s" "length s = 4"
    by (rule canon_ip4E [OF A c(1)])
  obtain d where d: "ip4_to_bin A (ip4_dst h) = Inr d" "length d = 4"
    by (rule canon_ip4E [OF A c(2)])
  have "fits ipv4_pseudo_fmt [VS s, VS d, VI (ip4_proto h), VI n]"
    using s d c n by (simp add: ipv4_pseudo_fmt_def)
  from pack_fits [OF this] show ?thesis by (simp add: pseudo_header_def wf(2) s d)
qed

lemma ipv6_pseudo_header:
  assumes "ipv6_wf A h" "ip6_version h = 6" "0 \<le> n" "n < 65536"
  shows "\<exists>ps. pseudo_header A \<lparr>ip_version = ip6_version h, ip_src = ip6_src h, ip_dst = ip6_dst h,
    ip_upper = ip6_nxt h\<rparr> n = Inr ps"
proof -
  have c: "elided A 0 (ip6_src h)" "elided A 0 (ip6_dst h)" "0 \<le> ip6_nxt h" "ip6_nxt h < 256"
    using assms(1) by (simp_all add: ipv6_wf_def)
  obtain s where s: "ip6_to_bin A (ip6_src h) = Inr s" "length s = 16"
    using c(1) by (auto simp: elided_def split: sum.splits)
  obtain d where d: "ip6_to_bin A (ip6_dst h) = Inr d" "length d = 16"
    using c(2) by (auto simp: elided_def split: sum.splits)
  have "fits ipv6_pseudo_fmt [VS s, VS d, VI n, VI (ip6_nxt h)]"
    using s d c assms(3,4) by (simp add: ipv6_pseudo_fmt_def)
  from pack_fits [OF this] show ?thesis by (simp add: pseudo_header_def assms(2) s d)
qed

text \<open>A UDP datagram in IPv4, under any tags.\<close>

lemma encodes_udp_frame:
  assumes A: "addrconv_ok A" and eth: "ethernet_wf A eth"
    and tags: "tags_lead (ethernet_get_packet_type (eth_ethertype eth)) ts (Some C_ipv4)"
    and ip: "ipv4_wf A ip" "ip4_version ip = 4" "ip4_proto ip = 17" "ip4_total_length ip = 0"
    and udp: "udp_wf u" "udp_total_length u = 0" "udp_csum u = 0"
      "udp_get_packet_type (udp_src_port u) (udp_dst_port u) = None"
    and data: "\<not> all_zero b" "int (length b) + 8 + ip4_header_length ip * 4 < 65536"
  shows "\<exists>bs ip' u'. encodes le A E None (Some C_ethernet) (PEth eth # ts @ [PIpv4 ip, PUdp u, Raw b]) bs
      (PEth eth # ts @ [PIpv4 ip', PUdp u', Raw b]) True \<and>
    ip' = ip\<lparr>ip4_total_length := ip4_header_length ip * 4 + 8 + int (length b),
            ip4_csum := ip4_csum ip'\<rparr> \<and>
    u' = u\<lparr>udp_total_length := 8 + int (length b), udp_csum := udp_csum u'\<rparr>"
proof -
  let ?ip = "\<lparr>ip_version = ip4_version ip, ip_src = ip4_src ip, ip_dst = ip4_dst ip,
    ip_upper = ip4_proto ip\<rparr>"
  have hl: "5 \<le> ip4_header_length ip" using ip(1) by (simp add: ipv4_wf_def)
  have raw: "encodes le A E (Some (PUdp u)) (udp_get_packet_type (udp_src_port u) (udp_dst_port u))
    [Raw b] b [Raw b] False" using encodes_raw [OF data(1)] udp(4) by simp
  have l: "udp_length_ok u b" using udp(2) data(2) hl by (simp add: udp_length_ok_def udp_fill_def)
  obtain ps where ps: "pseudo_header A ?ip (8 + int (length b)) = Inr ps"
    using ipv4_pseudo_header [OF A ip(1,2), of "8 + int (length b)"] data(2) hl by auto
  have pv: "ipvx_of E (Some (PIpv4 ip)) = Some ?ip" by (simp add: ipvx_of_def)
  obtain uh u' where u: "encodes le A E (Some (PIpv4 ip)) (Some C_udp) [PUdp u, Raw b] (uh @ b)
      [PUdp u', Raw b] True" "u' = (udp_fill u b)\<lparr>udp_csum := udp_csum u'\<rparr>"
    "length uh = 8"
  proof -
    obtain uh u' where e: "encodes le A E (Some (PIpv4 ip)) (Some C_udp) [PUdp u, Raw b] (uh @ b)
      [PUdp u', Raw b] True" "u' = (udp_fill u b)\<lparr>udp_csum := udp_csum u'\<rparr>"
      using encodes_udp [OF A udp(1) l ps pv raw] by blast
    have "udp_serialize le A u b (Some ?ip) = Inr (uh, u')"
      using e(1) pv by (auto simp: encodes_def res_bind_eq_Inr)
    then have "length uh = 8"
      unfolding udp_serialize_def Let_def udp_pack_def
      by (auto simp: res_bind_eq_Inr udp_fmt_def simp del: pack.simps dest!: length_pack split: if_splits)
    with e that show ?thesis by blast
  qed
  have li: "ipv4_length_ok ip (uh @ b)" using ip(4) data(2) u(3)
    by (simp add: ipv4_length_ok_def ipv4_fill_def)
  have ty: "get_packet_type (ip4_proto ip) = Some C_udp"
    by (simp add: ip(3) get_packet_type_def packet_types_def)
  have inner: "encodes le A E (Some (PIpv4 ip)) (get_packet_type (ip4_proto ip)) [PUdp u, Raw b]
      (uh @ b) [PUdp u', Raw b] True" using u(1) by (simp only: ty)
  obtain ih ip' where i: "\<forall>prev. encodes le A E prev (Some C_ipv4) [PIpv4 ip, PUdp u, Raw b]
      (ih @ uh @ b) [PIpv4 ip', PUdp u', Raw b] True"
    "ip' = (ipv4_fill ip (uh @ b))\<lparr>ip4_csum := ip4_csum ip'\<rparr>"
    using encodes_ipv4 [OF A ip(1) li inner] by blast
  from i(1) have "\<forall>prev. \<exists>bs. encodes le A E prev (Some C_ipv4) [PIpv4 ip, PUdp u, Raw b] bs
      [PIpv4 ip', PUdp u', Raw b] True" by blast
  from encodes_tags [OF tags this] obtain tb where
    "encodes le A E (Some (PEth eth)) (ethernet_get_packet_type (eth_ethertype eth))
      (ts @ [PIpv4 ip, PUdp u, Raw b]) tb (ts @ [PIpv4 ip', PUdp u', Raw b]) True" by blast
  from encodes_ethernet [OF A eth this] obtain bs where
    "encodes le A E None (Some C_ethernet) (PEth eth # ts @ [PIpv4 ip, PUdp u, Raw b]) bs
      (PEth eth # ts @ [PIpv4 ip', PUdp u', Raw b]) True" by blast
  moreover have "ip' = ip\<lparr>ip4_total_length := ip4_header_length ip * 4 + 8 + int (length b),
      ip4_csum := ip4_csum ip'\<rparr>"
    by (subst i(2)) (simp add: ipv4_fill_def ip(4) u(3))
  moreover have "u' = u\<lparr>udp_total_length := 8 + int (length b), udp_csum := udp_csum u'\<rparr>"
    by (subst u(2)) (simp add: udp_fill_def udp(2))
  ultimately show ?thesis by blast
qed

text \<open>ARP and spanning-tree frames.\<close>

lemma encodes_arp_frame:
  assumes "addrconv_ok A" "ethernet_wf A eth" "arp_wf A h" "arp_hwtype h \<noteq> 0"
    "tags_lead (ethernet_get_packet_type (eth_ethertype eth)) ts (Some C_arp)"
  shows "\<exists>bs. encodes le A E None (Some C_ethernet) (PEth eth # ts @ [PArp h]) bs
    (PEth eth # ts @ [PArp h]) True"
proof -
  have "\<forall>prev. \<exists>bs. encodes le A E prev (Some C_arp) [PArp h] bs [PArp h] True"
    using encodes_arp [OF assms(1,3,4)] by blast
  from encodes_tags [OF assms(5) this] obtain tb where
    "encodes le A E (Some (PEth eth)) (ethernet_get_packet_type (eth_ethertype eth))
      (ts @ [PArp h]) tb (ts @ [PArp h]) True" by blast
  from encodes_ethernet [OF assms(1,2) this] show ?thesis by blast
qed

lemma encodes_bpdu_frame:
  assumes "addrconv_ok A" "ethernet_wf A eth" "llc_wf l" "llc_dsap l = 0x42"
    "bpdu_wf A m" "bpdu_reread m = m" "bpdu_nonzero m"
    "ethernet_get_packet_type (eth_ethertype eth) = Some C_llc"
  shows "\<exists>bs. encodes le A E None (Some C_ethernet) [PEth eth, PLlc l, PBpdu m] bs
    [PEth eth, PLlc l, PBpdu m] True"
proof -
  have t: "get_packet_type (llc_dsap l) = Some C_bpdu"
    by (simp add: assms(4) get_packet_type_def packet_types_def)
  obtain b1 where "encodes le A E (Some (PLlc l)) (get_packet_type (llc_dsap l)) [PBpdu m] b1 [PBpdu m] True"
    using encodes_bpdu [OF assms(1,5-7)] t by metis
  from encodes_llc [OF assms(3) this] obtain b2 where
    "encodes le A E (Some (PEth eth)) (ethernet_get_packet_type (eth_ethertype eth))
      [PLlc l, PBpdu m] b2 [PLlc l, PBpdu m] True" using assms(8) by metis
  from encodes_ethernet [OF assms(1,2) this] show ?thesis by blast
qed

text \<open>The converter contract on the concrete converter, with every codec that rests on it.\<close>

interpretation unix: addr_converter unix_addrconv
  by unfold_locales (rule unix_addrconv_ok)

end
