(* ===== verification/Stp.thy ===== *)
theory Stp
  imports Cmp_Order Packet_Chain
begin

text \<open>
  The spanning-tree library \<^verbatim>\<open>ryu/lib/stplib.py\<close>: bridges, their ports, the selection of the root
  and designated ports from the received BPDUs, the port state machine, the topology-change
  notifications, and the handlers of the application \<^verbatim>\<open>Stp\<close>.

  A bridge with its ports is one record (\<open>bridge\<close>); a method of \<^verbatim>\<open>Bridge\<close> or \<^verbatim>\<open>Port\<close> is a function
  on it. Green threads switch only where the code sleeps; every handler, timer expiry and
  transmission is one step (\<open>stp_step\<close>), and a run is any sequence of them. What the code sends
  (port modifications, flows, frames, events) is appended to \<open>br_out\<close>.
\<close>

section \<open>Identifiers, priorities and times\<close>

record bridge_id =
  bi_priority :: int
  bi_ext :: int
  bi_mac :: string
  bi_value :: int

record port_id =
  pi_priority :: int
  pi_port_no :: int
  pi_value :: int

record priority =
  pr_root :: bridge_id
  pr_cost :: int
  pr_bridge :: "bridge_id option"
  pr_port :: "port_id option"

record times =
  tm_message_age :: rat
  tm_max_age :: rat
  tm_hello_time :: rat
  tm_forward_delay :: rat

definition mk_bridge_id :: "addrconv \<Rightarrow> int \<Rightarrow> int \<Rightarrow> string \<Rightarrow> bridge_id res" where
  "mk_bridge_id A priority system_id_extension mac_addr =
     res_bind (encode_bridge_id A priority system_id_extension mac_addr) (\<lambda>v.
     Inr \<lparr>bi_priority = priority, bi_ext = system_id_extension, bi_mac = mac_addr, bi_value = v\<rparr>)"

definition mk_port_id :: "int \<Rightarrow> int \<Rightarrow> port_id" where
  "mk_port_id priority port_no =
     \<lparr>pi_priority = priority, pi_port_no = port_no, pi_value = encode_port_id priority port_no\<rparr>"

text \<open>\<^verbatim>\<open>x.value\<close>, where \<open>x\<close> may be \<^verbatim>\<open>None\<close>.\<close>

definition bid_value :: "bridge_id option \<Rightarrow> int res" where
  "bid_value x = (case x of None \<Rightarrow> Inl AttributeError | Some b \<Rightarrow> Inr (bi_value b))"

definition pid_value :: "port_id option \<Rightarrow> int res" where
  "pid_value x = (case x of None \<Rightarrow> Inl AttributeError | Some p \<Rightarrow> Inr (pi_value p))"

section \<open>Comparing BPDUs\<close>

definition compare_root_path :: "int \<Rightarrow> int \<Rightarrow> int \<Rightarrow> int \<Rightarrow> int \<Rightarrow> int \<Rightarrow> cmp_result" where
  "compare_root_path path_cost1 path_cost2 bridge_id1 bridge_id2 port_id1 port_id2 =
     (let result = cmp_value path_cost1 path_cost2 in
      if result = REPEATED then
        (let result = cmp_value bridge_id1 bridge_id2 in
         if result = REPEATED then cmp_value port_id1 port_id2 else result)
      else result)"

text \<open>\<^verbatim>\<open>_cmp_obj(rcv_times, my_times)\<close>: every attribute equal, or superior.\<close>

definition cmp_times :: "times \<Rightarrow> times option \<Rightarrow> cmp_result" where
  "cmp_times t1 t2 = (if t2 = Some t1 then REPEATED else SUPERIOR)"

text \<open>The method \<^verbatim>\<open>compare_bpdu_info\<close>, with the MAC address and the port number in the last comparison.\<close>

definition compare_bpdu_info ::
    "priority option \<Rightarrow> times option \<Rightarrow> priority \<Rightarrow> times \<Rightarrow> cmp_result res" where
  "compare_bpdu_info my_priority my_times rcv_priority rcv_times =
     (case my_priority of
        None \<Rightarrow> Inr SUPERIOR
      | Some my \<Rightarrow>
          (let result = cmp_value (bi_value (pr_root rcv_priority)) (bi_value (pr_root my)) in
           if result \<noteq> REPEATED then Inr result
           else
             res_bind (bid_value (pr_bridge rcv_priority)) (\<lambda>rb.
             res_bind (bid_value (pr_bridge my)) (\<lambda>mb.
             res_bind (pid_value (pr_port rcv_priority)) (\<lambda>rp.
             res_bind (pid_value (pr_port my)) (\<lambda>mp.
             let result = compare_root_path (pr_cost rcv_priority) (pr_cost my) rb mb rp mp in
             if result \<noteq> REPEATED then Inr result
             else
               res_bind (haddr_to_int (bi_mac (the (pr_bridge my)))) (\<lambda>mac.
               let result1 = cmp_value rb mac;
                   result2 = cmp_value rp (pi_port_no (the (pr_port my))) in
               if result1 = REPEATED \<and> result2 = REPEATED then Inr SUPERIOR
               else Inr (cmp_times rcv_times my_times))))))))"

text \<open>The order the code means: root path cost, then bridge, then port.\<close>

definition cmp_path :: "int \<times> int \<times> int \<Rightarrow> int \<times> int \<times> int \<Rightarrow> cmp_result" where
  "cmp_path v w = compare_root_path (fst v) (fst w) (fst (snd v)) (fst (snd w)) (snd (snd v)) (snd (snd w))"

lemma cmp_path_key: "cmp_path v w = (if v < w then SUPERIOR else if v = w then REPEATED else INFERIOR)"
  by (cases v; cases w) (auto simp: cmp_path_def compare_root_path_def cmp_value_key)

interpretation path: three_way cmp_path "\<lambda>v. v"
  by unfold_locales (rule cmp_path_key)

section \<open>Ports\<close>

datatype pstate = DISABLE | BLOCK | LISTEN | LEARN | FORWARD

datatype role = DESIGNATED_PORT | ROOT_PORT | NON_DESIGNATED_PORT

datatype ofver = V1_0 | V1_2 | V1_3

text \<open>What the library sends: messages to the switch and events to its observers.\<close>

datatype stp_out =
    PortMod int string int int
  | AddBpduPktInFlow
  | AddNoPktInFlow int
  | DelNoPktInFlow int
  | PacketOut int bytes
  | EventTopologyChange
  | EventPortStateChange int pstate
  | EventPacketIn bytes

text \<open>\<^verbatim>\<open>OFPPhyPort\<close>: number, hardware address, state and current features.\<close>

record ofport =
  op_no :: int
  op_hw_addr :: string
  op_state :: int
  op_curr :: int

text \<open>
  \<^verbatim>\<open>Port\<close>. The flags \<^verbatim>\<open>send_tc_flg\<close> and \<^verbatim>\<open>send_tcn_flg\<close> start as \<^verbatim>\<open>None\<close>, which is false. The last
  two fields say whether the threads \<^verbatim>\<open>send_bpdu_thread\<close> and \<^verbatim>\<open>wait_bpdu_thread\<close> run.
  \<^verbatim>\<open>p_state\<close> and \<^verbatim>\<open>p_role\<close> are \<^verbatim>\<open>None\<close> only inside the constructor.
\<close>

record port =
  p_ofport :: ofport
  p_config_enable :: bool
  p_bridge_id :: bridge_id
  p_port_priority :: priority
  p_port_times :: times
  p_port_id :: port_id
  p_path_cost :: int
  p_state :: "pstate option"
  p_role :: "role option"
  p_dprio :: "priority option"
  p_dtimes :: "times option"
  p_send_tc_flg :: bool
  p_send_tc_timer :: "rat option"
  p_send_tcn_flg :: bool
  p_send_bpdu :: bool
  p_wait_bpdu :: bool

record bridge =
  br_ofver :: ofver
  br_id :: bridge_id
  br_times :: times
  br_root_priority :: priority
  br_root_times :: times
  br_ports :: "(int, port) odict"
  br_ports_state :: "(int, int) odict"
  br_ports_enable :: "int \<Rightarrow> bool option"
  br_now :: rat
  br_out :: "stp_out list"

definition emit :: "stp_out \<Rightarrow> bridge \<Rightarrow> bridge" where
  "emit ev br = br\<lparr>br_out := br_out br @ [ev]\<rparr>"

text \<open>Changing the object \<^verbatim>\<open>self.ports[n]\<close> in place.\<close>

definition od_upd :: "'k \<Rightarrow> ('v \<Rightarrow> 'v) \<Rightarrow> ('k, 'v) odict \<Rightarrow> ('k, 'v) odict" where
  "od_upd n f d = map (\<lambda>(k, v). (k, if k = n then f v else v)) d"

definition on_port :: "int \<Rightarrow> (port \<Rightarrow> port) \<Rightarrow> bridge \<Rightarrow> bridge" where
  "on_port n f br = br\<lparr>br_ports := od_upd n f (br_ports br)\<rparr>"

subsection \<open>Port configuration in the switch\<close>

text \<open>
  The tables \<^verbatim>\<open>PORT_CONFIG_V1_0\<close>, \<^verbatim>\<open>PORT_CONFIG_V1_2\<close> and \<^verbatim>\<open>PORT_CONFIG_V1_3\<close> (the last two are
  equal), over the bits of \<^verbatim>\<open>ofp_port_config\<close>.
\<close>

definition OFPPC_NO_RECV :: int where "OFPPC_NO_RECV = 4"
definition OFPPC_NO_RECV_STP :: int where "OFPPC_NO_RECV_STP = 8"
definition OFPPC_NO_FLOOD :: int where "OFPPC_NO_FLOOD = 16"
definition OFPPC_NO_FWD :: int where "OFPPC_NO_FWD = 32"
definition OFPPC_NO_PACKET_IN :: int where "OFPPC_NO_PACKET_IN = 64"

fun port_config_v1_0 :: "pstate \<Rightarrow> int" where
  "port_config_v1_0 DISABLE = OFPPC_NO_RECV_STP OR OFPPC_NO_RECV OR OFPPC_NO_FLOOD OR OFPPC_NO_FWD"
| "port_config_v1_0 BLOCK = OFPPC_NO_RECV OR OFPPC_NO_FLOOD OR OFPPC_NO_FWD"
| "port_config_v1_0 LISTEN = OFPPC_NO_RECV OR OFPPC_NO_FLOOD"
| "port_config_v1_0 LEARN = OFPPC_NO_FLOOD"
| "port_config_v1_0 FORWARD = 0"

fun port_config_v1_2 :: "pstate \<Rightarrow> int" where
  "port_config_v1_2 DISABLE = OFPPC_NO_RECV OR OFPPC_NO_FWD"
| "port_config_v1_2 BLOCK = OFPPC_NO_FWD OR OFPPC_NO_PACKET_IN"
| "port_config_v1_2 LISTEN = OFPPC_NO_PACKET_IN"
| "port_config_v1_2 LEARN = OFPPC_NO_PACKET_IN"
| "port_config_v1_2 FORWARD = 0"

text \<open>\<^verbatim>\<open>OfCtl_v1_0.set_port_status\<close> and its override in \<^verbatim>\<open>OfCtl_v1_2later\<close>: the messages sent.\<close>

definition set_port_status :: "ofver \<Rightarrow> ofport \<Rightarrow> pstate \<Rightarrow> stp_out list" where
  "set_port_status ver port state =
     (if ver = V1_0
      then [PortMod (op_no port) (op_hw_addr port) (port_config_v1_0 state) 0x7f]
      else
        PortMod (op_no port) (op_hw_addr port) (port_config_v1_2 state) 0x65 #
        (if port_config_v1_2 state AND OFPPC_NO_PACKET_IN \<noteq> 0
         then [AddNoPktInFlow (op_no port)] else [DelNoPktInFlow (op_no port)]))"

subsection \<open>Roles, states and topology changes\<close>

text \<open>\<^verbatim>\<open>_change_role\<close>: starting a thread that runs restarts it.\<close>

definition change_role :: "role \<Rightarrow> port \<Rightarrow> port" where
  "change_role new_role p =
     (if p_role p = Some new_role then p
      else p\<lparr>p_role := Some new_role,
             p_wait_bpdu := (new_role = ROOT_PORT \<or> new_role = NON_DESIGNATED_PORT)\<rparr>)"

text \<open>The part of \<^verbatim>\<open>_change_status\<close> after the notification: flags, sender thread and state.\<close>

definition enter_state :: "pstate \<Rightarrow> port \<Rightarrow> port" where
  "enter_state new_state p =
     (if new_state = DISABLE \<or> new_state = BLOCK
      then p\<lparr>p_send_tc_flg := False, p_send_tc_timer := None, p_send_tcn_flg := False,
             p_send_bpdu := False, p_state := Some new_state\<rparr>
      else if new_state = LISTEN then p\<lparr>p_send_bpdu := True, p_state := Some new_state\<rparr>
      else p\<lparr>p_state := Some new_state\<rparr>)"

definition must_notify :: "pstate \<Rightarrow> port \<Rightarrow> bool" where
  "must_notify new_state p \<longleftrightarrow> new_state = FORWARD \<or>
     (p_state p = Some FORWARD \<and> (new_state = DISABLE \<or> new_state = BLOCK))"

text \<open>\<^verbatim>\<open>transmit_tc_bpdu\<close>, with the current time.\<close>

definition transmit_tc_bpdu :: "rat \<Rightarrow> port \<Rightarrow> port" where
  "transmit_tc_bpdu now p =
     (if \<not> p_send_tc_flg p
      then p\<lparr>p_send_tc_timer := Some (now + (tm_max_age (p_port_times p) + tm_forward_delay (p_port_times p))),
             p_send_tc_flg := True\<rparr>
      else p)"

definition transmit_tcn_bpdu :: "port \<Rightarrow> port" where
  "transmit_tcn_bpdu p = p\<lparr>p_send_tcn_flg := True\<rparr>"

definition is_root_bridge :: "bridge \<Rightarrow> bool" where
  "is_root_bridge br \<longleftrightarrow> bi_value (br_id br) = bi_value (pr_root (br_root_priority br))"

text \<open>The first port with a role, in the order of the dictionary.\<close>

definition first_with_role :: "role \<Rightarrow> (int, port) odict \<Rightarrow> int option" where
  "first_with_role r d = map_option fst (find (\<lambda>(n, p). p_role p = Some r) d)"

definition topology_change_notify :: "pstate option \<Rightarrow> bridge \<Rightarrow> bridge" where
  "topology_change_notify port_state br =
     (let notice = (if port_state = Some FORWARD
                    then list_ex (\<lambda>(n, p). p_role p = Some DESIGNATED_PORT) (br_ports br)
                    else True)
      in if notice then
           (let br = emit EventTopologyChange br in
            if is_root_bridge br
            then br\<lparr>br_ports := map (\<lambda>(n, p). (n, transmit_tc_bpdu (br_now br) p)) (br_ports br)\<rparr>
            else (case first_with_role ROOT_PORT (br_ports br) of
                    None \<Rightarrow> br
                  | Some n \<Rightarrow> on_port n transmit_tcn_bpdu br))
         else br)"

definition change_status :: "int \<Rightarrow> pstate \<Rightarrow> bridge \<Rightarrow> bridge" where
  "change_status n new_state br =
     (case map_of (br_ports br) n of
        None \<Rightarrow> br
      | Some p \<Rightarrow>
          (let br = (if new_state \<noteq> DISABLE
                     then br\<lparr>br_out := br_out br @ set_port_status (br_ofver br) (p_ofport p) new_state\<rparr>
                     else br);
               br = (if must_notify new_state p then topology_change_notify (Some new_state) br else br);
               br = on_port n (enter_state new_state) br
           in emit (EventPortStateChange (op_no (p_ofport p)) new_state) br))"

text \<open>\<^verbatim>\<open>Port.up\<close> and \<^verbatim>\<open>Port.down\<close>.\<close>

definition port_up :: "int \<Rightarrow> role \<Rightarrow> priority \<Rightarrow> times \<Rightarrow> bridge \<Rightarrow> bridge" where
  "port_up n role root_priority root_times br =
     (case map_of (br_ports br) n of
        None \<Rightarrow> br
      | Some p \<Rightarrow>
          (let br = on_port n (\<lambda>p. change_role role
                 (p\<lparr>p_port_priority := root_priority, p_port_times := root_times\<rparr>)) br
           in change_status n (if p_config_enable p then LISTEN else DISABLE) br))"

definition port_down :: "int \<Rightarrow> pstate \<Rightarrow> bool \<Rightarrow> bridge \<Rightarrow> bridge" where
  "port_down n state msg_init br =
     (case map_of (br_ports br) n of
        None \<Rightarrow> br
      | Some p \<Rightarrow>
          if \<not> p_config_enable p then br
          else
            (let br = on_port n (\<lambda>p. change_role DESIGNATED_PORT
                  (if msg_init then p\<lparr>p_dprio := None, p_dtimes := None\<rparr> else p)) br
             in change_status n state br))"

section \<open>Spanning tree calculation\<close>

text \<open>
  \<^verbatim>\<open>_select_root_port\<close>, one iteration: \<open>root_port\<close> is the best port so far, \<open>own\<close> the priority the
  bridge has reset itself to.
\<close>

definition select_root_step :: "priority \<Rightarrow> port option \<Rightarrow> port \<Rightarrow> port option res" where
  "select_root_step own root_port port =
     (if p_state port = Some DISABLE then Inr root_port
      else (case p_dprio port of
          None \<Rightarrow> Inr root_port
        | Some port_msg \<Rightarrow>
            res_bind (case root_port of None \<Rightarrow> Inr own
                | Some r \<Rightarrow> (case p_dprio r of None \<Rightarrow> Inl AttributeError | Some m \<Rightarrow> Inr m)) (\<lambda>root_msg.
            res_bind
              (if bi_value (pr_root root_msg) > bi_value (pr_root port_msg) then Inr SUPERIOR
               else if bi_value (pr_root root_msg) = bi_value (pr_root port_msg) then
                 (case pr_bridge root_msg of
                    None \<Rightarrow> Inr INFERIOR
                  | Some rb \<Rightarrow>
                      res_bind (bid_value (pr_bridge port_msg)) (\<lambda>pb.
                      res_bind (pid_value (pr_port port_msg)) (\<lambda>pp.
                      res_bind (pid_value (pr_port root_msg)) (\<lambda>rp.
                      Inr (compare_root_path (pr_cost port_msg) (pr_cost root_msg) pb (bi_value rb) pp rp)))))
               else Inr INFERIOR) (\<lambda>result.
            Inr (if result = SUPERIOR then Some port else root_port)))))"

fun select_root_loop :: "priority \<Rightarrow> port option \<Rightarrow> port list \<Rightarrow> port option res" where
  "select_root_loop own root_port [] = Inr root_port"
| "select_root_loop own root_port (p # ps) =
     res_bind (select_root_step own root_port p) (\<lambda>r. select_root_loop own r ps)"

definition select_root_port :: "bridge \<Rightarrow> port option res" where
  "select_root_port br = select_root_loop (br_root_priority br) None (map snd (br_ports br))"

text \<open>\<^verbatim>\<open>_select_designated_port\<close>: whether one port is designated, then the loop.\<close>

definition is_designated :: "bridge \<Rightarrow> port \<Rightarrow> priority \<Rightarrow> port \<Rightarrow> bool res" where
  "is_designated br root_port root_msg port =
     (if p_state port = Some DISABLE \<or> op_no (p_ofport port) = op_no (p_ofport root_port) then Inr False
      else (case p_dprio port of
          None \<Rightarrow> Inr True
        | Some port_msg \<Rightarrow>
            if bi_value (pr_root port_msg) \<noteq> bi_value (pr_root root_msg) then Inr True
            else
              res_bind (bid_value (pr_bridge port_msg)) (\<lambda>pb.
              res_bind (pid_value (pr_port port_msg)) (\<lambda>pp.
              Inr (compare_root_path (pr_cost root_msg) (pr_cost port_msg - p_path_cost port)
                     (bi_value (br_id br)) pb (pi_value (p_port_id port)) pp = SUPERIOR)))))"

fun select_designated_loop :: "bridge \<Rightarrow> port \<Rightarrow> priority \<Rightarrow> port list \<Rightarrow> int list res" where
  "select_designated_loop br root_port root_msg [] = Inr []"
| "select_designated_loop br root_port root_msg (p # ps) =
     res_bind (is_designated br root_port root_msg p) (\<lambda>d.
     res_bind (select_designated_loop br root_port root_msg ps) (\<lambda>ns.
     Inr (if d then op_no (p_ofport p) # ns else ns)))"

definition set_default :: "'k \<Rightarrow> 'v \<Rightarrow> ('k, 'v) odict \<Rightarrow> ('k, 'v) odict" where
  "set_default k v d = (if map_of d k = None then d @ [(k, v)] else d)"

text \<open>\<^verbatim>\<open>_spanning_tree_algorithm\<close>.\<close>

definition spanning_tree_algorithm :: "bridge \<Rightarrow> ((int, role) odict \<times> priority \<times> times) res" where
  "spanning_tree_algorithm br =
     res_bind (select_root_port br) (\<lambda>root_port.
     case root_port of
       None \<Rightarrow>
         Inr (map (\<lambda>(n, p). (n, DESIGNATED_PORT))
                (filter (\<lambda>(n, p). p_state p \<noteq> Some DISABLE) (br_ports br)),
              br_root_priority br, br_root_times br)
     | Some r \<Rightarrow>
         (case (p_dprio r, p_dtimes r) of
            (Some root_priority, Some root_times) \<Rightarrow>
              res_bind (select_designated_loop br r root_priority (map snd (br_ports br))) (\<lambda>d_ports.
              let port_roles = [(op_no (p_ofport r), ROOT_PORT)];
                  port_roles = foldl (\<lambda>d n. od_set n DESIGNATED_PORT d) port_roles d_ports;
                  port_roles = foldl (\<lambda>d p. if p_state p \<noteq> Some DISABLE
                      then set_default (op_no (p_ofport p)) NON_DESIGNATED_PORT d else d)
                    port_roles (map snd (br_ports br))
              in Inr (port_roles, root_priority, root_times))
          | _ \<Rightarrow> Inl AttributeError))"

text \<open>\<^verbatim>\<open>recalculate_spanning_tree\<close>: all ports down, roles, all ports up.\<close>

definition all_down :: "bool \<Rightarrow> bridge \<Rightarrow> bridge" where
  "all_down init br =
     foldl (\<lambda>br n. case map_of (br_ports br) n of
         Some p \<Rightarrow> if p_state p \<noteq> Some DISABLE then port_down n BLOCK init br else br
       | None \<Rightarrow> br) br (map fst (br_ports br))"

definition all_up :: "(int, role) odict \<Rightarrow> bridge \<Rightarrow> bridge" where
  "all_up port_roles br =
     foldl (\<lambda>br (n, r). case map_of (br_ports br) n of
         Some p \<Rightarrow> if p_state p \<noteq> Some DISABLE
           then port_up n r (br_root_priority br) (br_root_times br) br else br
       | None \<Rightarrow> br) br port_roles"

definition own_priority :: "bridge_id \<Rightarrow> priority" where
  "own_priority b = \<lparr>pr_root = b, pr_cost = 0, pr_bridge = None, pr_port = None\<rparr>"

definition recalculate_spanning_tree :: "bool \<Rightarrow> bridge \<Rightarrow> bridge res" where
  "recalculate_spanning_tree init br =
     (let br = all_down init br;
          br = (if init then emit EventTopologyChange br else br);
          br = br\<lparr>br_root_priority := own_priority (br_id br), br_root_times := br_times br\<rparr>
      in if init then Inr (all_up (map (\<lambda>(n, p). (n, DESIGNATED_PORT)) (br_ports br)) br)
         else res_bind (spanning_tree_algorithm br) (\<lambda>(port_roles, root_priority, root_times).
           Inr (all_up port_roles (br\<lparr>br_root_priority := root_priority, br_root_times := root_times\<rparr>))))"

section \<open>Adding, removing and switching ports\<close>

text \<open>
  \<^verbatim>\<open>Port._DEFAULT_VALUE\<close>, a class attribute: the constructor writes the path cost of the link
  speed into it, so the next port whose speed is unknown inherits it. The \<^verbatim>\<open>config\<close> of the port
  is read for \<^verbatim>\<open>enable\<close> only.
\<close>

record port_defaults =
  pd_priority :: int
  pd_path_cost :: int
  pd_enable :: bool

definition port_default_value :: port_defaults where
  "port_default_value = \<lparr>pd_priority = DEFAULT_PORT_PRIORITY, pd_path_cost = PORT_PATH_COST_10MB,
     pd_enable = True\<rparr>"

definition path_costs :: "(int \<times> int) list" where
  "path_costs = [(64, PORT_PATH_COST_10GB), (32, PORT_PATH_COST_1GB), (16, PORT_PATH_COST_1GB),
     (8, PORT_PATH_COST_100MB), (4, PORT_PATH_COST_100MB), (2, PORT_PATH_COST_10MB),
     (1, PORT_PATH_COST_10MB)]"

definition path_cost_of :: "int \<Rightarrow> int \<Rightarrow> int" where
  "path_cost_of features dflt =
     (case find (\<lambda>(rate, c). features AND rate \<noteq> 0) path_costs of None \<Rightarrow> dflt | Some (rate, c) \<Rightarrow> c)"

definition blank_port :: "bool \<Rightarrow> bridge_id \<Rightarrow> times \<Rightarrow> ofport \<Rightarrow> port_defaults \<Rightarrow> port" where
  "blank_port config_enable bridge_id bridge_times ofp values =
     \<lparr>p_ofport = ofp, p_config_enable = config_enable, p_bridge_id = bridge_id,
      p_port_priority = own_priority bridge_id, p_port_times = bridge_times,
      p_port_id = mk_port_id (pd_priority values) (op_no ofp), p_path_cost = pd_path_cost values,
      p_state = (if config_enable then None else Some DISABLE), p_role = None,
      p_dprio = None, p_dtimes = None, p_send_tc_flg = False, p_send_tc_timer = None,
      p_send_tcn_flg = False, p_send_bpdu = False, p_wait_bpdu = False\<rparr>"

definition mk_port :: "bool option \<Rightarrow> bridge_id \<Rightarrow> times \<Rightarrow> ofport \<Rightarrow> port_defaults \<Rightarrow> port \<times> port_defaults" where
  "mk_port enable bridge_id bridge_times ofp pd =
     (let config_enable = (case enable of None \<Rightarrow> pd_enable pd | Some e \<Rightarrow> e);
          pd' = pd\<lparr>pd_path_cost := path_cost_of (op_curr ofp) (pd_path_cost pd)\<rparr>
      in (enter_state (if config_enable then LISTEN else DISABLE)
            (change_role DESIGNATED_PORT (blank_port config_enable bridge_id bridge_times ofp pd')), pd'))"

definition MAX_PORT_NO :: int where "MAX_PORT_NO = 0xfff"

definition port_add :: "ofport \<Rightarrow> port_defaults \<times> bridge \<Rightarrow> port_defaults \<times> bridge" where
  "port_add ofp = (\<lambda>(pd, br).
     if op_no ofp \<le> MAX_PORT_NO then
       (let (port, pd') = mk_port (br_ports_enable br (op_no ofp)) (br_id br) (br_times br) ofp pd;
            st = (if p_config_enable port then LISTEN else DISABLE)
        in (pd', br\<lparr>br_ports := od_set (op_no ofp) port (br_ports br),
              br_ports_state := od_set (op_no ofp) (op_state ofp) (br_ports_state br),
              br_out := br_out br @ (if st \<noteq> DISABLE then set_port_status (br_ofver br) ofp st else []) @
                [EventPortStateChange (op_no ofp) st]\<rparr>))
     else (pd, br))"

definition link_up :: "ofport \<Rightarrow> bridge \<Rightarrow> bridge res" where
  "link_up ofp br =
     (case map_of (br_ports br) (op_no ofp) of
        None \<Rightarrow> Inl KeyError
      | Some port \<Rightarrow>
          (let br = port_up (op_no ofp) DESIGNATED_PORT (br_root_priority br) (br_root_times br) br
           in Inr (br\<lparr>br_ports_state := od_set (op_no ofp) (op_state ofp) (br_ports_state br)\<rparr>)))"

definition link_down :: "ofport \<Rightarrow> bridge \<Rightarrow> bridge res" where
  "link_down ofp br =
     (case map_of (br_ports br) (op_no ofp) of
        None \<Rightarrow> Inl KeyError
      | Some port \<Rightarrow>
          (let init_stp_flg = (p_role port = Some ROOT_PORT);
               br = port_down (op_no ofp) DISABLE True br;
               br = br\<lparr>br_ports_state := od_set (op_no ofp) (op_state ofp) (br_ports_state br)\<rparr>
           in if init_stp_flg then recalculate_spanning_tree True br else Inr br))"

definition port_delete :: "ofport \<Rightarrow> bridge \<Rightarrow> bridge res" where
  "port_delete ofp br =
     res_bind (link_down ofp br) (\<lambda>br.
     Inr (br\<lparr>br_ports := od_del (op_no ofp) (br_ports br),
             br_ports_state := od_del (op_no ofp) (br_ports_state br)\<rparr>))"

section \<open>Receiving BPDUs\<close>

text \<open>\<^verbatim>\<open>Port.rcv_config_bpdu\<close>: the port afterwards, the comparison and the topology-change flag.\<close>

definition msg_priority_of :: "addrconv \<Rightarrow> config_bpdu \<Rightarrow> priority res" where
  "msg_priority_of A b =
     res_bind (mk_bridge_id A (bp_root_priority b) (bp_root_ext b) (bp_root_mac b)) (\<lambda>root_id.
     res_bind (mk_bridge_id A (bp_bridge_priority b) (bp_bridge_ext b) (bp_bridge_mac b)) (\<lambda>bridge_id.
     Inr \<lparr>pr_root = root_id, pr_cost = bp_root_path_cost b, pr_bridge = Some bridge_id,
          pr_port = Some (mk_port_id (bp_port_priority b) (bp_port_number b))\<rparr>))"

definition msg_times_of :: "config_bpdu \<Rightarrow> times" where
  "msg_times_of b = \<lparr>tm_message_age = bp_message_age b, tm_max_age = bp_max_age b,
     tm_hello_time = bp_hello_time b, tm_forward_delay = bp_forward_delay b\<rparr>"

definition rcv_config_bpdu :: "addrconv \<Rightarrow> config_bpdu \<Rightarrow> port \<Rightarrow> (port \<times> cmp_result \<times> bool) res" where
  "rcv_config_bpdu A b p =
     res_bind (msg_priority_of A b) (\<lambda>msg_priority.
     let msg_times = msg_times_of b in
     res_bind (compare_bpdu_info (p_dprio p) (p_dtimes p) msg_priority msg_times) (\<lambda>rcv_info.
     let p = (if rcv_info = SUPERIOR
              then p\<lparr>p_dprio := Some msg_priority, p_dtimes := Some msg_times\<rparr> else p);
         chk_flg = (if (rcv_info = SUPERIOR \<or> rcv_info = REPEATED) \<and>
                       (p_role p = Some ROOT_PORT \<or> p_role p = Some NON_DESIGNATED_PORT) then True
                    else rcv_info = INFERIOR \<and> p_role p = Some DESIGNATED_PORT);
         rcv_tc = (chk_flg \<and> bp_flags b AND 0x01 \<noteq> 0);
         p = (if chk_flg \<and> bp_flags b AND 0x80 \<noteq> 0 \<and> p_send_tcn_flg p
              then p\<lparr>p_send_tcn_flg := False\<rparr> else p)
     in Inr (p, rcv_info, rcv_tc)))"

section \<open>Transmitting BPDUs\<close>

definition BRIDGE_GROUP_ADDRESS :: string where
  "BRIDGE_GROUP_ADDRESS = ''01:80:c2:00:00:00''"

definition bpdu_llc :: llc where
  "bpdu_llc = \<lparr>llc_dsap = 0x42, llc_ssap = 0x42, llc_ctrl = ControlFormatU 0 0 0\<rparr>"

text \<open>
  The message \<^verbatim>\<open>_generate_config_bpdu\<close> builds. It passes no system ID extension, so both bridge
  identifiers go out with extension 0.
\<close>

definition config_bpdu_of :: "int \<Rightarrow> port \<Rightarrow> config_bpdu" where
  "config_bpdu_of flags p =
     \<lparr>bp_flags = flags,
      bp_root_priority = bi_priority (pr_root (p_port_priority p)), bp_root_ext = 0,
      bp_root_mac = bi_mac (pr_root (p_port_priority p)),
      bp_root_path_cost = pr_cost (p_port_priority p) + p_path_cost p,
      bp_bridge_priority = bi_priority (p_bridge_id p), bp_bridge_ext = 0,
      bp_bridge_mac = bi_mac (p_bridge_id p),
      bp_port_priority = pi_priority (p_port_id p), bp_port_number = op_no (p_ofport p),
      bp_message_age = tm_message_age (p_port_times p) + 1, bp_max_age = tm_max_age (p_port_times p),
      bp_hello_time = tm_hello_time (p_port_times p),
      bp_forward_delay = tm_forward_delay (p_port_times p)\<rparr>"

definition bpdu_frame :: "int \<Rightarrow> port \<Rightarrow> bpdu_proto \<Rightarrow> 'o packet" where
  "bpdu_frame len p m = add_protocol (PBpdu m) (add_protocol (PLlc bpdu_llc) (add_protocol
     (PEth \<lparr>eth_dst = BRIDGE_GROUP_ADDRESS, eth_src = op_hw_addr (p_ofport p), eth_ethertype = len\<rparr>)
     \<lparr>pk_data = [], pk_protocols = []\<rparr>))"

definition generate_config_bpdu :: "bool \<Rightarrow> addrconv \<Rightarrow> 'o ext \<Rightarrow> int \<Rightarrow> port \<Rightarrow> bytes res" where
  "generate_config_bpdu le A E flags p =
     (let b = config_bpdu_of flags p in
      res_bind (assertR (config_check_parameters b)) (\<lambda>_.
      res_bind (packet_serialize le A E (bpdu_frame (4 + 31 + 2 + 1) p (ConfigurationBPDUs b))) (\<lambda>pkt.
      Inr (pk_data pkt))))"

definition generate_tcn_bpdu :: "bool \<Rightarrow> addrconv \<Rightarrow> 'o ext \<Rightarrow> port \<Rightarrow> bytes res" where
  "generate_tcn_bpdu le A E p =
     res_bind (packet_serialize le A E (bpdu_frame (4 + 0 + 2 + 1) p TopologyChangeNotificationBPDUs)) (\<lambda>pkt.
     Inr (pk_data pkt))"

definition transmit_ack_bpdu :: "bool \<Rightarrow> addrconv \<Rightarrow> 'o ext \<Rightarrow> port \<Rightarrow> bridge \<Rightarrow> bridge res" where
  "transmit_ack_bpdu le A E p br =
     res_bind (generate_config_bpdu le A E 0x81 p) (\<lambda>d. Inr (emit (PacketOut (op_no (p_ofport p)) d) br))"

text \<open>\<^verbatim>\<open>_transmit_bpdu\<close>: one round of the sender thread of port \<open>n\<close>.\<close>

definition transmit_bpdu :: "bool \<Rightarrow> addrconv \<Rightarrow> 'o ext \<Rightarrow> int \<Rightarrow> bridge \<Rightarrow> bridge res" where
  "transmit_bpdu le A E n br =
     (case map_of (br_ports br) n of
        None \<Rightarrow> Inr br
      | Some p \<Rightarrow>
          res_bind
            (if p_role p = Some DESIGNATED_PORT then
               (let expired = (case p_send_tc_timer p of None \<Rightarrow> False | Some t \<Rightarrow> t < br_now br);
                    f = (\<lambda>p. if expired then p\<lparr>p_send_tc_timer := None, p_send_tc_flg := False\<rparr> else p);
                    p = f p; br = on_port n f br;
                    flags = (if \<not> p_send_tc_flg p then 0 else 1)
                in res_bind (generate_config_bpdu le A E flags p) (\<lambda>d.
                   Inr (emit (PacketOut (op_no (p_ofport p)) d) br)))
             else Inr br) (\<lambda>br.
          if p_send_tcn_flg p then
            res_bind (generate_tcn_bpdu le A E p) (\<lambda>d. Inr (emit (PacketOut (op_no (p_ofport p)) d) br))
          else Inr br))"

section \<open>The packet-in handler\<close>

definition is_config :: "'o proto \<Rightarrow> bool" where
  "is_config p = (case p of PBpdu (ConfigurationBPDUs h) \<Rightarrow> True | _ \<Rightarrow> False)"

definition isinstance_config :: "'o proto \<Rightarrow> bool" where
  "isinstance_config p = (case p of PBpdu (ConfigurationBPDUs h) \<Rightarrow> True | PBpdu (RstBPDUs h) \<Rightarrow> True | _ \<Rightarrow> False)"

definition is_tcn :: "'o proto \<Rightarrow> bool" where
  "is_tcn p = (p = PBpdu TopologyChangeNotificationBPDUs)"

definition is_rst :: "'o proto \<Rightarrow> bool" where
  "is_rst p = (case p of PBpdu (RstBPDUs h) \<Rightarrow> True | _ \<Rightarrow> False)"

definition forward_tc_bpdu :: "bool \<Rightarrow> bridge \<Rightarrow> bridge" where
  "forward_tc_bpdu fwd_flg br =
     br\<lparr>br_ports := map (\<lambda>(n, p). (n, p\<lparr>p_send_tc_flg := fwd_flg\<rparr>)) (br_ports br)\<rparr>"

text \<open>A configuration BPDU \<open>b\<close> received on port \<open>n\<close>.\<close>

definition config_bpdu_in :: "addrconv \<Rightarrow> int \<Rightarrow> config_bpdu \<Rightarrow> bridge \<Rightarrow> bridge res" where
  "config_bpdu_in A n b br =
     (case map_of (br_ports br) n of
        None \<Rightarrow> Inr br
      | Some in_port \<Rightarrow>
          if bp_message_age b > bp_max_age b then Inr br
          else
            res_bind (rcv_config_bpdu A b in_port) (\<lambda>(in_port, rcv_info, rcv_tc).
            let br = on_port n (\<lambda>_. in_port) br in
            res_bind
              (if rcv_info = SUPERIOR then recalculate_spanning_tree False br
               else Inr (if rcv_tc then emit EventTopologyChange br else br)) (\<lambda>br.
            Inr (case map_of (br_ports br) n of
                Some p \<Rightarrow> if p_role p = Some ROOT_PORT then forward_tc_bpdu rcv_tc br else br
              | None \<Rightarrow> br))))"

definition bridge_packet_in ::
    "bool \<Rightarrow> addrconv \<Rightarrow> 'o ext \<Rightarrow> int \<Rightarrow> bytes \<Rightarrow> bridge \<Rightarrow> bridge res" where
  "bridge_packet_in le A E in_port_no data br =
     (case map_of (br_ports br) in_port_no of
        None \<Rightarrow> Inr br
      | Some in_port \<Rightarrow>
          if p_state in_port = Some DISABLE then Inr br
          else (case packet_decode A E data of
              None \<Rightarrow> Inl (RyuError ''Packet'')
            | Some r \<Rightarrow> res_bind r (\<lambda>pkt.
                if list_ex is_config (pk_protocols pkt) then
                  (case get_protocols isinstance_config pkt of
                     [PBpdu (ConfigurationBPDUs b)] \<Rightarrow> config_bpdu_in A in_port_no b br
                   | _ \<Rightarrow> Inl ValueError)
                else if list_ex is_tcn (pk_protocols pkt) then
                  res_bind (transmit_ack_bpdu le A E in_port br) (\<lambda>br.
                  Inr (topology_change_notify None br))
                else if list_ex is_rst (pk_protocols pkt) then Inr br
                else Inr (emit (EventPacketIn data) br))))"

section \<open>Timers of a port\<close>

text \<open>\<^verbatim>\<open>_get_timer\<close> and \<^verbatim>\<open>_get_next_state\<close>; a timer of \<^verbatim>\<open>None\<close> or 0 seconds never expires.\<close>

definition get_timer :: "port \<Rightarrow> rat option" where
  "get_timer p = (case p_state p of
       Some LISTEN \<Rightarrow> Some (tm_forward_delay (p_port_times p))
     | Some LEARN \<Rightarrow> Some (tm_forward_delay (p_port_times p))
     | _ \<Rightarrow> None)"

definition get_next_state :: "port \<Rightarrow> pstate option" where
  "get_next_state p = (case p_state p of
       Some LISTEN \<Rightarrow> Some LEARN
     | Some LEARN \<Rightarrow> Some (if p_role p = Some ROOT_PORT \<or> p_role p = Some DESIGNATED_PORT
                            then FORWARD else BLOCK)
     | _ \<Rightarrow> None)"

definition timer_set :: "rat option \<Rightarrow> bool" where
  "timer_set t = (case t of None \<Rightarrow> False | Some d \<Rightarrow> d \<noteq> 0)"

text \<open>\<^verbatim>\<open>_state_machine\<close>: the timer of port \<open>n\<close> expires.\<close>

definition state_machine_timeout :: "int \<Rightarrow> bridge \<Rightarrow> bridge" where
  "state_machine_timeout n br =
     (case map_of (br_ports br) n of
        None \<Rightarrow> br
      | Some p \<Rightarrow>
          (if timer_set (get_timer p)
           then (case get_next_state p of Some s \<Rightarrow> change_status n s br | None \<Rightarrow> br) else br))"

text \<open>What \<^verbatim>\<open>_state_machine\<close> sends when it starts.\<close>

definition state_machine_start :: "int \<Rightarrow> bridge \<Rightarrow> bridge" where
  "state_machine_start n br =
     (case map_of (br_ports br) n of
        Some p \<Rightarrow> if p_state p = Some DISABLE
          then br\<lparr>br_out := br_out br @ set_port_status (br_ofver br) (p_ofport p) DISABLE\<rparr> else br
      | None \<Rightarrow> br)"

text \<open>\<^verbatim>\<open>_wait_bpdu_timer\<close>: no BPDU for \<^verbatim>\<open>max_age - message_age\<close> seconds on port \<open>n\<close>.\<close>

definition wait_bpdu_time :: "port \<Rightarrow> rat" where
  "wait_bpdu_time p = tm_max_age (p_port_times p) -
     (case p_dtimes p of None \<Rightarrow> 0 | Some t \<Rightarrow> tm_message_age t)"

definition wait_bpdu_timeout :: "int \<Rightarrow> bridge \<Rightarrow> bridge res" where
  "wait_bpdu_timeout n br =
     (case map_of (br_ports br) n of
        None \<Rightarrow> Inr br
      | Some p \<Rightarrow> if p_wait_bpdu p
          then recalculate_spanning_tree True (on_port n (\<lambda>p. p\<lparr>p_wait_bpdu := False\<rparr>) br) else Inr br)"

section \<open>Starting a bridge\<close>

text \<open>
  The values of \<^verbatim>\<open>Bridge._DEFAULT_VALUE\<close>. The constructor updates this class attribute with the
  configuration of the bridge, so the values stay for the bridges that start later.
\<close>

record bridge_values =
  bv_priority :: int
  bv_sys_ext_id :: int
  bv_max_age :: rat
  bv_hello_time :: rat
  bv_fwd_delay :: rat

record bridge_conf =
  bc_priority :: "int option"
  bc_sys_ext_id :: "int option"
  bc_max_age :: "rat option"
  bc_hello_time :: "rat option"
  bc_fwd_delay :: "rat option"
  bc_ports_enable :: "int \<Rightarrow> bool option"

definition bridge_default_value :: bridge_values where
  "bridge_default_value = \<lparr>bv_priority = DEFAULT_BRIDGE_PRIORITY, bv_sys_ext_id = 0,
     bv_max_age = DEFAULT_MAX_AGE, bv_hello_time = DEFAULT_HELLO_TIME,
     bv_fwd_delay = DEFAULT_FORWARD_DELAY\<rparr>"

definition or_else :: "'a option \<Rightarrow> 'a \<Rightarrow> 'a" where
  "or_else x y = (case x of None \<Rightarrow> y | Some v \<Rightarrow> v)"

definition merge_conf :: "bridge_conf \<Rightarrow> bridge_values \<Rightarrow> bridge_values" where
  "merge_conf c v = \<lparr>bv_priority = or_else (bc_priority c) (bv_priority v),
     bv_sys_ext_id = or_else (bc_sys_ext_id c) (bv_sys_ext_id v),
     bv_max_age = or_else (bc_max_age c) (bv_max_age v),
     bv_hello_time = or_else (bc_hello_time c) (bv_hello_time v),
     bv_fwd_delay = or_else (bc_fwd_delay c) (bv_fwd_delay v)\<rparr>"

text \<open>The bridge identifier and times from the merged values, with no port yet.\<close>

definition bare_bridge :: "addrconv \<Rightarrow> ofver \<Rightarrow> rat \<Rightarrow> bridge_values \<Rightarrow> (int \<Rightarrow> bool option) \<Rightarrow> string \<Rightarrow>
    bridge res" where
  "bare_bridge A ver now v enable system_id =
     res_bind (mk_bridge_id A (bv_priority v) (bv_sys_ext_id v) system_id) (\<lambda>bid.
     let tm = \<lparr>tm_message_age = 0, tm_max_age = bv_max_age v, tm_hello_time = bv_hello_time v,
               tm_forward_delay = bv_fwd_delay v\<rparr>
     in Inr \<lparr>br_ofver = ver, br_id = bid, br_times = tm, br_root_priority = own_priority bid,
             br_root_times = tm, br_ports = [], br_ports_state = [], br_ports_enable = enable,
             br_now = now, br_out = []\<rparr>)"

definition bridge_init :: "addrconv \<Rightarrow> ofver \<Rightarrow> rat \<Rightarrow> bridge_conf \<Rightarrow> ofport list \<Rightarrow>
    bridge_values \<times> port_defaults \<Rightarrow> (bridge_values \<times> port_defaults) \<times> bridge res" where
  "bridge_init A ver now c dp_ports = (\<lambda>(values, pd).
     let values = merge_conf c values in
     case dp_ports of
       [] \<Rightarrow> ((values, pd), Inl IndexError)
     | ofp # _ \<Rightarrow>
         (case bare_bridge A ver now values (bc_ports_enable c) (op_hw_addr ofp) of
            Inl e \<Rightarrow> ((values, pd), Inl e)
          | Inr br \<Rightarrow>
              (let (pd, br) = foldl (\<lambda>s ofport. port_add ofport s) (pd, br) dp_ports;
                   br = (if ver = V1_2 \<or> ver = V1_3 then emit AddBpduPktInFlow br else br)
               in ((values, pd), Inr br))))"

section \<open>The application\<close>

record stp_app =
  app_config :: "int \<Rightarrow> bridge_conf option"
  app_bridges :: "(int, bridge) odict"
  app_bridge_values :: bridge_values
  app_port_defaults :: port_defaults

definition empty_conf :: bridge_conf where
  "empty_conf = \<lparr>bc_priority = None, bc_sys_ext_id = None, bc_max_age = None, bc_hello_time = None,
     bc_fwd_delay = None, bc_ports_enable = (\<lambda>_. None)\<rparr>"

definition set_config :: "(int \<Rightarrow> bridge_conf option) \<Rightarrow> stp_app \<Rightarrow> stp_app" where
  "set_config conf app = app\<lparr>app_config := conf\<rparr>"

definition unregister_bridge :: "int \<Rightarrow> stp_app \<Rightarrow> stp_app" where
  "unregister_bridge dp_id app =
     (if map_of (app_bridges app) dp_id \<noteq> None
      then app\<lparr>app_bridges := od_del dp_id (app_bridges app)\<rparr> else app)"

definition register_bridge :: "addrconv \<Rightarrow> ofver \<Rightarrow> rat \<Rightarrow> int \<Rightarrow> ofport list \<Rightarrow> stp_app \<Rightarrow>
    stp_app \<times> unit res" where
  "register_bridge A ver now dp_id dp_ports app =
     (let app = unregister_bridge dp_id app;
          ((values, pd), r) = bridge_init A ver now (or_else (app_config app dp_id) empty_conf) dp_ports
             (app_bridge_values app, app_port_defaults app);
          app = app\<lparr>app_bridge_values := values, app_port_defaults := pd\<rparr>
      in case r of Inl e \<Rightarrow> (app, Inl e)
         | Inr br \<Rightarrow> (app\<lparr>app_bridges := od_set dp_id br (app_bridges app)\<rparr>, Inr ()))"

datatype dispatcher = MAIN_DISPATCHER | DEAD_DISPATCHER

definition dispacher_change :: "addrconv \<Rightarrow> ofver \<Rightarrow> rat \<Rightarrow> int \<Rightarrow> ofport list \<Rightarrow> dispatcher \<Rightarrow> stp_app \<Rightarrow>
    stp_app \<times> unit res" where
  "dispacher_change A ver now dp_id dp_ports st app =
     (case st of MAIN_DISPATCHER \<Rightarrow> register_bridge A ver now dp_id dp_ports app
      | DEAD_DISPATCHER \<Rightarrow> (unregister_bridge dp_id app, Inr ()))"

text \<open>\<^verbatim>\<open>packet_in_handler\<close> of the application hands the message to the bridge.\<close>

definition app_packet_in :: "bool \<Rightarrow> addrconv \<Rightarrow> 'o ext \<Rightarrow> int \<Rightarrow> int \<Rightarrow> bytes \<Rightarrow> stp_app \<Rightarrow> stp_app res" where
  "app_packet_in le A E dp_id in_port data app =
     (case map_of (app_bridges app) dp_id of
        None \<Rightarrow> Inr app
      | Some br \<Rightarrow> res_bind (bridge_packet_in le A E in_port data br) (\<lambda>br.
          Inr (app\<lparr>app_bridges := od_set dp_id br (app_bridges app)\<rparr>)))"

datatype port_reason = OFPPR_ADD | OFPPR_DELETE | OFPPR_MODIFY

definition port_status_handler :: "int \<Rightarrow> ofport \<Rightarrow> port_reason \<Rightarrow> stp_app \<Rightarrow> stp_app res" where
  "port_status_handler dp_id port reason app =
     (let link_down_flg = (op_state port AND 1 \<noteq> 0) in
      case map_of (app_bridges app) dp_id of
        None \<Rightarrow> Inr app
      | Some br \<Rightarrow>
         (case reason of
            OFPPR_ADD \<Rightarrow>
              (let (pd, br) = port_add port (app_port_defaults app, br)
               in Inr (app\<lparr>app_port_defaults := pd, app_bridges := od_set dp_id br (app_bridges app)\<rparr>))
          | OFPPR_DELETE \<Rightarrow> res_bind (port_delete port br) (\<lambda>br.
              Inr (app\<lparr>app_bridges := od_set dp_id br (app_bridges app)\<rparr>))
          | OFPPR_MODIFY \<Rightarrow>
              (case map_of (br_ports_state br) (op_no port) of
                 None \<Rightarrow> Inl KeyError
               | Some st \<Rightarrow>
                   if st = op_state port then Inr app
                   else res_bind (if link_down_flg then link_down port br else link_up port br) (\<lambda>br.
                     Inr (app\<lparr>app_bridges := od_set dp_id br (app_bridges app)\<rparr>)))))"

end
