(* ===== verification/Stp_Proofs.thy ===== *)
theory Stp_Proofs
  imports Stp
begin

text \<open>
  The spanning-tree library, proved: what one recalculation does to every port (stated on the
  port records without the topology-change flags, \<open>core\<close>), which port becomes the root port and
  which become designated, the invariant of a bridge over every step, and how ports come to
  forward.
\<close>

section \<open>Ports without the topology-change flags\<close>

definition port_core :: "port \<Rightarrow> port" where
  "port_core p = p\<lparr>p_send_tc_flg := False, p_send_tc_timer := None, p_send_tcn_flg := False\<rparr>"

definition core :: "(int, port) odict \<Rightarrow> (int, port) odict" where
  "core d = map (\<lambda>(n, p). (n, port_core p)) d"

text \<open>The rest of a bridge: everything but the ports and the output.\<close>

definition frame :: "bridge \<Rightarrow> bridge" where
  "frame br = br\<lparr>br_ports := [], br_out := []\<rparr>"

lemma port_core_simps [simp]:
  "port_core (port_core p) = port_core p"
  "p_state (port_core p) = p_state p" "p_role (port_core p) = p_role p"
  "p_dprio (port_core p) = p_dprio p" "p_dtimes (port_core p) = p_dtimes p"
  "p_config_enable (port_core p) = p_config_enable p" "p_ofport (port_core p) = p_ofport p"
  "p_send_bpdu (port_core p) = p_send_bpdu p" "p_wait_bpdu (port_core p) = p_wait_bpdu p"
  "p_port_priority (port_core p) = p_port_priority p" "p_port_times (port_core p) = p_port_times p"
  "p_path_cost (port_core p) = p_path_cost p" "p_port_id (port_core p) = p_port_id p"
  by (simp_all add: port_core_def)

lemma map_fst_core [simp]: "map fst (core d) = map fst d"
  by (simp add: core_def case_prod_beta comp_def)

lemma map_fst_od_upd [simp]: "map fst (od_upd n f d) = map fst d"
  by (simp add: od_upd_def case_prod_beta comp_def)

lemma map_of_core: "map_of (core d) n = map_option port_core (map_of d n)"
  by (induction d) (auto simp: core_def)

lemma map_of_od_upd: "map_of (od_upd n f d) m = (if m = n then map_option f (map_of d n) else map_of d m)"
  by (induction d) (auto simp: od_upd_def)

lemma od_upd_absent: "map_of d n = None \<Longrightarrow> od_upd n f d = d"
  by (induction d) (auto simp: od_upd_def split: if_splits)

lemma od_upd_id: "od_upd n (\<lambda>p. p) d = d"
  by (simp add: od_upd_def case_prod_beta)

lemma od_upd_od_upd: "od_upd n f (od_upd n g d) = od_upd n (\<lambda>p. f (g p)) d"
  by (simp add: od_upd_def case_prod_beta comp_def)

lemma core_od_upd:
  "(\<And>p. port_core (f p) = port_core (g (port_core p))) \<Longrightarrow>
    core (od_upd n f d) = od_upd n (\<lambda>p. port_core (g p)) (core d)"
  by (simp add: od_upd_def core_def case_prod_beta comp_def)

lemma od_upd_cong_at:
  "(\<And>p. map_of d n = Some p \<Longrightarrow> f p = g p) \<Longrightarrow> od_wf d \<Longrightarrow> od_upd n f d = od_upd n g d"
  unfolding od_upd_def by (auto simp: map_of_eq_Some_iff_od)

text \<open>Changing ports one after the other, each key once, is changing them all.\<close>

lemma foldl_od_upd:
  "distinct (map fst rs) \<Longrightarrow>
    foldl (\<lambda>d (n, r). od_upd n (f r) d) d rs =
      map (\<lambda>(n, v). (n, case map_of rs n of Some r \<Rightarrow> f r v | None \<Rightarrow> v)) d"
proof (induction rs arbitrary: d)
  case Nil
  show ?case by simp
next
  case (Cons nr rs)
  obtain n r where nr: "nr = (n, r)" by (cases nr)
  from Cons.prems have "map_of rs n = None" by (simp add: nr map_of_eq_None_iff)
  with Cons show ?case
    by (auto simp: nr od_upd_def split: option.splits)
qed

subsection \<open>The operations on cores\<close>

definition enter_c :: "pstate \<Rightarrow> port \<Rightarrow> port" where
  "enter_c s p = port_core (enter_state s p)"

definition up_c :: "role \<Rightarrow> priority \<Rightarrow> times \<Rightarrow> port \<Rightarrow> port" where
  "up_c r prio tm p = enter_c (if p_config_enable p then LISTEN else DISABLE)
     (change_role r (p\<lparr>p_port_priority := prio, p_port_times := tm\<rparr>))"

definition down_c :: "pstate \<Rightarrow> bool \<Rightarrow> port \<Rightarrow> port" where
  "down_c s init p = (if \<not> p_config_enable p then p
     else enter_c s (change_role DESIGNATED_PORT (if init then p\<lparr>p_dprio := None, p_dtimes := None\<rparr> else p)))"

lemma core_transmit: "core (map (\<lambda>(n, p). (n, transmit_tc_bpdu now p)) d) = core d"
  by (auto simp: core_def transmit_tc_bpdu_def port_core_def)

lemma core_on_port_tcn: "core (od_upd n transmit_tcn_bpdu d) = core d"
  by (auto simp: core_def od_upd_def transmit_tcn_bpdu_def port_core_def)

lemma notify_core:
  "core (br_ports (topology_change_notify s br)) = core (br_ports br)"
  "frame (topology_change_notify s br) = frame br"
  by (auto simp: topology_change_notify_def Let_def emit_def on_port_def core_transmit core_on_port_tcn
      frame_def split: option.splits)

lemma enter_state_core: "port_core (enter_state s (port_core p)) = port_core (enter_state s p)"
  by (auto simp: enter_state_def port_core_def)

lemma change_role_core: "change_role r (port_core p) = port_core (change_role r p)"
  by (auto simp: change_role_def port_core_def)

lemma change_status_core:
  "core (br_ports (change_status n s br)) = od_upd n (enter_c s) (core (br_ports br))"
  "frame (change_status n s br) = frame br"
proof -
  have e: "core (od_upd n (enter_state s) d) = od_upd n (enter_c s) (core d)" for d
    unfolding enter_c_def by (rule core_od_upd) (rule enter_state_core [symmetric])
  have a: "map_of d n = None \<Longrightarrow> od_upd n (enter_c s) (core d) = core d" for d
    by (intro od_upd_absent) (simp add: map_of_core)
  show "core (br_ports (change_status n s br)) = od_upd n (enter_c s) (core (br_ports br))"
    by (auto simp: change_status_def Let_def emit_def on_port_def e a notify_core split: option.splits)
  have "frame (br1\<lparr>br_ports := d, br_out := z\<rparr>) = frame br1" for br1 d z
    by (simp add: frame_def)
  then have f: "frame (emit ev (on_port n g br1)) = frame br1" for ev g br1
    by (simp add: emit_def on_port_def frame_def)
  have o: "frame (br1\<lparr>br_out := z\<rparr>) = frame br1" for br1 z
    by (simp add: frame_def)
  show "frame (change_status n s br) = frame br"
    by (auto simp: change_status_def Let_def f notify_core o split: option.splits)
qed


lemma od_wf_core [simp]: "od_wf (core d) = od_wf d"
  by (simp add: od_wf_def)

lemma frame_on_port [simp]: "frame (on_port n g br) = frame br"
  by (simp add: on_port_def frame_def)

lemma port_up_core:
  assumes "od_wf (br_ports br)"
  shows "core (br_ports (port_up n r prio tm br)) = od_upd n (up_c r prio tm) (core (br_ports br))"
    and "frame (port_up n r prio tm br) = frame br"
proof -
  let ?g = "\<lambda>p. change_role r (p\<lparr>p_port_priority := prio, p_port_times := tm\<rparr>)"
  show "core (br_ports (port_up n r prio tm br)) = od_upd n (up_c r prio tm) (core (br_ports br))"
  proof (cases "map_of (br_ports br) n")
    case None
    then show ?thesis by (simp add: port_up_def od_upd_absent map_of_core)
  next
    case (Some p)
    let ?s = "if p_config_enable p then LISTEN else DISABLE"
    have c: "core (od_upd n ?g d) = od_upd n (\<lambda>p. port_core (?g p)) (core d)" for d
      by (rule core_od_upd) (auto simp: change_role_def port_core_def)
    have "core (br_ports (port_up n r prio tm br)) =
        od_upd n (\<lambda>q. enter_c ?s (port_core (?g q))) (core (br_ports br))"
      using Some by (simp add: port_up_def Let_def change_status_core on_port_def c od_upd_od_upd)
    also have "\<dots> = od_upd n (up_c r prio tm) (core (br_ports br))"
      using Some assms
      by (intro od_upd_cong_at) (auto simp: map_of_core up_c_def enter_c_def enter_state_core)
    finally show ?thesis .
  qed
  show "frame (port_up n r prio tm br) = frame br"
    by (auto simp: port_up_def Let_def change_status_core split: option.splits)
qed

lemma port_down_core:
  assumes "od_wf (br_ports br)"
  shows "core (br_ports (port_down n s init br)) = od_upd n (down_c s init) (core (br_ports br))"
    and "frame (port_down n s init br) = frame br"
proof -
  let ?g = "\<lambda>p. change_role DESIGNATED_PORT (if init then p\<lparr>p_dprio := None, p_dtimes := None\<rparr> else p)"
  show "core (br_ports (port_down n s init br)) = od_upd n (down_c s init) (core (br_ports br))"
  proof (cases "map_of (br_ports br) n")
    case None
    then show ?thesis by (simp add: port_down_def od_upd_absent map_of_core)
  next
    case (Some p)
    show ?thesis
    proof (cases "p_config_enable p")
      case True
      have c: "core (od_upd n ?g d) = od_upd n (\<lambda>p. port_core (?g p)) (core d)" for d
        by (rule core_od_upd) (auto simp: change_role_def port_core_def)
      have "core (br_ports (port_down n s init br)) =
          od_upd n (\<lambda>q. enter_c s (port_core (?g q))) (core (br_ports br))"
        using Some True
        by (simp add: port_down_def Let_def change_status_core on_port_def c od_upd_od_upd)
      also have "\<dots> = od_upd n (down_c s init) (core (br_ports br))"
        using Some True assms
        by (intro od_upd_cong_at) (auto simp: map_of_core down_c_def enter_c_def enter_state_core)
      finally show ?thesis .
    next
      case False
      have "od_upd n (down_c s init) (core (br_ports br)) = od_upd n (\<lambda>p. p) (core (br_ports br))"
        using Some False assms by (intro od_upd_cong_at) (auto simp: map_of_core down_c_def)
      with Some False show ?thesis by (simp add: port_down_def od_upd_id)
    qed
  qed
  show "frame (port_down n s init br) = frame br"
    by (auto simp: port_down_def Let_def change_status_core split: option.splits)
qed

text \<open>A fold whose steps act on cores, one port each, acts on cores as the fold of the actions.\<close>

lemma od_wf_of_core: "core d = e \<Longrightarrow> od_wf e \<Longrightarrow> od_wf d"
  by auto

lemma od_wf_od_upd [simp]: "od_wf (od_upd n f d) = od_wf d"
  by (simp add: od_wf_def)

lemma foldl_core:
  assumes step: "\<And>br x. od_wf (br_ports br) \<Longrightarrow> frame br = fr \<Longrightarrow>
      core (br_ports (op br x)) = od_upd (fst x) (f (snd x)) (core (br_ports br)) \<and> frame (op br x) = fr"
    and "od_wf (br_ports br)" "frame br = fr" "distinct (map fst xs)"
  shows "core (br_ports (foldl op br xs)) =
      map (\<lambda>(n, v). (n, case map_of xs n of Some r \<Rightarrow> f r v | None \<Rightarrow> v)) (core (br_ports br))"
    and "frame (foldl op br xs) = fr"
proof -
  have "core (br_ports (foldl op br xs)) = foldl (\<lambda>d (n, r). od_upd n (f r) d) (core (br_ports br)) xs \<and>
      frame (foldl op br xs) = fr"
    using assms(2,3)
  proof (induction xs arbitrary: br)
    case (Cons x xs)
    from step [OF Cons.prems]
    have s: "core (br_ports (op br x)) = od_upd (fst x) (f (snd x)) (core (br_ports br))"
      "frame (op br x) = fr" by auto
    then have "od_wf (br_ports (op br x))" using Cons.prems(1) by (metis od_wf_core od_wf_od_upd)
    from Cons.IH [OF this s(2)] s show ?case by (simp add: case_prod_beta)
  qed simp
  with foldl_od_upd [OF assms(4), of f "core (br_ports br)"] show
    "core (br_ports (foldl op br xs)) =
      map (\<lambda>(n, v). (n, case map_of xs n of Some r \<Rightarrow> f r v | None \<Rightarrow> v)) (core (br_ports br))"
    "frame (foldl op br xs) = fr" by auto
qed

definition up_if :: "priority \<Rightarrow> times \<Rightarrow> role \<Rightarrow> port \<Rightarrow> port" where
  "up_if prio tm r p = (if p_state p \<noteq> Some DISABLE then up_c r prio tm p else p)"

definition down_if :: "bool \<Rightarrow> port \<Rightarrow> port" where
  "down_if init p = (if p_state p \<noteq> Some DISABLE then down_c BLOCK init p else p)"

lemma guarded_core:
  assumes wf: "od_wf (br_ports br)"
    and act: "core (br_ports br') = od_upd n f (core (br_ports br)) \<and> frame br' = frame br"
    and g: "g = (\<lambda>p. if p_state p \<noteq> Some DISABLE then f p else p)"
  shows "core (br_ports (case map_of (br_ports br) n of
         Some p \<Rightarrow> if p_state p \<noteq> Some DISABLE then br' else br | None \<Rightarrow> br))
       = od_upd n g (core (br_ports br)) \<and>
     frame (case map_of (br_ports br) n of
         Some p \<Rightarrow> if p_state p \<noteq> Some DISABLE then br' else br | None \<Rightarrow> br) = frame br"
proof (cases "map_of (br_ports br) n")
  case None
  then show ?thesis by (simp add: od_upd_absent map_of_core)
next
  case (Some p)
  have "od_upd n g (core (br_ports br)) =
      od_upd n (if p_state p \<noteq> Some DISABLE then f else (\<lambda>p. p)) (core (br_ports br))"
    using Some wf by (intro od_upd_cong_at) (auto simp: map_of_core g)
  with Some act show ?thesis by (cases "p_state p = Some DISABLE") (simp_all add: od_upd_id)
qed

lemma all_up_core:
  assumes "od_wf (br_ports br)" "distinct (map fst roles)"
  shows "core (br_ports (all_up roles br)) = map (\<lambda>(n, p). (n, case map_of roles n of
      Some r \<Rightarrow> up_if (br_root_priority br) (br_root_times br) r p | None \<Rightarrow> p)) (core (br_ports br))"
    and "frame (all_up roles br) = frame br"
proof -
  define op where "op = (\<lambda>b (n, r). case map_of (br_ports b) n of
         Some p \<Rightarrow> if p_state p \<noteq> Some DISABLE
           then port_up n r (br_root_priority b) (br_root_times b) b else b
       | None \<Rightarrow> b)"
  have s: "core (br_ports (op b x)) =
        od_upd (fst x) (up_if (br_root_priority br) (br_root_times br) (snd x)) (core (br_ports b)) \<and>
      frame (op b x) = frame br" if wf: "od_wf (br_ports b)" and fr: "frame b = frame br" for b x
  proof -
    have e: "br_root_priority b = br_root_priority br" "br_root_times b = br_root_times br"
      using fr by (cases b; cases br; simp add: frame_def)+
    obtain n r where x: "x = (n, r)" by (cases x)
    show ?thesis
      using guarded_core [OF wf conjI [OF port_up_core [OF wf]] refl,
          of n r "br_root_priority b" "br_root_times b"] fr
      unfolding x op_def e by (simp add: up_if_def [abs_def])
  qed
  show "core (br_ports (all_up roles br)) = map (\<lambda>(n, p). (n, case map_of roles n of
      Some r \<Rightarrow> up_if (br_root_priority br) (br_root_times br) r p | None \<Rightarrow> p)) (core (br_ports br))"
    "frame (all_up roles br) = frame br"
    using foldl_core [OF s assms(1) refl assms(2)] unfolding all_up_def op_def by auto
qed

lemma all_down_core:
  assumes "od_wf (br_ports br)"
  shows "core (br_ports (all_down init br)) = map (\<lambda>(n, p). (n, down_if init p)) (core (br_ports br))"
    and "frame (all_down init br) = frame br"
proof -
  define op where "op = (\<lambda>b (n, u :: unit). case map_of (br_ports b) n of
         Some p \<Rightarrow> if p_state p \<noteq> Some DISABLE then port_down n BLOCK init b else b
       | None \<Rightarrow> b)"
  define xs where "xs = map (\<lambda>n. (n, ())) (map fst (br_ports br))"
  have s: "core (br_ports (op b x)) = od_upd (fst x) (down_if init) (core (br_ports b)) \<and>
      frame (op b x) = frame br" if wf: "od_wf (br_ports b)" and fr: "frame b = frame br" for b x
    using guarded_core [OF wf conjI [OF port_down_core [OF wf]] refl, of "fst x" BLOCK init] fr
    by (simp add: op_def down_if_def [abs_def] case_prod_beta)
  have a: "all_down init br = foldl op br xs"
    by (simp add: all_down_def op_def xs_def foldl_map)
  have k: "map fst xs = map fst (br_ports br)" by (simp add: xs_def comp_def)
  have d: "distinct (map fst xs)" using assms by (simp add: k od_wf_def)
  have m: "map_of xs n = Some ()" if "(n, p) \<in> set (core (br_ports br))" for n p
  proof -
    have "n \<in> fst ` set xs"
      using that k by (metis (no_types, lifting) fst_conv image_eqI list.set_map map_fst_core)
    then show ?thesis by (metis map_of_eq_None_iff option.exhaust old.unit.exhaust)
  qed
  show "core (br_ports (all_down init br)) = map (\<lambda>(n, p). (n, down_if init p)) (core (br_ports br))"
    "frame (all_down init br) = frame br"
    unfolding a using foldl_core [where f = "\<lambda>_. down_if init", OF s assms refl d]
    by (auto simp: m intro!: map_cong)
qed

section \<open>The root port\<close>

text \<open>
  Received messages always carry the sender's bridge and port identifiers; only the priority a
  bridge gives itself has none.
\<close>

definition ids_ok :: "priority \<Rightarrow> bool" where
  "ids_ok m \<longleftrightarrow> pr_bridge m \<noteq> None \<and> pr_port m \<noteq> None"

definition dprio_ok :: "port \<Rightarrow> bool" where
  "dprio_ok p \<longleftrightarrow> (p_dprio p = None \<longleftrightarrow> p_dtimes p = None) \<and>
     (p_dprio p \<noteq> None \<longrightarrow> ids_ok (the (p_dprio p)))"

definition active :: "port \<Rightarrow> bool" where
  "active p \<longleftrightarrow> p_state p \<noteq> Some DISABLE \<and> p_dprio p \<noteq> None"

definition msg :: "port \<Rightarrow> priority" where
  "msg p = the (p_dprio p)"

text \<open>The priority vector of a message: root, path cost, sending bridge, sending port.\<close>

definition vector :: "priority \<Rightarrow> int \<times> int \<times> int \<times> int" where
  "vector m = (bi_value (pr_root m), pr_cost m, bi_value (the (pr_bridge m)), pi_value (the (pr_port m)))"

definition cmp_msg :: "priority \<Rightarrow> priority \<Rightarrow> cmp_result" where
  "cmp_msg m1 m2 =
     (let result = cmp_value (bi_value (pr_root m1)) (bi_value (pr_root m2)) in
      if result = REPEATED then
        compare_root_path (pr_cost m1) (pr_cost m2) (bi_value (the (pr_bridge m1)))
          (bi_value (the (pr_bridge m2))) (pi_value (the (pr_port m1))) (pi_value (the (pr_port m2)))
      else result)"

lemma cmp_msg_key: "cmp_msg m1 m2 = (if vector m1 < vector m2 then SUPERIOR
    else if vector m1 = vector m2 then REPEATED else INFERIOR)"
  by (auto simp: cmp_msg_def compare_root_path_def cmp_value_key vector_def Let_def)

interpretation msg: three_way cmp_msg vector
  by unfold_locales (rule cmp_msg_key)

interpretation port_msg: three_way "\<lambda>p q. cmp_msg (msg p) (msg q)" "\<lambda>p. vector (msg p)"
  by unfold_locales (rule cmp_msg_key)

definition candidate :: "bridge_id \<Rightarrow> port \<Rightarrow> bool" where
  "candidate b p \<longleftrightarrow> active p \<and> bi_value (pr_root (msg p)) < bi_value b"

lemma select_step_some:
  assumes "dprio_ok r" "p_dprio r \<noteq> None" "dprio_ok p"
  shows "select_root_step own (Some r) p =
    Inr (Some (if active p \<and> cmp_msg (msg p) (msg r) = SUPERIOR then p else r))"
  using assms
  by (auto simp: select_root_step_def active_def msg_def dprio_ok_def ids_ok_def bid_value_def pid_value_def
      cmp_msg_def cmp_value_key Let_def split: option.splits)

lemma select_step_none:
  "select_root_step (own_priority b) None p = Inr (if candidate b p then Some p else None)"
  by (auto simp: select_root_step_def own_priority_def candidate_def active_def msg_def split: option.splits)

lemma select_loop_some:
  "dprio_ok r \<Longrightarrow> p_dprio r \<noteq> None \<Longrightarrow> (\<And>p. p \<in> set ps \<Longrightarrow> dprio_ok p) \<Longrightarrow>
    select_root_loop own (Some r) ps =
      Inr (Some (keep_best (\<lambda>p q. cmp_msg (msg p) (msg q)) r (filter active ps)))"
proof (induction ps arbitrary: r)
  case (Cons p ps)
  then show ?case
    by (cases "active p") (auto simp: select_step_some simp: active_def)
qed simp

lemma select_loop_none:
  assumes "\<forall>p \<in> set ps. dprio_ok p"
  shows "(select_root_loop (own_priority b) None ps = Inr None \<and> (\<forall>p \<in> set ps. \<not> candidate b p)) \<or>
    (\<exists>r. select_root_loop (own_priority b) None ps = Inr (Some r) \<and> r \<in> set ps \<and> candidate b r \<and>
       (\<forall>q \<in> set ps. active q \<longrightarrow> vector (msg r) \<le> vector (msg q)))"
  using assms
proof (induction ps)
  case (Cons p ps)
  show ?case
  proof (cases "candidate b p")
    case True
    let ?r = "keep_best (\<lambda>p q. cmp_msg (msg p) (msg q)) p (filter active ps)"
    have "active p" using True by (simp add: candidate_def)
    then have l: "select_root_loop (own_priority b) None (p # ps) = Inr (Some ?r)"
      using True Cons.prems by (simp add: select_step_none select_loop_some active_def)
    have i: "?r \<in> insert p (set (filter active ps))" by (rule port_msg.keep_best_in)
    have le: "vector (msg ?r) \<le> vector (msg q)" if "q \<in> set (p # ps)" "active q" for q
      by (rule port_msg.keep_best_le) (use that in auto)
    have "vector (msg ?r) \<le> vector (msg p)" using le \<open>active p\<close> by simp
    then have "bi_value (pr_root (msg ?r)) \<le> bi_value (pr_root (msg p))"
      by (auto simp: vector_def)
    then have "candidate b ?r" using i True by (auto simp: candidate_def)
    moreover have "?r \<in> set (p # ps)" using i by auto
    ultimately show ?thesis using l le by blast
  next
    case False
    have e: "select_root_loop (own_priority b) None (p # ps) = select_root_loop (own_priority b) None ps"
      using False by (simp add: select_step_none)
    have "\<forall>q \<in> set ps. dprio_ok q" using Cons.prems by simp
    from Cons.IH [OF this] show ?thesis
    proof (elim disjE exE conjE)
      assume "select_root_loop (own_priority b) None ps = Inr None" "\<forall>p \<in> set ps. \<not> candidate b p"
      with e False show ?thesis by simp
    next
      fix r assume r: "select_root_loop (own_priority b) None ps = Inr (Some r)" "r \<in> set ps"
        "candidate b r" "\<forall>q \<in> set ps. active q \<longrightarrow> vector (msg r) \<le> vector (msg q)"
      have "vector (msg r) \<le> vector (msg p)" if "active p"
        using that False r(3) by (auto simp: candidate_def vector_def)
      with r e show ?thesis by auto
    qed
  qed
qed simp

section \<open>Roles\<close>

lemma designated_defined:
  assumes "dprio_ok p"
  shows "\<exists>d. is_designated br r m p = Inr d \<and>
    (d \<longrightarrow> p_state p \<noteq> Some DISABLE \<and> op_no (p_ofport p) \<noteq> op_no (p_ofport r))"
  using assms
  by (auto simp: is_designated_def dprio_ok_def ids_ok_def bid_value_def pid_value_def split: option.splits)

lemma designated_spec:
  assumes "dprio_ok q" "p_state q \<noteq> Some DISABLE" "op_no (p_ofport q) \<noteq> op_no (p_ofport r)"
  shows "is_designated br r m q = Inr True \<longleftrightarrow>
    p_dprio q = None \<or> bi_value (pr_root (msg q)) \<noteq> bi_value (pr_root m) \<or>
    (pr_cost m, bi_value (br_id br), pi_value (p_port_id q)) <
      (pr_cost (msg q) - p_path_cost q, bi_value (the (pr_bridge (msg q))), pi_value (the (pr_port (msg q))))"
  using assms path.superior_iff [unfolded cmp_path_def]
  by (auto simp: is_designated_def dprio_ok_def ids_ok_def bid_value_def pid_value_def msg_def
      compare_root_path_def cmp_value_key Let_def split: option.splits if_splits)

lemma designated_loop:
  assumes "\<And>p. p \<in> set ps \<Longrightarrow> dprio_ok p"
  shows "\<exists>ns. select_designated_loop br r m ps = Inr ns \<and>
    set ns = {op_no (p_ofport p) | p. p \<in> set ps \<and> is_designated br r m p = Inr True}"
  using assms
proof (induction ps)
  case (Cons p ps)
  then obtain ns where ns: "select_designated_loop br r m ps = Inr ns"
    "set ns = {op_no (p_ofport p) | p. p \<in> set ps \<and> is_designated br r m p = Inr True}" by auto
  from Cons.prems obtain d where "is_designated br r m p = Inr d"
    using designated_defined by (metis list.set_intros(1))
  with ns show ?case by (cases d) auto
qed simp

lemma map_of_set_default: "map_of (set_default k v d) = (\<lambda>x. if x = k \<and> map_of d k = None then Some v else map_of d x)"
  by (auto simp: set_default_def fun_eq_iff map_add_def split: option.splits)

lemma od_wf_set_default [simp]: "od_wf d \<Longrightarrow> od_wf (set_default k v d)"
  by (auto simp: set_default_def od_wf_def map_of_eq_None_iff)

lemma map_of_fold_od_set:
  "map_of (foldl (\<lambda>d n. od_set n v d) d ns) x = (if x \<in> set ns then Some v else map_of d x)"
  by (induction ns arbitrary: d) auto

lemma od_wf_fold_od_set: "od_wf d \<Longrightarrow> od_wf (foldl (\<lambda>d n. od_set n v d) d ns)"
  by (induction ns arbitrary: d) auto

lemma map_of_fold_default:
  "map_of (foldl (\<lambda>d p. if c p then set_default (k p) v d else d) d ps) x =
    (case map_of d x of Some r \<Rightarrow> Some r
     | None \<Rightarrow> if \<exists>p \<in> set ps. c p \<and> k p = x then Some v else None)"
  by (induction ps arbitrary: d) (auto simp: map_of_set_default split: option.splits)

lemma od_wf_fold_default: "od_wf d \<Longrightarrow> od_wf (foldl (\<lambda>d p. if c p then set_default (k p) v d else d) d ps)"
  by (induction ps arbitrary: d) auto

section \<open>The invariant of a bridge\<close>

definition port_ok :: "int \<Rightarrow> port \<Rightarrow> bool" where
  "port_ok n p \<longleftrightarrow> op_no (p_ofport p) = n \<and> p_state p \<noteq> None \<and> p_role p \<noteq> None \<and>
     (\<not> p_config_enable p \<longrightarrow> p_state p = Some DISABLE) \<and>
     (p_state p = Some DISABLE \<longrightarrow> p_role p = Some DESIGNATED_PORT) \<and>
     (p_state p = Some FORWARD \<longrightarrow> p_role p \<noteq> Some NON_DESIGNATED_PORT) \<and>
     (p_send_bpdu p \<longleftrightarrow> p_state p \<in> {Some LISTEN, Some LEARN, Some FORWARD}) \<and>
     (p_wait_bpdu p \<longrightarrow> p_role p \<noteq> Some DESIGNATED_PORT) \<and> dprio_ok p"

definition ports_ok :: "bridge \<Rightarrow> bool" where
  "ports_ok br \<longleftrightarrow> od_wf (br_ports br) \<and> (\<forall>(n, p) \<in> set (br_ports br). port_ok n p)"

definition waits_ok :: "bridge \<Rightarrow> bool" where
  "waits_ok br \<longleftrightarrow> (\<forall>(n, p) \<in> set (br_ports br). p_role p \<noteq> Some DESIGNATED_PORT \<longrightarrow> p_wait_bpdu p)"

text \<open>What no step changes of a port.\<close>

definition static :: "port \<Rightarrow> ofport \<times> bool \<times> bridge_id \<times> port_id \<times> int" where
  "static p = (p_ofport p, p_config_enable p, p_bridge_id p, p_port_id p, p_path_cost p)"

lemma static_core [simp]: "static (port_core p) = static p"
  by (simp add: static_def port_core_def)

text \<open>At most one root port; it holds the message the bridge takes its root from.\<close>

definition root_ok :: "bridge \<Rightarrow> bool" where
  "root_ok br \<longleftrightarrow> (\<forall>(n, p) \<in> set (br_ports br). p_role p = Some ROOT_PORT \<longrightarrow>
     p_dprio p = Some (br_root_priority br) \<and> p_dtimes p = Some (br_root_times br) \<and>
     bi_value (pr_root (br_root_priority br)) < bi_value (br_id br) \<and>
     (\<forall>(m, q) \<in> set (br_ports br). p_role q = Some ROOT_PORT \<longrightarrow> m = n))"

lemma port_ok_core [simp]: "port_ok n (port_core p) = port_ok n p"
  by (simp add: port_ok_def dprio_ok_def)

lemma set_core: "set (core d) = (\<lambda>(n, p). (n, port_core p)) ` set d"
  by (simp add: core_def)

lemma ports_ok_core: "ports_ok br \<longleftrightarrow> od_wf (core (br_ports br)) \<and> (\<forall>(n, p) \<in> set (core (br_ports br)). port_ok n p)"
  by (auto simp: ports_ok_def set_core)

lemma down_if_ok:
  assumes "port_ok n p"
  shows "port_ok n (down_if init p) \<and> p_role (down_if init p) = Some DESIGNATED_PORT \<and>
    \<not> p_wait_bpdu (down_if init p) \<and>
    p_state (down_if init p) = (if p_state p = Some DISABLE then Some DISABLE else Some BLOCK) \<and>
    (p_state p = Some DISABLE \<longrightarrow> down_if init p = p) \<and> static (down_if init p) = static p \<and>
    (init \<longrightarrow> p_state p \<noteq> Some DISABLE \<longrightarrow> p_dprio (down_if init p) = None) \<and>
    (\<not> init \<longrightarrow> p_dprio (down_if init p) = p_dprio p \<and> p_dtimes (down_if init p) = p_dtimes p)"
  using assms
  by (auto simp: down_if_def down_c_def enter_c_def enter_state_def change_role_def port_ok_def dprio_ok_def
      static_def port_core_def)

lemma up_if_ok:
  assumes "port_ok n p" "p_role p = Some DESIGNATED_PORT" "p_state p = Some BLOCK"
  shows "port_ok n (up_if prio tm r p) \<and> p_role (up_if prio tm r p) = Some r \<and>
    (p_wait_bpdu (up_if prio tm r p) \<longleftrightarrow> r \<noteq> DESIGNATED_PORT) \<and>
    p_state (up_if prio tm r p) = Some LISTEN \<and> p_dprio (up_if prio tm r p) = p_dprio p \<and>
    p_dtimes (up_if prio tm r p) = p_dtimes p \<and> static (up_if prio tm r p) = static p \<and> p_port_priority (up_if prio tm r p) = prio \<and>
    p_port_times (up_if prio tm r p) = tm"
  using assms
  by (cases r) (auto simp: up_if_def up_c_def enter_c_def enter_state_def change_role_def port_ok_def
      dprio_ok_def static_def port_core_def)

text \<open>The roles the algorithm assigns.\<close>

definition role_of :: "bridge \<Rightarrow> port option \<Rightarrow> int \<Rightarrow> port \<Rightarrow> role option" where
  "role_of br rp n p =
     (if p_state p = Some DISABLE then None
      else Some (case rp of
          None \<Rightarrow> DESIGNATED_PORT
        | Some r \<Rightarrow> if n = op_no (p_ofport r) then ROOT_PORT
            else if is_designated br r (msg r) p = Inr True then DESIGNATED_PORT else NON_DESIGNATED_PORT))"

definition is_best_root :: "bridge \<Rightarrow> port option \<Rightarrow> bool" where
  "is_best_root br rp \<longleftrightarrow> (case rp of
     None \<Rightarrow> (\<forall>(n, p) \<in> set (br_ports br). \<not> candidate (br_id br) p)
   | Some r \<Rightarrow> (op_no (p_ofport r), r) \<in> set (br_ports br) \<and> candidate (br_id br) r \<and>
       (\<forall>(n, q) \<in> set (br_ports br). active q \<longrightarrow> vector (msg r) \<le> vector (msg q)))"

lemma opt_eqI: "(\<And>r. x = Some r \<longleftrightarrow> y = Some r) \<Longrightarrow> x = y"
  by (cases x; cases y) auto

lemma spanning_tree_spec:
  assumes ok: "ports_ok br" and own: "br_root_priority br = own_priority (br_id br)"
  shows "\<exists>roles rp. spanning_tree_algorithm br = Inr (roles,
      case rp of None \<Rightarrow> br_root_priority br | Some r \<Rightarrow> msg r,
      case rp of None \<Rightarrow> br_root_times br | Some r \<Rightarrow> the (p_dtimes r)) \<and>
    od_wf roles \<and> is_best_root br rp \<and>
    (\<forall>n. map_of roles n = (case map_of (br_ports br) n of None \<Rightarrow> None | Some p \<Rightarrow> role_of br rp n p))"
proof -
  let ?ps = "map snd (br_ports br)"
  have wf: "od_wf (br_ports br)" and po: "\<And>n p. (n, p) \<in> set (br_ports br) \<Longrightarrow> port_ok n p"
    using ok by (auto simp: ports_ok_def)
  have dp: "\<forall>p \<in> set ?ps. dprio_ok p" using po by (auto simp: port_ok_def)
  have look: "map_of (br_ports br) n = Some p \<longleftrightarrow> (n, p) \<in> set (br_ports br)" for n p
    by (rule map_of_eq_Some_iff_od [OF wf])
  have key: "p \<in> set ?ps \<and> op_no (p_ofport p) = n \<longleftrightarrow> map_of (br_ports br) n = Some p" for n p
    using po unfolding look by (force simp: port_ok_def)
  from select_loop_none [OF dp, of "br_id br"] show ?thesis
  proof (elim disjE exE conjE)
    assume n: "select_root_loop (own_priority (br_id br)) None ?ps = Inr None"
      "\<forall>p \<in> set ?ps. \<not> candidate (br_id br) p"
    let ?roles = "map (\<lambda>(n, p). (n, DESIGNATED_PORT)) (filter (\<lambda>(n, p). p_state p \<noteq> Some DISABLE) (br_ports br))"
    have s: "spanning_tree_algorithm br = Inr (?roles, br_root_priority br, br_root_times br)"
      using n(1) own by (simp add: spanning_tree_algorithm_def select_root_port_def)
    have k: "map fst ?roles = map fst (filter (\<lambda>(n, p). p_state p \<noteq> Some DISABLE) (br_ports br))"
      by (simp add: case_prod_beta comp_def)
    have w: "od_wf ?roles" using wf unfolding od_wf_def k by (rule distinct_map_filter)
    have m: "map_of ?roles n = (case map_of (br_ports br) n of None \<Rightarrow> None | Some p \<Rightarrow> role_of br None n p)" for n
    proof -
      have "map_of ?roles n = Some r \<longleftrightarrow> (\<exists>p. map_of (br_ports br) n = Some p \<and> role_of br None n p = Some r)" for r
        unfolding map_of_eq_Some_iff_od [OF w] look by (auto simp: role_of_def)
      then show ?thesis by (intro opt_eqI) (auto split: option.splits)
    qed
    have "is_best_root br None" using n(2) by (auto simp: is_best_root_def)
    with s w m show ?thesis by (intro exI [of _ ?roles] exI [of _ None]) simp
  next
    fix r assume r: "select_root_loop (own_priority (br_id br)) None ?ps = Inr (Some r)" "r \<in> set ?ps"
      "candidate (br_id br) r" "\<forall>q \<in> set ?ps. active q \<longrightarrow> vector (msg r) \<le> vector (msg q)"
    let ?rn = "op_no (p_ofport r)"
    have rp: "p_dprio r = Some (msg r)" "p_dtimes r = Some (the (p_dtimes r))" "p_state r \<noteq> Some DISABLE"
      using r(3) dp r(2) by (auto simp: candidate_def active_def msg_def dprio_ok_def)
    have rin: "(?rn, r) \<in> set (br_ports br)" using key r(2) look by blast
    from dp have "\<And>p. p \<in> set ?ps \<Longrightarrow> dprio_ok p" by blast
    from designated_loop [OF this] obtain ns where ns: "select_designated_loop br r (msg r) ?ps = Inr ns"
      "set ns = {op_no (p_ofport p) | p. p \<in> set ?ps \<and> is_designated br r (msg r) p = Inr True}"
      by blast
    define d0 where "d0 = foldl (\<lambda>d n. od_set n DESIGNATED_PORT d) [(?rn, ROOT_PORT)] ns"
    define roles where "roles = foldl (\<lambda>d p. if p_state p \<noteq> Some DISABLE
      then set_default (op_no (p_ofport p)) NON_DESIGNATED_PORT d else d) d0 ?ps"
    have s: "spanning_tree_algorithm br = Inr (roles, msg r, the (p_dtimes r))"
      unfolding roles_def d0_def spanning_tree_algorithm_def select_root_port_def own
      using r(1) rp ns(1) by (cases "p_dtimes r") (simp_all add: Let_def)
    have w: "od_wf roles" unfolding roles_def d0_def
      by (intro od_wf_fold_default od_wf_fold_od_set) (simp add: od_wf_def)
    have dn: "n \<in> set ns \<longleftrightarrow> (\<exists>p. map_of (br_ports br) n = Some p \<and> is_designated br r (msg r) p = Inr True)" for n
      unfolding ns(2) mem_Collect_eq key [symmetric] by blast
    have nd: "p_state p \<noteq> Some DISABLE \<and> n \<noteq> ?rn"
      if "map_of (br_ports br) n = Some p" "is_designated br r (msg r) p = Inr True" for n p
      using that key by (auto simp: is_designated_def split: if_splits)
    have ex: "(\<exists>p \<in> set ?ps. p_state p \<noteq> Some DISABLE \<and> op_no (p_ofport p) = n) \<longleftrightarrow>
        (\<exists>p. map_of (br_ports br) n = Some p \<and> p_state p \<noteq> Some DISABLE)" for n
      using key by blast
    have rl: "map_of (br_ports br) ?rn = Some r" using rin look by blast
    have m: "map_of roles n = (case map_of (br_ports br) n of None \<Rightarrow> None | Some p \<Rightarrow> role_of br (Some r) n p)" for n
      unfolding roles_def map_of_fold_default ex d0_def map_of_fold_od_set
      using dn [of n] nd [of n] rp(3) rl by (auto simp: role_of_def split: option.splits)
    have "is_best_root br (Some r)" using rin r(3,4) by (auto simp: is_best_root_def)
    with s w m show ?thesis by (intro exI [of _ roles] exI [of _ "Some r"]) simp
  qed
qed


section \<open>Recalculation\<close>

text \<open>The state of every port after a recalculation, and the identity of the bridge.\<close>

definition recalculated :: "bridge \<Rightarrow> bridge \<Rightarrow> bool" where
  "recalculated br br' \<longleftrightarrow> map fst (br_ports br') = map fst (br_ports br) \<and>
     br_id br' = br_id br \<and> br_times br' = br_times br \<and> br_ports_state br' = br_ports_state br \<and>
     br_ofver br' = br_ofver br \<and> br_now br' = br_now br \<and> br_ports_enable br' = br_ports_enable br \<and>
     (\<forall>n p'. map_of (br_ports br') n = Some p' \<longrightarrow> (\<exists>p. map_of (br_ports br) n = Some p \<and>
        p_state p' = (if p_state p = Some DISABLE then Some DISABLE else Some LISTEN) \<and>
        (p_state p \<noteq> Some DISABLE \<longrightarrow> p_port_priority p' = br_root_priority br' \<and>
           p_port_times p' = br_root_times br')))"

lemma frame_fields:
  assumes "frame br = frame br'"
  shows "br_id br = br_id br'" "br_times br = br_times br'" "br_ports_state br = br_ports_state br'"
    "br_ofver br = br_ofver br'" "br_now br = br_now br'" "br_root_priority br = br_root_priority br'"
    "br_root_times br = br_root_times br'" "br_ports_enable br = br_ports_enable br'"
  using assms by (cases br; cases br'; simp add: frame_def)+

lemma map_of_map_val: "map_of (map (\<lambda>(n, p). (n, f n p)) d) n = map_option (f n) (map_of d n)"
  by (induction d) auto

text \<open>From the ports after the way down, with roles for those not disabled, the ports after the way up.\<close>

lemma all_up_ports:
  assumes ok: "ports_ok br" and roles: "od_wf roles"
    "\<forall>n p. map_of (br_ports br) n = Some p \<longrightarrow> p_state p \<noteq> Some DISABLE \<longrightarrow> map_of roles n = Some (r n p)"
    and down: "\<forall>n p. map_of (br_ports br) n = Some p \<longrightarrow> p_role p = Some DESIGNATED_PORT \<and> \<not> p_wait_bpdu p \<and>
      (p_state p = Some DISABLE \<or> p_state p = Some BLOCK)"
  shows "ports_ok (all_up roles br)" "waits_ok (all_up roles br)"
    "map fst (br_ports (all_up roles br)) = map fst (br_ports br)"
    "map_of (br_ports (all_up roles br)) n = Some p' \<Longrightarrow> (\<exists>p. map_of (br_ports br) n = Some p \<and>
       p_dprio p' = p_dprio p \<and> p_dtimes p' = p_dtimes p \<and> static p' = static p \<and>
       p_role p' = Some (if p_state p = Some DISABLE then DESIGNATED_PORT else r n p) \<and>
       p_state p' = (if p_state p = Some DISABLE then Some DISABLE else Some LISTEN) \<and>
       (p_state p \<noteq> Some DISABLE \<longrightarrow> p_port_priority p' = br_root_priority br \<and> p_port_times p' = br_root_times br))"
proof -
  let ?br' = "all_up roles br"
  have wf: "od_wf (br_ports br)" using ok by (simp add: ports_ok_def)
  have look: "map_of (br_ports br) n = Some p \<longleftrightarrow> (n, p) \<in> set (br_ports br)" for n p
    by (rule map_of_eq_Some_iff_od [OF wf])
  have c: "core (br_ports ?br') = map (\<lambda>(n, p). (n, case map_of roles n of
      Some r \<Rightarrow> up_if (br_root_priority br) (br_root_times br) r p | None \<Rightarrow> p)) (core (br_ports br))"
    by (rule all_up_core [OF wf]) (use roles(1) in \<open>simp add: od_wf_def\<close>)
  have "map fst (core (br_ports ?br')) = map fst (core (br_ports br))"
    unfolding c by (simp add: case_prod_beta comp_def)
  then show k: "map fst (br_ports ?br') = map fst (br_ports br)" by simp
  then have wf': "od_wf (br_ports ?br')" using wf by (simp add: od_wf_def)
  have each: "\<exists>p. map_of (br_ports br) n = Some p \<and> port_core p' = port_core
      (case map_of roles n of Some r \<Rightarrow> up_if (br_root_priority br) (br_root_times br) r (port_core p)
       | None \<Rightarrow> port_core p)" if "map_of (br_ports ?br') n = Some p'" for n p'
  proof -
    have "map_of (core (br_ports ?br')) n = Some (port_core p')" using that by (simp add: map_of_core)
    then show ?thesis unfolding c map_of_map_val by (auto simp: map_of_core split: option.splits)
  qed
  have all: "\<exists>p. map_of (br_ports br) n = Some p \<and> port_ok n p' \<and>
       (p_role p' \<noteq> Some DESIGNATED_PORT \<longrightarrow> p_wait_bpdu p') \<and>
       p_dprio p' = p_dprio p \<and> p_dtimes p' = p_dtimes p \<and> static p' = static p \<and>
       p_role p' = Some (if p_state p = Some DISABLE then DESIGNATED_PORT else r n p) \<and>
       p_state p' = (if p_state p = Some DISABLE then Some DISABLE else Some LISTEN) \<and>
       (p_state p \<noteq> Some DISABLE \<longrightarrow> p_port_priority p' = br_root_priority br \<and> p_port_times p' = br_root_times br)"
    if "map_of (br_ports ?br') n = Some p'" for n p'
  proof -
    from each [OF that] obtain p where p: "map_of (br_ports br) n = Some p"
      "port_core p' = port_core (case map_of roles n of
         Some r \<Rightarrow> up_if (br_root_priority br) (br_root_times br) r (port_core p) | None \<Rightarrow> port_core p)"
      by blast
    have po: "port_ok n p" using p(1) ok look by (auto simp: ports_ok_def)
    show ?thesis
    proof (cases "p_state p = Some DISABLE")
      case True
      then have "port_core p' = port_core p" using p by (simp add: up_if_def split: option.splits)
      then have "port_ok n p' = port_ok n p" "p_role p' = p_role p" "p_state p' = p_state p"
        "p_dprio p' = p_dprio p" "p_dtimes p' = p_dtimes p" "static p' = static p"
        by (metis port_ok_core, (metis port_core_simps static_core)+)
      with True p(1) po down show ?thesis by auto
    next
      case False
      let ?u = "up_if (br_root_priority br) (br_root_times br) (r n p) (port_core p)"
      have e: "port_core p' = port_core ?u" using p roles(2) False by simp
      have blk: "p_role p = Some DESIGNATED_PORT" "p_state p = Some BLOCK" using down p(1) False by auto
      have u: "port_ok n ?u \<and> p_role ?u = Some (r n p) \<and> (p_wait_bpdu ?u \<longleftrightarrow> r n p \<noteq> DESIGNATED_PORT) \<and>
        p_state ?u = Some LISTEN \<and> p_dprio ?u = p_dprio p \<and> p_dtimes ?u = p_dtimes p \<and> static ?u = static p \<and>
        p_port_priority ?u = br_root_priority br \<and> p_port_times ?u = br_root_times br"
        using up_if_ok [of n "port_core p"] po blk by simp
      have "port_ok n p' = port_ok n ?u" "p_role p' = p_role ?u" "p_state p' = p_state ?u"
        "p_dprio p' = p_dprio ?u" "p_dtimes p' = p_dtimes ?u" "p_wait_bpdu p' = p_wait_bpdu ?u" "static p' = static ?u"
        "p_port_priority p' = p_port_priority ?u" "p_port_times p' = p_port_times ?u"
        using e by (metis port_ok_core, (metis port_core_simps static_core)+)
      with u False p(1) show ?thesis by auto
    qed
  qed
  have look': "map_of (br_ports ?br') n = Some p \<longleftrightarrow> (n, p) \<in> set (br_ports ?br')" for n p
    by (rule map_of_eq_Some_iff_od [OF wf'])
  show "ports_ok ?br'" unfolding ports_ok_def using wf' all look' by blast
  show "waits_ok ?br'" unfolding waits_ok_def using all look' by blast
  show "map_of (br_ports ?br') n = Some p' \<Longrightarrow> (\<exists>p. map_of (br_ports br) n = Some p \<and>
       p_dprio p' = p_dprio p \<and> p_dtimes p' = p_dtimes p \<and> static p' = static p \<and>
       p_role p' = Some (if p_state p = Some DISABLE then DESIGNATED_PORT else r n p) \<and>
       p_state p' = (if p_state p = Some DISABLE then Some DISABLE else Some LISTEN) \<and>
       (p_state p \<noteq> Some DISABLE \<longrightarrow> p_port_priority p' = br_root_priority br \<and> p_port_times p' = br_root_times br))"
    using all by blast
qed


definition best_root :: "bridge \<Rightarrow> bool" where
  "best_root br \<longleftrightarrow>
     ((\<exists>(n, p) \<in> set (br_ports br). p_role p = Some ROOT_PORT) \<longleftrightarrow>
      (\<exists>(n, p) \<in> set (br_ports br). candidate (br_id br) p)) \<and>
     (\<forall>(n, p) \<in> set (br_ports br). p_role p = Some ROOT_PORT \<longrightarrow>
        candidate (br_id br) p \<and>
        (\<forall>(m, q) \<in> set (br_ports br). active q \<longrightarrow> vector (msg p) \<le> vector (msg q)))"

definition roles_ok :: "bridge \<Rightarrow> bool" where
  "roles_ok br \<longleftrightarrow> (\<forall>(n, p) \<in> set (br_ports br). \<forall>(m, q) \<in> set (br_ports br).
     p_role p = Some ROOT_PORT \<longrightarrow> m \<noteq> n \<longrightarrow> p_state q \<noteq> Some DISABLE \<longrightarrow>
     p_role q = Some (if is_designated br p (msg p) q = Inr True then DESIGNATED_PORT else NON_DESIGNATED_PORT))"

lemma all_down_ports:
  assumes ok: "ports_ok br"
  shows "ports_ok (all_down init br)" "map fst (br_ports (all_down init br)) = map fst (br_ports br)"
    "map_of (br_ports (all_down init br)) n = Some p' \<Longrightarrow> (\<exists>p. map_of (br_ports br) n = Some p \<and>
       p_role p' = Some DESIGNATED_PORT \<and> \<not> p_wait_bpdu p' \<and> static p' = static p \<and>
       p_state p' = (if p_state p = Some DISABLE then Some DISABLE else Some BLOCK) \<and>
       (init \<longrightarrow> p_state p \<noteq> Some DISABLE \<longrightarrow> p_dprio p' = None) \<and>
       (\<not> init \<longrightarrow> p_dprio p' = p_dprio p \<and> p_dtimes p' = p_dtimes p))"
proof -
  let ?d = "all_down init br"
  have wf: "od_wf (br_ports br)" using ok by (simp add: ports_ok_def)
  have look: "map_of (br_ports br) n = Some p \<longleftrightarrow> (n, p) \<in> set (br_ports br)" for n p
    by (rule map_of_eq_Some_iff_od [OF wf])
  have c: "core (br_ports ?d) = map (\<lambda>(n, p). (n, down_if init p)) (core (br_ports br))"
    by (rule all_down_core [OF wf])
  have "map fst (core (br_ports ?d)) = map fst (core (br_ports br))"
    unfolding c by (simp add: case_prod_beta comp_def)
  then show k: "map fst (br_ports ?d) = map fst (br_ports br)" by simp
  then have wf': "od_wf (br_ports ?d)" using wf by (simp add: od_wf_def)
  have each: "\<exists>p. map_of (br_ports br) n = Some p \<and> port_core p' = down_if init (port_core p)"
    if "map_of (br_ports ?d) n = Some p'" for n p'
  proof -
    have "map_of (core (br_ports ?d)) n = Some (port_core p')" using that by (simp add: map_of_core)
    then show ?thesis unfolding c map_of_map_val by (auto simp: map_of_core)
  qed
  have all: "\<exists>p. map_of (br_ports br) n = Some p \<and> port_ok n p' \<and>
       p_role p' = Some DESIGNATED_PORT \<and> \<not> p_wait_bpdu p' \<and> static p' = static p \<and>
       p_state p' = (if p_state p = Some DISABLE then Some DISABLE else Some BLOCK) \<and>
       (init \<longrightarrow> p_state p \<noteq> Some DISABLE \<longrightarrow> p_dprio p' = None) \<and>
       (\<not> init \<longrightarrow> p_dprio p' = p_dprio p \<and> p_dtimes p' = p_dtimes p)"
    if "map_of (br_ports ?d) n = Some p'" for n p'
  proof -
    from each [OF that] obtain p where p: "map_of (br_ports br) n = Some p"
      "port_core p' = down_if init (port_core p)" by blast
    have "port_ok n (port_core p)" using p(1) ok look by (auto simp: ports_ok_def)
    note d = down_if_ok [OF this, of init, folded p(2)]
    with p(1) show ?thesis by simp
  qed
  have look': "map_of (br_ports ?d) n = Some p \<longleftrightarrow> (n, p) \<in> set (br_ports ?d)" for n p
    by (rule map_of_eq_Some_iff_od [OF wf'])
  show "ports_ok ?d" unfolding ports_ok_def using wf' all look' by blast
  show "map_of (br_ports ?d) n = Some p' \<Longrightarrow> (\<exists>p. map_of (br_ports br) n = Some p \<and>
       p_role p' = Some DESIGNATED_PORT \<and> \<not> p_wait_bpdu p' \<and> static p' = static p \<and>
       p_state p' = (if p_state p = Some DISABLE then Some DISABLE else Some BLOCK) \<and>
       (init \<longrightarrow> p_state p \<noteq> Some DISABLE \<longrightarrow> p_dprio p' = None) \<and>
       (\<not> init \<longrightarrow> p_dprio p' = p_dprio p \<and> p_dtimes p' = p_dtimes p))"
    using all by blast
qed

lemma ports_ok_cong: "br_ports br' = br_ports br \<Longrightarrow> ports_ok br' = ports_ok br"
  by (simp add: ports_ok_def)

lemma ports_lookup: "ports_ok br \<Longrightarrow> map_of (br_ports br) n = Some p \<longleftrightarrow> (n, p) \<in> set (br_ports br)"
  by (simp add: ports_ok_def map_of_eq_Some_iff_od)

text \<open>What every recalculation yields, from the roles \<open>r\<close> given to the ports.\<close>

lemma recalc_common:
  assumes ok: "ports_ok br" and b: "br_ports b = br_ports (all_down init br)"
    and fr: "br_id b = br_id br" "br_times b = br_times br" "br_ports_state b = br_ports_state br"
      "br_ofver b = br_ofver br" "br_now b = br_now br" "br_ports_enable b = br_ports_enable br"
    and wr: "od_wf roles"
    and r: "\<forall>n p. map_of (br_ports b) n = Some p \<longrightarrow> p_state p \<noteq> Some DISABLE \<longrightarrow>
      map_of roles n = Some (r n p)"
  shows "recalculated br (all_up roles b)" "ports_ok (all_up roles b)" "waits_ok (all_up roles b)"
    "br_root_priority (all_up roles b) = br_root_priority b" "br_root_times (all_up roles b) = br_root_times b"
    "map_of (br_ports (all_up roles b)) n = Some p' \<Longrightarrow> (\<exists>p. map_of (br_ports b) n = Some p \<and>
       p_dprio p' = p_dprio p \<and> p_dtimes p' = p_dtimes p \<and> static p' = static p \<and>
       p_role p' = Some (if p_state p = Some DISABLE then DESIGNATED_PORT else r n p) \<and>
       (p_state p' = Some DISABLE \<longleftrightarrow> p_state p = Some DISABLE))"
proof -
  have okb: "ports_ok b" using all_down_ports(1) [OF ok] ports_ok_cong [OF b] by simp
  have down: "\<forall>n p. map_of (br_ports b) n = Some p \<longrightarrow> p_role p = Some DESIGNATED_PORT \<and> \<not> p_wait_bpdu p \<and>
      (p_state p = Some DISABLE \<or> p_state p = Some BLOCK)"
  proof (intro allI impI)
    fix n p assume "map_of (br_ports b) n = Some p"
    with b have "map_of (br_ports (all_down init br)) n = Some p" by simp
    from all_down_ports(3) [OF ok this]
    show "p_role p = Some DESIGNATED_PORT \<and> \<not> p_wait_bpdu p \<and> (p_state p = Some DISABLE \<or> p_state p = Some BLOCK)"
      by (auto split: if_splits)
  qed
  note up = all_up_ports [OF okb wr r down]
  have wf: "od_wf (br_ports b)" using okb by (simp add: ports_ok_def)
  have f: "frame (all_up roles b) = frame b"
    by (rule all_up_core(2) [OF wf]) (use wr in \<open>simp add: od_wf_def\<close>)
  note ff = frame_fields [OF f]
  show "ports_ok (all_up roles b)" by (rule up(1))
  show "waits_ok (all_up roles b)" by (rule up(2))
  show "br_root_priority (all_up roles b) = br_root_priority b"
    "br_root_times (all_up roles b) = br_root_times b" by (fact ff)+
  show "map_of (br_ports (all_up roles b)) n = Some p' \<Longrightarrow> (\<exists>p. map_of (br_ports b) n = Some p \<and>
       p_dprio p' = p_dprio p \<and> p_dtimes p' = p_dtimes p \<and> static p' = static p \<and>
       p_role p' = Some (if p_state p = Some DISABLE then DESIGNATED_PORT else r n p) \<and>
       (p_state p' = Some DISABLE \<longleftrightarrow> p_state p = Some DISABLE))"
    by (drule up(4)) auto
  show "recalculated br (all_up roles b)"
    unfolding recalculated_def
  proof (intro conjI allI impI)
    show "map fst (br_ports (all_up roles b)) = map fst (br_ports br)"
      using up(3) b all_down_ports(2) [OF ok] by simp
    show "br_id (all_up roles b) = br_id br" "br_times (all_up roles b) = br_times br"
      "br_ports_state (all_up roles b) = br_ports_state br" "br_ofver (all_up roles b) = br_ofver br"
      "br_now (all_up roles b) = br_now br" "br_ports_enable (all_up roles b) = br_ports_enable br"
      using ff fr by simp_all
    fix n p' assume "map_of (br_ports (all_up roles b)) n = Some p'"
    from up(4) [OF this] obtain q where q: "map_of (br_ports b) n = Some q"
      "p_state p' = (if p_state q = Some DISABLE then Some DISABLE else Some LISTEN)"
      "p_state q \<noteq> Some DISABLE \<longrightarrow> p_port_priority p' = br_root_priority b \<and> p_port_times p' = br_root_times b"
      by blast
    from q(1) b have "map_of (br_ports (all_down init br)) n = Some q" by simp
    from all_down_ports(3) [OF ok this] obtain p where p: "map_of (br_ports br) n = Some p"
      "p_state q = (if p_state p = Some DISABLE then Some DISABLE else Some BLOCK)" by auto
    with q ff show "\<exists>p. map_of (br_ports br) n = Some p \<and>
        p_state p' = (if p_state p = Some DISABLE then Some DISABLE else Some LISTEN) \<and>
        (p_state p \<noteq> Some DISABLE \<longrightarrow> p_port_priority p' = br_root_priority (all_up roles b) \<and>
           p_port_times p' = br_root_times (all_up roles b))"
      by (intro exI [of _ p]) (auto split: if_splits)
  qed
qed

lemma recalc_init:
  assumes ok: "ports_ok br"
  shows "\<exists>br'. recalculate_spanning_tree True br = Inr br' \<and> recalculated br br' \<and> ports_ok br' \<and> waits_ok br' \<and>
    br_root_priority br' = own_priority (br_id br') \<and> br_root_times br' = br_times br' \<and>
    (\<forall>(n, p) \<in> set (br_ports br'). p_role p = Some DESIGNATED_PORT \<and> \<not> active p)"
proof -
  let ?d = "all_down True br"
  define b where "b = (emit EventTopologyChange ?d)\<lparr>br_root_priority := own_priority (br_id ?d),
    br_root_times := br_times ?d\<rparr>"
  define roles where "roles = map (\<lambda>(n, p :: port). (n, DESIGNATED_PORT)) (br_ports b)"
  have wf: "od_wf (br_ports br)" using ok by (simp add: ports_ok_def)
  have f: "frame ?d = frame br" by (rule all_down_core(2) [OF wf])
  note ff = frame_fields [OF f]
  have e: "recalculate_spanning_tree True br = Inr (all_up roles b)"
    by (simp add: recalculate_spanning_tree_def Let_def roles_def b_def emit_def)
  have bp: "br_ports b = br_ports ?d" by (simp add: b_def emit_def)
  have wr: "od_wf roles" using wf all_down_ports(2) [OF ok, of True]
    by (simp add: roles_def bp od_wf_def case_prod_beta comp_def)
  have r: "\<forall>n p. map_of (br_ports b) n = Some p \<longrightarrow> p_state p \<noteq> Some DISABLE \<longrightarrow>
      map_of roles n = Some ((\<lambda>_ _. DESIGNATED_PORT) n p)"
    by (simp add: roles_def map_of_map_val)
  have fr: "br_id b = br_id br" "br_times b = br_times br" "br_ports_state b = br_ports_state br"
      "br_ofver b = br_ofver br" "br_now b = br_now br" "br_ports_enable b = br_ports_enable br"
    using ff by (simp_all add: b_def emit_def)
  note c = recalc_common [OF ok bp fr wr r]
  let ?br' = "all_up roles b"
  have i: "br_id ?br' = br_id br" "br_times ?br' = br_times br"
    using c(1) by (simp_all add: recalculated_def)
  have "p_role p = Some DESIGNATED_PORT \<and> \<not> active p" if "(n, p) \<in> set (br_ports ?br')" for n p
  proof -
    from that have "map_of (br_ports ?br') n = Some p" using ports_lookup [OF c(2)] by simp
    from c(6) [OF this] obtain q where q: "map_of (br_ports b) n = Some q" "p_dprio p = p_dprio q"
      "p_role p = Some DESIGNATED_PORT" "p_state p = Some DISABLE \<longleftrightarrow> p_state q = Some DISABLE"
      by (auto split: if_splits)
    from q(1) bp have "map_of (br_ports ?d) n = Some q" by simp
    from all_down_ports(3) [OF ok this]
    have "p_state q = Some DISABLE \<or> p_dprio q = None" by (auto split: if_splits)
    with q show ?thesis by (auto simp: active_def)
  qed
  then have "\<forall>(n, p) \<in> set (br_ports ?br'). p_role p = Some DESIGNATED_PORT \<and> \<not> active p" by blast
  moreover have "br_root_priority b = own_priority (br_id br)" "br_root_times b = br_times br"
    using ff by (simp_all add: b_def)
  ultimately show ?thesis using e c(1-5) i by auto
qed

lemma is_designated_cong:
  assumes "br_id br' = br_id br" "static r' = static r" "p_dprio q' = p_dprio q" "static q' = static q"
    "p_state q' = Some DISABLE \<longleftrightarrow> p_state q = Some DISABLE"
  shows "is_designated br' r' m q' = is_designated br r m q"
  using assms by (simp add: is_designated_def static_def split: option.splits)

lemma active_cong:
  "p_dprio q' = p_dprio q \<Longrightarrow> (p_state q' = Some DISABLE \<longleftrightarrow> p_state q = Some DISABLE) \<Longrightarrow>
    active q' = active q \<and> msg q' = msg q \<and> candidate b q' = candidate b q"
  by (simp add: active_def msg_def candidate_def)

lemma recalc_tree:
  assumes ok: "ports_ok br"
  shows "\<exists>br'. recalculate_spanning_tree False br = Inr br' \<and> recalculated br br' \<and> ports_ok br' \<and> waits_ok br' \<and>
    root_ok br' \<and> best_root br' \<and> roles_ok br' \<and>
    (\<forall>n p p'. map_of (br_ports br) n = Some p \<longrightarrow> map_of (br_ports br') n = Some p' \<longrightarrow>
       p_dprio p' = p_dprio p \<and> p_dtimes p' = p_dtimes p \<and> static p' = static p)"
proof -
  let ?d = "all_down False br"
  define b0 where "b0 = ?d\<lparr>br_root_priority := own_priority (br_id ?d), br_root_times := br_times ?d\<rparr>"
  have wf: "od_wf (br_ports br)" using ok by (simp add: ports_ok_def)
  have f: "frame ?d = frame br" by (rule all_down_core(2) [OF wf])
  note ff = frame_fields [OF f]
  have ok0: "ports_ok b0" using all_down_ports(1) [OF ok] ports_ok_cong [of b0 ?d] by (simp add: b0_def)
  have own: "br_root_priority b0 = own_priority (br_id b0)" by (simp add: b0_def)
  obtain roles rp where st: "spanning_tree_algorithm b0 = Inr (roles,
      case rp of None \<Rightarrow> br_root_priority b0 | Some r \<Rightarrow> msg r,
      case rp of None \<Rightarrow> br_root_times b0 | Some r \<Rightarrow> the (p_dtimes r))"
    "od_wf roles" "is_best_root b0 rp"
    "\<And>n. map_of roles n = (case map_of (br_ports b0) n of None \<Rightarrow> None | Some p \<Rightarrow> role_of b0 rp n p)"
    using spanning_tree_spec [OF ok0 own] by blast
  define b where "b = b0\<lparr>br_root_priority := (case rp of None \<Rightarrow> br_root_priority b0 | Some r \<Rightarrow> msg r),
    br_root_times := (case rp of None \<Rightarrow> br_root_times b0 | Some r \<Rightarrow> the (p_dtimes r))\<rparr>"
  have e: "recalculate_spanning_tree False br = Inr (all_up roles b)"
    using st(1) by (simp add: recalculate_spanning_tree_def Let_def b0_def b_def)
  have bp: "br_ports b = br_ports ?d" and bp0: "br_ports b = br_ports b0" by (simp_all add: b_def b0_def)
  have r: "\<forall>n p. map_of (br_ports b) n = Some p \<longrightarrow> p_state p \<noteq> Some DISABLE \<longrightarrow>
      map_of roles n = Some ((\<lambda>n p. the (role_of b0 rp n p)) n p)"
    using bp0 st(4) by (simp add: role_of_def)
  have fr: "br_id b = br_id br" "br_times b = br_times br" "br_ports_state b = br_ports_state br"
      "br_ofver b = br_ofver br" "br_now b = br_now br" "br_ports_enable b = br_ports_enable br"
    using ff by (simp_all add: b_def b0_def)
  note c = recalc_common [OF ok bp fr st(2) r]
  let ?br' = "all_up roles b"
  have id: "br_id ?br' = br_id b0" "br_id b0 = br_id br"
    using c(1) ff by (simp_all add: recalculated_def b0_def)
  text \<open>Each port of the result, with the port of \<open>b0\<close> it comes from.\<close>
  have from0: "\<exists>p0. (n, p0) \<in> set (br_ports b0) \<and> p_dprio p = p_dprio p0 \<and> p_dtimes p = p_dtimes p0 \<and>
      static p = static p0 \<and> (p_state p = Some DISABLE \<longleftrightarrow> p_state p0 = Some DISABLE) \<and>
      p_role p = Some (if p_state p0 = Some DISABLE then DESIGNATED_PORT else the (role_of b0 rp n p0))"
    if "(n, p) \<in> set (br_ports ?br')" for n p
  proof -
    from that have "map_of (br_ports ?br') n = Some p" using ports_lookup [OF c(2)] by simp
    from c(6) [OF this] show ?thesis using ports_lookup [OF ok0] bp0 by auto
  qed
  have to0: "\<exists>p. (n, p) \<in> set (br_ports ?br') \<and> p_dprio p = p_dprio p0 \<and> p_dtimes p = p_dtimes p0 \<and>
      static p = static p0 \<and> (p_state p = Some DISABLE \<longleftrightarrow> p_state p0 = Some DISABLE) \<and>
      p_role p = Some (if p_state p0 = Some DISABLE then DESIGNATED_PORT else the (role_of b0 rp n p0))"
    if "(n, p0) \<in> set (br_ports b0)" for n p0
  proof -
    have "map fst (br_ports ?br') = map fst (br_ports b0)"
      using c(1) all_down_ports(2) [OF ok, of False] bp bp0 by (simp add: recalculated_def)
    then have "n \<in> fst ` set (br_ports ?br')" using that by (metis fst_conv image_eqI list.set_map)
    then obtain p where p: "(n, p) \<in> set (br_ports ?br')" by auto
    from from0 [OF this] that ports_lookup [OF ok0] p show ?thesis by (metis option.inject)
  qed
  have root: "\<exists>r. rp = Some r \<and> n = op_no (p_ofport r) \<and> (n, r) \<in> set (br_ports b0) \<and>
      candidate (br_id b0) r \<and> p_dprio p = p_dprio r \<and> p_dtimes p = p_dtimes r \<and> static p = static r \<and>
      (p_state p = Some DISABLE \<longleftrightarrow> p_state r = Some DISABLE)"
    if np: "(n, p) \<in> set (br_ports ?br')" "p_role p = Some ROOT_PORT" for n p
  proof -
    from from0 [OF np(1)] np(2) obtain p0 where p0: "(n, p0) \<in> set (br_ports b0)" "p_dprio p = p_dprio p0"
      "p_dtimes p = p_dtimes p0" "static p = static p0"
      "p_state p = Some DISABLE \<longleftrightarrow> p_state p0 = Some DISABLE" "the (role_of b0 rp n p0) = ROOT_PORT"
      "p_state p0 \<noteq> Some DISABLE"
      by (auto split: if_splits)
    then obtain r where r: "rp = Some r" "n = op_no (p_ofport r)"
      by (auto simp: role_of_def split: option.splits if_splits)
    with st(3) have "(n, r) \<in> set (br_ports b0)" "candidate (br_id b0) r" by (simp_all add: is_best_root_def)
    moreover from this(1) p0(1) have "p0 = r" using ports_lookup [OF ok0] by (metis option.inject)
    ultimately show ?thesis using r p0 by blast
  qed
  have rprio: "br_root_priority ?br' = msg r" "br_root_times ?br' = the (p_dtimes r)" if "rp = Some r" for r
    using that c(4,5) by (simp_all add: b_def)
  have "root_ok ?br'"
    unfolding root_ok_def
  proof (intro ballI, clarify)
    fix n p assume np: "(n, p) \<in> set (br_ports ?br')" "p_role p = Some ROOT_PORT"
    from root [OF np] obtain r where r: "rp = Some r" "n = op_no (p_ofport r)" "(n, r) \<in> set (br_ports b0)"
      "candidate (br_id b0) r" "p_dprio p = p_dprio r" "p_dtimes p = p_dtimes r" by blast
    have "port_ok n r" using r(3) ok0 by (auto simp: ports_ok_def)
    then have "p_dprio r = Some (msg r)" "p_dtimes r = Some (the (p_dtimes r))"
      using r(4) by (auto simp: port_ok_def dprio_ok_def candidate_def active_def msg_def)
    moreover have "m = n" if "(m, q) \<in> set (br_ports ?br')" "p_role q = Some ROOT_PORT" for m q
      using root [OF that] r(1,2) by auto
    ultimately show "p_dprio p = Some (br_root_priority ?br') \<and> p_dtimes p = Some (br_root_times ?br') \<and>
        bi_value (pr_root (br_root_priority ?br')) < bi_value (br_id ?br') \<and>
        (\<forall>(m, q) \<in> set (br_ports ?br'). p_role q = Some ROOT_PORT \<longrightarrow> m = n)"
      using r rprio [OF r(1)] id by (auto simp: candidate_def)
  qed
  moreover have "best_root ?br'"
    unfolding best_root_def
  proof (intro conjI ballI)
    show "(\<exists>(n, p) \<in> set (br_ports ?br'). p_role p = Some ROOT_PORT) \<longleftrightarrow>
        (\<exists>(n, p) \<in> set (br_ports ?br'). candidate (br_id ?br') p)"
    proof
      assume "\<exists>(n, p) \<in> set (br_ports ?br'). p_role p = Some ROOT_PORT"
      then obtain n p where np: "(n, p) \<in> set (br_ports ?br')" "p_role p = Some ROOT_PORT" by auto
      from root [OF this] obtain r where "candidate (br_id b0) r" "p_dprio p = p_dprio r"
        "p_state p = Some DISABLE \<longleftrightarrow> p_state r = Some DISABLE" by blast
      with active_cong [of p r] id np show "\<exists>(n, p) \<in> set (br_ports ?br'). candidate (br_id ?br') p" by auto
    next
      assume "\<exists>(n, p) \<in> set (br_ports ?br'). candidate (br_id ?br') p"
      then obtain n p where np: "(n, p) \<in> set (br_ports ?br')" "candidate (br_id ?br') p" by auto
      from from0 [OF np(1)] obtain p0 where p0: "(n, p0) \<in> set (br_ports b0)" "p_dprio p = p_dprio p0"
        "p_state p = Some DISABLE \<longleftrightarrow> p_state p0 = Some DISABLE" by blast
      with active_cong [of p p0] np(2) id have "candidate (br_id b0) p0" by auto
      with p0(1) st(3) obtain r where r: "rp = Some r" "(op_no (p_ofport r), r) \<in> set (br_ports b0)"
        "candidate (br_id b0) r" by (cases rp) (auto simp: is_best_root_def)
      from to0 [OF r(2)] obtain q where "(op_no (p_ofport r), q) \<in> set (br_ports ?br')"
        "p_role q = Some (if p_state r = Some DISABLE then DESIGNATED_PORT
           else the (role_of b0 rp (op_no (p_ofport r)) r))" by blast
      moreover have "p_state r \<noteq> Some DISABLE" using r(3) by (simp add: candidate_def active_def)
      ultimately show "\<exists>(n, p) \<in> set (br_ports ?br'). p_role p = Some ROOT_PORT"
        using r(1) by (auto simp: role_of_def)
    qed
  next
    fix np assume "np \<in> set (br_ports ?br')"
    moreover obtain n p where np: "np = (n, p)" by (cases np)
    ultimately have i: "(n, p) \<in> set (br_ports ?br')" by simp
    show "case np of (n, p) \<Rightarrow> p_role p = Some ROOT_PORT \<longrightarrow> candidate (br_id ?br') p \<and>
        (\<forall>(m, q) \<in> set (br_ports ?br'). active q \<longrightarrow> vector (msg p) \<le> vector (msg q))"
      unfolding np prod.case
    proof (intro impI conjI)
      assume "p_role p = Some ROOT_PORT"
      from root [OF i this] obtain r where r: "rp = Some r" "candidate (br_id b0) r" "p_dprio p = p_dprio r"
        "p_state p = Some DISABLE \<longleftrightarrow> p_state r = Some DISABLE" by blast
      with active_cong [of p r] id show "candidate (br_id ?br') p" by auto
      have "vector (msg p) \<le> vector (msg q)" if "(m, q) \<in> set (br_ports ?br')" "active q" for m q
      proof -
        from from0 [OF that(1)] obtain q0 where q0: "(m, q0) \<in> set (br_ports b0)" "p_dprio q = p_dprio q0"
          "p_state q = Some DISABLE \<longleftrightarrow> p_state q0 = Some DISABLE" by blast
        with active_cong [of q q0] that(2) have "active q0" "msg q = msg q0" by auto
        moreover have "msg p = msg r" using active_cong [of p r] r(3,4) by simp
        ultimately show ?thesis using st(3) r(1) q0(1) by (auto simp: is_best_root_def)
      qed
      then show "\<forall>(m, q) \<in> set (br_ports ?br'). active q \<longrightarrow> vector (msg p) \<le> vector (msg q)" by blast
    qed
  qed
  moreover have "roles_ok ?br'"
    unfolding roles_ok_def
  proof (intro ballI, clarify)
    fix n p m q assume np: "(n, p) \<in> set (br_ports ?br')" "p_role p = Some ROOT_PORT"
      and mq: "(m, q) \<in> set (br_ports ?br')" "m \<noteq> n" "p_state q \<noteq> Some DISABLE"
    from root [OF np] obtain r where r: "rp = Some r" "n = op_no (p_ofport r)" "p_dprio p = p_dprio r"
      "static p = static r" "p_state p = Some DISABLE \<longleftrightarrow> p_state r = Some DISABLE" by blast
    from from0 [OF mq(1)] mq(3) obtain q0 where q0: "(m, q0) \<in> set (br_ports b0)" "p_dprio q = p_dprio q0"
      "static q = static q0" "p_state q = Some DISABLE \<longleftrightarrow> p_state q0 = Some DISABLE"
      "p_role q = Some (the (role_of b0 rp m q0))" "p_state q0 \<noteq> Some DISABLE"
      by (auto split: if_splits)
    have "is_designated ?br' p (msg p) q = is_designated b0 r (msg r) q0"
      using is_designated_cong [of ?br' b0 p r q q0 "msg p"] active_cong [of p r] id r q0 by simp
    with q0(5,6) r(1,2) mq(2) show "p_role q =
        Some (if is_designated ?br' p (msg p) q = Inr True then DESIGNATED_PORT else NON_DESIGNATED_PORT)"
      by (simp add: role_of_def)
  qed
  moreover have "\<forall>n p p'. map_of (br_ports br) n = Some p \<longrightarrow> map_of (br_ports ?br') n = Some p' \<longrightarrow>
       p_dprio p' = p_dprio p \<and> p_dtimes p' = p_dtimes p \<and> static p' = static p"
  proof (intro allI impI)
    fix n p p' assume n: "map_of (br_ports br) n = Some p" "map_of (br_ports ?br') n = Some p'"
    from c(6) [OF n(2)] bp obtain q where q: "map_of (br_ports ?d) n = Some q" "p_dprio p' = p_dprio q"
      "p_dtimes p' = p_dtimes q" "static p' = static q" by auto
    from all_down_ports(3) [OF ok q(1)] n(1) q show
      "p_dprio p' = p_dprio p \<and> p_dtimes p' = p_dtimes p \<and> static p' = static p" by auto
  qed
  ultimately show ?thesis using e c(1-3) by blast
qed

end
