(* ===== verification/Stp_Inv.thy ===== *)
theory Stp_Inv
  imports Stp_Proofs
begin

text \<open>
  The steps of a bridge and its invariant: at most one root port, holding the message the bridge
  takes its root from; a disabled port is designated and sends nothing; a port that is not
  designated and not the root port never forwards. How a port comes to forward is stated over
  the same steps.
\<close>

section \<open>The invariant\<close>

definition br_inv :: "bridge \<Rightarrow> bool" where
  "br_inv br \<longleftrightarrow> ports_ok br \<and> waits_ok br \<and> root_ok br \<and>
     fst ` set (br_ports_state br) = fst ` set (br_ports br) \<and> (\<forall>n \<in> fst ` set (br_ports br). n \<le> MAX_PORT_NO)"

lemma waits_ok_core: "waits_ok br \<longleftrightarrow>
    (\<forall>(n, p) \<in> set (core (br_ports br)). p_role p \<noteq> Some DESIGNATED_PORT \<longrightarrow> p_wait_bpdu p)"
  by (auto simp: waits_ok_def set_core)

lemma root_ok_core: "root_ok br \<longleftrightarrow> (\<forall>(n, p) \<in> set (core (br_ports br)). p_role p = Some ROOT_PORT \<longrightarrow>
     p_dprio p = Some (br_root_priority br) \<and> p_dtimes p = Some (br_root_times br) \<and>
     bi_value (pr_root (br_root_priority br)) < bi_value (br_id br) \<and>
     (\<forall>(m, q) \<in> set (core (br_ports br)). p_role q = Some ROOT_PORT \<longrightarrow> m = n))"
  by (fastforce simp: root_ok_def set_core)

lemma keys_core: "fst ` set (core d) = fst ` set d"
  by (metis list.set_map map_fst_core)

lemma keys_od_upd: "fst ` set (od_upd n f d) = fst ` set d"
  by (metis list.set_map map_fst_od_upd)

lemma br_inv_core:
  assumes c: "core (br_ports br') = core (br_ports br)" and fr: "frame br' = frame br"
  shows "br_inv br' = br_inv br"
proof -
  have "fst ` set (br_ports br') = fst ` set (br_ports br)" using c by (metis keys_core)
  then show ?thesis
    by (simp only: br_inv_def ports_ok_core waits_ok_core root_ok_core c frame_fields [OF fr])
qed

lemma in_od_upd:
  "(m, q) \<in> set (od_upd n f d) \<longleftrightarrow> (\<exists>p. (m, p) \<in> set d \<and> q = (if m = n then f p else p))"
  by (induction d) (auto simp: od_upd_def)

text \<open>Changing one port: its role, if not designated afterwards, and its message stay.\<close>

lemma br_inv_upd:
  assumes inv: "br_inv br" and c: "core (br_ports br') = od_upd n f (core (br_ports br))"
    and fr: "frame br' = frame br"
    and f: "\<forall>p. port_ok n p \<longrightarrow> port_ok n (f p) \<and>
      (p_role (f p) = Some DESIGNATED_PORT \<or> p_role (f p) = p_role p \<and> p_wait_bpdu (f p) = p_wait_bpdu p \<and>
        p_dprio (f p) = p_dprio p \<and> p_dtimes (f p) = p_dtimes p)"
  shows "br_inv br'"
proof -
  let ?d = "core (br_ports br)"
  note ff = frame_fields [OF fr]
  have ok: "ports_ok br" "waits_ok br" "root_ok br" using inv by (simp_all add: br_inv_def)
  have s: "(m, q) \<in> set (od_upd n f ?d) \<longleftrightarrow> (\<exists>p. (m, p) \<in> set ?d \<and> q = (if m = n then f p else p))" for m q
    by (rule in_od_upd)
  have pd: "port_ok m p" "p_role p \<noteq> Some DESIGNATED_PORT \<Longrightarrow> p_wait_bpdu p" if "(m, p) \<in> set ?d" for m p
    using ok(1,2) that unfolding ports_ok_core waits_ok_core by auto
  have each: "port_ok m q \<and> (p_role q \<noteq> Some DESIGNATED_PORT \<longrightarrow> p_wait_bpdu q)"
    if mq: "(m, q) \<in> set (od_upd n f ?d)" for m q
  proof -
    obtain p where p: "(m, p) \<in> set ?d" "q = (if m = n then f p else p)" using mq s by blast
    then show ?thesis using f pd [OF p(1)] by (cases "m = n") auto
  qed
  have "ports_ok br'" unfolding ports_ok_core c using each ok(1) by (auto simp: ports_ok_def)
  moreover have "waits_ok br'" unfolding waits_ok_core c using each by blast
  moreover have r: "\<exists>p. (m, p) \<in> set ?d \<and> p_role p = Some ROOT_PORT \<and> p_dprio q = p_dprio p \<and> p_dtimes q = p_dtimes p"
    if mq: "(m, q) \<in> set (od_upd n f ?d)" "p_role q = Some ROOT_PORT" for m q
  proof -
    obtain p where p: "(m, p) \<in> set ?d" "q = (if m = n then f p else p)" using mq(1) s by blast
    then have "p_role p = Some ROOT_PORT \<and> p_dprio q = p_dprio p \<and> p_dtimes q = p_dtimes p"
      using f pd(1) [OF p(1)] mq(2) by (cases "m = n") auto
    with p(1) show ?thesis by blast
  qed
  have "root_ok br'" unfolding root_ok_core c
  proof (intro ballI, clarify)
    fix m q assume mq: "(m, q) \<in> set (od_upd n f ?d)" "p_role q = Some ROOT_PORT"
    from r [OF mq] obtain p where p: "(m, p) \<in> set ?d" "p_role p = Some ROOT_PORT" "p_dprio q = p_dprio p"
      "p_dtimes q = p_dtimes p" by blast
    have "k = m" if "(k, x) \<in> set (od_upd n f ?d)" "p_role x = Some ROOT_PORT" for k x
      using r [OF that] p(1,2) ok(3) unfolding root_ok_core by blast
    moreover from p ok(3) have "p_dprio p = Some (br_root_priority br) \<and> p_dtimes p = Some (br_root_times br) \<and>
        bi_value (pr_root (br_root_priority br)) < bi_value (br_id br)" unfolding root_ok_core by blast
    ultimately show "p_dprio q = Some (br_root_priority br') \<and> p_dtimes q = Some (br_root_times br') \<and>
        bi_value (pr_root (br_root_priority br')) < bi_value (br_id br') \<and>
        (\<forall>(k, x) \<in> set (od_upd n f ?d). p_role x = Some ROOT_PORT \<longrightarrow> k = m)"
      using p(3,4) ff by auto
  qed
  moreover have "fst ` set (br_ports br') = fst ` set (br_ports br)"
    using c by (metis keys_core list.set_map map_fst_od_upd)
  ultimately show ?thesis using inv ff by (simp add: br_inv_def)
qed

text \<open>After a recalculation the invariant holds again, whatever held of the root port before.\<close>

lemma recalculated_keys:
  assumes "recalculated br br'"
  shows "br_ports_state br' = br_ports_state br" "fst ` set (br_ports br') = fst ` set (br_ports br)"
  using assms unfolding recalculated_def by (simp, metis list.set_map)

definition keys_ok :: "bridge \<Rightarrow> bool" where
  "keys_ok br \<longleftrightarrow> fst ` set (br_ports_state br) = fst ` set (br_ports br) \<and>
     (\<forall>n \<in> fst ` set (br_ports br). n \<le> MAX_PORT_NO)"

lemma br_inv_recalc:
  assumes "ports_ok br" "keys_ok br"
  shows "\<exists>br'. recalculate_spanning_tree init br = Inr br' \<and> recalculated br br' \<and> br_inv br'"
proof (cases init)
  case True
  from recalc_init [OF assms(1)] obtain br' where r: "recalculate_spanning_tree True br = Inr br'"
    "recalculated br br'" "ports_ok br'" "waits_ok br'"
    "\<forall>(n, p) \<in> set (br_ports br'). p_role p = Some DESIGNATED_PORT \<and> \<not> active p" by blast
  then have "root_ok br'" by (fastforce simp: root_ok_def)
  with r recalculated_keys [OF r(2)] assms(2) have "br_inv br'" by (simp add: br_inv_def keys_ok_def)
  with r True show ?thesis by auto
next
  case False
  from recalc_tree [OF assms(1)] obtain br' where r: "recalculate_spanning_tree False br = Inr br'"
    "recalculated br br'" "ports_ok br'" "waits_ok br'" "root_ok br'" by blast
  with recalculated_keys [OF r(2)] assms(2) have "br_inv br'" by (simp add: br_inv_def keys_ok_def)
  with r False show ?thesis by auto
qed

section \<open>Every operation keeps the invariant and lets no further port forward\<close>

text \<open>Only the timer of the port state machine brings a port to \<open>FORWARD\<close>.\<close>

definition no_new_forward :: "bridge \<Rightarrow> bridge \<Rightarrow> bool" where
  "no_new_forward br br' \<longleftrightarrow> (\<forall>n p'. (n, p') \<in> set (br_ports br') \<longrightarrow> p_state p' = Some FORWARD \<longrightarrow>
     (\<exists>p. (n, p) \<in> set (br_ports br) \<and> p_state p = Some FORWARD \<and> p_role p' = p_role p))"

lemma mem_core: "(n, q) \<in> set (core d) \<longleftrightarrow> (\<exists>p. (n, p) \<in> set d \<and> q = port_core p)"
  by (auto simp: set_core)

lemma no_new_forward_core:
  "no_new_forward br br' \<longleftrightarrow> (\<forall>n p'. (n, p') \<in> set (core (br_ports br')) \<longrightarrow> p_state p' = Some FORWARD \<longrightarrow>
     (\<exists>p. (n, p) \<in> set (core (br_ports br)) \<and> p_state p = Some FORWARD \<and> p_role p' = p_role p))"
  unfolding no_new_forward_def mem_core by (metis port_core_simps(2,3))

definition keeps :: "bridge \<Rightarrow> bridge \<Rightarrow> bool" where
  "keeps br br' \<longleftrightarrow> br_inv br' \<and> no_new_forward br br'"

lemma keeps_core:
  assumes "br_inv br" and c: "core (br_ports br') = core (br_ports br)" and fr: "frame br' = frame br"
  shows "keeps br br'"
proof -
  have "br_inv br'" unfolding br_inv_core [OF c fr] by fact
  moreover have "no_new_forward br br'" unfolding no_new_forward_core c by blast
  ultimately show ?thesis by (simp add: keeps_def)
qed

lemma br_inv_keys: "br_inv br \<Longrightarrow> keys_ok br"
  by (simp add: br_inv_def keys_ok_def)

lemma br_inv_ports: "br_inv br \<Longrightarrow> ports_ok br"
  by (simp add: br_inv_def)

lemma keeps_upd:
  assumes inv: "br_inv br" and c: "core (br_ports br') = od_upd n f (core (br_ports br))"
    and fr: "frame br' = frame br"
    and f: "\<forall>p. port_ok n p \<longrightarrow> port_ok n (f p) \<and>
      (p_role (f p) = Some DESIGNATED_PORT \<or> p_role (f p) = p_role p \<and> p_wait_bpdu (f p) = p_wait_bpdu p \<and>
        p_dprio (f p) = p_dprio p \<and> p_dtimes (f p) = p_dtimes p)"
    and g: "\<And>p. port_ok n p \<Longrightarrow> p_state (f p) = Some FORWARD \<Longrightarrow> p_state p = Some FORWARD \<and> p_role (f p) = p_role p"
  shows "keeps br br'"
  unfolding keeps_def
proof
  show "br_inv br'" by (rule br_inv_upd [OF inv c fr f])
  show "no_new_forward br br'"
    unfolding no_new_forward_core c
  proof (intro allI impI)
    fix m q assume q: "(m, q) \<in> set (od_upd n f (core (br_ports br)))" "p_state q = Some FORWARD"
    from q(1) obtain p where p: "(m, p) \<in> set (core (br_ports br))" "q = (if m = n then f p else p)"
      by (auto simp: in_od_upd)
    have "port_ok m p" using p(1) inv [THEN br_inv_ports, unfolded ports_ok_core] by auto
    with p q(2) g [of p] have "p_state p = Some FORWARD \<and> p_role q = p_role p" by (auto split: if_splits)
    with p(1) show "\<exists>p. (m, p) \<in> set (core (br_ports br)) \<and> p_state p = Some FORWARD \<and> p_role q = p_role p"
      by blast
  qed
qed

lemma no_new_forward_trans: "no_new_forward a b \<Longrightarrow> no_new_forward b c \<Longrightarrow> no_new_forward a c"
  unfolding no_new_forward_def by metis

lemma recalculated_no_forward: "recalculated br br' \<Longrightarrow> od_wf (br_ports br') \<Longrightarrow> no_new_forward b br'"
  unfolding no_new_forward_def recalculated_def
  by (auto simp: map_of_eq_Some_iff_od split: if_splits) fastforce

lemma recalculate_keeps:
  assumes "ports_ok br" "keys_ok br" "recalculate_spanning_tree init br = Inr br'"
  shows "keeps b br'"
proof -
  from br_inv_recalc [OF assms(1,2), of init] assms(3) have r: "recalculated br br'" "br_inv br'" by auto
  then show ?thesis by (simp add: keeps_def recalculated_no_forward br_inv_def ports_ok_def)
qed

lemma od_set_same_key:
  "k \<in> fst ` set d \<Longrightarrow> fst ` set (od_set k v d) = fst ` set d"
  by (simp add: keys_od_set insert_absorb)

text \<open>Recording the link state of a port that is there.\<close>

lemma keeps_ports_state:
  assumes "keeps br br'" "n \<in> fst ` set (br_ports br')"
  shows "keeps br (br'\<lparr>br_ports_state := od_set n st (br_ports_state br')\<rparr>)"
  using assms unfolding keeps_def br_inv_def ports_ok_def waits_ok_def root_ok_def no_new_forward_def
  by (simp add: od_set_same_key)

lemma up_c_designated:
  "port_ok n p \<Longrightarrow> port_ok n (up_c DESIGNATED_PORT prio tm p) \<and> p_role (up_c DESIGNATED_PORT prio tm p) = Some DESIGNATED_PORT \<and>
    p_state (up_c DESIGNATED_PORT prio tm p) \<noteq> Some FORWARD"
  by (auto simp: up_c_def enter_c_def enter_state_def change_role_def port_ok_def dprio_ok_def)

lemma down_c_disable:
  "port_ok n p \<Longrightarrow> port_ok n (down_c DISABLE init p) \<and> p_role (down_c DISABLE init p) = Some DESIGNATED_PORT \<and>
    p_state (down_c DISABLE init p) \<noteq> Some FORWARD"
  by (auto simp: down_c_def enter_c_def enter_state_def change_role_def port_ok_def dprio_ok_def)

lemma port_keys: "map_of (br_ports br) n = Some p \<Longrightarrow> n \<in> fst ` set (br_ports br)"
  by (metis map_of_SomeD fst_conv image_eqI)

lemma link_up_keeps:
  assumes inv: "br_inv br" and l: "link_up ofp br = Inr br'"
  shows "keeps br br'"
proof -
  let ?b = "port_up (op_no ofp) DESIGNATED_PORT (br_root_priority br) (br_root_times br) br"
  obtain p where p: "map_of (br_ports br) (op_no ofp) = Some p"
    and e: "br' = ?b\<lparr>br_ports_state := od_set (op_no ofp) (op_state ofp) (br_ports_state ?b)\<rparr>"
    using l by (auto simp: link_up_def Let_def split: option.splits)
  have wf: "od_wf (br_ports br)" using inv by (simp add: br_inv_def ports_ok_def)
  note c = port_up_core [OF wf, of "op_no ofp" DESIGNATED_PORT "br_root_priority br" "br_root_times br"]
  have "keeps br ?b" by (rule keeps_upd [OF inv c]) (simp_all add: up_c_designated)
  moreover have "op_no ofp \<in> fst ` set (br_ports ?b)"
    using port_keys [OF p] c(1) by (metis keys_core list.set_map map_fst_od_upd)
  ultimately show ?thesis unfolding e by (rule keeps_ports_state)
qed

lemma link_down_keeps:
  assumes inv: "br_inv br" and l: "link_down ofp br = Inr br'"
  shows "keeps br br'"
proof -
  let ?b = "port_down (op_no ofp) DISABLE True br"
  let ?s = "?b\<lparr>br_ports_state := od_set (op_no ofp) (op_state ofp) (br_ports_state ?b)\<rparr>"
  obtain p where p: "map_of (br_ports br) (op_no ofp) = Some p"
    and e: "br' = ?s \<or> recalculate_spanning_tree True ?s = Inr br'"
    using l by (auto simp: link_down_def Let_def split: option.splits if_splits)
  have wf: "od_wf (br_ports br)" using inv by (simp add: br_inv_def ports_ok_def)
  note c = port_down_core [OF wf, of "op_no ofp" DISABLE True]
  have "keeps br ?b" by (rule keeps_upd [OF inv c]) (simp_all add: down_c_disable)
  moreover have "op_no ofp \<in> fst ` set (br_ports ?b)"
    using port_keys [OF p] c(1) by (metis keys_core list.set_map map_fst_od_upd)
  ultimately have s: "keeps br ?s" by (rule keeps_ports_state)
  from e show ?thesis
  proof
    assume "recalculate_spanning_tree True ?s = Inr br'"
    moreover have "ports_ok ?s" "keys_ok ?s"
      using s br_inv_ports br_inv_keys unfolding keeps_def by blast+
    ultimately show ?thesis by (intro recalculate_keeps)
  qed (use s in simp)
qed

lemma port_delete_keeps:
  assumes inv: "br_inv br" and l: "port_delete ofp br = Inr br'"
  shows "keeps br br'"
proof -
  obtain b where b: "link_down ofp br = Inr b"
    and e: "br' = b\<lparr>br_ports := od_del (op_no ofp) (br_ports b),
             br_ports_state := od_del (op_no ofp) (br_ports_state b)\<rparr>"
    using l by (auto simp: port_delete_def res_bind_eq_Inr)
  have k: "keeps br b" by (rule link_down_keeps [OF inv b])
  have sub: "(m, p) \<in> set (od_del n d) \<Longrightarrow> (m, p) \<in> set d" for m n :: int and p :: port and d
    by (simp add: od_del_def)
  have bp: "br_ports br' = od_del (op_no ofp) (br_ports b)"
    "br_ports_state br' = od_del (op_no ofp) (br_ports_state b)"
    "br_root_priority br' = br_root_priority b" "br_root_times br' = br_root_times b" "br_id br' = br_id b"
    by (simp_all add: e)
  have b: "ports_ok b" "waits_ok b" "root_ok b" "keys_ok b"
    using k by (simp_all add: keeps_def br_inv_def keys_ok_def)
  have "ports_ok br'" using b(1) sub unfolding ports_ok_def bp by (blast intro: od_wf_del)
  moreover have "waits_ok br'" using b(2) sub unfolding waits_ok_def bp by blast
  moreover have "root_ok br'" using b(3) sub unfolding root_ok_def bp by blast
  moreover have "keys_ok br'" using b(4) unfolding keys_ok_def bp keys_od_del by blast
  ultimately have "br_inv br'" by (simp add: br_inv_def keys_ok_def)
  moreover have "no_new_forward b br'" unfolding no_new_forward_def bp using sub by blast
  ultimately show ?thesis using k no_new_forward_trans [of br b br'] by (simp add: keeps_def)
qed

lemma fresh_port_ok:
  assumes "p_role p = None" "\<not> p_wait_bpdu p" "\<not> p_send_bpdu p" "p_dprio p = None" "p_dtimes p = None"
  shows "port_ok (op_no (p_ofport p))
      (enter_state (if p_config_enable p then LISTEN else DISABLE) (change_role DESIGNATED_PORT p)) \<and>
    p_role (enter_state (if p_config_enable p then LISTEN else DISABLE) (change_role DESIGNATED_PORT p)) =
      Some DESIGNATED_PORT \<and>
    p_state (enter_state (if p_config_enable p then LISTEN else DISABLE) (change_role DESIGNATED_PORT p)) \<noteq>
      Some FORWARD"
  using assms by (simp add: enter_state_def change_role_def port_ok_def dprio_ok_def)

lemma mk_port_ok:
  assumes "mk_port en bid tm ofp pd = (p, pd')"
  shows "port_ok (op_no ofp) p \<and> p_role p = Some DESIGNATED_PORT \<and> p_state p \<noteq> Some FORWARD"
proof -
  define e where "e = (case en of None \<Rightarrow> pd_enable pd | Some e \<Rightarrow> e)"
  define p0 where "p0 = blank_port e bid tm ofp (pd\<lparr>pd_path_cost := path_cost_of (op_curr ofp) (pd_path_cost pd)\<rparr>)"
  have p: "p = enter_state (if e then LISTEN else DISABLE) (change_role DESIGNATED_PORT p0)"
    using assms unfolding mk_port_def Let_def e_def [symmetric] p0_def prod.inject by (elim conjE) (rule sym)
  have p0: "p_role p0 = None" "\<not> p_wait_bpdu p0" "\<not> p_send_bpdu p0" "p_dprio p0 = None" "p_dtimes p0 = None"
    "p_ofport p0 = ofp" "p_config_enable p0 = e"
    by (simp_all add: p0_def blank_port_def)
  from fresh_port_ok [OF p0(1-5)] show ?thesis unfolding p p0(6,7) .
qed

lemma in_od_set: "(m, q) \<in> set (od_set n p d) \<Longrightarrow> (m, q) = (n, p) \<or> (m, q) \<in> set d"
  by (induction n p d rule: od_set.induct) (auto split: if_splits)

lemma root_ok_unique:
  "root_ok br \<Longrightarrow> (n, p) \<in> set (br_ports br) \<Longrightarrow> p_role p = Some ROOT_PORT \<Longrightarrow>
    (m, q) \<in> set (br_ports br) \<Longrightarrow> p_role q = Some ROOT_PORT \<Longrightarrow> m = n"
  unfolding root_ok_def by blast

lemma root_ok_msg:
  "root_ok br \<Longrightarrow> (n, p) \<in> set (br_ports br) \<Longrightarrow> p_role p = Some ROOT_PORT \<Longrightarrow>
    p_dprio p = Some (br_root_priority br) \<and> p_dtimes p = Some (br_root_times br) \<and>
    bi_value (pr_root (br_root_priority br)) < bi_value (br_id br)"
  unfolding root_ok_def by blast

lemma port_add_keeps:
  assumes inv: "br_inv br" and l: "port_add ofp (pd, br) = (pd', br')"
  shows "keeps br br'"
proof (cases "op_no ofp \<le> MAX_PORT_NO")
  case False
  then show ?thesis using l inv keeps_core [OF inv refl refl] by (simp add: port_add_def)
next
  case True
  obtain p pd1 where p: "mk_port (br_ports_enable br (op_no ofp)) (br_id br) (br_times br) ofp pd = (p, pd1)"
    by (cases "mk_port (br_ports_enable br (op_no ofp)) (br_id br) (br_times br) ofp pd")
  note ok = mk_port_ok [OF p]
  have bp: "br_ports br' = od_set (op_no ofp) p (br_ports br)"
    "br_ports_state br' = od_set (op_no ofp) (op_state ofp) (br_ports_state br)"
    "br_root_priority br' = br_root_priority br" "br_root_times br' = br_root_times br" "br_id br' = br_id br"
    using l True by (auto simp: port_add_def p Let_def)
  have sub: "(m, q) = (op_no ofp, p) \<or> (m, q) \<in> set (br_ports br)" if "(m, q) \<in> set (br_ports br')" for m q
    using that unfolding bp by (rule in_od_set)
  have "br_inv br'" unfolding br_inv_def ports_ok_def waits_ok_def root_ok_def bp(3-5)
  proof (intro conjI ballI)
    show "od_wf (br_ports br')" using inv by (simp add: bp br_inv_def ports_ok_def)
    show "fst ` set (br_ports_state br') = fst ` set (br_ports br')"
      using inv by (simp add: bp keys_od_set br_inv_def)
    show "n \<le> MAX_PORT_NO" if "n \<in> fst ` set (br_ports br')" for n
      using that inv True by (auto simp: bp keys_od_set br_inv_def)
    show "case x of (n, p) \<Rightarrow> port_ok n p" if "x \<in> set (br_ports br')" for x
    proof (cases x)
      case (Pair n q)
      with sub [of n q] that ok inv show ?thesis unfolding br_inv_def ports_ok_def by auto
    qed
    show "case x of (n, p) \<Rightarrow> p_role p \<noteq> Some DESIGNATED_PORT \<longrightarrow> p_wait_bpdu p" if "x \<in> set (br_ports br')" for x
    proof (cases x)
      case (Pair n q)
      with sub [of n q] that ok inv show ?thesis unfolding br_inv_def waits_ok_def by auto
    qed
    have old: "(n, q) \<in> set (br_ports br)" if "(n, q) \<in> set (br_ports br')" "p_role q = Some ROOT_PORT" for n q
      using sub [OF that(1)] that(2) ok by auto
    show "case x of (n, p) \<Rightarrow> p_role p = Some ROOT_PORT \<longrightarrow>
        p_dprio p = Some (br_root_priority br) \<and> p_dtimes p = Some (br_root_times br) \<and>
        bi_value (pr_root (br_root_priority br)) < bi_value (br_id br) \<and>
        (\<forall>(m, q) \<in> set (br_ports br'). p_role q = Some ROOT_PORT \<longrightarrow> m = n)" if "x \<in> set (br_ports br')" for x
    proof (cases x, clarify)
      fix n q assume "x = (n, q)" "p_role q = Some ROOT_PORT"
      with old that have q: "(n, q) \<in> set (br_ports br)" "p_role q = Some ROOT_PORT" by auto
      have ro: "root_ok br" using inv by (simp add: br_inv_def)
      have u: "\<forall>(m, q) \<in> set (br_ports br'). p_role q = Some ROOT_PORT \<longrightarrow> m = n"
        using root_ok_unique [OF ro q] old by blast
      show "p_dprio q = Some (br_root_priority br) \<and> p_dtimes q = Some (br_root_times br) \<and>
        bi_value (pr_root (br_root_priority br)) < bi_value (br_id br) \<and>
        (\<forall>(m, q) \<in> set (br_ports br'). p_role q = Some ROOT_PORT \<longrightarrow> m = n)"
        using root_ok_msg [OF ro q] u by (intro conjI) simp_all
    qed
  qed
  moreover have "no_new_forward br br'" unfolding no_new_forward_def using sub ok by blast
  ultimately show ?thesis by (simp add: keeps_def)
qed

text \<open>Received messages.\<close>

lemma rcv_port:
  assumes "rcv_config_bpdu A b p = Inr (p', info, tc)"
  shows "(info \<noteq> SUPERIOR \<longrightarrow> port_core p' = port_core p) \<and>
    p_state p' = p_state p \<and> p_role p' = p_role p \<and> (port_ok n p \<longrightarrow> port_ok n p')"
proof -
  obtain mp where mp: "msg_priority_of A b = Inr mp" "compare_bpdu_info (p_dprio p) (p_dtimes p) mp (msg_times_of b) = Inr info"
    using assms by (auto simp: rcv_config_bpdu_def res_bind_eq_Inr Let_def)
  have ids: "ids_ok mp" using mp(1) by (auto simp: msg_priority_of_def res_bind_eq_Inr ids_ok_def)
  define q where "q = (if info = SUPERIOR then p\<lparr>p_dprio := Some mp, p_dtimes := Some (msg_times_of b)\<rparr> else p)"
  have "p' = q \<or> p' = q\<lparr>p_send_tcn_flg := False\<rparr>"
    using assms unfolding rcv_config_bpdu_def mp res_bind_Inr Let_def q_def [symmetric] sum.inject prod.inject
    by (elim conjE) (metis (full_types))
  moreover have "port_core (q\<lparr>p_send_tcn_flg := False\<rparr>) = port_core q" "port_ok n (q\<lparr>p_send_tcn_flg := False\<rparr>) = port_ok n q"
    by (simp_all add: port_core_def port_ok_def dprio_ok_def)
  moreover have "info \<noteq> SUPERIOR \<longrightarrow> port_core q = port_core p" "p_state q = p_state p" "p_role q = p_role p" by (simp_all add: q_def)
  moreover have "port_ok n p \<Longrightarrow> port_ok n q" using ids by (simp add: q_def port_ok_def dprio_ok_def)
  ultimately show ?thesis by (elim disjE) simp_all
qed

lemma forward_tc_core: "core (br_ports (forward_tc_bpdu b br)) = core (br_ports br)" "frame (forward_tc_bpdu b br) = frame br"
  by (auto simp: forward_tc_bpdu_def core_def port_core_def frame_def)

lemma emit_core: "core (br_ports (emit ev br)) = core (br_ports br)" "frame (emit ev br) = frame br"
  by (simp_all add: emit_def frame_def)

lemma keeps_then_core:
  assumes "keeps br b" "core (br_ports br') = core (br_ports b)" "frame br' = frame b"
  shows "keeps br br'"
proof -
  have "keeps b br'" using assms by (intro keeps_core) (simp_all add: keeps_def)
  with assms(1) no_new_forward_trans [of br b br'] show ?thesis by (simp add: keeps_def)
qed

lemma config_bpdu_keeps:
  assumes inv: "br_inv br" and l: "config_bpdu_in A n m br = Inr br'"
  shows "keeps br br'"
proof (cases "map_of (br_ports br) n")
  case None
  then show ?thesis using l keeps_core [OF inv refl refl] by (simp add: config_bpdu_in_def)
next
  case (Some p)
  show ?thesis
  proof (cases "bp_message_age m > bp_max_age m")
    case True
    then show ?thesis using l Some keeps_core [OF inv refl refl] by (simp add: config_bpdu_in_def)
  next
    case False
    from l Some False obtain p' info tc b where r: "rcv_config_bpdu A m p = Inr (p', info, tc)"
      "(if info = SUPERIOR then recalculate_spanning_tree False (on_port n (\<lambda>_. p') br)
        else Inr (if tc then emit EventTopologyChange (on_port n (\<lambda>_. p') br) else on_port n (\<lambda>_. p') br)) = Inr b"
      "br' = (case map_of (br_ports b) n of
                Some p \<Rightarrow> if p_role p = Some ROOT_PORT then forward_tc_bpdu tc b else b | None \<Rightarrow> b)"
      by (auto simp: config_bpdu_in_def res_bind_eq_Inr Let_def)
    have wf: "od_wf (br_ports br)" using inv by (simp add: br_inv_def ports_ok_def)
    have k: "keeps br b"
    proof (cases "info = SUPERIOR")
      case True
      have pk: "port_ok n p" using Some inv ports_lookup [OF br_inv_ports [OF inv]]
        by (auto simp: br_inv_def ports_ok_def)
      have "ports_ok (on_port n (\<lambda>_. p') br)"
        using inv rcv_port [OF r(1), of n] pk
        unfolding br_inv_def ports_ok_def on_port_def
        by (simp add: in_od_upd Ball_def) blast
      moreover have "keys_ok (on_port n (\<lambda>_. p') br)"
        using br_inv_keys [OF inv] unfolding keys_ok_def on_port_def by (simp add: keys_od_upd)
      ultimately show ?thesis using r(2) True by (intro recalculate_keeps) simp_all
    next
      case False
      have "core (br_ports (on_port n (\<lambda>_. p') br)) = od_upd n (\<lambda>q. port_core p') (core (br_ports br))"
        unfolding on_port_def by (simp, rule core_od_upd) simp
      also have "\<dots> = od_upd n (\<lambda>q. q) (core (br_ports br))"
        using False rcv_port [OF r(1)] Some wf by (intro od_upd_cong_at) (auto simp: map_of_core)
      finally have c: "core (br_ports (on_port n (\<lambda>_. p') br)) = core (br_ports br)" by (simp add: od_upd_id)
      have "core (br_ports b) = core (br_ports br) \<and> frame b = frame br"
        using r(2) False c emit_core by (auto split: if_splits)
      then show ?thesis by (intro keeps_core [OF inv]) auto
    qed
    show ?thesis
      by (rule keeps_then_core [OF k]) (auto simp: r(3) forward_tc_core split: option.splits)
  qed
qed

lemma packet_in_keeps:
  assumes inv: "br_inv br" and l: "bridge_packet_in le A E n data br = Inr br'"
  shows "keeps br br'"
proof -
  consider "br' = br" | m where "config_bpdu_in A n m br = Inr br'"
    | p b where "transmit_ack_bpdu le A E p br = Inr b" "br' = topology_change_notify None b"
    | "br' = emit (EventPacketIn data) br"
  proof (cases "map_of (br_ports br) n")
    case None
    with l that(1) show ?thesis by (simp add: bridge_packet_in_def)
  next
    case (Some p)
    show ?thesis
    proof (cases "p_state p = Some DISABLE")
      case True
      with Some l that(1) show ?thesis by (simp add: bridge_packet_in_def)
    next
      case False
      with Some l obtain pkt where d: "packet_decode A E data = Some (Inr pkt)"
        by (auto simp: bridge_packet_in_def res_bind_eq_Inr split: option.splits)
      note l' = l [unfolded bridge_packet_in_def Some option.case if_not_P [OF False] d res_bind_Inr]
      show ?thesis
      proof (cases "list_ex is_config (pk_protocols pkt)")
        case True
        with l' that(2) show ?thesis by (auto split: list.splits proto.splits bpdu_proto.splits)
      next
        case False
        with l' that(1,3,4) show ?thesis by (auto simp: res_bind_eq_Inr split: if_splits)
      qed
    qed
  qed
  then show ?thesis
  proof cases
    case 3
    then have "core (br_ports b) = core (br_ports br)" "frame b = frame br"
      by (auto simp: transmit_ack_bpdu_def res_bind_eq_Inr emit_core)
    with 3 show ?thesis by (intro keeps_core [OF inv]) (simp_all add: notify_core)
  qed (use inv config_bpdu_keeps keeps_core emit_core in auto)
qed

end
