(* ===== verification/Stp_Steps.thy ===== *)
theory Stp_Steps
  imports Stp_Inv
begin

text \<open>
  The bridge as a transition system: received frames, port status messages, and the threads of
  its ports. The invariant holds in every reachable state, and the timer of the port state
  machine is the only step that brings a port to \<open>FORWARD\<close>.
\<close>

section \<open>Steps\<close>

text \<open>
  One step of a bridge: a packet-in, a port status message as \<^verbatim>\<open>port_status_handler\<close> dispatches it
  (a port announced with \<open>ADD\<close> is a new one), the state machine, sender and wait threads of a
  port, and the passing of time. \<open>le\<close>, \<open>A\<close> and \<open>E\<close> are the byte order of the host, the address
  conversions and the packet classes outside the model.
\<close>

inductive stp_step :: "bool \<Rightarrow> addrconv \<Rightarrow> 'o ext \<Rightarrow> bridge \<Rightarrow> bridge \<Rightarrow> bool"
  for le :: bool and A :: addrconv and E :: "'o ext" where
  step_packet: "bridge_packet_in le A E n data br = Inr br' \<Longrightarrow> stp_step le A E br br'"
| step_add: "map_of (br_ports br) (op_no ofp) = None \<Longrightarrow> port_add ofp (pd, br) = (pd', br') \<Longrightarrow> stp_step le A E br br'"
| step_delete: "port_delete ofp br = Inr br' \<Longrightarrow> stp_step le A E br br'"
| step_up: "map_of (br_ports_state br) (op_no ofp) = Some st \<Longrightarrow> st \<noteq> op_state ofp \<Longrightarrow> op_state ofp AND 1 = 0 \<Longrightarrow>
    link_up ofp br = Inr br' \<Longrightarrow> stp_step le A E br br'"
| step_down: "map_of (br_ports_state br) (op_no ofp) = Some st \<Longrightarrow> st \<noteq> op_state ofp \<Longrightarrow> op_state ofp AND 1 \<noteq> 0 \<Longrightarrow>
    link_down ofp br = Inr br' \<Longrightarrow> stp_step le A E br br'"
| step_timer: "stp_step le A E br (state_machine_timeout n br)"
| step_start: "stp_step le A E br (state_machine_start n br)"
| step_wait: "wait_bpdu_timeout n br = Inr br' \<Longrightarrow> stp_step le A E br br'"
| step_send: "map_of (br_ports br) n = Some p \<Longrightarrow> p_send_bpdu p \<Longrightarrow> transmit_bpdu le A E n br = Inr br' \<Longrightarrow>
    stp_step le A E br br'"
| step_tick: "0 \<le> d \<Longrightarrow> stp_step le A E br (br\<lparr>br_now := br_now br + d\<rparr>)"

inductive_cases stp_stepE: "stp_step le A E br br'"

inductive stp_reach :: "bool \<Rightarrow> addrconv \<Rightarrow> 'o ext \<Rightarrow> bridge \<Rightarrow> bridge \<Rightarrow> bool"
  for le :: bool and A :: addrconv and E :: "'o ext" and br :: bridge where
  reach_refl: "stp_reach le A E br br"
| reach_step: "stp_reach le A E br br1 \<Longrightarrow> stp_step le A E br1 br2 \<Longrightarrow> stp_reach le A E br br2"

section \<open>Each thread keeps the invariant\<close>

text \<open>The next state of a port fits its role.\<close>

lemma next_state_ok:
  assumes "port_ok n p" "get_next_state p = Some s"
  shows "port_ok n (enter_c s (port_core p)) \<and> p_role (enter_c s (port_core p)) = p_role p \<and>
    p_wait_bpdu (enter_c s (port_core p)) = p_wait_bpdu p \<and> p_dprio (enter_c s (port_core p)) = p_dprio p \<and>
    p_dtimes (enter_c s (port_core p)) = p_dtimes p \<and>
    (s = FORWARD \<longrightarrow> p_state p = Some LEARN \<and> p_role p \<noteq> Some NON_DESIGNATED_PORT) \<and>
    p_state (enter_c s (port_core p)) = Some s"
  using assms unfolding get_next_state_def
  by (auto simp: enter_c_def enter_state_def port_ok_def dprio_ok_def split: option.splits pstate.splits if_splits)

lemma timer_core:
  assumes "od_wf (br_ports br)"
  shows "core (br_ports (state_machine_timeout n br)) = core (br_ports br) \<and>
      frame (state_machine_timeout n br) = frame br \<or>
    (\<exists>p s. map_of (br_ports br) n = Some p \<and> get_next_state p = Some s \<and>
       core (br_ports (state_machine_timeout n br)) =
         od_upd n (\<lambda>q. if q = port_core p then enter_c s q else q) (core (br_ports br)) \<and>
       frame (state_machine_timeout n br) = frame br)"
proof (cases "map_of (br_ports br) n")
  case None
  then show ?thesis by (simp add: state_machine_timeout_def)
next
  case (Some p)
  show ?thesis
  proof (cases "timer_set (get_timer p) \<and> get_next_state p \<noteq> None")
    case True
    then obtain s where s: "get_next_state p = Some s" by auto
    with True Some have e: "state_machine_timeout n br = change_status n s br"
      by (simp add: state_machine_timeout_def)
    have "od_upd n (enter_c s) (core (br_ports br)) =
        od_upd n (\<lambda>q. if q = port_core p then enter_c s q else q) (core (br_ports br))"
      using Some assms by (intro od_upd_cong_at) (auto simp: map_of_core)
    with Some s show ?thesis unfolding e change_status_core by blast
  next
    case False
    with Some show ?thesis by (auto simp: state_machine_timeout_def)
  qed
qed

lemma timer_inv:
  assumes "br_inv br"
  shows "br_inv (state_machine_timeout n br)"
proof -
  have ok: "ports_ok br" and wf: "od_wf (br_ports br)" using assms by (simp_all add: br_inv_def ports_ok_def)
  from timer_core [OF wf, of n] show ?thesis
  proof (elim disjE exE conjE)
    fix p s
    assume p: "map_of (br_ports br) n = Some p" "get_next_state p = Some s"
      and c: "core (br_ports (state_machine_timeout n br)) =
         od_upd n (\<lambda>q. if q = port_core p then enter_c s q else q) (core (br_ports br))"
      and f: "frame (state_machine_timeout n br) = frame br"
    have "port_ok n p" using p(1) ok ports_lookup [OF ok] by (auto simp: ports_ok_def)
    from next_state_ok [OF this p(2)] show ?thesis
      by (intro br_inv_upd [OF assms c f]) auto
  qed (use assms br_inv_core in blast)
qed

text \<open>Who forwards after the timer of port \<open>n\<close>: who did, or port \<open>n\<close> from \<open>LEARN\<close>.\<close>

lemma timer_forward:
  assumes inv: "br_inv br" and m: "(m, p') \<in> set (br_ports (state_machine_timeout n br))"
    "p_state p' = Some FORWARD"
  shows "\<exists>p. (m, p) \<in> set (br_ports br) \<and> p_role p' = p_role p \<and>
    (p_state p = Some FORWARD \<or> m = n \<and> p_state p = Some LEARN \<and> p_role p \<noteq> Some NON_DESIGNATED_PORT)"
proof -
  have ok: "ports_ok br" and wf: "od_wf (br_ports br)" using inv by (simp_all add: br_inv_def ports_ok_def)
  have m': "(m, port_core p') \<in> set (core (br_ports (state_machine_timeout n br)))"
    using m(1) by (auto simp: mem_core)
  from timer_core [OF wf, of n] show ?thesis
  proof (elim disjE exE conjE)
    assume c: "core (br_ports (state_machine_timeout n br)) = core (br_ports br)"
    with m' obtain p where p: "(m, p) \<in> set (br_ports br)" "port_core p' = port_core p" by (auto simp: mem_core)
    then have "p_state p' = p_state p" "p_role p' = p_role p" by (metis port_core_simps(2,3))+
    with p(1) m(2) show ?thesis by metis
  next
    fix p s
    assume p: "map_of (br_ports br) n = Some p" "get_next_state p = Some s"
      and c: "core (br_ports (state_machine_timeout n br)) =
         od_upd n (\<lambda>q. if q = port_core p then enter_c s q else q) (core (br_ports br))"
    have pn: "port_ok n p" using p(1) ok ports_lookup [OF ok] by (auto simp: ports_ok_def)
    note nx = next_state_ok [OF pn p(2)]
    from m' c obtain q where q: "(m, q) \<in> set (br_ports br)"
      "port_core p' = (if m = n then if port_core q = port_core p then enter_c s (port_core q) else port_core q
         else port_core q)"
      by (auto simp: in_od_upd mem_core)
    have pc: "p_state p' = p_state (port_core p')" "p_role p' = p_role (port_core p')" by simp_all
    show ?thesis
    proof (cases "m = n \<and> port_core q = port_core p")
      case True
      then have e: "port_core p' = enter_c s (port_core p)" using q(2) by simp
      have "p_state p' = Some s" "p_role p' = p_role p" using nx pc unfolding e by auto
      moreover have "p_state q = p_state p" "p_role q = p_role p" using True by (metis port_core_simps(2,3))+
      ultimately show ?thesis using True q(1) nx m(2) by (intro exI [of _ q]) auto
    next
      case False
      then have "port_core p' = port_core q" using q(2) by auto
      then have "p_state p' = p_state q" "p_role p' = p_role q" by (metis port_core_simps(2,3))+
      with q(1) m(2) show ?thesis by (intro exI [of _ q]) simp
    qed
  qed
qed

lemma ports_ok_on_port:
  assumes "ports_ok br" "\<And>p. port_ok n p \<Longrightarrow> port_ok n (f p)"
  shows "ports_ok (on_port n f br)"
  unfolding ports_ok_def
proof (intro conjI ballI)
  show "od_wf (br_ports (on_port n f br))" using assms(1) by (simp add: ports_ok_def on_port_def)
  fix x assume x: "x \<in> set (br_ports (on_port n f br))"
  obtain m q where mq: "x = (m, q)" by (cases x)
  from x obtain p where p: "(m, p) \<in> set (br_ports br)" "q = (if m = n then f p else p)"
    by (auto simp: on_port_def in_od_upd mq)
  then have "port_ok m p" using assms(1) by (auto simp: ports_ok_def)
  with p(2) assms(2) show "case x of (n, p) \<Rightarrow> port_ok n p" by (cases "m = n") (simp_all add: mq)
qed

lemma wait_keeps:
  assumes inv: "br_inv br" and w: "wait_bpdu_timeout n br = Inr br'"
  shows "keeps br br'"
proof (cases "map_of (br_ports br) n")
  case None
  with w inv show ?thesis using keeps_core [OF inv refl refl] by (simp add: wait_bpdu_timeout_def)
next
  case (Some p)
  show ?thesis
  proof (cases "p_wait_bpdu p")
    case False
    with w Some show ?thesis using keeps_core [OF inv refl refl] by (simp add: wait_bpdu_timeout_def)
  next
    case True
    let ?b = "on_port n (\<lambda>p. p\<lparr>p_wait_bpdu := False\<rparr>) br"
    have "ports_ok ?b"
      by (rule ports_ok_on_port [OF br_inv_ports [OF inv]]) (auto simp: port_ok_def dprio_ok_def)
    moreover have "keys_ok ?b" using br_inv_keys [OF inv] by (simp add: keys_ok_def on_port_def keys_od_upd)
    ultimately show ?thesis using w Some True by (intro recalculate_keeps) (simp_all add: wait_bpdu_timeout_def)
  qed
qed

lemma transmit_core:
  assumes "transmit_bpdu le A E n br = Inr br'"
  shows "core (br_ports br') = core (br_ports br) \<and> frame br' = frame br"
proof -
  have g: "core (br_ports (on_port n f br)) = core (br_ports br)"
    if "\<And>p. port_core (f p) = port_core p" for f
  proof -
    have "core (od_upd n f (br_ports br)) = od_upd n (\<lambda>p. port_core p) (core (br_ports br))"
      by (rule core_od_upd) (simp add: that)
    also have "\<dots> = core (br_ports br)" by (simp add: od_upd_def core_def case_prod_beta comp_def)
    finally show ?thesis by (simp add: on_port_def)
  qed
  have h: "core (br_ports (on_port n (\<lambda>p. p\<lparr>p_send_tc_timer := None, p_send_tc_flg := False\<rparr>) br)) =
      core (br_ports br)" "core (br_ports (on_port n (\<lambda>p. p) br)) = core (br_ports br)"
    by (rule g; simp add: port_core_def)+
  obtain p where p: "map_of (br_ports br) n = Some p \<or> br' = br" using assms
    by (cases "map_of (br_ports br) n") (auto simp: transmit_bpdu_def)
  show ?thesis
    using assms p unfolding transmit_bpdu_def
    by (auto simp: res_bind_eq_Inr Let_def emit_core h split: option.splits if_splits)
qed

section \<open>Reachable states\<close>

lemma step_cases_keeps:
  assumes "br_inv br" "stp_step le A E br br'"
  shows "keeps br br' \<or> (\<exists>n. br' = state_machine_timeout n br)"
  using assms(2)
proof cases
  case (step_packet n data)
  then show ?thesis using packet_in_keeps [OF assms(1)] by blast
next
  case (step_add ofp pd pd')
  then show ?thesis using port_add_keeps [OF assms(1)] by blast
next
  case (step_start n)
  then show ?thesis using keeps_core [OF assms(1)] by (simp add: state_machine_start_def frame_def split: option.splits)
next
  case (step_send n p)
  then show ?thesis using transmit_core keeps_core [OF assms(1)] by blast
next
  case (step_tick d)
  have "br_inv br'" using assms(1) unfolding step_tick
    by (simp add: br_inv_def ports_ok_def waits_ok_def root_ok_def)
  then have "keeps br br'" by (auto simp: keeps_def no_new_forward_def step_tick)
  then show ?thesis by blast
qed (use assms(1) port_delete_keeps link_up_keeps link_down_keeps wait_keeps in blast)+

lemma step_inv: "br_inv br \<Longrightarrow> stp_step le A E br br' \<Longrightarrow> br_inv br'"
  using step_cases_keeps timer_inv unfolding keeps_def by blast

lemma reach_inv: "stp_reach le A E br br' \<Longrightarrow> br_inv br \<Longrightarrow> br_inv br'"
  by (induction rule: stp_reach.induct) (use step_inv in blast)+

lemma step_forward:
  assumes "br_inv br" "stp_step le A E br br'" "(m, p') \<in> set (br_ports br')" "p_state p' = Some FORWARD"
  shows "\<exists>p. (m, p) \<in> set (br_ports br) \<and> p_role p' = p_role p \<and>
    (p_state p = Some FORWARD \<or> br' = state_machine_timeout m br \<and> p_state p = Some LEARN \<and>
       p_role p \<noteq> Some NON_DESIGNATED_PORT)"
  using step_cases_keeps [OF assms(1,2)]
proof (elim disjE exE)
  assume "keeps br br'"
  with assms(3,4) show ?thesis unfolding keeps_def no_new_forward_def by blast
next
  fix n assume "br' = state_machine_timeout n br"
  with timer_forward [OF assms(1), of m p' n] assms(3,4) show ?thesis by blast
qed

text \<open>A bridge that has just started.\<close>

lemma port_add_inv: "br_inv br \<Longrightarrow> br_inv (snd (port_add ofp (pd, br)))"
  using port_add_keeps [of br ofp pd "fst (port_add ofp (pd, br))" "snd (port_add ofp (pd, br))"] by (simp add: keeps_def)

lemma fold_port_add_inv:
  "br_inv br \<Longrightarrow> br_inv (snd (foldl (\<lambda>s ofport. port_add ofport s) (pd, br) ofps))"
proof (induction ofps arbitrary: pd br)
  case (Cons ofp ofps)
  from port_add_inv [OF Cons.prems, of ofp pd]
  show ?case using Cons.IH by (cases "port_add ofp (pd, br)") simp
qed simp

lemma bare_bridge_inv: "bare_bridge A ver now v en s = Inr br \<Longrightarrow> br_inv br"
  by (auto simp: bare_bridge_def res_bind_eq_Inr Let_def br_inv_def ports_ok_def waits_ok_def root_ok_def od_wf_def)

lemma bridge_init_inv:
  assumes "bridge_init A ver now c dp_ports st = (st', Inr br)"
  shows "br_inv br"
proof -
  obtain vals pd where st: "st = (vals, pd)" by (cases st)
  obtain ofp ofps where d: "dp_ports = ofp # ofps"
    using assms by (cases dp_ports) (auto simp: bridge_init_def st Let_def)
  obtain b where b: "bare_bridge A ver now (merge_conf c vals) (bc_ports_enable c) (op_hw_addr ofp) = Inr b"
    using assms by (auto simp: bridge_init_def st d Let_def split: sum.splits)
  let ?f = "foldl (\<lambda>s ofport. port_add ofport s) (pd, b) dp_ports"
  have "br = snd ?f \<or> br = emit AddBpduPktInFlow (snd ?f)"
    using assms b by (auto simp: bridge_init_def st d Let_def split: prod.splits if_splits)
  moreover have "br_inv (snd ?f)" by (rule fold_port_add_inv [OF bare_bridge_inv [OF b]])
  ultimately show ?thesis using br_inv_core emit_core by metis
qed

end
