(* ===== verification/Stp_Frames.thy ===== *)
theory Stp_Frames
  imports Stp_Steps
begin

text \<open>
  The frames a designated port sends, as the neighbour's packet-in handler sees them, and a small
  bridge to evaluate the model on.
\<close>

section \<open>From one bridge to the next\<close>

text \<open>What a port must hold for its configuration BPDU to go out unchanged: whole seconds.\<close>

definition hello_ok :: "addrconv \<Rightarrow> int \<Rightarrow> port \<Rightarrow> bool" where
  "hello_ok A flags p \<longleftrightarrow> config_wf A (config_bpdu_of flags p) \<and>
     floor_timers (config_bpdu_of flags p) = config_bpdu_of flags p \<and> op_no (p_ofport p) \<noteq> 0 \<and>
     canon_mac A (op_hw_addr (p_ofport p)) \<and> canon_mac A BRIDGE_GROUP_ADDRESS"

lemma bpdu_frame_protocols:
  "bpdu_frame len p m = \<lparr>pk_data = [], pk_protocols = [
     PEth \<lparr>eth_dst = BRIDGE_GROUP_ADDRESS, eth_src = op_hw_addr (p_ofport p), eth_ethertype = len\<rparr>,
     PLlc bpdu_llc, PBpdu m]\<rparr>"
  by (simp add: bpdu_frame_def add_protocol_def)

lemma bpdu_llc_wf: "llc_wf bpdu_llc" "llc_dsap bpdu_llc = 0x42"
  by (simp_all add: bpdu_llc_def llc_wf_def llc_range_def)

lemma bpdu_frame_sent:
  assumes A: "addrconv_ok A" and E: "ext_shrinks E" and m: "bpdu_wf A m" "bpdu_reread m = m" "bpdu_nonzero m"
    and macs: "canon_mac A (op_hw_addr (p_ofport p))" "canon_mac A BRIDGE_GROUP_ADDRESS"
    and len: "0 \<le> len" "len < 1500"
  shows "\<exists>d. packet_serialize le A E (bpdu_frame len p m) =
      Inr ((bpdu_frame len p m)\<lparr>pk_data := d\<rparr>) \<and>
    packet_decode A E d = Some (Inr ((bpdu_frame len p m)\<lparr>pk_data := d\<rparr>))"
proof -
  let ?e = "\<lparr>eth_dst = BRIDGE_GROUP_ADDRESS, eth_src = op_hw_addr (p_ofport p), eth_ethertype = len\<rparr>"
  have e: "ethernet_wf A ?e" using macs len by (simp add: ethernet_wf_def)
  have t: "ethernet_get_packet_type (eth_ethertype ?e) = Some C_llc"
    using len by (simp add: ethernet_get_packet_type_def get_packet_type_def packet_types_def)
  from encodes_bpdu_frame [OF A e bpdu_llc_wf m t] obtain d where
    d: "encodes le A E None (Some C_ethernet) [PEth ?e, PLlc bpdu_llc, PBpdu m] d
      [PEth ?e, PLlc bpdu_llc, PBpdu m] True" by blast
  from encodes_packet [OF d E] show ?thesis unfolding bpdu_frame_protocols by auto
qed

lemma hello_sent:
  assumes A: "addrconv_ok A" and E: "ext_shrinks E" and p: "hello_ok A flags p"
  shows "\<exists>d. generate_config_bpdu le A E flags p = Inr d \<and>
    packet_decode A E d = Some (Inr ((bpdu_frame 38 p (ConfigurationBPDUs (config_bpdu_of flags p)))\<lparr>pk_data := d\<rparr>))"
proof -
  let ?m = "ConfigurationBPDUs (config_bpdu_of flags p)"
  have m: "bpdu_wf A ?m" "bpdu_reread ?m = ?m" "bpdu_nonzero ?m"
    using p by (simp_all add: hello_ok_def bpdu_nonzero_def config_bpdu_of_def)
  have macs: "canon_mac A (op_hw_addr (p_ofport p))" "canon_mac A BRIDGE_GROUP_ADDRESS"
    using p by (simp_all add: hello_ok_def)
  have r: "config_range A (config_bpdu_of flags p)" "bp_flags (config_bpdu_of flags p) div 2 mod 64 = 0"
    using p by (simp_all add: hello_ok_def config_wf_def)
  have "rst_check_parameters (config_bpdu_of flags p)"
    using floor_timers_checks(1) [OF r(1)] p by (simp add: hello_ok_def)
  then have c: "config_check_parameters (config_bpdu_of flags p)"
    using r(2) by (simp add: config_check_parameters_def mask_simps)
  from bpdu_frame_sent [OF A E m macs, of 38 le] obtain d where
    "packet_serialize le A E (bpdu_frame 38 p ?m) = Inr ((bpdu_frame 38 p ?m)\<lparr>pk_data := d\<rparr>)"
    "packet_decode A E d = Some (Inr ((bpdu_frame 38 p ?m)\<lparr>pk_data := d\<rparr>))" by auto
  with c show ?thesis by (intro exI [of _ d]) (simp add: generate_config_bpdu_def Let_def assertR_def)
qed

lemma tcn_sent:
  assumes A: "addrconv_ok A" and E: "ext_shrinks E"
    and macs: "canon_mac A (op_hw_addr (p_ofport p))" "canon_mac A BRIDGE_GROUP_ADDRESS"
  shows "\<exists>d. generate_tcn_bpdu le A E p = Inr d \<and>
    packet_decode A E d = Some (Inr ((bpdu_frame 7 p TopologyChangeNotificationBPDUs)\<lparr>pk_data := d\<rparr>))"
proof -
  have m: "bpdu_wf A TopologyChangeNotificationBPDUs"
    "bpdu_reread TopologyChangeNotificationBPDUs = TopologyChangeNotificationBPDUs"
    "bpdu_nonzero TopologyChangeNotificationBPDUs"
    by (simp_all add: bpdu_nonzero_def)
  from bpdu_frame_sent [OF A E m macs, of 7 le] show ?thesis by (auto simp: generate_tcn_bpdu_def)
qed

text \<open>The handler of the neighbour, on the decoded frames.\<close>

lemma packet_in_config:
  assumes "packet_decode A E d = Some (Inr ((bpdu_frame len p (ConfigurationBPDUs b))\<lparr>pk_data := d\<rparr>))"
    "map_of (br_ports br) n = Some q" "p_state q \<noteq> Some DISABLE"
  shows "bridge_packet_in le A E n d br = config_bpdu_in A n b br"
  using assms by (simp add: bridge_packet_in_def bpdu_frame_protocols is_config_def get_protocols_def
      isinstance_config_def)

lemma packet_in_tcn:
  assumes "packet_decode A E d = Some (Inr ((bpdu_frame len p TopologyChangeNotificationBPDUs)\<lparr>pk_data := d\<rparr>))"
    "map_of (br_ports br) n = Some q" "p_state q \<noteq> Some DISABLE"
  shows "bridge_packet_in le A E n d br =
    res_bind (transmit_ack_bpdu le A E q br) (\<lambda>br. Inr (topology_change_notify None br))"
  using assms by (simp add: bridge_packet_in_def bpdu_frame_protocols is_config_def is_tcn_def)

section \<open>What the invariant says of one port\<close>

lemma br_inv_port:
  assumes "br_inv br" "(n, p) \<in> set (br_ports br)"
  shows "port_ok n p" "p_role p \<noteq> Some DESIGNATED_PORT \<Longrightarrow> p_wait_bpdu p" "n \<le> MAX_PORT_NO"
    "n \<in> fst ` set (br_ports_state br)"
proof -
  have n: "n \<in> fst ` set (br_ports br)" using assms(2) by force
  have i: "ports_ok br" "waits_ok br" "fst ` set (br_ports_state br) = fst ` set (br_ports br)"
    "\<forall>n \<in> fst ` set (br_ports br). n \<le> MAX_PORT_NO" using assms(1) by (simp_all add: br_inv_def)
  show "port_ok n p" using i(1) assms(2) unfolding ports_ok_def by blast
  show "p_role p \<noteq> Some DESIGNATED_PORT \<Longrightarrow> p_wait_bpdu p" using i(2) assms(2) unfolding waits_ok_def by blast
  show "n \<le> MAX_PORT_NO" "n \<in> fst ` set (br_ports_state br)" using i n by auto
qed

section \<open>The timers of a port\<close>

lemma timer_next:
  assumes "map_of (br_ports br) n = Some p" "timer_set (get_timer p)" "get_next_state p = Some s"
  shows "\<exists>p'. map_of (br_ports (state_machine_timeout n br)) n = Some p' \<and> p_state p' = Some s \<and>
    p_role p' = p_role p \<and> p_port_times p' = p_port_times p"
proof -
  have e: "state_machine_timeout n br = change_status n s br"
    using assms by (simp add: state_machine_timeout_def)
  have "map_option port_core (map_of (br_ports (state_machine_timeout n br)) n) = Some (enter_c s (port_core p))"
    using assms(1) by (simp add: e flip: map_of_core) (simp add: change_status_core map_of_od_upd map_of_core)
  then obtain p' where p': "map_of (br_ports (state_machine_timeout n br)) n = Some p'"
    "port_core p' = enter_c s (port_core p)" by (cases "map_of (br_ports (state_machine_timeout n br)) n") auto
  have "p_state p' = p_state (port_core p')" "p_role p' = p_role (port_core p')"
    "p_port_times p' = p_port_times (port_core p')" by (simp_all add: port_core_def)
  with p'(1) show ?thesis unfolding p'(2) by (simp add: enter_c_def enter_state_def port_core_def)
qed

section \<open>Comparing messages\<close>

lemma compare_bpdu_info_spec:
  assumes "ids_ok my" "ids_ok rcv" "haddr_to_int (bi_mac (the (pr_bridge my))) = Inr mac"
  shows "compare_bpdu_info None my_times rcv rcv_times = Inr SUPERIOR \<and>
    compare_bpdu_info (Some my) my_times rcv rcv_times = Inr (
      if vector rcv < vector my then SUPERIOR
      else if vector my < vector rcv then INFERIOR
      else if bi_value (the (pr_bridge rcv)) = mac \<and> pi_value (the (pr_port rcv)) = pi_port_no (the (pr_port my))
        then SUPERIOR
      else if my_times = Some rcv_times then REPEATED else SUPERIOR)"
proof
  show "compare_bpdu_info None my_times rcv rcv_times = Inr SUPERIOR" by (simp add: compare_bpdu_info_def)
  obtain mb mp rb rp where ids: "pr_bridge my = Some mb" "pr_port my = Some mp" "pr_bridge rcv = Some rb"
    "pr_port rcv = Some rp" using assms(1,2) by (auto simp: ids_ok_def)
  have e: "compare_bpdu_info (Some my) my_times rcv rcv_times = Inr (
      if cmp_msg rcv my \<noteq> REPEATED then cmp_msg rcv my
      else if cmp_value (bi_value rb) mac = REPEATED \<and> cmp_value (pi_value rp) (pi_port_no mp) = REPEATED
        then SUPERIOR else cmp_times rcv_times my_times)"
    using assms(3) by (simp add: compare_bpdu_info_def bid_value_def pid_value_def ids cmp_msg_def Let_def)
  show "compare_bpdu_info (Some my) my_times rcv rcv_times = Inr (
      if vector rcv < vector my then SUPERIOR
      else if vector my < vector rcv then INFERIOR
      else if bi_value (the (pr_bridge rcv)) = mac \<and> pi_value (the (pr_port rcv)) = pi_port_no (the (pr_port my))
        then SUPERIOR
      else if my_times = Some rcv_times then REPEATED else SUPERIOR)"
    unfolding e by (auto simp: cmp_msg_key ids cmp_value_key cmp_times_def)
qed

section \<open>The configuration of a bridge\<close>

lemma bridge_init_values:
  "bridge_init A ver now c dp_ports st = (st', r) \<Longrightarrow> fst st' = merge_conf c (fst st)"
  by (cases st; cases dp_ports) (auto simp: bridge_init_def Let_def split: sum.splits prod.splits)

lemma port_add_id: "br_id (snd (port_add ofp s)) = br_id (snd s)"
  by (cases s) (simp add: port_add_def Let_def split: prod.splits)

lemma fold_port_add_id: "br_id (snd (foldl (\<lambda>s ofp. port_add ofp s) s ofps)) = br_id (snd s)"
  by (induction ofps arbitrary: s) (simp_all add: port_add_id)

lemma bridge_init_id:
  assumes "bridge_init A ver now c dp_ports st = (st', Inr br)"
  shows "bi_priority (br_id br) = bv_priority (merge_conf c (fst st)) \<and>
    bi_ext (br_id br) = bv_sys_ext_id (merge_conf c (fst st))"
proof -
  obtain vals pd where st: "st = (vals, pd)" by (cases st)
  obtain ofp ofps where d: "dp_ports = ofp # ofps"
    using assms by (cases dp_ports) (auto simp: bridge_init_def st Let_def)
  obtain b where b: "bare_bridge A ver now (merge_conf c vals) (bc_ports_enable c) (op_hw_addr ofp) = Inr b"
    using assms by (auto simp: bridge_init_def st d Let_def split: sum.splits)
  let ?f = "foldl (\<lambda>s ofport. port_add ofport s) (pd, b) dp_ports"
  have "br = snd ?f \<or> br = emit AddBpduPktInFlow (snd ?f)"
    using assms b by (auto simp: bridge_init_def st d Let_def split: prod.splits if_splits)
  then have "br_id br = br_id b" using fold_port_add_id [of "(pd, b)" dp_ports] by (auto simp: emit_def)
  then show ?thesis using b by (auto simp: bare_bridge_def mk_bridge_id_def res_bind_eq_Inr Let_def st)
qed

section \<open>A small bridge\<close>

definition demo_phy :: "int \<Rightarrow> ofport" where
  "demo_phy n = \<lparr>op_no = n, op_hw_addr = ''02:00:00:00:00:01'', op_state = 0, op_curr = 32\<rparr>"

definition demo_start :: "(bridge_values \<times> port_defaults) \<times> bridge res" where
  "demo_start = bridge_init unix_addrconv V1_3 0 empty_conf [demo_phy 1, demo_phy 2]
     (bridge_default_value, port_default_value)"

definition demo_bridge :: bridge where
  "demo_bridge = (case snd demo_start of Inr br \<Rightarrow> br
     | Inl e \<Rightarrow> \<lparr>br_ofver = V1_0, br_id = \<lparr>bi_priority = 0, bi_ext = 0, bi_mac = [], bi_value = 0\<rparr>,
         br_times = \<lparr>tm_message_age = 0, tm_max_age = 0, tm_hello_time = 0, tm_forward_delay = 0\<rparr>,
         br_root_priority = own_priority \<lparr>bi_priority = 0, bi_ext = 0, bi_mac = [], bi_value = 0\<rparr>,
         br_root_times = \<lparr>tm_message_age = 0, tm_max_age = 0, tm_hello_time = 0, tm_forward_delay = 0\<rparr>,
         br_ports = [], br_ports_state = [], br_ports_enable = (\<lambda>_. None), br_now = 0, br_out = []\<rparr>)"

lemma demo_init: "bridge_init unix_addrconv V1_3 0 empty_conf [demo_phy 1, demo_phy 2]
     (bridge_default_value, port_default_value) = (fst demo_start, Inr demo_bridge)"
proof -
  have "\<not> isl (snd demo_start)" by code_simp
  then have "snd demo_start = Inr demo_bridge" unfolding demo_bridge_def by (cases "snd demo_start") auto
  then show ?thesis using demo_start_def by (metis prod.collapse)
qed

text \<open>The same bridge after both timers of port 1 have expired.\<close>

definition demo_forward :: bridge where
  "demo_forward = state_machine_timeout 1 (state_machine_timeout 1 demo_bridge)"

text \<open>No packet class outside the model parses anything.\<close>

definition demo_ext :: "unit ext" where
  "demo_ext = \<lparr>ext_parser = (\<lambda>c buf. Inl StructError),
     ext_serialize = (\<lambda>h payload prev. Inl AttributeError), ext_ipvx = (\<lambda>_. None), ext_size = (\<lambda>_. 0)\<rparr>"

lemma demo_ext_shrinks: "ext_shrinks demo_ext"
  by (simp add: ext_shrinks_def demo_ext_def)

lemma demo_forward_reach: "stp_reach False unix_addrconv demo_ext demo_bridge demo_forward"
  unfolding demo_forward_def by (rule reach_step [OF reach_step [OF reach_refl step_timer] step_timer])

text \<open>The hello arrives as the frame its sender would put on the wire.\<close>

definition demo_sender :: "int \<Rightarrow> int \<Rightarrow> port" where
  "demo_sender prio no = blank_port True
     \<lparr>bi_priority = prio, bi_ext = 0, bi_mac = ''02:00:00:00:00:00'', bi_value = prio * 2 ^ 48 + 2 * 256 ^ 5\<rparr>
     \<lparr>tm_message_age = 0, tm_max_age = 20, tm_hello_time = 2, tm_forward_delay = 15\<rparr>
     \<lparr>op_no = no, op_hw_addr = ''02:00:00:00:00:00'', op_state = 0, op_curr = 32\<rparr> port_default_value"

definition demo_prio :: "int \<Rightarrow> priority" where
  "demo_prio prio = (let b = p_bridge_id (demo_sender prio 3) in
     \<lparr>pr_root = b, pr_cost = 4, pr_bridge = Some b, pr_port = Some (mk_port_id 0x80 3)\<rparr>)"

lemma demo_hello_ok: "hello_ok unix_addrconv 0 (demo_sender 4096 3)"
  by code_simp

definition demo_better :: bridge where
  "demo_better = (case config_bpdu_in unix_addrconv 1 (config_bpdu_of 0 (demo_sender 4096 3)) demo_forward of
     Inr br \<Rightarrow> br | Inl e \<Rightarrow> demo_forward)"

lemma demo_better_in:
  "config_bpdu_in unix_addrconv 1 (config_bpdu_of 0 (demo_sender 4096 3)) demo_forward = Inr demo_better"
proof -
  have "\<not> isl (config_bpdu_in unix_addrconv 1 (config_bpdu_of 0 (demo_sender 4096 3)) demo_forward)" by code_simp
  then show ?thesis unfolding demo_better_def
    by (cases "config_bpdu_in unix_addrconv 1 (config_bpdu_of 0 (demo_sender 4096 3)) demo_forward") auto
qed

lemma demo_better_reach: "stp_reach False unix_addrconv demo_ext demo_bridge demo_better"
proof -
  obtain d where d: "packet_decode unix_addrconv demo_ext d = Some (Inr
      ((bpdu_frame 38 (demo_sender 4096 3) (ConfigurationBPDUs (config_bpdu_of 0 (demo_sender 4096 3))))\<lparr>pk_data := d\<rparr>))"
    using hello_sent [OF unix_addrconv_ok demo_ext_shrinks demo_hello_ok, of False] by blast
  have "case map_of (br_ports demo_forward) 1 of None \<Rightarrow> False | Some q \<Rightarrow> p_state q \<noteq> Some DISABLE" by code_simp
  then obtain q where "map_of (br_ports demo_forward) 1 = Some q" "p_state q \<noteq> Some DISABLE"
    by (auto split: option.splits)
  from packet_in_config [OF d this, of False] demo_better_in
  have "bridge_packet_in False unix_addrconv demo_ext 1 d demo_forward = Inr demo_better" by simp
  then show ?thesis by (intro reach_step [OF demo_forward_reach] step_packet)
qed

end
