(* ===== verification/Stp_Props.thy ===== *)
theory Stp_Props
  imports Stp_Frames
begin

text \<open>The properties of the spanning-tree bridge, each with a witness on the small bridge of \<open>Stp_Frames\<close>.\<close>

section \<open>The spanning tree\<close>



text \<open>C9: a port enters \<open>FORWARD\<close> only through the timer of its own state machine, from \<open>LEARN\<close>, and
  only while its role is root or designated; no packet, link event or recalculation lets a port
  forward that did not forward before.\<close>

theorem stp_forward_safety:
  assumes "bridge_init A ver now c dp_ports st = (st', Inr br0)" "stp_reach le A E br0 br"
    and "stp_step le A E br br'" "(n, p') \<in> set (br_ports br')" "p_state p' = Some FORWARD"
  shows "\<exists>p. (n, p) \<in> set (br_ports br) \<and> p_role p' = p_role p \<and>
    (p_state p = Some FORWARD \<or>
     br' = state_machine_timeout n br \<and> p_state p = Some LEARN \<and> p_role p \<noteq> Some NON_DESIGNATED_PORT)"
  using step_forward [OF reach_inv [OF assms(2) bridge_init_inv [OF assms(1)]] assms(3-5)] .

lemma stp_forward_safety_witness:
  "\<exists>p. (1, p) \<in> set (br_ports (state_machine_timeout 1 demo_bridge)) \<and> p_state p = Some LEARN"
proof -
  let ?b = "state_machine_timeout 1 demo_bridge"
  have r: "stp_reach False unix_addrconv demo_ext demo_bridge ?b"
    by (rule reach_step [OF reach_refl step_timer])
  have s: "stp_step False unix_addrconv demo_ext ?b demo_forward" unfolding demo_forward_def by (rule step_timer)
  have "list_ex (\<lambda>(n, p). n = 1 \<and> p_state p = Some FORWARD) (br_ports demo_forward)" by code_simp
  then obtain p' where p': "(1, p') \<in> set (br_ports demo_forward)" "p_state p' = Some FORWARD"
    by (auto simp: list_ex_iff)
  have none: "list_all (\<lambda>(n, p). p_state p \<noteq> Some FORWARD) (br_ports ?b)" by code_simp
  from stp_forward_safety [OF demo_init r s p'] none show ?thesis by (fastforce simp: list_all_iff)
qed

text \<open>C14: in every reachable state the calculation of the tree returns, and it elects the best root
  port: there is one exactly if some port that is not disabled has heard of a root smaller than the
  bridge, its message is minimal (root, cost, sending bridge, sending port) among those of all
  ports, and the bridge takes its root and its times from it.\<close>

theorem stp_root_election:
  assumes "bridge_init A ver now c dp_ports st = (st', Inr br0)" "stp_reach le A E br0 br"
  shows "\<exists>br'. recalculate_spanning_tree False br = Inr br' \<and>
    ((\<exists>n p. (n, p) \<in> set (br_ports br') \<and> p_role p = Some ROOT_PORT) \<longleftrightarrow>
     (\<exists>n p. (n, p) \<in> set (br_ports br') \<and> candidate (br_id br) p)) \<and>
    (\<forall>(n, p) \<in> set (br_ports br'). p_role p = Some ROOT_PORT \<longrightarrow>
       candidate (br_id br) p \<and> p_dprio p = Some (br_root_priority br') \<and> p_dtimes p = Some (br_root_times br') \<and>
       (\<forall>(m, q) \<in> set (br_ports br'). active q \<longrightarrow> vector (msg p) \<le> vector (msg q)))"
proof -
  have inv: "br_inv br" using reach_inv [OF assms(2)] bridge_init_inv [OF assms(1)] by blast
  from recalc_tree [OF br_inv_ports [OF inv]] obtain br' where r: "recalculate_spanning_tree False br = Inr br'"
    "recalculated br br'" "best_root br'" "root_ok br'" by blast
  have id: "br_id br' = br_id br" using r(2) by (simp add: recalculated_def)
  have "p_dprio p = Some (br_root_priority br') \<and> p_dtimes p = Some (br_root_times br')"
    if "(n, p) \<in> set (br_ports br')" "p_role p = Some ROOT_PORT" for n p
    using root_ok_msg [OF r(4) that] by blast
  with r(1,3) show ?thesis unfolding best_root_def id by (intro exI [of _ br']) fast
qed

lemma stp_root_election_witness:
  "\<exists>br'. recalculate_spanning_tree False demo_better = Inr br' \<and>
    (\<exists>p. (1, p) \<in> set (br_ports br') \<and> p_role p = Some ROOT_PORT)"
proof -
  from stp_root_election [OF demo_init demo_better_reach] obtain br' where
    "recalculate_spanning_tree False demo_better = Inr br'" by blast
  moreover have "(case recalculate_spanning_tree False demo_better of Inl e \<Rightarrow> False
      | Inr br' \<Rightarrow> list_ex (\<lambda>(n, p). n = 1 \<and> p_role p = Some ROOT_PORT) (br_ports br'))" by code_simp
  ultimately show ?thesis by (auto simp: list_ex_iff)
qed

text \<open>C19: the roles of the other ports after the calculation, on a bridge with a root port: a port
  that is not disabled is designated exactly if it has heard nothing, or of another root, or if what
  the bridge offers on the link is better than what it has heard (cost, then bridge, then port);
  otherwise it is blocked for its role.\<close>

theorem stp_port_roles:
  assumes "bridge_init A ver now c dp_ports st = (st', Inr br0)" "stp_reach le A E br0 br"
    and "recalculate_spanning_tree False br = Inr br'"
    and "(n, p) \<in> set (br_ports br')" "p_role p = Some ROOT_PORT"
    and "(m, q) \<in> set (br_ports br')" "m \<noteq> n" "p_state q \<noteq> Some DISABLE"
  shows "p_role q = Some (
    if p_dprio q = None \<or> bi_value (pr_root (msg q)) \<noteq> bi_value (pr_root (br_root_priority br')) \<or>
       (pr_cost (br_root_priority br'), bi_value (br_id br), pi_value (p_port_id q)) <
         (pr_cost (msg q) - p_path_cost q, bi_value (the (pr_bridge (msg q))), pi_value (the (pr_port (msg q))))
    then DESIGNATED_PORT else NON_DESIGNATED_PORT)"
proof -
  have inv: "br_inv br" using reach_inv [OF assms(2)] bridge_init_inv [OF assms(1)] by blast
  from recalc_tree [OF br_inv_ports [OF inv]] assms(3) have r: "recalculated br br'" "roles_ok br'" "root_ok br'"
    "ports_ok br'" by auto
  have id: "br_id br' = br_id br" using r(1) by (simp add: recalculated_def)
  have q: "port_ok m q" and p: "port_ok n p" using r(4) assms(4,6) unfolding ports_ok_def by blast+
  have role: "p_role q = Some (if is_designated br' p (msg p) q = Inr True then DESIGNATED_PORT else NON_DESIGNATED_PORT)"
    using r(2) assms(4-8) unfolding roles_ok_def by blast
  have m: "msg p = br_root_priority br'" using root_ok_msg [OF r(3) assms(4,5)] by (simp add: msg_def)
  have "dprio_ok q" "op_no (p_ofport q) \<noteq> op_no (p_ofport p)"
    using q p assms(7) by (simp_all add: port_ok_def)
  from designated_spec [OF this(1) assms(8) this(2), of br' "msg p"] show ?thesis
    unfolding role m id by simp
qed

lemma stp_port_roles_witness:
  "\<exists>br' q. recalculate_spanning_tree False demo_better = Inr br' \<and> (2, q) \<in> set (br_ports br') \<and>
    p_role q = Some DESIGNATED_PORT"
proof -
  have "(case recalculate_spanning_tree False demo_better of Inl e \<Rightarrow> False
      | Inr br' \<Rightarrow> list_ex (\<lambda>(n, p). n = 1 \<and> p_role p = Some ROOT_PORT) (br_ports br') \<and>
          list_ex (\<lambda>(m, q). m = 2 \<and> p_state q \<noteq> Some DISABLE \<and> p_dprio q = None) (br_ports br'))" by code_simp
  then obtain br' p q where b: "recalculate_spanning_tree False demo_better = Inr br'"
    "(1, p) \<in> set (br_ports br')" "p_role p = Some ROOT_PORT"
    "(2, q) \<in> set (br_ports br')" "p_state q \<noteq> Some DISABLE" "p_dprio q = None"
    by (auto simp: list_ex_iff split: sum.splits)
  from stp_port_roles [OF demo_init demo_better_reach b(1-4) _ b(5)] b(6) have "p_role q = Some DESIGNATED_PORT"
    by simp
  with b show ?thesis by blast
qed



text \<open>C29: a listening port whose forward delay is not zero learns after its first timer and, after its
  second, forwards if it is a root or designated port and blocks otherwise; then its timer is off.
  Role and times of the port do not change on the way.\<close>

theorem stp_listening_period:
  assumes "map_of (br_ports br) n = Some p" "p_state p = Some LISTEN"
    and "tm_forward_delay (p_port_times p) \<noteq> 0"
  shows "\<exists>p1 p2. map_of (br_ports (state_machine_timeout n br)) n = Some p1 \<and> p_state p1 = Some LEARN \<and>
    map_of (br_ports (state_machine_timeout n (state_machine_timeout n br))) n = Some p2 \<and>
    p_state p2 = Some (if p_role p = Some ROOT_PORT \<or> p_role p = Some DESIGNATED_PORT then FORWARD else BLOCK) \<and>
    p_role p2 = p_role p \<and> p_port_times p2 = p_port_times p \<and>
    state_machine_timeout n (state_machine_timeout n (state_machine_timeout n br)) =
      state_machine_timeout n (state_machine_timeout n br)"
proof -
  let ?b = "state_machine_timeout n br"
  have "timer_set (get_timer p)" "get_next_state p = Some LEARN"
    using assms(2,3) by (simp_all add: timer_set_def get_timer_def get_next_state_def)
  from timer_next [OF assms(1) this] obtain p1 where p1: "map_of (br_ports ?b) n = Some p1"
    "p_state p1 = Some LEARN" "p_role p1 = p_role p" "p_port_times p1 = p_port_times p" by blast
  let ?s = "if p_role p = Some ROOT_PORT \<or> p_role p = Some DESIGNATED_PORT then FORWARD else BLOCK"
  have "timer_set (get_timer p1)" "get_next_state p1 = Some ?s"
    using assms(3) p1 by (simp_all add: timer_set_def get_timer_def get_next_state_def)
  from timer_next [OF p1(1) this] obtain p2 where p2: "map_of (br_ports (state_machine_timeout n ?b)) n = Some p2"
    "p_state p2 = Some ?s" "p_role p2 = p_role p1" "p_port_times p2 = p_port_times p1" by blast
  have "\<not> timer_set (get_timer p2)" using p2(2) by (simp add: timer_set_def get_timer_def split: if_splits)
  then have "state_machine_timeout n (state_machine_timeout n (state_machine_timeout n br)) =
      state_machine_timeout n (state_machine_timeout n br)"
    using p2(1) by (simp add: state_machine_timeout_def [of n "state_machine_timeout n ?b"])
  with p1 p2 show ?thesis by simp
qed

lemma stp_listening_period_witness:
  "\<exists>p2. map_of (br_ports (state_machine_timeout 2 (state_machine_timeout 2 demo_bridge))) 2 = Some p2 \<and>
    p_state p2 \<in> {Some FORWARD, Some BLOCK}"
proof -
  have "case map_of (br_ports demo_bridge) 2 of None \<Rightarrow> False
      | Some p \<Rightarrow> p_state p = Some LISTEN \<and> tm_forward_delay (p_port_times p) \<noteq> 0" by code_simp
  then obtain p where p: "map_of (br_ports demo_bridge) 2 = Some p" "p_state p = Some LISTEN"
    "tm_forward_delay (p_port_times p) \<noteq> 0" by (auto split: option.splits)
  from stp_listening_period [OF p] show ?thesis by auto
qed

text \<open>C25: two bridges: the frame a port sends in one round of its sender thread reaches the handler of the
  neighbour as the configuration BPDU the port advertises, for every header class outside the model;
  the notification frame makes the neighbour acknowledge it and notify on.\<close>

theorem stp_frame_received:
  assumes "addrconv_ok A" "ext_shrinks E" "hello_ok A flags p"
    and "map_of (br_ports br) n = Some q" "p_state q \<noteq> Some DISABLE"
  shows "\<exists>d t. generate_config_bpdu le A E flags p = Inr d \<and> generate_tcn_bpdu le A E p = Inr t \<and>
    bridge_packet_in le A E n d br = config_bpdu_in A n (config_bpdu_of flags p) br \<and>
    bridge_packet_in le A E n t br =
      res_bind (transmit_ack_bpdu le A E q br) (\<lambda>br. Inr (topology_change_notify None br))"
proof -
  have macs: "canon_mac A (op_hw_addr (p_ofport p))" "canon_mac A BRIDGE_GROUP_ADDRESS"
    using assms(3) by (simp_all add: hello_ok_def)
  show ?thesis
    using hello_sent [OF assms(1-3), of le] tcn_sent [OF assms(1,2) macs, of le]
      packet_in_config [OF _ assms(4,5)] packet_in_tcn [OF _ assms(4,5)] by metis
qed

lemma stp_frame_received_witness:
  "\<exists>d. generate_config_bpdu False unix_addrconv demo_ext 0 (demo_sender 4096 3) = Inr d \<and>
    bridge_packet_in False unix_addrconv demo_ext 1 d demo_forward = Inr demo_better"
proof -
  have "case map_of (br_ports demo_forward) 1 of None \<Rightarrow> False | Some q \<Rightarrow> p_state q \<noteq> Some DISABLE" by code_simp
  then obtain q where "map_of (br_ports demo_forward) 1 = Some q" "p_state q \<noteq> Some DISABLE"
    by (auto split: option.splits)
  from stp_frame_received [OF unix_addrconv_ok demo_ext_shrinks demo_hello_ok this, of False] demo_better_in
  show ?thesis by auto
qed

text \<open>The comparison of a received message with the one a port holds: the lexicographic order of
  root, cost, sending bridge and sending port decides; on a tie the received one counts as repeated
  exactly if the times agree and the two values are not those of the bare MAC address and port
  number. A port that holds nothing takes any message.\<close>

lemma stp_compare_bpdu_info:
  assumes "ids_ok my" "ids_ok rcv" "haddr_to_int (bi_mac (the (pr_bridge my))) = Inr mac"
  shows "compare_bpdu_info None my_times rcv rcv_times = Inr SUPERIOR \<and>
    compare_bpdu_info (Some my) my_times rcv rcv_times = Inr (
      if vector rcv < vector my then SUPERIOR
      else if vector my < vector rcv then INFERIOR
      else if bi_value (the (pr_bridge rcv)) = mac \<and> pi_value (the (pr_port rcv)) = pi_port_no (the (pr_port my))
        then SUPERIOR
      else if my_times = Some rcv_times then REPEATED else SUPERIOR)"
  using assms by (rule compare_bpdu_info_spec)

lemma stp_compare_bpdu_info_witness:
  "compare_bpdu_info (Some (demo_prio 4096)) None (demo_prio 0)
     \<lparr>tm_message_age = 0, tm_max_age = 20, tm_hello_time = 2, tm_forward_delay = 15\<rparr> = Inr SUPERIOR"
proof -
  have i: "ids_ok (demo_prio 4096)" "ids_ok (demo_prio 0)" by code_simp+
  have "bi_mac (the (pr_bridge (demo_prio 4096))) = mac_to_text unix_addrconv [2, 0, 0, 0, 0, 0]" by code_simp
  then have h: "haddr_to_int (bi_mac (the (pr_bridge (demo_prio 4096)))) = Inr (be_int [2, 0, 0, 0, 0, 0])"
    using haddr_to_int_text [of "[2, 0, 0, 0, 0, 0]"] by simp
  have lt: "vector (demo_prio 0) < vector (demo_prio 4096)" by code_simp
  from stp_compare_bpdu_info [OF i h, THEN conjunct2] show ?thesis by (simp only: lt if_True)
qed

text \<open>A bridge of priority and extension 0 that sends from a port of priority 0 is never heard as
  repeating itself: the very message a port already holds, with the same times, is superior again, so
  every hello of that neighbour recalculates the tree.\<close>

theorem stp_priority_zero_superior:
  assumes "length b = 6" "mk_bridge_id unix_addrconv 0 0 (mac_to_text unix_addrconv b) = Inr bid"
    and "pr_bridge m = Some bid" "pr_port m = Some (mk_port_id 0 no)"
  shows "compare_bpdu_info (Some m) (Some t) m t = Inr SUPERIOR"
proof -
  have i: "ids_ok m" using assms(3,4) by (simp add: ids_ok_def)
  have "mac_to_bin unix_addrconv (mac_to_text unix_addrconv b) = Inr b"
    using unix_addrconv_ok assms(1) by (simp add: addrconv_ok_def)
  then have bid: "bi_value bid = be_int b" "bi_mac bid = mac_to_text unix_addrconv b"
    using assms(2) by (auto simp: mk_bridge_id_def encode_bridge_id_def)
  have h: "haddr_to_int (bi_mac (the (pr_bridge m))) = Inr (be_int b)"
    using haddr_to_int_text [OF assms(1)] by (simp add: assms(3) bid)
  have "pi_value (mk_port_id 0 no) = no" "pi_port_no (mk_port_id 0 no) = no"
    by (simp_all add: mk_port_id_def encode_port_id_def)
  then show ?thesis using compare_bpdu_info_spec [OF i i h] by (simp add: assms(3,4) bid)
qed

lemma stp_priority_zero_superior_witness:
  "\<exists>m t. compare_bpdu_info (Some m) (Some t) m t = Inr SUPERIOR"
proof -
  obtain bid where b: "mk_bridge_id unix_addrconv 0 0 (mac_to_text unix_addrconv [2, 0, 0, 0, 0, 0]) = Inr bid"
    using unix_addrconv_ok by (auto simp: mk_bridge_id_def encode_bridge_id_def addrconv_ok_def)
  let ?m = "\<lparr>pr_root = bid, pr_cost = 0, pr_bridge = Some bid, pr_port = Some (mk_port_id 0 1)\<rparr>"
  have "compare_bpdu_info (Some ?m) (Some t) ?m t = Inr SUPERIOR" for t
    by (rule stp_priority_zero_superior [OF _ b]) simp_all
  then show ?thesis by blast
qed

text \<open>A port status message for a port beyond \<open>MAX_PORT_NO\<close>, such as the local port of the switch,
  which \<^verbatim>\<open>port_add\<close> ignores, makes the handler raise \<open>KeyError\<close> when the port is modified or
  deleted, in every reachable state of the bridge.\<close>

theorem stp_high_port_error:
  assumes "bridge_init A ver now c dp_ports st = (st', Inr br0)" "stp_reach le A E br0 br"
    and "map_of (app_bridges app) dp_id = Some br" "MAX_PORT_NO < op_no ofp"
  shows "port_status_handler dp_id ofp OFPPR_MODIFY app = Inl KeyError \<and>
    port_status_handler dp_id ofp OFPPR_DELETE app = Inl KeyError \<and>
    port_add ofp (pd, br) = (pd, br)"
proof -
  have inv: "br_inv br" using reach_inv [OF assms(2)] bridge_init_inv [OF assms(1)] by blast
  have "op_no ofp \<notin> fst ` set (br_ports br)" "op_no ofp \<notin> fst ` set (br_ports_state br)"
    using inv assms(4) by (auto simp: br_inv_def)
  then have "map_of (br_ports br) (op_no ofp) = None" "map_of (br_ports_state br) (op_no ofp) = None"
    by (simp_all add: map_of_eq_None_iff)
  then show ?thesis using assms(3,4)
    by (simp add: port_status_handler_def Let_def port_delete_def link_down_def port_add_def)
qed

lemma stp_high_port_error_witness:
  "port_status_handler 1 (demo_phy 0xfffe) OFPPR_MODIFY \<lparr>app_config = (\<lambda>_. None), app_bridges = [(1, demo_bridge)],
     app_bridge_values = bridge_default_value, app_port_defaults = port_default_value\<rparr> = Inl KeyError"
proof -
  have "MAX_PORT_NO < op_no (demo_phy 0xfffe)" by (simp add: MAX_PORT_NO_def demo_phy_def)
  from stp_high_port_error [OF demo_init reach_refl _ this] show ?thesis by simp
qed

text \<open>A port status message that does not concern the link of the root port (its state word
  changes in another bit) demotes the root port to a designated port and restarts it without a
  recalculation: a reachable bridge that is not the root then has no root port.\<close>

lemma stp_link_up_loses_root_port:
  "\<exists>br br' p. stp_reach False unix_addrconv demo_ext demo_bridge br \<and>
    stp_step False unix_addrconv demo_ext br br' \<and> (1, p) \<in> set (br_ports br) \<and> p_role p = Some ROOT_PORT \<and>
    \<not> is_root_bridge br' \<and> list_all (\<lambda>(n, q). p_role q \<noteq> Some ROOT_PORT) (br_ports br')"
proof -
  let ?ofp = "demo_phy 1\<lparr>op_state := 4\<rparr>"
  have "case link_up ?ofp demo_better of Inl e \<Rightarrow> False
    | Inr br' \<Rightarrow> \<not> is_root_bridge br' \<and> list_all (\<lambda>(n, q). p_role q \<noteq> Some ROOT_PORT) (br_ports br')" by code_simp
  then obtain br' where br': "link_up ?ofp demo_better = Inr br'" "\<not> is_root_bridge br'"
    "list_all (\<lambda>(n, q). p_role q \<noteq> Some ROOT_PORT) (br_ports br')"
    by (auto split: sum.splits)
  have st: "map_of (br_ports_state demo_better) (op_no ?ofp) = Some 0" by code_simp
  have s: "stp_step False unix_addrconv demo_ext demo_better br'"
    by (rule step_up [OF st _ _ br'(1)]) (simp_all add: demo_phy_def)
  have "list_ex (\<lambda>(n, p). n = 1 \<and> p_role p = Some ROOT_PORT) (br_ports demo_better)" by code_simp
  then obtain p where "(1, p) \<in> set (br_ports demo_better)" "p_role p = Some ROOT_PORT"
    by (auto simp: list_ex_iff)
  with demo_better_reach s br' show ?thesis by blast
qed

text \<open>The configured priority and system ID extension of one bridge become the defaults of every
  bridge that starts after it: a bridge with no configuration of its own takes them over.\<close>

theorem stp_config_leaks:
  assumes "bridge_init A ver now c dp_ports st = (st1, r)" "bridge_init A ver2 now2 c2 dp_ports2 st1 = (st2, Inr br)"
    and "bc_priority c = Some p" "bc_sys_ext_id c = Some x" "bc_priority c2 = None" "bc_sys_ext_id c2 = None"
  shows "bi_priority (br_id br) = p \<and> bi_ext (br_id br) = x"
proof -
  have "bv_priority (fst st1) = p \<and> bv_sys_ext_id (fst st1) = x"
    using bridge_init_values [OF assms(1)] assms(3,4) by (simp add: merge_conf_def or_else_def)
  then show ?thesis using bridge_init_id [OF assms(2)] assms(5,6) by (simp add: merge_conf_def or_else_def)
qed

lemma stp_config_leaks_witness:
  "\<exists>st1 r st2 br. bridge_init unix_addrconv V1_3 0 (empty_conf\<lparr>bc_priority := Some 4096, bc_sys_ext_id := Some 7\<rparr>)
      [] (bridge_default_value, port_default_value) = (st1, r) \<and>
    bridge_init unix_addrconv V1_3 0 empty_conf [demo_phy 1] st1 = (st2, Inr br) \<and> bi_priority (br_id br) = 4096"
proof -
  let ?c = "empty_conf\<lparr>bc_priority := Some 4096, bc_sys_ext_id := Some 7\<rparr>"
  obtain st1 r where a: "bridge_init unix_addrconv V1_3 0 ?c [] (bridge_default_value, port_default_value) = (st1, r)"
    by fastforce
  have st1: "st1 = (merge_conf ?c bridge_default_value, port_default_value)"
    using a by (simp add: bridge_init_def Let_def)
  have "\<not> isl (snd (bridge_init unix_addrconv V1_3 0 empty_conf [demo_phy 1]
      (merge_conf ?c bridge_default_value, port_default_value)))" by code_simp
  then obtain st2 br where b: "bridge_init unix_addrconv V1_3 0 empty_conf [demo_phy 1] st1 = (st2, Inr br)"
    unfolding st1 by (metis prod.collapse sum.collapse(2))
  have "bi_priority (br_id br) = 4096 \<and> bi_ext (br_id br) = 7"
    by (rule stp_config_leaks [OF a b]) (simp_all add: empty_conf_def)
  with a b show ?thesis by blast
qed

end
