(* ===== verification/Packet_Props.thy ===== *)
theory Packet_Props
  imports Packet_Chain
begin

text \<open>
  The properties of the packet library: decoding ends, a serialized stack decodes to itself, the
  headers one by one, and the checksums. The witnesses use the address converter \<open>unix_addrconv\<close>
  and the packet classes of \<open>sample_ext\<close>, none of which parses anything.
\<close>

definition sample_ext :: "unit ext" where
  "sample_ext = \<lparr>ext_parser = (\<lambda>c buf. Inl StructError),
     ext_serialize = (\<lambda>h payload prev. Inl AttributeError), ext_ipvx = (\<lambda>_. None), ext_size = (\<lambda>_. 0)\<rparr>"

lemma sample_ext_shrinks: "ext_shrinks sample_ext"
  by (simp add: ext_shrinks_def sample_ext_def)

definition sample_eth :: "int \<Rightarrow> ethernet" where
  "sample_eth t = \<lparr>eth_dst = ''ff:ff:ff:ff:ff:ff'', eth_src = ''02:00:00:00:00:01'', eth_ethertype = t\<rparr>"

definition sample_ip :: ipv4 where
  "sample_ip = \<lparr>ip4_version = 4, ip4_header_length = 5, ip4_tos = 0, ip4_total_length = 0, ip4_identification = 1,
     ip4_flags = 2, ip4_offset = 0, ip4_ttl = 64, ip4_proto = 17, ip4_csum = 0, ip4_src = ''10.0.0.1'',
     ip4_dst = ''10.0.0.2'', ip4_option = None\<rparr>"

definition sample_udp :: udp where
  "sample_udp = \<lparr>udp_src_port = 5000, udp_dst_port = 5001, udp_total_length = 0, udp_csum = 0\<rparr>"

definition sample_arp :: arp where
  "sample_arp = \<lparr>arp_hwtype = 1, arp_proto = 0x0800, arp_hlen = 6, arp_plen = 4, arp_opcode = 1,
     arp_src_mac = ''02:00:00:00:00:01'', arp_src_ip = ''10.0.0.1'', arp_dst_mac = ''00:00:00:00:00:00'',
     arp_dst_ip = ''10.0.0.2''\<rparr>"

definition sample_vlan :: "int \<Rightarrow> vlan" where
  "sample_vlan t = \<lparr>vlan_pcp = 0, vlan_cfi = 0, vlan_vid = 100, vlan_ethertype = t\<rparr>"

lemma canon_text:
  "length b = 6 \<Longrightarrow> canon_mac unix_addrconv (mac_to_text unix_addrconv b)"
  "length c = 4 \<Longrightarrow> canon_ip4 unix_addrconv (ip4_to_text unix_addrconv c)"
  using unix_addrconv_ok by (simp_all add: addrconv_ok_def canon_mac_def canon_ip4_def)

lemma sample_texts:
  "''ff:ff:ff:ff:ff:ff'' = mac_to_text unix_addrconv [0xff, 0xff, 0xff, 0xff, 0xff, 0xff]"
  "''02:00:00:00:00:01'' = mac_to_text unix_addrconv [2, 0, 0, 0, 0, 1]"
  "''00:00:00:00:00:00'' = mac_to_text unix_addrconv [0, 0, 0, 0, 0, 0]"
  "''10.0.0.1'' = ip4_to_text unix_addrconv [10, 0, 0, 1]" "''10.0.0.2'' = ip4_to_text unix_addrconv [10, 0, 0, 2]"
  by code_simp+

lemma sample_macs:
  "canon_mac unix_addrconv ''ff:ff:ff:ff:ff:ff''" "canon_mac unix_addrconv ''02:00:00:00:00:01''"
  "canon_mac unix_addrconv ''00:00:00:00:00:00''"
  "canon_ip4 unix_addrconv ''10.0.0.1''" "canon_ip4 unix_addrconv ''10.0.0.2''"
  unfolding sample_texts by (simp_all add: canon_text)

lemma sample_wf:
  "ethernet_wf unix_addrconv (sample_eth 0x8100)" "ipv4_wf unix_addrconv sample_ip" "udp_wf sample_udp"
  "arp_wf unix_addrconv sample_arp" "vlan_wf (sample_vlan 0x0800)" "vlan_wf (sample_vlan 0x0806)"
  by (simp_all add: ethernet_wf_def sample_eth_def ipv4_wf_def sample_ip_def udp_wf_def sample_udp_def arp_wf_def
      sample_arp_def vlan_wf_def sample_vlan_def sample_macs)

lemma sample_tags:
  "tags_lead (ethernet_get_packet_type (eth_ethertype (sample_eth 0x8100))) [PVlan (sample_vlan 0x0800)] (Some C_ipv4)"
  "tags_lead (ethernet_get_packet_type (eth_ethertype (sample_eth 0x8100))) [PVlan (sample_vlan 0x0806)] (Some C_arp)"
  by code_simp+

section \<open>Decoding\<close>



text \<open>C17: a UDP datagram under IPv4 and any stack of VLAN and MPLS tags on Ethernet: serializing it fills
  in both lengths and both checksums and nothing else, and decoding the bytes gives back exactly the
  headers as filled in and the payload, the padding of short frames dropped.\<close>

theorem udp_frame_roundtrip:
  assumes "addrconv_ok A" "ext_shrinks E" "ethernet_wf A eth"
    and "tags_lead (ethernet_get_packet_type (eth_ethertype eth)) ts (Some C_ipv4)"
    and "ipv4_wf A ip" "ip4_version ip = 4" "ip4_proto ip = 17" "ip4_total_length ip = 0"
    and "udp_wf u" "udp_total_length u = 0" "udp_csum u = 0"
      "udp_get_packet_type (udp_src_port u) (udp_dst_port u) = None"
    and "\<not> all_zero b" "int (length b) + 8 + ip4_header_length ip * 4 < 65536"
  shows "\<exists>bs ip' u'. let pkt = \<lparr>pk_data = bs, pk_protocols = PEth eth # ts @ [PIpv4 ip', PUdp u', Raw b]\<rparr> in
    packet_serialize le A E \<lparr>pk_data = [], pk_protocols = PEth eth # ts @ [PIpv4 ip, PUdp u, Raw b]\<rparr> = Inr pkt \<and>
    packet_decode A E bs = Some (Inr pkt) \<and>
    ip' = ip\<lparr>ip4_total_length := ip4_header_length ip * 4 + 8 + int (length b), ip4_csum := ip4_csum ip'\<rparr> \<and>
    u' = u\<lparr>udp_total_length := 8 + int (length b), udp_csum := udp_csum u'\<rparr>"
proof -
  from encodes_udp_frame [OF assms(1,3-14), of le E] obtain bs ip' u' where
    e: "encodes le A E None (Some C_ethernet) (PEth eth # ts @ [PIpv4 ip, PUdp u, Raw b]) bs
      (PEth eth # ts @ [PIpv4 ip', PUdp u', Raw b]) True"
    "ip' = ip\<lparr>ip4_total_length := ip4_header_length ip * 4 + 8 + int (length b), ip4_csum := ip4_csum ip'\<rparr>"
    "u' = u\<lparr>udp_total_length := 8 + int (length b), udp_csum := udp_csum u'\<rparr>" by blast
  show ?thesis unfolding Let_def
    using encodes_packet [OF e(1) assms(2)] e(2,3) by blast
qed

lemma udp_frame_roundtrip_witness:
  "\<exists>bs ip' u'. packet_decode unix_addrconv sample_ext bs = Some (Inr \<lparr>pk_data = bs, pk_protocols =
     [PEth (sample_eth 0x8100), PVlan (sample_vlan 0x0800), PIpv4 ip', PUdp u', Raw [1, 2, 3]]\<rparr>)"
proof -
  have "\<not> all_zero [1, 2, 3 :: byte]" "udp_get_packet_type (udp_src_port sample_udp) (udp_dst_port sample_udp) = None"
    by code_simp+
  from udp_frame_roundtrip [OF unix_addrconv_ok sample_ext_shrinks sample_wf(1) sample_tags(1) sample_wf(2) _ _ _
      sample_wf(3) _ _ this(2,1), of False] show ?thesis
    by (fastforce simp: sample_ip_def sample_udp_def Let_def)
qed

text \<open>An ARP packet under any stack of VLAN tags on Ethernet decodes to itself, whatever the padding.\<close>

theorem arp_frame_roundtrip:
  assumes "addrconv_ok A" "ext_shrinks E" "ethernet_wf A eth" "arp_wf A h" "arp_hwtype h \<noteq> 0"
    and "tags_lead (ethernet_get_packet_type (eth_ethertype eth)) ts (Some C_arp)"
  shows "\<exists>bs. let pkt = \<lparr>pk_data = bs, pk_protocols = PEth eth # ts @ [PArp h]\<rparr> in
    packet_serialize le A E \<lparr>pk_data = [], pk_protocols = PEth eth # ts @ [PArp h]\<rparr> = Inr pkt \<and>
    packet_decode A E bs = Some (Inr pkt)"
proof -
  from encodes_arp_frame [OF assms(1,3-6), of le E] obtain bs where
    e: "encodes le A E None (Some C_ethernet) (PEth eth # ts @ [PArp h]) bs (PEth eth # ts @ [PArp h]) True"
    by blast
  show ?thesis unfolding Let_def using encodes_packet [OF e assms(2)] by blast
qed

lemma arp_frame_roundtrip_witness:
  "\<exists>bs. packet_decode unix_addrconv sample_ext bs = Some (Inr \<lparr>pk_data = bs, pk_protocols =
     [PEth (sample_eth 0x8100), PVlan (sample_vlan 0x0806), PArp sample_arp]\<rparr>)"
proof -
  have "arp_hwtype sample_arp \<noteq> 0" by (simp add: sample_arp_def)
  from arp_frame_roundtrip [OF unix_addrconv_ok sample_ext_shrinks sample_wf(1,4) this sample_tags(2), of False]
  show ?thesis by (auto simp: Let_def)
qed

section \<open>Checksums\<close>

text \<open>C33: \<^verbatim>\<open>checksum\<close>, which sums in the byte order of the host, folds the carries twice and swaps the
  bytes of the result, computes the Internet checksum of the big-endian words on either host, for
  data as long as the two folds allow.\<close>

theorem checksum_is_internet_checksum:
  assumes "length data \<le> 131070"
  shows "checksum le data = checksum_spec data \<and> checksum True data = checksum False data"
  using checksum_eq_spec [OF assms] by simp

lemma checksum_is_internet_checksum_witness: "checksum True [1, 2, 3] = checksum False [1, 2, 3]"
  using checksum_is_internet_checksum [of "[1, 2, 3]"] by simp

text \<open>A checksum stored in its field verifies: summing the whole datagram again gives zero.\<close>

theorem checksum_verifies:
  assumes "even (length a)" "length a + length b + 2 \<le> 131070" "c = checksum le (a @ [0, 0] @ b)"
  shows "0 \<le> c \<and> c \<le> 65535 \<and> checksum le' (a @ be_bytes 2 c @ b) = 0"
proof -
  have c: "c = checksum_spec (a @ [0, 0] @ b)" using checksum_eq_spec [of "a @ [0, 0] @ b" le] assms(2,3) by simp
  have "length (a @ be_bytes 2 c @ b) \<le> 131070" using assms(2) by simp
  from checksum_eq_spec [OF this, of le'] checksum_spec_inserted [OF assms(1) c] checksum_spec_bounds [of "a @ [0, 0] @ b"]
  show ?thesis by (simp add: c)
qed

lemma checksum_verifies_witness:
  "checksum True ([0x45, 0] @ be_bytes 2 (checksum True ([0x45, 0] @ [0, 0] @ [7])) @ [7]) = 0"
  using checksum_verifies [of "[0x45, 0]" "[7]" _ True, OF _ _ refl] by simp

text \<open>The Fletcher checksum that \<^verbatim>\<open>fletcher_checksum\<close> computes for the field at \<open>offset\<close> makes the
  data valid: with the two bytes in place both sums of ISO 8473 are zero modulo 255.\<close>

theorem fletcher_checksum_verifies:
  assumes "offset + 2 \<le> length data" "fletcher_checksum data offset = Inr r"
  shows "fletcher_valid (take offset data @ [word_of_int (r div 256), word_of_int (r mod 256)] @ drop (offset + 2) data)"
  by (rule fletcher_checksum_valid [OF assms])

lemma fletcher_checksum_verifies_witness:
  "\<exists>r. fletcher_valid ([1, 2] @ [word_of_int (r div 256), word_of_int (r mod 256)] @ [9 :: byte])"
proof -
  have "\<not> isl (fletcher_checksum [1, 2, 0, 0, 9] 2)" by code_simp
  then obtain r where "fletcher_checksum [1, 2, 0, 0, 9] 2 = Inr r" by (metis sum.collapse(2))
  from fletcher_checksum_verifies [OF _ this] show ?thesis by auto
qed

section \<open>Headers\<close>

text \<open>An IPv4 header, options included: serializing fills in the length and a checksum that verifies,
  and the parser reads back that header and cuts the payload at the total length.\<close>

lemma ipv4_header_roundtrip:
  assumes "addrconv_ok A" "ipv4_wf A h" "ipv4_length_ok h payload"
  shows "\<exists>hdr h'. ipv4_serialize le A h payload = Inr (hdr, h') \<and>
    h' = (ipv4_fill h payload)\<lparr>ip4_csum := ip4_csum h'\<rparr> \<and> checksum_spec hdr = 0 \<and>
    (\<forall>trailer. ipv4_parser A (hdr @ payload @ trailer) = Inr (h', get_packet_type (ip4_proto h), payload))"
  by (rule ipv4_codec [OF assms])

lemma ipv4_header_roundtrip_witness:
  "\<exists>hdr h'. ipv4_serialize True unix_addrconv sample_ip [1] = Inr (hdr, h') \<and> checksum_spec hdr = 0"
proof -
  have "ipv4_length_ok sample_ip [1]" by code_simp
  from ipv4_header_roundtrip [OF unix_addrconv_ok sample_wf(2) this, of True] show ?thesis by blast
qed

text \<open>C34: an IPv6 header with its chain of extension headers: serializing fills in the length, and the
  parser reads back the header, names the class of the last next-header field and returns the payload,
  followed by as many bytes of what comes behind as the payload length counts extension headers.\<close>

theorem ipv6_header_roundtrip:
  assumes "addrconv_ok A" "ipv6_wf A h" "ipv6_length_covers h payload"
  shows "\<exists>hdr. ipv6_serialize A h payload = Inr (hdr, ipv6_fill h payload) \<and> int (length hdr) = ipv6_len h \<and>
    (\<forall>trailer. ipv6_parser A (hdr @ payload @ trailer) =
      Inr (ipv6_fill h payload, get_packet_type (last_nxt (ip6_nxt h) (ip6_ext_hdrs h)),
        payload @ take (ipv6_excess h payload) trailer))"
  by (rule ipv6_codec [OF assms])

definition sample_ip6 :: ipv6 where
  "sample_ip6 = \<lparr>ip6_version = 6, ip6_traffic_class = 0, ip6_flow_label = 5, ip6_payload_length = 0, ip6_nxt = 44,
     ip6_hop_limit = 255, ip6_src = ip6_to_text unix_addrconv (replicate 16 1),
     ip6_dst = ip6_to_text unix_addrconv (replicate 16 2), ip6_ext_hdrs = [Fragment 17 1 0 9]\<rparr>"

lemma elided_text:
  assumes "length b = 16"
  shows "elided unix_addrconv 0 (ip6_to_text unix_addrconv b)"
  using assms unix_addrconv_ok by (simp add: addrconv_ok_def elided_def)

lemma ipv6_header_roundtrip_witness:
  "\<exists>hdr. ipv6_serialize unix_addrconv sample_ip6 [1] = Inr (hdr, sample_ip6\<lparr>ip6_payload_length := 9\<rparr>) \<and>
    ipv6_parser unix_addrconv (hdr @ [1] @ [7, 8]) =
      Inr (sample_ip6\<lparr>ip6_payload_length := 9\<rparr>, get_packet_type 17, [1, 7, 8])"
proof -
  have wf: "ipv6_wf unix_addrconv sample_ip6"
    by (simp add: ipv6_wf_def sample_ip6_def elided_text is_ext_type_def)
  have l: "ipv6_fill sample_ip6 [1] = sample_ip6\<lparr>ip6_payload_length := 9\<rparr>"
    by (simp add: ipv6_fill_def sample_ip6_def ext_hdrs_len_def)
  have c: "ipv6_length_covers sample_ip6 [1]" by (simp add: ipv6_length_covers_def l)
  have e: "ipv6_excess sample_ip6 [1] = 8" "last_nxt (ip6_nxt sample_ip6) (ip6_ext_hdrs sample_ip6) = 17"
    by (simp_all add: ipv6_excess_def l) (simp add: sample_ip6_def)
  obtain hdr where "ipv6_serialize unix_addrconv sample_ip6 [1] = Inr (hdr, sample_ip6\<lparr>ip6_payload_length := 9\<rparr>)"
    "\<forall>trailer. ipv6_parser unix_addrconv (hdr @ [1] @ trailer) =
      Inr (sample_ip6\<lparr>ip6_payload_length := 9\<rparr>, get_packet_type 17, [1] @ take 8 trailer)"
    using ipv6_header_roundtrip [OF unix_addrconv_ok wf c] unfolding l e by blast
  moreover from this(2) have "ipv6_parser unix_addrconv (hdr @ [1] @ [7, 8]) =
      Inr (sample_ip6\<lparr>ip6_payload_length := 9\<rparr>, get_packet_type 17, [1] @ take 8 [7, 8])" by blast
  ultimately show ?thesis by simp
qed

text \<open>A UDP header: the length is filled in, a checksum of zero is replaced by the one of the pseudo
  header, the header and the payload, any other is sent as it is, and the parser reads back what was
  sent and cuts the payload at the length.\<close>

theorem udp_header_roundtrip:
  assumes "addrconv_ok A" "udp_wf h" "udp_length_ok h payload"
    and "pseudo_header A ip (8 + int (length payload)) = Inr ps"
  shows "\<exists>hdr h'. udp_serialize le A h payload (Some ip) = Inr (hdr, h') \<and>
    h' = (udp_fill h payload)\<lparr>udp_csum := udp_csum h'\<rparr> \<and>
    (udp_csum h = 0 \<longrightarrow> checksum_spec (ps @ hdr @ payload) = 0) \<and>
    (udp_csum h \<noteq> 0 \<longrightarrow> udp_csum h' = udp_csum h) \<and>
    (\<forall>trailer. udp_parser (hdr @ payload @ trailer) =
      Inr (h', udp_get_packet_type (udp_src_port h) (udp_dst_port h), payload))"
  by (rule udp_codec [OF assms])

lemma udp_header_roundtrip_witness:
  "\<exists>ip hdr h'. udp_serialize True unix_addrconv sample_udp [1] (Some ip) = Inr (hdr, h') \<and>
    udp_parser (hdr @ [1]) = Inr (h', None, [1])"
proof -
  let ?ip = "\<lparr>ip_version = 4, ip_src = ip4_src sample_ip, ip_dst = ip4_dst sample_ip, ip_upper = 17\<rparr>"
  have l: "udp_length_ok sample_udp [1]" by (simp add: udp_length_ok_def udp_fill_def sample_udp_def)
  have t: "udp_get_packet_type (udp_src_port sample_udp) (udp_dst_port sample_udp) = None"
    by (simp add: udp_get_packet_type_def sample_udp_def)
  have "ip4_version sample_ip = 4" "ip4_proto sample_ip = 17" by (simp_all add: sample_ip_def)
  with ipv4_pseudo_header [OF unix_addrconv_ok sample_wf(2), of 9] obtain ps where
    "pseudo_header unix_addrconv ?ip (8 + int (length [1 :: byte])) = Inr ps" by auto
  from udp_header_roundtrip [OF unix_addrconv_ok sample_wf(3) l this, of True] t show ?thesis
    by (metis append_Nil2)
qed

text \<open>An ICMP message: echo, destination unreachable, time exceeded or any other; a checksum of zero
  is replaced by one that verifies, any other is sent as it is, and the parser gives back the message.\<close>

theorem icmp_roundtrip:
  assumes "icmp_wf h" "\<forall>b. icmp_data_serialize (icmp_payload h) = Inr b \<longrightarrow> length b \<le> 65531"
  shows "\<exists>hdr h'. icmp_serialize le h = Inr (hdr, h') \<and> h' = h\<lparr>icmp_csum := icmp_csum h'\<rparr> \<and>
    (icmp_csum h = 0 \<longrightarrow> checksum_spec hdr = 0) \<and> (icmp_csum h \<noteq> 0 \<longrightarrow> h' = h) \<and>
    icmp_parser hdr = Inr h'"
  by (rule icmp_codec) (use assms in auto)

lemma icmp_roundtrip_witness:
  "\<exists>hdr h'. icmp_serialize True \<lparr>icmp_type = 8, icmp_code = 0, icmp_csum = 0, icmp_payload = IcmpEcho 1 2 (Some [3])\<rparr> =
    Inr (hdr, h') \<and> checksum_spec hdr = 0"
proof -
  let ?h = "\<lparr>icmp_type = 8, icmp_code = 0, icmp_csum = 0, icmp_payload = IcmpEcho 1 2 (Some [3])\<rparr>"
  have w: "icmp_wf ?h" by (simp add: icmp_wf_def)
  have "\<forall>b. icmp_data_serialize (icmp_payload ?h) = Inr b \<longrightarrow> length b \<le> 65531"
    by (auto simp: res_bind_eq_Inr opt_bytes_def dest!: length_pack split: if_splits option.splits)
  from icmp_roundtrip [OF w this, of True] show ?thesis by auto
qed

text \<open>A BPDU of any of the three kinds: what it serializes to parses back, with the fraction of a
  second of every timer lost.\<close>

lemma bpdu_roundtrip:
  assumes "addrconv_ok A" "bpdu_wf A m"
  shows "\<exists>bs. bpdu_serialize A m = Inr bs \<and>
    (\<forall>rest. bpdu_parser A (bs @ rest) = Inr (bpdu_reread m, bpdu_rest m rest))"
  by (rule bpdu_codec [OF assms])

lemma bpdu_roundtrip_witness:
  "\<exists>bs. bpdu_serialize unix_addrconv TopologyChangeNotificationBPDUs = Inr bs \<and>
    bpdu_parser unix_addrconv (bs @ [1, 2, 3, 4, 5]) = Inr (TopologyChangeNotificationBPDUs, Some [5])"
  using bpdu_roundtrip [OF unix_addrconv_ok, of TopologyChangeNotificationBPDUs] by auto

text \<open>An LLC header parses back except for the poll/final bit, which the I format loses and the S
  format always reads as 1, because both read it from the wrong bit.\<close>

theorem llc_roundtrip:
  assumes "llc_range h"
  shows "\<exists>bs. llc_serialize h = Inr bs \<and> (\<forall>rest. llc_parser (bs @ rest) =
    Inr (h\<lparr>llc_ctrl := control_reread (llc_ctrl h)\<rparr>, get_packet_type (llc_dsap h), rest))"
  by (rule llc_reread_codec [OF assms])

lemma llc_roundtrip_witness:
  "\<exists>bs. llc_parser bs = Inr (\<lparr>llc_dsap = 0x42, llc_ssap = 0x42, llc_ctrl = ControlFormatI 1 0 2\<rparr>, Some C_bpdu, [])"
proof -
  have "llc_range \<lparr>llc_dsap = 0x42, llc_ssap = 0x42, llc_ctrl = ControlFormatI 1 1 2\<rparr>"
    "get_packet_type 0x42 = Some C_bpdu" by code_simp+
  from llc_roundtrip [OF this(1)] this(2) show ?thesis by (auto intro: exI [of _ "_ @ []"])
qed

text \<open>VLAN tags, MPLS labels and VXLAN headers parse back to themselves, in front of any payload.\<close>

theorem tag_roundtrips:
  assumes "vlan_wf v" "mpls_wf m" "vxlan_wf x"
  shows "\<exists>bv bm bx. vlan_serialize v = Inr bv \<and> mpls_serialize m = Inr bm \<and> vxlan_serialize x = Inr bx \<and>
    vlan_parser (bv @ rest) = Inr (v, ethernet_get_packet_type (vlan_ethertype v), rest) \<and>
    mpls_parser (bm @ rest) = Inr (m, mpls_next m, rest) \<and>
    vxlan_parser (bx @ rest) = Inr (x, Some C_ethernet, rest)"
  using vlan.roundtrip [OF assms(1)] mpls.roundtrip [OF assms(2)] vxlan.roundtrip [OF assms(3)] by blast

lemma tag_roundtrips_witness:
  "\<exists>bm. mpls_parser (bm @ [9]) = Inr (\<lparr>mpls_label = 16, mpls_exp = 0, mpls_bsb = 1, mpls_ttl = 255\<rparr>, Some C_ipv4, [9])"
proof -
  let ?m = "\<lparr>mpls_label = 16, mpls_exp = 0, mpls_bsb = 1, mpls_ttl = 255\<rparr>"
  have "mpls_wf ?m" "vxlan_wf \<lparr>vxlan_vni = 5\<rparr>" "mpls_next ?m = Some C_ipv4" by code_simp+
  with tag_roundtrips [OF sample_wf(5) this(1,2), of "[9]"] show ?thesis by auto
qed

end
