(* ===== verification/Text_Props.thy ===== *)
theory Text_Props
  imports Addr_Text
begin

text \<open>The properties of the textual identifiers, the integer descriptors and the type dispatcher.\<close>

text \<open>A 64-bit datapath id and a 32-bit port number read back from the text they are written as; a
  wider datapath id is written with more than 16 digits, which the reader refuses.\<close>

theorem identifiers_read_back:
  assumes "0 \<le> d" "d < 2 ^ 64" "0 \<le> p" "p < 2 ^ 32" "2 ^ 64 \<le> w"
  shows "str_to_dpid (dpid_to_str d) = Inr d \<and> str_to_port_no (port_no_to_str p) = Inr p \<and>
    str_to_dpid (dpid_to_str w) = Inl AssertionError"
  using dpid_reads_back [OF assms(1,2)] port_no_reads_back [OF assms(3,4)] dpid_too_wide [OF assms(5)] by simp

lemma identifiers_read_back_witness:
  "str_to_dpid (dpid_to_str 0xcafe) = Inr 0xcafe \<and> str_to_dpid (dpid_to_str (2 ^ 64)) = Inl AssertionError"
  using identifiers_read_back [of "0xcafe" 1 "2 ^ 64"] by simp

text \<open>An integer descriptor of \<open>n\<close> bytes stores its argument modulo \<open>256 ^ n\<close> and reads that back
  from the first \<open>n\<close> bytes, whatever follows; shorter data raise \<open>TypeError\<close>. A descriptor of several
  integers does the same for each of them.\<close>

theorem int_descriptors:
  assumes "0 < len" "length is = num" "length short < n"
  shows "int_to_user n (int_from_user n i @ rest) = Inr (i mod 256 ^ n) \<and> int_to_user n short = Inl TypeError \<and>
    (\<exists>b. mlt_from_user len num is = Inr b \<and> length b = len * num \<and>
      mlt_to_user len num b = Inr (map (\<lambda>i. i mod 256 ^ len) is))"
  using int_descr_codec int_to_user_short [OF assms(3)] mlt_codec [OF assms(1,2)] by blast

lemma int_descriptors_witness:
  "int_to_user 2 (int_from_user 2 65537 @ [9]) = Inr 1 \<and> (\<exists>b. mlt_to_user 2 2 b = Inr [1, 2])"
  using int_descriptors [of 2 "[1, 2]" 2 "[7]" 2 65537 "[9]"] by auto

text \<open>The operations of a dispatcher, as its users call them.\<close>

datatype ('k, 'c) td_op = RegisterType 'k 'c | RegisterUnknown 'c | RevLookup 'c

fun td_run :: "('k, 'c) td_op list \<Rightarrow> ('k, 'c) type_disp \<Rightarrow> ('k, 'c) type_disp" where
  "td_run [] d = d"
| "td_run (RegisterType t c # ops) d = td_run ops (register_type t c d)"
| "td_run (RegisterUnknown c # ops) d = td_run ops (register_unknown_type c d)"
| "td_run (RevLookup c # ops) d = td_run ops (snd (rev_lookup_type c d))"

lemma td_run_inv: "td_inv d \<Longrightarrow> td_inv (td_run ops d)"
  by (induction ops d rule: td_run.induct) (simp_all add: td_inv_register td_inv_register_unknown td_inv_rev_lookup)

text \<open>The lazily built reverse registry never goes stale: after any sequence of registrations and
  reverse lookups, a reverse lookup finds a type of the class if there is one, the class of the type
  it returns is the one asked for, and registering a type makes it the type's class.\<close>

lemma reverse_lookup_correct:
  "(\<forall>k. fst (rev_lookup_type c (td_run ops td_empty)) = Inr k \<longrightarrow> lookup_type k (td_run ops td_empty) = Some c) \<and>
   (\<forall>k. map_of (td_types (td_run ops td_empty)) k = Some c \<longrightarrow>
      (\<exists>k'. fst (rev_lookup_type c (td_run ops td_empty)) = Inr k')) \<and>
   lookup_type t (register_type t c' (td_run ops td_empty)) = Some c'"
proof -
  have inv: "td_inv (td_run ops td_empty)" by (rule td_run_inv [OF td_inv_empty])
  show ?thesis using rev_lookup_sound [OF inv] rev_lookup_complete [OF inv]
    by (simp add: lookup_type_def register_type_def)
qed

lemma reverse_lookup_correct_witness:
  "\<exists>k'. fst (rev_lookup_type CHR ''a'' (td_run [RegisterType (1::int) CHR ''a'', RevLookup CHR ''b'', RegisterType 2 CHR ''a'']
      td_empty)) = Inr k'"
proof -
  have "map_of (td_types (td_run [RegisterType (1::int) CHR ''a'', RevLookup CHR ''b'', RegisterType 2 CHR ''a'']
      td_empty)) 1 = Some CHR ''a''" by code_simp
  from reverse_lookup_correct [THEN conjunct2, THEN conjunct1, rule_format, OF this] show ?thesis .
qed

text \<open>IPv4 and IPv6 addresses as integers: the text of an integer of the right width reads back as
  that integer.\<close>

theorem ip_integers_read_back:
  assumes "addrconv_ok A" "0 \<le> i" "i < 2 ^ 32" "0 \<le> j" "j < 2 ^ 128"
  shows "(\<exists>t. ipv4_int_to_str A i = Inr t \<and> ipv4_to_int A t = Inr i) \<and>
    ipv6_to_int A (ipv6_int_to_str A j) = Inr j"
  using ipv4_int_codec [OF assms(1-3)] ipv6_int_codec [OF assms(1,4,5)] by blast

lemma ip_integers_read_back_witness: "ipv6_to_int unix_addrconv (ipv6_int_to_str unix_addrconv 1) = Inr 1"
  using ip_integers_read_back [OF unix_addrconv_ok, of 0 1] by simp

end
