(* ===== verification/Vrrp_Frame.thy ===== *)
theory Vrrp_Frame
  imports Packet_Chain
begin

text \<open>
  VRRP advertisements as frames: \<^verbatim>\<open>create_packet\<close> and \<^verbatim>\<open>get_payload\<close> of \<^verbatim>\<open>ryu/lib/packet/vrrp.py\<close> and
  the receive path of \<^verbatim>\<open>ryu/services/protocols/vrrp/monitor.py\<close>. The main lemma is that the monitor
  accepts the frame of an advertisement and hands on what was sent.
\<close>

section \<open>Sending\<close>

definition vrrp_ipv4_src_mac_address :: "int \<Rightarrow> string" where
  "vrrp_ipv4_src_mac_address vrid = ''00:00:5E:00:01:'' @ fmt_0x 2 vrid"

definition vrrp_ipv6_src_mac_address :: "int \<Rightarrow> string" where
  "vrrp_ipv6_src_mac_address vrid = ''00:00:5E:00:02:'' @ fmt_0x 2 vrid"

definition VRRP_IPV4_DST_MAC_ADDRESS :: string where "VRRP_IPV4_DST_MAC_ADDRESS = ''01:00:5E:00:00:12''"
definition VRRP_IPV4_DST_ADDRESS :: string where "VRRP_IPV4_DST_ADDRESS = ''224.0.0.18''"
definition VRRP_IPV6_DST_MAC_ADDRESS :: string where "VRRP_IPV6_DST_MAC_ADDRESS = ''33:33:00:00:00:12''"
definition VRRP_IPV6_DST_ADDRESS :: string where "VRRP_IPV6_DST_ADDRESS = ''ff02::12''"
definition IPPROTO_VRRP :: int where "IPPROTO_VRRP = 112"

definition get_identification :: "vrrp \<Rightarrow> int \<times> vrrp" where
  "get_identification h =
     (let i = (vr_identification h + 1) AND 0xffff;
          i = (if i = 0 then (i + 1) AND 0xffff else i)
      in (i, h\<lparr>vr_identification := i\<rparr>))"

text \<open>
  The headers around the advertisement. The payload length of the IPv6 header counts the forty
  octets of the header itself.
\<close>

definition vrrp_ip4_header :: "int \<Rightarrow> string \<Rightarrow> ipv4" where
  "vrrp_ip4_header identification primary_ip_address =
     \<lparr>ip4_version = 4, ip4_header_length = 5, ip4_tos = 0xc0, ip4_total_length = 0,
      ip4_identification = identification, ip4_flags = 0, ip4_offset = 0, ip4_ttl = 255,
      ip4_proto = IPPROTO_VRRP, ip4_csum = 0, ip4_src = primary_ip_address,
      ip4_dst = VRRP_IPV4_DST_ADDRESS, ip4_option = None\<rparr>"

definition vrrp_ip6_header :: "vrrp \<Rightarrow> string \<Rightarrow> ipv6" where
  "vrrp_ip6_header h primary_ip_address =
     \<lparr>ip6_version = 6, ip6_traffic_class = 0xc0, ip6_flow_label = 0,
      ip6_payload_length = 40 + int (vrrp_len h), ip6_nxt = IPPROTO_VRRP, ip6_hop_limit = 255,
      ip6_src = primary_ip_address, ip6_dst = VRRP_IPV6_DST_ADDRESS, ip6_ext_hdrs = []\<rparr>"

definition create_packet :: "vrrp \<Rightarrow> string \<Rightarrow> int option \<Rightarrow> 'o packet \<times> vrrp" where
  "create_packet h primary_ip_address vlan_id =
     (let (e, ip, h) =
        (if vr_is_ipv6 h then
           (\<lparr>eth_dst = VRRP_IPV6_DST_MAC_ADDRESS, eth_src = vrrp_ipv6_src_mac_address (vr_vrid h),
             eth_ethertype = 0x86dd\<rparr>, PIpv6 (vrrp_ip6_header h primary_ip_address), h)
         else
           (let (identification, h) = get_identification h in
            (\<lparr>eth_dst = VRRP_IPV4_DST_MAC_ADDRESS, eth_src = vrrp_ipv4_src_mac_address (vr_vrid h),
              eth_ethertype = 0x0800\<rparr>, PIpv4 (vrrp_ip4_header identification primary_ip_address), h)));
          tags = (case vlan_id of None \<Rightarrow> []
            | Some vid \<Rightarrow> [PVlan \<lparr>vlan_pcp = 0, vlan_cfi = 0, vlan_vid = vid, vlan_ethertype = eth_ethertype e\<rparr>]);
          e = (case vlan_id of None \<Rightarrow> e | Some _ \<Rightarrow> e\<lparr>eth_ethertype := 0x8100\<rparr>)
      in (\<lparr>pk_data = [], pk_protocols = PEth e # tags @ [ip, PVrrp h]\<rparr>, h))"

section \<open>Receiving\<close>

text \<open>\<^verbatim>\<open>len\<close> of a protocol object.\<close>

fun icmp_payload_len :: "icmp_data \<Rightarrow> int" where
  "icmp_payload_len (IcmpRaw b) = int (length b)"
| "icmp_payload_len (IcmpEcho i seq d) = 4 + int (length (opt_bytes d))"
| "icmp_payload_len (IcmpDestUnreach data_len mtu d) = 4 + int (length (opt_bytes d))"
| "icmp_payload_len (IcmpTimeExceeded data_len d) = 4 + int (length (opt_bytes d))"

fun proto_size :: "'o ext \<Rightarrow> 'o proto \<Rightarrow> int" where
  "proto_size E (PEth h) = 14"
| "proto_size E (PVlan h) = 4"
| "proto_size E (PSvlan h) = 4"
| "proto_size E (PMpls h) = 4"
| "proto_size E (PArp h) = 28"
| "proto_size E (PLlc h) = 2"
| "proto_size E (PBpdu h) = 4"
| "proto_size E (PIpv4 h) = ip4_header_length h * 4"
| "proto_size E (PIpv6 h) = ipv6_len h"
| "proto_size E (PUdp h) = 8"
| "proto_size E (PIcmp h) = 4 + icmp_payload_len (icmp_payload h)"
| "proto_size E (PVxlan h) = 8"
| "proto_size E (PVrrp h) = int (vrrp_len h)"
| "proto_size E (POther h) = ext_size E h"
| "proto_size E (Raw b) = int (length b)"

text \<open>
  \<^verbatim>\<open>get_payload\<close>: the first IP header and the VRRP header right behind it, with its position. (The
  \<^verbatim>\<open>finally: break\<close> swallows the \<^verbatim>\<open>IndexError\<close> of an IP header that comes last.)
\<close>

fun get_payload_at :: "nat \<Rightarrow> 'o proto list \<Rightarrow> ('o proto \<times> vrrp \<times> nat) option" where
  "get_payload_at idx [] = None"
| "get_payload_at idx (p # ps) =
     (case p of
        PIpv4 h \<Rightarrow> (case ps of PVrrp v # _ \<Rightarrow> Some (p, v, idx + 1) | _ \<Rightarrow> None)
      | PIpv6 h \<Rightarrow> (case ps of PVrrp v # _ \<Rightarrow> Some (p, v, idx + 1) | _ \<Rightarrow> None)
      | _ \<Rightarrow> get_payload_at (idx + 1) ps)"

definition get_payload :: "'o packet \<Rightarrow> ('o proto \<times> vrrp \<times> nat) option" where
  "get_payload pkt = get_payload_at 0 (pk_protocols pkt)"

definition is_valid_ttl :: "'o proto \<Rightarrow> bool res" where
  "is_valid_ttl ip =
     (case ip of
        PIpv4 h \<Rightarrow> (if ip4_version h = 4 then Inr (ip4_ttl h = 255)
          else if ip4_version h = 6 then Inl AttributeError else Inl ValueError)
      | PIpv6 h \<Rightarrow> (if ip6_version h = 4 then Inl AttributeError
          else if ip6_version h = 6 then Inr (ip6_hop_limit h = 255) else Inl ValueError)
      | _ \<Rightarrow> Inl AttributeError)"

definition ipx_src :: "'o proto \<Rightarrow> string" where
  "ipx_src ip = (case ip of PIpv4 h \<Rightarrow> ip4_src h | PIpv6 h \<Rightarrow> ip6_src h | _ \<Rightarrow> [])"

text \<open>What the monitor reads of its interface and its configuration, and its counters.\<close>

record vrrp_monitor =
  mon_vlan_id :: "int option"
  mon_version :: int
  mon_vrid :: int
  mon_is_ipv6 :: bool

record vrrp_statistics =
  tx_vrrp_packets :: int
  rx_vrrp_packets :: int
  rx_vrrp_zero_prio_packets :: int
  tx_vrrp_zero_prio_packets :: int
  rx_vrrp_invalid_packets :: int
  rx_vrrp_bad_auth :: int
  idle_to_master_transitions :: int
  idle_to_backup_transitions :: int
  backup_to_master_transitions :: int
  master_to_backup_transitions :: int

definition vlan_matches :: "int option \<Rightarrow> 'o proto \<Rightarrow> bool" where
  "vlan_matches vid may_vlan =
     (case may_vlan of PVlan t \<Rightarrow> vid = Some (vlan_vid t) | _ \<Rightarrow> vid = None)"

text \<open>
  \<^verbatim>\<open>_parse_received_packet\<close> on the decoded packet: whether the packet is handed to the router as an
  \<^verbatim>\<open>EventVRRPReceived\<close>.
\<close>

definition check_received_packet :: "bool \<Rightarrow> addrconv \<Rightarrow> 'o ext \<Rightarrow> vrrp_monitor \<Rightarrow> 'o packet \<Rightarrow> bool res" where
  "check_received_packet le A E mon pkt =
     (let protocols = pk_protocols pkt in
      if length protocols < 2 then Inr False
      else if \<not> vlan_matches (mon_vlan_id mon) (protocols ! 1) then Inr False
      else (case get_payload pkt of None \<Rightarrow> Inr False
        | Some (ip, v, idx) \<Rightarrow>
            res_bind (is_valid_ttl ip) (\<lambda>ttl.
            if \<not> ttl then Inr False
            else if vr_version v \<noteq> mon_version mon then Inr False
            else if \<not> vrrp_is_valid v then Inr False
            else
              (let off = nat (sum_list (map (proto_size E) (take idx protocols))) in
               res_bind (case ipvx_of E (Some ip) of None \<Rightarrow> Inl AttributeError
                 | Some ipx \<Rightarrow> vrrp_checksum_ok le A v ipx (py_slice off (off + vrrp_len v) (pk_data pkt))) (\<lambda>ok.
               Inr (ok \<and> vr_vrid v = mon_vrid mon \<and> vr_is_ipv6 v = mon_is_ipv6 mon))))))"

text \<open>
  \<^verbatim>\<open>_send_vrrp_packet_received\<close> with \<^verbatim>\<open>_parse_received_packet\<close>: the packet sent to the router, if any,
  and the counters. The outer option is the fuel of the packet decoder.
\<close>

definition send_vrrp_packet_received :: "bool \<Rightarrow> addrconv \<Rightarrow> 'o ext \<Rightarrow> vrrp_monitor \<Rightarrow> bytes \<Rightarrow>
    vrrp_statistics \<Rightarrow> ('o packet option \<times> vrrp_statistics) res option" where
  "send_vrrp_packet_received le A E mon data st =
     map_option (\<lambda>r. res_bind r (\<lambda>pkt.
       res_bind (check_received_packet le A E mon pkt) (\<lambda>valid.
       if valid then
         (let zero = (case get_payload pkt of Some (ip, v, idx) \<Rightarrow> vr_priority v = 0 | None \<Rightarrow> False);
              st = (if zero then st\<lparr>rx_vrrp_zero_prio_packets := rx_vrrp_zero_prio_packets st + 1\<rparr> else st)
          in Inr (Some pkt, st\<lparr>rx_vrrp_packets := rx_vrrp_packets st + 1\<rparr>))
       else Inr (None, st\<lparr>rx_vrrp_invalid_packets := rx_vrrp_invalid_packets st + 1\<rparr>))))
     (packet_decode A E data)"

section \<open>Where a header lies in the frame\<close>

lemma pack_into_length: "pack_into fs vs off buf = Inr b \<Longrightarrow> length b = length buf"
  by (auto simp: pack_into_def res_bind_eq_Inr simp del: calcsize_simps dest!: length_pack split: if_splits)

lemma ipv4_serialize_size:
  assumes "ipv4_serialize le A h payload = Inr (hdr, h')"
  shows "int (length hdr) = ip4_header_length h' * 4"
proof -
  let ?h = "if ip4_total_length h = 0
    then h\<lparr>ip4_total_length := ip4_header_length h * 4 + int (length payload)\<rparr> else h"
  have hl: "ip4_header_length ?h = ip4_header_length h" by simp
  obtain vs hdr0 hdr1 where "0 \<le> ip4_header_length h"
    and h0: "pack_into ipv4_fmt vs 0 (replicate (nat (ip4_header_length h * 4)) 0) = Inr hdr0"
    and h1: "(case ip4_option ?h of None \<Rightarrow> Inr hdr0
          | Some opt \<Rightarrow> if opt = [] then Inr hdr0
              else res_bind (assertR (ip4_header_length h * 4 - 20 \<ge> int (length opt))) (\<lambda>_.
                   Inr (take 20 hdr0 @ opt @ drop (20 + length opt) hdr0))) = Inr hdr1"
    and h2: "pack_into [fH] [VI (checksum le hdr1)] 10 hdr1 = Inr hdr"
    and h': "h' = ?h\<lparr>ip4_csum := checksum le hdr1\<rparr>"
    using assms unfolding ipv4_serialize_def Let_def
    by (auto simp: res_bind_eq_Inr split: if_splits)
  have "length hdr1 = length hdr0"
    using h1 pack_into_length [OF h0] by (auto simp: res_bind_eq_Inr split: option.splits if_splits)
  with pack_into_length [OF h0] pack_into_length [OF h2] \<open>0 \<le> ip4_header_length h\<close>
  show ?thesis by (simp add: h' hl)
qed

lemma ipv6_serialize_size:
  assumes "ipv6_serialize A h payload = Inr (hdr, h')" "ip6_ext_hdrs h = []"
  shows "int (length hdr) = ipv6_len h'"
  using assms
  by (auto simp: ipv6_serialize_def ipv6_len_def ext_hdrs_len_def res_bind_eq_Inr ipv6_fmt_def Let_def
      simp del: pack.simps dest!: length_pack pack_into_length split: if_splits)

text \<open>The headers in front of an advertisement.\<close>

fun outer :: "'o proto \<Rightarrow> bool" where
  "outer (PEth h) = True"
| "outer (PVlan h) = True"
| "outer (PIpv4 h) = True"
| "outer (PIpv6 h) \<longleftrightarrow> ip6_ext_hdrs h = []"
| "outer _ = False"

lemma outer_size:
  assumes "proto_serialize le A E p data prev = Inr (hdr, data', p')" "outer p"
  shows "int (length hdr) = proto_size E p' \<and> (\<exists>zs. data' = data @ zs)"
proof (cases p)
  case (PIpv4 h)
  with assms(1) show ?thesis by (auto simp: res_bind_eq_Inr dest!: ipv4_serialize_size)
next
  case (PIpv6 h)
  with assms show ?thesis by (auto simp: res_bind_eq_Inr dest!: ipv6_serialize_size)
next
  case (PEth h)
  with assms(1) show ?thesis
    by (auto simp: res_bind_eq_Inr ethernet_serialize_def ethernet_pack_def ethernet_fmt_def Let_def
        simp del: pack.simps dest!: length_pack split: if_splits)
next
  case (PVlan h)
  with assms(1) show ?thesis
    by (auto simp: plain_def res_bind_eq_Inr vlan_serialize_def vlan_fmt_def Let_def
        simp del: pack.simps dest!: length_pack)
qed (use assms(2) in simp_all)

lemma serialize_offset:
  assumes "serialize_protos le A E prev (ps @ [p, q]) = Inr (bs, items)" "list_all outer (ps @ [p])"
  shows "\<exists>pre data zs ps' p' q'. bs = pre @ data @ zs \<and> items = ps' @ [p', q'] \<and> length ps' = length ps \<and>
    int (length pre) = sum_list (map (proto_size E) (ps' @ [p'])) \<and>
    serialize_protos le A E (Some p) [q] = Inr (data, [q'])"
  using assms
proof (induction ps arbitrary: prev bs items)
  case Nil
  then obtain data qs hdr data' p' where q: "serialize_protos le A E (Some p) [q] = Inr (data, qs)"
    and p: "proto_serialize le A E p data prev = Inr (hdr, data', p')" and r: "bs = hdr @ data'" "items = p' # qs"
    by (auto simp: res_bind_eq_Inr)
  from q obtain q' where q': "qs = [q']" by (auto simp: res_bind_eq_Inr)
  from outer_size [OF p] Nil(2) obtain zs where "int (length hdr) = proto_size E p'" "data' = data @ zs" by auto
  with q r q' show ?case by (intro exI [of _ hdr] exI [of _ data] exI [of _ zs] exI [of _ "[]"]) simp
next
  case (Cons a ps)
  then obtain d rs hdr d' a' where tl: "serialize_protos le A E (Some a) (ps @ [p, q]) = Inr (d, rs)"
    and a: "proto_serialize le A E a d prev = Inr (hdr, d', a')" and r: "bs = hdr @ d'" "items = a' # rs"
    by (auto simp: res_bind_eq_Inr)
  from Cons.IH [OF tl] Cons.prems(2) obtain pre data zs ps' p' q' where
    ih: "d = pre @ data @ zs" "rs = ps' @ [p', q']" "length ps' = length ps"
      "int (length pre) = sum_list (map (proto_size E) (ps' @ [p']))"
      "serialize_protos le A E (Some p) [q] = Inr (data, [q'])" by auto
  from outer_size [OF a] Cons.prems(2) obtain zs' where "int (length hdr) = proto_size E a'" "d' = d @ zs'" by auto
  with ih r show ?case
    by (intro exI [of _ "hdr @ pre"] exI [of _ data] exI [of _ "zs @ zs'"] exI [of _ "a' # ps'"]) simp
qed

section \<open>The advertisement as a protocol of the chain\<close>

definition vrrp_wf :: "addrconv \<Rightarrow> vrrp \<Rightarrow> bool" where
  "vrrp_wf A h \<longleftrightarrow> vrrpv2_wf A h \<or> vrrpv3_wf A h"

lemma vrrp_wf_common: "vrrp_wf A h \<Longrightarrow> vrrp_common h"
  by (auto simp: vrrp_wf_def vrrpv2_wf_def vrrpv3_wf_def)

lemma vrrp_len_bounds:
  assumes "vrrp_wf A h"
  shows "8 \<le> vrrp_len h" "vrrp_len h < 4200"
proof -
  have "nat (vr_count_ip h) < 256" using vrrp_wf_common [OF assms] by (simp add: vrrp_common_def)
  then show "8 \<le> vrrp_len h" "vrrp_len h < 4200" by (simp_all add: vrrp_len_def)
qed

lemma vrrp_codec:
  assumes A: "addrconv_ok A" and wf: "vrrp_wf A h"
    and prv: "prev = (if vr_is_ipv6 h then PrevIPv6 ip else PrevIPv4 ip)"
    and ps: "pseudo_header A ip (int (vrrp_len h)) = Inr ps"
  shows "\<exists>buf h'. vrrp_serialize le A h prev = Inr (buf, h') \<and> h' = h\<lparr>vr_checksum := vr_checksum h'\<rparr> \<and>
    length buf = vrrp_len h \<and> vrrp_parser A buf = Inr (vrrp_received h', []) \<and>
    (\<forall>le'. vrrp_checksum_ok le' A h' ip buf = Inr True) \<and>
    vrrp_serialize le A h' prev = Inr (buf, h')"
  using wf unfolding vrrp_wf_def
proof
  assume "vrrpv2_wf A h"
  from vrrpv2_codec [OF A this] show ?thesis by (metis append_Nil2)
next
  assume "vrrpv3_wf A h"
  from vrrpv3_codec [OF A this prv ps] show ?thesis .
qed

lemma vrrp_zero_version: "all_zero buf \<Longrightarrow> vrrp_parser A buf \<noteq> Inr r"
  by (cases buf) (simp_all add: vrrp_parser_def unpack_from_def vrrp_from_version_type_def be_int_def
      VRRP_VERSION_V2_def VRRP_VERSION_V3_def)

lemma encodes_vrrp:
  assumes A: "addrconv_ok A" and wf: "vrrp_wf A h" and i: "vr_identification h = 0"
    and prv: "net_prev_of E prev = (if vr_is_ipv6 h then PrevIPv6 ip else PrevIPv4 ip)"
    and ps: "pseudo_header A ip (int (vrrp_len h)) = Inr ps"
  shows "\<exists>buf h'. encodes le A E prev (Some C_vrrp) [PVrrp h] buf [PVrrp h'] False \<and>
    h' = h\<lparr>vr_checksum := vr_checksum h'\<rparr> \<and> length buf = vrrp_len h \<and>
    (\<forall>le'. vrrp_checksum_ok le' A h' ip buf = Inr True)"
proof -
  obtain buf h' where c: "vrrp_serialize le A h (net_prev_of E prev) = Inr (buf, h')"
    "h' = h\<lparr>vr_checksum := vr_checksum h'\<rparr>" "length buf = vrrp_len h"
    "vrrp_parser A buf = Inr (vrrp_received h', [])" "\<forall>le'. vrrp_checksum_ok le' A h' ip buf = Inr True"
    using vrrp_codec [OF A wf prv ps] by blast
  have "vr_identification h' = 0" by (subst c(2)) (simp add: i)
  then have r: "vrrp_received h' = h'" by (simp add: vrrp_received_def)
  have "encodes le A E prev (Some C_vrrp) [PVrrp h] buf [PVrrp h'] False"
  proof (rule encodes_leaf)
    show "proto_serialize le A E (PVrrp h) [] prev = Inr (buf, [], PVrrp h')" by (simp add: c(1))
    show "\<not> all_zero buf" using vrrp_zero_version c(4) by blast
    show "\<exists>z'. all_zero z' \<and> cls_parser A E C_vrrp (buf @ z) = Inr (Some (PVrrp h'), None, z')"
      if "all_zero z" "False \<or> z = []" for z
      using that c(4) r by (intro exI [of _ "[]"]) (simp add: cls_parser_def)
  qed
  with c(2,3,5) show ?thesis by blast
qed

subsection \<open>The IP layer\<close>

definition advert_ip :: "vrrp \<Rightarrow> string \<Rightarrow> int \<Rightarrow> 'o proto" where
  "advert_ip h primary i = (if vr_is_ipv6 h then PIpv6 (vrrp_ip6_header h primary)
     else PIpv4 (vrrp_ip4_header i primary))"

definition advert_cls :: "vrrp \<Rightarrow> pkt_cls" where
  "advert_cls h = (if vr_is_ipv6 h then C_ipv6 else C_ipv4)"

text \<open>Addresses the sender needs: its own and the group's, in canonical form.\<close>

definition advert_addrs :: "addrconv \<Rightarrow> bool \<Rightarrow> string \<Rightarrow> bool" where
  "advert_addrs A v6 primary \<longleftrightarrow> (if v6 then elided A 0 primary \<and> elided A 0 VRRP_IPV6_DST_ADDRESS
     else canon_ip4 A primary \<and> canon_ip4 A VRRP_IPV4_DST_ADDRESS)"

definition advert_ipvx :: "bool \<Rightarrow> string \<Rightarrow> ipvx" where
  "advert_ipvx v6 primary = \<lparr>ip_version = (if v6 then 6 else 4), ip_src = primary,
     ip_dst = (if v6 then VRRP_IPV6_DST_ADDRESS else VRRP_IPV4_DST_ADDRESS), ip_upper = 112\<rparr>"

lemma vrrp_type_112: "get_packet_type 112 = Some C_vrrp"
  by (simp add: get_packet_type_def packet_types_def)

text \<open>What the receiver will ask of the IP header.\<close>

definition ip_accepted :: "'o ext \<Rightarrow> bool \<Rightarrow> string \<Rightarrow> 'o proto \<Rightarrow> bool" where
  "ip_accepted E v6 primary ip \<longleftrightarrow> is_valid_ttl ip = Inr True \<and> ipx_src ip = primary \<and>
     ipvx_of E (Some ip) = Some (advert_ipvx v6 primary) \<and> 0 \<le> proto_size E ip \<and>
     (\<exists>h4 h6. ip = PIpv4 h4 \<or> ip = PIpv6 h6) \<and> (v6 \<longrightarrow> 40 \<le> proto_size E ip)"

lemma encodes_advert_ip:
  assumes A: "addrconv_ok A" and wf: "vrrp_wf A h" and ident: "vr_identification h = 0"
    and i: "0 \<le> i" "i < 65536" and ad: "advert_addrs A (vr_is_ipv6 h) primary"
  shows "\<exists>bs buf ip' h'. (\<forall>prev. encodes le A E prev (Some (advert_cls h)) [advert_ip h primary i, PVrrp h] bs
      [ip', PVrrp h'] (\<not> vr_is_ipv6 h)) \<and>
    encodes le A E (Some (advert_ip h primary i)) (Some C_vrrp) [PVrrp h] buf [PVrrp h'] False \<and>
    h' = h\<lparr>vr_checksum := vr_checksum h'\<rparr> \<and> length buf = vrrp_len h \<and>
    (\<forall>le'. vrrp_checksum_ok le' A h' (advert_ipvx (vr_is_ipv6 h) primary) buf = Inr True) \<and>
    ip_accepted E (vr_is_ipv6 h) primary ip'"
proof (cases "vr_is_ipv6 h")
  case True
  let ?ip = "vrrp_ip6_header h primary"
  have w: "ipv6_wf A ?ip" using True ad
    by (simp add: vrrp_ip6_header_def ipv6_wf_def advert_addrs_def IPPROTO_VRRP_def is_ext_type_def)
  have pv: "net_prev_of E (Some (PIpv6 ?ip)) = (if vr_is_ipv6 h then PrevIPv6 (advert_ipvx True primary)
      else PrevIPv4 (advert_ipvx True primary))"
    using True by (simp add: net_prev_of_def ipvx_of_def advert_ipvx_def vrrp_ip6_header_def IPPROTO_VRRP_def)
  obtain ps where ps: "pseudo_header A (advert_ipvx True primary) (int (vrrp_len h)) = Inr ps"
    using ipv6_pseudo_header [OF w, of "int (vrrp_len h)"] vrrp_len_bounds [OF wf]
    by (auto simp: advert_ipvx_def vrrp_ip6_header_def IPPROTO_VRRP_def)
  obtain buf h' where v: "encodes le A E (Some (PIpv6 ?ip)) (Some C_vrrp) [PVrrp h] buf [PVrrp h'] False"
    "h' = h\<lparr>vr_checksum := vr_checksum h'\<rparr>" "length buf = vrrp_len h"
    "\<forall>le'. vrrp_checksum_ok le' A h' (advert_ipvx True primary) buf = Inr True"
    using encodes_vrrp [OF A wf ident pv ps] by blast
  have fill: "ipv6_fill ?ip buf = ?ip" by (simp add: ipv6_fill_def vrrp_ip6_header_def)
  have cov: "ipv6_length_covers ?ip buf"
    unfolding ipv6_length_covers_def fill using v(3) vrrp_len_bounds [OF wf] by (simp add: vrrp_ip6_header_def)
  have "encodes le A E (Some (PIpv6 ?ip)) (get_packet_type (last_nxt (ip6_nxt ?ip) (ip6_ext_hdrs ?ip)))
      [PVrrp h] buf [PVrrp h'] False"
    using v(1) by (simp add: vrrp_ip6_header_def IPPROTO_VRRP_def vrrp_type_112)
  from encodes_ipv6 [OF A w cov this] obtain hdr where e:
    "\<forall>prev. encodes le A E prev (Some C_ipv6) [PIpv6 ?ip, PVrrp h] (hdr @ buf) [PIpv6 ?ip, PVrrp h']
      (ipv6_excess ?ip buf = 0)" unfolding fill by auto
  have "ipv6_excess ?ip buf \<noteq> 0" unfolding ipv6_excess_def fill using v(3) by (simp add: vrrp_ip6_header_def)
  with e v True show ?thesis
    by (intro exI [of _ "hdr @ buf"] exI [of _ buf] exI [of _ "PIpv6 ?ip"] exI [of _ h'])
      (simp add: advert_ip_def advert_cls_def ip_accepted_def is_valid_ttl_def ipx_src_def ipvx_of_def
        advert_ipvx_def vrrp_ip6_header_def IPPROTO_VRRP_def ipv6_len_def ext_hdrs_len_def)
next
  case False
  let ?ip = "vrrp_ip4_header i primary"
  have w: "ipv4_wf A ?ip" "ip4_version ?ip = 4" using False ad i
    by (simp_all add: vrrp_ip4_header_def ipv4_wf_def advert_addrs_def IPPROTO_VRRP_def)
  have pv: "net_prev_of E (Some (PIpv4 ?ip)) = (if vr_is_ipv6 h then PrevIPv6 (advert_ipvx False primary)
      else PrevIPv4 (advert_ipvx False primary))"
    using False by (simp add: net_prev_of_def ipvx_of_def advert_ipvx_def vrrp_ip4_header_def IPPROTO_VRRP_def)
  obtain ps where ps: "pseudo_header A (advert_ipvx False primary) (int (vrrp_len h)) = Inr ps"
    using ipv4_pseudo_header [OF A w, of "int (vrrp_len h)"] vrrp_len_bounds [OF wf]
    by (auto simp: advert_ipvx_def vrrp_ip4_header_def IPPROTO_VRRP_def)
  obtain buf h' where v: "encodes le A E (Some (PIpv4 ?ip)) (Some C_vrrp) [PVrrp h] buf [PVrrp h'] False"
    "h' = h\<lparr>vr_checksum := vr_checksum h'\<rparr>" "length buf = vrrp_len h"
    "\<forall>le'. vrrp_checksum_ok le' A h' (advert_ipvx False primary) buf = Inr True"
    using encodes_vrrp [OF A wf ident pv ps] by blast
  have len: "ipv4_length_ok ?ip buf"
    using v(3) vrrp_len_bounds [OF wf] by (simp add: ipv4_length_ok_def ipv4_fill_def vrrp_ip4_header_def)
  have "encodes le A E (Some (PIpv4 ?ip)) (get_packet_type (ip4_proto ?ip)) [PVrrp h] buf [PVrrp h'] False"
    using v(1) by (simp add: vrrp_ip4_header_def IPPROTO_VRRP_def vrrp_type_112)
  from encodes_ipv4 [OF A w(1) len this] obtain hdr ip' where e:
    "\<forall>prev. encodes le A E prev (Some C_ipv4) [PIpv4 ?ip, PVrrp h] (hdr @ buf) [PIpv4 ip', PVrrp h'] True"
    "ip' = (ipv4_fill ?ip buf)\<lparr>ip4_csum := ip4_csum ip'\<rparr>" by auto
  have f: "ip4_version ip' = 4" "ip4_ttl ip' = 255" "ip4_src ip' = primary" "ip4_dst ip' = VRRP_IPV4_DST_ADDRESS"
    "ip4_proto ip' = 112" "ip4_header_length ip' = 5"
    by (subst e(2); simp add: ipv4_fill_def vrrp_ip4_header_def IPPROTO_VRRP_def)+
  from e(1) v False f show ?thesis
    by (intro exI [of _ "hdr @ buf"] exI [of _ buf] exI [of _ "PIpv4 ip'"] exI [of _ h'])
      (simp add: advert_ip_def advert_cls_def ip_accepted_def is_valid_ttl_def ipx_src_def ipvx_of_def
        advert_ipvx_def)
qed

subsection \<open>The frame\<close>

text \<open>
  What does not survive the wire: the counter of IPv4 identifications, version 2 authentication data
  left to the serializer, and the spelling of the MAC addresses.
\<close>

definition vrrp_plain :: "vrrp \<Rightarrow> vrrp" where
  "vrrp_plain h = (if vr_version h = VRRP_VERSION_V2
     then h\<lparr>vr_identification := 0, vr_auth_type := Some (or_default (vr_auth_type h) 0),
            vr_auth_data := Some (or_default (vr_auth_data h) (0, 0))\<rparr>
     else h\<lparr>vr_identification := 0\<rparr>)"

lemma or_default_Some [simp]: "or_default (Some x) d = x"
  by (simp add: or_default_def)

lemma vrrpv2_serialize_plain:
  "vrrpv2_serialize le A (h\<lparr>vr_identification := 0, vr_auth_type := Some (or_default (vr_auth_type h) 0),
      vr_auth_data := Some (or_default (vr_auth_data h) (0, 0))\<rparr>) =
    res_bind (vrrpv2_serialize le A h) (\<lambda>(b, h2). Inr (b, h2\<lparr>vr_identification := 0\<rparr>))"
  by (cases h) (simp add: vrrpv2_serialize_def Let_def res_bind_def split: sum.split prod.split)

lemma vrrpv3_serialize_plain:
  "vrrpv3_serialize le A (h\<lparr>vr_identification := 0\<rparr>) prev =
    res_bind (vrrpv3_serialize le A h prev) (\<lambda>(b, h2). Inr (b, h2\<lparr>vr_identification := 0\<rparr>))"
  by (cases h) (simp add: vrrpv3_serialize_def Let_def res_bind_def split: sum.split prod.split net_prev.split)

lemma vrrpv2_serialize_auth:
  assumes "vrrpv2_serialize le A h = Inr (b, h2)"
  shows "\<exists>t d c. h2 = h\<lparr>vr_checksum := c, vr_auth_type := Some t, vr_auth_data := Some d\<rparr>"
  using assms by (cases h) (auto simp: vrrpv2_serialize_def Let_def res_bind_eq_Inr split: prod.splits if_splits)

lemma vrrpv3_serialize_fields:
  assumes "vrrpv3_serialize le A h prev = Inr (b, h2)"
  shows "\<exists>c. h2 = h\<lparr>vr_checksum := c\<rparr>"
  using assms by (cases h) (auto simp: vrrpv3_serialize_def Let_def res_bind_eq_Inr split: prod.splits if_splits)

lemma vrrp_serialize_plain:
  assumes "vrrp_serialize le A (vrrp_plain h) prev = Inr (b, h1)"
  shows "\<exists>h2. vrrp_serialize le A h prev = Inr (b, h2) \<and> vrrp_plain h2 = h1"
proof (cases "vr_version h = VRRP_VERSION_V2")
  case True
  with assms obtain h2 where h2: "vrrpv2_serialize le A h = Inr (b, h2)" "h1 = h2\<lparr>vr_identification := 0\<rparr>"
    by (auto simp: vrrp_serialize_def vrrp_plain_def vrrpv2_serialize_plain res_bind_eq_Inr)
  obtain t d c where "h2 = h\<lparr>vr_checksum := c, vr_auth_type := Some t, vr_auth_data := Some d\<rparr>"
    using vrrpv2_serialize_auth [OF h2(1)] by blast
  with h2 True show ?thesis by (intro exI [of _ h2]) (simp add: vrrp_serialize_def vrrp_plain_def)
next
  case False
  with assms obtain h2 where h2: "vrrpv3_serialize le A h prev = Inr (b, h2)" "h1 = h2\<lparr>vr_identification := 0\<rparr>"
    "vr_version h = VRRP_VERSION_V3"
    by (auto simp: vrrp_serialize_def vrrp_plain_def vrrpv3_serialize_plain res_bind_eq_Inr split: if_splits)
  obtain c where "h2 = h\<lparr>vr_checksum := c\<rparr>" using vrrpv3_serialize_fields [OF h2(1)] by blast
  with h2 False show ?thesis by (intro exI [of _ h2]) (simp add: vrrp_serialize_def vrrp_plain_def)
qed

lemma serialize_same_last:
  assumes "\<And>data r. serialize_protos le A E (Some p) [q] = Inr (data, r) \<Longrightarrow>
      \<exists>r'. serialize_protos le A E (Some p) [q'] = Inr (data, r')"
    and "serialize_protos le A E prev (ps @ [p, q]) = Inr (bs, items)"
  shows "\<exists>items'. serialize_protos le A E prev (ps @ [p, q']) = Inr (bs, items')"
  using assms(2)
proof (induction ps arbitrary: prev bs items)
  case Nil
  then obtain data r hdr data' p' where i: "serialize_protos le A E (Some p) [q] = Inr (data, r)"
    and "proto_serialize le A E p data prev = Inr (hdr, data', p')" "bs = hdr @ data'"
    unfolding append_Nil serialize_protos.simps(2) [of le A E prev p] by (auto simp: res_bind_eq_Inr)
  with assms(1) [OF i] show ?case
    unfolding append_Nil serialize_protos.simps(2) [of le A E prev p] by auto
next
  case (Cons a ps)
  then obtain data r hdr data' p' where i: "serialize_protos le A E (Some a) (ps @ [p, q]) = Inr (data, r)"
    and "proto_serialize le A E a data prev = Inr (hdr, data', p')" "bs = hdr @ data'"
    by (auto simp: res_bind_eq_Inr)
  with Cons.IH [OF i] show ?case by auto
qed

definition mac_plain :: "addrconv \<Rightarrow> string \<Rightarrow> string" where
  "mac_plain A t = (case mac_to_bin A t of Inl e \<Rightarrow> t | Inr b \<Rightarrow> mac_to_text A b)"

lemma mac_plain_props:
  assumes "addrconv_ok A" "is_ok (mac_to_bin A t)"
  shows "mac_to_bin A (mac_plain A t) = mac_to_bin A t" "canon_mac A (mac_plain A t)"
proof -
  obtain b where b: "mac_to_bin A t = Inr b" using assms(2) by (auto simp: is_ok_iff)
  then have "length b = 6" using assms(1) by (simp add: addrconv_ok_def)
  with assms(1) b show "mac_to_bin A (mac_plain A t) = mac_to_bin A t" "canon_mac A (mac_plain A t)"
    by (simp_all add: mac_plain_def canon_mac_text addrconv_ok_def)
qed

definition eth_plain :: "addrconv \<Rightarrow> ethernet \<Rightarrow> ethernet" where
  "eth_plain A e = e\<lparr>eth_dst := mac_plain A (eth_dst e), eth_src := mac_plain A (eth_src e)\<rparr>"

lemma serialize_eth_plain:
  assumes "addrconv_ok A" "is_ok (mac_to_bin A (eth_dst e))" "is_ok (mac_to_bin A (eth_src e))"
    and "serialize_protos le A E None (PEth (eth_plain A e) # p # ps) = Inr (bs, items)" "outer p"
  shows "\<exists>items'. serialize_protos le A E None (PEth e # p # ps) = Inr (bs, items')"
proof -
  have pk: "ethernet_pack A (eth_plain A e) = ethernet_pack A e"
    using mac_plain_props(1) [OF assms(1,2)] mac_plain_props(1) [OF assms(1,3)]
    by (simp add: ethernet_pack_def eth_plain_def)
  have "proto_serialize le A E p data (Some (PEth e)) = proto_serialize le A E p data (Some (PEth (eth_plain A e)))"
    for data using assms(5) by (cases p) simp_all
  then have inner: "serialize_protos le A E (Some (PEth e)) (p # ps) =
      serialize_protos le A E (Some (PEth (eth_plain A e))) (p # ps)" by simp
  note unfold = serialize_protos.simps(2) [where p = "PEth x" and ps = "p # ps" for x]
  from assms(4) obtain d r hdr d' where
    "serialize_protos le A E (Some (PEth (eth_plain A e))) (p # ps) = Inr (d, r)"
    "ethernet_serialize A (eth_plain A e) d = Inr (hdr, d')" "bs = hdr @ d'"
    unfolding unfold by (auto simp: res_bind_eq_Inr simp del: serialize_protos.simps)
  moreover then have "ethernet_serialize A e d = Inr (hdr, d')" by (simp add: ethernet_serialize_def pk)
  ultimately show ?thesis unfolding unfold inner by (simp del: serialize_protos.simps)
qed

text \<open>The parts of a created packet.\<close>

definition advert_type :: "vrrp \<Rightarrow> int" where
  "advert_type h = (if vr_is_ipv6 h then 0x86dd else 0x0800)"

definition advert_tags :: "vrrp \<Rightarrow> int option \<Rightarrow> 'o proto list" where
  "advert_tags h vlan_id = (case vlan_id of None \<Rightarrow> []
     | Some vid \<Rightarrow> [PVlan \<lparr>vlan_pcp = 0, vlan_cfi = 0, vlan_vid = vid, vlan_ethertype = advert_type h\<rparr>])"

definition advert_eth :: "vrrp \<Rightarrow> int option \<Rightarrow> ethernet" where
  "advert_eth h vlan_id =
     \<lparr>eth_dst = (if vr_is_ipv6 h then VRRP_IPV6_DST_MAC_ADDRESS else VRRP_IPV4_DST_MAC_ADDRESS),
      eth_src = (if vr_is_ipv6 h then vrrp_ipv6_src_mac_address (vr_vrid h) else vrrp_ipv4_src_mac_address (vr_vrid h)),
      eth_ethertype = (case vlan_id of None \<Rightarrow> advert_type h | Some _ \<Rightarrow> 0x8100)\<rparr>"

definition advert_ident :: "vrrp \<Rightarrow> int" where
  "advert_ident h = fst (get_identification h)"

lemma advert_ident_bounds: "0 \<le> advert_ident h" "advert_ident h < 65536"
  by (simp_all add: advert_ident_def get_identification_def Let_def mask_simps)

lemma create_packet_parts:
  "create_packet h primary vlan_id =
    (\<lparr>pk_data = [], pk_protocols = PEth (advert_eth h vlan_id) # advert_tags h vlan_id @
       [advert_ip h primary (advert_ident h), PVrrp (snd (create_packet h primary vlan_id :: 'o packet \<times> vrrp))]\<rparr>,
     snd (create_packet h primary vlan_id :: 'o packet \<times> vrrp))"
  by (cases vlan_id) (simp_all add: create_packet_def Let_def advert_eth_def advert_tags_def advert_type_def
      advert_ip_def advert_ident_def get_identification_def)

lemma create_packet_snd:
  "snd (create_packet h primary vlan_id) = (if vr_is_ipv6 h then h else snd (get_identification h))"
  by (simp add: create_packet_def Let_def split: prod.split)

lemma vrrp_plain_ident [simp]: "vrrp_plain (snd (create_packet h primary vlan_id)) = vrrp_plain h"
  by (simp add: create_packet_snd get_identification_def Let_def vrrp_plain_def)

lemma vrrp_plain_fields [simp]:
  "vr_is_ipv6 (vrrp_plain h) = vr_is_ipv6 h" "vr_vrid (vrrp_plain h) = vr_vrid h"
  "vr_priority (vrrp_plain h) = vr_priority h" "vr_version (vrrp_plain h) = vr_version h"
  "vr_max_adver_int (vrrp_plain h) = vr_max_adver_int h" "vr_identification (vrrp_plain h) = 0"
  "vr_ip_addresses (vrrp_plain h) = vr_ip_addresses h" "vr_type (vrrp_plain h) = vr_type h"
  by (simp_all add: vrrp_plain_def)

lemma advert_plain [simp]:
  "advert_eth (vrrp_plain h) v = advert_eth h v" "advert_tags (vrrp_plain h) v = advert_tags h v"
  "advert_cls (vrrp_plain h) = advert_cls h" "vrrp_len (vrrp_plain h) = vrrp_len h"
  by (cases v; simp add: advert_eth_def advert_tags_def advert_cls_def advert_type_def vrrp_len_def vrrp_plain_def)+

lemma advert_ip_plain [simp]: "advert_ip (vrrp_plain h) p i = advert_ip h p i"
  using advert_plain(4) [of h] by (simp add: advert_ip_def vrrp_ip6_header_def)

lemma outer_advert: "list_all outer (advert_tags h v @ [advert_ip h p i])"
  by (cases v) (simp_all add: advert_tags_def advert_ip_def vrrp_ip6_header_def)

lemma tags_lead_advert:
  assumes "case vlan_id of None \<Rightarrow> True | Some v \<Rightarrow> 0 \<le> v \<and> v < 4096"
  shows "tags_lead (ethernet_get_packet_type (eth_ethertype (advert_eth h vlan_id))) (advert_tags h vlan_id)
    (Some (advert_cls h))"
  using assms
  by (cases vlan_id) (auto simp: advert_eth_def advert_tags_def advert_type_def advert_cls_def vlan_wf_def
      ethernet_get_packet_type_def packet_types_def)

definition vlan_id_ok :: "int option \<Rightarrow> bool" where
  "vlan_id_ok v \<longleftrightarrow> (case v of None \<Rightarrow> True | Some v \<Rightarrow> 0 \<le> v \<and> v < 4096)"

definition advert_macs :: "addrconv \<Rightarrow> vrrp \<Rightarrow> bool" where
  "advert_macs A h \<longleftrightarrow> is_ok (mac_to_bin A (eth_dst (advert_eth h None))) \<and>
     is_ok (mac_to_bin A (eth_src (advert_eth h None)))"

lemma check_advert:
  assumes len: "length (advert_tags h vlan_id) = length ts" and ts: "ts = (advert_tags h vlan_id :: 'o proto list)"
    and acc: "ip_accepted E (vr_is_ipv6 v) primary ip"
    and ck: "\<forall>le'. vrrp_checksum_ok le' A v (advert_ipvx (vr_is_ipv6 v) primary) buf = Inr True"
    and val: "vrrp_is_valid v" and l: "length buf = vrrp_len v"
    and pre: "int (length pre) = sum_list (map (proto_size E) (PEth e # ts @ [ip]))"
    and mon: "mon = \<lparr>mon_vlan_id = vlan_id, mon_version = vr_version v, mon_vrid = vr_vrid v,
      mon_is_ipv6 = vr_is_ipv6 v\<rparr>"
    and pkt: "pkt = \<lparr>pk_data = pre @ buf @ zs, pk_protocols = PEth e # ts @ [ip, PVrrp v]\<rparr>"
  shows "check_received_packet le A E mon pkt = Inr True \<and> get_payload pkt = Some (ip, v, length ts + 2)"
proof -
  obtain h4 h6 where ip: "ip = PIpv4 h4 \<or> ip = PIpv6 h6" using acc unfolding ip_accepted_def by blast
  have gp: "get_payload pkt = Some (ip, v, length ts + 2)"
    using ip unfolding get_payload_def pkt ts by (cases vlan_id) (auto simp: advert_tags_def)
  have vl: "vlan_matches vlan_id (pk_protocols pkt ! 1)"
    using ip unfolding pkt ts by (cases vlan_id) (auto simp: advert_tags_def vlan_matches_def)
  have off: "nat (sum_list (map (proto_size E) (take (length ts + 2) (pk_protocols pkt)))) = length pre"
    using pre by (simp add: pkt)
  have sl: "py_slice (length pre) (length pre + vrrp_len v) (pk_data pkt) = buf"
    using l by (simp add: pkt)
  have ln: "\<not> length (pk_protocols pkt) < 2" by (simp add: pkt)
  have a: "is_valid_ttl ip = Inr True" "ipvx_of E (Some ip) = Some (advert_ipvx (vr_is_ipv6 v) primary)"
    using acc by (simp_all add: ip_accepted_def)
  have "check_received_packet le A E mon pkt = Inr True"
    unfolding check_received_packet_def Let_def gp
    using ln vl a ck val off sl by (simp add: mon)
  with gp show ?thesis by blast
qed

lemma advert_frame:
  fixes E :: "'o ext"
  assumes A: "addrconv_ok A" and E: "ext_shrinks E" and wf: "vrrp_wf A (vrrp_plain h)"
    and ad: "advert_addrs A (vr_is_ipv6 h) primary" and mac: "advert_macs A h" and vl: "vlan_id_ok vlan_id"
  shows "\<exists>sent got ip v. packet_serialize le A E (fst (create_packet h primary vlan_id)) = Inr sent \<and>
    packet_decode A E (pk_data sent) = Some (Inr got) \<and>
    v = (vrrp_plain h)\<lparr>vr_checksum := vr_checksum v\<rparr> \<and> ipx_src ip = primary \<and>
    get_payload got = Some (ip, v, length (advert_tags h vlan_id :: 'o proto list) + 2) \<and>
    (vrrp_is_valid v \<longrightarrow> check_received_packet le' A E \<lparr>mon_vlan_id = vlan_id, mon_version = vr_version h,
      mon_vrid = vr_vrid h, mon_is_ipv6 = vr_is_ipv6 h\<rparr> got = Inr True)"
proof -
  let ?h = "vrrp_plain h" and ?i = "advert_ident h" and ?ts = "advert_tags h vlan_id :: 'o proto list"
  let ?e = "advert_eth h vlan_id" and ?ip = "advert_ip h primary (advert_ident h) :: 'o proto"
  let ?ep = "eth_plain A ?e"
  have ad': "advert_addrs A (vr_is_ipv6 ?h) primary" using ad by simp
  have "\<exists>bs buf ip' v. (\<forall>prev. encodes le A E prev (Some (advert_cls h)) [?ip, PVrrp ?h] bs
      [ip', PVrrp v] (\<not> vr_is_ipv6 h)) \<and>
    encodes le A E (Some ?ip) (Some C_vrrp) [PVrrp ?h] buf [PVrrp v] False \<and>
    v = ?h\<lparr>vr_checksum := vr_checksum v\<rparr> \<and> length buf = vrrp_len ?h \<and>
    (\<forall>le'. vrrp_checksum_ok le' A v (advert_ipvx (vr_is_ipv6 h) primary) buf = Inr True) \<and>
    ip_accepted E (vr_is_ipv6 h) primary ip'"
    using encodes_advert_ip [OF A wf vrrp_plain_fields(6) advert_ident_bounds ad', where E = E and le = le]
    unfolding advert_plain advert_ip_plain vrrp_plain_fields .
  then obtain bs buf ip' v where
    i: "\<forall>prev. encodes le A E prev (Some (advert_cls h)) [?ip, PVrrp ?h] bs [ip', PVrrp v] (\<not> vr_is_ipv6 h)"
    and b: "encodes le A E (Some ?ip) (Some C_vrrp) [PVrrp ?h] buf [PVrrp v] False"
    and v: "v = ?h\<lparr>vr_checksum := vr_checksum v\<rparr>" and lb: "length buf = vrrp_len ?h"
    and ck: "\<forall>le'. vrrp_checksum_ok le' A v (advert_ipvx (vr_is_ipv6 h) primary) buf = Inr True"
    and acc: "ip_accepted E (vr_is_ipv6 h) primary ip'"
    by (elim exE conjE)
  have vf: "vr_is_ipv6 v = vr_is_ipv6 h" "vrrp_len v = vrrp_len ?h" "vr_version v = vr_version h" "vr_vrid v = vr_vrid h"
    by (subst v; simp add: vrrp_len_def)+
  have ety: "eth_ethertype ?ep = eth_ethertype ?e" by (simp add: eth_plain_def)
  have it: "\<forall>prev. \<exists>bs. encodes le A E prev (Some (advert_cls h)) [?ip, PVrrp ?h] bs [ip', PVrrp v] (\<not> vr_is_ipv6 h)"
    using i by blast
  obtain tb where tb: "encodes le A E (Some (PEth ?ep)) (ethernet_get_packet_type (eth_ethertype ?ep))
      (?ts @ [?ip, PVrrp ?h]) tb (?ts @ [ip', PVrrp v]) (\<not> vr_is_ipv6 h)"
    using encodes_tags [OF tags_lead_advert it] vl unfolding vlan_id_ok_def ety by blast
  have tbs: "serialize_protos le A E (Some (PEth ?ep)) (?ts @ [?ip, PVrrp ?h]) = Inr (tb, ?ts @ [ip', PVrrp v])"
    using tb by (simp add: encodes_def)
  have "\<not> vr_is_ipv6 h \<or> 46 \<le> length tb"
  proof (cases "vr_is_ipv6 h")
    case True
    obtain pre data zs ps' p' q' where o: "tb = pre @ data @ zs" "?ts @ [ip', PVrrp v] = ps' @ [p', q']"
      "length ps' = length ?ts" "int (length pre) = sum_list (map (proto_size E) (ps' @ [p']))"
      "serialize_protos le A E (Some ?ip) [PVrrp ?h] = Inr (data, [q'])"
      using serialize_offset [OF tbs outer_advert] by metis
    have "data = buf" using b o(5) by (simp add: encodes_def)
    moreover have "ps' = ?ts" "p' = ip'" using o(2,3) by simp_all
    moreover have "0 \<le> sum_list (map (proto_size E) ?ts)" by (cases vlan_id) (simp_all add: advert_tags_def)
    moreover have "40 \<le> proto_size E ip'" using acc True by (simp add: ip_accepted_def)
    ultimately have "40 + length buf \<le> length tb" using o(1,4) by simp
    with lb vrrp_len_bounds(1) [OF wf] show ?thesis by simp
  qed simp
  moreover have "ethernet_wf A ?ep"
    using mac mac_plain_props(2) [OF A] by (cases vlan_id)
      (simp_all add: ethernet_wf_def eth_plain_def advert_macs_def advert_eth_def advert_type_def)
  ultimately obtain fb where fb: "encodes le A E None (Some C_ethernet) (PEth ?ep # ?ts @ [?ip, PVrrp ?h]) fb
      (PEth ?ep # ?ts @ [ip', PVrrp v]) (\<not> vr_is_ipv6 h)"
    using encodes_ethernet_pad [OF A _ tb] by blast
  have fbs: "serialize_protos le A E None ((PEth ?ep # ?ts) @ [?ip, PVrrp ?h]) = Inr (fb, PEth ?ep # ?ts @ [ip', PVrrp v])"
    using fb by (simp add: encodes_def)
  have oa: "list_all outer ((PEth ?ep # ?ts) @ [?ip])" using outer_advert [of h vlan_id primary ?i] by simp
  obtain pre data zs ps' p' q' where o: "fb = pre @ data @ zs" "PEth ?ep # ?ts @ [ip', PVrrp v] = ps' @ [p', q']"
    "length ps' = length (PEth ?ep # ?ts)" "int (length pre) = sum_list (map (proto_size E) (ps' @ [p']))"
    "serialize_protos le A E (Some ?ip) [PVrrp ?h] = Inr (data, [q'])"
    using serialize_offset [OF fbs oa] by metis
  have data: "data = buf" using b o(5) by (simp add: encodes_def)
  have parts: "ps' = PEth ?ep # ?ts" "p' = ip'"
    using o(2,3) append_eq_append_conv [of "PEth ?ep # ?ts" ps'] by simp_all
  let ?got = "\<lparr>pk_data = fb, pk_protocols = PEth ?ep # ?ts @ [ip', PVrrp v]\<rparr>"
  have dec: "packet_decode A E fb = Some (Inr ?got)" using encodes_packet(2) [OF fb E] .
  let ?h1 = "snd (create_packet h primary vlan_id :: 'o packet \<times> vrrp)"
  have norm: "\<exists>items. serialize_protos le A E None ((PEth ?ep # ?ts) @ [?ip, PVrrp ?h1]) = Inr (fb, items)"
  proof (rule serialize_same_last [OF _ fbs])
    show "\<exists>r'. serialize_protos le A E (Some ?ip) [PVrrp ?h1] = Inr (data, r')"
      if "serialize_protos le A E (Some ?ip) [PVrrp ?h] = Inr (data, r)" for data r
      using that vrrp_serialize_plain [of le A ?h1] by (fastforce simp: res_bind_eq_Inr)
  qed
  have "\<exists>items. serialize_protos le A E None (PEth ?e # ?ts @ [?ip, PVrrp ?h1]) = Inr (fb, items)"
  proof -
    obtain x xs where x: "?ts @ [?ip, PVrrp ?h1] = x # xs" "outer x"
      using outer_advert [of h vlan_id primary ?i] by (cases vlan_id) (auto simp: advert_tags_def)
    have "is_ok (mac_to_bin A (eth_dst ?e))" "is_ok (mac_to_bin A (eth_src ?e))"
      using mac by (simp_all add: advert_macs_def advert_eth_def)
    note serialize_eth_plain [OF A this _ x(2), where ps = xs and le = le and E = E]
    with norm x(1) show ?thesis by (simp del: serialize_protos.simps) blast
  qed
  moreover have "pk_protocols (fst (create_packet h primary vlan_id :: 'o packet \<times> vrrp)) =
      PEth ?e # ?ts @ [?ip, PVrrp ?h1]" by (subst create_packet_parts) simp
  ultimately obtain items where ser: "packet_serialize le A E (fst (create_packet h primary vlan_id)) =
      Inr \<lparr>pk_data = fb, pk_protocols = items\<rparr>"
    unfolding packet_serialize_def by (auto simp del: serialize_protos.simps)
  have chk: "check_received_packet le' A E \<lparr>mon_vlan_id = vlan_id, mon_version = vr_version v, mon_vrid = vr_vrid v,
      mon_is_ipv6 = vr_is_ipv6 v\<rparr> ?got = Inr True \<and> get_payload ?got = Some (ip', v, length ?ts + 2)"
    if "vrrp_is_valid v"
    by (rule check_advert [where h = h and buf = buf and pre = pre and zs = zs and e = ?ep and ts = ?ts])
      (use that acc ck lb o(1,4) data parts in \<open>simp_all add: vf\<close>)
  have gp: "get_payload ?got = Some (ip', v, length ?ts + 2)"
  proof -
    obtain h4 h6 where "ip' = PIpv4 h4 \<or> ip' = PIpv6 h6" using acc unfolding ip_accepted_def by blast
    then show ?thesis by (cases vlan_id) (auto simp: get_payload_def advert_tags_def)
  qed
  have "ipx_src ip' = primary" using acc by (simp add: ip_accepted_def)
  with ser dec v gp chk show ?thesis unfolding vf
    by (intro exI [of _ "\<lparr>pk_data = fb, pk_protocols = items\<rparr>"] exI [of _ ?got] exI [of _ ip'] exI [of _ v]) simp
qed

end
