(* ===== verification/Vrrp_Router.thy ===== *)
theory Vrrp_Router
  imports Vrrp_Frame
begin

text \<open>
  The VRRP router of \<^verbatim>\<open>ryu/services/protocols/vrrp/router.py\<close>: timers, parameters, the state classes of
  versions 2 and 3 and the event handlers. Times are exact (rational seconds, where the code has
  floats). An operation returns the router and the exception it raised, if any: the event loop logs
  an exception and goes on with the state the operation left.
\<close>

section \<open>Configuration and timers\<close>

record vrrp_config =
  cf_version :: int
  cf_vrid :: int
  cf_admin_master :: bool
  cf_priority :: int
  cf_ip_addresses :: "string list"
  cf_advertisement_interval :: rat
  cf_preempt_mode :: bool
  cf_preempt_delay :: rat
  cf_accept_mode :: bool
  cf_is_ipv6 :: bool
  cf_statistics_interval :: rat

definition address_owner :: "vrrp_config \<Rightarrow> bool" where
  "address_owner cf \<longleftrightarrow> cf_priority cf = VRRP_PRIORITY_ADDRESS_OWNER"

record vrrp_interface =
  if_primary_ip_address :: string
  if_vlan_id :: "int option"

text \<open>
  A timer is idle (\<^verbatim>\<open>_thread is None\<close>), waits for its interval, or has posted its event. The thread
  object stays after that, so \<^verbatim>\<open>is_running\<close> still holds.
\<close>

datatype timer = Idle | Running rat | Fired

definition timer_start :: "rat \<Rightarrow> timer \<Rightarrow> timer" where
  "timer_start interval t = Running interval"

definition timer_cancel :: "timer \<Rightarrow> timer" where
  "timer_cancel t = Idle"

definition timer_is_running :: "timer \<Rightarrow> bool" where
  "timer_is_running t \<longleftrightarrow> t \<noteq> Idle"

datatype vrrp_state = Initialize | Master | Backup

text \<open>What a router tells others: frames for the monitor, state changes for its observers.\<close>

datatype vrrp_out =
    TransmitRequest bytes
  | StateChanged "vrrp_state option" vrrp_state

record vrrp_router =
  rt_config :: vrrp_config
  rt_interface :: vrrp_interface
  rt_statistics :: vrrp_statistics
  rt_master_adver_interval :: "rat option"
  rt_state :: "vrrp_state option"
  rt_vrrp :: "vrrp option"
  rt_master_down_timer :: timer
  rt_adver_timer :: timer
  rt_preempt_delay_timer :: timer
  rt_stats_out_timer :: timer
  rt_out :: "vrrp_out list"

text \<open>\<^verbatim>\<open>VRRPParams\<close>: the arithmetic on \<^verbatim>\<open>None\<close> raises.\<close>

definition skew_time :: "vrrp_config \<Rightarrow> rat option \<Rightarrow> rat res" where
  "skew_time cf adv =
     (if cf_version cf = VRRP_VERSION_V2 then Inr ((256 - of_int (cf_priority cf)) / 256)
      else if cf_version cf = VRRP_VERSION_V3 then
        (case adv of None \<Rightarrow> Inl TypeError
         | Some a \<Rightarrow> Inr (((256 - of_int (cf_priority cf)) * a) / 256))
      else Inl ValueError)"

definition master_down_interval :: "vrrp_config \<Rightarrow> rat option \<Rightarrow> rat res" where
  "master_down_interval cf adv =
     (case adv of None \<Rightarrow> Inl TypeError
      | Some a \<Rightarrow> res_bind (skew_time cf adv) (\<lambda>s. Inr (3 * a + s)))"

definition max_adver_int_in_sec :: "vrrp \<Rightarrow> rat res" where
  "max_adver_int_in_sec v = max_adver_int_to_sec (vr_version v) (vr_max_adver_int v)"

section \<open>Operations\<close>

type_synonym vrrp_op = "vrrp_router \<Rightarrow> vrrp_router \<times> py_error option"

fun run_ops :: "vrrp_op list \<Rightarrow> vrrp_op" where
  "run_ops [] r = (r, None)"
| "run_ops (f # fs) r = (case f r of (r', None) \<Rightarrow> run_ops fs r' | (r', Some e) \<Rightarrow> (r', Some e))"

definition pure_op :: "(vrrp_router \<Rightarrow> vrrp_router) \<Rightarrow> vrrp_op" where
  "pure_op f r = (f r, None)"

definition start_with :: "(rat \<Rightarrow> vrrp_router \<Rightarrow> vrrp_router) \<Rightarrow> (vrrp_router \<Rightarrow> rat res) \<Rightarrow> vrrp_op" where
  "start_with start interval r = (case interval r of Inl e \<Rightarrow> (r, Some e) | Inr i \<Rightarrow> (start i r, None))"

definition master_down_start :: "rat \<Rightarrow> vrrp_router \<Rightarrow> vrrp_router" where
  "master_down_start i r = r\<lparr>rt_master_down_timer := timer_start i (rt_master_down_timer r)\<rparr>"

definition master_down_cancel :: "vrrp_router \<Rightarrow> vrrp_router" where
  "master_down_cancel r = r\<lparr>rt_master_down_timer := timer_cancel (rt_master_down_timer r)\<rparr>"

definition adver_start :: "rat \<Rightarrow> vrrp_router \<Rightarrow> vrrp_router" where
  "adver_start i r = r\<lparr>rt_adver_timer := timer_start i (rt_adver_timer r)\<rparr>"

definition adver_cancel :: "vrrp_router \<Rightarrow> vrrp_router" where
  "adver_cancel r = r\<lparr>rt_adver_timer := timer_cancel (rt_adver_timer r)\<rparr>"

definition preempt_delay_start :: "rat \<Rightarrow> vrrp_router \<Rightarrow> vrrp_router" where
  "preempt_delay_start i r = r\<lparr>rt_preempt_delay_timer := timer_start i (rt_preempt_delay_timer r)\<rparr>"

definition preempt_delay_cancel :: "vrrp_router \<Rightarrow> vrrp_router" where
  "preempt_delay_cancel r = r\<lparr>rt_preempt_delay_timer := timer_cancel (rt_preempt_delay_timer r)\<rparr>"

definition adv_interval :: "vrrp_router \<Rightarrow> rat res" where
  "adv_interval r = Inr (cf_advertisement_interval (rt_config r))"

definition down_interval :: "vrrp_router \<Rightarrow> rat res" where
  "down_interval r = master_down_interval (rt_config r) (rt_master_adver_interval r)"

definition skew_interval :: "vrrp_router \<Rightarrow> rat res" where
  "skew_interval r = skew_time (rt_config r) (rt_master_adver_interval r)"

definition emit :: "vrrp_out \<Rightarrow> vrrp_router \<Rightarrow> vrrp_router" where
  "emit ev r = r\<lparr>rt_out := rt_out r @ [ev]\<rparr>"

text \<open>
  \<^verbatim>\<open>send_advertisement\<close>. The cached header object is the one serialized, so it keeps the
  identification, the checksum and the authentication data that \<^verbatim>\<open>create_packet\<close> and \<^verbatim>\<open>serialize\<close> write
  into it; a released priority is sent in a header of its own. (When \<^verbatim>\<open>serialize\<close> raises, the fields it
  may have written before are left as they were.)
\<close>

definition router_vrrp :: "addrconv \<Rightarrow> vrrp_router \<Rightarrow> vrrp res" where
  "router_vrrp A r =
     (case rt_vrrp r of Some v \<Rightarrow> Inr v
      | None \<Rightarrow>
          (let cf = rt_config r in
           res_bind (sec_to_max_adver_int (cf_version cf) (cf_advertisement_interval cf)) (\<lambda>i.
           create_version A (cf_version cf) VRRP_TYPE_ADVERTISEMENT (cf_vrid cf) (Some (cf_priority cf))
             (Some i) (cf_ip_addresses cf) None None)))"

definition vrrp_create :: "addrconv \<Rightarrow> vrrp \<Rightarrow> int \<Rightarrow> vrrp res" where
  "vrrp_create A v priority =
     (if vr_version v = VRRP_VERSION_V2
      then vrrpv2_create A (vr_type v) (vr_vrid v) priority (vr_max_adver_int v) (vr_ip_addresses v)
      else vrrpv3_create A (vr_type v) (vr_vrid v) priority (vr_max_adver_int v) (vr_ip_addresses v))"

definition sent_vrrp :: "'o packet \<Rightarrow> vrrp \<Rightarrow> vrrp" where
  "sent_vrrp pkt v = (case last (pk_protocols pkt) of PVrrp v' \<Rightarrow> v' | _ \<Rightarrow> v)"

definition send_advertisement :: "bool \<Rightarrow> addrconv \<Rightarrow> 'o ext \<Rightarrow> bool \<Rightarrow> vrrp_op" where
  "send_advertisement le A E release r =
     (case router_vrrp A r of Inl e \<Rightarrow> (r, Some e)
      | Inr v \<Rightarrow>
         (let r = r\<lparr>rt_vrrp := Some v\<rparr> in
          case (if release then vrrp_create A v 0 else Inr v) of Inl e \<Rightarrow> (r, Some e)
          | Inr m \<Rightarrow>
             (let st = rt_statistics r;
                  r = (if vr_priority v = 0
                    then r\<lparr>rt_statistics := st\<lparr>tx_vrrp_zero_prio_packets := tx_vrrp_zero_prio_packets st + 1\<rparr>\<rparr>
                    else r);
                  ifc = rt_interface r;
                  (pkt, m') = create_packet m (if_primary_ip_address ifc) (if_vlan_id ifc) in
              case packet_serialize le A E pkt of
                Inl e \<Rightarrow> (if release then r else r\<lparr>rt_vrrp := Some m'\<rparr>, Some e)
              | Inr pkt' \<Rightarrow>
                 (let r = (if release then r else r\<lparr>rt_vrrp := Some (sent_vrrp pkt' m')\<rparr>);
                      r = emit (TransmitRequest (pk_data pkt')) r;
                      st = rt_statistics r
                  in (r\<lparr>rt_statistics := st\<lparr>tx_vrrp_packets := tx_vrrp_packets st + 1\<rparr>\<rparr>, None)))))"

definition state_change :: "vrrp_state \<Rightarrow> vrrp_router \<Rightarrow> vrrp_router" where
  "state_change new r = emit (StateChanged (rt_state r) new) (r\<lparr>rt_state := Some new\<rparr>)"

section \<open>Events\<close>

text \<open>A change request: \<^verbatim>\<open>None\<close> means no change.\<close>

record vrrp_change =
  ch_priority :: "int option"
  ch_advertisement_interval :: "rat option"
  ch_preempt_mode :: "bool option"
  ch_preempt_delay :: "rat option"
  ch_accept_mode :: "bool option"

datatype 'o vrrp_event =
    EvMasterDown | EvAdver | EvPreemptDelay | EvStatisticsOut
  | EvReceived "'o packet"
  | EvShutdown
  | EvConfigChange vrrp_change

text \<open>The payload of a received packet; attributes of \<^verbatim>\<open>None\<close> raise.\<close>

definition received :: "'o packet \<Rightarrow> ('o proto \<Rightarrow> vrrp \<Rightarrow> vrrp_op) \<Rightarrow> vrrp_op" where
  "received pkt f r = (case get_payload pkt of None \<Rightarrow> (r, Some AttributeError) | Some (ip, v, idx) \<Rightarrow> f ip v r)"

text \<open>Another master wins: a higher priority, or the same and a larger address.\<close>

definition loses_to :: "addrconv \<Rightarrow> vrrp_router \<Rightarrow> 'o proto \<Rightarrow> vrrp \<Rightarrow> bool res" where
  "loses_to A r ip v =
     (let p = cf_priority (rt_config r) in
      if p < vr_priority v then Inr True
      else if p = vr_priority v then ip_address_lt A (if_primary_ip_address (rt_interface r)) (ipx_src ip)
      else Inr False)"

subsection \<open>Version 2\<close>

definition v2_master_adver :: "bool \<Rightarrow> addrconv \<Rightarrow> 'o ext \<Rightarrow> vrrp_op" where
  "v2_master_adver le A E = run_ops [send_advertisement le A E False, start_with adver_start adv_interval]"

definition v2_master_received :: "bool \<Rightarrow> addrconv \<Rightarrow> 'o ext \<Rightarrow> 'o proto \<Rightarrow> vrrp \<Rightarrow> vrrp_op" where
  "v2_master_received le A E ip v r =
     (if vr_priority v = 0 then
        run_ops [send_advertisement le A E False, start_with adver_start adv_interval] r
      else (case loses_to A r ip v of Inl e \<Rightarrow> (r, Some e)
        | Inr lost \<Rightarrow>
            if lost then
              run_ops [pure_op adver_cancel, pure_op (state_change Backup),
                start_with master_down_start down_interval] r
            else (r, None)))"

definition v2_state_master :: "bool \<Rightarrow> addrconv \<Rightarrow> 'o ext \<Rightarrow> 'o vrrp_event \<Rightarrow> vrrp_op" where
  "v2_state_master le A E ev r =
     (case ev of
        EvMasterDown \<Rightarrow> (r, None)
      | EvAdver \<Rightarrow> v2_master_adver le A E r
      | EvPreemptDelay \<Rightarrow> (r, None)
      | EvReceived pkt \<Rightarrow> received pkt (v2_master_received le A E) r
      | EvShutdown \<Rightarrow>
          run_ops [pure_op adver_cancel, send_advertisement le A E True, pure_op (state_change Initialize)] r
      | EvConfigChange c \<Rightarrow>
          (if ch_priority c \<noteq> None \<or> ch_advertisement_interval c \<noteq> None
           then run_ops [pure_op adver_cancel, v2_master_adver le A E] r else (r, None))
      | EvStatisticsOut \<Rightarrow> (r, None))"

definition v2_backup_master_down :: "bool \<Rightarrow> addrconv \<Rightarrow> 'o ext \<Rightarrow> vrrp_op" where
  "v2_backup_master_down le A E =
     run_ops [send_advertisement le A E False, pure_op preempt_delay_cancel, pure_op (state_change Master),
       start_with adver_start adv_interval]"

definition preempt_delay_ensure :: "vrrp_router \<Rightarrow> vrrp_router" where
  "preempt_delay_ensure r = (if timer_is_running (rt_preempt_delay_timer r) then r
     else preempt_delay_start (cf_preempt_delay (rt_config r)) r)"

definition v2_backup_received :: "'o proto \<Rightarrow> vrrp \<Rightarrow> vrrp_op" where
  "v2_backup_received ip v r =
     (if vr_priority v = 0 then start_with master_down_start skew_interval r
      else
        (let cf = rt_config r in
         if \<not> cf_preempt_mode cf \<or> cf_priority cf \<le> vr_priority v then
           run_ops [pure_op preempt_delay_cancel, start_with master_down_start down_interval] r
         else if cf_preempt_mode cf \<and> cf_preempt_delay cf > 0 \<and> cf_priority cf > vr_priority v then
           run_ops [pure_op preempt_delay_ensure, start_with master_down_start down_interval] r
         else (r, None)))"

definition v2_state_backup :: "bool \<Rightarrow> addrconv \<Rightarrow> 'o ext \<Rightarrow> 'o vrrp_event \<Rightarrow> vrrp_op" where
  "v2_state_backup le A E ev r =
     (case ev of
        EvMasterDown \<Rightarrow> v2_backup_master_down le A E r
      | EvAdver \<Rightarrow> (r, None)
      | EvPreemptDelay \<Rightarrow> v2_backup_master_down le A E r
      | EvReceived pkt \<Rightarrow> received pkt v2_backup_received r
      | EvShutdown \<Rightarrow>
          run_ops [pure_op master_down_cancel, pure_op preempt_delay_cancel, pure_op (state_change Initialize)] r
      | EvConfigChange c \<Rightarrow>
          run_ops
            [\<lambda>r. if ch_priority c \<noteq> None \<and> address_owner (rt_config r)
                 then run_ops [pure_op master_down_cancel, v2_backup_master_down le A E] r else (r, None),
             \<lambda>r. if ch_preempt_mode c \<noteq> None \<or> ch_preempt_delay c \<noteq> None
                 then pure_op preempt_delay_cancel r else (r, None)] r
      | EvStatisticsOut \<Rightarrow> (r, None))"

definition v2_state_initialize :: "'o vrrp_event \<Rightarrow> vrrp_op" where
  "v2_state_initialize ev r = (r, None)"

text \<open>\<^verbatim>\<open>_STATE_MAP\<close>: before \<^verbatim>\<open>start\<close> there is no state object.\<close>

definition v2_state_impl :: "bool \<Rightarrow> addrconv \<Rightarrow> 'o ext \<Rightarrow> 'o vrrp_event \<Rightarrow> vrrp_op" where
  "v2_state_impl le A E ev r =
     (case rt_state r of None \<Rightarrow> (r, Some AttributeError)
      | Some Initialize \<Rightarrow> v2_state_initialize ev r
      | Some Master \<Rightarrow> v2_state_master le A E ev r
      | Some Backup \<Rightarrow> v2_state_backup le A E ev r)"

definition v2_start :: "bool \<Rightarrow> addrconv \<Rightarrow> 'o ext \<Rightarrow> vrrp_op" where
  "v2_start le A E r =
     run_ops
       [pure_op (\<lambda>r. r\<lparr>rt_master_adver_interval := Some (cf_advertisement_interval (rt_config r))\<rparr>),
        pure_op (state_change Initialize),
        (\<lambda>r. if address_owner (rt_config r) then
             run_ops [send_advertisement le A E False, pure_op (state_change Master),
               start_with adver_start adv_interval] r
           else run_ops [pure_op (state_change Backup), start_with master_down_start down_interval] r)] r"

subsection \<open>Version 3\<close>

definition set_master_adver_interval :: "vrrp \<Rightarrow> vrrp_op" where
  "set_master_adver_interval v r =
     (case max_adver_int_in_sec v of Inl e \<Rightarrow> (r, Some e)
      | Inr i \<Rightarrow> (r\<lparr>rt_master_adver_interval := Some i\<rparr>, None))"

definition v3_master_adver :: "bool \<Rightarrow> addrconv \<Rightarrow> 'o ext \<Rightarrow> vrrp_op" where
  "v3_master_adver le A E = run_ops [send_advertisement le A E False, start_with adver_start adv_interval]"

definition v3_master_received :: "bool \<Rightarrow> addrconv \<Rightarrow> 'o ext \<Rightarrow> 'o proto \<Rightarrow> vrrp \<Rightarrow> vrrp_op" where
  "v3_master_received le A E ip v r =
     (if vr_priority v = 0 then
        run_ops [send_advertisement le A E False, start_with adver_start adv_interval] r
      else (case loses_to A r ip v of Inl e \<Rightarrow> (r, Some e)
        | Inr lost \<Rightarrow>
            if lost then
              run_ops [pure_op adver_cancel, set_master_adver_interval v, pure_op (state_change Backup),
                start_with master_down_start down_interval] r
            else (r, None)))"

definition v3_state_master :: "bool \<Rightarrow> addrconv \<Rightarrow> 'o ext \<Rightarrow> 'o vrrp_event \<Rightarrow> vrrp_op" where
  "v3_state_master le A E ev r =
     (case ev of
        EvMasterDown \<Rightarrow> (r, None)
      | EvAdver \<Rightarrow> v3_master_adver le A E r
      | EvPreemptDelay \<Rightarrow> (r, None)
      | EvReceived pkt \<Rightarrow> received pkt (v3_master_received le A E) r
      | EvShutdown \<Rightarrow>
          run_ops [pure_op adver_cancel, send_advertisement le A E True, pure_op (state_change Initialize)] r
      | EvConfigChange c \<Rightarrow>
          (if ch_priority c \<noteq> None \<or> ch_advertisement_interval c \<noteq> None
           then run_ops [pure_op adver_cancel, v3_master_adver le A E] r else (r, None))
      | EvStatisticsOut \<Rightarrow> (r, None))"

definition v3_backup_master_down :: "bool \<Rightarrow> addrconv \<Rightarrow> 'o ext \<Rightarrow> vrrp_op" where
  "v3_backup_master_down le A E =
     run_ops [send_advertisement le A E False, pure_op preempt_delay_cancel, pure_op (state_change Master),
       start_with adver_start adv_interval]"

text \<open>Unlike version 2, a better advertisement leaves the preemption timer alone.\<close>

definition v3_backup_received :: "'o proto \<Rightarrow> vrrp \<Rightarrow> vrrp_op" where
  "v3_backup_received ip v r =
     (if vr_priority v = 0 then start_with master_down_start skew_interval r
      else
        (let cf = rt_config r in
         if \<not> cf_preempt_mode cf \<or> cf_priority cf \<le> vr_priority v then
           run_ops [set_master_adver_interval v, start_with master_down_start down_interval] r
         else if cf_preempt_mode cf \<and> cf_preempt_delay cf > 0 \<and> cf_priority cf > vr_priority v then
           run_ops [pure_op preempt_delay_ensure, start_with master_down_start down_interval] r
         else (r, None)))"

definition v3_state_backup :: "bool \<Rightarrow> addrconv \<Rightarrow> 'o ext \<Rightarrow> 'o vrrp_event \<Rightarrow> vrrp_op" where
  "v3_state_backup le A E ev r =
     (case ev of
        EvMasterDown \<Rightarrow> v3_backup_master_down le A E r
      | EvAdver \<Rightarrow> (r, None)
      | EvPreemptDelay \<Rightarrow> v3_backup_master_down le A E r
      | EvReceived pkt \<Rightarrow> received pkt v3_backup_received r
      | EvShutdown \<Rightarrow>
          run_ops [pure_op preempt_delay_cancel, pure_op master_down_cancel, pure_op (state_change Initialize)] r
      | EvConfigChange c \<Rightarrow>
          run_ops
            [\<lambda>r. if ch_priority c \<noteq> None \<and> address_owner (rt_config r)
                 then run_ops [pure_op master_down_cancel, v3_backup_master_down le A E] r else (r, None),
             \<lambda>r. if ch_preempt_mode c \<noteq> None \<or> ch_preempt_delay c \<noteq> None
                 then pure_op preempt_delay_cancel r else (r, None)] r
      | EvStatisticsOut \<Rightarrow> (r, None))"

definition v3_state_initialize :: "'o vrrp_event \<Rightarrow> vrrp_op" where
  "v3_state_initialize ev r = (r, None)"

definition v3_state_impl :: "bool \<Rightarrow> addrconv \<Rightarrow> 'o ext \<Rightarrow> 'o vrrp_event \<Rightarrow> vrrp_op" where
  "v3_state_impl le A E ev r =
     (case rt_state r of None \<Rightarrow> (r, Some AttributeError)
      | Some Initialize \<Rightarrow> v3_state_initialize ev r
      | Some Master \<Rightarrow> v3_state_master le A E ev r
      | Some Backup \<Rightarrow> v3_state_backup le A E ev r)"

definition stats_out_start :: vrrp_op where
  "stats_out_start r =
     (r\<lparr>rt_stats_out_timer := timer_start (cf_statistics_interval (rt_config r)) (rt_stats_out_timer r)\<rparr>, None)"

definition v3_start :: "bool \<Rightarrow> addrconv \<Rightarrow> 'o ext \<Rightarrow> vrrp_op" where
  "v3_start le A E r =
     run_ops
       [pure_op (state_change Initialize),
        (\<lambda>r. if address_owner (rt_config r) \<or> cf_admin_master (rt_config r) then
             run_ops [send_advertisement le A E False, pure_op (state_change Master),
               start_with adver_start adv_interval] r
           else
             run_ops
               [pure_op (\<lambda>r. r\<lparr>rt_master_adver_interval := Some (cf_advertisement_interval (rt_config r))\<rparr>),
                pure_op (state_change Backup), start_with master_down_start down_interval] r),
        stats_out_start] r"

section \<open>The router\<close>

definition router_init :: "vrrp_interface \<Rightarrow> vrrp_config \<Rightarrow> vrrp_statistics \<Rightarrow> vrrp_router" where
  "router_init interface cf statistics =
     \<lparr>rt_config = cf, rt_interface = interface, rt_statistics = statistics, rt_master_adver_interval = None,
      rt_state = None, rt_vrrp = None, rt_master_down_timer = Idle, rt_adver_timer = Idle,
      rt_preempt_delay_timer = Idle, rt_stats_out_timer = Idle, rt_out = []\<rparr>"

text \<open>\<^verbatim>\<open>factory\<close> picks the class by the version; an unknown one is a \<^verbatim>\<open>KeyError\<close>.\<close>

definition state_impl :: "bool \<Rightarrow> addrconv \<Rightarrow> 'o ext \<Rightarrow> 'o vrrp_event \<Rightarrow> vrrp_op" where
  "state_impl le A E ev r =
     (if cf_version (rt_config r) = VRRP_VERSION_V2 then v2_state_impl le A E ev r else v3_state_impl le A E ev r)"

definition router_start :: "bool \<Rightarrow> addrconv \<Rightarrow> 'o ext \<Rightarrow> vrrp_op" where
  "router_start le A E r =
     (if cf_version (rt_config r) = VRRP_VERSION_V2 then v2_start le A E r else v3_start le A E r)"

definition apply_change :: "vrrp_change \<Rightarrow> vrrp_config \<Rightarrow> vrrp_config" where
  "apply_change c cf =
     cf\<lparr>cf_priority := or_default (ch_priority c) (cf_priority cf),
        cf_advertisement_interval := or_default (ch_advertisement_interval c) (cf_advertisement_interval cf),
        cf_preempt_mode := or_default (ch_preempt_mode c) (cf_preempt_mode cf),
        cf_preempt_delay := or_default (ch_preempt_delay c) (cf_preempt_delay cf),
        cf_accept_mode := or_default (ch_accept_mode c) (cf_accept_mode cf)\<rparr>"

definition config_change_handler :: "bool \<Rightarrow> addrconv \<Rightarrow> 'o ext \<Rightarrow> vrrp_change \<Rightarrow> vrrp_op" where
  "config_change_handler le A E c r =
     state_impl le A E (EvConfigChange c)
       (r\<lparr>rt_config := apply_change c (rt_config r), rt_vrrp := None\<rparr>)"

text \<open>The event handlers.\<close>

definition router_handle :: "bool \<Rightarrow> addrconv \<Rightarrow> 'o ext \<Rightarrow> 'o vrrp_event \<Rightarrow> vrrp_op" where
  "router_handle le A E ev r =
     (case ev of
        EvStatisticsOut \<Rightarrow> stats_out_start r
      | EvConfigChange c \<Rightarrow> config_change_handler le A E c r
      | _ \<Rightarrow> state_impl le A E ev r)"

end
