(* ===== verification/Vrrp_Sender.thy ===== *)
theory Vrrp_Sender
  imports Vrrp_Router
begin

text \<open>
  Under a valid configuration a router's advertisements always go out, and a monitor with the same
  settings hands them to its router: the contract between \<^verbatim>\<open>send_advertisement\<close> and the receive path.
\<close>

section \<open>Valid configurations\<close>

definition adv_unit :: "vrrp_config \<Rightarrow> rat" where
  "adv_unit cf = (if cf_version cf = VRRP_VERSION_V2 then 1 else 100)"

definition adv_field :: "vrrp_config \<Rightarrow> int" where
  "adv_field cf = py_trunc (cf_advertisement_interval cf * adv_unit cf)"

text \<open>The header of a configuration, up to what the serializer fills in.\<close>

definition adv_header :: "vrrp_config \<Rightarrow> vrrp" where
  "adv_header cf =
     \<lparr>vr_version = cf_version cf, vr_type = VRRP_TYPE_ADVERTISEMENT, vr_vrid = cf_vrid cf,
      vr_priority = cf_priority cf, vr_count_ip = int (length (cf_ip_addresses cf)),
      vr_max_adver_int = adv_field cf, vr_checksum = None, vr_ip_addresses = cf_ip_addresses cf,
      vr_auth_type = (if cf_version cf = VRRP_VERSION_V2 then Some 0 else None),
      vr_auth_data = (if cf_version cf = VRRP_VERSION_V2 then Some (0, 0) else None),
      vr_is_ipv6 = cf_is_ipv6 cf, vr_identification = 0\<rparr>"

definition config_ok :: "addrconv \<Rightarrow> vrrp_config \<Rightarrow> vrrp_interface \<Rightarrow> bool" where
  "config_ok A cf ifc \<longleftrightarrow>
     (cf_version cf = VRRP_VERSION_V2 \<and> \<not> cf_is_ipv6 cf \<and> adv_field cf < 256 \<or>
      cf_version cf = VRRP_VERSION_V3 \<and> adv_field cf < 4096) \<and>
     1 \<le> adv_field cf \<and> 1 \<le> cf_vrid cf \<and> cf_vrid cf < 256 \<and> 0 \<le> cf_priority cf \<and> cf_priority cf < 256 \<and>
     cf_ip_addresses cf \<noteq> [] \<and> length (cf_ip_addresses cf) < 256 \<and>
     (if cf_is_ipv6 cf then list_all (canon_ip6 A) (cf_ip_addresses cf) \<and> is_ipv6 A (hd (cf_ip_addresses cf)) = Inr True
      else list_all (canon_ip4 A) (cf_ip_addresses cf)) \<and>
     advert_addrs A (cf_is_ipv6 cf) (if_primary_ip_address ifc) \<and> advert_macs A (adv_header cf) \<and>
     vlan_id_ok (if_vlan_id ifc)"

definition monitor_of :: "vrrp_config \<Rightarrow> vrrp_interface \<Rightarrow> vrrp_monitor" where
  "monitor_of cf ifc = \<lparr>mon_vlan_id = if_vlan_id ifc, mon_version = cf_version cf, mon_vrid = cf_vrid cf,
     mon_is_ipv6 = cf_is_ipv6 cf\<rparr>"

lemma versions_differ [simp]: "VRRP_VERSION_V2 \<noteq> VRRP_VERSION_V3" "VRRP_VERSION_V3 \<noteq> VRRP_VERSION_V2"
  by (simp_all add: VRRP_VERSION_V2_def VRRP_VERSION_V3_def)

lemma adv_header_wf:
  assumes "config_ok A cf ifc"
  shows "vrrp_wf A (adv_header cf)"
  using assms
  by (auto simp: config_ok_def vrrp_wf_def vrrpv2_wf_def vrrpv3_wf_def vrrp_common_def adv_header_def
      VRRP_VERSION_V2_def VRRP_VERSION_V3_def VRRP_TYPE_ADVERTISEMENT_def)

lemma adv_header_valid:
  assumes "config_ok A cf ifc" "v = (adv_header cf)\<lparr>vr_checksum := c\<rparr>"
  shows "vrrp_is_valid v"
  using assms
  by (auto simp: config_ok_def vrrp_is_valid_def vrrpv2_is_valid_def vrrpv3_is_valid_def adv_header_def
      VRRP_VERSION_V2_def VRRP_VERSION_V3_def)

lemma vrrp_plain_header [simp]: "vrrp_plain (adv_header cf) = adv_header cf"
  by (simp add: vrrp_plain_def adv_header_def)

lemma config_ok_cong:
  assumes "config_ok A cf ifc" "0 \<le> cf_priority cf'" "cf_priority cf' < 256" "1 \<le> adv_field cf'"
    "adv_field cf' < (if cf_version cf = VRRP_VERSION_V2 then 256 else 4096)"
    "cf_version cf' = cf_version cf" "cf_vrid cf' = cf_vrid cf" "cf_is_ipv6 cf' = cf_is_ipv6 cf"
    "cf_ip_addresses cf' = cf_ip_addresses cf"
  shows "config_ok A cf' ifc"
proof -
  have "advert_eth (adv_header cf') None = advert_eth (adv_header cf) None"
    using assms(6-9) by (simp add: advert_eth_def adv_header_def advert_type_def)
  with assms show ?thesis
    by (auto simp: config_ok_def advert_macs_def VRRP_VERSION_V2_def VRRP_VERSION_V3_def split: if_splits)
qed

lemma config_ok_priority:
  assumes "config_ok A cf ifc" "0 \<le> p" "p < 256"
  shows "config_ok A (cf\<lparr>cf_priority := p\<rparr>) ifc"
  using assms by (intro config_ok_cong [OF assms(1)]) (auto simp: config_ok_def adv_field_def adv_unit_def)

lemma vrrp_created:
  assumes ok: "config_ok A cf ifc"
    and au: "auth = (None, None) \<or> (if cf_version cf = VRRP_VERSION_V2 then auth = (Some 0, Some (0, 0)) else auth = (None, None))"
  shows "\<exists>v. create_version A (cf_version cf) VRRP_TYPE_ADVERTISEMENT (cf_vrid cf) (Some (cf_priority cf))
    (Some (adv_field cf)) (cf_ip_addresses cf) (fst auth) (snd auth) = Inr v \<and> vrrp_plain v = adv_header cf"
proof -
  have ne: "cf_ip_addresses cf \<noteq> []" and ver: "cf_version cf = VRRP_VERSION_V2 \<or> cf_version cf = VRRP_VERSION_V3"
    using ok by (auto simp: config_ok_def)
  have i6: "is_ipv6 A (hd (cf_ip_addresses cf)) = Inr (cf_is_ipv6 cf)"
  proof (cases "cf_is_ipv6 cf")
    case True
    with ok show ?thesis by (simp add: config_ok_def)
  next
    case False
    with ok have "list_all (canon_ip4 A) (cf_ip_addresses cf)" by (simp add: config_ok_def)
    then have "canon_ip4 A (hd (cf_ip_addresses cf))" using ne by (cases "cf_ip_addresses cf") simp_all
    with False show ?thesis by (auto simp: canon_ip4_def is_ipv6_def split: sum.splits)
  qed
  have cv: "\<not> (cf_version cf \<noteq> VRRP_VERSION_V2 \<and> cf_version cf \<noteq> VRRP_VERSION_V3)" using ver by blast
  show ?thesis
    unfolding create_version_def if_not_P [OF cv] using ver au
    by (auto simp: vrrp_init_eq [OF ne refl i6] vrrp_plain_def adv_header_def or_default_def
        VRRP_VERSION_V2_def VRRP_VERSION_V3_def split: if_splits)
qed

section \<open>The cached header\<close>

definition adv_prev :: "bool \<Rightarrow> string \<Rightarrow> net_prev" where
  "adv_prev v6 primary = (if v6 then PrevIPv6 (advert_ipvx True primary) else PrevIPv4 (advert_ipvx False primary))"

text \<open>A header as it was created from \<open>h\<close>, or as the serializer left it.\<close>

definition cached_header :: "bool \<Rightarrow> addrconv \<Rightarrow> vrrp \<Rightarrow> string \<Rightarrow> vrrp \<Rightarrow> bool" where
  "cached_header le A h primary v \<longleftrightarrow> vrrp_plain v = h \<or>
     (\<exists>b. vrrp_serialize le A h (adv_prev (vr_is_ipv6 h) primary) = Inr (b, vrrp_plain v))"

lemma advert_pseudo_header:
  assumes A: "addrconv_ok A" and ad: "advert_addrs A v6 primary" and n: "0 \<le> n" "n < 65536"
  shows "\<exists>ps. pseudo_header A (advert_ipvx v6 primary) n = Inr ps"
proof (cases v6)
  case True
  let ?h = "vrrp_ip6_header undefined primary"
  have "ipv6_wf A ?h" using True ad
    by (simp add: vrrp_ip6_header_def ipv6_wf_def advert_addrs_def IPPROTO_VRRP_def is_ext_type_def)
  from ipv6_pseudo_header [OF this _ n] True show ?thesis
    by (simp add: advert_ipvx_def vrrp_ip6_header_def IPPROTO_VRRP_def)
next
  case False
  let ?h = "vrrp_ip4_header 0 primary"
  have "ipv4_wf A ?h" using False ad
    by (simp add: vrrp_ip4_header_def ipv4_wf_def advert_addrs_def IPPROTO_VRRP_def)
  from ipv4_pseudo_header [OF A this _ n] False show ?thesis
    by (simp add: advert_ipvx_def vrrp_ip4_header_def IPPROTO_VRRP_def)
qed

lemma vrrp_plain_checksum: "vrrp_plain (v\<lparr>vr_checksum := c\<rparr>) = (vrrp_plain v)\<lparr>vr_checksum := c\<rparr>"
  by (simp add: vrrp_plain_def)

lemma cached_serialize:
  assumes A: "addrconv_ok A" and wf: "vrrp_wf A h" and ad: "advert_addrs A (vr_is_ipv6 h) primary"
    and v: "cached_header le A h primary v"
  shows "\<exists>b v'. vrrp_serialize le A v (adv_prev (vr_is_ipv6 h) primary) = Inr (b, v') \<and>
    cached_header le A h primary v' \<and> vrrp_plain (v\<lparr>vr_checksum := None\<rparr>) = vrrp_plain h \<and>
    (\<exists>h'. vrrp_serialize le A h (adv_prev (vr_is_ipv6 h) primary) = Inr (b, h'))"
proof -
  obtain ps where ps: "pseudo_header A (advert_ipvx (vr_is_ipv6 h) primary) (int (vrrp_len h)) = Inr ps"
    using advert_pseudo_header [OF A ad, of "int (vrrp_len h)"] vrrp_len_bounds [OF wf] by auto
  have pv: "adv_prev (vr_is_ipv6 h) primary = (if vr_is_ipv6 h then PrevIPv6 (advert_ipvx (vr_is_ipv6 h) primary)
      else PrevIPv4 (advert_ipvx (vr_is_ipv6 h) primary))" by (simp add: adv_prev_def)
  obtain b h' where c: "vrrp_serialize le A h (adv_prev (vr_is_ipv6 h) primary) = Inr (b, h')"
    "h' = h\<lparr>vr_checksum := vr_checksum h'\<rparr>"
    "vrrp_serialize le A h' (adv_prev (vr_is_ipv6 h) primary) = Inr (b, h')"
    using vrrp_codec [OF A wf pv ps, where le = le] by blast
  have n: "vr_checksum h = None" using vrrp_wf_common [OF wf] by (simp add: vrrp_common_def)
  have pl: "vrrp_plain (v\<lparr>vr_checksum := None\<rparr>) = (vrrp_plain v)\<lparr>vr_checksum := None\<rparr>"
    by (rule vrrp_plain_checksum)
  from v consider (new) "vrrp_plain v = h" | (old) "vrrp_plain v = h'"
    unfolding cached_header_def using c(1) by auto
  then show ?thesis
  proof cases
    case new
    from vrrp_serialize_plain [of le A v, unfolded new, OF c(1)] obtain v' where
      "vrrp_serialize le A v (adv_prev (vr_is_ipv6 h) primary) = Inr (b, v')" "vrrp_plain v' = h'" by blast
    moreover have "h\<lparr>vr_checksum := None\<rparr> = h" using n by simp
    moreover have "vrrp_plain h = h" unfolding new [symmetric] by (simp add: vrrp_plain_def)
    ultimately show ?thesis using c(1) pl new by (auto simp: cached_header_def)
  next
    case old
    from vrrp_serialize_plain [of le A v, unfolded old, OF c(3)] obtain v' where
      "vrrp_serialize le A v (adv_prev (vr_is_ipv6 h) primary) = Inr (b, v')" "vrrp_plain v' = h'" by blast
    moreover have "h'\<lparr>vr_checksum := None\<rparr> = h" by (subst c(2)) (simp add: n)
    moreover have "vrrp_plain h = h"
    proof -
      have "vrrp_plain h' = h'" unfolding old [symmetric] by (simp add: vrrp_plain_def)
      then have "(vrrp_plain h')\<lparr>vr_checksum := None\<rparr> = h" using \<open>h'\<lparr>vr_checksum := None\<rparr> = h\<close> by simp
      then show ?thesis by (auto simp: vrrp_plain_def)
    qed
    ultimately show ?thesis using c(1) pl old by (auto simp: cached_header_def)
  qed
qed

section \<open>Sending\<close>

text \<open>
  \<open>announces\<close>: the frame decodes to a packet that a monitor with the sender's settings hands on, and
  its payload is the sender's address, priority and interval.
\<close>

definition announces :: "addrconv \<Rightarrow> 'o ext \<Rightarrow> vrrp_config \<Rightarrow> vrrp_interface \<Rightarrow> bytes \<Rightarrow> bool" where
  "announces A E cf ifc data \<longleftrightarrow>
     (\<exists>got ip v idx. packet_decode A E data = Some (Inr got) \<and> get_payload got = Some (ip, v, idx) \<and>
       ipx_src ip = if_primary_ip_address ifc \<and> vr_priority v = cf_priority cf \<and>
       vr_version v = cf_version cf \<and> vr_max_adver_int v = adv_field cf \<and>
       (\<forall>le. check_received_packet le A E (monitor_of cf ifc) got = Inr True))"

lemma net_prev_advert_ip:
  "net_prev_of E (Some (advert_ip h primary i)) = adv_prev (vr_is_ipv6 h) primary"
  by (simp add: net_prev_of_def ipvx_of_def advert_ip_def adv_prev_def advert_ipvx_def vrrp_ip4_header_def
      vrrp_ip6_header_def IPPROTO_VRRP_def)

lemma create_packet_checksum:
  fixes h :: vrrp and c :: "int option"
  defines "h' \<equiv> h\<lparr>vr_checksum := c\<rparr>"
  shows "advert_eth h' v = advert_eth h v" "advert_tags h' v = advert_tags h v"
    "advert_ip h' p i = advert_ip h p i" "advert_ident h' = advert_ident h"
    "snd (create_packet h' p v) = (snd (create_packet h p v))\<lparr>vr_checksum := c\<rparr>"
  by (cases v; simp add: h'_def advert_eth_def advert_tags_def advert_type_def advert_ip_def vrrp_ip6_header_def
      vrrp_len_def advert_ident_def get_identification_def Let_def create_packet_snd)+

lemma send_frame:
  fixes E :: "'o ext"
  assumes A: "addrconv_ok A" and E: "ext_shrinks E" and ok: "config_ok A cf ifc"
    and v: "cached_header le A (adv_header cf) (if_primary_ip_address ifc) v"
  defines "pkt \<equiv> fst (create_packet v (if_primary_ip_address ifc) (if_vlan_id ifc)) :: 'o packet"
    and "v1 \<equiv> snd (create_packet v (if_primary_ip_address ifc) (if_vlan_id ifc) :: 'o packet \<times> vrrp)"
  shows "\<exists>sent. packet_serialize le A E pkt = Inr sent \<and> announces A E cf ifc (pk_data sent) \<and>
    cached_header le A (adv_header cf) (if_primary_ip_address ifc) (sent_vrrp sent v1)"
proof -
  let ?h = "adv_header cf" and ?p = "if_primary_ip_address ifc" and ?vl = "if_vlan_id ifc"
  let ?v0 = "v\<lparr>vr_checksum := None\<rparr>"
  have wf: "vrrp_wf A ?h" by (rule adv_header_wf [OF ok])
  have v6: "vr_is_ipv6 ?h = cf_is_ipv6 cf" by (simp add: adv_header_def)
  have ad: "advert_addrs A (cf_is_ipv6 cf) ?p" "advert_macs A ?h" "vlan_id_ok ?vl"
    using ok by (simp_all add: config_ok_def)
  have pl0: "vrrp_plain ?v0 = ?h"
    using cached_serialize [OF A wf _ v] ad(1) v6 by auto
  have f0: "vr_is_ipv6 v = cf_is_ipv6 cf" "vr_vrid v = vr_vrid ?h" "vr_version v = cf_version cf"
    using vrrp_plain_fields(1,2,4) [of ?v0] v6 unfolding pl0 by (simp_all add: adv_header_def)
  have e0: "advert_eth ?v0 None = advert_eth ?h None"
    using f0 v6 by (simp add: advert_eth_def advert_type_def)
  have mac0: "advert_macs A ?v0" using ad(2) unfolding advert_macs_def e0 .
  have ad0: "advert_addrs A (vr_is_ipv6 ?v0) ?p" using ad(1) f0(1) by simp
  have wf0: "vrrp_wf A (vrrp_plain ?v0)" using wf pl0 by simp
  note af = advert_frame [OF A E wf0 ad0 mac0 ad(3), where le = le, unfolded pl0]
  obtain sent got ip w where s: "packet_serialize le A E (fst (create_packet ?v0 ?p ?vl)) = Inr sent"
    "packet_decode A E (pk_data sent) = Some (Inr got)" "w = ?h\<lparr>vr_checksum := vr_checksum w\<rparr>"
    "ipx_src ip = ?p" "get_payload got = Some (ip, w, length (advert_tags ?v0 ?vl :: 'o proto list) + 2)"
    using af [where le' = True] by blast
  have mo: "\<lparr>mon_vlan_id = ?vl, mon_version = vr_version ?v0, mon_vrid = vr_vrid ?v0, mon_is_ipv6 = vr_is_ipv6 ?v0\<rparr>
      = monitor_of cf ifc" using f0 by (simp add: monitor_of_def adv_header_def)
  have chk: "check_received_packet le' A E (monitor_of cf ifc) got = Inr True" for le'
  proof -
    obtain sent' got' w' where s': "packet_serialize le A E (fst (create_packet ?v0 ?p ?vl)) = Inr sent'"
      "packet_decode A E (pk_data sent') = Some (Inr got')" "w' = ?h\<lparr>vr_checksum := vr_checksum w'\<rparr>"
      "vrrp_is_valid w' \<longrightarrow> check_received_packet le' A E (monitor_of cf ifc) got' = Inr True"
      using af [where le' = le'] unfolding mo by blast
    have "got' = got" using s(1,2) s'(1,2) by simp
    moreover have "vrrp_is_valid w'" by (rule adv_header_valid [OF ok s'(3)])
    ultimately show ?thesis using s'(4) by simp
  qed
  let ?e = "advert_eth v ?vl" and ?ts = "advert_tags v ?vl :: 'o proto list"
  let ?ip = "advert_ip v ?p (advert_ident v) :: 'o proto"
  have pk: "pk_protocols pkt = (PEth ?e # ?ts) @ [?ip, PVrrp v1]"
    unfolding pkt_def v1_def by (subst create_packet_parts) simp
  have pk0: "pk_protocols (fst (create_packet ?v0 ?p ?vl) :: 'o packet) = (PEth ?e # ?ts) @ [?ip, PVrrp (v1\<lparr>vr_checksum := None\<rparr>)]"
    by (subst create_packet_parts) (simp add: create_packet_checksum v1_def)
  have npv: "net_prev_of E (Some ?ip) = adv_prev (vr_is_ipv6 ?h) ?p" by (simp add: net_prev_advert_ip f0(1) v6)
  have pl1: "vrrp_plain v1 = vrrp_plain v" unfolding v1_def by simp
  have c1: "cached_header le A ?h ?p v1" using v by (simp add: cached_header_def pl1)
  obtain b v2 where b: "vrrp_serialize le A v1 (adv_prev (vr_is_ipv6 ?h) ?p) = Inr (b, v2)"
    "cached_header le A ?h ?p v2" "\<exists>h'. vrrp_serialize le A ?h (adv_prev (vr_is_ipv6 ?h) ?p) = Inr (b, h')"
    using cached_serialize [OF A wf _ c1] ad(1) v6 by auto
  have q: "serialize_protos le A E (Some ?ip) [PVrrp v1] = Inr (b, [PVrrp v2])" by (simp add: b(1) npv)
  obtain items where ser: "serialize_protos le A E None ((PEth ?e # ?ts) @ [?ip, PVrrp v1]) = Inr (pk_data sent, items)"
  proof -
    obtain items0 where i0: "serialize_protos le A E None ((PEth ?e # ?ts) @ [?ip, PVrrp (v1\<lparr>vr_checksum := None\<rparr>)]) =
        Inr (pk_data sent, items0)"
      using s(1) unfolding packet_serialize_def pk0 by (auto simp: res_bind_eq_Inr simp del: serialize_protos.simps)
    have "vrrp_plain (v1\<lparr>vr_checksum := None\<rparr>) = ?h"
      using pl0 unfolding vrrp_plain_checksum pl1 .
    then obtain h' h2 where "vrrp_serialize le A (v1\<lparr>vr_checksum := None\<rparr>) (adv_prev (vr_is_ipv6 ?h) ?p) = Inr (b, h2)"
      using b(3) vrrp_serialize_plain [of le A "v1\<lparr>vr_checksum := None\<rparr>"] by metis
    then have "serialize_protos le A E (Some ?ip) [PVrrp (v1\<lparr>vr_checksum := None\<rparr>)] = Inr (b, [PVrrp h2])"
      by (simp add: npv)
    with serialize_same_last [OF _ i0, of "PVrrp v1"] q that show thesis by auto
  qed
  have "list_all outer ((PEth ?e # ?ts) @ [?ip])" using outer_advert [of v ?vl ?p "advert_ident v"] by simp
  from serialize_offset [OF ser this] obtain ps' p' where "items = ps' @ [p', PVrrp v2]"
    using q by auto
  then have "sent_vrrp \<lparr>pk_data = pk_data sent, pk_protocols = items\<rparr> v1 = v2" by (simp add: sent_vrrp_def)
  moreover have "packet_serialize le A E pkt = Inr \<lparr>pk_data = pk_data sent, pk_protocols = items\<rparr>"
    unfolding packet_serialize_def pk ser by simp
  moreover have "announces A E cf ifc (pk_data sent)"
    unfolding announces_def
  proof (intro exI conjI allI)
    show "vr_priority w = cf_priority cf" "vr_version w = cf_version cf" "vr_max_adver_int w = adv_field cf"
      by (subst s(3); simp add: adv_header_def)+
  qed (fact s chk)+
  ultimately show ?thesis using b(2) by (intro exI [of _ "\<lparr>pk_data = pk_data sent, pk_protocols = items\<rparr>"]) simp
qed

section \<open>The router's side\<close>

definition cache_ok :: "bool \<Rightarrow> addrconv \<Rightarrow> vrrp_router \<Rightarrow> bool" where
  "cache_ok le A r \<longleftrightarrow> (case rt_vrrp r of None \<Rightarrow> True
     | Some v \<Rightarrow> cached_header le A (adv_header (rt_config r)) (if_primary_ip_address (rt_interface r)) v)"

definition router_ok :: "bool \<Rightarrow> addrconv \<Rightarrow> vrrp_router \<Rightarrow> bool" where
  "router_ok le A r \<longleftrightarrow> config_ok A (rt_config r) (rt_interface r) \<and> cache_ok le A r"

lemma router_vrrp_ok:
  assumes "router_ok le A r"
  shows "\<exists>v. router_vrrp A r = Inr v \<and>
    cached_header le A (adv_header (rt_config r)) (if_primary_ip_address (rt_interface r)) v"
proof (cases "rt_vrrp r")
  case None
  have ok: "config_ok A (rt_config r) (rt_interface r)" using assms by (simp add: router_ok_def)
  have "sec_to_max_adver_int (cf_version (rt_config r)) (cf_advertisement_interval (rt_config r)) =
      Inr (adv_field (rt_config r))"
    using ok by (auto simp: sec_to_max_adver_int_def sec_in_max_adver_int_unit_def config_ok_def adv_field_def adv_unit_def)
  with None vrrp_created [OF ok, of "(None, None)"] show ?thesis
    by (auto simp: router_vrrp_def cached_header_def)
next
  case (Some v)
  with assms show ?thesis by (simp add: router_ok_def cache_ok_def router_vrrp_def)
qed

lemma send_advertisement_ok:
  fixes E :: "'o ext"
  assumes A: "addrconv_ok A" and E: "ext_shrinks E" and r: "router_ok le A r"
  shows "\<exists>data v st. send_advertisement le A E False r =
      (r\<lparr>rt_vrrp := Some v, rt_statistics := st, rt_out := rt_out r @ [TransmitRequest data]\<rparr>, None) \<and>
    announces A E (rt_config r) (rt_interface r) data \<and>
    cached_header le A (adv_header (rt_config r)) (if_primary_ip_address (rt_interface r)) v"
proof -
  let ?p = "if_primary_ip_address (rt_interface r)" and ?vl = "if_vlan_id (rt_interface r)"
  obtain v where v: "router_vrrp A r = Inr v" "cached_header le A (adv_header (rt_config r)) ?p v"
    using router_vrrp_ok [OF r] by blast
  have ok: "config_ok A (rt_config r) (rt_interface r)" using r by (simp add: router_ok_def)
  obtain pkt :: "'o packet" and m where cp: "create_packet v ?p ?vl = (pkt, m)"
    by (cases "create_packet v ?p ?vl :: 'o packet \<times> vrrp")
  obtain sent where s: "packet_serialize le A E pkt = Inr sent" "announces A E (rt_config r) (rt_interface r) (pk_data sent)"
    "cached_header le A (adv_header (rt_config r)) ?p (sent_vrrp sent m)"
    using send_frame [OF A E ok v(2)] unfolding cp by auto
  have "send_advertisement le A E False r =
      (r\<lparr>rt_vrrp := Some (sent_vrrp sent m), rt_statistics := rt_statistics (fst (send_advertisement le A E False r)),
         rt_out := rt_out r @ [TransmitRequest (pk_data sent)]\<rparr>, None)"
    unfolding send_advertisement_def v(1)
    by (cases "vr_priority v = 0") (simp_all add: cp s(1) emit_def Let_def)
  with s show ?thesis by blast
qed

lemma vrrp_create_ok:
  assumes ok: "config_ok A cf ifc" and v: "cached_header le A (adv_header cf) p v"
    and A: "addrconv_ok A" and ad: "advert_addrs A (cf_is_ipv6 cf) p"
  shows "\<exists>m. vrrp_create A v 0 = Inr m \<and> vrrp_plain m = adv_header (cf\<lparr>cf_priority := 0\<rparr>)"
proof -
  have ok0: "config_ok A (cf\<lparr>cf_priority := 0\<rparr>) ifc" by (rule config_ok_priority [OF ok]) simp_all
  have "vrrp_plain (v\<lparr>vr_checksum := None\<rparr>) = adv_header cf"
  proof -
    have "vr_is_ipv6 (adv_header cf) = cf_is_ipv6 cf" by (simp add: adv_header_def)
    with cached_serialize [OF A adv_header_wf [OF ok] _ v] ad show ?thesis by auto
  qed
  then have f: "vr_version v = cf_version cf" "vr_type v = VRRP_TYPE_ADVERTISEMENT" "vr_vrid v = cf_vrid cf"
    "vr_max_adver_int v = adv_field cf" "vr_ip_addresses v = cf_ip_addresses cf"
    using vrrp_plain_fields [of "v\<lparr>vr_checksum := None\<rparr>"] by (simp_all add: adv_header_def)
  have fld: "adv_field (cf\<lparr>cf_priority := 0\<rparr>) = adv_field cf" by (simp add: adv_field_def adv_unit_def)
  have ver: "cf_version cf = VRRP_VERSION_V2 \<or> cf_version cf = VRRP_VERSION_V3" using ok by (auto simp: config_ok_def)
  then show ?thesis
  proof
    assume "cf_version cf = VRRP_VERSION_V2"
    with vrrp_created [OF ok0, of "(Some 0, Some (0, 0))"] show ?thesis
      by (simp add: vrrp_create_def vrrpv2_create_def f fld)
  next
    assume "cf_version cf = VRRP_VERSION_V3"
    with vrrp_created [OF ok0, of "(None, None)"] show ?thesis
      by (simp add: vrrp_create_def vrrpv3_create_def f fld)
  qed
qed

lemma send_release_ok:
  fixes E :: "'o ext"
  assumes A: "addrconv_ok A" and E: "ext_shrinks E" and r: "router_ok le A r"
  shows "\<exists>data v st. send_advertisement le A E True r =
      (r\<lparr>rt_vrrp := Some v, rt_statistics := st, rt_out := rt_out r @ [TransmitRequest data]\<rparr>, None) \<and>
    announces A E ((rt_config r)\<lparr>cf_priority := 0\<rparr>) (rt_interface r) data \<and>
    cached_header le A (adv_header (rt_config r)) (if_primary_ip_address (rt_interface r)) v"
proof -
  let ?p = "if_primary_ip_address (rt_interface r)" and ?vl = "if_vlan_id (rt_interface r)"
  let ?cf0 = "(rt_config r)\<lparr>cf_priority := 0\<rparr>"
  obtain v where v: "router_vrrp A r = Inr v" "cached_header le A (adv_header (rt_config r)) ?p v"
    using router_vrrp_ok [OF r] by blast
  have ok: "config_ok A (rt_config r) (rt_interface r)" using r by (simp add: router_ok_def)
  then have ad: "advert_addrs A (cf_is_ipv6 (rt_config r)) ?p" by (simp add: config_ok_def)
  have ok0: "config_ok A ?cf0 (rt_interface r)" by (rule config_ok_priority [OF ok]) simp_all
  obtain m where m: "vrrp_create A v 0 = Inr m" "vrrp_plain m = adv_header ?cf0"
    using vrrp_create_ok [OF ok v(2) A ad] by blast
  have cm: "cached_header le A (adv_header ?cf0) ?p m" using m(2) by (simp add: cached_header_def)
  obtain pkt :: "'o packet" and m' where cp: "create_packet m ?p ?vl = (pkt, m')"
    by (cases "create_packet m ?p ?vl :: 'o packet \<times> vrrp")
  obtain sent where s: "packet_serialize le A E pkt = Inr sent" "announces A E ?cf0 (rt_interface r) (pk_data sent)"
    using send_frame [OF A E ok0 cm] unfolding cp by auto
  have "send_advertisement le A E True r =
      (r\<lparr>rt_vrrp := Some (v), rt_statistics := rt_statistics (fst (send_advertisement le A E True r)),
         rt_out := rt_out r @ [TransmitRequest (pk_data sent)]\<rparr>, None)"
    unfolding send_advertisement_def v(1)
    by (cases "vr_priority v = 0") (simp_all add: m(1) cp s(1) emit_def Let_def)
  with s v show ?thesis by blast
qed

end
