(* ===== verification/Vrrp_Steps.thy ===== *)
theory Vrrp_Steps
  imports Vrrp_Sender
begin

text \<open>
  The router with its event queue and timers as a transition system, and the invariant that no router
  gets stuck: a master always has an advertisement coming, a backup always a timeout.
\<close>

section \<open>Addresses of decoded packets\<close>

fun from_wire :: "addrconv \<Rightarrow> 'o proto \<Rightarrow> bool" where
  "from_wire A (PIpv4 h) \<longleftrightarrow> is_ok (ip4_to_bin A (ip4_src h))"
| "from_wire A (PIpv6 h) \<longleftrightarrow> is_ok (ip6_to_bin A (ip6_src h))"
| "from_wire A _ \<longleftrightarrow> True"

lemma bpdu_no_ip:
  "(case m of UnknownBPDU b \<Rightarrow> Raw b | _ \<Rightarrow> PBpdu m) = q \<Longrightarrow> q \<noteq> PIpv4 h4 \<and> q \<noteq> PIpv6 h6"
  by (cases m) auto

lemma cls_parser_from_wire:
  assumes A: "addrconv_ok A" and p: "cls_parser A E c buf = Inr (Some p, c', rest)"
  shows "from_wire A p"
proof (cases p)
  case (PIpv4 h)
  with p have "c = C_ipv4" by (cases c) (auto simp: cls_parser_def keep_eq_Inr res_bind_eq_Inr split: if_splits dest: bpdu_no_ip)
  with p PIpv4 have h: "ipv4_parser A buf = Inr (h, c', rest)"
    by (auto simp: cls_parser_def res_bind_eq_Inr split: if_splits)
  have b: "20 \<le> length buf \<and> ip4_src h = ip4_to_text A (take 4 (drop 12 buf))"
    using h unfolding ipv4_parser_def
    by - (drule unpack_bindD, auto simp: ipv4_fmt_def Let_def drop_drop)
  then have "length (take 4 (drop 12 buf)) = 4" by (auto simp: min_def)
  with A have "ip4_to_bin A (ip4_to_text A (take 4 (drop 12 buf))) = Inr (take 4 (drop 12 buf))"
    unfolding addrconv_ok_def by blast
  with b PIpv4 show ?thesis by simp
next
  case (PIpv6 h)
  with p have "c = C_ipv6" by (cases c) (auto simp: cls_parser_def keep_eq_Inr res_bind_eq_Inr split: if_splits dest: bpdu_no_ip)
  with p PIpv6 have h: "ipv6_parser A buf = Inr (h, c', rest)"
    by (auto simp: cls_parser_def keep_eq_Inr)
  have b: "40 \<le> length buf \<and> ip6_src h = ip6_to_text A (take 16 (drop 8 buf))"
    using h unfolding ipv6_parser_def
    by - (drule unpack_bindD, auto simp: ipv6_fmt_def res_bind_eq_Inr drop_drop)
  then have "length (take 16 (drop 8 buf)) = 16" by (auto simp: min_def)
  with A have "ip6_to_bin A (ip6_to_text A (take 16 (drop 8 buf))) = Inr (take 16 (drop 8 buf))"
    unfolding addrconv_ok_def by blast
  with b PIpv6 show ?thesis by simp
qed simp_all

lemma parser_loop_from_wire:
  assumes A: "addrconv_ok A"
  shows "parser_loop A E n c data ps = Some (Inr (qs, r)) \<Longrightarrow> list_all (from_wire A) ps \<Longrightarrow> list_all (from_wire A) qs"
proof (induction n arbitrary: c data ps)
  case (Suc n)
  show ?case
  proof (cases "c = None \<or> all_zero data")
    case True
    with Suc.prems show ?thesis by (auto split: option.splits)
  next
    case False
    then obtain k where k: "c = Some k" "\<not> all_zero data" by auto
    show ?thesis
    proof (cases "cls_parser A E k data")
      case (Inl e)
      with Suc.prems k show ?thesis by (auto split: if_splits)
    next
      case (Inr t)
      obtain p c' rest where t: "t = (p, c', rest)" by (cases t)
      with Inr k Suc.prems(1) have l: "parser_loop A E n c' rest (case p of None \<Rightarrow> ps | Some p \<Rightarrow> ps @ [p]) = Some (Inr (qs, r))"
        by simp
      show ?thesis
        by (rule Suc.IH [OF l]) (use Suc.prems(2) cls_parser_from_wire [OF A] Inr t in \<open>auto split: option.splits\<close>)
    qed
  qed
qed simp

lemma packet_decode_from_wire:
  assumes "addrconv_ok A" "packet_decode A E data = Some (Inr pkt)"
  shows "list_all (from_wire A) (pk_protocols pkt)"
proof (cases "data = []")
  case True
  with assms(2) show ?thesis by (auto simp: packet_decode_def)
next
  case False
  with assms(2) obtain ps r where p: "parser_loop A E (packet_fuel data) (Some C_ethernet) data [] = Some (Inr (ps, r))"
    "pk_protocols pkt = add_rest (ps, r)"
    by (auto simp: packet_decode_def packet_parser_def res_bind_eq_Inr)
  have "list_all (from_wire A) ps" by (rule parser_loop_from_wire [OF assms(1) p(1)]) simp
  with p(2) show ?thesis by (simp add: add_rest_def)
qed

lemma get_payload_mem: "get_payload_at n ps = Some (ip, v, idx) \<Longrightarrow> ip \<in> set ps \<and> (\<exists>h4 h6. ip = PIpv4 h4 \<or> ip = PIpv6 h6)"
  by (induction ps arbitrary: n) (auto split: proto.splits list.splits)

definition readable :: "addrconv \<Rightarrow> string \<Rightarrow> bool" where
  "readable A t \<longleftrightarrow> is_ok (vrrp_ip_text_to_bin A t)"

lemma readableI: "is_ok (ip4_to_bin A t) \<or> is_ok (ip6_to_bin A t) \<Longrightarrow> readable A t"
  by (auto simp: readable_def vrrp_ip_text_to_bin_def is_ipv6_def is_ok_iff split: sum.splits)

lemma payload_readable:
  assumes "addrconv_ok A" "packet_decode A E data = Some (Inr pkt)" "get_payload pkt = Some (ip, v, idx)"
  shows "readable A (ipx_src ip)"
proof -
  have "from_wire A ip"
    using packet_decode_from_wire [OF assms(1,2)] get_payload_mem assms(3)
    by (fastforce simp: get_payload_def list_all_iff)
  with get_payload_mem assms(3) show ?thesis
    by (fastforce simp: get_payload_def ipx_src_def intro: readableI)
qed

section \<open>Steps\<close>

record 'o vrrp_sys =
  sy_router :: vrrp_router
  sy_queue :: "'o vrrp_event list"

text \<open>The values a change request may carry.\<close>

definition change_ok :: "int \<Rightarrow> vrrp_change \<Rightarrow> bool" where
  "change_ok version c \<longleftrightarrow>
     (case ch_priority c of None \<Rightarrow> True | Some p \<Rightarrow> 0 \<le> p \<and> p < 256) \<and>
     (case ch_advertisement_interval c of None \<Rightarrow> True
      | Some i \<Rightarrow> (let f = py_trunc (i * (if version = VRRP_VERSION_V2 then 1 else 100)) in
          1 \<le> f \<and> f < (if version = VRRP_VERSION_V2 then 256 else 4096)))"

text \<open>
  A timer that waits may fire at any time and posts its event; the monitor posts the packets it
  accepts, the manager requests; the event loop takes the first event of the queue.
\<close>

inductive vrrp_step :: "bool \<Rightarrow> addrconv \<Rightarrow> 'o ext \<Rightarrow> 'o vrrp_sys \<Rightarrow> 'o vrrp_sys \<Rightarrow> bool" for le A E where
  fire_master_down: "rt_master_down_timer r = Running i \<Longrightarrow> vrrp_step le A E \<lparr>sy_router = r, sy_queue = q\<rparr>
    \<lparr>sy_router = r\<lparr>rt_master_down_timer := Fired\<rparr>, sy_queue = q @ [EvMasterDown]\<rparr>"
| fire_adver: "rt_adver_timer r = Running i \<Longrightarrow> vrrp_step le A E \<lparr>sy_router = r, sy_queue = q\<rparr>
    \<lparr>sy_router = r\<lparr>rt_adver_timer := Fired\<rparr>, sy_queue = q @ [EvAdver]\<rparr>"
| fire_preempt_delay: "rt_preempt_delay_timer r = Running i \<Longrightarrow> vrrp_step le A E \<lparr>sy_router = r, sy_queue = q\<rparr>
    \<lparr>sy_router = r\<lparr>rt_preempt_delay_timer := Fired\<rparr>, sy_queue = q @ [EvPreemptDelay]\<rparr>"
| fire_stats_out: "rt_stats_out_timer r = Running i \<Longrightarrow> vrrp_step le A E \<lparr>sy_router = r, sy_queue = q\<rparr>
    \<lparr>sy_router = r\<lparr>rt_stats_out_timer := Fired\<rparr>, sy_queue = q @ [EvStatisticsOut]\<rparr>"
| receive: "packet_decode A E data = Some (Inr pkt) \<Longrightarrow>
    check_received_packet le A E (monitor_of (rt_config r) (rt_interface r)) pkt = Inr True \<Longrightarrow>
    vrrp_step le A E \<lparr>sy_router = r, sy_queue = q\<rparr> \<lparr>sy_router = r, sy_queue = q @ [EvReceived pkt]\<rparr>"
| shutdown: "vrrp_step le A E \<lparr>sy_router = r, sy_queue = q\<rparr> \<lparr>sy_router = r, sy_queue = q @ [EvShutdown]\<rparr>"
| change: "change_ok (cf_version (rt_config r)) c \<Longrightarrow>
    vrrp_step le A E \<lparr>sy_router = r, sy_queue = q\<rparr> \<lparr>sy_router = r, sy_queue = q @ [EvConfigChange c]\<rparr>"
| handle: "vrrp_step le A E \<lparr>sy_router = r, sy_queue = ev # q\<rparr>
    \<lparr>sy_router = fst (router_handle le A E ev r), sy_queue = q\<rparr>"

inductive_cases vrrp_stepE: "vrrp_step le A E s s'"

inductive vrrp_reach :: "bool \<Rightarrow> addrconv \<Rightarrow> 'o ext \<Rightarrow> 'o vrrp_sys \<Rightarrow> 'o vrrp_sys \<Rightarrow> bool" for le A E s where
  reach_start: "vrrp_reach le A E s s"
| reach_step: "vrrp_reach le A E s t \<Longrightarrow> vrrp_step le A E t u \<Longrightarrow> vrrp_reach le A E s u"

section \<open>The contract of a state machine\<close>

definition event_ok :: "addrconv \<Rightarrow> int \<Rightarrow> 'o vrrp_event \<Rightarrow> bool" where
  "event_ok A version ev \<longleftrightarrow>
     (case ev of EvReceived pkt \<Rightarrow>
        (case get_payload pkt of None \<Rightarrow> False
         | Some (ip, v, idx) \<Rightarrow> readable A (ipx_src ip) \<and> vr_version v = version)
      | EvConfigChange c \<Rightarrow> change_ok version c
      | _ \<Rightarrow> True)"

text \<open>Well-formed routers: the parameters a backup (and version 2) computes with are there.\<close>

definition good :: "bool \<Rightarrow> addrconv \<Rightarrow> int \<Rightarrow> vrrp_router \<Rightarrow> bool" where
  "good le A version r \<longleftrightarrow> router_ok le A r \<and> cf_version (rt_config r) = version \<and> rt_state r \<noteq> None \<and>
     (version = VRRP_VERSION_V2 \<or> rt_state r = Some Backup \<longrightarrow> rt_master_adver_interval r \<noteq> None)"

text \<open>
  Handling an event leaves the timer of the state running, unless it was the timer's own event that
  was not the one handled.
\<close>

definition armed :: "'o vrrp_event \<Rightarrow> vrrp_router \<Rightarrow> vrrp_router \<Rightarrow> bool" where
  "armed ev r r' \<longleftrightarrow>
     (rt_state r' = Some Master \<longrightarrow> (\<exists>i. rt_adver_timer r' = Running i) \<or>
        rt_state r = Some Master \<and> rt_adver_timer r' = rt_adver_timer r \<and> ev \<noteq> EvAdver) \<and>
     (rt_state r' = Some Backup \<longrightarrow> (\<exists>i. rt_master_down_timer r' = Running i) \<or>
        rt_state r = Some Backup \<and> rt_master_down_timer r' = rt_master_down_timer r \<and> ev \<noteq> EvMasterDown)"

definition waiting :: "'o vrrp_sys \<Rightarrow> bool" where
  "waiting s \<longleftrightarrow>
     (rt_state (sy_router s) = Some Master \<longrightarrow>
        (\<exists>i. rt_adver_timer (sy_router s) = Running i) \<or> EvAdver \<in> set (sy_queue s)) \<and>
     (rt_state (sy_router s) = Some Backup \<longrightarrow>
        (\<exists>i. rt_master_down_timer (sy_router s) = Running i) \<or> EvMasterDown \<in> set (sy_queue s))"

definition sys_inv :: "bool \<Rightarrow> addrconv \<Rightarrow> int \<Rightarrow> 'o vrrp_sys \<Rightarrow> bool" where
  "sys_inv le A version s \<longleftrightarrow> good le A version (sy_router s) \<and> waiting s \<and>
     list_all (event_ok A version) (sy_queue s)"

lemma good_fields:
  assumes "good le A version r" "rt_config r' = rt_config r" "rt_interface r' = rt_interface r"
    "rt_vrrp r' = rt_vrrp r" "rt_state r' = rt_state r" "rt_master_adver_interval r' = rt_master_adver_interval r"
  shows "good le A version r'"
  using assms(1) unfolding good_def router_ok_def cache_ok_def assms(2-6) .

lemma good_timers [simp]:
  "good le A version (r\<lparr>rt_master_down_timer := t\<rparr>) = good le A version r"
  "good le A version (r\<lparr>rt_adver_timer := t\<rparr>) = good le A version r"
  "good le A version (r\<lparr>rt_preempt_delay_timer := t\<rparr>) = good le A version r"
  "good le A version (r\<lparr>rt_stats_out_timer := t\<rparr>) = good le A version r"
  "good le A version (r\<lparr>rt_out := out\<rparr>) = good le A version r"
  by (cases "rt_vrrp r"; simp add: good_def router_ok_def cache_ok_def)+

lemma good_cf_version: "good le A version r \<Longrightarrow> cf_version (rt_config r) = version"
  by (simp add: good_def)

lemma change_good:
  assumes "good le A version r" "change_ok version c"
  shows "good le A version (r\<lparr>rt_config := apply_change c (rt_config r), rt_vrrp := None\<rparr>)"
proof -
  let ?cf = "rt_config r" and ?cf' = "apply_change c (rt_config r)"
  have ok: "config_ok A ?cf (rt_interface r)" and v: "cf_version ?cf = version"
    using assms(1) by (simp_all add: good_def router_ok_def)
  have same: "cf_version ?cf' = cf_version ?cf" "cf_vrid ?cf' = cf_vrid ?cf" "cf_is_ipv6 ?cf' = cf_is_ipv6 ?cf"
    "cf_ip_addresses ?cf' = cf_ip_addresses ?cf" by (simp_all add: apply_change_def)
  have p: "0 \<le> cf_priority ?cf'" "cf_priority ?cf' < 256"
    using assms(2) ok by (auto simp: apply_change_def change_ok_def config_ok_def or_default_def split: option.splits)
  have u: "adv_unit ?cf' = (if version = VRRP_VERSION_V2 then 1 else 100)" by (simp add: adv_unit_def same v)
  have "1 \<le> adv_field ?cf' \<and> adv_field ?cf' < (if version = VRRP_VERSION_V2 then 256 else 4096)"
  proof (cases "ch_advertisement_interval c")
    case None
    then have "adv_field ?cf' = adv_field ?cf" by (simp add: adv_field_def adv_unit_def apply_change_def or_default_def)
    with ok v show ?thesis by (auto simp: config_ok_def)
  next
    case (Some i)
    then have "adv_field ?cf' = py_trunc (i * (if version = VRRP_VERSION_V2 then 1 else 100))"
      unfolding adv_field_def u by (simp add: apply_change_def or_default_def)
    with Some assms(2) show ?thesis by (simp add: change_ok_def Let_def)
  qed
  then have "config_ok A ?cf' (rt_interface r)"
    using config_ok_cong [OF ok p _ _ same] v by simp
  with assms(1) same(1) show ?thesis by (simp add: good_def router_ok_def cache_ok_def)
qed

section \<open>The operations keep the contract\<close>

lemmas op_defs = pure_op_def start_with_def adver_start_def adver_cancel_def master_down_start_def
  master_down_cancel_def preempt_delay_start_def preempt_delay_cancel_def preempt_delay_ensure_def
  adv_interval_def state_change_def emit_def timer_start_def timer_cancel_def

lemma good_version: "good le A version r \<Longrightarrow> version = VRRP_VERSION_V2 \<or> version = VRRP_VERSION_V3"
  by (auto simp: good_def router_ok_def config_ok_def)

lemma goodD: "good le A version r \<Longrightarrow> router_ok le A r"
  by (simp add: good_def)

lemma master_adver_ok:
  fixes E :: "'o ext"
  assumes "addrconv_ok A" "ext_shrinks E" "good le A version r"
  shows "\<exists>r'. v2_master_adver le A E r = (r', None) \<and> good le A version r' \<and> rt_state r' = rt_state r \<and>
    rt_adver_timer r' = Running (cf_advertisement_interval (rt_config r)) \<and>
    (\<exists>data. rt_out r' = rt_out r @ [TransmitRequest data] \<and> announces A E (rt_config r) (rt_interface r) data)"
proof -
  obtain data v st where s: "send_advertisement le A E False r =
      (r\<lparr>rt_vrrp := Some v, rt_statistics := st, rt_out := rt_out r @ [TransmitRequest data]\<rparr>, None)"
    "announces A E (rt_config r) (rt_interface r) data"
    "cached_header le A (adv_header (rt_config r)) (if_primary_ip_address (rt_interface r)) v"
    using send_advertisement_ok [OF assms(1,2) goodD [OF assms(3)]] by blast
  then show ?thesis using assms(3)
    by (simp add: v2_master_adver_def op_defs good_def router_ok_def cache_ok_def)
qed

lemma backup_master_down_ok:
  fixes E :: "'o ext"
  assumes "addrconv_ok A" "ext_shrinks E" "good le A version r"
  shows "\<exists>r'. v2_backup_master_down le A E r = (r', None) \<and> good le A version r' \<and> rt_state r' = Some Master \<and>
    rt_adver_timer r' = Running (cf_advertisement_interval (rt_config r)) \<and>
    rt_preempt_delay_timer r' = Idle \<and> rt_config r' = rt_config r \<and>
    (\<exists>data. rt_out r' = rt_out r @ [TransmitRequest data, StateChanged (rt_state r) Master] \<and>
      announces A E (rt_config r) (rt_interface r) data)"
proof -
  obtain data v st where s: "send_advertisement le A E False r =
      (r\<lparr>rt_vrrp := Some v, rt_statistics := st, rt_out := rt_out r @ [TransmitRequest data]\<rparr>, None)"
    "announces A E (rt_config r) (rt_interface r) data"
    "cached_header le A (adv_header (rt_config r)) (if_primary_ip_address (rt_interface r)) v"
    using send_advertisement_ok [OF assms(1,2) goodD [OF assms(3)]] by blast
  then show ?thesis using assms(3)
    by (simp add: v2_backup_master_down_def op_defs good_def router_ok_def cache_ok_def)
qed

lemma release_ok:
  fixes E :: "'o ext"
  assumes "addrconv_ok A" "ext_shrinks E" "good le A version r"
  shows "\<exists>r'. run_ops [pure_op adver_cancel, send_advertisement le A E True, pure_op (state_change Initialize)] r =
      (r', None) \<and> good le A version r' \<and> rt_state r' = Some Initialize \<and>
    (\<exists>data. rt_out r' = rt_out r @ [TransmitRequest data, StateChanged (rt_state r) Initialize] \<and>
      announces A E ((rt_config r)\<lparr>cf_priority := 0\<rparr>) (rt_interface r) data)"
proof -
  let ?r = "adver_cancel r"
  have g: "good le A version ?r" by (rule good_fields [OF assms(3)]) (simp_all add: adver_cancel_def)
  obtain data v st where s: "send_advertisement le A E True ?r =
      (?r\<lparr>rt_vrrp := Some v, rt_statistics := st, rt_out := rt_out ?r @ [TransmitRequest data]\<rparr>, None)"
    "announces A E ((rt_config ?r)\<lparr>cf_priority := 0\<rparr>) (rt_interface ?r) data"
    "cached_header le A (adv_header (rt_config ?r)) (if_primary_ip_address (rt_interface ?r)) v"
    using send_release_ok [OF assms(1,2) goodD [OF g]] by blast
  then show ?thesis using assms(3)
    by (simp add: op_defs good_def router_ok_def cache_ok_def)
qed

lemma intervals_ok:
  assumes "good le A version r" "rt_master_adver_interval r \<noteq> None"
  shows "is_ok (down_interval r)" "is_ok (skew_interval r)"
  using assms good_version [OF assms(1)]
  by (auto simp: good_def down_interval_def skew_interval_def master_down_interval_def skew_time_def)

lemma max_adver_ok:
  assumes "good le A version r" "vr_version v = version"
  shows "is_ok (max_adver_int_in_sec v)"
  using assms(2) good_version [OF assms(1)]
  by (auto simp: max_adver_int_in_sec_def max_adver_int_to_sec_def sec_in_max_adver_int_unit_def)

lemma loses_to_ok:
  assumes "good le A version r" "readable A (ipx_src ip)"
  shows "\<exists>b. loses_to A r ip v = Inr b"
proof -
  have "advert_addrs A (cf_is_ipv6 (rt_config r)) (if_primary_ip_address (rt_interface r))"
    using assms(1) by (simp add: good_def router_ok_def config_ok_def)
  then have "readable A (if_primary_ip_address (rt_interface r))"
    by (intro readableI) (auto simp: advert_addrs_def elided_def canon_ip4_def is_ok_iff split: if_splits sum.splits)
  with assms(2) show ?thesis
    by (auto simp: loses_to_def ip_address_lt_def readable_def is_ok_iff Let_def)
qed

section \<open>The contract and its consequences\<close>

definition kept :: "bool \<Rightarrow> addrconv \<Rightarrow> int \<Rightarrow> 'o vrrp_event \<Rightarrow> vrrp_router \<Rightarrow> vrrp_router \<times> py_error option \<Rightarrow> bool" where
  "kept le A version ev r res \<longleftrightarrow> snd res = None \<and> good le A version (fst res) \<and> armed ev r (fst res)"

locale vrrp_states =
  fixes version :: int
    and impl :: "bool \<Rightarrow> addrconv \<Rightarrow> 'o ext \<Rightarrow> 'o vrrp_event \<Rightarrow> vrrp_op"
  assumes dispatch: "cf_version (rt_config r) = version \<Longrightarrow> state_impl le A E ev r = impl le A E ev r"
    and keeps: "addrconv_ok A \<Longrightarrow> ext_shrinks E \<Longrightarrow> good le A version r \<Longrightarrow> event_ok A version ev \<Longrightarrow>
      kept le A version ev r (impl le A E ev r)"
begin

lemma handle_keeps:
  fixes E :: "'o ext" and ev :: "'o vrrp_event"
  assumes AE: "addrconv_ok A" "ext_shrinks E" and g: "good le A version r" and ev: "event_ok A version ev"
  shows "kept le A version ev r (router_handle le A E ev r)"
proof -
  have v: "cf_version (rt_config r) = version" using g by (simp add: good_def)
  have base: "kept le A version ev r (state_impl le A E ev r)" using keeps [OF AE g ev] dispatch [OF v] by simp
  show ?thesis
  proof (cases ev)
    case (EvConfigChange c)
    let ?r = "r\<lparr>rt_config := apply_change c (rt_config r), rt_vrrp := None\<rparr>"
    have g': "good le A version ?r" using change_good [OF g] ev EvConfigChange by (simp add: event_ok_def)
    then have "cf_version (rt_config ?r) = version" by (simp add: good_def)
    from keeps [OF AE g' ev] dispatch [OF this, of le A E ev] EvConfigChange
    show ?thesis by (simp add: router_handle_def config_change_handler_def kept_def armed_def)
  next
    case EvStatisticsOut
    have "good le A version (fst (stats_out_start r))"
      by (rule good_fields [OF g]) (simp_all add: stats_out_start_def)
    with EvStatisticsOut show ?thesis
      by (simp add: router_handle_def kept_def armed_def stats_out_start_def)
  qed (use base in \<open>simp_all add: router_handle_def\<close>)
qed

lemma step_keeps:
  fixes E :: "'o ext" and s s' :: "'o vrrp_sys"
  assumes AE: "addrconv_ok A" "ext_shrinks E" and st: "vrrp_step le A E s s'" and inv: "sys_inv le A version s"
  shows "sys_inv le A version s'"
  using st
proof cases
  case (handle r ev q)
  have g: "good le A version r" and ev: "event_ok A version ev" and q: "list_all (event_ok A version) q"
    and w: "waiting s" using inv handle by (simp_all add: sys_inv_def)
  have k: "good le A version (fst (router_handle le A E ev r))" "armed ev r (fst (router_handle le A E ev r))"
    using handle_keeps [OF AE g ev] by (simp_all add: kept_def)
  have "waiting s'"
    using k(2) w unfolding handle waiting_def armed_def by auto
  with k(1) q handle show ?thesis by (simp add: sys_inv_def)
next
  case (receive data pkt r q)
  have v: "cf_version (rt_config r) = version" using inv receive by (simp add: sys_inv_def good_def)
  obtain ip v' idx where p: "get_payload pkt = Some (ip, v', idx)" "vr_version v' = version"
    using receive(4) v
    by (auto simp: check_received_packet_def monitor_of_def Let_def res_bind_eq_Inr split: if_splits option.splits)
  with payload_readable [OF AE(1) receive(3) p(1)] have "event_ok A version (EvReceived pkt)"
    by (simp add: event_ok_def)
  with inv receive show ?thesis by (simp add: sys_inv_def waiting_def)
qed (use inv in \<open>auto simp: sys_inv_def waiting_def event_ok_def dest: good_cf_version\<close>)

lemma reach_keeps:
  fixes E :: "'o ext" and s t :: "'o vrrp_sys"
  assumes AE: "addrconv_ok A" "ext_shrinks E" and inv: "sys_inv le A version s"
  shows "vrrp_reach le A E s t \<Longrightarrow> sys_inv le A version t"
  by (induction rule: vrrp_reach.induct) (use inv step_keeps [OF AE] in auto)

end


section \<open>Both versions keep it\<close>

lemma kept_refl:
  assumes "good le A version r" "rt_state r = Some Master \<Longrightarrow> ev \<noteq> EvAdver" "rt_state r = Some Backup \<Longrightarrow> ev \<noteq> EvMasterDown"
  shows "kept le A version ev r (r, None)"
  using assms by (auto simp: kept_def armed_def)

lemma kept_master_adver:
  fixes E :: "'o ext"
  assumes "addrconv_ok A" "ext_shrinks E" "good le A version r" "rt_state r = Some Master"
  shows "kept le A version ev r (v2_master_adver le A E r)"
    "kept le A version ev r (run_ops [pure_op adver_cancel, v2_master_adver le A E] r)"
proof -
  show "kept le A version ev r (v2_master_adver le A E r)"
    using master_adver_ok [OF assms(1-3)] assms(4) by (auto simp: kept_def armed_def)
  have "good le A version (adver_cancel r)" "rt_state (adver_cancel r) = Some Master"
    using assms(3,4) by (simp_all add: op_defs)
  from master_adver_ok [OF assms(1,2) this(1)] this(2)
  show "kept le A version ev r (run_ops [pure_op adver_cancel, v2_master_adver le A E] r)"
    by (auto simp: kept_def armed_def pure_op_def)
qed

lemma kept_backup_master_down:
  fixes E :: "'o ext"
  assumes "addrconv_ok A" "ext_shrinks E" "good le A version r"
  shows "kept le A version ev r (v2_backup_master_down le A E r)"
  using backup_master_down_ok [OF assms] by (auto simp: kept_def armed_def)

lemma kept_release:
  fixes E :: "'o ext"
  assumes "addrconv_ok A" "ext_shrinks E" "good le A version r"
  shows "kept le A version ev r
    (run_ops [pure_op adver_cancel, send_advertisement le A E True, pure_op (state_change Initialize)] r)"
  using release_ok [OF assms] by (auto simp: kept_def armed_def)

lemma kept_received:
  assumes g: "good le A version r" and ev: "event_ok A version (EvReceived pkt)"
    and f: "\<And>ip v. readable A (ipx_src ip) \<Longrightarrow> vr_version v = version \<Longrightarrow> kept le A version (EvReceived pkt) r (f ip v r)"
  shows "kept le A version (EvReceived pkt) r (received pkt f r)"
  using ev f by (auto simp: received_def event_ok_def split: option.splits)

lemma kept_down_start:
  assumes "good le A version r" "rt_master_adver_interval r \<noteq> None" "rt_state r = Some Backup"
  shows "kept le A version ev r0 (start_with master_down_start down_interval r)"
    "kept le A version ev r0 (start_with master_down_start skew_interval r)"
  using assms intervals_ok [OF assms(1,2)]
  by (auto simp: kept_def armed_def op_defs is_ok_iff split: sum.splits)

lemma res_eta [simp]:
  "(case x of (r, None) \<Rightarrow> (r, None) | (r, Some e) \<Rightarrow> (r, Some e)) = (x :: 'a \<times> py_error option)"
  by (simp split: prod.split option.split)

text \<open>Changes that only touch timers of a backup.\<close>

lemma kept_config_backup:
  fixes E :: "'o ext"
  assumes A: "addrconv_ok A" "ext_shrinks E" and g: "good le A version r" and st: "rt_state r = Some Backup"
  shows "kept le A version (EvConfigChange c) r
    (run_ops
      [\<lambda>r. if ch_priority c \<noteq> None \<and> address_owner (rt_config r)
           then run_ops [pure_op master_down_cancel, v2_backup_master_down le A E] r else (r, None),
       \<lambda>r. if ch_preempt_mode c \<noteq> None \<or> ch_preempt_delay c \<noteq> None
           then pure_op preempt_delay_cancel r else (r, None)] r)"
proof (cases "ch_priority c \<noteq> None \<and> address_owner (rt_config r)")
  case True
  have g': "good le A version (master_down_cancel r)" using g by (simp add: op_defs)
  obtain r' where r': "v2_backup_master_down le A E (master_down_cancel r) = (r', None)" "good le A version r'"
    "rt_state r' = Some Master" "\<exists>i. rt_adver_timer r' = Running i"
    using backup_master_down_ok [OF A g'] by blast
  have "kept le A version (EvConfigChange c) r (if ch_preempt_mode c \<noteq> None \<or> ch_preempt_delay c \<noteq> None
           then pure_op preempt_delay_cancel r' else (r', None))"
    using r'(2-4) by (simp add: kept_def armed_def op_defs)
  then show ?thesis using True r'(1) by (auto simp: pure_op_def split: if_splits)
next
  case False
  with g st show ?thesis by (auto simp: kept_def armed_def op_defs)
qed


lemma demoted_good:
  assumes "good le A version r" "rt_master_adver_interval r \<noteq> None"
  shows "good le A version (state_change Backup (adver_cancel r))"
    "rt_master_adver_interval (state_change Backup (adver_cancel r)) \<noteq> None"
    "rt_state (state_change Backup (adver_cancel r)) = Some Backup"
  using assms by (cases "rt_vrrp r"; simp add: good_def router_ok_def cache_ok_def op_defs)+

lemma set_interval_ok:
  assumes g: "good le A version r" and v: "vr_version v = version"
  shows "\<exists>r'. set_master_adver_interval v r = (r', None) \<and> good le A version r' \<and>
    rt_master_adver_interval r' \<noteq> None \<and> rt_state r' = rt_state r \<and> rt_adver_timer r' = rt_adver_timer r \<and>
    rt_master_down_timer r' = rt_master_down_timer r"
  using max_adver_ok [OF g v] g
  by (cases "rt_vrrp r") (auto simp: set_master_adver_interval_def is_ok_iff good_def router_ok_def cache_ok_def)

lemma kept_v2_master_received:
  fixes E :: "'o ext"
  assumes A: "addrconv_ok A" "ext_shrinks E" and g: "good le A VRRP_VERSION_V2 r" and st: "rt_state r = Some Master"
    and rd: "readable A (ipx_src ip)"
  shows "kept le A VRRP_VERSION_V2 (EvReceived pkt) r (v2_master_received le A E ip v r)"
proof -
  have i: "rt_master_adver_interval r \<noteq> None" using g by (simp add: good_def)
  obtain b where b: "loses_to A r ip v = Inr b" using loses_to_ok [OF g rd] by blast
  have d: "kept le A VRRP_VERSION_V2 (EvReceived pkt) r
     (run_ops [pure_op adver_cancel, pure_op (state_change Backup), start_with master_down_start down_interval] r)"
    using kept_down_start(1) [OF demoted_good [OF g i]] by (simp add: pure_op_def)
  show ?thesis
    using d kept_master_adver(1) [OF A g st, of "EvReceived pkt"] kept_refl [OF g, of "EvReceived pkt"] b
    by (simp add: v2_master_received_def v2_master_adver_def)
qed

lemma kept_v3_master_received:
  fixes E :: "'o ext"
  assumes A: "addrconv_ok A" "ext_shrinks E" and g: "good le A VRRP_VERSION_V3 r" and st: "rt_state r = Some Master"
    and rd: "readable A (ipx_src ip)" and v: "vr_version v = VRRP_VERSION_V3"
  shows "kept le A VRRP_VERSION_V3 (EvReceived pkt) r (v3_master_received le A E ip v r)"
proof -
  have g': "good le A VRRP_VERSION_V3 (adver_cancel r)" using g by (simp add: op_defs)
  obtain r' where r': "set_master_adver_interval v (adver_cancel r) = (r', None)" "good le A VRRP_VERSION_V3 r'"
    "rt_master_adver_interval r' \<noteq> None" "rt_adver_timer r' = Idle"
    using set_interval_ok [OF g' v] by (auto simp: op_defs)
  obtain b where b: "loses_to A r ip v = Inr b" using loses_to_ok [OF g rd] by blast
  have c: "adver_cancel r' = r'" using r'(4) by (simp add: op_defs)
  have d: "kept le A VRRP_VERSION_V3 (EvReceived pkt) r
     (run_ops [pure_op adver_cancel, set_master_adver_interval v, pure_op (state_change Backup),
        start_with master_down_start down_interval] r)"
    using kept_down_start(1) [OF demoted_good [OF r'(2,3)]] r'(1) unfolding c
    by (simp add: pure_op_def)
  show ?thesis
    using d kept_master_adver(1) [OF A g st, of "EvReceived pkt"] kept_refl [OF g, of "EvReceived pkt"] b
    by (simp add: v3_master_received_def v2_master_adver_def)
qed

lemma kept_backup_ops:
  assumes g: "good le A version r" and st: "rt_state r = Some Backup"
  shows "kept le A version ev r (start_with master_down_start skew_interval r)"
    "kept le A version ev r (run_ops [pure_op preempt_delay_cancel, start_with master_down_start down_interval] r)"
    "kept le A version ev r (run_ops [pure_op preempt_delay_ensure, start_with master_down_start down_interval] r)"
proof -
  have i: "rt_master_adver_interval r \<noteq> None" using g st by (simp add: good_def)
  show "kept le A version ev r (start_with master_down_start skew_interval r)"
    by (rule kept_down_start(2) [OF g i st])
  have "kept le A version ev r (start_with master_down_start down_interval (f r))"
    if "f = preempt_delay_cancel \<or> f = preempt_delay_ensure" for f
    using that g i st by (intro kept_down_start(1)) (auto simp: op_defs)
  then show "kept le A version ev r (run_ops [pure_op preempt_delay_cancel, start_with master_down_start down_interval] r)"
    "kept le A version ev r (run_ops [pure_op preempt_delay_ensure, start_with master_down_start down_interval] r)"
    by (simp_all add: pure_op_def)
qed

lemma kept_backup_received:
  assumes g: "good le A version r" and st: "rt_state r = Some Backup" and v: "vr_version v = version"
  shows "kept le A version (EvReceived pkt) r (v2_backup_received ip v r)"
    "kept le A version (EvReceived pkt) r (v3_backup_received ip v r)"
proof -
  note k = kept_backup_ops [OF g st, of "EvReceived pkt"] kept_refl [OF g, of "EvReceived pkt"]
  show "kept le A version (EvReceived pkt) r (v2_backup_received ip v r)"
    using k by (simp add: v2_backup_received_def Let_def del: run_ops.simps)
  obtain r' where r': "set_master_adver_interval v r = (r', None)" "good le A version r'"
    "rt_master_adver_interval r' \<noteq> None" "rt_state r' = Some Backup"
    using set_interval_ok [OF g v] st by auto
  have "kept le A version (EvReceived pkt) r
      (run_ops [set_master_adver_interval v, start_with master_down_start down_interval] r)"
    using kept_down_start(1) [OF r'(2-4)] r'(1) by simp
  with k show "kept le A version (EvReceived pkt) r (v3_backup_received ip v r)"
    by (simp add: v3_backup_received_def Let_def del: run_ops.simps)
qed

lemma kept_shutdown_backup:
  assumes "good le A version r"
  shows "kept le A version EvShutdown r
      (run_ops [pure_op master_down_cancel, pure_op preempt_delay_cancel, pure_op (state_change Initialize)] r)"
    "kept le A version EvShutdown r
      (run_ops [pure_op preempt_delay_cancel, pure_op master_down_cancel, pure_op (state_change Initialize)] r)"
  using assms by (cases "rt_vrrp r"; simp add: kept_def armed_def op_defs good_def router_ok_def cache_ok_def)+

lemma v3_same: "v3_master_adver = v2_master_adver" "v3_backup_master_down = v2_backup_master_down"
  by (simp_all add: fun_eq_iff v3_master_adver_def v2_master_adver_def v3_backup_master_down_def v2_backup_master_down_def)

lemma v2_keeps:
  fixes E :: "'o ext"
  assumes A: "addrconv_ok A" "ext_shrinks E" and g: "good le A VRRP_VERSION_V2 r" and ev: "event_ok A VRRP_VERSION_V2 ev"
  shows "kept le A VRRP_VERSION_V2 ev r (v2_state_impl le A E ev r)"
proof -
  obtain st where st: "rt_state r = Some st" using g by (auto simp: good_def)
  show ?thesis
  proof (cases st)
    case Initialize
    with st kept_refl [OF g, of ev] show ?thesis by (simp add: v2_state_impl_def v2_state_initialize_def)
  next
    case Master
    note st = st [unfolded Master]
    have "kept le A VRRP_VERSION_V2 ev r (v2_state_master le A E ev r)"
      by (cases ev) (use ev in \<open>auto simp: v2_state_master_def st simp del: run_ops.simps intro!: kept_refl
        kept_master_adver kept_received kept_v2_master_received kept_release A g\<close>)
    then show ?thesis by (simp add: v2_state_impl_def st)
  next
    case Backup
    note st = st [unfolded Backup]
    have "kept le A VRRP_VERSION_V2 ev r (v2_state_backup le A E ev r)"
      by (cases ev) (use ev in \<open>auto simp: v2_state_backup_def st simp del: run_ops.simps intro!: kept_refl
        kept_backup_master_down kept_received kept_backup_received kept_shutdown_backup kept_config_backup [unfolded not_None_eq] A g\<close>)
    then show ?thesis by (simp add: v2_state_impl_def st)
  qed
qed

lemma v3_keeps:
  fixes E :: "'o ext"
  assumes A: "addrconv_ok A" "ext_shrinks E" and g: "good le A VRRP_VERSION_V3 r" and ev: "event_ok A VRRP_VERSION_V3 ev"
  shows "kept le A VRRP_VERSION_V3 ev r (v3_state_impl le A E ev r)"
proof -
  obtain st where st: "rt_state r = Some st" using g by (auto simp: good_def)
  show ?thesis
  proof (cases st)
    case Initialize
    with st kept_refl [OF g, of ev] show ?thesis by (simp add: v3_state_impl_def v3_state_initialize_def)
  next
    case Master
    note st = st [unfolded Master]
    have "kept le A VRRP_VERSION_V3 ev r (v3_state_master le A E ev r)"
      unfolding v3_state_master_def v3_same
      by (cases ev) (use ev in \<open>auto simp: st simp del: run_ops.simps intro!: kept_refl
        kept_master_adver kept_received kept_v3_master_received kept_release A g\<close>)
    then show ?thesis by (simp add: v3_state_impl_def st)
  next
    case Backup
    note st = st [unfolded Backup]
    have "kept le A VRRP_VERSION_V3 ev r (v3_state_backup le A E ev r)"
      unfolding v3_state_backup_def v3_same
      by (cases ev) (use ev in \<open>auto simp: st simp del: run_ops.simps intro!: kept_refl
        kept_backup_master_down kept_received kept_backup_received kept_shutdown_backup kept_config_backup [unfolded not_None_eq] A g\<close>)
    then show ?thesis by (simp add: v3_state_impl_def st)
  qed
qed

interpretation v2: vrrp_states VRRP_VERSION_V2 v2_state_impl
  by unfold_locales (simp_all add: state_impl_def v2_keeps)

interpretation v3: vrrp_states VRRP_VERSION_V3 v3_state_impl
  by unfold_locales (simp_all add: state_impl_def v3_keeps)


section \<open>Starting\<close>

lemma started:
  fixes E :: "'o ext"
  assumes A: "addrconv_ok A" "ext_shrinks E" and ok: "config_ok A cf ifc"
  shows "\<exists>r. router_start le A E (router_init ifc cf st) = (r, None) \<and>
    sys_inv le A (cf_version cf) \<lparr>sy_router = r, sy_queue = [] :: 'o vrrp_event list\<rparr> \<and>
    rt_config r = cf \<and> rt_interface r = ifc"
proof -
  let ?i = "cf_advertisement_interval cf"
  have ver: "cf_version cf = VRRP_VERSION_V2 \<or> cf_version cf = VRRP_VERSION_V3"
    using ok by (auto simp: config_ok_def)
  define r0 where "r0 m = (router_init ifc cf st)\<lparr>rt_master_adver_interval := m, rt_state := Some Initialize,
      rt_out := [StateChanged None Initialize]\<rparr>" for m :: "rat option"
  have r0: "router_ok le A (r0 m)" "rt_config (r0 m) = cf" "rt_interface (r0 m) = ifc" "rt_vrrp (r0 m) = None"
    "rt_master_adver_interval (r0 m) = m" "rt_state (r0 m) = Some Initialize" for m
    using ok by (simp_all add: r0_def router_ok_def cache_ok_def router_init_def)
  have down: "is_ok (master_down_interval cf (Some ?i))"
    using ver by (auto simp: master_down_interval_def skew_time_def)
  have master: "\<exists>r. run_ops [send_advertisement le A E False, pure_op (state_change Master),
      start_with adver_start adv_interval] (r0 m) = (r, None) \<and> rt_config r = cf \<and> rt_interface r = ifc \<and>
      rt_state r = Some Master \<and> router_ok le A r \<and> rt_master_adver_interval r = m \<and> rt_adver_timer r = Running ?i" for m
  proof -
    obtain data v st' where "send_advertisement le A E False (r0 m) =
        ((r0 m)\<lparr>rt_vrrp := Some v, rt_statistics := st', rt_out := rt_out (r0 m) @ [TransmitRequest data]\<rparr>, None)"
      "cached_header le A (adv_header (rt_config (r0 m))) (if_primary_ip_address (rt_interface (r0 m))) v"
      using send_advertisement_ok [OF A r0(1)] by blast
    with r0 [of m] show ?thesis by (simp add: op_defs router_ok_def cache_ok_def)
  qed
  from ver show ?thesis
  proof
    assume v: "cf_version cf = VRRP_VERSION_V2"
    have s: "router_start le A E (router_init ifc cf st) =
       (if address_owner cf then run_ops [send_advertisement le A E False, pure_op (state_change Master),
           start_with adver_start adv_interval] (r0 (Some ?i))
        else run_ops [pure_op (state_change Backup), start_with master_down_start down_interval] (r0 (Some ?i)))"
      by (simp add: router_start_def router_init_def v v2_start_def r0_def op_defs)
    show ?thesis
    proof (cases "address_owner cf")
      case True
      with master [of "Some ?i"] v show ?thesis unfolding s
        by (auto simp: sys_inv_def good_def waiting_def simp del: run_ops.simps)
    next
      case False
      with v r0(1,2,3,4,5) [of "Some ?i"] down show ?thesis unfolding s
        by (auto simp: is_ok_iff sys_inv_def good_def waiting_def op_defs down_interval_def router_ok_def cache_ok_def)
    qed
  next
    assume v: "cf_version cf = VRRP_VERSION_V3"
    show ?thesis
    proof (cases "address_owner cf \<or> cf_admin_master cf")
      case True
      from master [of None] obtain r where r: "run_ops [send_advertisement le A E False, pure_op (state_change Master),
           start_with adver_start adv_interval] (r0 None) = (r, None)" "rt_config r = cf" "rt_interface r = ifc"
         "rt_state r = Some Master" "router_ok le A r" "rt_adver_timer r = Running ?i" by auto
      have c: "rt_config (r0 None) = cf"
        "state_change Initialize (router_init ifc cf st) = r0 None"
        by (simp_all add: r0_def op_defs router_init_def)
      have "v3_start le A E (router_init ifc cf st) = run_ops [\<lambda>r. run_ops [send_advertisement le A E False,
           pure_op (state_change Master), start_with adver_start adv_interval] r, stats_out_start] (r0 None)"
        using True by (simp add: v3_start_def pure_op_def [of "state_change Initialize"] c)
      then have "router_start le A E (router_init ifc cf st) = stats_out_start r"
        using r(1) v by (simp add: router_start_def router_init_def)
      with r v show ?thesis
        by (cases "rt_vrrp r") (simp_all add: stats_out_start_def sys_inv_def good_def waiting_def router_ok_def cache_ok_def)
    next
      case False
      obtain d where d: "master_down_interval cf (Some ?i) = Inr d" using down by (auto simp: is_ok_iff)
      from False v r0(1) [of "Some ?i"] show ?thesis
        by (simp add: router_start_def router_init_def v3_start_def op_defs down_interval_def d stats_out_start_def
            sys_inv_def good_def waiting_def r0_def router_ok_def cache_ok_def)
    qed
  qed
qed

lemma reachable_inv:
  fixes E :: "'o ext"
  assumes A: "addrconv_ok A" "ext_shrinks E" and inv: "sys_inv le A version s" and r: "vrrp_reach le A E s t"
  shows "sys_inv le A version t"
proof -
  have "good le A version (sy_router s)" using inv by (simp add: sys_inv_def)
  from good_version [OF this] show ?thesis
    using v2.reach_keeps [OF A _ r] v3.reach_keeps [OF A _ r] inv by auto
qed

lemma handled:
  fixes E :: "'o ext"
  assumes A: "addrconv_ok A" "ext_shrinks E" and g: "good le A version r" and ev: "event_ok A version ev"
  shows "kept le A version ev r (router_handle le A E ev r)"
  using good_version [OF g] v2.handle_keeps [OF A] v3.handle_keeps [OF A] g ev by auto

end
