(* ===== verification/Vrrp_Props.thy ===== *)
theory Vrrp_Props
  imports Vrrp_Steps Packet_Props
begin

text \<open>
  The properties of VRRP: what a master sends is accepted by the other routers of the group, the
  election leaves one master, no router gets stuck, and the timing of a takeover.
\<close>

lemmas dispatch_defs = router_handle_def state_impl_def v2_state_impl_def v3_state_impl_def v2_state_master_def
  v3_state_master_def v2_state_backup_def v3_state_backup_def received_def

section \<open>Two routers on a wire\<close>

text \<open>The monitor of a router takes a frame: what the router makes of it.\<close>

definition take_frame :: "bool \<Rightarrow> addrconv \<Rightarrow> 'o ext \<Rightarrow> bytes \<Rightarrow> vrrp_router \<Rightarrow> (vrrp_router \<times> py_error option) option" where
  "take_frame le A E data r =
     (case send_vrrp_packet_received le A E (monitor_of (rt_config r) (rt_interface r)) data (rt_statistics r) of
        None \<Rightarrow> None
      | Some (Inl e) \<Rightarrow> Some (r, Some e)
      | Some (Inr (None, st)) \<Rightarrow> Some (r\<lparr>rt_statistics := st\<rparr>, None)
      | Some (Inr (Some pkt, st)) \<Rightarrow> Some (router_handle le A E (EvReceived pkt) (r\<lparr>rt_statistics := st\<rparr>)))"

text \<open>Router \<open>r\<close> after it has taken the advertisement of \<open>s\<close>.\<close>

definition hears :: "bool \<Rightarrow> addrconv \<Rightarrow> 'o ext \<Rightarrow> vrrp_router \<Rightarrow> vrrp_router \<Rightarrow> vrrp_router option" where
  "hears le A E s r =
     (case last (rt_out (fst (send_advertisement le A E False s))) of
        TransmitRequest data \<Rightarrow> map_option fst (take_frame le A E data r)
      | StateChanged old new \<Rightarrow> None)"

definition outranks :: "addrconv \<Rightarrow> vrrp_router \<Rightarrow> vrrp_router \<Rightarrow> bool" where
  "outranks A s r \<longleftrightarrow> cf_priority (rt_config r) < cf_priority (rt_config s) \<or>
     cf_priority (rt_config r) = cf_priority (rt_config s) \<and>
     ip_address_lt A (if_primary_ip_address (rt_interface r)) (if_primary_ip_address (rt_interface s)) = Inr True"

lemma good_statistics: "good le A version (r\<lparr>rt_statistics := st\<rparr>) = good le A version r"
  by (cases "rt_vrrp r"; simp add: good_def router_ok_def cache_ok_def)

lemma good_version_eq: "good le A version r \<Longrightarrow> cf_version (rt_config r) = version"
  by (simp add: good_def)

lemma config_primary:
  assumes "good le A version r"
  shows "readable A (if_primary_ip_address (rt_interface r))"
proof -
  have "advert_addrs A (cf_is_ipv6 (rt_config r)) (if_primary_ip_address (rt_interface r))"
    using assms by (simp add: good_def router_ok_def config_ok_def)
  then show ?thesis
    by (intro readableI) (auto simp: advert_addrs_def elided_def canon_ip4_def is_ok_iff split: if_splits sum.splits)
qed

lemma take_announced:
  fixes E :: "'o ext"
  assumes A: "addrconv_ok A" and g: "good le A version r" and an: "announces A E cf ifc data"
    and mon: "monitor_of cf ifc = monitor_of (rt_config r) (rt_interface r)"
  shows "\<exists>pkt ip v idx st. take_frame le A E data r = Some (router_handle le A E (EvReceived pkt) (r\<lparr>rt_statistics := st\<rparr>)) \<and>
    get_payload pkt = Some (ip, v, idx) \<and> ipx_src ip = if_primary_ip_address ifc \<and> vr_priority v = cf_priority cf \<and>
    vr_version v = version \<and> vr_max_adver_int v = adv_field cf \<and> event_ok A version (EvReceived pkt)"
proof -
  obtain pkt ip v idx where p: "packet_decode A E data = Some (Inr pkt)" "get_payload pkt = Some (ip, v, idx)"
    "ipx_src ip = if_primary_ip_address ifc" "vr_priority v = cf_priority cf" "vr_version v = cf_version cf"
    "vr_max_adver_int v = adv_field cf" "check_received_packet le A E (monitor_of cf ifc) pkt = Inr True"
    using an unfolding announces_def by blast
  have v: "vr_version v = version" using p(5) mon good_version_eq [OF g] by (simp add: monitor_of_def)
  have "event_ok A version (EvReceived pkt)"
    using payload_readable [OF A p(1,2)] v p(2) by (simp add: event_ok_def)
  moreover obtain st where "send_vrrp_packet_received le A E (monitor_of (rt_config r) (rt_interface r)) data (rt_statistics r) =
      Some (Inr (Some pkt, st))"
    using p(1,2,7) mon by (simp add: send_vrrp_packet_received_def Let_def)
  ultimately show ?thesis using p v by (auto simp: take_frame_def)
qed

lemma sent_announces:
  fixes E :: "'o ext"
  assumes "addrconv_ok A" "ext_shrinks E" "good le A version r"
  shows "\<exists>data. last (rt_out (fst (send_advertisement le A E False r))) = TransmitRequest data \<and>
    announces A E (rt_config r) (rt_interface r) data"
  using send_advertisement_ok [OF assms(1,2) goodD [OF assms(3)]] by fastforce

lemma master_hears:
  fixes E :: "'o ext"
  assumes A: "addrconv_ok A" "ext_shrinks E" and s: "good le A version s" and r: "good le A version r"
    and st: "rt_state r = Some Master" and pos: "cf_priority (rt_config s) \<noteq> 0"
    and mon: "monitor_of (rt_config s) (rt_interface s) = monitor_of (rt_config r) (rt_interface r)"
  shows "\<exists>r'. hears le A E s r = Some r' \<and> rt_state r' = Some (if outranks A s r then Backup else Master)"
proof -
  obtain data where d: "last (rt_out (fst (send_advertisement le A E False s))) = TransmitRequest data"
    "announces A E (rt_config s) (rt_interface s) data"
    using sent_announces [OF A s] by blast
  obtain pkt ip v idx st' where p: "take_frame le A E data r = Some (router_handle le A E (EvReceived pkt) (r\<lparr>rt_statistics := st'\<rparr>))"
    "get_payload pkt = Some (ip, v, idx)" "ipx_src ip = if_primary_ip_address (rt_interface s)"
    "vr_priority v = cf_priority (rt_config s)" "vr_version v = version"
    using take_announced [OF A(1) r d(2) mon] by blast
  let ?r = "r\<lparr>rt_statistics := st'\<rparr>"
  have g: "good le A version ?r" using r by (simp add: good_statistics)
  have "readable A (ipx_src ip)" using config_primary [OF s] p(3) by simp
  from loses_to_ok [OF g this] obtain b where b: "loses_to A ?r ip v = Inr b" by blast
  have bo: "b \<longleftrightarrow> outranks A s r"
    using b p(3,4) by (auto simp: loses_to_def outranks_def split: if_splits)
  have h: "hears le A E s r = Some (fst (router_handle le A E (EvReceived pkt) ?r))" by (simp add: hears_def d(1) p(1))
  have bk: "rt_state (fst (run_ops [pure_op adver_cancel, pure_op (state_change Backup),
      start_with master_down_start down_interval] ?r)) = Some Backup"
    by (simp add: op_defs split: sum.split)
  have ms: "rt_state (fst (run_ops [pure_op adver_cancel, set_master_adver_interval v, pure_op (state_change Backup),
      start_with master_down_start down_interval] ?r)) = Some Backup"
    if "version = VRRP_VERSION_V3"
  proof -
    have "good le A version (adver_cancel ?r)" using g by (simp add: op_defs)
    from set_interval_ok [OF this p(5)] show ?thesis
      by (auto simp: pure_op_def) (simp add: op_defs split: sum.split)
  qed
  have v: "cf_version (rt_config r) = version" by (rule good_version_eq [OF r])
  have "rt_state (fst (router_handle le A E (EvReceived pkt) ?r)) = Some (if outranks A s r then Backup else Master)"
    using good_version [OF r] pos p(2,4) b bo bk ms st v
    by (auto simp: dispatch_defs v2_master_received_def v3_master_received_def simp del: run_ops.simps)
  with h show ?thesis by blast
qed

lemma bytes_lt_total: "xs \<noteq> ys \<Longrightarrow> bytes_lt xs ys = (\<not> bytes_lt ys xs)"
proof (induction xs ys rule: bytes_lt.induct)
  case (1 xs)
  then show ?case by (cases xs) simp_all
qed auto

lemma outranks_total:
  assumes "good le A version s" "good le A version r"
    "vrrp_ip_text_to_bin A (if_primary_ip_address (rt_interface s)) \<noteq> vrrp_ip_text_to_bin A (if_primary_ip_address (rt_interface r))"
  shows "outranks A r s = (\<not> outranks A s r)"
proof -
  obtain b1 b2 where b: "vrrp_ip_text_to_bin A (if_primary_ip_address (rt_interface s)) = Inr b1"
    "vrrp_ip_text_to_bin A (if_primary_ip_address (rt_interface r)) = Inr b2"
    using config_primary [OF assms(1)] config_primary [OF assms(2)] by (auto simp: readable_def is_ok_iff)
  with assms(3) bytes_lt_total [of b1 b2] show ?thesis
    by (auto simp: outranks_def ip_address_lt_def)
qed


section \<open>The properties\<close>

text \<open>C4: what a router sends is accepted by a monitor of the same virtual router: the frame of an
  advertisement decodes to a packet with the sender's address, priority and interval, and the monitor
  hands it to its router.\<close>

theorem vrrp_advert_accepted:
  fixes E :: "'o ext"
  assumes "addrconv_ok A" "ext_shrinks E" "config_ok A cf ifc"
  shows "\<exists>r data pkt ip v idx st'.
    send_advertisement le A E False (router_init ifc cf st) = (r, None) \<and> rt_out r = [TransmitRequest data] \<and>
    send_vrrp_packet_received le' A E (monitor_of cf ifc) data st0 = Some (Inr (Some pkt, st')) \<and>
    rx_vrrp_packets st' = rx_vrrp_packets st0 + 1 \<and> get_payload pkt = Some (ip, v, idx) \<and>
    ipx_src ip = if_primary_ip_address ifc \<and> vr_priority v = cf_priority cf \<and> vr_max_adver_int v = adv_field cf"
proof -
  let ?r = "router_init ifc cf st"
  have "router_ok le A ?r" using assms(3) by (simp add: router_ok_def cache_ok_def router_init_def)
  from send_advertisement_ok [OF assms(1,2) this] obtain data v0 st1 where s:
    "send_advertisement le A E False ?r = (?r\<lparr>rt_vrrp := Some v0, rt_statistics := st1, rt_out := [TransmitRequest data]\<rparr>, None)"
    "announces A E cf ifc data" by (auto simp: router_init_def)
  from s(2) obtain pkt ip v idx where p: "packet_decode A E data = Some (Inr pkt)" "get_payload pkt = Some (ip, v, idx)"
    "ipx_src ip = if_primary_ip_address ifc" "vr_priority v = cf_priority cf" "vr_max_adver_int v = adv_field cf"
    "check_received_packet le' A E (monitor_of cf ifc) pkt = Inr True" unfolding announces_def by blast
  obtain st' where "send_vrrp_packet_received le' A E (monitor_of cf ifc) data st0 = Some (Inr (Some pkt, st'))"
    "rx_vrrp_packets st' = rx_vrrp_packets st0 + 1"
    using p(1,2,6) by (cases "vr_priority v = 0") (simp_all add: send_vrrp_packet_received_def Let_def)
  with s(1) p show ?thesis by (auto intro!: exI)
qed

text \<open>C3: in every state a started router can reach, whatever packets, timeouts and requests come, no
  handler raises, a master has its advertisement timer waiting or that timer's event queued, and a
  backup the same for its master-down timer: no router gets stuck.\<close>

theorem vrrp_never_stuck:
  fixes E :: "'o ext"
  assumes "addrconv_ok A" "ext_shrinks E" "config_ok A cf ifc"
    and "router_start le A E (router_init ifc cf st) = (r, x)"
    and "vrrp_reach le A E \<lparr>sy_router = r, sy_queue = []\<rparr> s"
  shows "x = None \<and> waiting s \<and> list_all (\<lambda>ev. snd (router_handle le A E ev (sy_router s)) = None) (sy_queue s)"
proof -
  obtain r' where r': "router_start le A E (router_init ifc cf st) = (r', None)"
    "sys_inv le A (cf_version cf) \<lparr>sy_router = r', sy_queue = [] :: 'o vrrp_event list\<rparr>"
    using started [OF assms(1-3)] by blast
  then have x: "x = None" "r' = r" using assms(4) by simp_all
  have i: "sys_inv le A (cf_version cf) s"
    using reachable_inv [OF assms(1,2) r'(2) [unfolded x(2)] assms(5)] .
  then have g: "good le A (cf_version cf) (sy_router s)" and q: "list_all (event_ok A (cf_version cf)) (sy_queue s)"
    by (simp_all add: sys_inv_def)
  have "list_all (\<lambda>ev. snd (router_handle le A E ev (sy_router s)) = None) (sy_queue s)"
    using q handled [OF assms(1,2) g] by (auto simp: list_all_iff kept_def)
  with x i show ?thesis by (simp add: sys_inv_def)
qed

text \<open>C2: when two masters of a virtual router hear each other, exactly one stays master: the one with
  the higher priority, or of the same priority and the larger address.\<close>

theorem vrrp_election:
  fixes E :: "'o ext"
  assumes "addrconv_ok A" "ext_shrinks E" "good le A version s" "good le A version r"
    and "rt_state s = Some Master" "rt_state r = Some Master"
    and "cf_priority (rt_config s) \<noteq> 0" "cf_priority (rt_config r) \<noteq> 0"
    and "monitor_of (rt_config s) (rt_interface s) = monitor_of (rt_config r) (rt_interface r)"
    and "vrrp_ip_text_to_bin A (if_primary_ip_address (rt_interface s)) \<noteq>
      vrrp_ip_text_to_bin A (if_primary_ip_address (rt_interface r))"
  shows "\<exists>s' r'. hears le A E s r = Some r' \<and> hears le A E r s = Some s' \<and>
    (rt_state s', rt_state r') =
      (if outranks A s r then (Some Master, Some Backup) else (Some Backup, Some Master))"
proof -
  obtain r' where r': "hears le A E s r = Some r'" "rt_state r' = Some (if outranks A s r then Backup else Master)"
    using master_hears [OF assms(1-4,6,7,9)] by blast
  obtain s' where s': "hears le A E r s = Some s'" "rt_state s' = Some (if outranks A r s then Backup else Master)"
    using master_hears [OF assms(1,2,4,3,5,8) assms(9) [symmetric]] by blast
  show ?thesis using r' s' outranks_total [OF assms(3,4,10)] by simp
qed


text \<open>C35: of two backups the one with the higher priority times out first, between three advertisement
  intervals and three plus its skew.\<close>

theorem vrrp_master_down_bounds:
  assumes "cf_version cf = VRRP_VERSION_V2 \<or> cf_version cf = VRRP_VERSION_V3"
    and "0 < a" "0 \<le> cf_priority cf" "cf_priority cf < p" "p < 256"
  shows "\<exists>i j. master_down_interval cf (Some a) = Inr i \<and> master_down_interval (cf\<lparr>cf_priority := p\<rparr>) (Some a) = Inr j \<and>
    3 * a < j \<and> j < i \<and> i \<le> 3 * a + (if cf_version cf = VRRP_VERSION_V2 then 1 else a)"
proof -
  let ?k = "if cf_version cf = VRRP_VERSION_V2 then 1 else a"
  have k: "0 < ?k" using assms(2) by simp
  have q: "(0 :: rat) \<le> of_int (cf_priority cf)" "of_int (cf_priority cf) < (of_int p :: rat)" "of_int p < (256 :: rat)"
    using assms(3-5) by simp_all
  have m: "master_down_interval (cf\<lparr>cf_priority := n\<rparr>) (Some a) = Inr (3 * a + ((256 - of_int n) * ?k) / 256)" for n
    using assms(1) by (auto simp: master_down_interval_def skew_time_def)
  have "(256 - of_int p) * ?k < (256 - of_int (cf_priority cf)) * ?k" using k q by (simp add: mult_strict_right_mono)
  moreover have "0 < (256 - of_int p) * ?k" using k q by simp
  moreover have "(256 - of_int (cf_priority cf)) * ?k \<le> 256 * ?k" using k q by (intro mult_right_mono) simp_all
  ultimately show ?thesis using m [of "cf_priority cf"] m [of p] assms(3) by simp
qed

text \<open>The two versions differ when a backup that waits to preempt hears a master of a higher priority
  than its own: version 2 cancels the delay, version 3 leaves it running, and when it is over the
  router becomes master beside the better one.\<close>

lemma vrrp_preemption_delay:
  fixes E :: "'o ext"
  assumes "addrconv_ok A" "ext_shrinks E" "good le A version r" "rt_state r = Some Backup"
    and "rt_preempt_delay_timer r = Running d" "event_ok A version (EvReceived pkt)"
    and "get_payload pkt = Some (ip, v, idx)" "cf_priority (rt_config r) < vr_priority v"
  shows "\<exists>r'. router_handle le A E (EvReceived pkt) r = (r', None) \<and> rt_state r' = Some Backup \<and>
    (if version = VRRP_VERSION_V2 then rt_preempt_delay_timer r' = Idle
     else rt_preempt_delay_timer r' = Running d \<and>
       (\<exists>r''. router_handle le A E EvPreemptDelay (r'\<lparr>rt_preempt_delay_timer := Fired\<rparr>) = (r'', None) \<and>
         rt_state r'' = Some Master))"
proof -
  obtain r' where r': "router_handle le A E (EvReceived pkt) r = (r', None)" "good le A version r'"
    using handled [OF assms(1-3,6)] by (cases "router_handle le A E (EvReceived pkt) r") (simp add: kept_def)
  have v: "cf_version (rt_config r) = version" "vr_version v = version"
    using good_version_eq [OF assms(3)] assms(6,7) by (simp_all add: event_ok_def)
  have pr: "vr_priority v \<noteq> 0"
    using assms(8) goodD [OF assms(3)] by (simp add: router_ok_def config_ok_def)
  have w: "rt_state r' = Some Backup" "rt_preempt_delay_timer r' = (if version = VRRP_VERSION_V2 then Idle else Running d)"
    using r'(1) v assms(4,5,7,8) pr good_version [OF assms(3)]
    by (auto simp: dispatch_defs v2_backup_received_def v3_backup_received_def op_defs
        set_master_adver_interval_def split: sum.splits)
  let ?t = "r'\<lparr>rt_preempt_delay_timer := Fired\<rparr>"
  have g: "good le A version ?t" using r'(2) by simp
  obtain r'' where r'': "v2_backup_master_down le A E ?t = (r'', None)" "rt_state r'' = Some Master"
    using backup_master_down_ok [OF assms(1,2) g] by blast
  have "router_handle le A E EvPreemptDelay ?t = (r'', None)"
    using good_version [OF assms(3)] good_version_eq [OF r'(2)] w(1) r''(1)
    by (auto simp: dispatch_defs v3_same)
  with r'(1) w r''(2) show ?thesis by simp
qed


section \<open>A group of routers\<close>

definition group_config :: "int \<Rightarrow> int \<Rightarrow> vrrp_config" where
  "group_config version priority =
     \<lparr>cf_version = version, cf_vrid = 7, cf_admin_master = False, cf_priority = priority,
      cf_ip_addresses = [''10.0.0.1''], cf_advertisement_interval = 1, cf_preempt_mode = True, cf_preempt_delay = 5,
      cf_accept_mode = False, cf_is_ipv6 = False, cf_statistics_interval = 30\<rparr>"

definition group_interface :: "string \<Rightarrow> vrrp_interface" where
  "group_interface ip = \<lparr>if_primary_ip_address = ip, if_vlan_id = None\<rparr>"

definition no_statistics :: vrrp_statistics where
  "no_statistics = \<lparr>tx_vrrp_packets = 0, rx_vrrp_packets = 0, rx_vrrp_zero_prio_packets = 0,
     tx_vrrp_zero_prio_packets = 0, rx_vrrp_invalid_packets = 0, rx_vrrp_bad_auth = 0,
     idle_to_master_transitions = 0, idle_to_backup_transitions = 0, backup_to_master_transitions = 0,
     master_to_backup_transitions = 0\<rparr>"

definition group_router :: "int \<Rightarrow> int \<Rightarrow> string \<Rightarrow> vrrp_state \<Rightarrow> vrrp_router" where
  "group_router version priority ip st = (router_init (group_interface ip) (group_config version priority) no_statistics)
     \<lparr>rt_state := Some st, rt_master_adver_interval := Some 1\<rparr>"

lemma group_addresses:
  "canon_ip4 unix_addrconv ''10.0.0.1''" "canon_ip4 unix_addrconv ''10.0.0.2''"
  "canon_ip4 unix_addrconv VRRP_IPV4_DST_ADDRESS"
proof -
  have "VRRP_IPV4_DST_ADDRESS = ip4_to_text unix_addrconv [224, 0, 0, 18]" by code_simp
  moreover have "canon_ip4 unix_addrconv (ip4_to_text unix_addrconv [224, 0, 0, 18])" by (rule canon_text) simp
  ultimately show "canon_ip4 unix_addrconv VRRP_IPV4_DST_ADDRESS" by simp
qed (rule sample_macs)+

lemma group_macs: "advert_macs unix_addrconv (adv_header (group_config version priority))"
proof -
  have "is_ok (mac_to_bin unix_addrconv VRRP_IPV4_DST_MAC_ADDRESS)"
    "is_ok (mac_to_bin unix_addrconv (vrrp_ipv4_src_mac_address 7))" by code_simp+
  then show ?thesis by (simp add: advert_macs_def advert_eth_def adv_header_def group_config_def)
qed

lemma group_config_ok:
  assumes "version = VRRP_VERSION_V2 \<or> version = VRRP_VERSION_V3" "0 \<le> p" "p < 256"
    "ip = ''10.0.0.1'' \<or> ip = ''10.0.0.2''"
  shows "config_ok unix_addrconv (group_config version p) (group_interface ip)"
proof -
  have "adv_field (group_config version p) = (if version = VRRP_VERSION_V2 then 1 else 100)"
    by (simp add: adv_field_def adv_unit_def group_config_def py_trunc_def)
  moreover have "advert_addrs unix_addrconv False ip" using assms(4) group_addresses by (auto simp: advert_addrs_def)
  ultimately show ?thesis using assms(1-3) group_addresses group_macs [of version p]
    by (auto simp: config_ok_def group_config_def group_interface_def vlan_id_ok_def)
qed

lemma group_router_good:
  assumes "version = VRRP_VERSION_V2 \<or> version = VRRP_VERSION_V3" "0 \<le> p" "p < 256"
    "ip = ''10.0.0.1'' \<or> ip = ''10.0.0.2''"
  shows "good le unix_addrconv version (group_router version p ip st)"
  using group_config_ok [OF assms]
  by (simp add: good_def group_router_def router_init_def router_ok_def cache_ok_def) (simp add: group_config_def)

lemma group_monitor: "monitor_of (rt_config (group_router version p ip st)) (rt_interface (group_router version p ip st)) =
    \<lparr>mon_vlan_id = None, mon_version = version, mon_vrid = 7, mon_is_ipv6 = False\<rparr>"
  by (simp add: monitor_of_def group_router_def router_init_def group_config_def group_interface_def)

lemma vrrp_advert_accepted_witness:
  "\<exists>r data pkt ip v idx st'.
    send_advertisement False unix_addrconv sample_ext False
      (router_init (group_interface ''10.0.0.1'') (group_config 3 100) no_statistics) = (r, None) \<and>
    rt_out r = [TransmitRequest data] \<and>
    send_vrrp_packet_received True unix_addrconv sample_ext (monitor_of (group_config 3 100) (group_interface ''10.0.0.1''))
      data no_statistics = Some (Inr (Some pkt, st')) \<and>
    rx_vrrp_packets st' = 1 \<and> get_payload pkt = Some (ip, v, idx) \<and>
    ipx_src ip = ''10.0.0.1'' \<and> vr_priority v = 100 \<and> vr_max_adver_int v = 100"
proof -
  have ok: "config_ok unix_addrconv (group_config 3 100) (group_interface ''10.0.0.1'')"
    by (rule group_config_ok) (simp_all add: VRRP_VERSION_V3_def)
  have f: "rx_vrrp_packets no_statistics + 1 = 1" "if_primary_ip_address (group_interface ''10.0.0.1'') = ''10.0.0.1''"
    "cf_priority (group_config 3 100) = 100" "adv_field (group_config 3 100) = 100"
    by (simp_all add: no_statistics_def group_interface_def group_config_def adv_field_def adv_unit_def py_trunc_def
        VRRP_VERSION_V2_def)
  show ?thesis
    using vrrp_advert_accepted [OF unix_addrconv_ok sample_ext_shrinks ok, of False no_statistics True no_statistics]
    unfolding f .
qed

lemma vrrp_never_stuck_witness:
  "\<exists>r. router_start False unix_addrconv sample_ext
      (router_init (group_interface ''10.0.0.1'') (group_config 2 255) no_statistics) = (r, None) \<and>
    waiting \<lparr>sy_router = r, sy_queue = [EvShutdown :: unit vrrp_event]\<rparr>"
proof -
  have ok: "config_ok unix_addrconv (group_config 2 255) (group_interface ''10.0.0.1'')"
    by (rule group_config_ok) (simp_all add: VRRP_VERSION_V2_def)
  obtain r x where s: "router_start False unix_addrconv sample_ext
      (router_init (group_interface ''10.0.0.1'') (group_config 2 255) no_statistics) = (r, x)" by fastforce
  have "vrrp_reach False unix_addrconv sample_ext \<lparr>sy_router = r, sy_queue = []\<rparr>
      \<lparr>sy_router = r, sy_queue = [] @ [EvShutdown]\<rparr>"
    by (rule vrrp_reach.reach_step [OF vrrp_reach.reach_start vrrp_step.shutdown])
  from vrrp_never_stuck [OF unix_addrconv_ok sample_ext_shrinks ok s this] s show ?thesis by simp
qed

lemma vrrp_election_witness:
  "\<exists>s' r'. hears False unix_addrconv sample_ext (group_router 3 200 ''10.0.0.1'' Master) (group_router 3 100 ''10.0.0.2'' Master) = Some r' \<and>
    hears False unix_addrconv sample_ext (group_router 3 100 ''10.0.0.2'' Master) (group_router 3 200 ''10.0.0.1'' Master) = Some s' \<and>
    rt_state s' = Some Master \<and> rt_state r' = Some Backup"
proof -
  let ?s = "group_router 3 200 ''10.0.0.1'' Master" and ?r = "group_router 3 100 ''10.0.0.2'' Master"
  have g: "good False unix_addrconv 3 ?s" "good False unix_addrconv 3 ?r"
    by (rule group_router_good; simp add: VRRP_VERSION_V3_def)+
  have f: "rt_state ?s = Some Master" "rt_state ?r = Some Master" "cf_priority (rt_config ?s) = 200" "cf_priority (rt_config ?r) = 100"
    "if_primary_ip_address (rt_interface ?s) = ''10.0.0.1''" "if_primary_ip_address (rt_interface ?r) = ''10.0.0.2''"
    by (simp_all add: group_router_def router_init_def group_config_def group_interface_def)
  have "vrrp_ip_text_to_bin unix_addrconv ''10.0.0.1'' \<noteq> vrrp_ip_text_to_bin unix_addrconv ''10.0.0.2''" by code_simp
  from vrrp_election [OF unix_addrconv_ok sample_ext_shrinks g f(1,2), unfolded f(3-6) group_monitor, OF _ _ refl this]
  show ?thesis by (simp add: outranks_def f)
qed


lemma vrrp_master_down_bounds_witness:
  "\<exists>i j. master_down_interval (group_config 3 100) (Some 1) = Inr i \<and>
    master_down_interval ((group_config 3 100)\<lparr>cf_priority := 200\<rparr>) (Some 1) = Inr j \<and> 3 < j \<and> j < i \<and> i \<le> 4"
proof -
  have "cf_version (group_config 3 100) = VRRP_VERSION_V3" "cf_version (group_config 3 100) \<noteq> VRRP_VERSION_V2"
    "cf_priority (group_config 3 100) = 100"
    by (simp_all add: group_config_def VRRP_VERSION_V3_def VRRP_VERSION_V2_def)
  then show ?thesis using vrrp_master_down_bounds [of "group_config 3 100" 1 200] by simp
qed

lemma vrrp_preemption_delay_witness:
  "\<exists>pkt r' r''. router_handle False unix_addrconv sample_ext (EvReceived pkt)
      ((group_router 3 100 ''10.0.0.2'' Backup)\<lparr>rt_preempt_delay_timer := Running 5\<rparr>) = (r', None) \<and>
    router_handle False unix_addrconv sample_ext EvPreemptDelay (r'\<lparr>rt_preempt_delay_timer := Fired\<rparr>) = (r'', None) \<and>
    rt_state r'' = Some Master"
proof -
  let ?r = "(group_router 3 100 ''10.0.0.2'' Backup)\<lparr>rt_preempt_delay_timer := Running 5\<rparr>"
  let ?v = "adv_header (group_config 3 200)"
  let ?pkt = "\<lparr>pk_data = [], pk_protocols = [PIpv4 (vrrp_ip4_header 0 ''10.0.0.1''), PVrrp ?v]\<rparr> :: unit packet"
  have g: "good False unix_addrconv 3 ?r"
    using group_router_good [of 3 100 "''10.0.0.2''"] by (simp add: VRRP_VERSION_V3_def)
  have f: "rt_state ?r = Some Backup" "rt_preempt_delay_timer ?r = Running 5" "cf_priority (rt_config ?r) = 100"
    by (simp_all add: group_router_def router_init_def group_config_def)
  have p: "get_payload ?pkt = Some (PIpv4 (vrrp_ip4_header 0 ''10.0.0.1''), ?v, 1)" by (simp add: get_payload_def)
  have "canon_ip4 unix_addrconv ''10.0.0.1''" by (rule group_addresses)
  then have "readable unix_addrconv ''10.0.0.1''"
    by (intro readableI) (auto simp: canon_ip4_def is_ok_iff split: sum.splits)
  then have ev: "event_ok unix_addrconv 3 (EvReceived ?pkt)"
    unfolding event_ok_def vrrp_event.case p
    by (simp add: ipx_src_def vrrp_ip4_header_def adv_header_def group_config_def)
  have pr: "cf_priority (rt_config ?r) < vr_priority ?v" unfolding f by (simp add: adv_header_def group_config_def)
  from vrrp_preemption_delay [OF unix_addrconv_ok sample_ext_shrinks g f(1,2) ev p pr]
  show ?thesis by (auto simp: VRRP_VERSION_V2_def)
qed

end
