(* ===== verification/Bgp_Path.thy ===== *)
theory Bgp_Path
  imports Addr_Text
begin

text \<open>
  Paths and their comparison: \<^verbatim>\<open>Path\<close> of \<^verbatim>\<open>services/protocols/bgp/info_base/base.py\<close> and the best-path
  functions of \<^verbatim>\<open>services/protocols/bgp/processor.py\<close>. A path is the fields the comparisons read; its
  number stands for the identity of the object.
\<close>

section \<open>Paths\<close>

text \<open>A segment of the AS path: a sequence (a Python list) or a set.\<close>

datatype as_segment = AsSequence "int list" | AsSet "int list"

text \<open>Where a path comes from: configured locally (\<^verbatim>\<open>None\<close>), a table of another VRF, or a peer.\<close>

datatype bgp_source = NC | TableSource string | FromPeer nat

record bgp_path =
  pt_id :: nat
  pt_rf :: "int \<times> int"
  pt_source :: bgp_source
  pt_nlri :: string
  pt_plen :: int
  pt_version_num :: int
  pt_local_pref :: "int option"
  pt_as_path :: "as_segment list option"
  pt_origin :: "int option"
  pt_med :: "int option"
  pt_originator_id :: "string option"
  pt_cluster_list :: "string list option"
  pt_communities :: "int list option"
  pt_rts :: "string list option"
  pt_nexthop :: string
  pt_is_withdraw :: bool
  pt_med_by_target :: bool

text \<open>
  What the comparisons read of a peer: its AS, and the identifiers in the OPEN messages it sent and got,
  if there is a session.
\<close>

record bgp_peer =
  bp_remote_as :: int
  bp_version_num :: int
  bp_open_ids :: "(string \<times> string) option"

type_synonym bgp_peers = "nat \<Rightarrow> bgp_peer"

definition source_asn :: "bgp_peers \<Rightarrow> int \<Rightarrow> bgp_source \<Rightarrow> int res" where
  "source_asn P local_asn s =
     (case s of NC \<Rightarrow> Inr local_asn | TableSource t \<Rightarrow> Inl AttributeError | FromPeer n \<Rightarrow> Inr (bp_remote_as (P n)))"

fun as_path_len :: "as_segment list \<Rightarrow> int" where
  "as_path_len [] = 0"
| "as_path_len (AsSequence as # segs) = int (length as) + as_path_len segs"
| "as_path_len (AsSet as # segs) = 1 + as_path_len segs"

text \<open>A clone for withdrawal has no attributes. The number of a clone is not used.\<close>

definition withdraw_clone :: "bgp_path \<Rightarrow> bgp_path" where
  "withdraw_clone p = p\<lparr>pt_local_pref := None, pt_as_path := None, pt_origin := None, pt_med := None,
     pt_originator_id := None, pt_cluster_list := None, pt_communities := None, pt_rts := None, pt_is_withdraw := True, pt_med_by_target := False\<rparr>"

definition DEFAULT_RT :: string where "DEFAULT_RT = ''0:0''"

definition path_has_rts_in :: "string set \<Rightarrow> bgp_path \<Rightarrow> bool" where
  "path_has_rts_in interested p \<longleftrightarrow>
     list_ex (\<lambda>rt. rt \<in> interested) ((case pt_rts p of None \<Rightarrow> [] | Some rts \<Rightarrow> rts) @ [DEFAULT_RT])"

section \<open>The comparisons\<close>

text \<open>\<^verbatim>\<open>_compare_by_version\<close> is not called by anything.\<close>

definition compare_by_version :: "bgp_path \<Rightarrow> bgp_path \<Rightarrow> bgp_path option" where
  "compare_by_version p q =
     (if pt_source p = pt_source q
      then (if pt_version_num p > pt_version_num q then Some p else Some q) else None)"

definition cmp_by_reachable_nh :: "bgp_path \<Rightarrow> bgp_path \<Rightarrow> bgp_path option res" where
  "cmp_by_reachable_nh p q = Inr None"

definition cmp_by_highest_wg :: "bgp_path \<Rightarrow> bgp_path \<Rightarrow> bgp_path option res" where
  "cmp_by_highest_wg p q = Inr None"

definition cmp_by_local_pref :: "bgp_path \<Rightarrow> bgp_path \<Rightarrow> bgp_path option res" where
  "cmp_by_local_pref p q =
     (case (pt_local_pref p, pt_local_pref q) of
        (Some lp1, Some lp2) \<Rightarrow> Inr (if lp1 > lp2 then Some p else if lp2 > lp1 then Some q else None)
      | _ \<Rightarrow> Inr None)"

definition cmp_by_local_origin :: "bgp_path \<Rightarrow> bgp_path \<Rightarrow> bgp_path option res" where
  "cmp_by_local_origin p q =
     Inr (if pt_source p = pt_source q then None
       else if pt_source p = NC then Some p
       else if pt_source q = NC then Some q else None)"

definition cmp_by_aspath :: "bgp_path \<Rightarrow> bgp_path \<Rightarrow> bgp_path option res" where
  "cmp_by_aspath p q =
     (case (pt_as_path p, pt_as_path q) of
        (Some a1, Some a2) \<Rightarrow>
          (let l1 = as_path_len a1; l2 = as_path_len a2
           in Inr (if l1 > l2 then Some q else if l2 > l1 then Some p else None))
      | _ \<Rightarrow> Inl AssertionError)"

definition origin_pref :: "int \<Rightarrow> int" where
  "origin_pref v = (if v = 0 then 3 else if v = 1 then 2 else if v = 2 then 1 else 0)"

definition cmp_by_origin :: "bgp_path \<Rightarrow> bgp_path \<Rightarrow> bgp_path option res" where
  "cmp_by_origin p q =
     (case (pt_origin p, pt_origin q) of
        (Some v1, Some v2) \<Rightarrow>
          (if v1 = v2 then Inr None
           else (let o1 = origin_pref v1; o2 = origin_pref v2
             in Inr (if o1 = o2 then None else if o1 > o2 then Some p else Some q)))
      | _ \<Rightarrow> Inl AssertionError)"

definition path_med :: "bgp_path \<Rightarrow> int" where
  "path_med p = (case pt_med p of None \<Rightarrow> 0 | Some m \<Rightarrow> m)"

definition cmp_by_med :: "bgp_path \<Rightarrow> bgp_path \<Rightarrow> bgp_path option res" where
  "cmp_by_med p q =
     Inr (if path_med p = path_med q then None else if path_med p < path_med q then Some p else Some q)"

definition cmp_by_asn :: "bgp_peers \<Rightarrow> int \<Rightarrow> bgp_path \<Rightarrow> bgp_path \<Rightarrow> bgp_path option res" where
  "cmp_by_asn P local_asn p q =
     res_bind (source_asn P local_asn (pt_source p)) (\<lambda>asn1.
     res_bind (source_asn P local_asn (pt_source q)) (\<lambda>asn2.
     Inr (if asn1 = local_asn \<and> asn2 \<noteq> local_asn then Some q
       else if asn2 = local_asn \<and> asn1 \<noteq> local_asn then Some p else None)))"

definition cmp_by_igp_cost :: "bgp_path \<Rightarrow> bgp_path \<Rightarrow> bgp_path option res" where
  "cmp_by_igp_cost p q = Inr None"

definition open_ids :: "bgp_peers \<Rightarrow> bgp_source \<Rightarrow> (string \<times> string) res" where
  "open_ids P s =
     (case s of FromPeer n \<Rightarrow> (case bp_open_ids (P n) of None \<Rightarrow> Inl AttributeError | Some ids \<Rightarrow> Inr ids)
      | _ \<Rightarrow> Inl AttributeError)"

definition path_router_id :: "bgp_peers \<Rightarrow> string \<Rightarrow> bgp_path \<Rightarrow> string res" where
  "path_router_id P local_bgp_id p =
     (if pt_source p = NC then Inr local_bgp_id
      else (case pt_originator_id p of Some i \<Rightarrow> Inr i
        | None \<Rightarrow> res_bind (open_ids P (pt_source p)) (\<lambda>(sent, recv). Inr recv)))"

text \<open>\<^verbatim>\<open>from_inet_ptoi\<close>: an address that is no number gives \<^verbatim>\<open>None\<close>, and \<^verbatim>\<open>None\<close> has no order.\<close>

definition from_inet_ptoi :: "addrconv \<Rightarrow> string \<Rightarrow> int option res" where
  "from_inet_ptoi A t =
     (case ipv4_to_int A t of Inr i \<Rightarrow> Inr (Some i) | Inl ValueError \<Rightarrow> Inr None | Inl e \<Rightarrow> Inl e)"

definition opt_int_lt :: "int option \<Rightarrow> int option \<Rightarrow> bool res" where
  "opt_int_lt i j = (case (i, j) of (Some a, Some b) \<Rightarrow> Inr (a < b) | _ \<Rightarrow> Inl TypeError)"

definition cmp_by_router_id :: "addrconv \<Rightarrow> bgp_peers \<Rightarrow> int \<Rightarrow> bgp_path \<Rightarrow> bgp_path \<Rightarrow> bgp_path option res" where
  "cmp_by_router_id A P local_asn p q =
     (let s1 = pt_source p; s2 = pt_source q in
      if s1 = NC \<and> s2 = NC then Inr None
      else
        res_bind (source_asn P local_asn s1) (\<lambda>asn1.
        res_bind (source_asn P local_asn s2) (\<lambda>asn2.
        let ebgp1 = asn1 \<noteq> local_asn; ebgp2 = asn2 \<noteq> local_asn in
        if ebgp1 \<and> ebgp2 then Inr None
        else if ebgp1 \<noteq> ebgp2 then Inl ValueError
        else
          res_bind (open_ids P (if s1 \<noteq> NC then s1 else s2)) (\<lambda>(local_bgp_id, _).
          res_bind (path_router_id P local_bgp_id p) (\<lambda>id1.
          res_bind (path_router_id P local_bgp_id q) (\<lambda>id2.
          if id1 = id2 then Inr None
          else
            res_bind (from_inet_ptoi A id1) (\<lambda>i1. res_bind (from_inet_ptoi A id2) (\<lambda>i2.
            res_bind (opt_int_lt i1 i2) (\<lambda>lt. Inr (Some (if lt then p else q)))))))))))"

definition cluster_list_len :: "bgp_path \<Rightarrow> int" where
  "cluster_list_len p = (case pt_cluster_list p of None \<Rightarrow> 0 | Some ids \<Rightarrow> int (length ids))"

definition cmp_by_cluster_list :: "bgp_path \<Rightarrow> bgp_path \<Rightarrow> bgp_path option res" where
  "cmp_by_cluster_list p q =
     Inr (if cluster_list_len p < cluster_list_len q then Some p
       else if cluster_list_len p > cluster_list_len q then Some q else None)"

datatype bpr = BPR_UNKNOWN | BPR_ONLY_PATH | BPR_REACHABLE_NEXT_HOP | BPR_HIGHEST_WEIGHT | BPR_LOCAL_PREF
  | BPR_LOCAL_ORIGIN | BPR_ASPATH | BPR_ORIGIN | BPR_MED | BPR_ASN | BPR_IGP_COST | BPR_ROUTER_ID | BPR_CLUSTER_LIST

text \<open>The steps one after the other, until one decides.\<close>

fun decide :: "(bgp_path option res \<times> bpr) list \<Rightarrow> (bgp_path option \<times> bpr) res" where
  "decide [] = Inr (None, BPR_UNKNOWN)"
| "decide ((m, reason) # ms) = res_bind m (\<lambda>best. case best of None \<Rightarrow> decide ms | Some p \<Rightarrow> Inr (Some p, reason))"

definition compute_best_path :: "addrconv \<Rightarrow> bgp_peers \<Rightarrow> int \<Rightarrow> bgp_path \<Rightarrow> bgp_path \<Rightarrow> (bgp_path option \<times> bpr) res" where
  "compute_best_path A P local_asn p q =
     decide
       [(cmp_by_reachable_nh p q, BPR_REACHABLE_NEXT_HOP),
        (cmp_by_highest_wg p q, BPR_HIGHEST_WEIGHT),
        (cmp_by_local_pref p q, BPR_LOCAL_PREF),
        (cmp_by_local_origin p q, BPR_LOCAL_ORIGIN),
        (cmp_by_aspath p q, BPR_ASPATH),
        (cmp_by_origin p q, BPR_ORIGIN),
        (cmp_by_med p q, BPR_MED),
        (cmp_by_asn P local_asn p q, BPR_ASN),
        (cmp_by_igp_cost p q, BPR_IGP_COST),
        (cmp_by_router_id A P local_asn p q, BPR_ROUTER_ID),
        (cmp_by_cluster_list p q, BPR_CLUSTER_LIST)]"

text \<open>\<^verbatim>\<open>_compute_best_known_path\<close>: the reason is that of the last comparison.\<close>

fun best_known_loop :: "addrconv \<Rightarrow> bgp_peers \<Rightarrow> int \<Rightarrow> bgp_path \<Rightarrow> bpr \<Rightarrow> bgp_path list \<Rightarrow> (bgp_path \<times> bpr) res" where
  "best_known_loop A P local_asn best reason [] = Inr (best, reason)"
| "best_known_loop A P local_asn best reason (p # ps) =
     res_bind (compute_best_path A P local_asn best p) (\<lambda>(new, reason).
     best_known_loop A P local_asn (case new of None \<Rightarrow> best | Some n \<Rightarrow> n) reason ps)"

definition compute_best_known_path :: "addrconv \<Rightarrow> bgp_peers \<Rightarrow> int \<Rightarrow> bgp_path list \<Rightarrow> (bgp_path \<times> bpr) res" where
  "compute_best_known_path A P local_asn known =
     (case known of [] \<Rightarrow> Inl (RyuError ''BgpProcessorError'')
      | p # ps \<Rightarrow> best_known_loop A P local_asn p BPR_ONLY_PATH ps)"

end
