(* ===== verification/Bgp_Dest.thy ===== *)
theory Bgp_Dest
  imports Bgp_Path "HOL-Library.AList"
begin

text \<open>
  Destinations and tables of the routing information base: \<^verbatim>\<open>Table\<close>, \<^verbatim>\<open>Destination\<close> and
  \<^verbatim>\<open>NonVrfPathProcessingMixin\<close> of \<^verbatim>\<open>services/protocols/bgp/info_base/base.py\<close> and the IPv4 classes of
  \<^verbatim>\<open>info_base/ipv4.py\<close>. An operation returns what it tells others as a list.
\<close>

section \<open>Destinations\<close>

record bgp_dest =
  ds_nlri :: string
  ds_known :: "bgp_path list"
  ds_new :: "bgp_path list"
  ds_best :: "bgp_path option"
  ds_reason :: "bpr option"
  ds_withdraws :: "bgp_path list"
  ds_sent :: "(nat \<times> bgp_path) list"

definition dest_create :: "string \<Rightarrow> bgp_dest" where
  "dest_create nlri = \<lparr>ds_nlri = nlri, ds_known = [], ds_new = [], ds_best = None, ds_reason = None,
     ds_withdraws = [], ds_sent = []\<rparr>"

text \<open>Messages: a new best path for the peers, a withdrawal queued for a peer, the signal for listeners.\<close>

datatype bgp_msg =
    CommNewBest bgp_path
  | EnqueWithdraw nat bgp_path
  | BestPathChanged "bgp_path option" bool

definition same_object :: "bgp_path \<Rightarrow> bgp_path \<Rightarrow> bool" where
  "same_object p q \<longleftrightarrow> pt_id p = pt_id q"

definition same_best :: "bgp_path option \<Rightarrow> bgp_path option \<Rightarrow> bool" where
  "same_best p q \<longleftrightarrow> map_option pt_id p = map_option pt_id q"

definition add_new_path :: "bgp_path \<Rightarrow> bgp_dest \<Rightarrow> bgp_dest" where
  "add_new_path p d = d\<lparr>ds_new := ds_new d @ [p]\<rparr>"

definition add_withdraw :: "bgp_path \<Rightarrow> bgp_dest \<Rightarrow> bgp_dest" where
  "add_withdraw p d = d\<lparr>ds_withdraws := ds_withdraws d @ [p]\<rparr>"

definition add_sent_route :: "nat \<Rightarrow> bgp_path \<Rightarrow> bgp_dest \<Rightarrow> bgp_dest" where
  "add_sent_route peer p d = d\<lparr>ds_sent := AList.update peer p (ds_sent d)\<rparr>"

definition was_sent_to :: "nat \<Rightarrow> bgp_dest \<Rightarrow> bool" where
  "was_sent_to peer d \<longleftrightarrow> peer \<in> set (map fst (ds_sent d))"

definition remove_sent_route :: "nat \<Rightarrow> bgp_dest \<Rightarrow> bgp_dest \<times> bool" where
  "remove_sent_route peer d =
     (if was_sent_to peer d then (d\<lparr>ds_sent := AList.delete peer (ds_sent d)\<rparr>, True) else (d, False))"

definition withdraw_if_sent_to :: "nat \<Rightarrow> bgp_dest \<Rightarrow> bgp_dest \<times> bgp_msg list" where
  "withdraw_if_sent_to peer d =
     (case map_of (ds_sent d) peer of None \<Rightarrow> (d, [])
      | Some p \<Rightarrow> (d\<lparr>ds_sent := AList.delete peer (ds_sent d)\<rparr>, [EnqueWithdraw peer (withdraw_clone p)]))"

definition remove_old_paths_from_source :: "nat \<Rightarrow> int \<Rightarrow> bgp_dest \<Rightarrow> bgp_dest \<times> bgp_path list" where
  "remove_old_paths_from_source peer ver d =
     (let old = \<lambda>p. pt_source p = FromPeer peer \<and> pt_version_num p < ver
      in (d\<lparr>ds_known := filter (\<lambda>p. \<not> old p) (ds_known d)\<rparr>, rev (filter old (ds_known d))))"

definition withdraw_path :: "bgp_path \<Rightarrow> bgp_dest \<Rightarrow> bgp_dest res" where
  "withdraw_path p d =
     (if \<not> list_ex (same_object p) (ds_known d) then Inl ValueError
      else Inr (d\<lparr>ds_withdraws := ds_withdraws d @ [withdraw_clone p]\<rparr>))"

definition withdraw_uninteresting_paths :: "string set \<Rightarrow> bgp_dest \<Rightarrow> bgp_dest \<times> bool" where
  "withdraw_uninteresting_paths interested d =
     (let ps = filter (\<lambda>p. \<not> path_has_rts_in interested p) (ds_known d)
      in (d\<lparr>ds_withdraws := ds_withdraws d @ map withdraw_clone ps\<rparr>, ps \<noteq> []))"

subsection \<open>Processing\<close>

text \<open>
  \<^verbatim>\<open>_remove_withdrawals\<close>: a withdrawal takes out the first known path of its source and goes with it;
  one that finds no path stays, unless there are no known paths at all.
\<close>

definition matching_path :: "bgp_path list \<Rightarrow> bgp_path \<Rightarrow> bgp_path option" where
  "matching_path known w = find (\<lambda>p. pt_source p = pt_source w) known"

definition remove_withdrawals :: "bgp_dest \<Rightarrow> bgp_dest" where
  "remove_withdrawals d =
     (if ds_withdraws d = [] then d
      else if ds_known d = [] then d\<lparr>ds_withdraws := []\<rparr>
      else
        (let matches = List.map_filter (matching_path (ds_known d)) (ds_withdraws d)
         in d\<lparr>ds_known := filter (\<lambda>p. \<not> list_ex (same_object p) matches) (ds_known d),
              ds_withdraws := filter (\<lambda>w. matching_path (ds_known d) w = None) (ds_withdraws d)\<rparr>))"

text \<open>\<^verbatim>\<open>_remove_old_paths\<close>: a new path replaces the first known path of its source.\<close>

fun remove_source :: "bgp_source \<Rightarrow> bgp_path list \<Rightarrow> bgp_path list" where
  "remove_source s [] = []"
| "remove_source s (p # ps) = (if pt_source p = s then ps else p # remove_source s ps)"

definition remove_old_paths :: "bgp_path list \<Rightarrow> bgp_path list \<Rightarrow> bgp_path list" where
  "remove_old_paths new known = fold (\<lambda>p. remove_source (pt_source p)) new known"

text \<open>An exception of the comparison leaves the lists as they are then.\<close>

definition process_paths :: "addrconv \<Rightarrow> bgp_peers \<Rightarrow> int \<Rightarrow> bgp_dest \<Rightarrow> bgp_dest \<times> (bgp_path option \<times> bpr) res" where
  "process_paths A P local_asn d =
     (let d = remove_withdrawals d in
      if ds_known d = [] \<and> length (ds_new d) = 1 then
        (d\<lparr>ds_known := ds_new d, ds_new := []\<rparr>, Inr (Some (hd (ds_new d)), BPR_ONLY_PATH))
      else
        (let known = remove_old_paths (ds_new d) (ds_known d) @ ds_new d;
             d = d\<lparr>ds_known := known, ds_new := []\<rparr>
         in (d, if known = [] then Inr (None, BPR_UNKNOWN)
           else res_bind (compute_best_known_path A P local_asn known) (\<lambda>(b, r). Inr (Some b, r)))))"

definition withdraw_sent :: "bgp_dest \<Rightarrow> bgp_msg list" where
  "withdraw_sent d = map (\<lambda>(peer, p). EnqueWithdraw peer (withdraw_clone p)) (ds_sent d)"

definition best_path_lost :: "bgp_dest \<Rightarrow> bgp_dest \<times> bgp_msg list" where
  "best_path_lost d =
     (d\<lparr>ds_best := None, ds_sent := []\<rparr>, withdraw_sent d @ [BestPathChanged (ds_best d) True])"

definition new_best_path :: "bgp_path \<Rightarrow> bgp_dest \<Rightarrow> bgp_dest \<times> bgp_msg list" where
  "new_best_path new d =
     (let old = ds_best d;
          d = d\<lparr>ds_best := Some new\<rparr>;
          d = (case old of Some p \<Rightarrow> if list_ex (same_object p) (ds_known d) then d else d\<lparr>ds_sent := []\<rparr> | None \<Rightarrow> d);
          withdrawn = (if old \<noteq> None then withdraw_sent d else []);
          d' = (if old \<noteq> None then d\<lparr>ds_sent := []\<rparr> else d)
      in (d', CommNewBest new # withdrawn @ [BestPathChanged (Some new) False]))"

definition dest_process_best :: "addrconv \<Rightarrow> bgp_peers \<Rightarrow> int \<Rightarrow> bgp_dest \<Rightarrow> bgp_dest \<times> bgp_msg list \<times> py_error option" where
  "dest_process_best A P local_asn d =
     (case process_paths A P local_asn d of
        (d, Inl e) \<Rightarrow> (d, [], Some e)
      | (d, Inr (best, reason)) \<Rightarrow>
          (let d = d\<lparr>ds_reason := Some reason\<rparr> in
           if same_best (ds_best d) best then (d, [], None)
           else (case best of
               None \<Rightarrow> (if ds_known d \<noteq> [] then (d, [], Some AssertionError)
                 else (case best_path_lost d of (d, msgs) \<Rightarrow> (d, msgs, None)))
             | Some p \<Rightarrow> (case new_best_path p d of (d, msgs) \<Rightarrow> (d, msgs, None)))))"

text \<open>\<^verbatim>\<open>process\<close>: a destination without paths leaves its table.\<close>

definition dest_empty :: "bgp_dest \<Rightarrow> bool" where
  "dest_empty d \<longleftrightarrow> ds_known d = [] \<and> ds_best d = None"

section \<open>Tables\<close>

record bgp_table =
  tb_rf :: "int \<times> int"
  tb_dests :: "(string \<times> bgp_dest) list"

text \<open>The key of an IPv4 table is the prefix.\<close>

definition get_or_create_dest :: "string \<Rightarrow> bgp_table \<Rightarrow> bgp_dest" where
  "get_or_create_dest nlri t = (case map_of (tb_dests t) nlri of None \<Rightarrow> dest_create nlri | Some d \<Rightarrow> d)"

definition put_dest :: "string \<Rightarrow> bgp_dest \<Rightarrow> bgp_table \<Rightarrow> bgp_table" where
  "put_dest nlri d t = t\<lparr>tb_dests := AList.update nlri d (tb_dests t)\<rparr>"

definition table_insert :: "bgp_path \<Rightarrow> bgp_table \<Rightarrow> bgp_table res" where
  "table_insert p t =
     (if pt_rf p \<noteq> tb_rf t then Inl ValueError
      else (let d = get_or_create_dest (pt_nlri p) t
        in Inr (put_dest (pt_nlri p) (if pt_is_withdraw p then add_withdraw p d else add_new_path p d) t)))"

definition insert_sent_route :: "nat \<Rightarrow> bgp_path \<Rightarrow> bgp_table \<Rightarrow> bgp_table res" where
  "insert_sent_route peer p t =
     (if pt_rf p \<noteq> tb_rf t then Inl ValueError
      else Inr (put_dest (pt_nlri p) (add_sent_route peer p (get_or_create_dest (pt_nlri p) t)) t))"

definition delete_dest :: "string \<Rightarrow> bgp_table \<Rightarrow> bgp_table res" where
  "delete_dest nlri t =
     (if map_of (tb_dests t) nlri = None then Inl KeyError else Inr (t\<lparr>tb_dests := AList.delete nlri (tb_dests t)\<rparr>))"

text \<open>\<^verbatim>\<open>delete_dest_by_nlri\<close> pops the destination object, which is no key (and has no hash).\<close>

definition delete_dest_by_nlri :: "string \<Rightarrow> bgp_table \<Rightarrow> bgp_dest option res" where
  "delete_dest_by_nlri nlri t = (case map_of (tb_dests t) nlri of None \<Rightarrow> Inr None | Some d \<Rightarrow> Inl TypeError)"

text \<open>The destinations that are to be processed again are returned.\<close>

definition cleanup_paths_for_peer :: "nat \<Rightarrow> int \<Rightarrow> bgp_table \<Rightarrow> bgp_table \<times> string list" where
  "cleanup_paths_for_peer peer ver t =
     (let clean = \<lambda>d. fst (remove_sent_route peer (fst (remove_old_paths_from_source peer ver d)));
          changed = \<lambda>d. snd (remove_old_paths_from_source peer ver d) \<noteq> []
      in (t\<lparr>tb_dests := map (\<lambda>(k, d). (k, clean d)) (tb_dests t)\<rparr>,
          map fst (filter (\<lambda>(k, d). changed d) (tb_dests t))))"

definition clean_uninteresting_paths :: "string set \<Rightarrow> bgp_table \<Rightarrow> bgp_table \<times> string list" where
  "clean_uninteresting_paths interested t =
     (t\<lparr>tb_dests := map (\<lambda>(k, d). (k, fst (withdraw_uninteresting_paths interested d))) (tb_dests t)\<rparr>,
      map fst (filter (\<lambda>(k, d). snd (withdraw_uninteresting_paths interested d)) (tb_dests t)))"

text \<open>\<^verbatim>\<open>process\<close> of the destination of a prefix.\<close>

definition table_process :: "addrconv \<Rightarrow> bgp_peers \<Rightarrow> int \<Rightarrow> string \<Rightarrow> bgp_table \<Rightarrow> bgp_table \<times> bgp_msg list \<times> py_error option" where
  "table_process A P local_asn nlri t =
     (case map_of (tb_dests t) nlri of None \<Rightarrow> (t, [], None)
      | Some d \<Rightarrow>
          (case dest_process_best A P local_asn d of
             (d, msgs, Some e) \<Rightarrow> (put_dest nlri d t, msgs, Some e)
           | (d, msgs, None) \<Rightarrow>
               (if dest_empty d then (t\<lparr>tb_dests := AList.delete nlri (tb_dests t)\<rparr>, msgs, None)
                else (put_dest nlri d t, msgs, None))))"

end
