(* ===== verification/Bgp_Best.thy ===== *)
theory Bgp_Best
  imports Bgp_Path Cmp_Order "HOL-Library.Product_Lexorder"
begin

text \<open>
  The comparison of paths is the lexicographic order of a key, as long as the paths are comparable: then
  the path chosen among the known ones is the first of the best.
\<close>

definition path_ebgp :: "bgp_peers \<Rightarrow> int \<Rightarrow> bgp_path \<Rightarrow> bool" where
  "path_ebgp P local_asn p = (case pt_source p of FromPeer n \<Rightarrow> bp_remote_as (P n) \<noteq> local_asn | _ \<Rightarrow> False)"

definition router_id_text :: "bgp_peers \<Rightarrow> bgp_path \<Rightarrow> string" where
  "router_id_text P p =
     (case pt_originator_id p of Some i \<Rightarrow> i
      | None \<Rightarrow> (case open_ids P (pt_source p) of Inr (sent, recv) \<Rightarrow> recv | Inl _ \<Rightarrow> []))"

text \<open>Paths of BGP peers in a session, with the mandatory attributes, and identifiers that are addresses.\<close>

definition path_ok :: "addrconv \<Rightarrow> bgp_peers \<Rightarrow> bgp_path \<Rightarrow> bool" where
  "path_ok A P p \<longleftrightarrow> pt_as_path p \<noteq> None \<and> pt_origin p \<noteq> None \<and>
     (case pt_source p of NC \<Rightarrow> True | TableSource t \<Rightarrow> False
      | FromPeer n \<Rightarrow> bp_open_ids (P n) \<noteq> None \<and> canon_ip4 A (router_id_text P p))"

definition rid_key :: "addrconv \<Rightarrow> bgp_peers \<Rightarrow> int \<Rightarrow> bgp_path \<Rightarrow> int" where
  "rid_key A P local_asn p =
     (if pt_source p = NC \<or> path_ebgp P local_asn p then 0
      else (case ipv4_to_int A (router_id_text P p) of Inr i \<Rightarrow> i | Inl _ \<Rightarrow> 0))"

definition path_key :: "addrconv \<Rightarrow> bgp_peers \<Rightarrow> int \<Rightarrow> bgp_path \<Rightarrow>
    int \<times> int \<times> int \<times> int \<times> int \<times> int \<times> int \<times> int" where
  "path_key A P local_asn p =
     (case pt_local_pref p of None \<Rightarrow> 0 | Some v \<Rightarrow> - v,
      if pt_source p = NC then 0 else 1,
      case pt_as_path p of None \<Rightarrow> 0 | Some a \<Rightarrow> as_path_len a,
      case pt_origin p of None \<Rightarrow> 0 | Some v \<Rightarrow> - origin_pref v,
      path_med p,
      if path_ebgp P local_asn p then 0 else 1,
      rid_key A P local_asn p,
      cluster_list_len p)"

definition path_cmp :: "addrconv \<Rightarrow> bgp_peers \<Rightarrow> int \<Rightarrow> bgp_path \<Rightarrow> bgp_path \<Rightarrow> cmp_result" where
  "path_cmp A P local_asn p q =
     (let k = path_key A P local_asn p; l = path_key A P local_asn q
      in if k < l then SUPERIOR else if k = l then REPEATED else INFERIOR)"

interpretation bgp: three_way "path_cmp A P local_asn" "path_key A P local_asn" for A P local_asn
  by unfold_locales (simp add: path_cmp_def Let_def)

definition pick :: "'k :: linorder \<Rightarrow> 'k \<Rightarrow> 'a \<Rightarrow> 'a \<Rightarrow> 'a option" where
  "pick k l p q = (if k < l then Some p else if l < k then Some q else None)"

lemma pick_pair: "pick (a, k) (b, l) p q = (case pick a b p q of None \<Rightarrow> pick k l p q | Some r \<Rightarrow> Some r)"
  by (auto simp: pick_def)

lemma pick_same [simp]: "pick k k p q = None"
  by (simp add: pick_def)

lemma pick_None: "pick k l p q = None \<longleftrightarrow> k = l"
  by (auto simp: pick_def)

lemma ipv4_of_canon:
  assumes "addrconv_ok A" "canon_ip4 A t"
  shows "\<exists>b. ip4_to_bin A t = Inr b \<and> length b = 4 \<and> ip4_to_text A b = t \<and> ipv4_to_int A t = Inr (be_int b)"
proof -
  obtain b where b: "ip4_to_bin A t = Inr b" "ip4_to_text A b = t"
    using assms(2) by (auto simp: canon_ip4_def split: sum.splits)
  moreover have "length b = 4" using assms(1) b(1) by (auto simp: addrconv_ok_def)
  ultimately show ?thesis by (simp add: ipv4_to_int_def)
qed

lemma router_ids_compare:
  assumes A: "addrconv_ok A" and c: "canon_ip4 A t" "canon_ip4 A u"
  shows "\<exists>i j. ipv4_to_int A t = Inr i \<and> ipv4_to_int A u = Inr j \<and> (i = j \<longleftrightarrow> t = u)"
proof -
  obtain b d where b: "length b = 4" "ip4_to_text A b = t" "ipv4_to_int A t = Inr (be_int b)"
    and d: "length d = 4" "ip4_to_text A d = u" "ipv4_to_int A u = Inr (be_int d)"
    using ipv4_of_canon [OF A c(1)] ipv4_of_canon [OF A c(2)] by blast
  have "be_int b = be_int d \<longleftrightarrow> b = d"
    using be_bytes_be_int [OF b(1)] be_bytes_be_int [OF d(1)] by metis
  with b d show ?thesis by auto
qed

section \<open>Each step compares one component\<close>

text \<open>Two paths carry a local preference both or none.\<close>

definition same_pref :: "bgp_path \<Rightarrow> bgp_path \<Rightarrow> bool" where
  "same_pref p q \<longleftrightarrow> (pt_local_pref p = None) = (pt_local_pref q = None)"

lemma local_pref_step:
  "same_pref p q \<Longrightarrow> cmp_by_local_pref p q =
    Inr (pick (case pt_local_pref p of None \<Rightarrow> 0 | Some v \<Rightarrow> - v) (case pt_local_pref q of None \<Rightarrow> 0 | Some v \<Rightarrow> - v) p q)"
  by (auto simp: same_pref_def cmp_by_local_pref_def pick_def split: option.splits)

lemma local_origin_step:
  "cmp_by_local_origin p q = Inr (pick (if pt_source p = NC then 0 else 1) (if pt_source q = NC then 0 else 1 :: int) p q)"
  by (auto simp: cmp_by_local_origin_def pick_def)

lemma aspath_step:
  "pt_as_path p \<noteq> None \<Longrightarrow> pt_as_path q \<noteq> None \<Longrightarrow> cmp_by_aspath p q =
    Inr (pick (case pt_as_path p of None \<Rightarrow> 0 | Some a \<Rightarrow> as_path_len a) (case pt_as_path q of None \<Rightarrow> 0 | Some a \<Rightarrow> as_path_len a) p q)"
  by (auto simp: cmp_by_aspath_def pick_def Let_def)

lemma origin_step:
  "pt_origin p \<noteq> None \<Longrightarrow> pt_origin q \<noteq> None \<Longrightarrow> cmp_by_origin p q =
    Inr (pick (case pt_origin p of None \<Rightarrow> 0 | Some v \<Rightarrow> - origin_pref v) (case pt_origin q of None \<Rightarrow> 0 | Some v \<Rightarrow> - origin_pref v) p q)"
  by (auto simp: cmp_by_origin_def pick_def Let_def)

lemma med_step: "cmp_by_med p q = Inr (pick (path_med p) (path_med q) p q)"
  by (auto simp: cmp_by_med_def pick_def)

lemma cluster_step: "cmp_by_cluster_list p q = Inr (pick (cluster_list_len p) (cluster_list_len q) p q)"
  by (auto simp: cmp_by_cluster_list_def pick_def)

lemma source_asn_ok:
  assumes "path_ok A P p"
  shows "\<exists>a. source_asn P local_asn (pt_source p) = Inr a \<and> (a \<noteq> local_asn \<longleftrightarrow> path_ebgp P local_asn p)"
  using assms by (auto simp: path_ok_def source_asn_def path_ebgp_def split: bgp_source.splits)

lemma asn_step:
  assumes "path_ok A P p" "path_ok A P q"
  shows "cmp_by_asn P local_asn p q =
    Inr (pick (if path_ebgp P local_asn p then 0 else 1) (if path_ebgp P local_asn q then 0 else 1 :: int) p q)"
proof -
  obtain a b where "source_asn P local_asn (pt_source p) = Inr a" "a \<noteq> local_asn \<longleftrightarrow> path_ebgp P local_asn p"
    "source_asn P local_asn (pt_source q) = Inr b" "b \<noteq> local_asn \<longleftrightarrow> path_ebgp P local_asn q"
    using source_asn_ok [OF assms(1)] source_asn_ok [OF assms(2)] by blast
  then show ?thesis by (auto simp: cmp_by_asn_def pick_def)
qed

text \<open>The router id is compared between paths of the same kind, local or not.\<close>

lemma router_id_step:
  assumes A: "addrconv_ok A" and p: "path_ok A P p" and q: "path_ok A P q"
    and e: "path_ebgp P local_asn p = path_ebgp P local_asn q" and nc: "(pt_source p = NC) = (pt_source q = NC)"
  shows "cmp_by_router_id A P local_asn p q = Inr (pick (rid_key A P local_asn p) (rid_key A P local_asn q) p q)"
proof (cases "pt_source p = NC \<or> path_ebgp P local_asn p")
  case True
  obtain a b where "source_asn P local_asn (pt_source p) = Inr a" "a \<noteq> local_asn \<longleftrightarrow> path_ebgp P local_asn p"
    "source_asn P local_asn (pt_source q) = Inr b" "b \<noteq> local_asn \<longleftrightarrow> path_ebgp P local_asn q"
    using source_asn_ok [OF p] source_asn_ok [OF q] by blast
  with True e nc show ?thesis by (auto simp: cmp_by_router_id_def Let_def rid_key_def)
next
  case False
  then obtain n m where s: "pt_source p = FromPeer n" "pt_source q = FromPeer m"
    using p q nc by (auto simp: path_ok_def split: bgp_source.splits)
  obtain s1 r1 s2 r2 where o: "bp_open_ids (P n) = Some (s1, r1)" "bp_open_ids (P m) = Some (s2, r2)"
    using p q s by (auto simp: path_ok_def)
  have id: "path_router_id P l p = Inr (router_id_text P p)" "path_router_id P l q = Inr (router_id_text P q)" for l
    using s o by (auto simp: path_router_id_def router_id_text_def open_ids_def split: option.splits)
  obtain i j where ij: "ipv4_to_int A (router_id_text P p) = Inr i" "ipv4_to_int A (router_id_text P q) = Inr j"
    "i = j \<longleftrightarrow> router_id_text P p = router_id_text P q"
    using router_ids_compare [OF A, of "router_id_text P p" "router_id_text P q"] p q s by (auto simp: path_ok_def)
  have asn: "bp_remote_as (P n) = local_asn" "bp_remote_as (P m) = local_asn"
    using False e s by (simp_all add: path_ebgp_def)
  have k: "rid_key A P local_asn p = i" "rid_key A P local_asn q = j"
    using s asn ij(1,2) by (simp_all add: rid_key_def path_ebgp_def)
  show ?thesis
    unfolding cmp_by_router_id_def Let_def k
    using s asn o ij by (auto simp: source_asn_def open_ids_def id from_inet_ptoi_def opt_int_lt_def pick_def)
qed

section \<open>The whole comparison\<close>

lemma decide_pick:
  "m = Inr (pick k l p q) \<Longrightarrow>
    decide ((m, r) # ms) = (case pick k l p q of None \<Rightarrow> decide ms | Some b \<Rightarrow> Inr (Some b, r))"
  by simp

lemma compute_best_path_key:
  assumes A: "addrconv_ok A" and p: "path_ok A P p" and q: "path_ok A P q" and lp: "same_pref p q"
  shows "\<exists>reason. compute_best_path A P local_asn p q =
    Inr (pick (path_key A P local_asn p) (path_key A P local_asn q) p q, reason)"
proof -
  have ap: "pt_as_path p \<noteq> None" "pt_as_path q \<noteq> None" "pt_origin p \<noteq> None" "pt_origin q \<noteq> None"
    using p q by (simp_all add: path_ok_def)
  note st = local_pref_step [OF lp] local_origin_step aspath_step [OF ap(1,2)] origin_step [OF ap(3,4)] med_step
    asn_step [OF p q, of local_asn] cluster_step
  let ?k = "path_key A P local_asn p" and ?l = "path_key A P local_asn q"
  define lp1 lp2 lo1 lo2 al1 al2 og1 og2 md1 md2 eb1 eb2 where d:
    "lp1 = (case pt_local_pref p of None \<Rightarrow> 0 | Some v \<Rightarrow> - v)" "lp2 = (case pt_local_pref q of None \<Rightarrow> 0 | Some v \<Rightarrow> - v)"
    "lo1 = (if pt_source p = NC then 0 else 1 :: int)" "lo2 = (if pt_source q = NC then 0 else 1 :: int)"
    "al1 = (case pt_as_path p of None \<Rightarrow> 0 | Some a \<Rightarrow> as_path_len a)" "al2 = (case pt_as_path q of None \<Rightarrow> 0 | Some a \<Rightarrow> as_path_len a)"
    "og1 = (case pt_origin p of None \<Rightarrow> 0 | Some v \<Rightarrow> - origin_pref v)" "og2 = (case pt_origin q of None \<Rightarrow> 0 | Some v \<Rightarrow> - origin_pref v)"
    "md1 = path_med p" "md2 = path_med q"
    "eb1 = (if path_ebgp P local_asn p then 0 else 1 :: int)" "eb2 = (if path_ebgp P local_asn q then 0 else 1 :: int)"
  have rid: "cmp_by_router_id A P local_asn p q = Inr (pick (rid_key A P local_asn p) (rid_key A P local_asn q) p q)"
    if "pick lo1 lo2 p q = None" "pick eb1 eb2 p q = None"
    using that router_id_step [OF A p q, of local_asn] by (auto simp: d pick_None split: if_splits)
  have key: "pick ?k ?l p q =
    (case pick lp1 lp2 p q of Some b \<Rightarrow> Some b | None \<Rightarrow>
      (case pick lo1 lo2 p q of Some b \<Rightarrow> Some b | None \<Rightarrow>
      (case pick al1 al2 p q of Some b \<Rightarrow> Some b | None \<Rightarrow>
      (case pick og1 og2 p q of Some b \<Rightarrow> Some b | None \<Rightarrow>
      (case pick md1 md2 p q of Some b \<Rightarrow> Some b | None \<Rightarrow>
      (case pick eb1 eb2 p q of Some b \<Rightarrow> Some b | None \<Rightarrow>
      (case pick (rid_key A P local_asn p) (rid_key A P local_asn q) p q of Some b \<Rightarrow> Some b | None \<Rightarrow>
        pick (cluster_list_len p) (cluster_list_len q) p q)))))))"
    unfolding path_key_def pick_pair d [symmetric] by (simp split: option.split)
  show ?thesis
    unfolding compute_best_path_def st d [symmetric] key
    by (cases "pick lp1 lp2 p q"; cases "pick lo1 lo2 p q"; cases "pick al1 al2 p q"; cases "pick og1 og2 p q";
        cases "pick md1 md2 p q"; cases "pick eb1 eb2 p q"; cases "pick (rid_key A P local_asn p) (rid_key A P local_asn q) p q";
        cases "pick (cluster_list_len p) (cluster_list_len q) p q";
        simp add: rid cmp_by_reachable_nh_def cmp_by_highest_wg_def cmp_by_igp_cost_def)
qed

section \<open>The best of the known paths\<close>

text \<open>The loop keeps the first of the best.\<close>

context three_way
begin

lemma keep_best_split:
  "\<exists>pre post. b # xs = pre @ keep_best c b xs # post \<and> list_all (\<lambda>q. key (keep_best c b xs) < key q) pre \<and>
    list_all (\<lambda>q. key (keep_best c b xs) \<le> key q) post"
proof (induction xs arbitrary: b)
  case Nil
  show ?case by (intro exI [of _ "[]"]) simp
next
  case (Cons x xs)
  define n where "n = (if key x < key b then x else b)"
  define k where "k = keep_best c n xs"
  obtain pre post where s: "n # xs = pre @ k # post" "list_all (\<lambda>q. key k < key q) pre" "list_all (\<lambda>q. key k \<le> key q) post"
    using Cons.IH [of n] by (auto simp: k_def)
  have k: "keep_best c b (x # xs) = k" by (simp add: k_def n_def)
  have le: "key k \<le> key n" using keep_best_le [of n n xs] by (simp add: k_def)
  show ?case
  proof (cases "key x < key b")
    case True
    with s le have "b # x # xs = (b # pre) @ k # post" "list_all (\<lambda>q. key k < key q) (b # pre)" by (auto simp: n_def)
    with s(3) k show ?thesis by metis
  next
    case False
    show ?thesis
    proof (cases pre)
      case Nil
      with s False have "b # x # xs = [] @ k # (x # post)" "list_all (\<lambda>q. key k \<le> key q) (x # post)" by (auto simp: n_def)
      then show ?thesis unfolding k by (intro exI [of _ "[]"] exI [of _ "x # post"]) simp
    next
      case (Cons m pre')
      with s False have "b # x # xs = (b # x # pre') @ k # post" "list_all (\<lambda>q. key k < key q) (b # x # pre')"
        by (auto simp: n_def)
      with s(3) k show ?thesis by metis
    qed
  qed
qed

end

definition paths_ok :: "addrconv \<Rightarrow> bgp_peers \<Rightarrow> bgp_path list \<Rightarrow> bool" where
  "paths_ok A P ps \<longleftrightarrow> list_all (path_ok A P) ps \<and>
     (list_all (\<lambda>p. pt_local_pref p = None) ps \<or> list_all (\<lambda>p. pt_local_pref p \<noteq> None) ps)"

lemma paths_ok_same: "paths_ok A P ps \<Longrightarrow> p \<in> set ps \<Longrightarrow> q \<in> set ps \<Longrightarrow> same_pref p q"
  by (auto simp: paths_ok_def same_pref_def list_all_iff)

lemma best_known_loop_keep:
  assumes A: "addrconv_ok A"
  shows "paths_ok A P (b # ps) \<Longrightarrow>
    \<exists>r. best_known_loop A P local_asn b reason ps = Inr (keep_best (path_cmp A P local_asn) b ps, r)"
proof (induction ps arbitrary: b reason)
  case (Cons p ps)
  have "path_ok A P b" "path_ok A P p" "same_pref b p"
    using Cons.prems paths_ok_same [OF Cons.prems, of b p] by (simp_all add: paths_ok_def)
  then obtain r where c: "compute_best_path A P local_asn b p =
      Inr (pick (path_key A P local_asn b) (path_key A P local_asn p) b p, r)"
    using compute_best_path_key [OF A] by blast
  let ?b = "if path_cmp A P local_asn p b = SUPERIOR then p else b"
  have e: "(case pick (path_key A P local_asn b) (path_key A P local_asn p) b p of None \<Rightarrow> b | Some n \<Rightarrow> n) = ?b"
    by (auto simp: pick_def bgp.superior_iff)
  have "paths_ok A P (?b # ps)" using Cons.prems by (auto simp: paths_ok_def)
  from Cons.IH [OF this] show ?case by (simp add: c e)
qed simp

lemma best_known:
  assumes "addrconv_ok A" "paths_ok A P ps" "ps \<noteq> []"
  shows "\<exists>b r. compute_best_known_path A P local_asn ps = Inr (b, r) \<and> b \<in> set ps \<and>
    list_all (\<lambda>q. path_key A P local_asn b \<le> path_key A P local_asn q) ps"
proof -
  obtain p qs where ps: "ps = p # qs" using assms(3) by (cases ps) simp_all
  let ?b = "keep_best (path_cmp A P local_asn) p qs"
  obtain r where "compute_best_known_path A P local_asn ps = Inr (?b, r)"
    using best_known_loop_keep [OF assms(1) assms(2) [unfolded ps]] by (auto simp: compute_best_known_path_def ps)
  moreover have "?b \<in> set ps" using bgp.keep_best_in [of A P local_asn p qs] ps by auto
  moreover have "list_all (\<lambda>q. path_key A P local_asn ?b \<le> path_key A P local_asn q) ps"
    using bgp.keep_best_le [of _ p qs A P local_asn] ps by (simp add: list_all_iff)
  ultimately show ?thesis by blast
qed

end
