(* ===== verification/Bgp_Rib.thy ===== *)
theory Bgp_Rib
  imports Bgp_Dest Bgp_Best
begin

text \<open>
  What a destination promises: it holds at most one path of each source, the last one announced and not
  withdrawn, and its best path is one of them that no other beats.
\<close>

section \<open>The abstract view\<close>

definition rib :: "bgp_path list \<Rightarrow> bgp_source \<rightharpoonup> bgp_path" where
  "rib ps = map_of (map (\<lambda>p. (pt_source p, p)) ps)"

definition sources :: "bgp_path list \<Rightarrow> bgp_source set" where
  "sources ps = pt_source ` set ps"

definition one_per_source :: "bgp_path list \<Rightarrow> bool" where
  "one_per_source ps \<longleftrightarrow> distinct (map pt_source ps) \<and> distinct (map pt_id ps)"

lemma rib_None: "s \<notin> sources ps \<Longrightarrow> rib ps s = None"
  by (force simp: rib_def sources_def map_of_eq_None_iff)

lemma rib_filter: "rib (filter (\<lambda>p. pt_source p \<notin> S) ps) = rib ps |` (- S)"
proof
  show "rib (filter (\<lambda>p. pt_source p \<notin> S) ps) s = (rib ps |` (- S)) s" for s
    by (induction ps) (auto simp: rib_def restrict_map_def)
qed

lemma rib_append: "sources ps \<inter> sources qs = {} \<Longrightarrow> rib (ps @ qs) = rib ps ++ rib qs"
proof -
  assume "sources ps \<inter> sources qs = {}"
  then have "dom (rib ps) \<inter> dom (rib qs) = {}"
    by (auto simp: rib_def sources_def dom_map_of_conv_image_fst image_image)
  then have "rib qs ++ rib ps = rib ps ++ rib qs" by (intro map_add_comm) blast
  then show ?thesis by (simp add: rib_def)
qed

section \<open>The lists\<close>

lemma remove_source_filter:
  "distinct (map pt_source ps) \<Longrightarrow> remove_source s ps = filter (\<lambda>p. pt_source p \<noteq> s) ps"
proof (induction ps)
  case (Cons p ps)
  then have "pt_source p \<notin> pt_source ` set ps" by simp
  then have "filter (\<lambda>q. pt_source q \<noteq> pt_source p) ps = ps" by (intro filter_True) (metis imageI)
  with Cons show ?case by auto
qed simp

lemma distinct_filter_sources: "distinct (map pt_source ps) \<Longrightarrow> distinct (map pt_source (filter Q ps))"
  by (induction ps) auto

lemma remove_old_paths_filter:
  "distinct (map pt_source known) \<Longrightarrow>
    remove_old_paths new known = filter (\<lambda>p. pt_source p \<notin> sources new) known"
proof (induction new arbitrary: known)
  case Nil
  then show ?case by (simp add: remove_old_paths_def sources_def)
next
  case (Cons n new)
  have "remove_old_paths (n # new) known = remove_old_paths new (filter (\<lambda>p. pt_source p \<noteq> pt_source n) known)"
    by (simp add: remove_old_paths_def remove_source_filter [OF Cons.prems])
  also have "\<dots> = filter (\<lambda>p. pt_source p \<notin> sources new) (filter (\<lambda>p. pt_source p \<noteq> pt_source n) known)"
    by (rule Cons.IH [OF distinct_filter_sources [OF Cons.prems]])
  also have "\<dots> = filter (\<lambda>p. pt_source p \<notin> sources (n # new)) known"
    by (auto simp: sources_def intro: filter_cong)
  finally show ?case .
qed

lemma remove_old_paths_Nil [simp]: "remove_old_paths new [] = []"
  by (induction new) (simp_all add: remove_old_paths_def)

lemma distinct_map_inj: "distinct (map f ps) \<Longrightarrow> p \<in> set ps \<Longrightarrow> q \<in> set ps \<Longrightarrow> f p = f q \<Longrightarrow> p = q"
  by (metis distinct_map inj_onD)

lemma matching_path_iff:
  assumes "distinct (map pt_source known)"
  shows "matching_path known w = Some p \<longleftrightarrow> p \<in> set known \<and> pt_source p = pt_source w"
proof
  assume "matching_path known w = Some p"
  then show "p \<in> set known \<and> pt_source p = pt_source w"
    by (auto simp: matching_path_def find_Some_iff)
next
  assume p: "p \<in> set known \<and> pt_source p = pt_source w"
  then have "matching_path known w \<noteq> None" by (auto simp: matching_path_def find_None_iff)
  then obtain q where q: "matching_path known w = Some q" by blast
  then have "q \<in> set known" "pt_source q = pt_source w" by (auto simp: matching_path_def find_Some_iff)
  with p distinct_map_inj [OF assms, of p q] q show "matching_path known w = Some p" by simp
qed

lemma matching_path_None: "matching_path known w = None \<longleftrightarrow> pt_source w \<notin> sources known"
  by (auto simp: matching_path_def find_None_iff sources_def) (metis image_eqI)

lemma remove_withdrawals_known:
  assumes "one_per_source (ds_known d)"
  shows "ds_known (remove_withdrawals d) = filter (\<lambda>p. pt_source p \<notin> sources (ds_withdraws d)) (ds_known d)"
proof -
  let ?k = "ds_known d" and ?w = "ds_withdraws d"
  have k: "distinct (map pt_source ?k)" "distinct (map pt_id ?k)" using assms by (simp_all add: one_per_source_def)
  have "list_ex (same_object p) (List.map_filter (matching_path ?k) ?w) \<longleftrightarrow> pt_source p \<in> sources ?w" if p: "p \<in> set ?k" for p
  proof -
    have "list_ex (same_object p) (List.map_filter (matching_path ?k) ?w) \<longleftrightarrow>
        (\<exists>w \<in> set ?w. \<exists>q. matching_path ?k w = Some q \<and> pt_id p = pt_id q)"
      by (auto simp: list_ex_iff same_object_def map_filter_def) force
    also have "\<dots> \<longleftrightarrow> (\<exists>w \<in> set ?w. pt_source p = pt_source w)"
      using p distinct_map_inj [OF k(2)] by (auto simp: matching_path_iff [OF k(1)])
    finally show ?thesis by (auto simp: sources_def)
  qed
  then have "filter (\<lambda>p. \<not> list_ex (same_object p) (List.map_filter (matching_path ?k) ?w)) ?k =
      filter (\<lambda>p. pt_source p \<notin> sources ?w) ?k"
    by (intro filter_cong) simp_all
  then show ?thesis
    by (auto simp: remove_withdrawals_def Let_def sources_def)
qed

lemma remove_withdrawals_other [simp]:
  "ds_new (remove_withdrawals d) = ds_new d" "ds_best (remove_withdrawals d) = ds_best d"
  "ds_sent (remove_withdrawals d) = ds_sent d" "ds_nlri (remove_withdrawals d) = ds_nlri d"
  by (simp_all add: remove_withdrawals_def Let_def)

lemma process_known:
  assumes "one_per_source (ds_known d)"
  shows "ds_known (fst (process_paths A P local_asn d)) =
    filter (\<lambda>p. pt_source p \<notin> sources (ds_withdraws d) \<union> sources (ds_new d)) (ds_known d) @ ds_new d"
proof -
  let ?r = "remove_withdrawals d"
  have k: "ds_known ?r = filter (\<lambda>p. pt_source p \<notin> sources (ds_withdraws d)) (ds_known d)"
    by (rule remove_withdrawals_known [OF assms])
  have "distinct (map pt_source (ds_known ?r))"
    unfolding k using assms by (intro distinct_filter_sources) (simp add: one_per_source_def)
  from remove_old_paths_filter [OF this] have old: "remove_old_paths (ds_new d) (ds_known ?r) =
      filter (\<lambda>p. pt_source p \<notin> sources (ds_withdraws d) \<union> sources (ds_new d)) (ds_known d)"
    unfolding k by (auto intro: filter_cong)
  have "ds_known (fst (process_paths A P local_asn d)) = remove_old_paths (ds_new d) (ds_known ?r) @ ds_new d"
    by (auto simp: process_paths_def Let_def)
  then show ?thesis unfolding old .
qed

lemma one_per_source_processed:
  assumes "one_per_source (ds_known d)" "one_per_source (ds_new d)"
    and "pt_id ` set (ds_known d) \<inter> pt_id ` set (ds_new d) = {}"
  shows "one_per_source (ds_known (fst (process_paths A P local_asn d)))"
proof -
  have "distinct (map pt_id (filter Q (ds_known d)))" for Q
    using assms(1) by (auto simp: one_per_source_def distinct_map intro: inj_on_subset)
  then show ?thesis
    unfolding process_known [OF assms(1)] using assms
    by (auto simp: one_per_source_def sources_def intro: distinct_filter_sources)
qed

lemma process_rib:
  assumes k: "one_per_source (ds_known d)" and ds: "sources (ds_withdraws d) \<inter> sources (ds_new d) = {}"
  shows "rib (ds_known (fst (process_paths A P local_asn d))) =
    (rib (ds_known d) |` (- sources (ds_withdraws d))) ++ rib (ds_new d)"
proof -
  let ?W = "sources (ds_withdraws d)" and ?N = "sources (ds_new d)"
  let ?f = "filter (\<lambda>p. pt_source p \<notin> ?W \<union> ?N) (ds_known d)"
  have "sources ?f \<inter> ?N = {}" by (auto simp: sources_def)
  then have "rib (?f @ ds_new d) = (rib (ds_known d) |` (- (?W \<union> ?N))) ++ rib (ds_new d)"
    by (simp only: rib_append rib_filter)
  also have "\<dots> = (rib (ds_known d) |` (- ?W)) ++ rib (ds_new d)"
  proof
    fix s
    show "((rib (ds_known d) |` (- (?W \<union> ?N))) ++ rib (ds_new d)) s = ((rib (ds_known d) |` (- ?W)) ++ rib (ds_new d)) s"
    proof (cases "s \<in> ?N")
      case True
      then have "rib (ds_new d) s \<noteq> None"
        by (auto simp: rib_def sources_def map_of_eq_None_iff image_image)
      then show ?thesis by (auto simp: map_add_def)
    next
      case False
      then show ?thesis by (simp add: map_add_def restrict_map_def)
    qed
  qed
  finally show ?thesis by (simp add: process_known [OF k])
qed

section \<open>The best path\<close>

lemma process_result:
  assumes A: "addrconv_ok A" and ok: "paths_ok A P (ds_known (fst (process_paths A P local_asn d)))"
  shows "\<exists>r. snd (process_paths A P local_asn d) = Inr r \<and>
    (case fst r of None \<Rightarrow> ds_known (fst (process_paths A P local_asn d)) = []
     | Some b \<Rightarrow> b \<in> set (ds_known (fst (process_paths A P local_asn d))) \<and>
         list_all (\<lambda>q. path_key A P local_asn b \<le> path_key A P local_asn q)
           (ds_known (fst (process_paths A P local_asn d))))"
proof -
  let ?r = "remove_withdrawals d"
  show ?thesis
  proof (cases "ds_known ?r = [] \<and> length (ds_new ?r) = 1")
    case True
    then obtain p where "ds_new d = [p]" by (auto simp: length_Suc_conv)
    with True show ?thesis by (simp add: process_paths_def Let_def)
  next
    case False
    let ?k = "remove_old_paths (ds_new ?r) (ds_known ?r) @ ds_new ?r"
    have e: "process_paths A P local_asn d =
      (?r\<lparr>ds_known := ?k, ds_new := []\<rparr>, if ?k = [] then Inr (None, BPR_UNKNOWN)
         else res_bind (compute_best_known_path A P local_asn ?k) (\<lambda>(b, r). Inr (Some b, r)))"
      using False by (simp only: process_paths_def Let_def if_False)
    show ?thesis
    proof (cases "?k = []")
      case True
      show ?thesis unfolding e if_P [OF True] using True by (simp only: fst_conv snd_conv) simp
    next
      case False
      have "paths_ok A P ?k" using ok unfolding e by simp
      from best_known [OF A this False, of local_asn] False show ?thesis unfolding e by auto
    qed
  qed
qed

lemma dest_process_fields:
  "ds_known (fst (dest_process_best A P local_asn d)) = ds_known (fst (process_paths A P local_asn d))"
  "ds_new (fst (dest_process_best A P local_asn d)) = []"
  "ds_withdraws (fst (dest_process_best A P local_asn d)) = ds_withdraws (remove_withdrawals d)"
proof -
  have f: "ds_new (fst (process_paths A P local_asn d)) = []"
    "ds_withdraws (fst (process_paths A P local_asn d)) = ds_withdraws (remove_withdrawals d)"
    by (simp_all add: process_paths_def Let_def)
  obtain d1 r where p: "process_paths A P local_asn d = (d1, r)" by (cases "process_paths A P local_asn d")
  note defs = dest_process_best_def p new_best_path_def best_path_lost_def Let_def
  show "ds_known (fst (dest_process_best A P local_asn d)) = ds_known (fst (process_paths A P local_asn d))"
    "ds_new (fst (dest_process_best A P local_asn d)) = []"
    "ds_withdraws (fst (dest_process_best A P local_asn d)) = ds_withdraws (remove_withdrawals d)"
    using f by (auto simp: defs split: sum.split option.split prod.split)
qed

lemma dest_process_best_path:
  assumes A: "addrconv_ok A" and ok: "paths_ok A P (ds_known (fst (dest_process_best A P local_asn d)))"
  shows "snd (snd (dest_process_best A P local_asn d)) = None \<and>
    (case map_option pt_id (ds_best (fst (dest_process_best A P local_asn d))) of
       None \<Rightarrow> ds_known (fst (dest_process_best A P local_asn d)) = []
     | Some i \<Rightarrow> \<exists>b. pt_id b = i \<and> b \<in> set (ds_known (fst (dest_process_best A P local_asn d))) \<and>
         list_all (\<lambda>q. path_key A P local_asn b \<le> path_key A P local_asn q)
           (ds_known (fst (dest_process_best A P local_asn d))))"
proof -
  note k = dest_process_fields(1) [of A P local_asn d]
  obtain d1 r where p: "process_paths A P local_asn d = (d1, r)" by (cases "process_paths A P local_asn d")
  obtain x where x: "r = Inr x" "case fst x of None \<Rightarrow> ds_known d1 = [] | Some b \<Rightarrow> b \<in> set (ds_known d1) \<and>
      list_all (\<lambda>q. path_key A P local_asn b \<le> path_key A P local_asn q) (ds_known d1)"
    using process_result [OF A ok [unfolded k], unfolded p fst_conv snd_conv] by blast
  obtain best reason where "x = (best, reason)" by (cases x)
  with x have b: "r = Inr (best, reason)"
    "case best of None \<Rightarrow> ds_known d1 = [] | Some b \<Rightarrow> b \<in> set (ds_known d1) \<and>
      list_all (\<lambda>q. path_key A P local_asn b \<le> path_key A P local_asn q) (ds_known d1)"
    by simp_all
  show ?thesis unfolding k unfolding p fst_conv
    using b(2)
    by (cases best; cases "ds_best d1"; auto simp: dest_process_best_def p b(1) same_best_def new_best_path_def
      best_path_lost_def Let_def list_all_iff split: option.splits)
qed

end
