(* ===== verification/Bgp_Tables.thy ===== *)
theory Bgp_Tables
  imports Bgp_Dest
begin

text \<open>
  What is in a table: every destination is found under its own prefix and holds only paths of that prefix
  and of the table's route family, announcements and withdrawals apart. Every operation keeps it so, and
  what a processed destination tells others is of that kind, too.
\<close>

definition path_typed :: "int \<times> int \<Rightarrow> string \<Rightarrow> bool \<Rightarrow> bgp_path \<Rightarrow> bool" where
  "path_typed rf nlri w p \<longleftrightarrow> pt_rf p = rf \<and> pt_nlri p = nlri \<and> pt_is_withdraw p = w"

definition dest_typed :: "int \<times> int \<Rightarrow> string \<Rightarrow> bgp_dest \<Rightarrow> bool" where
  "dest_typed rf nlri d \<longleftrightarrow> ds_nlri d = nlri \<and> list_all (path_typed rf nlri False) (ds_known d) \<and>
     list_all (path_typed rf nlri False) (ds_new d) \<and> list_all (path_typed rf nlri True) (ds_withdraws d) \<and>
     pred_option (path_typed rf nlri False) (ds_best d) \<and>
     distinct (map fst (ds_sent d)) \<and> list_all (\<lambda>(peer, p). path_typed rf nlri False p) (ds_sent d)"

definition table_typed :: "bgp_table \<Rightarrow> bool" where
  "table_typed t \<longleftrightarrow> distinct (map fst (tb_dests t)) \<and> list_all (\<lambda>(nlri, d). dest_typed (tb_rf t) nlri d) (tb_dests t)"

fun msg_typed :: "int \<times> int \<Rightarrow> string \<Rightarrow> bgp_msg \<Rightarrow> bool" where
  "msg_typed rf nlri (CommNewBest p) = path_typed rf nlri False p"
| "msg_typed rf nlri (EnqueWithdraw peer p) = path_typed rf nlri True p"
| "msg_typed rf nlri (BestPathChanged p w) = pred_option (path_typed rf nlri False) p"

lemma path_typed_clone: "path_typed rf nlri w p \<Longrightarrow> path_typed rf nlri True (withdraw_clone p)"
  by (simp add: path_typed_def withdraw_clone_def)

lemma list_all_filter: "list_all Q ps \<Longrightarrow> list_all Q (filter R ps)"
  by (auto simp: list_all_iff)

lemma list_all_update: "list_all (\<lambda>(k, v). Q k v) ps \<Longrightarrow> Q k v \<Longrightarrow> list_all (\<lambda>(k, v). Q k v) (AList.update k v ps)"
  by (induction ps) (auto split: if_splits)

lemma list_all_delete: "list_all Q ps \<Longrightarrow> list_all Q (AList.delete k ps)"
  by (auto simp: list_all_iff AList.delete_eq)

lemma list_all_lookup: "list_all (\<lambda>(k, v). Q k v) ps \<Longrightarrow> map_of ps k = Some v \<Longrightarrow> Q k v"
  by (auto simp: list_all_iff dest: map_of_SomeD)

section \<open>Destinations\<close>

lemma create_typed: "dest_typed rf nlri (dest_create nlri)"
  by (simp add: dest_typed_def dest_create_def)

lemma add_typed:
  "dest_typed rf nlri d \<Longrightarrow> path_typed rf nlri False p \<Longrightarrow> dest_typed rf nlri (add_new_path p d)"
  "dest_typed rf nlri d \<Longrightarrow> path_typed rf nlri True p \<Longrightarrow> dest_typed rf nlri (add_withdraw p d)"
  "dest_typed rf nlri d \<Longrightarrow> path_typed rf nlri False p \<Longrightarrow> dest_typed rf nlri (add_sent_route peer p d)"
  by (simp_all add: dest_typed_def add_new_path_def add_withdraw_def add_sent_route_def list_all_update distinct_update)

lemma remove_sent_typed: "dest_typed rf nlri d \<Longrightarrow> dest_typed rf nlri (fst (remove_sent_route peer d))"
  by (simp add: dest_typed_def remove_sent_route_def list_all_delete distinct_delete)

lemma withdraw_if_sent_typed:
  "dest_typed rf nlri d \<Longrightarrow> dest_typed rf nlri (fst (withdraw_if_sent_to peer d)) \<and>
    list_all (msg_typed rf nlri) (snd (withdraw_if_sent_to peer d))"
  by (auto simp: dest_typed_def withdraw_if_sent_to_def list_all_delete distinct_delete split: option.split
      dest: list_all_lookup intro: path_typed_clone)

lemma remove_old_from_source_typed:
  "dest_typed rf nlri d \<Longrightarrow> dest_typed rf nlri (fst (remove_old_paths_from_source peer ver d))"
  by (simp add: dest_typed_def remove_old_paths_from_source_def Let_def list_all_filter)

lemma uninteresting_typed:
  "dest_typed rf nlri d \<Longrightarrow> dest_typed rf nlri (fst (withdraw_uninteresting_paths rts d))"
  by (auto simp: dest_typed_def withdraw_uninteresting_paths_def Let_def list_all_iff intro: path_typed_clone)

lemma remove_withdrawals_typed: "dest_typed rf nlri d \<Longrightarrow> dest_typed rf nlri (remove_withdrawals d)"
  by (simp add: dest_typed_def remove_withdrawals_def Let_def list_all_filter)

lemma list_all_remove_source: "list_all Q ps \<Longrightarrow> list_all Q (remove_source s ps)"
  by (induction ps) auto

lemma list_all_remove_old: "list_all Q known \<Longrightarrow> list_all Q (remove_old_paths new known)"
  unfolding remove_old_paths_def by (induction new arbitrary: known) (simp_all add: list_all_remove_source)

text \<open>A comparison gives one of the two paths, whatever they are.\<close>

definition picks :: "bgp_path \<Rightarrow> bgp_path \<Rightarrow> bgp_path option res \<Rightarrow> bool" where
  "picks p q m \<longleftrightarrow> (case m of Inr (Some b) \<Rightarrow> b = p \<or> b = q | _ \<Rightarrow> True)"

lemma decide_picks: "list_all (\<lambda>(m, r). picks p q m) ms \<Longrightarrow> decide ms = Inr (Some b, r) \<Longrightarrow> b = p \<or> b = q"
proof (induction ms rule: decide.induct)
  case (2 m reason ms)
  show ?case
  proof (cases m)
    case (Inr best)
    with 2 show ?thesis by (cases best) (auto simp: picks_def)
  qed (use 2 in simp)
qed simp

lemma picks_bind: "(\<And>x. picks p q (f x)) \<Longrightarrow> picks p q (res_bind m f)"
  by (cases m) (auto simp: picks_def)

lemma picks_If: "(c \<Longrightarrow> picks p q m) \<Longrightarrow> (\<not> c \<Longrightarrow> picks p q n) \<Longrightarrow> picks p q (if c then m else n)"
  by simp

lemma picks_ends [simp]: "picks p q (Inl e)" "picks p q (Inr None)"
  "picks p q (Inr (if c then Some p else Some q))"
  "picks p q (Inr (if c then Some p else if c' then Some q else None))"
  "picks p q (Inr (if c then Some q else if c' then Some p else None))"
  "picks p q (Inr (if c then None else if c' then Some p else Some q))"
  "picks p q (Inr (if c then None else if c' then Some p else if c'' then Some q else None))"
  by (simp_all add: picks_def)

lemma picks_router_id: "picks p q (cmp_by_router_id A P local_asn p q)"
proof -
  have "picks p q (Inr (Some (if c then p else q)))" for c by (simp add: picks_def)
  then show ?thesis unfolding cmp_by_router_id_def Let_def
    by (intro picks_If picks_bind) (auto simp: split_def intro!: picks_If picks_bind)
qed

lemma picks_steps:
  "picks p q (cmp_by_local_pref p q)" "picks p q (cmp_by_local_origin p q)" "picks p q (cmp_by_aspath p q)"
  "picks p q (cmp_by_origin p q)" "picks p q (cmp_by_med p q)" "picks p q (cmp_by_asn P local_asn p q)"
  "picks p q (cmp_by_cluster_list p q)"
  by (auto simp: cmp_by_local_pref_def cmp_by_local_origin_def cmp_by_aspath_def cmp_by_origin_def cmp_by_med_def
      cmp_by_asn_def cmp_by_cluster_list_def Let_def split: option.split intro!: picks_bind)

lemma best_path_in: "compute_best_path A P local_asn p q = Inr (Some b, r) \<Longrightarrow> b = p \<or> b = q"
  unfolding compute_best_path_def
  by (erule decide_picks [rotated])
    (simp_all add: picks_steps picks_router_id cmp_by_reachable_nh_def cmp_by_highest_wg_def cmp_by_igp_cost_def)

lemma best_known_loop_in: "best_known_loop A P local_asn b r ps = Inr (c, r') \<Longrightarrow> c \<in> set (b # ps)"
proof (induction ps arbitrary: b r)
  case (Cons p ps)
  obtain x where x: "compute_best_path A P local_asn b p = Inr x"
    using Cons.prems by (cases "compute_best_path A P local_asn b p") simp_all
  obtain new r1 where n: "x = (new, r1)" by (cases x)
  have "c \<in> set ((case new of None \<Rightarrow> b | Some n \<Rightarrow> n) # ps)"
    using Cons.IH Cons.prems x n by simp
  moreover have "(case new of None \<Rightarrow> b | Some n \<Rightarrow> n) \<in> {b, p}"
    using best_path_in [of A P local_asn b p _ r1] x n by (auto split: option.split)
  ultimately show ?case by auto
qed simp

lemma best_known_in: "compute_best_known_path A P local_asn ps = Inr (c, r) \<Longrightarrow> c \<in> set ps"
  unfolding compute_best_known_path_def by (cases ps) (auto dest: best_known_loop_in)

lemma process_paths_typed:
  assumes "dest_typed rf nlri d" "process_paths A P local_asn d = (d', out)"
  shows "dest_typed rf nlri d'" "out = Inr (Some b, reason) \<Longrightarrow> b \<in> set (ds_known d')"
proof -
  let ?r = "remove_withdrawals d" and ?k = "remove_old_paths (ds_new (remove_withdrawals d)) (ds_known (remove_withdrawals d)) @ ds_new (remove_withdrawals d)"
  have r: "dest_typed rf nlri ?r" by (rule remove_withdrawals_typed [OF assms(1)])
  have k: "list_all (path_typed rf nlri False) ?k" using r by (simp add: dest_typed_def list_all_remove_old)
  show "dest_typed rf nlri d'"
    using assms(2) r k unfolding process_paths_def Let_def
    by (auto simp: dest_typed_def split: if_splits)
  show "b \<in> set (ds_known d')" if "out = Inr (Some b, reason)"
  proof (cases "ds_known ?r = [] \<and> length (ds_new ?r) = 1")
    case True
    then show ?thesis using assms(2) that unfolding process_paths_def Let_def by (auto simp: length_Suc_conv)
  next
    case False
    with assms(2) that have known: "ds_known d' = ?k" and c: "?k \<noteq> []"
      "res_bind (compute_best_known_path A P local_asn ?k) (\<lambda>(b, r). Inr (Some b, r)) = Inr (Some b, reason)"
      unfolding process_paths_def Let_def by (auto split: if_splits)
    from c(2) have "compute_best_known_path A P local_asn ?k = Inr (b, reason)"
      by (cases "compute_best_known_path A P local_asn ?k") auto
    then show ?thesis unfolding known by (rule best_known_in)
  qed
qed

lemma withdraw_sent_typed: "dest_typed rf nlri d \<Longrightarrow> list_all (msg_typed rf nlri) (withdraw_sent d)"
  by (induction "ds_sent d" arbitrary: d)
    (auto simp: dest_typed_def withdraw_sent_def list_all_iff split_def dest: path_typed_clone)

lemma best_path_lost_typed:
  "dest_typed rf nlri d \<Longrightarrow> best_path_lost d = (d', msgs) \<Longrightarrow> dest_typed rf nlri d' \<and> list_all (msg_typed rf nlri) msgs"
  using withdraw_sent_typed [of rf nlri d] by (auto simp: best_path_lost_def) (auto simp: dest_typed_def)

lemma new_best_path_typed:
  assumes "dest_typed rf nlri d" "path_typed rf nlri False p" "new_best_path p d = (d', msgs)"
  shows "dest_typed rf nlri d' \<and> list_all (msg_typed rf nlri) msgs"
proof -
  have "withdraw_sent (d\<lparr>ds_best := b\<rparr>) = withdraw_sent d" "withdraw_sent (d\<lparr>ds_best := b, ds_sent := []\<rparr>) = []" for b
    by (simp_all add: withdraw_sent_def)
  then show ?thesis using assms withdraw_sent_typed [OF assms(1)]
    by (auto simp: new_best_path_def Let_def dest_typed_def split: option.splits if_splits)
qed

lemma dest_process_typed:
  assumes "dest_typed rf nlri d" "dest_process_best A P local_asn d = (d', msgs, e)"
  shows "dest_typed rf nlri d' \<and> list_all (msg_typed rf nlri) msgs"
proof -
  obtain d1 out where p: "process_paths A P local_asn d = (d1, out)" by (cases "process_paths A P local_asn d")
  note t = process_paths_typed [OF assms(1) p]
  show ?thesis
  proof (cases out)
    case (Inl x)
    with assms(2) p t(1) show ?thesis by (auto simp: dest_process_best_def)
  next
    case (Inr x)
    obtain best reason where x: "x = (best, reason)" by (cases x)
    let ?d = "d1\<lparr>ds_reason := Some reason\<rparr>"
    have d: "dest_typed rf nlri ?d" using t(1) by (simp add: dest_typed_def)
    show ?thesis
    proof (cases best)
      case None
      with assms(2) p Inr x d show ?thesis
        by (auto simp: dest_process_best_def Let_def split: if_splits prod.splits dest: best_path_lost_typed)
    next
      case (Some b)
      have "path_typed rf nlri False b"
        using t(2) [of b reason] Inr x Some t(1) by (auto simp: dest_typed_def list_all_iff)
      with assms(2) p Inr x Some d show ?thesis
        by (auto simp: dest_process_best_def Let_def split: if_splits prod.splits dest: new_best_path_typed)
    qed
  qed
qed

section \<open>Tables\<close>

inductive table_step :: "addrconv \<Rightarrow> bgp_peers \<Rightarrow> int \<Rightarrow> bgp_table \<Rightarrow> bgp_table \<Rightarrow> bool" for A P local_asn where
  TabInsert: "table_insert p t = Inr t' \<Longrightarrow> table_step A P local_asn t t'"
| TabSent: "\<not> pt_is_withdraw p \<Longrightarrow> insert_sent_route peer p t = Inr t' \<Longrightarrow> table_step A P local_asn t t'"
| TabDelete: "delete_dest nlri t = Inr t' \<Longrightarrow> table_step A P local_asn t t'"
| TabCleanup: "table_step A P local_asn t (fst (cleanup_paths_for_peer peer ver t))"
| TabUninteresting: "table_step A P local_asn t (fst (clean_uninteresting_paths rts t))"
| TabProcess: "table_step A P local_asn t (fst (table_process A P local_asn nlri t))"

definition table_create :: "int \<times> int \<Rightarrow> bgp_table" where
  "table_create rf = \<lparr>tb_rf = rf, tb_dests = []\<rparr>"

lemma put_typed: "table_typed t \<Longrightarrow> dest_typed (tb_rf t) nlri d \<Longrightarrow> table_typed (put_dest nlri d t)"
  by (simp add: table_typed_def put_dest_def distinct_update list_all_update)

lemma get_typed: "table_typed t \<Longrightarrow> dest_typed (tb_rf t) nlri (get_or_create_dest nlri t)"
  by (auto simp: table_typed_def get_or_create_dest_def create_typed split: option.split dest: list_all_lookup)

lemma map_typed:
  "table_typed t \<Longrightarrow> (\<And>nlri d. dest_typed (tb_rf t) nlri d \<Longrightarrow> dest_typed (tb_rf t) nlri (f d)) \<Longrightarrow>
    table_typed (t\<lparr>tb_dests := map (\<lambda>(k, d). (k, f d)) (tb_dests t)\<rparr>)"
  by (auto simp: table_typed_def list_all_iff comp_def split_def)

lemma delete_typed: "table_typed t \<Longrightarrow> table_typed (t\<lparr>tb_dests := AList.delete nlri (tb_dests t)\<rparr>)"
  by (simp add: table_typed_def list_all_delete distinct_delete)

lemma process_typed:
  assumes "table_typed t" "table_process A P local_asn nlri t = (t', msgs, e)"
  shows "table_typed t' \<and> tb_rf t' = tb_rf t \<and> list_all (msg_typed (tb_rf t) nlri) msgs"
proof (cases "map_of (tb_dests t) nlri")
  case None
  with assms show ?thesis by (auto simp: table_process_def)
next
  case (Some d)
  obtain d' m x where p: "dest_process_best A P local_asn d = (d', m, x)" by (cases "dest_process_best A P local_asn d")
  have "dest_typed (tb_rf t) nlri d" using assms(1) Some by (auto simp: table_typed_def dest: list_all_lookup)
  from dest_process_typed [OF this p] show ?thesis
    using assms Some p put_typed [OF assms(1)] delete_typed [OF assms(1)]
    by (auto simp: table_process_def put_dest_def split: option.splits if_splits)
qed

lemma step_typed: "table_step A P local_asn t t' \<Longrightarrow> table_typed t \<Longrightarrow> table_typed t' \<and> tb_rf t' = tb_rf t"
proof (induction rule: table_step.induct)
  case (TabInsert p t t')
  then have "pt_rf p = tb_rf t" by (auto simp: table_insert_def split: if_splits)
  moreover have "dest_typed (tb_rf t) (pt_nlri p) (get_or_create_dest (pt_nlri p) t)" by (rule get_typed [OF TabInsert(2)])
  ultimately have "dest_typed (tb_rf t) (pt_nlri p)
      (if pt_is_withdraw p then add_withdraw p (get_or_create_dest (pt_nlri p) t) else add_new_path p (get_or_create_dest (pt_nlri p) t))"
    by (simp add: add_typed path_typed_def)
  from put_typed [OF TabInsert(2) this] show ?case
    using TabInsert(1) by (auto simp: table_insert_def Let_def put_dest_def split: if_splits)
next
  case (TabSent p peer t t')
  then have "pt_rf p = tb_rf t" by (auto simp: insert_sent_route_def split: if_splits)
  with TabSent(1) get_typed [OF TabSent(3), of "pt_nlri p"] have
    "dest_typed (tb_rf t) (pt_nlri p) (add_sent_route peer p (get_or_create_dest (pt_nlri p) t))"
    by (simp add: add_typed path_typed_def)
  from put_typed [OF TabSent(3) this] show ?case
    using TabSent(2) by (auto simp: insert_sent_route_def put_dest_def split: if_splits)
next
  case (TabDelete nlri t t')
  then show ?case using delete_typed by (auto simp: delete_dest_def split: if_splits)
next
  case (TabCleanup t peer ver)
  have "table_typed (t\<lparr>tb_dests := map (\<lambda>(k, d). (k, fst (remove_sent_route peer (fst (remove_old_paths_from_source peer ver d)))))
      (tb_dests t)\<rparr>)"
    by (rule map_typed [OF TabCleanup]) (intro remove_sent_typed remove_old_from_source_typed)
  then show ?case by (simp add: cleanup_paths_for_peer_def Let_def)
next
  case (TabUninteresting t rts)
  have "table_typed (t\<lparr>tb_dests := map (\<lambda>(k, d). (k, fst (withdraw_uninteresting_paths rts d))) (tb_dests t)\<rparr>)"
    by (rule map_typed [OF TabUninteresting]) (rule uninteresting_typed)
  then show ?case by (simp add: clean_uninteresting_paths_def)
next
  case (TabProcess t nlri)
  obtain t' m e where p: "table_process A P local_asn nlri t = (t', m, e)" by (cases "table_process A P local_asn nlri t")
  with process_typed [OF TabProcess p] show ?case by simp
qed

lemma steps_typed: "(table_step A P local_asn)\<^sup>*\<^sup>* t t' \<Longrightarrow> table_typed t \<Longrightarrow> table_typed t' \<and> tb_rf t' = tb_rf t"
  by (induction rule: rtranclp_induct) (auto dest: step_typed)

lemma create_table_typed: "table_typed (table_create rf)" "tb_rf (table_create rf) = rf"
  by (simp_all add: table_typed_def table_create_def)

end
