(* ===== verification/Bgp_Circlist.thy ===== *)
theory Bgp_Circlist
  imports Ryu_Prelude
begin

text \<open>
  The circular lists of \<^verbatim>\<open>services/protocols/bgp/utils/circlist.py\<close>: the nodes carry the links of the
  list as attributes, the list object is the head of the ring. The attributes are an explicit store, so
  that two lists of the same type share it. Nodes are compared by identity.
\<close>

section \<open>The store\<close>

text \<open>An attribute that is not there reads as \<^verbatim>\<open>None\<close> (\<^verbatim>\<open>node_next\<close>, \<^verbatim>\<open>node_prev\<close>).\<close>

record 'n links =
  nexts :: "'n \<Rightarrow> 'n option"
  prevs :: "'n \<Rightarrow> 'n option"

definition no_links :: "'n links" where
  "no_links = \<lparr>nexts = Map.empty, prevs = Map.empty\<rparr>"

definition node_set_next :: "'n \<Rightarrow> 'n \<Rightarrow> 'n links \<Rightarrow> 'n links" where
  "node_set_next n m st = st\<lparr>nexts := (nexts st)(n \<mapsto> m)\<rparr>"

definition node_set_prev :: "'n \<Rightarrow> 'n \<Rightarrow> 'n links \<Rightarrow> 'n links" where
  "node_set_prev n m st = st\<lparr>prevs := (prevs st)(n \<mapsto> m)\<rparr>"

definition node_del_attrs :: "'n \<Rightarrow> 'n links \<Rightarrow> 'n links" where
  "node_del_attrs n st = (if nexts st n = None then st
     else st\<lparr>nexts := (nexts st)(n := None), prevs := (prevs st)(n := None)\<rparr>)"

text \<open>The assertions of the code are errors.\<close>

definition node_is_on_list :: "'n links \<Rightarrow> 'n \<Rightarrow> bool res" where
  "node_is_on_list st n =
     (if nexts st n = Some n \<or> nexts st n = None
      then (if prevs st n = nexts st n then Inr False else Inl AssertionError)
      else Inr True)"

definition assert_off :: "'n links \<Rightarrow> 'n \<Rightarrow> unit res" where
  "assert_off st n = res_bind (node_is_on_list st n) (\<lambda>b. if b then Inl AssertionError else Inr ())"

definition node_init :: "'n \<Rightarrow> 'n links \<Rightarrow> 'n links res" where
  "node_init n st = res_bind (assert_off st n) (\<lambda>_. Inr (node_set_prev n n (node_set_next n n st)))"

definition node_insert_after :: "'n \<Rightarrow> 'n \<Rightarrow> 'n links \<Rightarrow> 'n links res" where
  "node_insert_after n new st =
     res_bind (assert_off st new) (\<lambda>_.
     if n = new then Inl AssertionError
     else (case nexts st n of None \<Rightarrow> Inl AssertionError
       | Some nxt \<Rightarrow>
           Inr (node_set_prev nxt new (node_set_next new nxt (node_set_prev new n (node_set_next n new st))))))"

definition node_insert_before :: "'n \<Rightarrow> 'n \<Rightarrow> 'n links \<Rightarrow> 'n links res" where
  "node_insert_before n new st =
     res_bind (assert_off st new) (\<lambda>_.
     if n = new then Inl AssertionError
     else (case prevs st n of None \<Rightarrow> Inl AssertionError
       | Some prv \<Rightarrow>
           Inr (node_set_next prv new (node_set_prev new prv (node_set_next new n (node_set_prev n new st))))))"

text \<open>A node on a list has both attributes; attributes of \<^verbatim>\<open>None\<close> cannot be set.\<close>

definition node_unlink :: "'n \<Rightarrow> 'n links \<Rightarrow> 'n links res" where
  "node_unlink n st =
     res_bind (node_is_on_list st n) (\<lambda>b.
     if \<not> b then Inr st
     else (case (prevs st n, nexts st n) of
         (Some prv, Some nxt) \<Rightarrow>
           Inr (node_set_prev n n (node_set_next n n (node_set_prev nxt prv (node_set_next prv nxt st))))
       | _ \<Rightarrow> Inl AttributeError))"

section \<open>Lists\<close>

definition list_create :: "'n \<Rightarrow> 'n links \<Rightarrow> 'n links res" where
  "list_create h st = node_init h st"

definition list_is_empty :: "'n \<Rightarrow> 'n links \<Rightarrow> bool res" where
  "list_is_empty h st = res_bind (node_is_on_list st h) (\<lambda>b. Inr (\<not> b))"

definition list_is_on_list :: "'n \<Rightarrow> 'n links \<Rightarrow> bool res" where
  "list_is_on_list n st = node_is_on_list st n"

definition list_append :: "'n \<Rightarrow> 'n \<Rightarrow> 'n links \<Rightarrow> 'n links res" where
  "list_append h n st = node_insert_before h n st"

definition list_prepend :: "'n \<Rightarrow> 'n \<Rightarrow> 'n links \<Rightarrow> 'n links res" where
  "list_prepend h n st = node_insert_after h n st"

definition list_remove :: "'n \<Rightarrow> 'n links \<Rightarrow> 'n links res" where
  "list_remove n st = res_bind (node_unlink n st) (\<lambda>st. Inr (node_del_attrs n st))"

definition list_pop_first :: "'n \<Rightarrow> 'n links \<Rightarrow> ('n option \<times> 'n links) res" where
  "list_pop_first h st =
     (case nexts st h of
        Some n \<Rightarrow> (if n = h then Inr (None, st)
          else res_bind (list_remove n st) (\<lambda>st. Inr (Some n, st)))
      | None \<Rightarrow> Inr (None, st))"

text \<open>
  The generator keeps the next node while it hands out the current one. The fuel bounds the walk, which
  would not end on a broken ring.
\<close>

fun generator_loop :: "nat \<Rightarrow> 'n \<Rightarrow> 'n links \<Rightarrow> 'n option \<Rightarrow> 'n option list option" where
  "generator_loop 0 h st node = None"
| "generator_loop (Suc k) h st node =
     (if node = Some h then Some []
      else map_option (Cons node) (generator_loop k h st (Option.bind node (nexts st))))"

definition list_generator :: "nat \<Rightarrow> 'n \<Rightarrow> 'n links \<Rightarrow> 'n option list option" where
  "list_generator fuel h st = generator_loop fuel h st (nexts st h)"

fun clear_loop :: "nat \<Rightarrow> 'n \<Rightarrow> 'n option \<Rightarrow> 'n option \<Rightarrow> 'n links \<Rightarrow> 'n links res option" where
  "clear_loop 0 h node nxt st = None"
| "clear_loop (Suc k) h node nxt st =
     (if node = Some h then Some (Inr st)
      else (case (case node of None \<Rightarrow> Inr st | Some n \<Rightarrow> list_remove n st) of
          Inl e \<Rightarrow> Some (Inl e)
        | Inr st \<Rightarrow> clear_loop k h nxt (Option.bind nxt (nexts st)) st))"

definition list_clear :: "nat \<Rightarrow> 'n \<Rightarrow> 'n links \<Rightarrow> 'n links res option" where
  "list_clear fuel h st = clear_loop fuel h (nexts st h) (Option.bind (nexts st h) (nexts st)) st"

section \<open>What a ring represents\<close>

fun chain :: "'n links \<Rightarrow> 'n list \<Rightarrow> bool" where
  "chain st (a # b # xs) \<longleftrightarrow> nexts st a = Some b \<and> prevs st b = Some a \<and> chain st (b # xs)"
| "chain st xs \<longleftrightarrow> True"

definition ring :: "'n links \<Rightarrow> 'n \<Rightarrow> 'n list \<Rightarrow> bool" where
  "ring st h xs \<longleftrightarrow> distinct (h # xs) \<and> chain st (h # xs @ [h])"

definition off_list :: "'n links \<Rightarrow> 'n \<Rightarrow> bool" where
  "off_list st n \<longleftrightarrow> nexts st n = None \<and> prevs st n = None"

text \<open>What an operation leaves alone.\<close>

definition same_outside :: "'n set \<Rightarrow> 'n links \<Rightarrow> 'n links \<Rightarrow> bool" where
  "same_outside N st st' \<longleftrightarrow> (\<forall>m. m \<notin> N \<longrightarrow> nexts st' m = nexts st m \<and> prevs st' m = prevs st m)"

lemma chain_append: "chain st (xs @ a # ys) \<longleftrightarrow> chain st (xs @ [a]) \<and> chain st (a # ys)"
  by (induction st xs rule: chain.induct) (auto simp: neq_Nil_conv split: list.splits)

lemma chain_same: "\<forall>m \<in> set xs. nexts st' m = nexts st m \<and> prevs st' m = prevs st m \<Longrightarrow> chain st' xs = chain st xs"
  by (induction st xs rule: chain.induct) auto

text \<open>Only the successors of all but the last and the predecessors of all but the first are read.\<close>

lemma chain_cong:
  "(\<And>m. m \<in> set (butlast xs) \<Longrightarrow> nexts st' m = nexts st m) \<Longrightarrow> (\<And>m. m \<in> set (tl xs) \<Longrightarrow> prevs st' m = prevs st m) \<Longrightarrow>
    chain st' xs = chain st xs"
proof (induction st xs rule: chain.induct)
  case (1 st a b xs)
  have "chain st' (b # xs) = chain st (b # xs)"
  proof (rule "1.IH")
    show "nexts st' m = nexts st m" if "m \<in> set (butlast (b # xs))" for m
      using "1.prems"(1) [of m] that by (auto split: if_splits)
    show "prevs st' m = prevs st m" if "m \<in> set (tl (b # xs))" for m
      using "1.prems"(2) [of m] that by simp
  qed
  with "1.prems" show ?case by (simp split: if_splits)
qed auto

lemma ring_frame:
  assumes "ring st h xs" "same_outside N st st'" "N \<inter> set (h # xs) = {}"
  shows "ring st' h xs"
proof -
  have "chain st' (h # xs @ [h]) = chain st (h # xs @ [h])"
    using assms(2,3) by (intro chain_same) (auto simp: same_outside_def)
  with assms(1) show ?thesis by (simp add: ring_def)
qed

lemma ring_split:
  assumes "ring st h (xs @ n # ys)"
  defines "p \<equiv> last (h # xs)" and "q \<equiv> hd (ys @ [h])"
  shows "nexts st n = Some q" "prevs st n = Some p" "q \<noteq> n" "p \<noteq> n" "p \<in> set (h # xs)" "q \<in> set (ys @ [h])"
proof -
  have d: "distinct (h # xs @ n # ys)" and c: "chain st ((h # xs) @ n # ys @ [h])"
    using assms(1) by (simp_all add: ring_def)
  have c1: "chain st ((h # xs) @ [n])" and c2: "chain st (n # ys @ [h])"
    using c chain_append [of st "h # xs" n "ys @ [h]"] by blast+
  show "p \<in> set (h # xs)" "q \<in> set (ys @ [h])" unfolding p_def q_def by (auto simp: hd_append)
  with d show "q \<noteq> n" "p \<noteq> n" by auto
  have "(h # xs) @ [n] = butlast (h # xs) @ p # [n]"
    unfolding p_def by (subst append_butlast_last_id [of "h # xs", symmetric]) simp_all
  with c1 have "chain st (p # [n])" using chain_append [of st "butlast (h # xs)" p "[n]"] by metis
  then show "prevs st n = Some p" by simp
  show "nexts st n = Some q" using c2 unfolding q_def by (cases ys) simp_all
qed

lemma on_list_ring:
  assumes "ring st h xs"
  shows "n \<in> set xs \<Longrightarrow> node_is_on_list st n = Inr True" "node_is_on_list st h = Inr (xs \<noteq> [])"
proof -
  show "node_is_on_list st n = Inr True" if n: "n \<in> set xs"
  proof -
    obtain ys zs where "xs = ys @ n # zs" using n by (auto simp: in_set_conv_decomp)
    with ring_split [of st h ys n zs] assms show ?thesis by (simp add: node_is_on_list_def)
  qed
  show "node_is_on_list st h = Inr (xs \<noteq> [])"
    using assms by (cases xs) (auto simp: ring_def node_is_on_list_def)
qed

lemma off_not_in_ring: "ring st h xs \<Longrightarrow> off_list st n \<Longrightarrow> n \<noteq> h \<and> n \<notin> set xs"
proof -
  assume r: "ring st h xs" and o: "off_list st n"
  have "n \<notin> set xs" using on_list_ring(1) [OF r, of n] o by (auto simp: node_is_on_list_def off_list_def)
  moreover have "nexts st h \<noteq> None" using r by (cases xs) (auto simp: ring_def)
  ultimately show ?thesis using o by (auto simp: off_list_def)
qed

lemma assert_off: "off_list st n \<Longrightarrow> assert_off st n = Inr ()"
  by (simp add: assert_off_def node_is_on_list_def off_list_def)


section \<open>The operations on rings\<close>

text \<open>Between two neighbours of the ring a new node goes in, or a node comes out.\<close>

lemma chain_last: "chain st (xs @ [a, b]) \<longleftrightarrow> chain st (xs @ [a]) \<and> nexts st a = Some b \<and> prevs st b = Some a"
  using chain_append [of st xs a "[b]"] by simp

lemma last_of_ring:
  assumes "chain st (h # xs @ [h])"
  shows "prevs st h = Some (last (h # xs))"
proof -
  have "h # xs @ [h] = butlast (h # xs) @ [last (h # xs), h]"
    by (subst append_Cons [symmetric], subst append_butlast_last_id [of "h # xs", symmetric]) simp_all
  with assms show ?thesis using chain_last by metis
qed

lemma ring_append:
  assumes r: "ring st h xs" and o: "off_list st n"
  shows "\<exists>st'. list_append h n st = Inr st' \<and> ring st' h (xs @ [n]) \<and> same_outside (set (n # h # xs)) st st'"
proof -
  define p where "p = last (h # xs)"
  define st' where "st' = node_set_next p n (node_set_prev n p (node_set_next n h (node_set_prev h n st)))"
  have d: "distinct (h # xs)" and c: "chain st (h # xs @ [h])" using r by (simp_all add: ring_def)
  have n: "n \<noteq> h" "n \<notin> set xs" using off_not_in_ring [OF r o] by simp_all
  have p: "p \<in> set (h # xs)" unfolding p_def by (rule last_in_set) simp
  have "list_append h n st = Inr st'"
    using assert_off [OF o] last_of_ring [OF c] n
    by (simp add: list_append_def node_insert_before_def st'_def p_def)
  moreover have "chain st' (h # xs @ [n, h])"
  proof -
    have e: "h # xs @ [n] = butlast (h # xs) @ [p, n]"
      unfolding p_def by (subst append_Cons [symmetric], subst append_butlast_last_id [of "h # xs", symmetric]) simp_all
    have e': "h # xs = butlast (h # xs) @ [p]" unfolding p_def by simp
    have "chain st (h # xs)" using c chain_append [of st "butlast (h # xs)" p "[h]"] e' by (metis append.assoc append_Cons append_Nil)
    moreover have "chain st' (h # xs) = chain st (h # xs)"
    proof (rule chain_cong)
      show "nexts st' m = nexts st m" if m: "m \<in> set (butlast (h # xs))" for m
      proof -
        have "m \<noteq> p" using d m by (subst (asm) e') (auto simp: distinct_append)
        moreover have "m \<in> set (h # xs)" using m by (rule in_set_butlastD)
        ultimately show ?thesis using n by (auto simp: st'_def node_set_next_def node_set_prev_def)
      qed
      show "prevs st' m = prevs st m" if "m \<in> set (tl (h # xs))" for m
        using that d n by (auto simp: st'_def node_set_next_def node_set_prev_def)
    qed
    ultimately have "chain st' (butlast (h # xs) @ [p])" using e' by simp
    then have "chain st' (h # xs @ [n])"
      unfolding e chain_last using p n by (auto simp: st'_def node_set_next_def node_set_prev_def)
    then show ?thesis using n p chain_last [of st' "h # xs" n h]
      by (auto simp: st'_def node_set_next_def node_set_prev_def)
  qed
  ultimately show ?thesis using d n p
    by (auto simp: ring_def same_outside_def st'_def node_set_next_def node_set_prev_def)
qed

lemma ring_prepend:
  assumes r: "ring st h xs" and o: "off_list st n"
  shows "\<exists>st'. list_prepend h n st = Inr st' \<and> ring st' h (n # xs) \<and> same_outside (set (n # h # xs)) st st'"
proof -
  define q where "q = hd (xs @ [h])"
  define st' where "st' = node_set_prev q n (node_set_next n q (node_set_prev n h (node_set_next h n st)))"
  have d: "distinct (h # xs)" and c: "chain st (h # xs @ [h])" using r by (simp_all add: ring_def)
  have n: "n \<noteq> h" "n \<notin> set xs" using off_not_in_ring [OF r o] by simp_all
  have nx: "nexts st h = Some q" using c by (cases xs) (simp_all add: q_def)
  have q: "q \<in> set (h # xs)" by (cases xs) (simp_all add: q_def)
  have "list_prepend h n st = Inr st'"
    using assert_off [OF o] nx n by (simp add: list_prepend_def node_insert_after_def st'_def)
  moreover have "chain st' (h # n # xs @ [h])"
  proof -
    have c': "chain st (xs @ [h])" using c by (cases xs) simp_all
    have "chain st' (xs @ [h]) = chain st (xs @ [h])"
    proof (rule chain_cong)
      show "nexts st' m = nexts st m" if "m \<in> set (butlast (xs @ [h]))" for m
        using that n d by (auto simp: st'_def node_set_next_def node_set_prev_def)
      show "prevs st' m = prevs st m" if m: "m \<in> set (tl (xs @ [h]))" for m
      proof (cases xs)
        case (Cons x ys)
        with m d n show ?thesis by (auto simp: st'_def node_set_next_def node_set_prev_def q_def)
      qed (use m in simp)
    qed
    with c' show ?thesis using n q
      by (cases xs) (auto simp: st'_def node_set_next_def node_set_prev_def q_def)
  qed
  ultimately show ?thesis using d n q
    by (auto simp: ring_def same_outside_def st'_def node_set_next_def node_set_prev_def)
qed

lemma ring_remove:
  assumes r: "ring st h (xs @ n # ys)"
  shows "\<exists>st'. list_remove n st = Inr st' \<and> ring st' h (xs @ ys) \<and> off_list st' n \<and>
    same_outside (set (h # xs @ n # ys)) st st'"
proof -
  define p where "p = last (h # xs)"
  define q where "q = hd (ys @ [h])"
  define st' where "st' = node_del_attrs n (node_set_prev n n (node_set_next n n (node_set_prev q p (node_set_next p q st))))"
  have d: "distinct (h # xs @ n # ys)" and c: "chain st ((h # xs) @ n # ys @ [h])" using r by (simp_all add: ring_def)
  note s = ring_split [OF r, folded p_def q_def]
  have on: "node_is_on_list st n = Inr True" using on_list_ring(1) [OF r] by simp
  have "list_remove n st = Inr st'"
    using on s by (simp add: list_remove_def node_unlink_def st'_def)
  moreover have "off_list st' n" by (simp add: st'_def off_list_def node_del_attrs_def node_set_next_def node_set_prev_def)
  moreover have "chain st' (h # (xs @ ys) @ [h])"
  proof -
    have e: "h # xs = butlast (h # xs) @ [p]" unfolding p_def by simp
    have "chain st ((h # xs) @ [n])" and c2: "chain st (n # ys @ [h])"
      using c chain_append [of st "h # xs" n "ys @ [h]"] by blast+
    then have "chain st (butlast (h # xs) @ [p, n])" using e by (metis append.assoc append_Cons append_Nil)
    then have c1: "chain st (h # xs)" using chain_last e by metis
    have "chain st' (h # xs) = chain st (h # xs)"
    proof (rule chain_cong)
      show "nexts st' m = nexts st m" if m: "m \<in> set (butlast (h # xs))" for m
      proof -
        have "distinct (h # xs)" using d by simp
        then have "m \<noteq> p" using m by (subst (asm) e) (auto simp: distinct_append)
        moreover have "m \<noteq> n" using in_set_butlastD [OF m] d by auto
        ultimately show ?thesis by (auto simp: st'_def node_set_next_def node_set_prev_def node_del_attrs_def)
      qed
      show "prevs st' m = prevs st m" if m: "m \<in> set (tl (h # xs))" for m
      proof -
        have "m \<noteq> q" "m \<noteq> n" using m d s(6) by auto
        then show ?thesis by (auto simp: st'_def node_set_next_def node_set_prev_def node_del_attrs_def)
      qed
    qed
    with c1 have x1: "chain st' (butlast (h # xs) @ [p])" using e by simp
    have c3: "chain st (ys @ [h])" using c2 by (cases ys) simp_all
    have x2: "chain st' (ys @ [h])"
    proof -
      have "chain st' (ys @ [h]) = chain st (ys @ [h])"
      proof (rule chain_cong)
        show "nexts st' m = nexts st m" if "m \<in> set (butlast (ys @ [h]))" for m
          using that d s(5) by (auto simp: st'_def node_set_next_def node_set_prev_def node_del_attrs_def)
        show "prevs st' m = prevs st m" if m: "m \<in> set (tl (ys @ [h]))" for m
        proof (cases ys)
          case (Cons y zs)
          with m d show ?thesis by (auto simp: st'_def q_def node_set_next_def node_set_prev_def node_del_attrs_def)
        qed (use m in simp)
      qed
      with c3 show ?thesis by simp
    qed
    have "nexts st' p = Some q" "prevs st' q = Some p"
      using s(3,4) by (simp_all add: st'_def node_set_next_def node_set_prev_def node_del_attrs_def)
    then have "chain st' (p # ys @ [h])" using x2 by (cases ys) (simp_all add: q_def)
    with x1 have "chain st' (butlast (h # xs) @ p # ys @ [h])" using chain_append by metis
    moreover have "butlast (h # xs) @ p # ys @ [h] = h # (xs @ ys) @ [h]" using e by (metis append.assoc append_Cons append_Nil)
    ultimately show ?thesis by (simp only: append_assoc)
  qed
  ultimately show ?thesis using d s(5,6)
    by (auto simp: ring_def same_outside_def st'_def node_set_next_def node_set_prev_def node_del_attrs_def)
qed

lemma ring_pop_first:
  assumes "ring st h xs"
  shows "case xs of [] \<Rightarrow> list_pop_first h st = Inr (None, st)
    | n # ys \<Rightarrow> \<exists>st'. list_pop_first h st = Inr (Some n, st') \<and> ring st' h ys \<and> off_list st' n \<and>
        same_outside (set (h # xs)) st st'"
proof (cases xs)
  case Nil
  with assms show ?thesis by (simp add: ring_def list_pop_first_def)
next
  case (Cons n ys)
  with assms have "nexts st h = Some n" "n \<noteq> h" by (auto simp: ring_def)
  moreover have "ring st h ([] @ n # ys)" using assms Cons by simp
  from ring_remove [OF this] obtain st' where "list_remove n st = Inr st'" "ring st' h ys" "off_list st' n"
    "same_outside (set (h # xs)) st st'" using Cons by auto
  ultimately show ?thesis using Cons by (simp add: list_pop_first_def)
qed

lemma ring_generator: "ring st h xs \<Longrightarrow> length xs < fuel \<Longrightarrow> list_generator fuel h st = Some (map Some xs)"
proof -
  have "chain st (a # xs @ [h]) \<Longrightarrow> h \<notin> set xs \<Longrightarrow> length xs < fuel \<Longrightarrow>
      generator_loop fuel h st (nexts st a) = Some (map Some xs)" for a
  proof (induction xs arbitrary: a fuel)
    case Nil
    then show ?case by (cases fuel) simp_all
  next
    case (Cons x xs)
    then show ?case by (cases fuel) auto
  qed
  moreover assume "ring st h xs" "length xs < fuel"
  ultimately show ?thesis by (auto simp: list_generator_def ring_def)
qed

lemma ring_clear:
  "ring st h xs \<Longrightarrow> length xs < fuel \<Longrightarrow> \<exists>st'. list_clear fuel h st = Some (Inr st') \<and> ring st' h [] \<and>
    list_all (off_list st') xs"
proof -
  have "ring st h xs \<Longrightarrow> length xs < fuel \<Longrightarrow>
    \<exists>st'. clear_loop fuel h (nexts st h) (Option.bind (nexts st h) (nexts st)) st = Some (Inr st') \<and> ring st' h [] \<and>
      list_all (off_list st') xs \<and> same_outside (set (h # xs)) st st'"
  proof (induction xs arbitrary: st fuel)
    case Nil
    then show ?case by (cases fuel) (auto simp: ring_def same_outside_def)
  next
    case (Cons n ys)
    then obtain k where k: "fuel = Suc k" by (cases fuel) simp_all
    have h: "nexts st h = Some n" "n \<noteq> h" "n \<notin> set ys" using Cons.prems by (auto simp: ring_def)
    have "ring st h ([] @ n # ys)" using Cons.prems by simp
    from ring_remove [OF this] obtain st1 where r: "list_remove n st = Inr st1" "ring st1 h ys" "off_list st1 n"
      "same_outside (set (h # n # ys)) st st1" by auto
    have nx: "nexts st n = nexts st1 h" "nexts st1 h = Some (hd (ys @ [h]))"
      using Cons.prems(1) r(2) by (cases ys; simp add: ring_def)+
    obtain st' where "clear_loop k h (nexts st1 h) (Option.bind (nexts st1 h) (nexts st1)) st1 = Some (Inr st')"
      "ring st' h []" "list_all (off_list st') ys" "same_outside (set (h # ys)) st1 st'"
      using Cons.IH [OF r(2), of k] Cons.prems(2) k by auto
    moreover from this(4) have "off_list st' n" using r(3) h by (simp add: same_outside_def off_list_def)
    ultimately show ?case using k h r nx by (auto simp: same_outside_def)
  qed
  moreover assume "ring st h xs" "length xs < fuel"
  ultimately show ?thesis by (auto simp: list_clear_def)
qed

lemma ring_create:
  assumes "off_list st h"
  shows "\<exists>st'. list_create h st = Inr st' \<and> ring st' h [] \<and> same_outside {h} st st'"
  using assert_off [OF assms]
  by (simp add: list_create_def node_init_def ring_def node_set_next_def node_set_prev_def same_outside_def)

end
