(* ===== verification/Bgp_Processor.thy ===== *)
theory Bgp_Processor
  imports Bgp_Dest Bgp_Circlist
begin

text \<open>
  The processor of queued destinations: \<^verbatim>\<open>BgpProcessor\<close> of
  \<^verbatim>\<open>services/protocols/bgp/processor.py\<close>. Its two queues are circular lists over the same link
  attributes; destinations are named by their route family and their key in the table of that family.
\<close>

section \<open>State\<close>

datatype bgp_node = DestQueue | RtDestQueue | DestNode "int \<times> int" string

definition RF_IPv4_UC :: "int \<times> int" where "RF_IPv4_UC = (1, 1)"
definition RF_RTC_UC :: "int \<times> int" where "RF_RTC_UC = (1, 132)"

record bgp_processor =
  pr_links :: "bgp_node links"
  pr_tables :: "int \<times> int \<Rightarrow> bgp_table"
  pr_msgs :: "bgp_msg list"
  pr_event :: bool
  pr_filter_updates :: nat

definition MAX_DEST_PROCESSED_PER_CYCLE :: nat where "MAX_DEST_PROCESSED_PER_CYCLE = 100"

definition processor_create :: "(int \<times> int \<Rightarrow> bgp_table) \<Rightarrow> bgp_processor res" where
  "processor_create tables =
     res_bind (list_create DestQueue no_links) (\<lambda>st.
     res_bind (list_create RtDestQueue st) (\<lambda>st.
     Inr \<lparr>pr_links = st, pr_tables = tables, pr_msgs = [], pr_event = False, pr_filter_updates = 0\<rparr>))"

definition work_units :: "nat option \<Rightarrow> nat" where
  "work_units u = (case u of None \<Rightarrow> MAX_DEST_PROCESSED_PER_CYCLE
     | Some k \<Rightarrow> if k = 0 then MAX_DEST_PROCESSED_PER_CYCLE else k)"

section \<open>Queueing\<close>

definition queue_of :: "int \<times> int \<Rightarrow> bgp_node" where
  "queue_of rf = (if rf = RF_RTC_UC then RtDestQueue else DestQueue)"

definition processor_enqueue :: "int \<times> int \<Rightarrow> string \<Rightarrow> bgp_processor \<Rightarrow> bgp_processor res" where
  "processor_enqueue rf key s =
     res_bind (list_is_on_list (DestNode rf key) (pr_links s)) (\<lambda>on.
     res_bind (if on then Inr (pr_links s) else list_append (queue_of rf) (DestNode rf key) (pr_links s)) (\<lambda>st.
     Inr (s\<lparr>pr_links := st, pr_event := True\<rparr>)))"

section \<open>Processing\<close>

text \<open>Destinations of route targets do not signal their best path (\<^verbatim>\<open>RtcDest\<close>).\<close>

fun is_signal :: "bgp_msg \<Rightarrow> bool" where
  "is_signal (BestPathChanged p w) = True"
| "is_signal m = False"

definition process_node :: "addrconv \<Rightarrow> bgp_peers \<Rightarrow> int \<Rightarrow> bgp_node \<Rightarrow> bgp_processor \<Rightarrow> bgp_processor \<times> py_error option" where
  "process_node A P local_asn n s =
     (case n of
        DestNode rf key \<Rightarrow>
          (case table_process A P local_asn key (pr_tables s rf) of
             (t, msgs, e) \<Rightarrow>
               (s\<lparr>pr_tables := (pr_tables s)(rf := t),
                  pr_msgs := pr_msgs s @ (if rf = RF_RTC_UC then filter (\<lambda>m. \<not> is_signal m) msgs else msgs)\<rparr>, e))
      | _ \<Rightarrow> (s, Some AttributeError))"

text \<open>
  The loop of \<^verbatim>\<open>_process_dest\<close>. The outer option is \<^term>\<open>None\<close> for a loop that does not end: it
  would spin on a queue that is not empty and gives no node.
\<close>

fun process_dest_loop :: "addrconv \<Rightarrow> bgp_peers \<Rightarrow> int \<Rightarrow> nat \<Rightarrow> bgp_processor \<Rightarrow> (bgp_processor \<times> py_error option) option" where
  "process_dest_loop A P local_asn 0 s = Some (s, None)"
| "process_dest_loop A P local_asn (Suc k) s =
     (case list_is_empty DestQueue (pr_links s) of
        Inl e \<Rightarrow> Some (s, Some e)
      | Inr True \<Rightarrow> Some (s, None)
      | Inr False \<Rightarrow>
          (case list_pop_first DestQueue (pr_links s) of
             Inl e \<Rightarrow> Some (s, Some e)
           | Inr (None, st) \<Rightarrow> None
           | Inr (Some n, st) \<Rightarrow>
               (case process_node A P local_asn n (s\<lparr>pr_links := st\<rparr>) of
                  (s, Some e) \<Rightarrow> Some (s, Some e)
                | (s, None) \<Rightarrow> process_dest_loop A P local_asn k s)))"

definition process_dest :: "addrconv \<Rightarrow> bgp_peers \<Rightarrow> int \<Rightarrow> nat \<Rightarrow> bgp_processor \<Rightarrow> (bgp_processor \<times> py_error option) option" where
  "process_dest A P local_asn units s = process_dest_loop A P local_asn units s"

text \<open>The loop of \<^verbatim>\<open>_process_rtdest\<close> has no bound: fuel.\<close>

fun process_rtdest_loop :: "nat \<Rightarrow> addrconv \<Rightarrow> bgp_peers \<Rightarrow> int \<Rightarrow> bgp_processor \<Rightarrow> (bgp_processor \<times> py_error option) option" where
  "process_rtdest_loop 0 A P local_asn s = None"
| "process_rtdest_loop (Suc k) A P local_asn s =
     (case list_is_empty RtDestQueue (pr_links s) of
        Inl e \<Rightarrow> Some (s, Some e)
      | Inr True \<Rightarrow> Some (s, None)
      | Inr False \<Rightarrow>
          (case list_pop_first RtDestQueue (pr_links s) of
             Inl e \<Rightarrow> Some (s, Some e)
           | Inr (None, st) \<Rightarrow> process_rtdest_loop k A P local_asn (s\<lparr>pr_links := st\<rparr>)
           | Inr (Some n, st) \<Rightarrow>
               (case process_node A P local_asn n (s\<lparr>pr_links := st\<rparr>) of
                  (s, Some e) \<Rightarrow> Some (s, Some e)
                | (s, None) \<Rightarrow> process_rtdest_loop k A P local_asn s)))"

definition process_rtdest :: "nat \<Rightarrow> addrconv \<Rightarrow> bgp_peers \<Rightarrow> int \<Rightarrow> bgp_processor \<Rightarrow> (bgp_processor \<times> py_error option) option" where
  "process_rtdest fuel A P local_asn s =
     (case list_is_empty RtDestQueue (pr_links s) of
        Inl e \<Rightarrow> Some (s, Some e)
      | Inr True \<Rightarrow> Some (s, None)
      | Inr False \<Rightarrow>
          (case process_rtdest_loop fuel A P local_asn s of
             None \<Rightarrow> None
           | Some (s, Some e) \<Rightarrow> Some (s, Some e)
           | Some (s, None) \<Rightarrow> Some (s\<lparr>pr_filter_updates := Suc (pr_filter_updates s)\<rparr>, None)))"

text \<open>One turn of the endless loop of \<^verbatim>\<open>_run\<close>: the flag says that it waits for the event then.\<close>

definition processor_turn :: "nat \<Rightarrow> addrconv \<Rightarrow> bgp_peers \<Rightarrow> int \<Rightarrow> nat \<Rightarrow> bgp_processor \<Rightarrow>
    (bgp_processor \<times> (bool, py_error) sum) option" where
  "processor_turn fuel A P local_asn units s =
     (case process_rtdest fuel A P local_asn s of
        None \<Rightarrow> None
      | Some (s, Some e) \<Rightarrow> Some (s, Inr e)
      | Some (s, None) \<Rightarrow>
          (case process_dest A P local_asn units s of
             None \<Rightarrow> None
           | Some (s, Some e) \<Rightarrow> Some (s, Inr e)
           | Some (s, None) \<Rightarrow>
               (case list_is_empty DestQueue (pr_links s) of
                  Inl e \<Rightarrow> Some (s, Inr e)
                | Inr True \<Rightarrow> Some (s\<lparr>pr_event := False\<rparr>, Inl True)
                | Inr False \<Rightarrow> Some (s, Inl False))))"

end
