(* ===== verification/Bgp_Queue.thy ===== *)
theory Bgp_Queue
  imports Bgp_Processor
begin

text \<open>
  What the processor promises: its queues are served first in, first out, each queued destination once,
  and the queue of route targets before the other. The abstract processor keeps plain lists.
\<close>

section \<open>Work queues\<close>

locale work_queue =
  fixes holds :: "'st \<Rightarrow> 'n list \<Rightarrow> bool"
    and empty :: "'st \<Rightarrow> bool res"
    and enq :: "'n \<Rightarrow> 'st \<Rightarrow> 'st res"
    and deq :: "'st \<Rightarrow> ('n option \<times> 'st) res"
    and free :: "'st \<Rightarrow> 'n \<Rightarrow> bool"
  assumes empty_law: "holds st ns \<Longrightarrow> empty st = Inr (ns = [])"
    and enq_law: "holds st ns \<Longrightarrow> free st n \<Longrightarrow> \<exists>st'. enq n st = Inr st' \<and> holds st' (ns @ [n])"
    and deq_law: "holds st (n # ns) \<Longrightarrow> \<exists>st'. deq st = Inr (Some n, st') \<and> holds st' ns \<and> free st' n"
begin

lemma deq_hd: "holds st ns \<Longrightarrow> ns \<noteq> [] \<Longrightarrow> \<exists>st'. deq st = Inr (Some (hd ns), st') \<and> holds st' (tl ns)"
  using deq_law [of st "hd ns" "tl ns"] by (cases ns) auto

text \<open>What was served can be queued again, behind the others.\<close>

lemma requeue: "holds st (n # ns) \<Longrightarrow>
    \<exists>st' st''. deq st = Inr (Some n, st') \<and> enq n st' = Inr st'' \<and> holds st'' (ns @ [n])"
  using deq_law [of st n ns] enq_law by blast

end

section \<open>Two rings over one store\<close>

definition queue_nodes :: "bgp_node list \<Rightarrow> bgp_node list \<Rightarrow> bool" where
  "queue_nodes q rq \<longleftrightarrow>
     list_all (\<lambda>n. \<exists>rf key. n = DestNode rf key \<and> rf \<noteq> RF_RTC_UC) q \<and> list_all (\<lambda>n. \<exists>key. n = DestNode RF_RTC_UC key) rq"

definition two_queues :: "bgp_node links \<Rightarrow> bgp_node list \<Rightarrow> bgp_node list \<Rightarrow> bool" where
  "two_queues st q rq \<longleftrightarrow> ring st DestQueue q \<and> ring st RtDestQueue rq \<and> queue_nodes q rq \<and>
     (\<forall>n. n \<notin> {DestQueue, RtDestQueue} \<union> set q \<union> set rq \<longrightarrow> off_list st n)"

lemma queue_nodes_disjoint:
  assumes "queue_nodes q rq"
  shows "set (DestQueue # q) \<inter> set (RtDestQueue # rq) = {}"
  using assms by (force simp: queue_nodes_def list_all_iff)

lemma off_list_frame: "off_list st n \<Longrightarrow> same_outside N st st' \<Longrightarrow> n \<notin> N \<Longrightarrow> off_list st' n"
  by (simp add: off_list_def same_outside_def)

lemma two_queues_on_list:
  assumes "two_queues st q rq"
  shows "list_is_on_list (DestNode rf key) st = Inr (DestNode rf key \<in> set q \<union> set rq)"
proof (cases "DestNode rf key \<in> set q \<union> set rq")
  case True
  then show ?thesis
    using assms on_list_ring(1) [of st DestQueue q "DestNode rf key"] on_list_ring(1) [of st RtDestQueue rq "DestNode rf key"]
    by (auto simp: two_queues_def list_is_on_list_def)
next
  case False
  then have "off_list st (DestNode rf key)" using assms by (simp add: two_queues_def)
  with False show ?thesis by (simp add: list_is_on_list_def node_is_on_list_def off_list_def)
qed

lemma two_queues_empty:
  "two_queues st q rq \<Longrightarrow> list_is_empty DestQueue st = Inr (q = []) \<and> list_is_empty RtDestQueue st = Inr (rq = [])"
  using on_list_ring(2) by (fastforce simp: two_queues_def list_is_empty_def)

text \<open>A change of one ring leaves the other alone.\<close>

lemma two_queues_dest:
  assumes "two_queues st q rq" "ring st' DestQueue q'" "same_outside N st st'" "N \<inter> set (RtDestQueue # rq) = {}"
    and "queue_nodes q' rq" "\<And>n. n \<in> N \<Longrightarrow> n \<notin> set q' \<Longrightarrow> n \<noteq> DestQueue \<Longrightarrow> off_list st' n"
    and "set q \<subseteq> N"
  shows "two_queues st' q' rq"
proof -
  have "ring st' RtDestQueue rq" using assms(1) by (intro ring_frame [OF _ assms(3,4)]) (simp add: two_queues_def)
  moreover have "off_list st' n" if n: "n \<notin> {DestQueue, RtDestQueue} \<union> set q' \<union> set rq" for n
  proof (cases "n \<in> N")
    case True
    with n assms(6) show ?thesis by simp
  next
    case False
    with n assms(1,7) have "off_list st n" by (auto simp: two_queues_def)
    then show ?thesis using assms(3) False by (rule off_list_frame)
  qed
  ultimately show ?thesis using assms(2,5) by (simp add: two_queues_def)
qed

lemma two_queues_rtdest:
  assumes "two_queues st q rq" "ring st' RtDestQueue rq'" "same_outside N st st'" "N \<inter> set (DestQueue # q) = {}"
    and "queue_nodes q rq'" "\<And>n. n \<in> N \<Longrightarrow> n \<notin> set rq' \<Longrightarrow> n \<noteq> RtDestQueue \<Longrightarrow> off_list st' n"
    and "set rq \<subseteq> N"
  shows "two_queues st' q rq'"
proof -
  have "ring st' DestQueue q" using assms(1) by (intro ring_frame [OF _ assms(3,4)]) (simp add: two_queues_def)
  moreover have "off_list st' n" if n: "n \<notin> {DestQueue, RtDestQueue} \<union> set q \<union> set rq'" for n
  proof (cases "n \<in> N")
    case True
    with n assms(6) show ?thesis by simp
  next
    case False
    with n assms(1,7) have "off_list st n" by (auto simp: two_queues_def)
    then show ?thesis using assms(3) False by (rule off_list_frame)
  qed
  ultimately show ?thesis using assms(2,5) by (simp add: two_queues_def)
qed

definition free_dest :: "bgp_node links \<Rightarrow> bgp_node \<Rightarrow> bool" where
  "free_dest st n \<longleftrightarrow> off_list st n \<and> (\<exists>rf key. n = DestNode rf key \<and> rf \<noteq> RF_RTC_UC)"

definition free_rtdest :: "bgp_node links \<Rightarrow> bgp_node \<Rightarrow> bool" where
  "free_rtdest st n \<longleftrightarrow> off_list st n \<and> (\<exists>key. n = DestNode RF_RTC_UC key)"

interpretation dest_q: work_queue "\<lambda>st q. two_queues st q rq" "list_is_empty DestQueue" "list_append DestQueue"
  "list_pop_first DestQueue" free_dest for rq
proof
  fix st :: "bgp_node links" and q n
  show "list_is_empty DestQueue st = Inr (q = [])" if "two_queues st q rq"
    using two_queues_empty [OF that] by simp
  show "\<exists>st'. list_append DestQueue n st = Inr st' \<and> two_queues st' (q @ [n]) rq"
    if t: "two_queues st q rq" and f: "free_dest st n"
  proof -
    obtain st' where st': "list_append DestQueue n st = Inr st'" "ring st' DestQueue (q @ [n])"
      "same_outside (set (n # DestQueue # q)) st st'"
      using ring_append [of st DestQueue q n] t f by (auto simp: two_queues_def free_dest_def)
    have nodes: "queue_nodes (q @ [n]) rq" using t f by (auto simp: two_queues_def queue_nodes_def free_dest_def)
    have "two_queues st' (q @ [n]) rq"
      by (rule two_queues_dest [OF t st'(2,3) _ nodes]) (use queue_nodes_disjoint [OF nodes] in auto)
    with st'(1) show ?thesis by blast
  qed
  show "\<exists>st'. list_pop_first DestQueue st = Inr (Some n, st') \<and> two_queues st' q rq \<and> free_dest st' n"
    if t: "two_queues st (n # q) rq"
  proof -
    obtain st' where st': "list_pop_first DestQueue st = Inr (Some n, st')" "ring st' DestQueue q" "off_list st' n"
      "same_outside (set (DestQueue # n # q)) st st'"
      using ring_pop_first [of st DestQueue "n # q"] t by (auto simp: two_queues_def)
    have nodes: "queue_nodes (n # q) rq" "queue_nodes q rq" using t by (auto simp: two_queues_def queue_nodes_def)
    have "two_queues st' q rq"
      by (rule two_queues_dest [OF t st'(2,4) _ nodes(2)]) (use queue_nodes_disjoint [OF nodes(1)] st'(3) in auto)
    moreover have "free_dest st' n" using st'(3) nodes(1) by (auto simp: free_dest_def queue_nodes_def)
    ultimately show ?thesis using st'(1) by blast
  qed
qed

interpretation rtdest_q: work_queue "\<lambda>st rq. two_queues st q rq" "list_is_empty RtDestQueue" "list_append RtDestQueue"
  "list_pop_first RtDestQueue" free_rtdest for q
proof
  fix st :: "bgp_node links" and rq n
  show "list_is_empty RtDestQueue st = Inr (rq = [])" if "two_queues st q rq"
    using two_queues_empty [OF that] by simp
  show "\<exists>st'. list_append RtDestQueue n st = Inr st' \<and> two_queues st' q (rq @ [n])"
    if t: "two_queues st q rq" and f: "free_rtdest st n"
  proof -
    obtain st' where st': "list_append RtDestQueue n st = Inr st'" "ring st' RtDestQueue (rq @ [n])"
      "same_outside (set (n # RtDestQueue # rq)) st st'"
      using ring_append [of st RtDestQueue rq n] t f by (auto simp: two_queues_def free_rtdest_def)
    have nodes: "queue_nodes q (rq @ [n])" using t f by (auto simp: two_queues_def queue_nodes_def free_rtdest_def)
    have "two_queues st' q (rq @ [n])"
      by (rule two_queues_rtdest [OF t st'(2,3) _ nodes]) (use queue_nodes_disjoint [OF nodes] in auto)
    with st'(1) show ?thesis by blast
  qed
  show "\<exists>st'. list_pop_first RtDestQueue st = Inr (Some n, st') \<and> two_queues st' q rq \<and> free_rtdest st' n"
    if t: "two_queues st q (n # rq)"
  proof -
    obtain st' where st': "list_pop_first RtDestQueue st = Inr (Some n, st')" "ring st' RtDestQueue rq" "off_list st' n"
      "same_outside (set (RtDestQueue # n # rq)) st st'"
      using ring_pop_first [of st RtDestQueue "n # rq"] t by (auto simp: two_queues_def)
    have nodes: "queue_nodes q (n # rq)" "queue_nodes q rq" using t by (auto simp: two_queues_def queue_nodes_def)
    have "two_queues st' q rq"
      by (rule two_queues_rtdest [OF t st'(2,4) _ nodes(2)]) (use queue_nodes_disjoint [OF nodes(1)] st'(3) in auto)
    moreover have "free_rtdest st' n" using st'(3) nodes(1) by (auto simp: free_rtdest_def queue_nodes_def)
    ultimately show ?thesis using st'(1) by blast
  qed
qed

section \<open>The abstract processor\<close>

text \<open>The destinations of a list in their order, up to the first exception, and what is left of the list.\<close>

fun process_list :: "addrconv \<Rightarrow> bgp_peers \<Rightarrow> int \<Rightarrow> bgp_node list \<Rightarrow> bgp_processor \<Rightarrow>
    bgp_processor \<times> py_error option \<times> bgp_node list" where
  "process_list A P local_asn [] s = (s, None, [])"
| "process_list A P local_asn (n # ns) s =
     (case process_node A P local_asn n s of
        (s, Some e) \<Rightarrow> (s, Some e, ns)
      | (s, None) \<Rightarrow> process_list A P local_asn ns s)"

definition abs_turn :: "addrconv \<Rightarrow> bgp_peers \<Rightarrow> int \<Rightarrow> nat \<Rightarrow> bgp_node list \<times> bgp_node list \<times> bgp_processor \<Rightarrow>
    (bgp_node list \<times> bgp_node list \<times> bgp_processor) \<times> (bool, py_error) sum" where
  "abs_turn A P local_asn units = (\<lambda>(q, rq, s).
     case process_list A P local_asn rq s of
       (s, Some e, rest) \<Rightarrow> ((q, rest, s), Inr e)
     | (s, None, rest) \<Rightarrow>
         (case process_list A P local_asn (take units q)
             (if rq = [] then s else s\<lparr>pr_filter_updates := Suc (pr_filter_updates s)\<rparr>) of
            (s, Some e, rest) \<Rightarrow> ((rest @ drop units q, [], s), Inr e)
          | (s, None, rest) \<Rightarrow>
              (if drop units q = [] then (([], [], s\<lparr>pr_event := False\<rparr>), Inl True)
               else ((drop units q, [], s), Inl False))))"

definition abs_enqueue :: "int \<times> int \<Rightarrow> string \<Rightarrow> bgp_node list \<times> bgp_node list \<times> bgp_processor \<Rightarrow>
    bgp_node list \<times> bgp_node list \<times> bgp_processor" where
  "abs_enqueue rf key = (\<lambda>(q, rq, s).
     let n = DestNode rf key; add = \<lambda>ns. if n \<in> set ns then ns else ns @ [n]
     in (if rf = RF_RTC_UC then q else add q, if rf = RF_RTC_UC then add rq else rq, s\<lparr>pr_event := True\<rparr>))"

text \<open>The links of the abstract processor's state are not looked at.\<close>

definition represents :: "bgp_processor \<Rightarrow> bgp_node list \<times> bgp_node list \<times> bgp_processor \<Rightarrow> bool" where
  "represents s = (\<lambda>(q, rq, a). two_queues (pr_links s) q rq \<and> s = a\<lparr>pr_links := pr_links s\<rparr>)"

lemma process_node_links:
  "process_node A P local_asn n (s\<lparr>pr_links := st\<rparr>) =
    ((fst (process_node A P local_asn n s))\<lparr>pr_links := st\<rparr>, snd (process_node A P local_asn n s))"
  by (simp add: process_node_def split: bgp_node.split prod.split)

lemma process_node_run:
  assumes "represents s (q, rq, a)" "two_queues st q' rq'"
  shows "\<exists>s'. process_node A P local_asn n (s\<lparr>pr_links := st\<rparr>) = (s', snd (process_node A P local_asn n a)) \<and>
    represents s' (q', rq', fst (process_node A P local_asn n a))"
proof -
  obtain u where "s = a\<lparr>pr_links := u\<rparr>" using assms(1) by (auto simp: represents_def)
  then have "process_node A P local_asn n (s\<lparr>pr_links := st\<rparr>) =
      ((fst (process_node A P local_asn n a))\<lparr>pr_links := st\<rparr>, snd (process_node A P local_asn n a))"
    by (simp add: process_node_links)
  with assms(2) show ?thesis by (simp add: represents_def)
qed

lemma process_dest_represents:
  "represents s (q, rq, a) \<Longrightarrow> process_list A P local_asn (take k q) a = (a', e, rest) \<Longrightarrow>
    \<exists>s'. process_dest_loop A P local_asn k s = Some (s', e) \<and> represents s' (rest @ drop k q, rq, a')"
proof (induction k arbitrary: s q a)
  case 0
  then show ?case by simp
next
  case (Suc k)
  have t: "two_queues (pr_links s) q rq" using Suc.prems(1) by (simp add: represents_def)
  show ?case
  proof (cases q)
    case Nil
    with Suc.prems dest_q.empty_law [OF t] show ?thesis by simp
  next
    case (Cons n ns)
    with t dest_q.deq_law obtain st where st: "list_pop_first DestQueue (pr_links s) = Inr (Some n, st)" "two_queues st ns rq"
      by blast
    obtain a1 e1 where n: "process_node A P local_asn n a = (a1, e1)" by (cases "process_node A P local_asn n a")
    obtain s1 where s1: "process_node A P local_asn n (s\<lparr>pr_links := st\<rparr>) = (s1, e1)" "represents s1 (ns, rq, a1)"
      using process_node_run [OF Suc.prems(1) st(2), of A P local_asn n] n by auto
    show ?thesis
    proof (cases e1)
      case None
      with Suc.prems(2) Cons n have "process_list A P local_asn (take k ns) a1 = (a', e, rest)" by simp
      from Suc.IH [OF s1(2) this] show ?thesis
        using dest_q.empty_law [OF t] Cons st(1) s1(1) None by simp
    next
      case (Some x)
      with Suc.prems(2) Cons n s1 st dest_q.empty_law [OF t] show ?thesis by auto
    qed
  qed
qed

lemma process_rtdest_represents:
  "represents s (q, rq, a) \<Longrightarrow> length rq < fuel \<Longrightarrow> process_list A P local_asn rq a = (a', e, rest) \<Longrightarrow>
    \<exists>s'. process_rtdest_loop fuel A P local_asn s = Some (s', e) \<and> represents s' (q, rest, a')"
proof (induction fuel arbitrary: s rq a)
  case (Suc k)
  have t: "two_queues (pr_links s) q rq" using Suc.prems(1) by (simp add: represents_def)
  show ?case
  proof (cases rq)
    case Nil
    with Suc.prems rtdest_q.empty_law [OF t] show ?thesis by simp
  next
    case (Cons n ns)
    with t rtdest_q.deq_law obtain st where st: "list_pop_first RtDestQueue (pr_links s) = Inr (Some n, st)" "two_queues st q ns"
      by blast
    obtain a1 e1 where n: "process_node A P local_asn n a = (a1, e1)" by (cases "process_node A P local_asn n a")
    obtain s1 where s1: "process_node A P local_asn n (s\<lparr>pr_links := st\<rparr>) = (s1, e1)" "represents s1 (q, ns, a1)"
      using process_node_run [OF Suc.prems(1) st(2), of A P local_asn n] n by auto
    show ?thesis
    proof (cases e1)
      case None
      with Suc.prems(3) Cons n have "process_list A P local_asn ns a1 = (a', e, rest)" by simp
      moreover have "length ns < k" using Suc.prems(2) Cons by simp
      ultimately show ?thesis using Suc.IH [OF s1(2)] rtdest_q.empty_law [OF t] Cons st(1) s1(1) None by simp
    next
      case (Some x)
      with Suc.prems(3) Cons n s1 st rtdest_q.empty_law [OF t] show ?thesis by auto
    qed
  qed
qed simp

lemma process_list_rest: "process_list A P local_asn ns s = (s', None, rest) \<Longrightarrow> rest = []"
  by (induction ns arbitrary: s) (auto split: prod.splits option.splits)

lemma turn_represents:
  assumes "represents s (q, rq, a)" "length rq < fuel"
  shows "\<exists>s'. processor_turn fuel A P local_asn units s = Some (s', snd (abs_turn A P local_asn units (q, rq, a))) \<and>
    represents s' (fst (abs_turn A P local_asn units (q, rq, a)))"
proof -
  obtain a1 e1 r1 where l1: "process_list A P local_asn rq a = (a1, e1, r1)" by (cases "process_list A P local_asn rq a")
  obtain s1 where s1: "process_rtdest_loop fuel A P local_asn s = Some (s1, e1)" "represents s1 (q, r1, a1)"
    using process_rtdest_represents [OF assms l1] by blast
  have t: "two_queues (pr_links s) q rq" using assms(1) by (simp add: represents_def)
  show ?thesis
  proof (cases e1)
    case (Some x)
    then have "rq \<noteq> []" using l1 by auto
    with Some s1 l1 rtdest_q.empty_law [OF t] show ?thesis
      by (auto simp: processor_turn_def process_rtdest_def abs_turn_def)
  next
    case None
    have r1: "r1 = []" using l1 None process_list_rest by blast
    define a2 where "a2 = (if rq = [] then a1 else a1\<lparr>pr_filter_updates := Suc (pr_filter_updates a1)\<rparr>)"
    obtain s2 where s2: "process_rtdest fuel A P local_asn s = Some (s2, None)" "represents s2 (q, [], a2)"
    proof (cases "rq = []")
      case True
      with l1 None have "a1 = a" by simp
      with True assms(1) rtdest_q.empty_law [OF t] that [of s] show ?thesis by (simp add: process_rtdest_def a2_def)
    next
      case False
      let ?s2 = "s1\<lparr>pr_filter_updates := Suc (pr_filter_updates s1)\<rparr>"
      obtain u where "s1 = a1\<lparr>pr_links := u\<rparr>" using s1(2) by (auto simp: represents_def)
      then have "represents ?s2 (q, [], a2)" using s1(2) r1 False by (simp add: represents_def a2_def)
      moreover have "process_rtdest fuel A P local_asn s = Some (?s2, None)"
        using False s1(1) None rtdest_q.empty_law [OF t] by (simp add: process_rtdest_def)
      ultimately show ?thesis using that by blast
    qed
    obtain a3 e3 r3 where l3: "process_list A P local_asn (take units q) a2 = (a3, e3, r3)"
      by (cases "process_list A P local_asn (take units q) a2")
    obtain s3 where s3: "process_dest A P local_asn units s2 = Some (s3, e3)" "represents s3 (r3 @ drop units q, [], a3)"
      using process_dest_represents [OF s2(2) l3] by (auto simp: process_dest_def)
    have e: "abs_turn A P local_asn units (q, rq, a) =
      (case e3 of Some e \<Rightarrow> ((r3 @ drop units q, [], a3), Inr e)
       | None \<Rightarrow> (if drop units q = [] then (([], [], a3\<lparr>pr_event := False\<rparr>), Inl True) else ((drop units q, [], a3), Inl False)))"
      unfolding abs_turn_def using l1 l3 None by (simp add: a2_def split: option.split)
    have r: "processor_turn fuel A P local_asn units s =
      (case e3 of Some e \<Rightarrow> Some (s3, Inr e)
       | None \<Rightarrow> (case list_is_empty DestQueue (pr_links s3) of Inl e \<Rightarrow> Some (s3, Inr e)
           | Inr b \<Rightarrow> if b then Some (s3\<lparr>pr_event := False\<rparr>, Inl True) else Some (s3, Inl False)))"
      unfolding processor_turn_def using s2(1) s3(1) by (simp split: option.split sum.split bool.split)
    show ?thesis
    proof (cases e3)
      case (Some x)
      with e r s3(2) show ?thesis by simp
    next
      case None
      have "r3 = []" using l3 None process_list_rest by blast
      with s3(2) have rep: "represents s3 (drop units q, [], a3)" by simp
      then have t3: "two_queues (pr_links s3) (drop units q) []" by (simp add: represents_def)
      obtain u where "s3 = a3\<lparr>pr_links := u\<rparr>" using rep by (auto simp: represents_def)
      then have "represents (s3\<lparr>pr_event := False\<rparr>) (drop units q, [], a3\<lparr>pr_event := False\<rparr>)"
        using rep by (simp add: represents_def)
      with None e r rep dest_q.empty_law [OF t3] show ?thesis by auto
    qed
  qed
qed

lemma enqueue_represents:
  assumes "represents s (q, rq, a)"
  shows "\<exists>s'. processor_enqueue rf key s = Inr s' \<and> represents s' (abs_enqueue rf key (q, rq, a))"
proof -
  let ?n = "DestNode rf key"
  have t: "two_queues (pr_links s) q rq" using assms by (simp add: represents_def)
  have nodes: "queue_nodes q rq" using t by (simp add: two_queues_def)
  obtain u where u: "s = a\<lparr>pr_links := u\<rparr>" using assms by (auto simp: represents_def)
  have rtc: "?n \<in> set rq \<Longrightarrow> rf = RF_RTC_UC" "?n \<in> set q \<Longrightarrow> rf \<noteq> RF_RTC_UC"
    using nodes by (auto simp: queue_nodes_def list_all_iff)
  show ?thesis
  proof (cases "?n \<in> set q \<union> set rq")
    case True
    with rtc have "abs_enqueue rf key (q, rq, a) = (q, rq, a\<lparr>pr_event := True\<rparr>)" by (auto simp: abs_enqueue_def Let_def)
    moreover have "processor_enqueue rf key s = Inr (s\<lparr>pr_event := True\<rparr>)"
      using True two_queues_on_list [OF t, of rf key] by (simp add: processor_enqueue_def)
    ultimately show ?thesis using t u by (simp add: represents_def)
  next
    case False
    have off: "off_list (pr_links s) ?n" using t False by (simp add: two_queues_def)
    have "\<exists>st. list_append (queue_of rf) ?n (pr_links s) = Inr st \<and>
      two_queues st (if rf = RF_RTC_UC then q else q @ [?n]) (if rf = RF_RTC_UC then rq @ [?n] else rq)"
    proof (cases "rf = RF_RTC_UC")
      case True
      with off have "free_rtdest (pr_links s) ?n" by (simp add: free_rtdest_def)
      from rtdest_q.enq_law [OF t this] True show ?thesis by (simp add: queue_of_def)
    next
      case False
      with off have "free_dest (pr_links s) ?n" by (simp add: free_dest_def)
      from dest_q.enq_law [OF t this] False show ?thesis by (simp add: queue_of_def)
    qed
    then obtain st where st: "list_append (queue_of rf) ?n (pr_links s) = Inr st"
      "two_queues st (if rf = RF_RTC_UC then q else q @ [?n]) (if rf = RF_RTC_UC then rq @ [?n] else rq)" by blast
    have "abs_enqueue rf key (q, rq, a) =
      (if rf = RF_RTC_UC then q else q @ [?n], if rf = RF_RTC_UC then rq @ [?n] else rq, a\<lparr>pr_event := True\<rparr>)"
      using False by (auto simp: abs_enqueue_def Let_def)
    moreover have "processor_enqueue rf key s = Inr (s\<lparr>pr_links := st, pr_event := True\<rparr>)"
      using False st(1) two_queues_on_list [OF t, of rf key] by (simp add: processor_enqueue_def)
    ultimately show ?thesis using st(2) u by (simp add: represents_def)
  qed
qed

lemma create_represents:
  "\<exists>s. processor_create tables = Inr s \<and> represents s ([], [], s)"
  by (simp add: processor_create_def list_create_def node_init_def assert_off_def node_is_on_list_def no_links_def
      node_set_next_def node_set_prev_def represents_def two_queues_def ring_def queue_nodes_def off_list_def)

section \<open>Histories\<close>

text \<open>
  A history of the processor: destinations are queued, and the thread takes turns. An exception ends the
  thread, and with it the history.
\<close>

datatype proc_op = OpEnqueue "int \<times> int" string | OpTurn

fun run_ops :: "nat \<Rightarrow> addrconv \<Rightarrow> bgp_peers \<Rightarrow> int \<Rightarrow> nat \<Rightarrow> proc_op list \<Rightarrow> bgp_processor \<Rightarrow>
    (bgp_processor \<times> (bool, py_error) sum list) option" where
  "run_ops fuel A P local_asn units [] s = Some (s, [])"
| "run_ops fuel A P local_asn units (OpEnqueue rf key # ops) s =
     (case processor_enqueue rf key s of
        Inl e \<Rightarrow> Some (s, [Inr e])
      | Inr s \<Rightarrow> run_ops fuel A P local_asn units ops s)"
| "run_ops fuel A P local_asn units (OpTurn # ops) s =
     (case processor_turn fuel A P local_asn units s of
        None \<Rightarrow> None
      | Some (s, Inr e) \<Rightarrow> Some (s, [Inr e])
      | Some (s, Inl w) \<Rightarrow> map_option (apsnd (Cons (Inl w))) (run_ops fuel A P local_asn units ops s))"

fun abs_run :: "addrconv \<Rightarrow> bgp_peers \<Rightarrow> int \<Rightarrow> nat \<Rightarrow> proc_op list \<Rightarrow> bgp_node list \<times> bgp_node list \<times> bgp_processor \<Rightarrow>
    (bgp_node list \<times> bgp_node list \<times> bgp_processor) \<times> (bool, py_error) sum list" where
  "abs_run A P local_asn units [] a = (a, [])"
| "abs_run A P local_asn units (OpEnqueue rf key # ops) a = abs_run A P local_asn units ops (abs_enqueue rf key a)"
| "abs_run A P local_asn units (OpTurn # ops) a =
     (case abs_turn A P local_asn units a of
        (a, Inr e) \<Rightarrow> (a, [Inr e])
      | (a, Inl w) \<Rightarrow> apsnd (Cons (Inl w)) (abs_run A P local_asn units ops a))"

lemma process_list_length: "length (snd (snd (process_list A P local_asn ns s))) \<le> length ns"
proof (induction ns arbitrary: s)
  case (Cons n ns)
  obtain s' e where "process_node A P local_asn n s = (s', e)" by (cases "process_node A P local_asn n s")
  with Cons.IH [of s'] show ?case by (cases e) simp_all
qed simp

lemma abs_turn_length: "length (fst (snd (fst (abs_turn A P local_asn units (q, rq, a))))) \<le> length rq"
  using process_list_length [of A P local_asn rq a]
  by (auto simp: abs_turn_def split: prod.split option.split)

lemma abs_enqueue_length: "length (fst (snd (abs_enqueue rf key (q, rq, a)))) \<le> Suc (length rq)"
  by (simp add: abs_enqueue_def Let_def)

lemma run_represents:
  "represents s a \<Longrightarrow> length (fst (snd a)) + length ops < fuel \<Longrightarrow>
    \<exists>s'. run_ops fuel A P local_asn units ops s = Some (s', snd (abs_run A P local_asn units ops a)) \<and>
      represents s' (fst (abs_run A P local_asn units ops a))"
proof (induction ops arbitrary: s a)
  case (Cons op ops)
  obtain q rq b where a: "a = (q, rq, b)" by (cases a)
  show ?case
  proof (cases op)
    case (OpEnqueue rf key)
    obtain s1 where s1: "processor_enqueue rf key s = Inr s1" "represents s1 (abs_enqueue rf key a)"
      using enqueue_represents Cons.prems(1) a by blast
    have "length (fst (snd (abs_enqueue rf key a))) + length ops < fuel"
      using abs_enqueue_length [of rf key q rq b] Cons.prems(2) a by simp
    from Cons.IH [OF s1(2) this] show ?thesis using OpEnqueue s1(1) by simp
  next
    case OpTurn
    have "length rq < fuel" using Cons.prems(2) a by simp
    with turn_represents Cons.prems(1) a obtain s1 where
      s1: "processor_turn fuel A P local_asn units s = Some (s1, snd (abs_turn A P local_asn units a))"
      "represents s1 (fst (abs_turn A P local_asn units a))" by blast
    obtain a1 out where o: "abs_turn A P local_asn units a = (a1, out)" by (cases "abs_turn A P local_asn units a")
    show ?thesis
    proof (cases out)
      case (Inl w)
      have "length (fst (snd a1)) + length ops < fuel"
        using abs_turn_length [of A P local_asn units q rq b] Cons.prems(2) a o by simp
      with Cons.IH [of s1 a1] s1 o obtain s2 where
        "run_ops fuel A P local_asn units ops s1 = Some (s2, snd (abs_run A P local_asn units ops a1))"
        "represents s2 (fst (abs_run A P local_asn units ops a1))" by auto
      with OpTurn o s1(1) Inl show ?thesis by simp
    next
      case (Inr e)
      with OpTurn o s1 show ?thesis by simp
    qed
  qed
qed simp

end
