(* ===== verification/Bgp_Aspath.thy ===== *)
theory Bgp_Aspath
  imports Bgp_Path
begin

text \<open>
  AS paths: the methods of \<^verbatim>\<open>_BGPPathAttributeAsPathCommon\<close> in \<^verbatim>\<open>lib/packet/bgp.py\<close>
  and what \<^verbatim>\<open>services/protocols/bgp/peer.py\<close> does to a path on its way out and in: the own AS in front,
  and the numbers that do not fit two octets in a second attribute (\<^verbatim>\<open>AS4_PATH\<close>, RFC 6793).
\<close>

section \<open>Tests on a path\<close>

fun seg_asns :: "as_segment \<Rightarrow> int list" where
  "seg_asns (AsSequence ns) = ns"
| "seg_asns (AsSet ns) = ns"

text \<open>\<^verbatim>\<open>list(seg).count(n)\<close>: a set has a number once.\<close>

fun seg_count :: "int \<Rightarrow> as_segment \<Rightarrow> int" where
  "seg_count n (AsSequence ns) = int (length (filter (\<lambda>m. m = n) ns))"
| "seg_count n (AsSet ns) = (if n \<in> set ns then 1 else 0)"

definition has_local_as :: "int \<Rightarrow> int \<Rightarrow> as_segment list \<Rightarrow> bool" where
  "has_local_as local_as max_count p \<longleftrightarrow> sum_list (map (seg_count local_as) p) > max_count"

text \<open>A set has no first element: indexing it raises \<^verbatim>\<open>TypeError\<close>, unless it is empty.\<close>

definition has_matching_leftmost :: "int \<Rightarrow> as_segment list \<Rightarrow> bool res" where
  "has_matching_leftmost remote_as p =
     (case p of [] \<Rightarrow> Inr False
      | seg # segs \<Rightarrow>
          (if remote_as = 0 then Inr False
           else (case seg of
               AsSequence [] \<Rightarrow> Inr False
             | AsSequence (n # ns) \<Rightarrow> Inr (n = remote_as)
             | AsSet [] \<Rightarrow> Inr False
             | AsSet (n # ns) \<Rightarrow> Inl TypeError)))"

section \<open>Out\<close>

text \<open>The own AS goes to the first sequence if it has room for it (\<^verbatim>\<open>_construct_update\<close>).\<close>

definition prepend_local_as :: "int \<Rightarrow> as_segment list \<Rightarrow> as_segment list" where
  "prepend_local_as local_as p =
     (case p of
        AsSequence ns # segs \<Rightarrow>
          (if length ns < 255 then AsSequence (local_as # ns) # segs else AsSequence [local_as] # p)
      | _ \<Rightarrow> AsSequence [local_as] # p)"

definition AS_TRANS :: int where "AS_TRANS = 23456"

definition is_valid_old_asn :: "int \<Rightarrow> bool" where
  "is_valid_old_asn n \<longleftrightarrow> 0 \<le> n \<and> n \<le> 0xffff"

definition swap_asn :: "int \<Rightarrow> int" where
  "swap_asn n = (if is_valid_old_asn n then n else AS_TRANS)"

fun swap_segment :: "as_segment \<Rightarrow> as_segment" where
  "swap_segment (AsSequence ns) = AsSequence (map swap_asn ns)"
| "swap_segment (AsSet ns) = AsSet (remdups (map swap_asn ns))"

text \<open>Python compares sets as sets.\<close>

fun segment_eq :: "as_segment \<Rightarrow> as_segment \<Rightarrow> bool" where
  "segment_eq (AsSequence ns) (AsSequence ms) \<longleftrightarrow> ns = ms"
| "segment_eq (AsSet ns) (AsSet ms) \<longleftrightarrow> set ns = set ms"
| "segment_eq _ _ \<longleftrightarrow> False"

definition trans_as_path :: "bool \<Rightarrow> as_segment list \<Rightarrow> as_segment list \<times> as_segment list option" where
  "trans_as_path four_octet p =
     (if four_octet then (p, None)
      else (let new = map swap_segment p
        in if list_all2 segment_eq p new then (p, None) else (new, Some p)))"

section \<open>In\<close>

text \<open>\<^verbatim>\<open>_listify\<close>: the numbers of the sequences and the sets, in their order.\<close>

datatype as_item = AsNumber int | AsSetItem "int list"

fun listify :: "as_segment list \<Rightarrow> as_item list" where
  "listify [] = []"
| "listify (AsSequence ns # segs) = map AsNumber ns @ listify segs"
| "listify (AsSet ns # segs) = AsSetItem ns # listify segs"

fun zip_longest :: "'a list \<Rightarrow> 'b list \<Rightarrow> ('a option \<times> 'b option) list" where
  "zip_longest [] [] = []"
| "zip_longest (x # xs) [] = (Some x, None) # zip_longest xs []"
| "zip_longest [] (y # ys) = (None, Some y) # zip_longest [] ys"
| "zip_longest (x # xs) (y # ys) = (Some x, Some y) # zip_longest xs ys"

definition flush_segment :: "int list \<Rightarrow> as_segment list \<Rightarrow> as_segment list" where
  "flush_segment tmp new = (if tmp \<noteq> [] then AsSequence tmp # new else new)"

text \<open>The loop goes from the last item to the first; numbers are collected until a set or the end.\<close>

fun merge_loop :: "(as_item option \<times> as_item option) list \<Rightarrow> as_segment list \<Rightarrow> int list \<Rightarrow> as_segment list" where
  "merge_loop [] new tmp = flush_segment tmp new"
| "merge_loop ((p, q) # items) new tmp =
     (case (case q of None \<Rightarrow> p | Some x \<Rightarrow> Some x) of
        Some (AsNumber n) \<Rightarrow> merge_loop items new (n # tmp)
      | Some (AsSetItem ns) \<Rightarrow> merge_loop items (AsSet ns # flush_segment tmp new) []
      | None \<Rightarrow> merge_loop items new tmp)"

definition construct_as_path_attr :: "as_segment list \<Rightarrow> as_segment list option \<Rightarrow> as_segment list" where
  "construct_as_path_attr p q =
     (case q of None \<Rightarrow> p
      | Some p4 \<Rightarrow>
          (if as_path_len p < as_path_len p4 then p
           else merge_loop (zip_longest (rev (listify p)) (rev (listify p4))) [] []))"

section \<open>Correctness of the reconstruction\<close>

text \<open>The segments that a list of items is grouped to.\<close>

fun group_items :: "as_item list \<Rightarrow> as_segment list" where
  "group_items [] = []"
| "group_items (AsSetItem ns # items) = AsSet ns # group_items items"
| "group_items (AsNumber n # items) =
     (case group_items items of AsSequence ms # segs \<Rightarrow> AsSequence (n # ms) # segs | segs \<Rightarrow> AsSequence [n] # segs)"

text \<open>A path without empty sequences and without sequences side by side.\<close>

fun canonical_path :: "as_segment list \<Rightarrow> bool" where
  "canonical_path [] \<longleftrightarrow> True"
| "canonical_path (AsSet ns # segs) \<longleftrightarrow> canonical_path segs"
| "canonical_path (AsSequence ns # segs) \<longleftrightarrow> ns \<noteq> [] \<and> canonical_path segs \<and>
     (case segs of AsSequence ms # _ \<Rightarrow> False | _ \<Rightarrow> True)"

lemma length_listify: "int (length (listify p)) = as_path_len p"
  by (induction p rule: listify.induct) simp_all

lemma listify_group [simp]: "listify (group_items xs) = xs"
  by (induction xs rule: group_items.induct) (auto split: list.split as_segment.split)

lemma group_canonical: "canonical_path (group_items xs)"
  by (induction xs rule: group_items.induct) (auto split: list.split as_segment.split)

lemma group_listify: "canonical_path p \<Longrightarrow> group_items (listify p) = p"
proof (induction p rule: canonical_path.induct)
  case (3 ns segs)
  have segs: "group_items (listify segs) = segs" using 3 by simp
  have "ns \<noteq> [] \<Longrightarrow> group_items (map AsNumber ns @ listify segs) = AsSequence ns # segs"
  proof (induction ns rule: list_nonempty_induct)
    case (single n)
    then show ?case using 3 segs by (auto split: list.splits as_segment.splits)
  qed (use segs in simp)
  with 3 show ?case by simp
qed simp_all

lemma canonical_flush: "canonical_path new \<Longrightarrow> (case new of AsSequence ms # _ \<Rightarrow> False | _ \<Rightarrow> True) \<Longrightarrow>
    group_items (map AsNumber tmp @ listify new) = flush_segment tmp new"
  using group_listify [of "flush_segment tmp new"] by (cases "tmp = []") (simp_all add: flush_segment_def)

text \<open>What the loop collects, taken together with what it has collected, is the list of the merged items.\<close>

lemma merge_loop_group:
  "canonical_path new \<Longrightarrow> (case new of AsSequence ms # _ \<Rightarrow> False | _ \<Rightarrow> True) \<Longrightarrow>
    list_all (\<lambda>(p, q). p \<noteq> None \<or> q \<noteq> None) items \<Longrightarrow>
    merge_loop items new tmp =
      group_items (rev (map (\<lambda>(p, q). case q of None \<Rightarrow> the p | Some x \<Rightarrow> x) items) @ map AsNumber tmp @ listify new)"
proof (induction items new tmp rule: merge_loop.induct)
  case (1 new tmp)
  then show ?case by (simp add: canonical_flush)
next
  case (2 p q items new tmp)
  define x where "x = (case q of None \<Rightarrow> the p | Some x \<Rightarrow> x)"
  have x: "(case q of None \<Rightarrow> p | Some x \<Rightarrow> Some x) = Some x"
    using 2(6) by (auto simp: x_def split: option.splits)
  show ?case
  proof (cases x)
    case (AsNumber n)
    have "merge_loop ((p, q) # items) new tmp = merge_loop items new (n # tmp)" using x AsNumber by simp
    with 2(2) [OF x AsNumber] 2 AsNumber show ?thesis by (simp add: x_def [symmetric])
  next
    case (AsSetItem ns)
    have c: "canonical_path (flush_segment tmp new)" "listify (flush_segment tmp new) = map AsNumber tmp @ listify new"
      using 2(4,5) by (simp_all add: flush_segment_def)
    have "merge_loop ((p, q) # items) new tmp = merge_loop items (AsSet ns # flush_segment tmp new) []"
      using x AsSetItem by simp
    with 2(3) [OF x AsSetItem] 2 AsSetItem c show ?thesis by (simp add: x_def [symmetric])
  qed
qed

lemma zip_longest_choice:
  "length ys \<le> length xs \<Longrightarrow>
    map (\<lambda>(p, q). case q of None \<Rightarrow> the p | Some y \<Rightarrow> y) (zip_longest xs ys) = ys @ drop (length ys) xs"
  by (induction xs ys rule: zip_longest.induct) simp_all

lemma zip_longest_some: "list_all (\<lambda>(p, q). p \<noteq> None \<or> q \<noteq> None) (zip_longest xs ys)"
  by (induction xs ys rule: zip_longest.induct) simp_all

lemma construct_merges:
  assumes "as_path_len p4 \<le> as_path_len p"
  shows "construct_as_path_attr p (Some p4) =
    group_items (take (length (listify p) - length (listify p4)) (listify p) @ listify p4)"
proof -
  have l: "length (listify p4) \<le> length (listify p)" using assms by (simp flip: length_listify)
  then have "merge_loop (zip_longest (rev (listify p)) (rev (listify p4))) [] [] =
      group_items (rev (rev (listify p4) @ drop (length (listify p4)) (rev (listify p))))"
    using zip_longest_choice [of "rev (listify p4)" "rev (listify p)"]
      merge_loop_group [OF _ _ zip_longest_some, of "[]" "rev (listify p)" "rev (listify p4)" "[]"]
    by simp
  also have "rev (rev (listify p4) @ drop (length (listify p4)) (rev (listify p))) =
      take (length (listify p) - length (listify p4)) (listify p) @ listify p4"
    by (simp add: drop_rev)
  finally show ?thesis using assms by (simp add: construct_as_path_attr_def)
qed

lemma swap_len: "as_path_len (map swap_segment p) = as_path_len p"
proof (induction p)
  case (Cons seg p)
  then show ?case by (cases seg) simp_all
qed simp

text \<open>The neighbour that gets both attributes has the path back.\<close>

lemma trans_construct:
  assumes "canonical_path p"
  shows "(\<lambda>(p2, p4). construct_as_path_attr p2 p4) (trans_as_path four_octet p) = p"
proof -
  have "construct_as_path_attr (map swap_segment p) (Some p) = p"
    using construct_merges [of p "map swap_segment p"] group_listify [OF assms] length_listify [of "map swap_segment p"]
      length_listify [of p]
    by (simp add: swap_len)
  then show ?thesis by (simp add: trans_as_path_def Let_def construct_as_path_attr_def)
qed

lemma swap_old: "is_valid_old_asn (swap_asn n)"
  by (simp add: swap_asn_def is_valid_old_asn_def AS_TRANS_def)

lemma swap_same: "n = swap_asn n \<longleftrightarrow> is_valid_old_asn n"
  by (simp add: swap_asn_def) (auto simp: is_valid_old_asn_def AS_TRANS_def)

lemma segment_eq_old:
  "segment_eq seg (swap_segment seg) \<longleftrightarrow> list_all is_valid_old_asn (seg_asns seg)"
proof (cases seg)
  case (AsSequence ns)
  have "list_all2 (\<lambda>n m. n = m) ns (map swap_asn ns) \<longleftrightarrow> list_all is_valid_old_asn ns"
    by (simp add: list_all2_map2 list_all2_same swap_same list_all_iff)
  with AsSequence show ?thesis by (simp add: list_all2_eq)
next
  case (AsSet ns)
  have "set ns = swap_asn ` set ns \<longleftrightarrow> list_all is_valid_old_asn ns"
  proof
    assume "set ns = swap_asn ` set ns"
    with swap_old show "list_all is_valid_old_asn ns" unfolding list_all_iff by (metis imageE)
  next
    assume "list_all is_valid_old_asn ns"
    then have "swap_asn ` set ns = id ` set ns" by (intro image_cong) (auto simp: list_all_iff swap_asn_def)
    then show "set ns = swap_asn ` set ns" by simp
  qed
  with AsSet show ?thesis by simp
qed

text \<open>Every number that goes out to a neighbour with two octets fits, and a second attribute only if needed.\<close>

lemma trans_two_octets:
  "list_all (\<lambda>seg. list_all is_valid_old_asn (seg_asns seg)) (fst (trans_as_path False p))"
  "snd (trans_as_path False p) = None \<longleftrightarrow> list_all (\<lambda>seg. list_all is_valid_old_asn (seg_asns seg)) p"
proof -
  have e: "list_all2 segment_eq p (map swap_segment p) \<longleftrightarrow> list_all (\<lambda>seg. list_all is_valid_old_asn (seg_asns seg)) p"
    by (induction p) (simp_all add: segment_eq_old)
  have "list_all is_valid_old_asn (seg_asns (swap_segment seg))" for seg
    by (cases seg) (auto simp: list_all_iff swap_old)
  then have "list_all (\<lambda>seg. list_all is_valid_old_asn (seg_asns seg)) (map swap_segment p)"
    by (simp add: list_all_length)
  with e show "list_all (\<lambda>seg. list_all is_valid_old_asn (seg_asns seg)) (fst (trans_as_path False p))"
    "snd (trans_as_path False p) = None \<longleftrightarrow> list_all (\<lambda>seg. list_all is_valid_old_asn (seg_asns seg)) p"
    by (simp_all add: trans_as_path_def Let_def)
qed

end
