(* ===== verification/Bgp_Peer.thy ===== *)
theory Bgp_Peer
  imports Bgp_Dest Bgp_Aspath
begin

text \<open>
  What a peer does with paths: the filters of \<^verbatim>\<open>info_base/base.py\<close>, and of \<^verbatim>\<open>peer.py\<close>
  the choice of the paths a neighbour gets, the outgoing queue, and the handling of UPDATE messages for
  IPv4 unicast. The containment of networks (\<^verbatim>\<open>netaddr\<close>) is a parameter.
\<close>

section \<open>Filters\<close>

text \<open>\<^verbatim>\<open>within network net\<close> stands for \<^verbatim>\<open>IPNetwork(net) in IPNetwork(network)\<close>.\<close>

type_synonym netaddr = "string \<Rightarrow> string \<Rightarrow> bool res"

record prefix_filter =
  pf_rf :: "int \<times> int"
  pf_prefix :: string
  pf_policy :: int
  pf_ge :: "int option"
  pf_le :: "int option"

record aspath_filter =
  af_as_number :: int
  af_policy :: int

datatype bgp_filter = PrefixFilter prefix_filter | ASPathFilter aspath_filter

definition POLICY_DENY :: int where "POLICY_DENY = 0"
definition POLICY_PERMIT :: int where "POLICY_PERMIT = 1"
definition POLICY_TOP :: int where "POLICY_TOP = 2"
definition POLICY_END :: int where "POLICY_END = 3"
definition POLICY_INCLUDE :: int where "POLICY_INCLUDE = 4"
definition POLICY_NOT_INCLUDE :: int where "POLICY_NOT_INCLUDE = 5"

text \<open>A bound of zero is false for the code, and then no branch is left.\<close>

definition prefix_evaluate :: "netaddr \<Rightarrow> prefix_filter \<Rightarrow> bgp_path \<Rightarrow> (int \<times> bool) res" where
  "prefix_evaluate within f p =
     res_bind (within (pf_prefix f) (pt_nlri p)) (\<lambda>inside.
     Inr (pf_policy f, inside \<and>
       (case (pf_ge f, pf_le f) of
          (None, None) \<Rightarrow> True
        | (None, Some le) \<Rightarrow> le \<noteq> 0 \<and> pt_plen p \<le> le
        | (Some ge, None) \<Rightarrow> ge \<noteq> 0 \<and> ge \<le> pt_plen p
        | (Some ge, Some le) \<Rightarrow> ge \<noteq> 0 \<and> le \<noteq> 0 \<and> ge \<le> pt_plen p \<and> pt_plen p \<le> le)))"

text \<open>The first segment is looked at; a set cannot be indexed.\<close>

definition seg_first :: "as_segment \<Rightarrow> int res" where
  "seg_first seg = (case seg of AsSequence ns \<Rightarrow> Inr (hd ns) | AsSet ns \<Rightarrow> Inl TypeError)"

definition seg_last :: "as_segment \<Rightarrow> int res" where
  "seg_last seg = (case seg of AsSequence ns \<Rightarrow> Inr (last ns) | AsSet ns \<Rightarrow> Inl TypeError)"

definition aspath_evaluate :: "aspath_filter \<Rightarrow> bgp_path \<Rightarrow> (int \<times> bool) res" where
  "aspath_evaluate f p =
     (case pt_as_path p of None \<Rightarrow> Inl AttributeError
      | Some segs \<Rightarrow>
          (let seg = (if segs = [] then AsSequence [] else hd segs); n = af_as_number f; pol = af_policy f in
           if pol = POLICY_TOP then
             (if seg_asns seg = [] then Inr (pol, False) else res_bind (seg_first seg) (\<lambda>m. Inr (pol, m = n)))
           else if pol = POLICY_INCLUDE then Inr (pol, n \<in> set (seg_asns seg))
           else if pol = POLICY_END then
             (if seg_asns seg = [] then Inr (pol, False) else res_bind (seg_last seg) (\<lambda>m. Inr (pol, m = n)))
           else if pol = POLICY_NOT_INCLUDE then Inr (pol, n \<notin> set (seg_asns seg))
           else Inr (pol, False)))"

fun filter_evaluate :: "netaddr \<Rightarrow> bgp_filter \<Rightarrow> bgp_path \<Rightarrow> (int \<times> bool) res" where
  "filter_evaluate within (PrefixFilter f) p = prefix_evaluate within f p"
| "filter_evaluate within (ASPathFilter f) p = aspath_evaluate f p"

fun filter_rf :: "bgp_filter \<Rightarrow> int \<times> int" where
  "filter_rf (PrefixFilter f) = pf_rf f"
| "filter_rf (ASPathFilter f) = (1, 1)"

text \<open>\<^verbatim>\<open>_apply_filter\<close>: the first filter that permits or denies the path decides.\<close>

fun apply_filter :: "netaddr \<Rightarrow> bgp_filter list \<Rightarrow> bgp_path \<Rightarrow> bool res" where
  "apply_filter within [] p = Inr False"
| "apply_filter within (f # fs) p =
     (if filter_rf f \<noteq> pt_rf p then apply_filter within fs p
      else
        res_bind (filter_evaluate within f p) (\<lambda>(policy, matched).
        if policy = POLICY_PERMIT \<and> matched then Inr False
        else if policy = POLICY_DENY \<and> matched then Inr True
        else apply_filter within fs p))"

text \<open>\<^verbatim>\<open>AttributeMap.evaluate\<close>: all filters up to the first that does not match.\<close>

fun attribute_map_loop :: "netaddr \<Rightarrow> bgp_filter list \<Rightarrow> bgp_path \<Rightarrow> int option \<times> bool \<Rightarrow> (int option \<times> bool) res" where
  "attribute_map_loop within [] p r = Inr r"
| "attribute_map_loop within (f # fs) p r =
     res_bind (filter_evaluate within f p) (\<lambda>(cause, result).
     if \<not> result then Inr (Some cause, False) else attribute_map_loop within fs p (Some cause, True))"

definition attribute_map_evaluate :: "netaddr \<Rightarrow> bgp_filter list \<Rightarrow> bgp_path \<Rightarrow> (int option \<times> bool) res" where
  "attribute_map_evaluate within fs p = attribute_map_loop within fs p (None, False)"

section \<open>Sessions\<close>

text \<open>
  The settings and the state of a session that the code below reads; \<^term>\<open>se_sent\<close> is what went out.
  The outgoing queue is the sequence that its circular list holds, the flag is \<^verbatim>\<open>for_route_refresh\<close>.
\<close>

record bgp_session =
  se_established :: bool
  se_version_num :: int
  se_remote_as :: int
  se_local_as :: int
  se_common_as :: int
  se_check_first_as :: bool
  se_allow_local_as_in :: int
  se_cluster_id :: string
  se_caps :: "(int \<times> int) list"
  se_rtfilter :: "string list option"
  se_rs_client :: bool
  se_rr_client :: bool
  se_med :: "int option"
  se_in_filters :: "bgp_filter list"
  se_out_filters :: "bgp_filter list"
  se_outgoing :: "(bgp_path \<times> bool) list"
  se_adj_rib_in :: "(string \<times> (bgp_path \<times> bool)) list"
  se_adj_rib_out :: "(string \<times> (bgp_path \<times> bool)) list"
  se_sent :: "bgp_path list"

definition is_ebgp_peer :: "bgp_session \<Rightarrow> bool" where
  "is_ebgp_peer s \<longleftrightarrow> se_common_as s \<noteq> se_remote_as s"

definition enque_outgoing :: "bgp_path \<times> bool \<Rightarrow> bgp_session \<Rightarrow> bgp_session" where
  "enque_outgoing m s = s\<lparr>se_outgoing := se_outgoing s @ [m]\<rparr>"

definition NO_EXPORT :: int where "NO_EXPORT = 0xFFFFFF01"
definition NO_ADVERTISE :: int where "NO_ADVERTISE = 0xFFFFFF02"
definition NO_EXPORT_SUBCONFED :: int where "NO_EXPORT_SUBCONFED = 0xFFFFFF03"

definition has_comm_attr :: "bgp_path \<Rightarrow> int \<Rightarrow> bool" where
  "has_comm_attr p c \<longleftrightarrow> (case pt_communities p of None \<Rightarrow> False | Some cs \<Rightarrow> c \<in> set cs)"

definition path_family_ok :: "bgp_session \<Rightarrow> bgp_path \<Rightarrow> bool" where
  "path_family_ok s p \<longleftrightarrow> pt_rf p \<in> set (se_caps s) \<or> pt_rf p \<in> {(1, 1), (2, 1)}"

text \<open>The route targets the neighbour wants; an empty filter counts as none.\<close>

definition rtfilter_blocks :: "bgp_session \<Rightarrow> bgp_path \<Rightarrow> bool" where
  "rtfilter_blocks s p \<longleftrightarrow> pt_rf p \<noteq> (1, 132) \<and> (1, 132) \<in> set (se_caps s) \<and>
     (case se_rtfilter s of None \<Rightarrow> False | Some rts \<Rightarrow> rts \<noteq> [] \<and> \<not> path_has_rts_in (set rts) p)"

definition update_med :: "bgp_session \<Rightarrow> bgp_path \<Rightarrow> bgp_path" where
  "update_med s p =
     (case (se_med s, pt_med p) of
        (Some m, None) \<Rightarrow> if m \<noteq> 0 then p\<lparr>pt_med := Some m, pt_med_by_target := True\<rparr> else p
      | _ \<Rightarrow> p)"

definition community_blocks :: "int \<Rightarrow> bgp_session \<Rightarrow> bgp_path \<Rightarrow> bool" where
  "community_blocks local_asn s p \<longleftrightarrow> has_comm_attr p NO_ADVERTISE \<or>
     (has_comm_attr p NO_EXPORT_SUBCONFED \<or> has_comm_attr p NO_EXPORT) \<and> se_remote_as s \<noteq> local_asn"

text \<open>
  \<^verbatim>\<open>communicate_path\<close> of the peer \<^term>\<open>i\<close>: its session afterwards and the exception, if any.
  A source that is a table has no \<^verbatim>\<open>remote_as\<close>, which is read for internal peers only.
\<close>

definition communicate_path :: "int \<Rightarrow> (nat \<Rightarrow> bgp_session) \<Rightarrow> nat \<Rightarrow> bgp_path \<Rightarrow> bgp_session \<times> py_error option" where
  "communicate_path local_asn S i p =
     (let s = S i in
      if \<not> se_established s then (s, None)
      else if \<not> path_family_ok s p then (s, None)
      else if rtfilter_blocks s p then (s, None)
      else
        (case (case pt_as_path p of None \<Rightarrow> Inr False | Some segs \<Rightarrow> has_matching_leftmost (se_remote_as s) segs) of
           Inl e \<Rightarrow> (s, Some e)
         | Inr True \<Rightarrow> (s, None)
         | Inr False \<Rightarrow>
             (let s = (if se_rs_client s then enque_outgoing (p, False) s else s);
                  p = update_med s p
              in
                (case pt_source p of
                   NC \<Rightarrow> (enque_outgoing (p, False) s, None)
                 | TableSource t \<Rightarrow>
                     (if se_remote_as s = local_asn then (s, Some AttributeError)
                      else if community_blocks local_asn s p then (s, None)
                      else (enque_outgoing (p, False) s, None))
                 | FromPeer j \<Rightarrow>
                     (if i = j then (s, None)
                      else if se_remote_as s = local_asn \<and> se_remote_as (S j) = local_asn \<and>
                          \<not> se_rr_client (S j) \<and> \<not> se_rr_client s then (s, None)
                      else if community_blocks local_asn s p then (s, None)
                      else (enque_outgoing (p, False) s, None))))))"

section \<open>The outgoing queue\<close>

text \<open>
  \<^verbatim>\<open>_send_outgoing_route\<close>: a path that the filter blocks is not sent, but it is recorded; the
  destination is told of every announcement, unless it answers a refresh.
\<close>

definition send_outgoing_route :: "netaddr \<Rightarrow> nat \<Rightarrow> bgp_path \<times> bool \<Rightarrow> bgp_session \<times> bgp_table \<Rightarrow>
    (bgp_session \<times> bgp_table) res" where
  "send_outgoing_route within i = (\<lambda>(p, refresh) (s, t).
     res_bind (apply_filter within (se_out_filters s) p) (\<lambda>block.
     let s = s\<lparr>se_adj_rib_out := AList.update (pt_nlri p) (p, block) (se_adj_rib_out s),
               se_sent := (if block then se_sent s else se_sent s @ [p])\<rparr>
     in if \<not> pt_is_withdraw p \<and> \<not> refresh
        then res_bind (insert_sent_route i p t) (\<lambda>t. Inr (s, t))
        else Inr (s, t)))"

fun send_all :: "netaddr \<Rightarrow> nat \<Rightarrow> (bgp_path \<times> bool) list \<Rightarrow> bgp_session \<times> bgp_table \<Rightarrow> (bgp_session \<times> bgp_table) res" where
  "send_all within i [] st = Inr st"
| "send_all within i (m # ms) st = res_bind (send_outgoing_route within i m st) (send_all within i ms)"

text \<open>The thread of the peer until its queue is empty (\<^verbatim>\<open>_process_outgoing_msg_list\<close>).\<close>

definition drain_outgoing :: "netaddr \<Rightarrow> nat \<Rightarrow> bgp_session \<times> bgp_table \<Rightarrow> (bgp_session \<times> bgp_table) res" where
  "drain_outgoing within i = (\<lambda>(s, t). send_all within i (se_outgoing s) (s\<lparr>se_outgoing := []\<rparr>, t))"

text \<open>
  \<^verbatim>\<open>on_update_out_filter\<close>: the entries of the Adj-RIB-Out whose state changes, and the routes that
  are queued for them.
\<close>

fun out_filter_loop :: "netaddr \<Rightarrow> bgp_filter list \<Rightarrow> (string \<times> (bgp_path \<times> bool)) list \<Rightarrow>
    ((string \<times> (bgp_path \<times> bool)) list \<times> (bgp_path \<times> bool) list) res" where
  "out_filter_loop within fs [] = Inr ([], [])"
| "out_filter_loop within fs ((k, (p, filtered)) # es) =
     res_bind (apply_filter within fs p) (\<lambda>block.
     res_bind (out_filter_loop within fs es) (\<lambda>(es', ms).
     if block = filtered then Inr ((k, (p, filtered)) # es', ms)
     else Inr ((k, (p, block)) # es', (if block then withdraw_clone p else p, False) # ms)))"

definition set_out_filters :: "netaddr \<Rightarrow> bgp_filter list \<Rightarrow> bgp_session \<Rightarrow> bgp_session res" where
  "set_out_filters within fs s =
     res_bind (out_filter_loop within fs (se_adj_rib_out s)) (\<lambda>(es, ms).
     Inr (s\<lparr>se_out_filters := fs, se_adj_rib_out := es, se_outgoing := se_outgoing s @ ms\<rparr>))"

text \<open>\<^verbatim>\<open>on_update_attribute_maps\<close>: everything is sent again.\<close>

definition on_update_attribute_maps :: "bgp_session \<Rightarrow> bgp_session" where
  "on_update_attribute_maps s =
     s\<lparr>se_outgoing := se_outgoing s @ map (\<lambda>(k, (p, filtered)). (p, False)) (se_adj_rib_out s)\<rparr>"

end
