(* ===== verification/Bgp_Core.thy ===== *)
theory Bgp_Core
  imports Bgp_Peer
begin

text \<open>
  The speaker as a whole, for IPv4 unicast: UPDATE messages are taken in by a peer
  (\<^verbatim>\<open>peer.py\<close>), paths go to the table (\<^verbatim>\<open>core_managers/table_manager.py\<close>), destinations are
  processed, and what they tell goes to the peers (\<^verbatim>\<open>core_managers/peer_manager.py\<close>). The queue of
  destinations is the sequence that the processor's circular list holds.
\<close>

record bgp_core =
  co_asn :: int
  co_next :: nat
  co_table :: bgp_table
  co_queue :: "string list"
  co_peers :: "nat list"
  co_sessions :: "nat \<Rightarrow> bgp_session"
  co_rtfilters :: "(nat \<times> string list option) list"

definition put_session :: "nat \<Rightarrow> bgp_session \<Rightarrow> bgp_core \<Rightarrow> bgp_core" where
  "put_session i s c = c\<lparr>co_sessions := (co_sessions c)(i := s)\<rparr>"

section \<open>Taking in\<close>

text \<open>An UPDATE message: the attributes it carries, its prefixes with their lengths, and the withdrawn ones.\<close>

record bgp_update =
  up_as_path :: "as_segment list option"
  up_as4_path :: "as_segment list option"
  up_aggregator :: "int option"
  up_as4_aggregator :: "int option"
  up_origin :: "int option"
  up_next_hop :: "string option"
  up_local_pref :: "int option"
  up_med :: "int option"
  up_originator_id :: "string option"
  up_cluster_list :: "string list option"
  up_communities :: "int list option"
  up_rts :: "string list option"
  up_nlri :: "(string \<times> int) list"
  up_withdrawn :: "(string \<times> int) list"

text \<open>\<^verbatim>\<open>_validate_update_msg\<close>, for a message without the multiprotocol attributes.\<close>

definition validate_update_msg :: "bgp_session \<Rightarrow> bgp_update \<Rightarrow> bool res" where
  "validate_update_msg s u =
     (if \<not> se_established s then Inl (RyuError ''FiniteStateMachineError'')
      else if up_nlri u = [] then Inr True
      else (case up_as_path u of None \<Rightarrow> Inl (RyuError ''MissingWellKnown'')
        | Some segs \<Rightarrow>
            res_bind (if se_check_first_as s \<and> is_ebgp_peer s then has_matching_leftmost (se_remote_as s) segs else Inr True)
             (\<lambda>ok. if \<not> ok then Inl (RyuError ''MalformedAsPath'')
               else if up_origin u = None \<or> up_next_hop u = None then Inl (RyuError ''MissingWellKnown'')
               else Inr True)))"

text \<open>\<^verbatim>\<open>_extract_and_reconstruct_as_path\<close>\<close>

definition reconstruct_as_path :: "bgp_update \<Rightarrow> bgp_update" where
  "reconstruct_as_path u =
     (let u = (case (up_aggregator u, up_as4_aggregator u) of
            (Some n, Some m) \<Rightarrow>
              (if n \<noteq> AS_TRANS then u\<lparr>up_as4_aggregator := None, up_as4_path := None\<rparr>
               else u\<lparr>up_aggregator := Some m, up_as4_aggregator := None\<rparr>)
          | _ \<Rightarrow> u)
      in (case (up_as_path u, up_as4_path u) of
            (Some p, Some p4) \<Rightarrow>
              (if as_path_len p < as_path_len p4 then u\<lparr>up_as4_path := None\<rparr>
               else u\<lparr>up_as_path := Some (construct_as_path_attr p (Some p4)), up_as4_path := None\<rparr>)
          | _ \<Rightarrow> u))"

text \<open>
  \<^verbatim>\<open>_is_looped_path_attrs\<close>: every branch returns \<^verbatim>\<open>None\<close>, which its caller reads as false. (The
  check in between compares the originator's attribute object with a string, which is never equal.)
\<close>

definition is_looped_path_attrs :: "bgp_session \<Rightarrow> bgp_update \<Rightarrow> bool option" where
  "is_looped_path_attrs s u =
     (if (case up_as_path u of None \<Rightarrow> False | Some segs \<Rightarrow> has_local_as (se_local_as s) (se_allow_local_as_in s) segs) then None
      else if (case up_cluster_list u of None \<Rightarrow> False | Some ids \<Rightarrow> se_cluster_id s \<in> set ids) then None
      else None)"

definition new_path :: "nat \<Rightarrow> nat \<Rightarrow> int \<Rightarrow> bgp_update \<Rightarrow> string \<times> int \<Rightarrow> bgp_path" where
  "new_path n i ver u = (\<lambda>(nlri, plen).
     \<lparr>pt_id = n, pt_rf = (1, 1), pt_source = FromPeer i, pt_nlri = nlri, pt_plen = plen, pt_version_num = ver,
      pt_local_pref = up_local_pref u, pt_as_path = up_as_path u, pt_origin = up_origin u, pt_med = up_med u,
      pt_originator_id = up_originator_id u, pt_cluster_list = up_cluster_list u,
      pt_communities = up_communities u, pt_rts = up_rts u,
      pt_nexthop = (case up_next_hop u of None \<Rightarrow> [] | Some h \<Rightarrow> h), pt_is_withdraw = False,
      pt_med_by_target = False\<rparr>)"

definition withdraw_path_of :: "nat \<Rightarrow> nat \<Rightarrow> int \<Rightarrow> string \<times> int \<Rightarrow> bgp_path" where
  "withdraw_path_of n i ver = (\<lambda>(nlri, plen).
     \<lparr>pt_id = n, pt_rf = (1, 1), pt_source = FromPeer i, pt_nlri = nlri, pt_plen = plen, pt_version_num = ver,
      pt_local_pref = None, pt_as_path = None, pt_origin = None, pt_med = None, pt_originator_id = None,
      pt_cluster_list = None, pt_communities = None, pt_rts = None, pt_nexthop = [], pt_is_withdraw = True,
      pt_med_by_target = False\<rparr>)"

text \<open>\<^verbatim>\<open>learn_path\<close>: into the table, and the destination into the queue.\<close>

definition learn_path :: "bgp_path \<Rightarrow> bgp_core \<Rightarrow> bgp_core res" where
  "learn_path p c =
     res_bind (table_insert p (co_table c)) (\<lambda>t.
     Inr (c\<lparr>co_table := t,
            co_queue := (if pt_nlri p \<in> set (co_queue c) then co_queue c else co_queue c @ [pt_nlri p])\<rparr>))"

definition handle_nlri :: "netaddr \<Rightarrow> nat \<Rightarrow> bgp_update \<Rightarrow> string \<times> int \<Rightarrow> bgp_core \<Rightarrow> bgp_core res" where
  "handle_nlri within i u nlri c =
     (let s = co_sessions c i; p = new_path (co_next c) i (se_version_num s) u nlri in
      if pt_nexthop p = [] then Inl ValueError
      else
        res_bind (apply_filter within (se_in_filters s) p) (\<lambda>block.
        let s = s\<lparr>se_adj_rib_in := AList.update (pt_nlri p) (p, block) (se_adj_rib_in s)\<rparr>;
            c = put_session i s (c\<lparr>co_next := Suc (co_next c)\<rparr>)
        in if block then Inr c else learn_path p c))"

definition handle_withdrawn :: "netaddr \<Rightarrow> nat \<Rightarrow> string \<times> int \<Rightarrow> bgp_core \<Rightarrow> bgp_core res" where
  "handle_withdrawn within i nlri c =
     (let s = co_sessions c i; p = withdraw_path_of (co_next c) i (se_version_num s) nlri in
      res_bind (apply_filter within (se_in_filters s) p) (\<lambda>block.
      let s = s\<lparr>se_adj_rib_in := AList.delete (pt_nlri p) (se_adj_rib_in s)\<rparr>;
          c = put_session i s (c\<lparr>co_next := Suc (co_next c)\<rparr>)
      in if block then Inr c else learn_path p c))"

fun handle_all :: "('a \<Rightarrow> bgp_core \<Rightarrow> bgp_core res) \<Rightarrow> 'a list \<Rightarrow> bgp_core \<Rightarrow> bgp_core res" where
  "handle_all f [] c = Inr c"
| "handle_all f (x # xs) c = res_bind (f x c) (handle_all f xs)"

text \<open>\<^verbatim>\<open>_handle_update_msg\<close>: the prefixes first, then the withdrawn ones.\<close>

definition handle_update_msg :: "netaddr \<Rightarrow> nat \<Rightarrow> bgp_update \<Rightarrow> bgp_core \<Rightarrow> bgp_core res" where
  "handle_update_msg within i u c =
     (let s = co_sessions c i in
      if \<not> se_established s then Inl AssertionError
      else
        res_bind (validate_update_msg s u) (\<lambda>ok.
        if \<not> ok then Inr c
        else (let u = reconstruct_as_path u in
          if is_looped_path_attrs s u = Some True then Inr c
          else
            res_bind (handle_all (handle_nlri within i u) (up_nlri u) c) (\<lambda>c.
            handle_all (handle_withdrawn within i) (up_withdrawn u) c))))"

text \<open>\<^verbatim>\<open>on_update_in_filter\<close>: what changes is learned again or withdrawn.\<close>

fun in_filter_loop :: "netaddr \<Rightarrow> bgp_filter list \<Rightarrow> (string \<times> (bgp_path \<times> bool)) list \<Rightarrow>
    ((string \<times> (bgp_path \<times> bool)) list \<times> bgp_path list) res" where
  "in_filter_loop within fs [] = Inr ([], [])"
| "in_filter_loop within fs ((k, (p, filtered)) # es) =
     res_bind (apply_filter within fs p) (\<lambda>block.
     res_bind (in_filter_loop within fs es) (\<lambda>(es', ps).
     if block = filtered then Inr ((k, (p, filtered)) # es', ps)
     else Inr ((k, (p, block)) # es', (if block then withdraw_clone p else p) # ps)))"

definition set_in_filters :: "netaddr \<Rightarrow> nat \<Rightarrow> bgp_filter list \<Rightarrow> bgp_core \<Rightarrow> bgp_core res" where
  "set_in_filters within i fs c =
     (let s = co_sessions c i in
      res_bind (in_filter_loop within fs (se_adj_rib_in s)) (\<lambda>(es, ps).
      handle_all learn_path ps (put_session i (s\<lparr>se_in_filters := fs, se_adj_rib_in := es\<rparr>) c)))"

section \<open>Telling the peers\<close>

text \<open>
  \<^verbatim>\<open>_collect_peers_of_interest\<close>. A path with route targets goes to the peers without a filter of
  their own and to those whose filter has one of the targets.
\<close>

definition collect_peers_of_interest :: "bgp_core \<Rightarrow> bgp_path \<Rightarrow> nat list" where
  "collect_peers_of_interest c p =
     (case pt_rts p of None \<Rightarrow> co_peers c
      | Some [] \<Rightarrow> co_peers c
      | Some rts \<Rightarrow>
          (let plain = filter (\<lambda>i. se_established (co_sessions c i) \<and> (1, 132) \<notin> set (se_caps (co_sessions c i))) (co_peers c);
               wants = filter (\<lambda>(i, f). case f of None \<Rightarrow> True | Some fs \<Rightarrow> set fs \<inter> set (rts @ [DEFAULT_RT]) \<noteq> {}) (co_rtfilters c)
           in remdups (plain @ map fst wants)))"

fun communicate_all :: "bgp_path \<Rightarrow> nat list \<Rightarrow> bgp_core \<Rightarrow> bgp_core res" where
  "communicate_all p [] c = Inr c"
| "communicate_all p (i # is) c =
     (case communicate_path (co_asn c) (co_sessions c) i p of
        (s, Some e) \<Rightarrow> Inl e
      | (s, None) \<Rightarrow> communicate_all p is (put_session i s c))"

definition comm_new_best :: "bgp_path \<Rightarrow> bgp_core \<Rightarrow> bgp_core res" where
  "comm_new_best p c =
     (if has_comm_attr p NO_ADVERTISE then Inr c
      else communicate_all p (collect_peers_of_interest c p) c)"

fun exec_msg :: "bgp_msg \<Rightarrow> bgp_core \<Rightarrow> bgp_core res" where
  "exec_msg (CommNewBest p) c = comm_new_best p c"
| "exec_msg (EnqueWithdraw i p) c = Inr (put_session i (enque_outgoing (p, False) (co_sessions c i)) c)"
| "exec_msg (BestPathChanged p w) c = Inr c"

definition bgp_peers_of :: "(nat \<Rightarrow> (string \<times> string) option) \<Rightarrow> bgp_core \<Rightarrow> bgp_peers" where
  "bgp_peers_of ids c = (\<lambda>i. \<lparr>bp_remote_as = se_remote_as (co_sessions c i),
     bp_version_num = se_version_num (co_sessions c i), bp_open_ids = ids i\<rparr>)"

text \<open>One queued destination is processed; an exception ends the thread.\<close>

definition core_process :: "addrconv \<Rightarrow> (nat \<Rightarrow> (string \<times> string) option) \<Rightarrow> bgp_core \<Rightarrow> bgp_core res" where
  "core_process A ids c =
     (case co_queue c of [] \<Rightarrow> Inr c
      | nlri # rest \<Rightarrow>
          (case table_process A (bgp_peers_of ids c) (co_asn c) nlri (co_table c) of
             (t, msgs, Some e) \<Rightarrow> Inl e
           | (t, msgs, None) \<Rightarrow> handle_all exec_msg msgs (c\<lparr>co_table := t, co_queue := rest\<rparr>)))"

text \<open>The thread of a peer sends what is queued.\<close>

definition core_drain :: "netaddr \<Rightarrow> nat \<Rightarrow> bgp_core \<Rightarrow> bgp_core res" where
  "core_drain within i c =
     res_bind (drain_outgoing within i (co_sessions c i, co_table c)) (\<lambda>(s, t).
     Inr (put_session i s (c\<lparr>co_table := t\<rparr>)))"

text \<open>
  \<^verbatim>\<open>resend_sent\<close>: the answer to a refresh, with the neighbour's current MED where the path had none of
  its own. A MED that is not set fails the assertion of the clone.
\<close>

definition refresh_med :: "int option \<Rightarrow> bgp_path \<Rightarrow> bgp_path res" where
  "refresh_med med p =
     (if \<not> pt_med_by_target p \<and> pt_med p \<noteq> None then Inr p
      else (case med of None \<Rightarrow> Inl AssertionError
        | Some m \<Rightarrow> if m = 0 then Inl AssertionError else Inr (p\<lparr>pt_med := Some m, pt_med_by_target := True\<rparr>)))"

fun resend_loop :: "nat \<Rightarrow> int option \<Rightarrow> (string \<times> bgp_dest) list \<Rightarrow>
    ((string \<times> bgp_dest) list \<times> (bgp_path \<times> bool) list) res" where
  "resend_loop i med [] = Inr ([], [])"
| "resend_loop i med ((k, d) # ds) =
     (case map_of (ds_sent d) i of
        None \<Rightarrow> res_bind (resend_loop i med ds) (\<lambda>(ds, ms). Inr ((k, d) # ds, ms))
      | Some p \<Rightarrow>
          res_bind (refresh_med med p) (\<lambda>p.
          res_bind (resend_loop i med ds) (\<lambda>(ds, ms).
          Inr ((k, d\<lparr>ds_sent := AList.update i p (ds_sent d)\<rparr>) # ds, (p, True) # ms))))"

definition resend_sent :: "nat \<Rightarrow> bgp_core \<Rightarrow> bgp_core res" where
  "resend_sent i c =
     (if i \<notin> set (co_peers c) then Inl ValueError
      else
        (let s = co_sessions c i in
         res_bind (resend_loop i (se_med s) (tb_dests (co_table c))) (\<lambda>(ds, ms).
         Inr (put_session i (s\<lparr>se_outgoing := se_outgoing s @ ms\<rparr>) (c\<lparr>co_table := (co_table c)\<lparr>tb_dests := ds\<rparr>\<rparr>)))))"

text \<open>\<^verbatim>\<open>comm_all_best_paths\<close>: the first updates of a session.\<close>

definition comm_all_best_paths :: "nat \<Rightarrow> bgp_core \<Rightarrow> bgp_core res" where
  "comm_all_best_paths i c =
     (if (1, 1) \<in> set (se_caps (co_sessions c i))
      then handle_all (\<lambda>p. communicate_all p [i]) (List.map_filter (\<lambda>(k, d). ds_best d) (tb_dests (co_table c))) c
      else Inr c)"

text \<open>\<^verbatim>\<open>clean_stale_routes\<close> of a peer whose version number has grown.\<close>

definition clean_stale_routes :: "nat \<Rightarrow> bgp_core \<Rightarrow> bgp_core" where
  "clean_stale_routes i c =
     (case cleanup_paths_for_peer i (se_version_num (co_sessions c i)) (co_table c) of
        (t, changed) \<Rightarrow>
          c\<lparr>co_table := t, co_queue := co_queue c @ filter (\<lambda>k. k \<notin> set (co_queue c)) changed\<rparr>)"

end
