(* ===== verification/Bgp_Adverts.thy ===== *)
theory Bgp_Adverts
  imports Bgp_Core Bgp_Tables
begin

text \<open>
  What reaches the neighbours: which peers get a new best path, what is left with a neighbour when its
  queue has been sent, and what a change of the filters or a looped path does.
\<close>

section \<open>Who gets a path\<close>

definition may_advertise :: "int \<Rightarrow> (nat \<Rightarrow> bgp_session) \<Rightarrow> nat \<Rightarrow> bgp_path \<Rightarrow> bool" where
  "may_advertise local_asn S i p \<longleftrightarrow> se_established (S i) \<and> path_family_ok (S i) p \<and> \<not> rtfilter_blocks (S i) p \<and>
     (case pt_as_path p of Some (AsSequence (n # ns) # segs) \<Rightarrow> se_remote_as (S i) = 0 \<or> n \<noteq> se_remote_as (S i) | _ \<Rightarrow> True) \<and>
     (case pt_source p of NC \<Rightarrow> True | TableSource t \<Rightarrow> \<not> community_blocks local_asn (S i) p
      | FromPeer j \<Rightarrow> i \<noteq> j \<and> \<not> community_blocks local_asn (S i) p \<and>
          (se_remote_as (S i) = local_asn \<and> se_remote_as (S j) = local_asn \<longrightarrow> se_rr_client (S i) \<or> se_rr_client (S j)))"

text \<open>The paths that do not raise an exception: from peers or local, and not a set in front.\<close>

definition path_plain :: "bgp_path \<Rightarrow> bool" where
  "path_plain p \<longleftrightarrow> (case pt_source p of TableSource t \<Rightarrow> False | _ \<Rightarrow> True) \<and>
     (case pt_as_path p of Some (AsSet ns # segs) \<Rightarrow> False | _ \<Rightarrow> True)"

lemma leftmost_plain:
  assumes "path_plain p"
  shows "(case pt_as_path p of None \<Rightarrow> Inr False | Some segs \<Rightarrow> has_matching_leftmost r segs) =
    Inr (\<not> (case pt_as_path p of Some (AsSequence (n # ns) # segs) \<Rightarrow> r = 0 \<or> n \<noteq> r | _ \<Rightarrow> True))"
  using assms by (auto simp: path_plain_def has_matching_leftmost_def split: option.splits list.splits as_segment.splits)

lemma update_med_simps [simp]:
  "pt_source (update_med s p) = pt_source p" "pt_communities (update_med s p) = pt_communities p"
  "pt_nlri (update_med s p) = pt_nlri p" "pt_rf (update_med s p) = pt_rf p"
  "pt_is_withdraw (update_med s p) = pt_is_withdraw p"
  by (simp_all add: update_med_def split: option.split)

lemma community_med [simp]: "community_blocks a s (update_med s' p) = community_blocks a s p"
  by (simp add: community_blocks_def has_comm_attr_def)

lemma communicate_plain:
  assumes "path_plain p" "\<not> se_rs_client (S i)"
  shows "communicate_path local_asn S i p =
    (if may_advertise local_asn S i p then enque_outgoing (update_med (S i) p, False) (S i) else S i, None)"
proof (cases "se_established (S i) \<and> path_family_ok (S i) p \<and> \<not> rtfilter_blocks (S i) p")
  case False
  then show ?thesis by (auto simp: communicate_path_def Let_def may_advertise_def)
next
  case True
  then show ?thesis using assms
    unfolding communicate_path_def Let_def leftmost_plain [OF assms(1)] may_advertise_def
    by (cases "pt_source p") (auto simp: path_plain_def split: bool.split)
qed

text \<open>What a peer is asked depends on settings that the queueing leaves alone.\<close>

definition same_settings :: "(nat \<Rightarrow> bgp_session) \<Rightarrow> (nat \<Rightarrow> bgp_session) \<Rightarrow> bool" where
  "same_settings S S' \<longleftrightarrow> (\<forall>i. \<exists>q. S' i = S i\<lparr>se_outgoing := q\<rparr>)"

lemma same_settings_D: "same_settings S S' \<Longrightarrow> \<exists>q. S' i = S i\<lparr>se_outgoing := q\<rparr>"
  by (simp add: same_settings_def)

lemma outgoing_unread:
  "path_family_ok (s\<lparr>se_outgoing := q\<rparr>) p = path_family_ok s p"
  "rtfilter_blocks (s\<lparr>se_outgoing := q\<rparr>) p = rtfilter_blocks s p"
  "community_blocks a (s\<lparr>se_outgoing := q\<rparr>) p = community_blocks a s p"
  by (simp_all add: path_family_ok_def rtfilter_blocks_def community_blocks_def)

lemma may_advertise_same: "same_settings S S' \<Longrightarrow> may_advertise a S' i p = may_advertise a S i p"
proof -
  assume s: "same_settings S S'"
  obtain q where q: "S' i = S i\<lparr>se_outgoing := q\<rparr>" using same_settings_D [OF s] by blast
  have r: "se_remote_as (S' j) = se_remote_as (S j)" "se_rr_client (S' j) = se_rr_client (S j)" for j
    using same_settings_D [OF s, of j] by auto
  have e: "path_family_ok (S' i) p = path_family_ok (S i) p" "rtfilter_blocks (S' i) p = rtfilter_blocks (S i) p"
    "community_blocks a (S' i) p = community_blocks a (S i) p" "se_established (S' i) = se_established (S i)"
    unfolding q by (simp_all add: outgoing_unread)
  show ?thesis unfolding may_advertise_def r e ..
qed

lemma same_settings_put: "\<exists>q. s = S i\<lparr>se_outgoing := q\<rparr> \<Longrightarrow> same_settings S (S(i := s))"
proof -
  assume "\<exists>q. s = S i\<lparr>se_outgoing := q\<rparr>"
  moreover have "S j = S j\<lparr>se_outgoing := se_outgoing (S j)\<rparr>" for j by simp
  ultimately show ?thesis unfolding same_settings_def by (metis fun_upd_other fun_upd_same)
qed

lemma communicate_all_plain:
  assumes "path_plain p"
  shows "distinct is \<Longrightarrow> list_all (\<lambda>i. \<not> se_rs_client (co_sessions c i)) is \<Longrightarrow>
    communicate_all p is c = Inr (c\<lparr>co_sessions := (\<lambda>i. if i \<in> set is \<and> may_advertise (co_asn c) (co_sessions c) i p
      then enque_outgoing (update_med (co_sessions c i) p, False) (co_sessions c i) else co_sessions c i)\<rparr>)"
proof (induction "is" arbitrary: c)
  case (Cons i js)
  let ?S = "co_sessions c"
  define s where "s = (if may_advertise (co_asn c) ?S i p then enque_outgoing (update_med (?S i) p, False) (?S i) else ?S i)"
  define c' where "c' = put_session i s c"
  have c': "co_asn c' = co_asn c" "co_sessions c' = ?S(i := s)" by (simp_all add: c'_def put_session_def)
  have "s = ?S i\<lparr>se_outgoing := se_outgoing s\<rparr>" by (simp add: s_def enque_outgoing_def)
  then have ss: "same_settings ?S (?S(i := s))" by (intro same_settings_put) blast
  have rs: "list_all (\<lambda>j. \<not> se_rs_client (co_sessions c' j)) js"
    using Cons.prems by (auto simp: c' list_all_iff)
  have "communicate_all p (i # js) c = communicate_all p js c'"
    using communicate_plain [OF assms, of ?S i "co_asn c"] Cons.prems by (simp add: s_def c'_def)
  also have "\<dots> = Inr (c'\<lparr>co_sessions := (\<lambda>j. if j \<in> set js \<and> may_advertise (co_asn c) (?S(i := s)) j p
      then enque_outgoing (update_med ((?S(i := s)) j) p, False) ((?S(i := s)) j) else (?S(i := s)) j)\<rparr>)"
    using Cons.prems(1) by (intro Cons.IH [OF _ rs, unfolded c']) simp
  also have "(\<lambda>j. if j \<in> set js \<and> may_advertise (co_asn c) (?S(i := s)) j p
      then enque_outgoing (update_med ((?S(i := s)) j) p, False) ((?S(i := s)) j) else (?S(i := s)) j) =
    (\<lambda>j. if j \<in> set (i # js) \<and> may_advertise (co_asn c) ?S j p
      then enque_outgoing (update_med (?S j) p, False) (?S j) else ?S j)"
    using Cons.prems(1) may_advertise_same [OF ss, of "co_asn c" _ p] by (auto simp: s_def fun_eq_iff)
  finally show ?case by (simp add: c'_def put_session_def)
qed (simp add: bgp_core.equality)

lemma comm_new_best_plain:
  assumes "path_plain p" "pt_rts p = None" "distinct (co_peers c)"
    and "list_all (\<lambda>i. \<not> se_rs_client (co_sessions c i)) (co_peers c)"
  shows "comm_new_best p c = Inr (c\<lparr>co_sessions := (\<lambda>i. if i \<in> set (co_peers c) \<and> \<not> has_comm_attr p NO_ADVERTISE \<and>
      may_advertise (co_asn c) (co_sessions c) i p
      then enque_outgoing (update_med (co_sessions c i) p, False) (co_sessions c i) else co_sessions c i)\<rparr>)"
  using communicate_all_plain [OF assms(1,3,4)] assms(2)
  by (simp add: comm_new_best_def collect_peers_of_interest_def bgp_core.equality)

section \<open>What a neighbour has\<close>

text \<open>The last UPDATE of a prefix counts.\<close>

definition neighbour_rib :: "bgp_path list \<Rightarrow> string \<Rightarrow> bgp_path option" where
  "neighbour_rib sent nlri =
     (case find (\<lambda>p. pt_nlri p = nlri) (rev sent) of None \<Rightarrow> None
      | Some p \<Rightarrow> if pt_is_withdraw p then None else Some p)"

lemma neighbour_rib_snoc [simp]:
  "neighbour_rib (sent @ [p]) nlri =
    (if pt_nlri p = nlri then (if pt_is_withdraw p then None else Some p) else neighbour_rib sent nlri)"
  by (simp add: neighbour_rib_def)

text \<open>Without filters, everything is sent.\<close>

lemma send_all_open:
  "se_out_filters s = [] \<Longrightarrow> list_all (\<lambda>(p, r). pt_rf p = tb_rf t) ms \<Longrightarrow>
    \<exists>s' t'. send_all within i ms (s, t) = Inr (s', t') \<and> se_sent s' = se_sent s @ map fst ms \<and> tb_rf t' = tb_rf t \<and>
      se_out_filters s' = [] \<and> se_outgoing s' = se_outgoing s"
proof (induction ms arbitrary: s t)
  case (Cons m ms)
  obtain p r where m: "m = (p, r)" by (cases m)
  let ?s = "s\<lparr>se_adj_rib_out := AList.update (pt_nlri p) (p, False) (se_adj_rib_out s), se_sent := se_sent s @ [p]\<rparr>"
  obtain t1 where t1: "send_outgoing_route within i m (s, t) = Inr (?s, t1)" "tb_rf t1 = tb_rf t"
    using Cons.prems m by (cases "\<not> pt_is_withdraw p \<and> \<not> r")
      (auto simp: send_outgoing_route_def insert_sent_route_def put_dest_def)
  from Cons.IH [of ?s t1] Cons.prems t1(2) obtain s' t' where
    "send_all within i ms (?s, t1) = Inr (s', t')" "se_sent s' = se_sent ?s @ map fst ms" "tb_rf t' = tb_rf t1"
    "se_out_filters s' = []" "se_outgoing s' = se_outgoing ?s" by auto
  with t1 m show ?case by auto
qed simp

lemma drain_open:
  assumes "se_out_filters (co_sessions c i) = []"
    and "list_all (\<lambda>(p, r). pt_rf p = tb_rf (co_table c)) (se_outgoing (co_sessions c i))"
  shows "\<exists>c'. core_drain within i c = Inr c' \<and> se_outgoing (co_sessions c' i) = [] \<and>
    se_sent (co_sessions c' i) = se_sent (co_sessions c i) @ map fst (se_outgoing (co_sessions c i))"
  using send_all_open [of "co_sessions c i\<lparr>se_outgoing := []\<rparr>" "co_table c" "se_outgoing (co_sessions c i)" within i] assms
  by (auto simp: core_drain_def drain_outgoing_def put_session_def)

section \<open>A new best path while the old one is still known\<close>

lemma new_best_old_known:
  assumes "ds_best d = Some old" "list_ex (same_object old) (ds_known d)"
  shows "new_best_path b d = (d\<lparr>ds_best := Some b, ds_sent := []\<rparr>,
    CommNewBest b # withdraw_sent d @ [BestPathChanged (Some b) False])"
  using assms by (simp add: new_best_path_def withdraw_sent_def Let_def)

lemma exec_withdraws:
  "distinct (map fst sent) \<Longrightarrow>
    handle_all exec_msg (map (\<lambda>(peer, p). EnqueWithdraw peer (withdraw_clone p)) sent @ ms) c =
    handle_all exec_msg ms (c\<lparr>co_sessions := (\<lambda>i. case map_of sent i of None \<Rightarrow> co_sessions c i
      | Some p \<Rightarrow> enque_outgoing (withdraw_clone p, False) (co_sessions c i))\<rparr>)"
proof (induction sent arbitrary: c)
  case (Cons e sent)
  obtain j p where e: "e = (j, p)" by (cases e)
  have j: "map_of sent j = None" using Cons.prems e by (simp add: map_of_eq_None_iff)
  define S where "S = (co_sessions c)(j := enque_outgoing (withdraw_clone p, False) (co_sessions c j))"
  have S: "co_sessions (put_session j (enque_outgoing (withdraw_clone p, False) (co_sessions c j)) c) = S"
    by (simp add: put_session_def S_def)
  have f: "(\<lambda>i. case map_of sent i of None \<Rightarrow> S i | Some q \<Rightarrow> enque_outgoing (withdraw_clone q, False) (S i)) =
    (\<lambda>i. case map_of (e # sent) i of None \<Rightarrow> co_sessions c i | Some q \<Rightarrow> enque_outgoing (withdraw_clone q, False) (co_sessions c i))"
    using j by (auto simp: e S_def fun_eq_iff split: option.split)
  have d: "distinct (map fst sent)" using Cons.prems by simp
  have "handle_all exec_msg (map (\<lambda>(peer, p). EnqueWithdraw peer (withdraw_clone p)) (e # sent) @ ms) c =
    handle_all exec_msg (map (\<lambda>(peer, p). EnqueWithdraw peer (withdraw_clone p)) sent @ ms)
      (put_session j (enque_outgoing (withdraw_clone p, False) (co_sessions c j)) c)"
    by (simp add: e)
  also have "\<dots> = handle_all exec_msg ms (c\<lparr>co_sessions := (\<lambda>i. case map_of (e # sent) i of None \<Rightarrow> co_sessions c i
      | Some q \<Rightarrow> enque_outgoing (withdraw_clone q, False) (co_sessions c i))\<rparr>)"
    unfolding Cons.IH [OF d] S f by (simp add: put_session_def)
  finally show ?case .
qed (simp add: bgp_core.equality)

lemma exec_new_best:
  assumes "path_plain b" "pt_rts b = None" "distinct (co_peers c)" "\<not> has_comm_attr b NO_ADVERTISE"
    and "list_all (\<lambda>i. \<not> se_rs_client (co_sessions c i)) (co_peers c)" "distinct (map fst (ds_sent d))"
    and i: "i \<in> set (co_peers c)" "may_advertise (co_asn c) (co_sessions c) i b" "map_of (ds_sent d) i = Some sp"
  shows "\<exists>c'. handle_all exec_msg (CommNewBest b # withdraw_sent d @ [BestPathChanged (Some b) False]) c = Inr c' \<and>
    co_table c' = co_table c \<and> co_sessions c' i = (co_sessions c i)\<lparr>se_outgoing := se_outgoing (co_sessions c i) @
      [(update_med (co_sessions c i) b, False), (withdraw_clone sp, False)]\<rparr>"
  using comm_new_best_plain [OF assms(1,2,3,5)] assms(4,6) i
  by (simp add: withdraw_sent_def exec_withdraws enque_outgoing_def)

lemma core_new_best:
  assumes q: "co_queue c = nlri # rest" and t: "table_typed (co_table c)" and m: "map_of (tb_dests (co_table c)) nlri = Some d"
    and p: "process_paths A (bgp_peers_of ids c) (co_asn c) d = (d1, Inr (Some b, reason))"
    and old: "ds_best d = Some old" "pt_id old \<noteq> pt_id b" "list_ex (same_object old) (ds_known d1)"
    and b: "path_plain b" "pt_rts b = None" "\<not> has_comm_attr b NO_ADVERTISE"
    and peers: "distinct (co_peers c)" "list_all (\<lambda>i. \<not> se_rs_client (co_sessions c i)) (co_peers c)"
    and i: "i \<in> set (co_peers c)" "may_advertise (co_asn c) (co_sessions c) i b" "map_of (ds_sent d) i = Some sp"
    and s: "se_outgoing (co_sessions c i) = []" "se_out_filters (co_sessions c i) = []"
  shows "\<exists>c1 c2. core_process A ids c = Inr c1 \<and> core_drain within i c1 = Inr c2 \<and>
    map_option ds_best (map_of (tb_dests (co_table c1)) nlri) = Some (Some b) \<and>
    neighbour_rib (se_sent (co_sessions c2 i)) nlri = None"
proof -
  have typed: "dest_typed (tb_rf (co_table c)) nlri d" using t m by (auto simp: table_typed_def dest: list_all_lookup)
  have keep: "ds_best d1 = ds_best d" "ds_sent d1 = ds_sent d"
    using p by (auto simp: process_paths_def Let_def remove_withdrawals_def split: if_splits)
  note pt = process_paths_typed [OF typed p]
  have pb: "path_typed (tb_rf (co_table c)) nlri False b"
    using pt(2) [OF refl] pt(1) by (auto simp: dest_typed_def list_all_iff)
  have ps: "path_typed (tb_rf (co_table c)) nlri True (withdraw_clone sp)"
    using typed i(3) by (auto simp: dest_typed_def intro!: path_typed_clone dest: list_all_lookup)
  let ?d = "d1\<lparr>ds_reason := Some reason\<rparr>" and ?d' = "d1\<lparr>ds_reason := Some reason, ds_best := Some b, ds_sent := []\<rparr>"
  have "dest_process_best A (bgp_peers_of ids c) (co_asn c) d =
      (?d', CommNewBest b # withdraw_sent ?d @ [BestPathChanged (Some b) False], None)"
    using p old keep new_best_old_known [of ?d old b] by (simp add: dest_process_best_def same_best_def Let_def)
  then have tp: "table_process A (bgp_peers_of ids c) (co_asn c) nlri (co_table c) =
      (put_dest nlri ?d' (co_table c), CommNewBest b # withdraw_sent ?d @ [BestPathChanged (Some b) False], None)"
    using m by (simp add: table_process_def dest_empty_def)
  let ?c = "c\<lparr>co_table := put_dest nlri ?d' (co_table c), co_queue := rest\<rparr>"
  have "distinct (map fst (ds_sent ?d))" using typed keep by (simp add: dest_typed_def)
  then obtain c1 where c1: "core_process A ids c = Inr c1" "co_table c1 = put_dest nlri ?d' (co_table c)"
    "co_sessions c1 i = (co_sessions c i)\<lparr>se_outgoing := [(update_med (co_sessions c i) b, False), (withdraw_clone sp, False)]\<rparr>"
    using exec_new_best [of b ?c ?d i sp] q tp b peers i s keep by (auto simp: core_process_def)
  then obtain c2 where "core_drain within i c1 = Inr c2"
    "se_sent (co_sessions c2 i) = (se_sent (co_sessions c i) @ [update_med (co_sessions c i) b]) @ [withdraw_clone sp]"
    using drain_open [of c1 i within] s pb ps by (auto simp: path_typed_def put_dest_def)
  with c1 ps show ?thesis
    by (auto simp: put_dest_def path_typed_def update_conv simp del: append_assoc)
qed

section \<open>A filter that denies what was sent\<close>

fun is_prefix_filter :: "bgp_filter \<Rightarrow> bool" where
  "is_prefix_filter (PrefixFilter f) = True"
| "is_prefix_filter (ASPathFilter f) = False"

lemma prefix_evaluate_clone: "prefix_evaluate within f (withdraw_clone p) = prefix_evaluate within f p"
proof -
  have "pt_plen (withdraw_clone p) = pt_plen p" "pt_nlri (withdraw_clone p) = pt_nlri p"
    by (simp_all add: withdraw_clone_def)
  then show ?thesis by (simp only: prefix_evaluate_def)
qed

lemma apply_filter_clone:
  "list_all is_prefix_filter fs \<Longrightarrow> apply_filter within fs (withdraw_clone p) = apply_filter within fs p"
proof (induction fs)
  case (Cons f fs)
  obtain g where "f = PrefixFilter g" using Cons.prems by (cases f) simp_all
  moreover have "filter_rf f = pt_rf (withdraw_clone p) \<longleftrightarrow> filter_rf f = pt_rf p" by (simp add: withdraw_clone_def)
  moreover have "apply_filter within fs (withdraw_clone p) = apply_filter within fs p" using Cons by simp
  ultimately show ?case
    by (cases "prefix_evaluate within g p") (auto simp: prefix_evaluate_clone)
qed simp

lemma send_all_sent:
  "send_all within i ms (s, t) = Inr (s', t') \<Longrightarrow>
    se_sent s' = se_sent s @ filter (\<lambda>p. apply_filter within (se_out_filters s) p = Inr False) (map fst ms)"
proof (induction ms arbitrary: s t)
  case (Cons m ms)
  obtain p r where m: "m = (p, r)" by (cases m)
  obtain block where block: "apply_filter within (se_out_filters s) p = Inr block"
    using Cons.prems m by (cases "apply_filter within (se_out_filters s) p") (simp_all add: send_outgoing_route_def)
  let ?s = "s\<lparr>se_adj_rib_out := AList.update (pt_nlri p) (p, block) (se_adj_rib_out s),
    se_sent := (if block then se_sent s else se_sent s @ [p])\<rparr>"
  obtain t1 where "send_outgoing_route within i m (s, t) = Inr (?s, t1)"
  proof (cases "\<not> pt_is_withdraw p \<and> \<not> r")
    case True
    with Cons.prems m block that show ?thesis
      by (cases "insert_sent_route i p t") (auto simp: send_outgoing_route_def Let_def)
  next
    case False
    with block m that show ?thesis by (auto simp: send_outgoing_route_def Let_def)
  qed
  with Cons.prems have "send_all within i ms (?s, t1) = Inr (s', t')" by simp
  from Cons.IH [OF this] block m show ?case by simp
qed simp

lemma neighbour_rib_other: "list_all (\<lambda>p. pt_nlri p \<noteq> k) ps \<Longrightarrow> neighbour_rib (sent @ ps) k = neighbour_rib sent k"
proof (induction ps rule: rev_induct)
  case (snoc p ps)
  then have "neighbour_rib ((sent @ ps) @ [p]) k = neighbour_rib (sent @ ps) k" by (subst neighbour_rib_snoc) simp
  with snoc show ?case by simp
qed simp

lemma out_filter_loop_outs:
  assumes "list_all is_prefix_filter fs"
  shows "out_filter_loop within fs es = Inr (es', ms) \<Longrightarrow> (q, r) \<in> set ms \<Longrightarrow> apply_filter within fs q = Inr False \<Longrightarrow>
    \<exists>k p f. (k, (p, f)) \<in> set es \<and> apply_filter within fs p = Inr False \<and> pt_nlri q = pt_nlri p"
proof (induction es arbitrary: es' ms)
  case (Cons e es)
  obtain k p f where e: "e = (k, (p, f))" by (metis prod.exhaust)
  obtain block where b: "apply_filter within fs p = Inr block"
    using Cons.prems e by (cases "apply_filter within fs p") simp_all
  obtain es1 ms1 where l: "out_filter_loop within fs es = Inr (es1, ms1)"
    using Cons.prems e b by (cases "out_filter_loop within fs es") auto
  have ms: "ms = (if block = f then ms1 else (if block then withdraw_clone p else p, False) # ms1)"
    using Cons.prems(1) e b l by (auto split: if_splits)
  show ?case
  proof (cases "(q, r) \<in> set ms1")
    case True
    from Cons.IH [OF l True Cons.prems(3)] show ?thesis by auto
  next
    case False
    with ms Cons.prems(2) have q: "q = (if block then withdraw_clone p else p)" by (auto split: if_splits)
    then have "block = False" using Cons.prems(3) b apply_filter_clone [OF assms, of within p] by auto
    with q b show ?thesis by (auto simp: e)
  qed
qed simp

text \<open>The withdrawal that the new filter asks for is blocked by the same filter when it is to be sent.\<close>

lemma denied_route_stays:
  assumes fs: "list_all is_prefix_filter fs" and s: "se_outgoing s = []"
    and out: "list_all (\<lambda>(k, (p, f)). pt_nlri p = k) (se_adj_rib_out s)" "distinct (map fst (se_adj_rib_out s))"
    and k: "map_of (se_adj_rib_out s) k = Some (p, f)" "apply_filter within fs p = Inr True"
    and r: "set_out_filters within fs s = Inr s1" "drain_outgoing within i (s1, t) = Inr (s2, t2)"
  shows "neighbour_rib (se_sent s2) k = neighbour_rib (se_sent s) k"
proof -
  obtain es ms where l: "out_filter_loop within fs (se_adj_rib_out s) = Inr (es, ms)"
    and s1: "s1 = s\<lparr>se_out_filters := fs, se_adj_rib_out := es, se_outgoing := ms\<rparr>"
    using r(1) s by (cases "out_filter_loop within fs (se_adj_rib_out s)") (auto simp: set_out_filters_def)
  have "send_all within i ms (s1\<lparr>se_outgoing := []\<rparr>, t) = Inr (s2, t2)" using r(2) by (simp add: drain_outgoing_def s1)
  from send_all_sent [OF this] have sent: "se_sent s2 = se_sent s @ filter (\<lambda>p. apply_filter within fs p = Inr False) (map fst ms)"
    by (simp add: s1)
  have "pt_nlri q \<noteq> k" if q: "(q, r) \<in> set ms" "apply_filter within fs q = Inr False" for q r
  proof -
    obtain j p' f' where e: "(j, (p', f')) \<in> set (se_adj_rib_out s)" "apply_filter within fs p' = Inr False" "pt_nlri q = pt_nlri p'"
      using out_filter_loop_outs [OF fs l q] by blast
    then have "pt_nlri q = j" "map_of (se_adj_rib_out s) j = Some (p', f')" using out by (auto simp: list_all_iff)
    with k e(2) show ?thesis by auto
  qed
  then have "list_all (\<lambda>p. pt_nlri p \<noteq> k) (filter (\<lambda>p. apply_filter within fs p = Inr False) (map fst ms))"
    by (force simp: list_all_iff)
  then show ?thesis unfolding sent by (rule neighbour_rib_other)
qed

section \<open>A looped path\<close>

lemma looped_learned:
  assumes s: "se_established (co_sessions c i)" "se_in_filters (co_sessions c i) = []" "\<not> se_check_first_as (co_sessions c i)"
    and u: "up_nlri u = [(nlri, plen)]" "up_withdrawn u = []" "up_as_path u = Some segs" "up_as4_path u = None"
      "up_origin u = Some og" "up_next_hop u = Some (h # hs)"
    and rf: "tb_rf (co_table c) = (1, 1)"
  shows "\<exists>c' d. handle_update_msg within i u c = Inr c' \<and> map_of (tb_dests (co_table c')) nlri = Some d \<and>
    list_ex (\<lambda>p. pt_source p = FromPeer i \<and> pt_as_path p = Some segs) (ds_new d) \<and> nlri \<in> set (co_queue c')"
proof -
  have r: "up_as_path (reconstruct_as_path u) = Some segs" "up_nlri (reconstruct_as_path u) = up_nlri u"
    "up_withdrawn (reconstruct_as_path u) = up_withdrawn u" "up_next_hop (reconstruct_as_path u) = up_next_hop u"
    using u by (auto simp: reconstruct_as_path_def Let_def split: option.split)
  have l: "is_looped_path_attrs (co_sessions c i) v \<noteq> Some True" for v by (simp add: is_looped_path_attrs_def)
  show ?thesis using s u rf r l
    by (auto simp: handle_update_msg_def validate_update_msg_def Let_def handle_nlri_def new_path_def learn_path_def
        table_insert_def put_session_def put_dest_def update_conv add_new_path_def)
qed

end
