(* ===== verification/Bgp_Props.thy ===== *)
theory Bgp_Props
  imports Bgp_Rib Bgp_Tables Bgp_Queue Bgp_Adverts
begin

text \<open>The properties of the BGP speaker, each with a concrete instance.\<close>

section \<open>Concrete paths, peers and sessions\<close>

definition sample_path :: "nat \<Rightarrow> nat \<Rightarrow> int list \<Rightarrow> bgp_path" where
  "sample_path n peer asns = \<lparr>pt_id = n, pt_rf = (1, 1), pt_source = FromPeer peer, pt_nlri = ''10.1.0.0/16'', pt_plen = 16,
     pt_version_num = 1, pt_local_pref = None, pt_as_path = Some [AsSequence asns], pt_origin = Some 0, pt_med = None,
     pt_originator_id = None, pt_cluster_list = None, pt_communities = None, pt_rts = None, pt_nexthop = ''192.0.2.1'',
     pt_is_withdraw = False, pt_med_by_target = False\<rparr>"

definition sample_peers :: bgp_peers where
  "sample_peers = (\<lambda>i. \<lparr>bp_remote_as = 65000 + int i, bp_version_num = 1, bp_open_ids = Some (''10.0.0.9'', ''10.0.0.1'')\<rparr>)"

lemma sample_ids: "canon_ip4 unix_addrconv ''10.0.0.1''" "canon_ip4 unix_addrconv ''10.0.0.9''"
  by code_simp+

lemma sample_paths_ok:
  "paths_ok unix_addrconv sample_peers [sample_path 1 1 [65001, 7], sample_path 2 2 [65002], sample_path 3 3 [65003]]"
  by (simp add: paths_ok_def path_ok_def sample_path_def sample_peers_def router_id_text_def open_ids_def sample_ids)

section \<open>The best path\<close>

text \<open>C6: among the paths of a destination the code picks the first of those with the least key: the
  negated local preference, local origin, the length of the AS path, the origin, the MED, external
  before internal, the router id of internal paths, and the length of the cluster list, in this order.\<close>

theorem bgp_best_path:
  assumes "addrconv_ok A" "paths_ok A P ps" "ps \<noteq> []"
  shows "\<exists>pre b post r. ps = pre @ b # post \<and> compute_best_known_path A P local_asn ps = Inr (b, r) \<and>
    list_all (\<lambda>q. path_key A P local_asn b < path_key A P local_asn q) pre \<and>
    list_all (\<lambda>q. path_key A P local_asn b \<le> path_key A P local_asn q) post"
proof -
  obtain p qs where ps: "ps = p # qs" using assms(3) by (cases ps) simp_all
  obtain r where "compute_best_known_path A P local_asn ps = Inr (keep_best (path_cmp A P local_asn) p qs, r)"
    using best_known_loop_keep [OF assms(1) assms(2) [unfolded ps]] by (auto simp: compute_best_known_path_def ps)
  with bgp.keep_best_split [of p qs A P local_asn] show ?thesis unfolding ps by metis
qed

lemma bgp_best_path_witness:
  "\<exists>b r. compute_best_known_path unix_addrconv sample_peers 65000
      [sample_path 1 1 [65001, 7], sample_path 2 2 [65002], sample_path 3 3 [65003]] = Inr (b, r) \<and> pt_id b = 2"
proof -
  let ?ps = "[sample_path 1 1 [65001, 7], sample_path 2 2 [65002], sample_path 3 3 [65003]]"
  let ?k = "path_key unix_addrconv sample_peers 65000"
  have k: "?k (sample_path 1 1 [65001, 7]) = (0, 1, 2, -3, 0, 0, 0, 0)" "?k (sample_path 2 2 [65002]) = (0, 1, 1, -3, 0, 0, 0, 0)"
    "?k (sample_path 3 3 [65003]) = (0, 1, 1, -3, 0, 0, 0, 0)"
    by (simp_all add: path_key_def sample_path_def sample_peers_def origin_pref_def path_med_def path_ebgp_def rid_key_def
        cluster_list_len_def)
  obtain pre b post r where b: "?ps = pre @ b # post" "compute_best_known_path unix_addrconv sample_peers 65000 ?ps = Inr (b, r)"
    "list_all (\<lambda>q. ?k b < ?k q) pre" "list_all (\<lambda>q. ?k b \<le> ?k q) post"
    using bgp_best_path [OF unix_addrconv_ok sample_paths_ok] by blast
  have "pt_id b = 2"
  proof (cases pre)
    case Nil
    with b k show ?thesis by auto
  next
    case (Cons p pre')
    with b(1) have pre': "[sample_path 2 2 [65002], sample_path 3 3 [65003]] = pre' @ b # post" by simp
    show ?thesis
    proof (cases pre')
      case Nil
      with pre' have "b = sample_path 2 2 [65002]" by simp
      then show ?thesis by (simp add: sample_path_def)
    next
      case (Cons q pre'')
      with pre' b(3) \<open>pre = p # pre'\<close> k show ?thesis by (cases pre'') auto
    qed
  qed
  with b(2) show ?thesis by blast
qed

section \<open>Destinations and tables\<close>


definition sample_dest :: bgp_dest where
  "sample_dest = \<lparr>ds_nlri = ''10.1.0.0/16'', ds_known = [sample_path 1 1 [65001, 7], sample_path 2 2 [65002, 8, 9]],
     ds_new = [sample_path 3 3 [65003]], ds_best = Some (sample_path 1 1 [65001, 7]), ds_reason = Some BPR_ASPATH,
     ds_withdraws = [withdraw_clone (sample_path 4 1 [])], ds_sent = []\<rparr>"



text \<open>C28: a table that the operations have made from an empty one holds each destination under its own
  prefix, with paths of that prefix and of the table's route family only, announcements apart from
  withdrawals; what a processed destination tells others is of that kind, too.\<close>

theorem bgp_tables_typed:
  assumes "(table_step A P local_asn)\<^sup>*\<^sup>* (table_create rf) t"
  shows "table_typed t \<and> tb_rf t = rf \<and> list_all (msg_typed rf nlri) (fst (snd (table_process A P local_asn nlri t)))"
proof -
  have t: "table_typed t" "tb_rf t = rf" using steps_typed [OF assms create_table_typed(1)] by (simp_all add: create_table_typed)
  obtain t' m e where "table_process A P local_asn nlri t = (t', m, e)" by (metis prod.exhaust)
  with process_typed [OF t(1) this] t show ?thesis by simp
qed

definition sample_table :: bgp_table where
  "sample_table = put_dest ''10.1.0.0/16'' (add_new_path (sample_path 1 1 [65001]) (dest_create ''10.1.0.0/16'')) (table_create (1, 1))"

lemma bgp_tables_typed_witness:
  "table_typed sample_table \<and> msg_typed (1, 1) ''10.1.0.0/16'' (CommNewBest (sample_path 1 1 [65001]))"
proof -
  have "table_step unix_addrconv sample_peers 65000 (table_create (1, 1)) sample_table"
    by (rule TabInsert [of "sample_path 1 1 [65001]"])
      (simp add: table_insert_def sample_table_def sample_path_def table_create_def get_or_create_dest_def)
  then have "(table_step unix_addrconv sample_peers 65000)\<^sup>*\<^sup>* (table_create (1, 1)) sample_table" by (rule r_into_rtranclp)
  from bgp_tables_typed [OF this, of "''10.1.0.0/16''"] show ?thesis
    by (simp add: sample_table_def table_process_def put_dest_def update_conv add_new_path_def dest_create_def
        dest_process_best_def process_paths_def remove_withdrawals_def Let_def same_best_def new_best_path_def dest_empty_def)
qed

section \<open>The processor\<close>

text \<open>C15: whatever is queued and however the thread takes its turns, the processor with its two circular
  lists does what the one with plain lists does: a destination is on a queue once, route targets are
  processed first and all of them, then the others in their order up to the number of work units; the
  turn of a history of \<open>n\<close> operations ends within \<open>n\<close> steps.\<close>

theorem bgp_processor_fifo:
  assumes "length ops < fuel"
  shows "\<exists>s0 s'. processor_create tables = Inr s0 \<and>
    run_ops fuel A P local_asn units ops s0 = Some (s', snd (abs_run A P local_asn units ops ([], [], s0))) \<and>
    represents s' (fst (abs_run A P local_asn units ops ([], [], s0)))"
proof -
  obtain s0 where s0: "processor_create tables = Inr s0" "represents s0 ([], [], s0)" using create_represents by blast
  with run_represents [OF s0(2), of ops fuel A P local_asn units] assms show ?thesis by auto
qed

lemma bgp_processor_fifo_witness:
  "\<exists>s0 s'. processor_create (\<lambda>rf. table_create rf) = Inr s0 \<and>
    run_ops 5 unix_addrconv sample_peers 65000 1 [OpEnqueue (1, 1) ''a'', OpEnqueue (1, 1) ''b'', OpEnqueue (1, 1) ''a'', OpTurn] s0 =
      Some (s', [Inl False]) \<and> two_queues (pr_links s') [DestNode (1, 1) ''b''] []"
proof -
  let ?ops = "[OpEnqueue (1, 1) ''a'', OpEnqueue (1, 1) ''b'', OpEnqueue (1, 1) ''a'', OpTurn]"
  obtain s0 s' where s: "processor_create (\<lambda>rf. table_create rf) = Inr s0"
    "run_ops 5 unix_addrconv sample_peers 65000 1 ?ops s0 = Some (s', snd (abs_run unix_addrconv sample_peers 65000 1 ?ops ([], [], s0)))"
    "represents s' (fst (abs_run unix_addrconv sample_peers 65000 1 ?ops ([], [], s0)))"
    using bgp_processor_fifo [of ?ops 5 "\<lambda>rf. table_create rf" unix_addrconv sample_peers 65000 1]
    by (auto simp del: run_ops.simps abs_run.simps)
  have t: "pr_tables s0 (1, 1) = table_create (1, 1)" using s(1) by (auto simp: processor_create_def res_bind_def split: sum.splits)
  have "snd (abs_run unix_addrconv sample_peers 65000 1 ?ops ([], [], s0)) = [Inl False]"
    "\<exists>a. fst (abs_run unix_addrconv sample_peers 65000 1 ?ops ([], [], s0)) = ([DestNode (1, 1) ''b''], [], a)"
    by (simp_all add: abs_enqueue_def abs_turn_def process_node_def table_process_def RF_RTC_UC_def t table_create_def)
  with s show ?thesis by (auto simp: represents_def)
qed

section \<open>AS paths\<close>

text \<open>A path sent to a neighbour that has two-octet numbers only is read back by it as it was: the
  numbers that do not fit are replaced, the second attribute that restores them is sent exactly when
  there are such numbers, and the two attributes merge to the path (in canonical segments).\<close>

lemma bgp_as4_path_roundtrip:
  assumes "canonical_path p"
  shows "(case trans_as_path four_octet p of (p2, p4) \<Rightarrow> construct_as_path_attr p2 p4 = p \<and>
      (four_octet \<or> list_all (\<lambda>seg. list_all is_valid_old_asn (seg_asns seg)) p2) \<and>
      (p4 = None) = (four_octet \<or> list_all (\<lambda>seg. list_all is_valid_old_asn (seg_asns seg)) p))"
  using trans_construct [OF assms, of four_octet] trans_two_octets [of p]
  by (cases four_octet) (auto simp: trans_as_path_def Let_def)

lemma bgp_as4_path_roundtrip_witness:
  "trans_as_path False [AsSequence [65001, 70000], AsSet [3, 80000]] =
      ([AsSequence [65001, 23456], AsSet [3, 23456]], Some [AsSequence [65001, 70000], AsSet [3, 80000]]) \<and>
    construct_as_path_attr [AsSequence [65001, 23456], AsSet [3, 23456]] (Some [AsSequence [65001, 70000], AsSet [3, 80000]]) =
      [AsSequence [65001, 70000], AsSet [3, 80000]]"
  using bgp_as4_path_roundtrip [of "[AsSequence [65001, 70000], AsSet [3, 80000]]" False]
  by (simp add: trans_as_path_def swap_asn_def is_valid_old_asn_def AS_TRANS_def Let_def)

section \<open>Neighbours\<close>

definition sample_session :: "int \<Rightarrow> bgp_session" where
  "sample_session remote_as = \<lparr>se_established = True, se_version_num = 1, se_remote_as = remote_as, se_local_as = 65000,
     se_common_as = 65000, se_check_first_as = False, se_allow_local_as_in = 0, se_cluster_id = ''1.1.1.1'',
     se_caps = [(1, 1)], se_rtfilter = None, se_rs_client = False, se_rr_client = False, se_med = None,
     se_in_filters = [], se_out_filters = [], se_outgoing = [], se_adj_rib_in = [], se_adj_rib_out = [], se_sent = []\<rparr>"

definition sample_core :: "bgp_dest \<Rightarrow> bgp_core" where
  "sample_core d = \<lparr>co_asn = 65000, co_next = 10, co_table = \<lparr>tb_rf = (1, 1), tb_dests = [(''10.1.0.0/16'', d)]\<rparr>,
     co_queue = [''10.1.0.0/16''], co_peers = [1, 2, 3, 4], co_sessions = (\<lambda>i. if i = 4 then sample_session 65000 else sample_session (65000 + int i)),
     co_rtfilters = []\<rparr>"



text \<open>C20: when a better path arrives while the old best path is still known, every peer that had the old
  one is told the new one and then sent a withdrawal of the prefix: once its queue has been sent the
  neighbour has no route to the prefix, although the speaker has a best path for it.\<close>

theorem bgp_new_best_lost:
  assumes "co_queue c = nlri # rest" "table_typed (co_table c)" "map_of (tb_dests (co_table c)) nlri = Some d"
    and "process_paths A (bgp_peers_of ids c) (co_asn c) d = (d1, Inr (Some b, reason))"
    and "ds_best d = Some old" "pt_id old \<noteq> pt_id b" "list_ex (same_object old) (ds_known d1)"
    and "path_plain b" "pt_rts b = None" "\<not> has_comm_attr b NO_ADVERTISE"
    and "distinct (co_peers c)" "list_all (\<lambda>i. \<not> se_rs_client (co_sessions c i)) (co_peers c)"
    and "i \<in> set (co_peers c)" "may_advertise (co_asn c) (co_sessions c) i b" "map_of (ds_sent d) i = Some sp"
    and "se_outgoing (co_sessions c i) = []" "se_out_filters (co_sessions c i) = []"
  shows "\<exists>c1 c2. core_process A ids c = Inr c1 \<and> core_drain within i c1 = Inr c2 \<and>
    map_option ds_best (map_of (tb_dests (co_table c1)) nlri) = Some (Some b) \<and>
    neighbour_rib (se_sent (co_sessions c2 i)) nlri = None"
  by (rule core_new_best [OF assms])

definition sample_better :: bgp_dest where
  "sample_better = \<lparr>ds_nlri = ''10.1.0.0/16'', ds_known = [sample_path 1 1 [65001, 7]], ds_new = [sample_path 3 3 [65003]],
     ds_best = Some (sample_path 1 1 [65001, 7]), ds_reason = Some BPR_ONLY_PATH, ds_withdraws = [],
     ds_sent = [(2, sample_path 1 1 [65001, 7])]\<rparr>"

lemma bgp_new_best_lost_witness:
  "\<exists>c1 c2. core_process unix_addrconv (\<lambda>i. None) (sample_core sample_better) = Inr c1 \<and>
    core_drain (\<lambda>a b. Inr False) 2 c1 = Inr c2 \<and> neighbour_rib (se_sent (co_sessions c2 2)) ''10.1.0.0/16'' = None"
proof -
  let ?c = "sample_core sample_better"
  have p: "process_paths unix_addrconv (bgp_peers_of (\<lambda>i. None) ?c) (co_asn ?c) sample_better =
    (sample_better\<lparr>ds_known := [sample_path 1 1 [65001, 7], sample_path 3 3 [65003]], ds_new := []\<rparr>,
     Inr (Some (sample_path 3 3 [65003]), BPR_ASPATH))"
    by (simp add: process_paths_def remove_withdrawals_def remove_old_paths_def sample_better_def sample_path_def
        compute_best_known_path_def compute_best_path_def cmp_by_reachable_nh_def cmp_by_highest_wg_def
        cmp_by_local_pref_def cmp_by_local_origin_def cmp_by_aspath_def)
  have t: "table_typed (co_table ?c)"
    by (simp add: table_typed_def sample_core_def dest_typed_def sample_better_def path_typed_def sample_path_def)
  have "\<exists>c1 c2. core_process unix_addrconv (\<lambda>i. None) ?c = Inr c1 \<and> core_drain (\<lambda>a b. Inr False) 2 c1 = Inr c2 \<and>
    map_option ds_best (map_of (tb_dests (co_table c1)) ''10.1.0.0/16'') = Some (Some (sample_path 3 3 [65003])) \<and>
    neighbour_rib (se_sent (co_sessions c2 2)) ''10.1.0.0/16'' = None"
    by (rule bgp_new_best_lost [where old = "sample_path 1 1 [65001, 7]" and sp = "sample_path 1 1 [65001, 7]", OF _ t _ p])
      (simp_all add: sample_core_def sample_better_def sample_path_def sample_session_def path_plain_def has_comm_attr_def
        may_advertise_def path_family_ok_def rtfilter_blocks_def community_blocks_def same_object_def)
  then show ?thesis by blast
qed

text \<open>C30: when the out-filters of a neighbour are changed so that they deny a prefix it has been sent, the
  withdrawal that is queued for it is held back by the same filters, so the neighbour keeps the route.\<close>

theorem bgp_denied_route_stays:
  assumes "list_all is_prefix_filter fs" "se_outgoing s = []"
    and "list_all (\<lambda>(k, (p, f)). pt_nlri p = k) (se_adj_rib_out s)" "distinct (map fst (se_adj_rib_out s))"
    and "map_of (se_adj_rib_out s) k = Some (p, f)" "apply_filter within fs p = Inr True"
    and "set_out_filters within fs s = Inr s1" "drain_outgoing within i (s1, t) = Inr (s2, t2)"
  shows "neighbour_rib (se_sent s2) k = neighbour_rib (se_sent s) k"
  by (rule denied_route_stays [OF assms])

definition sample_deny :: bgp_filter where
  "sample_deny = PrefixFilter \<lparr>pf_rf = (1, 1), pf_prefix = ''10.0.0.0/8'', pf_policy = POLICY_DENY, pf_ge = None, pf_le = None\<rparr>"

lemma bgp_denied_route_stays_witness:
  "\<exists>s1 s2 t2. set_out_filters (\<lambda>a b. Inr True) [sample_deny]
      (sample_session 65001\<lparr>se_adj_rib_out := [(''10.1.0.0/16'', (sample_path 1 2 [65002], False))], se_sent := [sample_path 1 2 [65002]]\<rparr>) = Inr s1 \<and>
    length (se_outgoing s1) = 1 \<and> drain_outgoing (\<lambda>a b. Inr True) 1 (s1, table_create (1, 1)) = Inr (s2, t2) \<and>
    neighbour_rib (se_sent s2) ''10.1.0.0/16'' = Some (sample_path 1 2 [65002])"
proof -
  let ?p = "sample_path 1 2 [65002]"
  let ?s = "sample_session 65001\<lparr>se_adj_rib_out := [(''10.1.0.0/16'', (?p, False))], se_sent := [?p]\<rparr>"
  have f: "apply_filter (\<lambda>a b. Inr True) [sample_deny] ?p = Inr True"
    "apply_filter (\<lambda>a b. Inr True) [sample_deny] (withdraw_clone ?p) = Inr True"
    by (simp_all add: sample_deny_def prefix_evaluate_def sample_path_def withdraw_clone_def POLICY_PERMIT_def POLICY_DENY_def)
  let ?s1 = "?s\<lparr>se_out_filters := [sample_deny], se_adj_rib_out := [(''10.1.0.0/16'', (?p, True))],
    se_outgoing := [(withdraw_clone ?p, False)]\<rparr>"
  have 1: "set_out_filters (\<lambda>a b. Inr True) [sample_deny] ?s = Inr ?s1"
    using f(1) by (simp add: set_out_filters_def sample_session_def del: apply_filter.simps)
  obtain s2 t2 where 2: "drain_outgoing (\<lambda>a b. Inr True) 1 (?s1, table_create (1, 1)) = Inr (s2, t2)"
    using f(2) by (simp add: drain_outgoing_def send_outgoing_route_def Let_def withdraw_clone_def del: apply_filter.simps)
  have "neighbour_rib (se_sent s2) ''10.1.0.0/16'' = neighbour_rib (se_sent ?s) ''10.1.0.0/16''"
    by (rule bgp_denied_route_stays [OF _ _ _ _ _ f(1) 1 2, of _ False])
      (simp_all add: sample_deny_def sample_session_def sample_path_def)
  moreover have "neighbour_rib (se_sent ?s) ''10.1.0.0/16'' = Some ?p"
    by (simp add: neighbour_rib_def sample_path_def)
  ultimately show ?thesis using 1 2 by (intro exI [of _ ?s1] exI [of _ s2] exI [of _ t2]) simp
qed

text \<open>An UPDATE whose AS path has the speaker's own number in it any number of times is taken in all
  the same: the check for loops never reports one.\<close>

lemma bgp_looped_path_learned:
  assumes "se_established (co_sessions c i)" "se_in_filters (co_sessions c i) = []" "\<not> se_check_first_as (co_sessions c i)"
    and "up_nlri u = [(nlri, plen)]" "up_withdrawn u = []" "up_as_path u = Some segs" "up_as4_path u = None"
    and "up_origin u = Some og" "up_next_hop u = Some (h # hs)" "tb_rf (co_table c) = (1, 1)"
    and "has_local_as (se_local_as (co_sessions c i)) (se_allow_local_as_in (co_sessions c i)) segs"
  shows "\<exists>c' d. handle_update_msg within i u c = Inr c' \<and> map_of (tb_dests (co_table c')) nlri = Some d \<and>
    list_ex (\<lambda>p. pt_source p = FromPeer i \<and> pt_as_path p = Some segs) (ds_new d) \<and> nlri \<in> set (co_queue c')"
  by (rule looped_learned [OF assms(1-10)])

definition sample_update :: bgp_update where
  "sample_update = \<lparr>up_as_path = Some [AsSequence [65001, 65000, 65002]], up_as4_path = None, up_aggregator = None,
     up_as4_aggregator = None, up_origin = Some 0, up_next_hop = Some ''192.0.2.1'', up_local_pref = None, up_med = None,
     up_originator_id = None, up_cluster_list = None, up_communities = None, up_rts = None,
     up_nlri = [(''10.1.0.0/16'', 16)], up_withdrawn = []\<rparr>"

lemma bgp_looped_path_learned_witness:
  "\<exists>c' d. handle_update_msg (\<lambda>a b. Inr True) 1 sample_update (sample_core sample_dest) = Inr c' \<and>
    map_of (tb_dests (co_table c')) ''10.1.0.0/16'' = Some d \<and>
    list_ex (\<lambda>p. pt_as_path p = Some [AsSequence [65001, 65000, 65002]]) (ds_new d)"
proof -
  have u: "up_nlri sample_update = [(''10.1.0.0/16'', 16)]" "up_withdrawn sample_update = []"
    "up_as_path sample_update = Some [AsSequence [65001, 65000, 65002]]" "up_as4_path sample_update = None"
    "up_origin sample_update = Some 0" "up_next_hop sample_update = Some (CHR ''1'' # ''92.0.2.1'')"
    by (simp_all add: sample_update_def)
  have "\<exists>c' d. handle_update_msg (\<lambda>a b. Inr True) 1 sample_update (sample_core sample_dest) = Inr c' \<and>
    map_of (tb_dests (co_table c')) ''10.1.0.0/16'' = Some d \<and>
    list_ex (\<lambda>p. pt_source p = FromPeer 1 \<and> pt_as_path p = Some [AsSequence [65001, 65000, 65002]]) (ds_new d) \<and>
    ''10.1.0.0/16'' \<in> set (co_queue c')"
    by (rule bgp_looped_path_learned [OF _ _ _ u]) (simp_all add: sample_core_def sample_session_def has_local_as_def)
  then show ?thesis by (fastforce simp: list_ex_iff)
qed

end
