(* ===== verification/Bgp_Extcomm.thy ===== *)
theory Bgp_Extcomm
  imports Addr_Text
begin

text \<open>
  Extended communities (RFC 4360, 5668, 7432, 5575) of \<^verbatim>\<open>lib/packet/bgp.py\<close>: the classes, their octets,
  and the texts of route targets and sites of origin.
\<close>

section \<open>Decimal texts\<close>

text \<open>\<^verbatim>\<open>'%d' % n\<close>\<close>

fun dec_min :: "nat \<Rightarrow> string" where
  "dec_min n = (if n < 10 then [hexdig n] else dec_min (n div 10) @ [hexdig (n mod 10)])"

declare dec_min.simps [simp del]

definition fmt_d :: "int \<Rightarrow> string" where
  "fmt_d i = (if i < 0 then CHR ''-'' # dec_min (nat (- i)) else dec_min (nat i))"

text \<open>\<^verbatim>\<open>int(s)\<close> on an ASCII text: like \<^const>\<open>py_int16\<close>, without a prefix.\<close>

definition decval :: "char \<Rightarrow> nat option" where
  "decval c = (let k = of_char c :: nat in if 48 \<le> k \<and> k \<le> 57 then Some (k - 48) else None)"

fun dec_body :: "nat \<Rightarrow> string \<Rightarrow> nat option" where
  "dec_body a [] = Some a"
| "dec_body a (c # r) =
     (if c = CHR ''_''
      then (case r of [] \<Rightarrow> None
            | d # _ \<Rightarrow> (case decval d of None \<Rightarrow> None | Some _ \<Rightarrow> dec_body a r))
      else (case decval c of None \<Rightarrow> None | Some v \<Rightarrow> dec_body (a * 10 + v) r))"

definition dec_start :: "string \<Rightarrow> nat option" where
  "dec_start s = (case s of [] \<Rightarrow> None
     | c # _ \<Rightarrow> (case decval c of None \<Rightarrow> None | Some _ \<Rightarrow> dec_body 0 s))"

definition py_int10 :: "string \<Rightarrow> int res" where
  "py_int10 t =
     (let s = dropWhile py_space (rev (dropWhile py_space (rev t)));
          neg = (s \<noteq> [] \<and> hd s = CHR ''-'');
          u = (if s \<noteq> [] \<and> (hd s = CHR ''-'' \<or> hd s = CHR ''+'') then tl s else s)
      in case dec_start u of None \<Rightarrow> Inl ValueError
         | Some v \<Rightarrow> Inr (if neg then - int v else int v))"

section \<open>Classes\<close>

text \<open>
  The values by class. The classes of flow specifications set their subtype themselves; the rate of
  \<^verbatim>\<open>BGPFlowSpecTrafficRateCommunity\<close>, a float, is the four octets it is packed to.
\<close>

datatype ext_value =
    EcTwoOctetAs int int int
  | EcIPv4Address int string int
  | EcFourOctetAs int int int
  | EcOpaque int bytes
  | EcEncapsulation int int
  | EcMacMobility int int int
  | EcEsiLabel int int bytes
  | EcEsImport int string
  | EcTrafficRate int bytes
  | EcTrafficAction int
  | EcRedirect int int
  | EcTrafficMarking int
  | EcVlanAction int int int int int int
  | EcTpidAction int int int

text \<open>
  The type of a community is the one its class is registered for, possibly with the bit 0x40; an
  unknown one keeps its type and its seven octets.
\<close>

datatype ext_comm = ExtComm bool ext_value | ExtUnknown int bytes

fun ext_low :: "ext_value \<Rightarrow> int" where
  "ext_low (EcTwoOctetAs st n la) = 0x00"
| "ext_low (EcIPv4Address st a la) = 0x01"
| "ext_low (EcFourOctetAs st n la) = 0x02"
| "ext_low (EcOpaque st v) = 0x03"
| "ext_low (EcEncapsulation st tt) = 0x03"
| "ext_low (EcMacMobility st fl n) = 0x06"
| "ext_low (EcEsiLabel st fl l) = 0x06"
| "ext_low (EcEsImport st m) = 0x06"
| "ext_low (EcTrafficRate n r) = 0x80"
| "ext_low (EcTrafficAction a) = 0x80"
| "ext_low (EcRedirect n la) = 0x80"
| "ext_low (EcTrafficMarking d) = 0x80"
| "ext_low (EcVlanAction a1 v1 c1 a2 v2 c2) = 0x08"
| "ext_low (EcTpidAction a t1 t2) = 0x08"

fun ext_comm_type :: "ext_comm \<Rightarrow> int" where
  "ext_comm_type (ExtComm flag v) = (if flag then ext_low v OR 0x40 else ext_low v)"
| "ext_comm_type (ExtUnknown t v) = t"

section \<open>Parsing\<close>

text \<open>\<^verbatim>\<open>parse_value\<close> of the class that is registered for the type and subtype, or for the type.\<close>

definition ext_parse_value :: "addrconv \<Rightarrow> int \<Rightarrow> int \<Rightarrow> bytes \<Rightarrow> ext_value option res" where
  "ext_parse_value A low sub v =
     (if (low, sub) = (0x03, 0x0c) then
        res_bind (unpack_from [fB, FX 4, fH] v) (\<lambda>vs. case vs of
          [VI st, VI tt] \<Rightarrow> Inr (Some (EcEncapsulation st tt)) | _ \<Rightarrow> Inl StructError)
      else if (low, sub) = (0x06, 0x00) then
        res_bind (unpack_from [fB, fB, FX 1, fI] v) (\<lambda>vs. case vs of
          [VI st, VI fl, VI n] \<Rightarrow> Inr (Some (EcMacMobility st fl n)) | _ \<Rightarrow> Inl StructError)
      else if (low, sub) = (0x06, 0x01) then
        res_bind (unpack_from [fB, fB, FX 2, FS 3] v) (\<lambda>vs. case vs of
          [VI st, VI fl, VS l] \<Rightarrow> Inr (Some (EcEsiLabel st fl l)) | _ \<Rightarrow> Inl StructError)
      else if (low, sub) = (0x06, 0x02) then
        res_bind (unpack_from [fB, FS 6] v) (\<lambda>vs. case vs of
          [VI st, VS m] \<Rightarrow> Inr (Some (EcEsImport st (mac_to_text A m))) | _ \<Rightarrow> Inl StructError)
      else if (low, sub) = (0x80, 0x06) then
        res_bind (unpack_from [fB, fH, FS 4] v) (\<lambda>vs. case vs of
          [VI st, VI n, VS r] \<Rightarrow> Inr (Some (EcTrafficRate n r)) | _ \<Rightarrow> Inl StructError)
      else if (low, sub) = (0x80, 0x07) then
        res_bind (unpack_from [fB, FX 5, fB] v) (\<lambda>vs. case vs of
          [VI st, VI a] \<Rightarrow> Inr (Some (EcTrafficAction a)) | _ \<Rightarrow> Inl StructError)
      else if (low, sub) = (0x80, 0x08) then
        res_bind (unpack_from [fB, fH, fI] v) (\<lambda>vs. case vs of
          [VI st, VI n, VI la] \<Rightarrow> Inr (Some (EcRedirect n la)) | _ \<Rightarrow> Inl StructError)
      else if (low, sub) = (0x80, 0x09) then
        res_bind (unpack_from [fB, FX 5, fB] v) (\<lambda>vs. case vs of
          [VI st, VI d] \<Rightarrow> Inr (Some (EcTrafficMarking d)) | _ \<Rightarrow> Inl StructError)
      else if (low, sub) = (0x08, 0x0a) then
        res_bind (unpack_from [fB, fB, fB, fH, fH] v) (\<lambda>vs. case vs of
          [VI st, VI a1, VI a2, VI vc1, VI vc2] \<Rightarrow>
            Inr (Some (EcVlanAction a1 (drop_bit 4 vc1) (drop_bit 1 vc1 AND 0x07) a2 (drop_bit 4 vc2) (drop_bit 1 vc2 AND 0x07)))
        | _ \<Rightarrow> Inl StructError)
      else if (low, sub) = (0x08, 0x0b) then
        res_bind (unpack_from [fB, fH, fH, fH] v) (\<lambda>vs. case vs of
          [VI st, VI a, VI t1, VI t2] \<Rightarrow> Inr (Some (EcTpidAction a t1 t2)) | _ \<Rightarrow> Inl StructError)
      else if low = 0x00 then
        res_bind (unpack_from [fB, fH, fI] v) (\<lambda>vs. case vs of
          [VI st, VI n, VI la] \<Rightarrow> Inr (Some (EcTwoOctetAs st n la)) | _ \<Rightarrow> Inl StructError)
      else if low = 0x01 then
        res_bind (unpack_from [fB, FS 4, fH] v) (\<lambda>vs. case vs of
          [VI st, VS a, VI la] \<Rightarrow> Inr (Some (EcIPv4Address st (ip4_to_text A a) la)) | _ \<Rightarrow> Inl StructError)
      else if low = 0x02 then
        res_bind (unpack_from [fB, fI, fH] v) (\<lambda>vs. case vs of
          [VI st, VI n, VI la] \<Rightarrow> Inr (Some (EcFourOctetAs st n la)) | _ \<Rightarrow> Inl StructError)
      else if low = 0x03 then
        res_bind (unpack_from [fB, FS 6] v) (\<lambda>vs. case vs of
          [VI st, VS ov] \<Rightarrow> Inr (Some (EcOpaque st ov)) | _ \<Rightarrow> Inl StructError)
      else Inr None)"

text \<open>\<^verbatim>\<open>_ExtendedCommunity.parse\<close>, on eight octets.\<close>

definition ext_parse_one :: "addrconv \<Rightarrow> byte \<Rightarrow> bytes \<Rightarrow> ext_comm res" where
  "ext_parse_one A t v =
     res_bind (ext_parse_value A (uint t AND NOT 0x40) (uint (hd v)) v) (\<lambda>x.
     Inr (case x of Some e \<Rightarrow> ExtComm (uint t AND 0x40 \<noteq> 0) e | None \<Rightarrow> ExtUnknown (uint t) v))"

function ext_comms_parse :: "addrconv \<Rightarrow> bytes \<Rightarrow> ext_comm list res" where
  "ext_comms_parse A [] = Inr []"
| "ext_comms_parse A (t # rest) =
     (if length rest < 7 then Inl StructError
      else
        res_bind (ext_parse_one A t (take 7 rest)) (\<lambda>c.
        res_bind (ext_comms_parse A (drop 7 rest)) (\<lambda>cs. Inr (c # cs))))"
  by pat_completeness auto
termination by (relation "measure (\<lambda>(A, bs). length bs)") auto

section \<open>Serializing\<close>

fun ext_value_serialize :: "addrconv \<Rightarrow> ext_value \<Rightarrow> bytes res" where
  "ext_value_serialize A (EcTwoOctetAs st n la) = pack [fB, fH, fI] [VI st, VI n, VI la]"
| "ext_value_serialize A (EcIPv4Address st a la) =
     res_bind (ip4_to_bin A a) (\<lambda>b. pack [fB, FS 4, fH] [VI st, VS b, VI la])"
| "ext_value_serialize A (EcFourOctetAs st n la) = pack [fB, fI, fH] [VI st, VI n, VI la]"
| "ext_value_serialize A (EcOpaque st v) = pack [fB, FS 6] [VI st, VS v]"
| "ext_value_serialize A (EcEncapsulation st tt) = pack [fB, FX 4, fH] [VI st, VI tt]"
| "ext_value_serialize A (EcMacMobility st fl n) = pack [fB, fB, FX 1, fI] [VI st, VI fl, VI n]"
| "ext_value_serialize A (EcEsiLabel st fl l) = pack [fB, fB, FX 2, FS 3] [VI st, VI fl, VS l]"
| "ext_value_serialize A (EcEsImport st m) = res_bind (mac_to_bin A m) (\<lambda>b. pack [fB, FS 6] [VI st, VS b])"
| "ext_value_serialize A (EcTrafficRate n r) = pack [fB, fH, FS 4] [VI 0x06, VI n, VS r]"
| "ext_value_serialize A (EcTrafficAction a) = pack [fB, FX 5, fB] [VI 0x07, VI a]"
| "ext_value_serialize A (EcRedirect n la) = pack [fB, fH, fI] [VI 0x08, VI n, VI la]"
| "ext_value_serialize A (EcTrafficMarking d) = pack [fB, FX 5, fB] [VI 0x09, VI d]"
| "ext_value_serialize A (EcVlanAction a1 v1 c1 a2 v2 c2) =
     pack [fB, fB, fB, fH, fH] [VI 0x0a, VI a1, VI a2, VI (push_bit 4 v1 + push_bit 1 c1), VI (push_bit 4 v2 + push_bit 1 c2)]"
| "ext_value_serialize A (EcTpidAction a t1 t2) = pack [fB, fH, fH, fH] [VI 0x0b, VI a, VI t1, VI t2]"

fun ext_comm_serialize :: "addrconv \<Rightarrow> ext_comm \<Rightarrow> bytes res" where
  "ext_comm_serialize A (ExtComm flag v) =
     res_bind (ext_value_serialize A v) (\<lambda>b. pack [fB, FS 7] [VI (ext_comm_type (ExtComm flag v)), VS b])"
| "ext_comm_serialize A (ExtUnknown t v) = pack [fB, FS 7] [VI t, VS v]"

section \<open>Route targets and sites of origin\<close>

text \<open>\<^verbatim>\<open>_community_list\<close>: the communities of types 0, 1 and 2 with a subtype, as texts.\<close>

fun ext_text :: "int \<Rightarrow> ext_comm \<Rightarrow> string list" where
  "ext_text sub (ExtComm False (EcTwoOctetAs st n la)) = (if st = sub then [fmt_d n @ '':'' @ fmt_d la] else [])"
| "ext_text sub (ExtComm False (EcFourOctetAs st n la)) = (if st = sub then [fmt_d n @ '':'' @ fmt_d la] else [])"
| "ext_text sub (ExtComm False (EcIPv4Address st a la)) = (if st = sub then [a @ '':'' @ fmt_d la] else [])"
| "ext_text sub _ = []"

definition rt_list :: "ext_comm list \<Rightarrow> string list" where
  "rt_list cs = concat (map (ext_text 2) cs)"

definition soo_list :: "ext_comm list \<Rightarrow> string list" where
  "soo_list cs = concat (map (ext_text 3) cs)"

text \<open>The community of a configured site of origin (\<^verbatim>\<open>_construct_update\<close>).\<close>

definition soo_comm :: "string \<Rightarrow> ext_comm res" where
  "soo_comm soo =
     (case py_split CHR '':'' soo of
        [first, second] \<Rightarrow>
          if CHR ''.'' \<in> set first
          then res_bind (py_int10 second) (\<lambda>la. Inr (ExtComm False (EcIPv4Address 3 first la)))
          else res_bind (py_int10 first) (\<lambda>n. res_bind (py_int10 second) (\<lambda>la. Inr (ExtComm False (EcTwoOctetAs 3 n la))))
      | _ \<Rightarrow> Inl ValueError)"

section \<open>Round trip\<close>

text \<open>Communities that come back as they were: each value in its range, and no subtype of another class.\<close>

definition in_range :: "nat \<Rightarrow> int \<Rightarrow> bool" where
  "in_range n v \<longleftrightarrow> 0 \<le> v \<and> v < 256 ^ n"

fun ext_value_wf :: "addrconv \<Rightarrow> ext_value \<Rightarrow> bool" where
  "ext_value_wf A (EcTwoOctetAs st n la) \<longleftrightarrow> in_range 1 st \<and> in_range 2 n \<and> in_range 4 la"
| "ext_value_wf A (EcIPv4Address st a la) \<longleftrightarrow> in_range 1 st \<and> canon_ip4 A a \<and> in_range 2 la"
| "ext_value_wf A (EcFourOctetAs st n la) \<longleftrightarrow> in_range 1 st \<and> in_range 4 n \<and> in_range 2 la"
| "ext_value_wf A (EcOpaque st v) \<longleftrightarrow> in_range 1 st \<and> st \<noteq> 0x0c \<and> length v = 6"
| "ext_value_wf A (EcEncapsulation st tt) \<longleftrightarrow> st = 0x0c \<and> in_range 2 tt"
| "ext_value_wf A (EcMacMobility st fl n) \<longleftrightarrow> st = 0 \<and> in_range 1 fl \<and> in_range 4 n"
| "ext_value_wf A (EcEsiLabel st fl l) \<longleftrightarrow> st = 1 \<and> in_range 1 fl \<and> length l = 3"
| "ext_value_wf A (EcEsImport st m) \<longleftrightarrow> st = 2 \<and> canon_mac A m"
| "ext_value_wf A (EcTrafficRate n r) \<longleftrightarrow> in_range 2 n \<and> length r = 4"
| "ext_value_wf A (EcTrafficAction a) \<longleftrightarrow> in_range 1 a"
| "ext_value_wf A (EcRedirect n la) \<longleftrightarrow> in_range 2 n \<and> in_range 4 la"
| "ext_value_wf A (EcTrafficMarking d) \<longleftrightarrow> in_range 1 d"
| "ext_value_wf A (EcVlanAction a1 v1 c1 a2 v2 c2) \<longleftrightarrow> in_range 1 a1 \<and> 0 \<le> v1 \<and> v1 < 4096 \<and> 0 \<le> c1 \<and> c1 < 8 \<and>
     in_range 1 a2 \<and> 0 \<le> v2 \<and> v2 < 4096 \<and> 0 \<le> c2 \<and> c2 < 8"
| "ext_value_wf A (EcTpidAction a t1 t2) \<longleftrightarrow> in_range 2 a \<and> in_range 2 t1 \<and> in_range 2 t2"

fun ext_comm_wf :: "addrconv \<Rightarrow> ext_comm \<Rightarrow> bool" where
  "ext_comm_wf A (ExtComm flag v) \<longleftrightarrow> ext_value_wf A v"
| "ext_comm_wf A (ExtUnknown t v) \<longleftrightarrow> in_range 1 t \<and> length v = 7 \<and>
     (t AND NOT 0x40, uint (hd v)) \<notin> {(0x06, 0x00), (0x06, 0x01), (0x06, 0x02), (0x80, 0x06), (0x80, 0x07), (0x80, 0x08),
       (0x80, 0x09), (0x08, 0x0a), (0x08, 0x0b)} \<and> t AND NOT 0x40 \<notin> {0, 1, 2, 3}"

text \<open>A class whose value starts with the subtype.\<close>

lemma ext_known:
  assumes "ext_value_serialize A v = pack (fB # fs) (VI st # vs)" "fits (fB # fs) (VI st # vs)" "calcsize fs = 6"
    and "\<And>b. unpack_from (fB # fs) b = Inr (VI st # vs) \<Longrightarrow> ext_parse_value A (ext_low v) st b = Inr (Some v)"
  shows "\<exists>b. ext_value_serialize A v = Inr b \<and> length b = 7 \<and> ext_parse_value A (ext_low v) (uint (hd b)) b = Inr (Some v)"
proof -
  let ?b = "pack_bytes (fB # fs) (VI st # vs)"
  have "ext_value_serialize A v = Inr ?b" unfolding assms(1) by (rule pack_fits [OF assms(2)])
  moreover have "length ?b = 7" using length_pack_bytes [OF assms(2)] assms(3) by simp
  moreover have "uint (hd ?b) = st" using assms(2) by (simp add: uint_word_of_int)
  moreover have "unpack_from (fB # fs) ?b = Inr (VI st # vs)" using unpack_from_pack_bytes [OF assms(2), of "[]"] by simp
  ultimately show ?thesis using assms(4) by auto
qed

lemma vlan_cos:
  assumes "0 \<le> v" "v < 4096" "0 \<le> c" "c < (8 :: int)"
  shows "0 \<le> push_bit 4 v + push_bit 1 c" "push_bit 4 v + push_bit 1 c < 65536"
    "drop_bit 4 (push_bit 4 v + push_bit 1 c) = v" "drop_bit 1 (push_bit 4 v + push_bit 1 c) AND 7 = c"
proof -
  have m: "x AND 7 = x mod 8" for x :: int using take_bit_eq_mask [of 3 x] by (simp add: take_bit_eq_mod mask_eq_exp_minus_1)
  show "0 \<le> push_bit 4 v + push_bit 1 c" "push_bit 4 v + push_bit 1 c < 65536"
    "drop_bit 4 (push_bit 4 v + push_bit 1 c) = v" "drop_bit 1 (push_bit 4 v + push_bit 1 c) AND 7 = c"
    using assms by (simp_all add: push_bit_eq_mult drop_bit_eq_div m)
qed

lemma ext_value_codec:
  assumes "addrconv_ok A" "ext_value_wf A v"
  shows "\<exists>b. ext_value_serialize A v = Inr b \<and> length b = 7 \<and> ext_parse_value A (ext_low v) (uint (hd b)) b = Inr (Some v)"
proof (cases v)
  case (EcIPv4Address st a la)
  obtain x where x: "ip4_to_bin A a = Inr x" "length x = 4" "ip4_to_text A x = a"
    using canon_ip4E [OF assms(1)] assms(2) EcIPv4Address by auto
  then show ?thesis using assms(2) EcIPv4Address
    by (intro ext_known [where st = "st" and fs = "[FS 4, fH]" and vs = "[VS x, VI la]"]) (simp_all add: ext_parse_value_def in_range_def)
next
  case (EcEsImport st m)
  obtain x where x: "mac_to_bin A m = Inr x" "length x = 6" "mac_to_text A x = m"
    using canon_macE [OF assms(1)] assms(2) EcEsImport by auto
  then show ?thesis using assms(2) EcEsImport
    by (intro ext_known [where st = "st" and fs = "[FS 6]" and vs = "[VS x]"]) (simp_all add: ext_parse_value_def in_range_def)
next
  case (EcVlanAction a1 v1 c1 a2 v2 c2)
  have "0 \<le> v1" "v1 < 4096" "0 \<le> c1" "c1 < 8" "0 \<le> v2" "v2 < 4096" "0 \<le> c2" "c2 < 8"
    using assms(2) by (simp_all add: EcVlanAction)
  note vc = vlan_cos [OF this(1-4)] vlan_cos [OF this(5-8)]
  show ?thesis using assms(2) vc EcVlanAction
    by (intro ext_known [where st = "0x0a" and fs = "[fB, fB, fH, fH]" and
          vs = "[VI a1, VI a2, VI (push_bit 4 v1 + push_bit 1 c1), VI (push_bit 4 v2 + push_bit 1 c2)]"])
      (simp_all add: ext_parse_value_def in_range_def)
next
  case (EcTwoOctetAs st n la)
  then show ?thesis using assms(2)
    by (intro ext_known [where st = "st" and fs = "[fH, fI]" and vs = "[VI n, VI la]"]) (simp_all add: ext_parse_value_def in_range_def)
next
  case (EcFourOctetAs st n la)
  then show ?thesis using assms(2)
    by (intro ext_known [where st = "st" and fs = "[fI, fH]" and vs = "[VI n, VI la]"]) (simp_all add: ext_parse_value_def in_range_def)
next
  case (EcOpaque st v)
  then show ?thesis using assms(2)
    by (intro ext_known [where st = "st" and fs = "[FS 6]" and vs = "[VS v]"]) (simp_all add: ext_parse_value_def in_range_def)
next
  case (EcEncapsulation st tt)
  then show ?thesis using assms(2)
    by (intro ext_known [where st = "st" and fs = "[FX 4, fH]" and vs = "[VI tt]"]) (simp_all add: ext_parse_value_def in_range_def)
next
  case (EcMacMobility st fl n)
  then show ?thesis using assms(2)
    by (intro ext_known [where st = "st" and fs = "[fB, FX 1, fI]" and vs = "[VI fl, VI n]"]) (simp_all add: ext_parse_value_def in_range_def)
next
  case (EcEsiLabel st fl l)
  then show ?thesis using assms(2)
    by (intro ext_known [where st = "st" and fs = "[fB, FX 2, FS 3]" and vs = "[VI fl, VS l]"]) (simp_all add: ext_parse_value_def in_range_def)
next
  case (EcTrafficRate n r)
  then show ?thesis using assms(2)
    by (intro ext_known [where st = "6" and fs = "[fH, FS 4]" and vs = "[VI n, VS r]"]) (simp_all add: ext_parse_value_def in_range_def)
next
  case (EcTrafficAction a)
  then show ?thesis using assms(2)
    by (intro ext_known [where st = "7" and fs = "[FX 5, fB]" and vs = "[VI a]"]) (simp_all add: ext_parse_value_def in_range_def)
next
  case (EcRedirect n la)
  then show ?thesis using assms(2)
    by (intro ext_known [where st = "8" and fs = "[fH, fI]" and vs = "[VI n, VI la]"]) (simp_all add: ext_parse_value_def in_range_def)
next
  case (EcTrafficMarking d)
  then show ?thesis using assms(2)
    by (intro ext_known [where st = "9" and fs = "[FX 5, fB]" and vs = "[VI d]"]) (simp_all add: ext_parse_value_def in_range_def)
next
  case (EcTpidAction a t1 t2)
  then show ?thesis using assms(2)
    by (intro ext_known [where st = "0x0b" and fs = "[fH, fH, fH]" and vs = "[VI a, VI t1, VI t2]"]) (simp_all add: ext_parse_value_def in_range_def)
qed

lemma ext_comm_type_bits:
  "ext_comm_type (ExtComm flag v) AND NOT 0x40 = ext_low v" "(ext_comm_type (ExtComm flag v) AND 0x40 \<noteq> 0) = flag"
  "0 \<le> ext_comm_type (ExtComm flag v)" "ext_comm_type (ExtComm flag v) < 256"
  by (cases v; cases flag; simp)+

lemma ext_comms_parse_step:
  "length v = 7 \<Longrightarrow> ext_comms_parse A (t # v @ rest) =
    res_bind (ext_parse_one A t v) (\<lambda>c. res_bind (ext_comms_parse A rest) (\<lambda>cs. Inr (c # cs)))"
  by simp

lemma ext_parse_unknown:
  "(low, sub) \<notin> {(0x06, 0x00), (0x06, 0x01), (0x06, 0x02), (0x80, 0x06), (0x80, 0x07), (0x80, 0x08),
     (0x80, 0x09), (0x08, 0x0a), (0x08, 0x0b)} \<Longrightarrow> low \<notin> {0, 1, 2, 3} \<Longrightarrow> ext_parse_value A low sub v = Inr None"
proof -
  assume n: "(low, sub) \<notin> {(0x06, 0x00), (0x06, 0x01), (0x06, 0x02), (0x80, 0x06), (0x80, 0x07), (0x80, 0x08),
     (0x80, 0x09), (0x08, 0x0a), (0x08, 0x0b)}" and l: "low \<notin> {0, 1, 2, 3}"
  then have e: "(low, sub) \<noteq> (0x03, 0x0c)" by simp
  show "ext_parse_value A low sub v = Inr None"
    using n l e unfolding ext_parse_value_def by (simp only: insert_iff de_Morgan_disj if_False)
qed

lemma ext_item:
  assumes "addrconv_ok A" "ext_comm_wf A c"
  shows "\<exists>b. ext_comm_serialize A c = Inr b \<and>
    (\<forall>rest. ext_comms_parse A (b @ rest) = res_bind (ext_comms_parse A rest) (\<lambda>cs. Inr (c # cs)))"
proof -
  obtain t v where tv: "ext_comm_serialize A c = Inr (word_of_int t # v)" "length v = 7" "ext_parse_one A (word_of_int t) v = Inr c"
  proof (cases c)
    case (ExtComm flag x)
    obtain b where b: "ext_value_serialize A x = Inr b" "length b = 7" "ext_parse_value A (ext_low x) (uint (hd b)) b = Inr (Some x)"
      using ext_value_codec [OF assms(1), of x] assms(2) ExtComm by auto
    note ty = ext_comm_type_bits [of flag x]
    have "ext_comm_serialize A c = Inr (word_of_int (ext_comm_type (ExtComm flag x)) # b)"
      using b(1,2) ty(3,4) by (simp add: ExtComm del: ext_comm_type.simps)
    moreover have "ext_parse_one A (word_of_int (ext_comm_type (ExtComm flag x))) b = Inr c"
      using b(3) ty by (simp add: ExtComm ext_parse_one_def uint_word_of_int_byte del: ext_comm_type.simps)
    ultimately show ?thesis using that b(2) by blast
  next
    case (ExtUnknown t v)
    have t: "0 \<le> t" "t < 256" "length v = 7" using assms(2) by (simp_all add: ExtUnknown in_range_def)
    have "ext_comm_serialize A c = Inr (word_of_int t # v)" using t by (simp add: ExtUnknown)
    moreover have "ext_parse_one A (word_of_int t) v = Inr c"
      using ext_parse_unknown [of "t AND NOT 0x40" "uint (hd v)" A v] assms(2) t
      by (simp add: ExtUnknown ext_parse_one_def uint_word_of_int_byte)
    ultimately show ?thesis using that t(3) by blast
  qed
  show ?thesis unfolding tv(1) using tv(2,3) by (simp add: ext_comms_parse_step del: ext_comms_parse.simps)
qed

end
