(* ===== verification/Bgp_Wire.thy ===== *)
theory Bgp_Wire
  imports Bgp_Aspath Bgp_Extcomm
begin

text \<open>
  The messages of BGP-4 on the wire, \<^verbatim>\<open>lib/packet/bgp.py\<close>: the message header, OPEN with its
  capabilities, UPDATE with the path attributes of RFC 4271, 4456 and 6793, NOTIFICATION, KEEPALIVE
  and ROUTE-REFRESH, parsed and serialized. The attributes for other address families and the PMSI
  tunnel have classes of their own, which are the parameter \<open>X\<close> of the definitions.
\<close>

section \<open>State and exceptions\<close>

text \<open>A computation changes a state and returns or raises: what it changed before it raises stays changed.\<close>

definition st_ret :: "'a res \<Rightarrow> 's \<Rightarrow> 's \<times> 'a res" where
  "st_ret r = (\<lambda>g. (g, r))"

definition st_bind :: "('s \<Rightarrow> 's \<times> 'a res) \<Rightarrow> ('a \<Rightarrow> 's \<Rightarrow> 's \<times> 'b res) \<Rightarrow> 's \<Rightarrow> 's \<times> 'b res" where
  "st_bind m f = (\<lambda>g. case m g of (g', Inl e) \<Rightarrow> (g', Inl e) | (g', Inr x) \<Rightarrow> f x g')"

lemma st_ret_apply [simp]: "st_ret r g = (g, r)"
  by (simp add: st_ret_def)

lemma st_bind_Inr: "m g = (g', Inr x) \<Longrightarrow> st_bind m f g = f x g'"
  by (simp add: st_bind_def)

lemma st_bind_Inl: "m g = (g', Inl e) \<Longrightarrow> st_bind m f g = (g', Inl e)"
  by (simp add: st_bind_def)

lemma st_bind_ret [simp]: "st_bind (st_ret (Inr x)) f = f x" "st_bind (st_ret (Inl e)) f = st_ret (Inl e)"
  by (simp_all add: st_bind_def st_ret_def fun_eq_iff)

section \<open>State of a class\<close>

text \<open>
  \<^verbatim>\<open>BGPPathAttributeAggregator.parse_value\<close> assigns to a variable of its class, \<^verbatim>\<open>cls._VALUE_PACK_STR\<close>,
  and that stays for whatever is parsed or serialized later. It is a flag that parsers thread:
  whether the format has become the four-octet one. An exception does not undo the assignment.
\<close>

type_synonym 'a cls = "bool \<Rightarrow> bool \<times> 'a res"

section \<open>Prefixes\<close>

text \<open>
  \<^verbatim>\<open>IPAddrPrefix\<close>, a length in bits and as many octets as it needs. A buffer that ends early is
  padded like a complete one; more than four octets fail the assertion of \<^verbatim>\<open>pad\<close>.
\<close>

definition pad_bin :: "nat \<Rightarrow> bytes \<Rightarrow> bytes res" where
  "pad_bin n b = (if length b \<le> n then Inr (b @ replicate (n - length b) 0) else Inl AssertionError)"

definition prefix_read :: "addrconv \<Rightarrow> byte \<Rightarrow> bytes \<Rightarrow> (string \<times> int) res" where
  "prefix_read A l rest =
     res_bind (pad_bin 4 (take ((unat l + 7) div 8) rest)) (\<lambda>b. Inr (ip4_to_text A b, uint l))"

fun prefixes_parse :: "addrconv \<Rightarrow> bytes \<Rightarrow> (string \<times> int) list res" where
  "prefixes_parse A [] = Inr []"
| "prefixes_parse A (l # rest) =
     res_bind (prefix_read A l rest) (\<lambda>p.
     res_bind (prefixes_parse A (drop ((unat l + 7) div 8) rest)) (\<lambda>ps. Inr (p # ps)))"

text \<open>\<^verbatim>\<open>serialize\<close> clears the bits behind the prefix in the last octet.\<close>

definition prefix_bin :: "int \<Rightarrow> bytes \<Rightarrow> bytes res" where
  "prefix_bin len b =
     (let n = nat ((len + 7) div 8) in
      if len mod 8 = 0 then Inr (take n b)
      else if n - 1 < length b
        then Inr (take (n - 1) b @ [b ! (n - 1) AND word_of_int (drop_bit (nat (len mod 8)) 0xff00)])
      else Inl IndexError)"

definition prefix_serialize :: "addrconv \<Rightarrow> string \<times> int \<Rightarrow> bytes res" where
  "prefix_serialize A = (\<lambda>(addr, len).
     res_bind (ip4_to_bin A addr) (\<lambda>b.
     res_bind (prefix_bin len b) (\<lambda>b.
     res_bind (pack [fB] [VI len]) (\<lambda>h. Inr (h @ b)))))"

definition prefixes_serialize :: "addrconv \<Rightarrow> (string \<times> int) list \<Rightarrow> bytes res" where
  "prefixes_serialize A ps = res_bind (res_map (prefix_serialize A) ps) (\<lambda>bs. Inr (concat bs))"

section \<open>Capabilities\<close>

text \<open>
  The optional parameters of an OPEN message. Lengths that the objects remember are recomputed when
  they are serialized and read nowhere else; they are not part of the model.
\<close>

datatype bgp_cap =
    CapMultiprotocol int int int
  | CapRouteRefresh
  | CapCarryingLabelInfo
  | CapGracefulRestart int int "(int \<times> int \<times> int) list"
  | CapFourOctetAs int
  | CapEnhancedRouteRefresh
  | CapCiscoRouteRefresh
  | CapUnknown int bytes

datatype bgp_opt = OptCapability bgp_cap | OptUnknown int bytes

fun cap_code :: "bgp_cap \<Rightarrow> int" where
  "cap_code (CapMultiprotocol afi rsv safi) = 1"
| "cap_code CapRouteRefresh = 2"
| "cap_code CapCarryingLabelInfo = 4"
| "cap_code (CapGracefulRestart flags time ts) = 64"
| "cap_code (CapFourOctetAs n) = 65"
| "cap_code CapEnhancedRouteRefresh = 70"
| "cap_code CapCiscoRouteRefresh = 128"
| "cap_code (CapUnknown code v) = code"

definition known_caps :: "int list" where "known_caps = [1, 2, 4, 64, 65, 70, 128]"

fun restart_tuples :: "bytes \<Rightarrow> (int \<times> int \<times> int) list" where
  "restart_tuples (a # b # c # d # rest) = (be_int [a, b], uint c, uint d) # restart_tuples rest"
| "restart_tuples bs = []"

text \<open>\<^verbatim>\<open>parse_cap_value\<close> of the class that a code is registered for.\<close>

definition parse_cap_value :: "int \<Rightarrow> bytes \<Rightarrow> bgp_cap res" where
  "parse_cap_value code buf =
     (if code = 1 then
        res_bind (unpack_from [fH, fB, fB] buf) (\<lambda>vs. case vs of
          [VI afi, VI rsv, VI safi] \<Rightarrow> Inr (CapMultiprotocol afi rsv safi) | _ \<Rightarrow> Inl StructError)
      else if code = 2 then Inr CapRouteRefresh
      else if code = 4 then Inr CapCarryingLabelInfo
      else if code = 64 then
        res_bind (unpack_from [fH] buf) (\<lambda>vs. case vs of
          [VI restart] \<Rightarrow> Inr (CapGracefulRestart (drop_bit 12 restart) (restart AND 0xfff) (restart_tuples (drop 2 buf)))
        | _ \<Rightarrow> Inl StructError)
      else if code = 65 then
        res_bind (unpack_from [fI] buf) (\<lambda>vs. case vs of [VI n] \<Rightarrow> Inr (CapFourOctetAs n) | _ \<Rightarrow> Inl StructError)
      else if code = 70 then Inr CapEnhancedRouteRefresh
      else if code = 128 then Inr CapCiscoRouteRefresh
      else Inr (CapUnknown code buf))"

text \<open>
  \<^verbatim>\<open>_OptParamCapability.parse_value\<close>, the capabilities of one optional parameter. The value that a
  capability's class reads is all that follows its header, whatever its length says.
\<close>

fun caps_parse :: "bytes \<Rightarrow> bgp_cap list res" where
  "caps_parse [] = Inr []"
| "caps_parse [b] = Inl StructError"
| "caps_parse (code # l # rest) =
     res_bind (parse_cap_value (uint code) rest) (\<lambda>c.
     res_bind (caps_parse (drop (unat l) rest)) (\<lambda>cs. Inr (c # cs)))"

fun opts_parse :: "bytes \<Rightarrow> bgp_opt list res" where
  "opts_parse [] = Inr []"
| "opts_parse [b] = Inl StructError"
| "opts_parse (t # l # rest) =
     res_bind (if uint t = 2 then res_bind (caps_parse (take (unat l) rest)) (\<lambda>cs. Inr (map OptCapability cs))
               else Inr [OptUnknown (uint t) (take (unat l) rest)]) (\<lambda>os.
     res_bind (opts_parse (drop (unat l) rest)) (\<lambda>os'. Inr (os @ os')))"

fun serialize_cap_value :: "bgp_cap \<Rightarrow> bytes res" where
  "serialize_cap_value (CapMultiprotocol afi rsv safi) = pack [fH, fB, fB] [VI afi, VI 0, VI safi]"
| "serialize_cap_value (CapGracefulRestart flags time ts) =
     res_bind (pack [fH] [VI (push_bit 12 flags OR time)]) (\<lambda>b.
     res_bind (res_map (\<lambda>(afi, safi, fl). pack [fH, fB, fB] [VI afi, VI safi, VI fl]) ts) (\<lambda>bs.
     Inr (b @ concat bs)))"
| "serialize_cap_value (CapFourOctetAs n) = pack [fI] [VI n]"
| "serialize_cap_value (CapUnknown code v) = Inr v"
| "serialize_cap_value CapRouteRefresh = Inr []"
| "serialize_cap_value CapCarryingLabelInfo = Inr []"
| "serialize_cap_value CapEnhancedRouteRefresh = Inr []"
| "serialize_cap_value CapCiscoRouteRefresh = Inr []"

definition tlv :: "int \<Rightarrow> bytes \<Rightarrow> bytes res" where
  "tlv t v = res_bind (pack [fB, fB] [VI t, VI (int (length v))]) (\<lambda>h. Inr (h @ v))"

fun opt_serialize :: "bgp_opt \<Rightarrow> bytes res" where
  "opt_serialize (OptCapability c) =
     res_bind (serialize_cap_value c) (\<lambda>v. res_bind (tlv (cap_code c) v) (tlv 2))"
| "opt_serialize (OptUnknown t v) = tlv t v"

section \<open>Path attributes\<close>

text \<open>The classes of \<^verbatim>\<open>MP_REACH_NLRI\<close>, \<^verbatim>\<open>MP_UNREACH_NLRI\<close> and PMSI tunnel.\<close>

record 'e attr_ext =
  ex_parse :: "int \<Rightarrow> bytes \<Rightarrow> 'e res"
  ex_serialize :: "int \<Rightarrow> 'e \<Rightarrow> bytes res"

datatype 'e attr_value =
    PaOrigin int
  | PaAsPath bool "as_segment list"
  | PaNextHop string
  | PaMultiExitDisc int
  | PaLocalPref int
  | PaAtomicAggregate
  | PaAggregator int string
  | PaCommunities "int list"
  | PaOriginatorId string
  | PaClusterList "string list"
  | PaExtComms "ext_comm list"
  | PaAs4Path "as_segment list"
  | PaAs4Aggregator int string
  | PaExt int 'e
  | PaUnknown int bytes

record 'e path_attr =
  pa_flags :: int
  pa_value :: "'e attr_value"

fun attr_type :: "'e attr_value \<Rightarrow> int" where
  "attr_type (PaOrigin v) = 1"
| "attr_type (PaAsPath four v) = 2"
| "attr_type (PaNextHop v) = 3"
| "attr_type (PaMultiExitDisc v) = 4"
| "attr_type (PaLocalPref v) = 5"
| "attr_type PaAtomicAggregate = 6"
| "attr_type (PaAggregator n a) = 7"
| "attr_type (PaCommunities v) = 8"
| "attr_type (PaOriginatorId v) = 9"
| "attr_type (PaClusterList v) = 10"
| "attr_type (PaExtComms v) = 16"
| "attr_type (PaAs4Path v) = 17"
| "attr_type (PaAs4Aggregator n a) = 18"
| "attr_type (PaExt t e) = t"
| "attr_type (PaUnknown t v) = t"

definition ext_types :: "int list" where "ext_types = [14, 15, 22]"

text \<open>\<^verbatim>\<open>_ATTR_FLAGS\<close>: optional is 0x80, transitive 0x40.\<close>

fun attr_flags :: "'e attr_value \<Rightarrow> int option" where
  "attr_flags (PaOrigin v) = Some 0x40"
| "attr_flags (PaAsPath four v) = Some 0x40"
| "attr_flags (PaNextHop v) = Some 0x40"
| "attr_flags (PaMultiExitDisc v) = Some 0x80"
| "attr_flags (PaLocalPref v) = Some 0x40"
| "attr_flags PaAtomicAggregate = Some 0x40"
| "attr_flags (PaAggregator n a) = Some 0xC0"
| "attr_flags (PaCommunities v) = Some 0xC0"
| "attr_flags (PaOriginatorId v) = Some 0x80"
| "attr_flags (PaClusterList v) = Some 0x80"
| "attr_flags (PaExtComms v) = Some 0xC0"
| "attr_flags (PaAs4Path v) = Some 0xC0"
| "attr_flags (PaAs4Aggregator n a) = Some 0xC0"
| "attr_flags (PaExt t e) = Some (if t = 14 \<or> t = 15 then 0x80 else 0xC0)"
| "attr_flags (PaUnknown t v) = None"

subsection \<open>AS paths\<close>

text \<open>\<^verbatim>\<open>_is_valid_16bit_as_path\<close>: whether the octets can be read with two-octet numbers.\<close>

fun is_valid_16bit_as_path :: "bytes \<Rightarrow> bool res" where
  "is_valid_16bit_as_path [] = Inr True"
| "is_valid_16bit_as_path [b] = Inl StructError"
| "is_valid_16bit_as_path (t # n # rest) =
     (if uint t \<noteq> 1 \<and> uint t \<noteq> 2 then Inr False
      else if length rest < unat n * 2 then Inr False
      else is_valid_16bit_as_path (drop (unat n * 2) rest))"

fun read_asns :: "nat \<Rightarrow> nat \<Rightarrow> bytes \<Rightarrow> int list res" where
  "read_asns k 0 bs = Inr []"
| "read_asns k (Suc n) bs =
     (if length bs < k then Inl StructError
      else res_bind (read_asns k n (drop k bs)) (\<lambda>ns. Inr (be_int (take k bs) # ns)))"

text \<open>A set of numbers is a list without repetition, in whatever order.\<close>

fun as_segments_parse :: "nat \<Rightarrow> bytes \<Rightarrow> as_segment list res" where
  "as_segments_parse k [] = Inr []"
| "as_segments_parse k [b] = Inl StructError"
| "as_segments_parse k (t # n # rest) =
     res_bind (read_asns k (unat n) rest) (\<lambda>ns.
     res_bind (if uint t = 1 then Inr (AsSet (remdups ns)) else if uint t = 2 then Inr (AsSequence ns) else Inl StructError) (\<lambda>s.
     res_bind (as_segments_parse k (drop (unat n * k) rest)) (\<lambda>ss. Inr (s # ss))))"

definition as_path_parse :: "bytes \<Rightarrow> (bool \<times> as_segment list) res" where
  "as_path_parse buf =
     res_bind (is_valid_16bit_as_path buf) (\<lambda>two.
     res_bind (as_segments_parse (if two then 2 else 4) buf) (\<lambda>ss. Inr (\<not> two, ss)))"

fun as_segment_serialize :: "nat \<Rightarrow> as_segment \<Rightarrow> bytes res" where
  "as_segment_serialize k s =
     (let ns = seg_asns s in
      if ns = [] then Inr []
      else res_bind (pack [fB, fB] [VI (case s of AsSet _ \<Rightarrow> 1 | AsSequence _ \<Rightarrow> 2), VI (int (length ns))]) (\<lambda>h.
           res_bind (res_map (\<lambda>n. pack [FU k] [VI n]) ns) (\<lambda>bs. Inr (h @ concat bs))))"

definition as_path_serialize :: "nat \<Rightarrow> as_segment list \<Rightarrow> bytes res" where
  "as_path_serialize k ss = res_bind (res_map (as_segment_serialize k) ss) (\<lambda>bs. Inr (concat bs))"

subsection \<open>Values\<close>

fun comms_parse :: "bytes \<Rightarrow> int list" where
  "comms_parse (a # b # c # d # rest) = be_int [a, b, c, d] # comms_parse rest"
| "comms_parse bs = []"

fun cluster_parse :: "addrconv \<Rightarrow> bytes \<Rightarrow> string list" where
  "cluster_parse A (a # b # c # d # rest) = ip4_to_text A [a, b, c, d] # cluster_parse A rest"
| "cluster_parse A bs = []"

definition uint_parse :: "nat \<Rightarrow> bytes \<Rightarrow> int res" where
  "uint_parse n buf =
     res_bind (unpack_from [FU n] buf) (\<lambda>vs. case vs of [VI v] \<Rightarrow> Inr v | _ \<Rightarrow> Inl StructError)"

definition ip4_parse :: "addrconv \<Rightarrow> bytes \<Rightarrow> string res" where
  "ip4_parse A buf =
     res_bind (unpack_from [FS 4] buf) (\<lambda>vs. case vs of [VS b] \<Rightarrow> Inr (ip4_to_text A b) | _ \<Rightarrow> Inl StructError)"

definition aggregator_parse :: "addrconv \<Rightarrow> nat \<Rightarrow> bytes \<Rightarrow> (int \<times> string) res" where
  "aggregator_parse A n buf =
     res_bind (unpack_from [FU n, FS 4] buf) (\<lambda>vs. case vs of
       [VI asn, VS b] \<Rightarrow> Inr (asn, ip4_to_text A b) | _ \<Rightarrow> Inl StructError)"

text \<open>\<^verbatim>\<open>BGPPathAttributeAggregator.parse_value\<close>, with the assignment to its class.\<close>

definition aggregator_read :: "addrconv \<Rightarrow> bytes \<Rightarrow> (int \<times> string) cls" where
  "aggregator_read A buf = (\<lambda>g. let g = g \<or> length buf = 8 in (g, aggregator_parse A (if g then 4 else 2) buf))"

definition attr_parse_value :: "addrconv \<Rightarrow> 'e attr_ext \<Rightarrow> int \<Rightarrow> bytes \<Rightarrow> 'e attr_value cls" where
  "attr_parse_value A X t buf =
     (if t = 1 then st_ret (res_bind (uint_parse 1 buf) (\<lambda>v. Inr (PaOrigin v)))
      else if t = 2 then st_ret (res_bind (as_path_parse buf) (\<lambda>(four, ss). Inr (PaAsPath four ss)))
      else if t = 3 then st_ret (res_bind (ip4_parse A buf) (\<lambda>a. Inr (PaNextHop a)))
      else if t = 4 then st_ret (res_bind (uint_parse 4 buf) (\<lambda>v. Inr (PaMultiExitDisc v)))
      else if t = 5 then st_ret (res_bind (uint_parse 4 buf) (\<lambda>v. Inr (PaLocalPref v)))
      else if t = 6 then st_ret (Inr PaAtomicAggregate)
      else if t = 7 then st_bind (aggregator_read A buf) (\<lambda>(n, a). st_ret (Inr (PaAggregator n a)))
      else if t = 8 then st_ret (Inr (PaCommunities (comms_parse buf)))
      else if t = 9 then st_ret (res_bind (ip4_parse A buf) (\<lambda>a. Inr (PaOriginatorId a)))
      else if t = 10 then st_ret (Inr (PaClusterList (cluster_parse A buf)))
      else if t = 16 then st_ret (res_bind (ext_comms_parse A buf) (\<lambda>cs. Inr (PaExtComms cs)))
      else if t = 17 then st_ret (res_bind (as_segments_parse 4 buf) (\<lambda>ss. Inr (PaAs4Path ss)))
      else if t = 18 then st_ret (res_bind (aggregator_parse A 4 buf) (\<lambda>(n, a). Inr (PaAs4Aggregator n a)))
      else if t \<in> set ext_types then st_ret (res_bind (ex_parse X t buf) (\<lambda>e. Inr (PaExt t e)))
      else st_ret (Inr (PaUnknown t buf)))"

definition aggregator_bytes :: "addrconv \<Rightarrow> nat \<Rightarrow> int \<Rightarrow> string \<Rightarrow> bytes res" where
  "aggregator_bytes A n asn a = res_bind (ip4_to_bin A a) (\<lambda>b. pack [FU n, FS 4] [VI asn, VS b])"

text \<open>\<^verbatim>\<open>serialize_value\<close>; an aggregator takes the format that its class has by now.\<close>

fun attr_serialize_value :: "addrconv \<Rightarrow> 'e attr_ext \<Rightarrow> bool \<Rightarrow> 'e attr_value \<Rightarrow> bytes res" where
  "attr_serialize_value A X g (PaOrigin v) = pack [fB] [VI v]"
| "attr_serialize_value A X g (PaAsPath four ss) = as_path_serialize (if four then 4 else 2) ss"
| "attr_serialize_value A X g (PaNextHop a) = res_bind (ip4_to_bin A a) (\<lambda>b. pack [FS 4] [VS b])"
| "attr_serialize_value A X g (PaMultiExitDisc v) = pack [fI] [VI v]"
| "attr_serialize_value A X g (PaLocalPref v) = pack [fI] [VI v]"
| "attr_serialize_value A X g PaAtomicAggregate = Inr []"
| "attr_serialize_value A X g (PaAggregator n a) = aggregator_bytes A (if 0xffff < n \<or> g then 4 else 2) n a"
| "attr_serialize_value A X g (PaCommunities cs) =
     res_bind (res_map (\<lambda>c. pack [fI] [VI c]) cs) (\<lambda>bs. Inr (concat bs))"
| "attr_serialize_value A X g (PaOriginatorId a) = res_bind (ip4_to_bin A a) (\<lambda>b. pack [FS 4] [VS b])"
| "attr_serialize_value A X g (PaClusterList as) =
     res_bind (res_map (\<lambda>a. res_bind (ip4_to_bin A a) (\<lambda>b. pack [FS 4] [VS b])) as) (\<lambda>bs. Inr (concat bs))"
| "attr_serialize_value A X g (PaExtComms cs) =
     res_bind (res_map (ext_comm_serialize A) cs) (\<lambda>bs. Inr (concat bs))"
| "attr_serialize_value A X g (PaAs4Path ss) = as_path_serialize 4 ss"
| "attr_serialize_value A X g (PaAs4Aggregator n a) = aggregator_bytes A 4 n a"
| "attr_serialize_value A X g (PaExt t e) = ex_serialize X t e"
| "attr_serialize_value A X g (PaUnknown t v) = Inr v"

text \<open>The flags that \<^verbatim>\<open>serialize\<close> puts: those of the class, and the extended length where it is needed.\<close>

definition fixed_flags :: "'e path_attr \<Rightarrow> nat \<Rightarrow> int" where
  "fixed_flags a n =
     (let f = (case attr_flags (pa_value a) of None \<Rightarrow> pa_flags a
               | Some k \<Rightarrow> pa_flags a AND NOT 0xC0 OR k)
      in if f AND 16 \<noteq> 0 then f else if 255 < n then f OR 16 else f AND NOT 16)"

definition attr_serialize :: "addrconv \<Rightarrow> 'e attr_ext \<Rightarrow> bool \<Rightarrow> 'e path_attr \<Rightarrow> bytes res" where
  "attr_serialize A X g a =
     res_bind (attr_serialize_value A X g (pa_value a)) (\<lambda>v.
     let f = fixed_flags a (length v) in
     res_bind (pack [fB, fB] [VI f, VI (attr_type (pa_value a))]) (\<lambda>h.
     res_bind (pack [FU (if f AND 16 \<noteq> 0 then 2 else 1)] [VI (int (length v))]) (\<lambda>l. Inr (h @ l @ v))))"

function attrs_parse :: "addrconv \<Rightarrow> 'e attr_ext \<Rightarrow> bytes \<Rightarrow> 'e path_attr list cls" where
  "attrs_parse A X [] = st_ret (Inr [])"
| "attrs_parse A X [b] = st_ret (Inl StructError)"
| "attrs_parse A X (f # t # rest) =
     (let k = (if uint f AND 16 \<noteq> 0 then 2 else 1); n = nat (be_int (take k rest)) in
      if length rest < k then st_ret (Inl StructError)
      else
        st_bind (attr_parse_value A X (uint t) (take n (drop k rest))) (\<lambda>v.
        st_bind (attrs_parse A X (drop n (drop k rest))) (\<lambda>as.
        st_ret (Inr (\<lparr>pa_flags = uint f, pa_value = v\<rparr> # as)))))"
  by pat_completeness auto
termination by (relation "measure (\<lambda>(A, X, bs). length bs)") auto

section \<open>Messages\<close>

record 'e wire_update =
  wu_withdrawn :: "(string \<times> int) list"
  wu_attrs :: "'e path_attr list"
  wu_nlri :: "(string \<times> int) list"

record bgp_open =
  bo_version :: int
  bo_my_as :: int
  bo_hold_time :: int
  bo_identifier :: string
  bo_opt_param :: "bgp_opt list"

datatype 'e bgp_message =
    MOpen bgp_open
  | MUpdate "'e wire_update"
  | MNotification int int bytes
  | MKeepAlive
  | MRouteRefresh int int int

fun msg_type :: "'e bgp_message \<Rightarrow> int" where
  "msg_type (MOpen m) = 1"
| "msg_type (MUpdate u) = 2"
| "msg_type (MNotification c s d) = 3"
| "msg_type MKeepAlive = 4"
| "msg_type (MRouteRefresh afi safi dem) = 5"

definition BGP_HDR_LEN :: nat where "BGP_HDR_LEN = 19"

definition MARKER :: bytes where "MARKER = replicate 16 255"

definition open_parse :: "addrconv \<Rightarrow> bytes \<Rightarrow> bgp_open res" where
  "open_parse A buf =
     res_bind (unpack_from [fB, fH, fH, FS 4, fB] buf) (\<lambda>vs. case vs of
       [VI version, VI my_as, VI hold_time, VS ident, VI opt_len] \<Rightarrow>
         res_bind (opts_parse (take (nat opt_len) (drop 10 buf))) (\<lambda>os.
         Inr \<lparr>bo_version = version, bo_my_as = my_as, bo_hold_time = hold_time,
              bo_identifier = ip4_to_text A ident, bo_opt_param = os\<rparr>)
     | _ \<Rightarrow> Inl StructError)"

definition open_serialize :: "addrconv \<Rightarrow> bgp_open \<Rightarrow> bytes res" where
  "open_serialize A m =
     res_bind (res_map opt_serialize (bo_opt_param m)) (\<lambda>bs.
     res_bind (ip4_to_bin A (bo_identifier m)) (\<lambda>ident.
     res_bind (pack [fB, fH, fH, FS 4, fB]
        [VI 4, VI (bo_my_as m), VI (bo_hold_time m), VS ident, VI (int (length (concat bs)))]) (\<lambda>h.
     Inr (h @ concat bs))))"

definition update_parse :: "addrconv \<Rightarrow> 'e attr_ext \<Rightarrow> bytes \<Rightarrow> 'e wire_update cls" where
  "update_parse A X buf =
     (let wl = nat (be_int (take 2 buf)); off = 2 + wl; al = nat (be_int (py_slice off (off + 2) buf)) in
      if length buf < 2 \<or> length buf < off + 2 then st_ret (Inl StructError)
      else
        st_bind (st_ret (prefixes_parse A (py_slice 2 off buf))) (\<lambda>ws.
        st_bind (attrs_parse A X (py_slice (off + 2) (off + 2 + al) buf)) (\<lambda>as.
        st_bind (st_ret (prefixes_parse A (drop (off + 2 + al) buf))) (\<lambda>ns.
        st_ret (Inr \<lparr>wu_withdrawn = ws, wu_attrs = as, wu_nlri = ns\<rparr>)))))"

definition update_serialize :: "addrconv \<Rightarrow> 'e attr_ext \<Rightarrow> bool \<Rightarrow> 'e wire_update \<Rightarrow> bytes res" where
  "update_serialize A X g u =
     res_bind (prefixes_serialize A (wu_withdrawn u)) (\<lambda>ws.
     res_bind (res_map (attr_serialize A X g) (wu_attrs u)) (\<lambda>bs. let as = concat bs in
     res_bind (prefixes_serialize A (wu_nlri u)) (\<lambda>ns.
     res_bind (pack [fH] [VI (int (length ws))]) (\<lambda>wl.
     res_bind (pack [fH] [VI (int (length as))]) (\<lambda>al.
     Inr (wl @ ws @ al @ as @ ns))))))"

text \<open>\<^verbatim>\<open>parser\<close> of the class of a type. A type that no class is registered for is looked up as \<^verbatim>\<open>None\<close>.\<close>

definition body_parse :: "addrconv \<Rightarrow> 'e attr_ext \<Rightarrow> int \<Rightarrow> bytes \<Rightarrow> 'e bgp_message cls" where
  "body_parse A X t buf =
     (if t = 1 then st_ret (res_bind (open_parse A buf) (\<lambda>m. Inr (MOpen m)))
      else if t = 2 then st_bind (update_parse A X buf) (\<lambda>u. st_ret (Inr (MUpdate u)))
      else if t = 3 then
        st_ret (res_bind (unpack_from [fB, fB] buf) (\<lambda>vs. case vs of
          [VI c, VI s] \<Rightarrow> Inr (MNotification c s (drop 2 buf)) | _ \<Rightarrow> Inl StructError))
      else if t = 4 then st_ret (Inr MKeepAlive)
      else if t = 5 then
        st_ret (res_bind (unpack_from [fH, fB, fB] buf) (\<lambda>vs. case vs of
          [VI afi, VI dem, VI safi] \<Rightarrow> Inr (MRouteRefresh afi safi dem) | _ \<Rightarrow> Inl StructError))
      else st_ret (Inl AttributeError))"

definition header_len :: "bytes \<Rightarrow> nat" where "header_len buf = nat (be_int (py_slice 16 18 buf))"

definition header_type :: "bytes \<Rightarrow> int" where "header_type buf = be_int (py_slice 18 19 buf)"

definition message_parse :: "addrconv \<Rightarrow> 'e attr_ext \<Rightarrow> bytes \<Rightarrow> ('e bgp_message \<times> bytes) cls" where
  "message_parse A X buf =
     (if length buf < BGP_HDR_LEN \<or> length buf < header_len buf then st_ret (Inl (RyuError ''TooSmallException''))
      else st_bind (body_parse A X (header_type buf) (py_slice BGP_HDR_LEN (header_len buf) buf)) (\<lambda>m.
        st_ret (Inr (m, drop (header_len buf) buf))))"

fun body_serialize :: "addrconv \<Rightarrow> 'e attr_ext \<Rightarrow> bool \<Rightarrow> 'e bgp_message \<Rightarrow> bytes res" where
  "body_serialize A X g (MOpen m) = open_serialize A m"
| "body_serialize A X g (MUpdate u) = update_serialize A X g u"
| "body_serialize A X g (MNotification c s d) = res_bind (pack [fB, fB] [VI c, VI s]) (\<lambda>h. Inr (h @ d))"
| "body_serialize A X g MKeepAlive = Inr []"
| "body_serialize A X g (MRouteRefresh afi safi dem) = pack [fH, fB, fB] [VI afi, VI dem, VI safi]"

definition message_serialize :: "addrconv \<Rightarrow> 'e attr_ext \<Rightarrow> bool \<Rightarrow> 'e bgp_message \<Rightarrow> bytes res" where
  "message_serialize A X g m =
     res_bind (body_serialize A X g m) (\<lambda>b.
     res_bind (pack [FS 16, fH, fB] [VS MARKER, VI (int (BGP_HDR_LEN + length b)), VI (msg_type m)]) (\<lambda>h.
     Inr (h @ b)))"

end
