(* ===== verification/Bgp_Codec.thy ===== *)
theory Bgp_Codec
  imports Bgp_Wire
begin

text \<open>What one speaker serializes another parses: the well-formed messages and their round trip.\<close>

section \<open>Sequences of items\<close>

text \<open>
  The contract of everything that comes in sequence in a message (prefixes, optional parameters,
  attributes, segments of a path): an item is serialized, and the parser of the sequence takes it
  off the front, without changing the state of the classes.
\<close>

locale item_codec =
  fixes ser :: "'x \<Rightarrow> bytes res"
    and parse :: "bytes \<Rightarrow> 'x list cls"
    and wf :: "'x \<Rightarrow> bool"
    and g :: bool
  assumes parse_Nil: "parse [] g = (g, Inr [])"
    and parse_item: "wf x \<Longrightarrow> \<exists>b. ser x = Inr b \<and>
      (\<forall>rest xs. parse rest g = (g, Inr xs) \<longrightarrow> parse (b @ rest) g = (g, Inr (x # xs)))"
begin

lemma parse_items:
  "list_all wf xs \<Longrightarrow> \<exists>bs. res_map ser xs = Inr bs \<and> parse (concat bs) g = (g, Inr xs)"
proof (induction xs)
  case Nil
  then show ?case by (simp add: parse_Nil)
next
  case (Cons x xs)
  then obtain bs where "res_map ser xs = Inr bs" "parse (concat bs) g = (g, Inr xs)" by auto
  moreover obtain b where "ser x = Inr b"
    "\<forall>rest xs. parse rest g = (g, Inr xs) \<longrightarrow> parse (b @ rest) g = (g, Inr (x # xs))"
    using parse_item [of x] Cons.prems by auto
  ultimately show ?case by (intro exI [of _ "b # bs"]) simp
qed

end

text \<open>A parser without state, item by item.\<close>

lemma pure_item:
  assumes "ser x = Inr b" "\<And>rest. p (b @ rest) = res_bind (p rest) (\<lambda>ys. Inr (x # ys))"
  shows "\<exists>b. ser x = Inr b \<and> (\<forall>rest xs. (g, p rest) = (g, Inr xs) \<longrightarrow> (g, p (b @ rest)) = (g, Inr (x # xs)))"
  using assms by (intro exI [of _ b]) simp

section \<open>Bytes\<close>

lemma unat_byte_of_int: "0 \<le> v \<Longrightarrow> v < 256 \<Longrightarrow> unat (word_of_int v :: byte) = nat v"
  by (simp add: unsigned_of_int take_bit_eq_mod)

lemma uint_byte_of_int: "0 \<le> v \<Longrightarrow> v < 256 \<Longrightarrow> uint (word_of_int v :: byte) = v"
  by (simp add: uint_word_of_int_byte)

lemma unat_byte_of_nat: "n < 256 \<Longrightarrow> unat (word_of_nat n :: byte) = n"
  by (simp add: unsigned_of_nat take_bit_eq_mod)

lemma be_bytes_one: "be_bytes (Suc 0) v = [word_of_int v]"
  by simp

lemma be_int_1: "be_int [b] = uint b"
  by (simp add: be_int_def)

lemma length_4E:
  assumes "length xs = 4"
  obtains a b c d where "xs = [a, b, c, d]"
  using assms by (auto simp: numeral_eq_Suc length_Suc_conv)

lemma byte_header:
  assumes "0 \<le> a" "a < 256" "0 \<le> b" "b < 256"
  shows "pack [fB, fB] [VI a, VI b] = Inr [word_of_int a, word_of_int b]"
  using assms by simp

lemma res_map_ints:
  "\<forall>n \<in> set ns. 0 \<le> n \<and> n < 256 ^ k \<Longrightarrow> res_map (\<lambda>n. pack [FU k] [VI n]) ns = Inr (map (be_bytes k) ns)"
  by (induction ns) simp_all

lemma length_concat_ints: "length (concat (map (be_bytes k) ns)) = length ns * k"
  by (induction ns) simp_all

section \<open>Prefixes\<close>

definition prefix_wf :: "addrconv \<Rightarrow> string \<times> int \<Rightarrow> bool" where
  "prefix_wf A = (\<lambda>(addr, len). 0 \<le> len \<and> len \<le> 32 \<and>
     (case ip4_to_bin A addr of Inl e \<Rightarrow> False
      | Inr b \<Rightarrow> (case prefix_bin len b of Inl e \<Rightarrow> False
                  | Inr c \<Rightarrow> ip4_to_text A (c @ replicate (4 - length c) 0) = addr)))"

lemma prefix_octets:
  assumes "0 \<le> (len :: int)" "len \<le> 32"
  shows "(nat len + 7) div 8 = nat ((len + 7) div 8)" "nat ((len + 7) div 8) \<le> 4"
  using assms by (simp_all add: nat_div_distrib nat_add_distrib)

lemma length_prefix_bin:
  assumes "0 \<le> len" "len \<le> 32" "length b = 4" "prefix_bin len b = Inr c"
  shows "length c = nat ((len + 7) div 8)"
proof -
  have n: "nat ((len + 7) div 8) \<le> 4" using prefix_octets [OF assms(1,2)] by simp
  show ?thesis
  proof (cases "len mod 8 = 0")
    case True
    then show ?thesis using assms(3,4) n by (auto simp: prefix_bin_def Let_def)
  next
    case False
    then have "0 < len" using assms(1) by (cases "len = 0") simp_all
    then have "0 < nat ((len + 7) div 8)" by simp
    then show ?thesis using False assms(3,4) n by (auto simp: prefix_bin_def Let_def split: if_splits)
  qed
qed

lemma prefix_item:
  assumes "addrconv_ok A" "prefix_wf A p"
  shows "\<exists>b. prefix_serialize A p = Inr b \<and>
    (\<forall>rest ps. (g, prefixes_parse A rest) = (g, Inr ps) \<longrightarrow> (g, prefixes_parse A (b @ rest)) = (g, Inr (p # ps)))"
proof -
  obtain addr len where p: "p = (addr, len)" by (cases p)
  obtain b c where b: "ip4_to_bin A addr = Inr b" "prefix_bin len b = Inr c"
    "ip4_to_text A (c @ replicate (4 - length c) 0) = addr" and len: "0 \<le> len" "len \<le> 32"
    using assms(2) unfolding p prefix_wf_def by (auto split: sum.splits)
  have "length b = 4" using assms(1) b(1) by (simp add: addrconv_ok_def)
  then have c: "length c = (nat len + 7) div 8" "length c \<le> 4"
    using length_prefix_bin [OF len _ b(2)] prefix_octets [OF len] by simp_all
  have u: "unat (word_of_int len :: byte) = nat len" "uint (word_of_int len :: byte) = len"
    using len by (simp_all add: unat_byte_of_int uint_byte_of_int)
  have "prefix_read A (word_of_int len) (c @ rest) = Inr (addr, len)" for rest
    unfolding prefix_read_def u using b(3) c by (simp add: pad_bin_def)
  moreover have "drop ((unat (word_of_int len :: byte) + 7) div 8) (c @ rest) = rest" for rest
    unfolding u using c by simp
  ultimately have "prefixes_parse A ((word_of_int len # c) @ rest) = res_bind (prefixes_parse A rest) (\<lambda>ps. Inr (p # ps))" for rest
    by (simp add: p)
  moreover have "prefix_serialize A p = Inr (word_of_int len # c)"
    using b len by (simp add: p prefix_serialize_def)
  ultimately show ?thesis by (intro exI [of _ "word_of_int len # c"]) simp
qed

sublocale addr_converter \<subseteq> prefixes: item_codec "prefix_serialize A" "\<lambda>bs g. (g, prefixes_parse A bs)" "prefix_wf A" g
  for g
  by unfold_locales (simp, rule prefix_item [OF conv_ok])

context addr_converter
begin

lemma prefixes_codec:
  "list_all (prefix_wf A) ps \<Longrightarrow> \<exists>b. prefixes_serialize A ps = Inr b \<and> prefixes_parse A b = Inr ps"
  using prefixes.parse_items [of ps] by (auto simp: prefixes_serialize_def)

end

section \<open>Optional parameters\<close>

fun cap_wf :: "bgp_cap \<Rightarrow> bool" where
  "cap_wf (CapMultiprotocol afi rsv safi) \<longleftrightarrow> in_range 2 afi \<and> rsv = 0 \<and> in_range 1 safi"
| "cap_wf (CapGracefulRestart flags time ts) \<longleftrightarrow> 0 \<le> flags \<and> flags < 16 \<and> 0 \<le> time \<and> time < 4096 \<and>
     length ts \<le> 62 \<and> list_all (\<lambda>(afi, safi, fl). in_range 2 afi \<and> in_range 1 safi \<and> in_range 1 fl) ts"
| "cap_wf (CapFourOctetAs n) \<longleftrightarrow> in_range 4 n"
| "cap_wf (CapUnknown code v) \<longleftrightarrow> in_range 1 code \<and> code \<notin> set known_caps \<and> length v \<le> 253"
| "cap_wf c \<longleftrightarrow> True"

fun opt_wf :: "bgp_opt \<Rightarrow> bool" where
  "opt_wf (OptCapability c) \<longleftrightarrow> cap_wf c"
| "opt_wf (OptUnknown t v) \<longleftrightarrow> in_range 1 t \<and> t \<noteq> 2 \<and> length v \<le> 255"

lemma restart_tuples_item:
  "length x = 4 \<Longrightarrow> restart_tuples (x @ rest) = (be_int (take 2 x), uint (x ! 2), uint (x ! 3)) # restart_tuples rest"
  by (erule length_4E) (simp add: numeral_eq_Suc)

lemma restart_tuples_pack:
  "list_all (\<lambda>(afi, safi, fl). in_range 2 afi \<and> in_range 1 safi \<and> in_range 1 fl) ts \<Longrightarrow>
   \<exists>bs. res_map (\<lambda>(afi, safi, fl). pack [fH, fB, fB] [VI afi, VI safi, VI fl]) ts = Inr bs \<and>
     length (concat bs) = 4 * length ts \<and> restart_tuples (concat bs) = ts"
proof (induction ts)
  case (Cons t ts)
  obtain afi safi fl where t: "t = (afi, safi, fl)" by (cases t) auto
  from Cons obtain bs where bs: "res_map (\<lambda>(afi, safi, fl). pack [fH, fB, fB] [VI afi, VI safi, VI fl]) ts = Inr bs"
    "length (concat bs) = 4 * length ts" "restart_tuples (concat bs) = ts" by auto
  let ?x = "be_bytes 2 afi @ [word_of_int safi, word_of_int fl]"
  have x: "pack [fH, fB, fB] [VI afi, VI safi, VI fl] = Inr ?x" using Cons.prems by (simp add: t in_range_def)
  have "restart_tuples (?x @ concat bs) = (afi, safi, fl) # ts"
    using Cons.prems bs(3) by (subst restart_tuples_item) (simp_all add: t in_range_def nth_append uint_byte_of_int)
  with bs(1,2) x show ?case by (intro exI [of _ "?x # bs"]) (simp add: t)
qed simp

lemma restart_word:
  assumes "0 \<le> (flags :: int)" "flags < 16" "0 \<le> (time :: int)" "time < 4096"
  shows "push_bit 12 flags OR time = flags * 4096 + time"
    "drop_bit 12 (flags * 4096 + time) = flags" "(flags * 4096 + time) AND 4095 = time"
proof -
  show "push_bit 12 flags OR time = flags * 4096 + time"
    using or_mult_add [of time 12 flags] assms by (simp add: push_bit_eq_mult)
  show "drop_bit 12 (flags * 4096 + time) = flags" using assms by (simp add: drop_bit_eq_div)
  show "(flags * 4096 + time) AND 4095 = time" using assms by (simp add: mask_simps)
qed

lemma cap_codec:
  assumes "cap_wf c"
  shows "\<exists>v. serialize_cap_value c = Inr v \<and> length v \<le> 253 \<and> parse_cap_value (cap_code c) v = Inr c"
proof (cases c)
  case (CapGracefulRestart flags time ts)
  then have wf: "0 \<le> flags" "flags < 16" "0 \<le> time" "time < 4096" "length ts \<le> 62"
    "list_all (\<lambda>(afi, safi, fl). in_range 2 afi \<and> in_range 1 safi \<and> in_range 1 fl) ts" using assms by simp_all
  obtain bs where bs: "res_map (\<lambda>(afi, safi, fl). pack [fH, fB, fB] [VI afi, VI safi, VI fl]) ts = Inr bs"
    "length (concat bs) = 4 * length ts" "restart_tuples (concat bs) = ts" using restart_tuples_pack [OF wf(6)] by blast
  let ?w = "flags * 4096 + time"
  have w: "0 \<le> ?w" "?w < 65536" using wf by simp_all
  have "unpack_from [fH] (be_bytes 2 ?w @ concat bs) = Inr [VI ?w]"
    using unpack_from_pack_bytes [of "[fH]" "[VI ?w]" "concat bs"] w by simp
  then show ?thesis using bs w wf(5) restart_word [OF wf(1-4)]
    by (intro exI [of _ "be_bytes 2 ?w @ concat bs"]) (simp add: CapGracefulRestart parse_cap_value_def)
next
  case (CapMultiprotocol afi rsv safi)
  let ?vs = "[VI afi, VI 0, VI safi]"
  have f: "fits [fH, fB, fB] ?vs" using assms by (simp add: CapMultiprotocol in_range_def)
  show ?thesis using pack_fits [OF f] unpack_from_pack_bytes [OF f, of "[]"] assms
    by (intro exI [of _ "pack_bytes [fH, fB, fB] ?vs"])
      (simp add: CapMultiprotocol parse_cap_value_def del: pack_bytes.simps, simp add: length_pack_bytes [OF f] del: pack_bytes.simps)
next
  case (CapFourOctetAs n)
  then have f: "fits [fI] [VI n]" using assms by (simp add: in_range_def)
  show ?thesis using pack_fits [OF f] unpack_from_pack_bytes [OF f, of "[]"] assms
    by (intro exI [of _ "be_bytes 4 n"]) (simp add: CapFourOctetAs parse_cap_value_def)
next
  case (CapUnknown code v)
  then show ?thesis using assms by (auto simp: parse_cap_value_def known_caps_def)
qed (simp_all add: parse_cap_value_def)

lemma cap_code_range: "cap_wf c \<Longrightarrow> 0 \<le> cap_code c \<and> cap_code c < 256"
  by (cases c) (simp_all add: in_range_def)

lemma opts_parse_caps:
  assumes "length w < 256" "caps_parse w = Inr cs"
  shows "opts_parse (2 # word_of_nat (length w) # w @ rest) =
    res_bind (opts_parse rest) (\<lambda>os. Inr (map OptCapability cs @ os))"
  using assms by (simp add: unat_byte_of_nat)

lemma opt_item:
  assumes "opt_wf x"
  shows "\<exists>b. opt_serialize x = Inr b \<and>
    (\<forall>rest os. (g, opts_parse rest) = (g, Inr os) \<longrightarrow> (g, opts_parse (b @ rest)) = (g, Inr (x # os)))"
proof (cases x)
  case (OptCapability c)
  then obtain v where v: "serialize_cap_value c = Inr v" "length v \<le> 253" "parse_cap_value (cap_code c) v = Inr c"
    using assms cap_codec by auto
  have code: "0 \<le> cap_code c" "cap_code c < 256" using assms cap_code_range OptCapability by simp_all
  let ?h = "[word_of_int (cap_code c), word_of_int (int (length v))] :: bytes"
  have "caps_parse (?h @ v) = Inr [c]" using v code by (simp add: uint_byte_of_int unat_byte_of_nat)
  moreover have "length (?h @ v) < 256" using v(2) by simp
  ultimately have parse: "opts_parse ((2 # word_of_nat (length (?h @ v)) # ?h @ v) @ rest) =
      res_bind (opts_parse rest) (\<lambda>os. Inr (x # os))" for rest
    using opts_parse_caps [of "?h @ v" "[c]" rest] by (simp only: OptCapability append_Cons append_assoc list.simps append_Nil)
  have "opt_serialize x = Inr (2 # word_of_nat (length (?h @ v)) # ?h @ v)"
    using v code by (simp add: OptCapability tlv_def)
  then show ?thesis by (rule pure_item) (rule parse)
next
  case (OptUnknown t v)
  then show ?thesis using assms
    by (intro exI [of _ "word_of_int t # word_of_int (int (length v)) # v"])
      (simp add: tlv_def in_range_def uint_byte_of_int unat_byte_of_nat)
qed

interpretation opts: item_codec opt_serialize "\<lambda>bs g. (g, opts_parse bs)" opt_wf g for g
  by unfold_locales (simp, rule opt_item)

lemma opts_codec: "list_all opt_wf os \<Longrightarrow> \<exists>bs. res_map opt_serialize os = Inr bs \<and> opts_parse (concat bs) = Inr os"
  using opts.parse_items [of os] by auto

end
