(* ===== verification/Bgp_Messages.thy ===== *)
theory Bgp_Messages
  imports Bgp_Codec
begin

text \<open>Path attributes and whole messages: well-formedness and the round trip.\<close>

section \<open>AS paths\<close>

fun seg_wf :: "nat \<Rightarrow> as_segment \<Rightarrow> bool" where
  "seg_wf k (AsSequence ns) \<longleftrightarrow> ns \<noteq> [] \<and> length ns < 256 \<and> list_all (in_range k) ns"
| "seg_wf k (AsSet ns) \<longleftrightarrow> ns \<noteq> [] \<and> length ns < 256 \<and> list_all (in_range k) ns \<and> distinct ns"

definition seg_bytes :: "nat \<Rightarrow> as_segment \<Rightarrow> bytes" where
  "seg_bytes k s = (case s of AsSet _ \<Rightarrow> 1 | AsSequence _ \<Rightarrow> 2) # word_of_nat (length (seg_asns s)) #
     concat (map (be_bytes k) (seg_asns s))"

lemma seg_wfD:
  assumes "seg_wf k s"
  shows "seg_asns s \<noteq> []" "length (seg_asns s) < 256" "list_all (in_range k) (seg_asns s)"
  using assms by (cases s; simp)+

lemma read_asns_ints:
  "list_all (in_range k) ns \<Longrightarrow> read_asns k (length ns) (concat (map (be_bytes k) ns) @ rest) = Inr ns"
  by (induction ns) (simp_all add: in_range_def)

lemma as_segment_bytes:
  assumes "seg_wf k s"
  shows "as_segment_serialize k s = Inr (seg_bytes k s)"
proof -
  have "res_map (\<lambda>n. pack [FU k] [VI n]) (seg_asns s) = Inr (map (be_bytes k) (seg_asns s))"
    using seg_wfD(3) [OF assms] by (intro res_map_ints) (auto simp: list_all_iff in_range_def)
  then show ?thesis using seg_wfD(1,2) [OF assms] by (cases s) (simp_all add: seg_bytes_def)
qed

lemma drop_seg_asns:
  "length ns < 256 \<Longrightarrow> drop (unat (word_of_nat (length ns) :: byte) * k) (concat (map (be_bytes k) ns) @ rest) = rest"
  by (simp add: unat_byte_of_nat length_concat_ints)

lemma seg_bytes_parse:
  assumes "seg_wf k s"
  shows "as_segments_parse k (seg_bytes k s @ rest) = res_bind (as_segments_parse k rest) (\<lambda>ss. Inr (s # ss))"
proof -
  let ?ns = "seg_asns s"
  have "read_asns k (unat (word_of_nat (length ?ns) :: byte)) (concat (map (be_bytes k) ?ns) @ rest) = Inr ?ns"
    using seg_wfD [OF assms] by (simp add: unat_byte_of_nat read_asns_ints)
  then show ?thesis using drop_seg_asns [OF seg_wfD(2) [OF assms], of k rest] assms
    by (cases s) (simp_all add: seg_bytes_def distinct_remdups_id)
qed

lemma seg_bytes_16bit:
  assumes "seg_wf 2 s"
  shows "is_valid_16bit_as_path (seg_bytes 2 s @ rest) = is_valid_16bit_as_path rest"
  using drop_seg_asns [OF seg_wfD(2) [OF assms], of 2 rest] seg_wfD(2) [OF assms]
  by (cases s) (simp_all add: seg_bytes_def length_concat_ints unat_byte_of_nat)

lemma segments_item:
  assumes "seg_wf k s"
  shows "\<exists>b. as_segment_serialize k s = Inr b \<and> (\<forall>rest ss.
    (g, as_segments_parse k rest) = (g, Inr ss) \<longrightarrow> (g, as_segments_parse k (b @ rest)) = (g, Inr (s # ss)))"
  by (rule pure_item [where p = "as_segments_parse k"], rule as_segment_bytes [OF assms], rule seg_bytes_parse [OF assms])

interpretation segments: item_codec "as_segment_serialize k" "\<lambda>bs g. (g, as_segments_parse k bs)" "seg_wf k" g for k g
  by unfold_locales (simp, rule segments_item)

lemma as_path_bytes:
  "list_all (seg_wf k) ss \<Longrightarrow> as_path_serialize k ss = Inr (concat (map (seg_bytes k) ss))"
proof -
  assume "list_all (seg_wf k) ss"
  then have "res_map (as_segment_serialize k) ss = Inr (map (seg_bytes k) ss)"
    by (induction ss) (simp_all add: as_segment_bytes del: as_segment_serialize.simps)
  then show ?thesis by (simp add: as_path_serialize_def)
qed

lemma as_path_codec:
  assumes "list_all (seg_wf k) ss"
  shows "as_segments_parse k (concat (map (seg_bytes k) ss)) = Inr ss"
  using segments.parse_items [OF assms] as_path_bytes [OF assms] by (auto simp: as_path_serialize_def)

lemma as_path_16bit:
  "list_all (seg_wf 2) ss \<Longrightarrow> is_valid_16bit_as_path (concat (map (seg_bytes 2) ss)) = Inr True"
  by (induction ss) (simp_all add: seg_bytes_16bit)

section \<open>Values of attributes\<close>

text \<open>
  The attributes that come back as they were: a path in two-octet numbers (the parser guesses their
  width), an aggregator in the format that its class has, no attribute of an extension class, and an
  unknown attribute of a type that is unknown.
\<close>

fun value_wf :: "addrconv \<Rightarrow> bool \<Rightarrow> 'e attr_value \<Rightarrow> bool" where
  "value_wf A g (PaOrigin v) \<longleftrightarrow> in_range 1 v"
| "value_wf A g (PaAsPath four ss) \<longleftrightarrow> \<not> four \<and> list_all (seg_wf 2) ss"
| "value_wf A g (PaNextHop a) \<longleftrightarrow> canon_ip4 A a"
| "value_wf A g (PaMultiExitDisc v) \<longleftrightarrow> in_range 4 v"
| "value_wf A g (PaLocalPref v) \<longleftrightarrow> in_range 4 v"
| "value_wf A g PaAtomicAggregate \<longleftrightarrow> True"
| "value_wf A g (PaAggregator n a) \<longleftrightarrow> in_range (if g then 4 else 2) n \<and> canon_ip4 A a"
| "value_wf A g (PaCommunities cs) \<longleftrightarrow> list_all (in_range 4) cs"
| "value_wf A g (PaOriginatorId a) \<longleftrightarrow> canon_ip4 A a"
| "value_wf A g (PaClusterList as) \<longleftrightarrow> list_all (canon_ip4 A) as"
| "value_wf A g (PaExtComms cs) \<longleftrightarrow> list_all (ext_comm_wf A) cs"
| "value_wf A g (PaAs4Path ss) \<longleftrightarrow> list_all (seg_wf 4) ss"
| "value_wf A g (PaAs4Aggregator n a) \<longleftrightarrow> in_range 4 n \<and> canon_ip4 A a"
| "value_wf A g (PaExt t e) \<longleftrightarrow> False"
| "value_wf A g (PaUnknown t v) \<longleftrightarrow> in_range 1 t \<and> t \<notin> {1, 2, 3, 4, 5, 6, 7, 8, 9, 10, 16, 17, 18} \<and> t \<notin> set ext_types"

lemma comms_parse_item: "length x = 4 \<Longrightarrow> comms_parse (x @ rest) = be_int x # comms_parse rest"
  by (erule length_4E) simp

lemma comms_codec: "list_all (in_range 4) cs \<Longrightarrow> comms_parse (concat (map (be_bytes 4) cs)) = cs"
  by (induction cs) (simp_all add: comms_parse_item in_range_def)

lemma cluster_parse_item: "length x = 4 \<Longrightarrow> cluster_parse A (x @ rest) = ip4_to_text A x # cluster_parse A rest"
  by (erule length_4E) simp

lemma uint_codec: "in_range n v \<Longrightarrow> uint_parse n (be_bytes n v) = Inr v"
  using unpack_from_pack_bytes [of "[FU n]" "[VI v]" "[]"] by (simp add: uint_parse_def in_range_def)

lemma ip4_parse_text: "length b = 4 \<Longrightarrow> ip4_parse A b = Inr (ip4_to_text A b)"
  using unpack_from_pack_bytes [of "[FS 4]" "[VS b]" "[]"] by (simp add: ip4_parse_def)

lemma aggregator_codec:
  assumes "in_range n asn" "length b = 4"
  shows "pack [FU n, FS 4] [VI asn, VS b] = Inr (be_bytes n asn @ b)"
    "aggregator_parse A n (be_bytes n asn @ b) = Inr (asn, ip4_to_text A b)"
  using assms unpack_from_pack_bytes [of "[FU n, FS 4]" "[VI asn, VS b]" "[]"]
  by (simp_all add: aggregator_parse_def in_range_def)

lemma ext_comm_item:
  assumes "addrconv_ok A" "ext_comm_wf A c"
  shows "\<exists>b. ext_comm_serialize A c = Inr b \<and> (\<forall>rest cs.
    (g, ext_comms_parse A rest) = (g, Inr cs) \<longrightarrow> (g, ext_comms_parse A (b @ rest)) = (g, Inr (c # cs)))"
  using ext_item [OF assms] by auto

sublocale addr_converter \<subseteq> ext_comms: item_codec "ext_comm_serialize A" "\<lambda>bs g. (g, ext_comms_parse A bs)" "ext_comm_wf A" g
  for g
  by unfold_locales (simp, rule ext_comm_item [OF conv_ok])

context addr_converter
begin

lemma cluster_codec:
  "list_all (canon_ip4 A) as \<Longrightarrow>
   \<exists>bs. res_map (\<lambda>a. res_bind (ip4_to_bin A a) (\<lambda>b. pack [FS 4] [VS b])) as = Inr bs \<and>
     cluster_parse A (concat bs) = as"
proof (induction as)
  case (Cons a as)
  then obtain bs where bs: "res_map (\<lambda>a. res_bind (ip4_to_bin A a) (\<lambda>b. pack [FS 4] [VS b])) as = Inr bs"
    "cluster_parse A (concat bs) = as" by auto
  obtain b where b: "ip4_to_bin A a = Inr b" "length b = 4" "ip4_to_text A b = a"
    using canon_ip4E [OF conv_ok] Cons.prems by auto
  with bs show ?case by (intro exI [of _ "b # bs"]) (simp add: cluster_parse_item)
qed simp

lemma ip4_value:
  assumes "canon_ip4 A a"
  shows "\<exists>b. res_bind (ip4_to_bin A a) (\<lambda>b. pack [FS 4] [VS b]) = Inr b \<and> ip4_parse A b = Inr a"
proof -
  obtain b where "ip4_to_bin A a = Inr b" "length b = 4" "ip4_to_text A b = a" using canon_ip4E [OF conv_ok assms] .
  then show ?thesis by (intro exI [of _ b]) (simp add: ip4_parse_text)
qed

lemma aggregator_value:
  assumes "canon_ip4 A a" "in_range n asn"
  shows "\<exists>b. aggregator_bytes A n asn a = Inr b \<and> length b = n + 4 \<and> aggregator_parse A n b = Inr (asn, a)"
proof -
  obtain b where b: "ip4_to_bin A a = Inr b" "length b = 4" "ip4_to_text A b = a" using canon_ip4E [OF conv_ok assms(1)] .
  then show ?thesis using aggregator_codec [OF assms(2) b(2)]
    by (intro exI [of _ "be_bytes n asn @ b"]) (simp add: aggregator_bytes_def)
qed

lemma value_codec:
  assumes "value_wf A g v"
  shows "\<exists>b. attr_serialize_value A X g v = Inr b \<and> attr_parse_value A X (attr_type v) b g = (g, Inr v)"
proof (cases v)
  case (PaOrigin x)
  then show ?thesis using assms uint_codec [of 1 x]
    by (intro exI [of _ "be_bytes 1 x"]) (simp add: attr_parse_value_def in_range_def)
next
  case (PaAsPath four ss)
  then show ?thesis using assms as_path_bytes [of 2 ss] as_path_codec [of 2 ss] as_path_16bit [of ss]
    by (simp add: attr_parse_value_def as_path_parse_def)
next
  case (PaNextHop a)
  then show ?thesis using assms ip4_value [of a] by (auto simp: attr_parse_value_def)
next
  case (PaMultiExitDisc x)
  then show ?thesis using assms uint_codec [of 4 x]
    by (intro exI [of _ "be_bytes 4 x"]) (simp add: attr_parse_value_def in_range_def)
next
  case (PaLocalPref x)
  then show ?thesis using assms uint_codec [of 4 x]
    by (intro exI [of _ "be_bytes 4 x"]) (simp add: attr_parse_value_def in_range_def)
next
  case (PaAggregator n a)
  let ?k = "if g then 4 else 2 :: nat"
  have k: "(if 0xffff < n \<or> g then 4 else 2 :: nat) = ?k" using assms PaAggregator by (cases g) (simp_all add: in_range_def)
  obtain b where b: "aggregator_bytes A ?k n a = Inr b" "length b = ?k + 4" "aggregator_parse A ?k b = Inr (n, a)"
    using assms PaAggregator aggregator_value [of a ?k n] by auto
  then have "aggregator_read A b g = (g, Inr (n, a))" by (cases g) (simp_all add: aggregator_read_def)
  with b(1) show ?thesis
    by (intro exI [of _ b]) (simp add: PaAggregator k attr_parse_value_def st_bind_Inr)
next
  case (PaCommunities cs)
  then have "res_map (\<lambda>c. pack [fI] [VI c]) cs = Inr (map (be_bytes 4) cs)"
    using assms by (intro res_map_ints) (auto simp: list_all_iff in_range_def)
  then show ?thesis using assms comms_codec [of cs] by (simp add: PaCommunities attr_parse_value_def)
next
  case (PaOriginatorId a)
  then show ?thesis using assms ip4_value [of a] by (auto simp: attr_parse_value_def)
next
  case (PaClusterList as)
  then show ?thesis using assms cluster_codec [of as] by (auto simp: attr_parse_value_def)
next
  case (PaExtComms cs)
  then obtain bs where "res_map (ext_comm_serialize A) cs = Inr bs" "ext_comms_parse A (concat bs) = Inr cs"
    using assms ext_comms.parse_items [of cs] by auto
  then show ?thesis by (simp add: PaExtComms attr_parse_value_def)
next
  case (PaAs4Path ss)
  then show ?thesis using assms as_path_bytes [of 4 ss] as_path_codec [of 4 ss] by (simp add: attr_parse_value_def)
next
  case (PaAs4Aggregator n a)
  then show ?thesis using assms aggregator_value [of a 4 n] by (auto simp: attr_parse_value_def)
qed (use assms in \<open>simp_all add: attr_parse_value_def\<close>)

end

section \<open>Attributes\<close>

text \<open>An attribute whose flags are the ones that \<^verbatim>\<open>serialize\<close> would put anyway.\<close>

definition attr_wf :: "addrconv \<Rightarrow> 'e attr_ext \<Rightarrow> bool \<Rightarrow> 'e path_attr \<Rightarrow> bool" where
  "attr_wf A X g a \<longleftrightarrow> value_wf A g (pa_value a) \<and> in_range 1 (pa_flags a) \<and>
     (case attr_serialize_value A X g (pa_value a) of Inl e \<Rightarrow> False
      | Inr b \<Rightarrow> length b < 65536 \<and> fixed_flags a (length b) = pa_flags a)"

lemma or_16_and_16: "(f OR 16) AND 16 = (16 :: int)"
  by (rule bit_eqI) (auto simp: bit_simps)

lemma fixed_flags_short:
  assumes "fixed_flags a n AND 16 = 0"
  shows "n \<le> 255"
  using assms by (auto simp: fixed_flags_def Let_def or_16_and_16 split: if_splits)

lemma attr_type_range: "value_wf A g v \<Longrightarrow> 0 \<le> attr_type v \<and> attr_type v < 256"
  by (cases v) (simp_all add: in_range_def)

lemma attrs_parse_head:
  assumes "0 \<le> f" "f < 256" "0 \<le> t" "t < 256"
    "length v < 256 ^ k" "k = (if f AND 16 \<noteq> 0 then 2 else 1)"
  shows "attrs_parse A X (word_of_int f # word_of_int t # be_bytes k (int (length v)) @ v @ rest) =
    st_bind (attr_parse_value A X t v) (\<lambda>x. st_bind (attrs_parse A X rest) (\<lambda>as.
      st_ret (Inr (\<lparr>pa_flags = f, pa_value = x\<rparr> # as))))"
proof -
  let ?buf = "be_bytes k (int (length v)) @ v @ rest"
  have u: "uint (word_of_int f :: byte) = f" "uint (word_of_int t :: byte) = t" using assms(1-4) by (simp_all add: uint_byte_of_int)
  have "int (length v) < 256 ^ k" using assms(5) by (metis of_nat_less_iff of_nat_numeral of_nat_power)
  then have n: "be_int (take k ?buf) = int (length v)" by simp
  have "\<not> length ?buf < k" by simp
  then show ?thesis unfolding attrs_parse.simps(3) Let_def u assms(6) [symmetric] n nat_int by simp
qed

lemma attrs_parse_item:
  assumes "0 \<le> f" "f < 256" "0 \<le> t" "t < 256"
    "length v < 256 ^ k" "k = (if f AND 16 \<noteq> 0 then 2 else 1)"
    "attr_parse_value A X t v g = (g, Inr x)" "attrs_parse A X rest g = (g, Inr as)"
  shows "attrs_parse A X (word_of_int f # word_of_int t # be_bytes k (int (length v)) @ v @ rest) g =
    (g, Inr (\<lparr>pa_flags = f, pa_value = x\<rparr> # as))"
  unfolding attrs_parse_head [OF assms(1-6)] using assms(7,8) by (simp add: st_bind_Inr)

context addr_converter
begin

text \<open>The octets of an attribute: its flags, its type, its length and its value.\<close>

lemma attr_octets:
  assumes "attr_wf A X g a"
  obtains k v where "attr_serialize A X g a =
      Inr (word_of_int (pa_flags a) # word_of_int (attr_type (pa_value a)) # be_bytes k (int (length v)) @ v)"
    "attr_serialize_value A X g (pa_value a) = Inr v" "length v < 256 ^ k" "k = (if pa_flags a AND 16 \<noteq> 0 then 2 else 1)"
    "attr_parse_value A X (attr_type (pa_value a)) v g = (g, Inr (pa_value a))"
    "0 \<le> pa_flags a" "pa_flags a < 256" "0 \<le> attr_type (pa_value a)" "attr_type (pa_value a) < 256"
proof -
  have v: "value_wf A g (pa_value a)" and f: "0 \<le> pa_flags a" "pa_flags a < 256"
    using assms by (simp_all add: attr_wf_def in_range_def)
  obtain b where b: "attr_serialize_value A X g (pa_value a) = Inr b"
    "attr_parse_value A X (attr_type (pa_value a)) b g = (g, Inr (pa_value a))" using value_codec [OF v] by blast
  then have len: "length b < 65536" "fixed_flags a (length b) = pa_flags a" using assms by (simp_all add: attr_wf_def)
  have t: "0 \<le> attr_type (pa_value a)" "attr_type (pa_value a) < 256" using attr_type_range [OF v] by simp_all
  let ?k = "if pa_flags a AND 16 \<noteq> 0 then 2 else 1 :: nat"
  have k: "length b < 256 ^ ?k" using len fixed_flags_short [of a "length b"] by auto
  have "int (length b) < 256 ^ ?k" using k by (metis of_nat_less_iff of_nat_numeral of_nat_power)
  then have l: "pack [FU ?k] [VI (int (length b))] = Inr (be_bytes ?k (int (length b)))" by simp
  have "attr_serialize A X g a =
      Inr (word_of_int (pa_flags a) # word_of_int (attr_type (pa_value a)) # be_bytes ?k (int (length b)) @ b)"
    unfolding attr_serialize_def b(1) res_bind_Inr Let_def len(2) byte_header [OF f t] l by simp
  then show ?thesis using that [OF _ b(1) k refl b(2) f t] by blast
qed

lemma attr_item:
  assumes "attr_wf A X g a"
  shows "\<exists>b. attr_serialize A X g a = Inr b \<and>
    (\<forall>rest as. attrs_parse A X rest g = (g, Inr as) \<longrightarrow> attrs_parse A X (b @ rest) g = (g, Inr (a # as)))"
proof -
  obtain k v where b: "attr_serialize A X g a =
      Inr (word_of_int (pa_flags a) # word_of_int (attr_type (pa_value a)) # be_bytes k (int (length v)) @ v)" and
    v: "length v < 256 ^ k" "k = (if pa_flags a AND 16 \<noteq> 0 then 2 else 1)"
      "attr_parse_value A X (attr_type (pa_value a)) v g = (g, Inr (pa_value a))" and
    r: "0 \<le> pa_flags a" "pa_flags a < 256" "0 \<le> attr_type (pa_value a)" "attr_type (pa_value a) < 256"
    by (rule attr_octets [OF assms])
  show ?thesis unfolding b using attrs_parse_item [OF r v] by simp
qed

end

sublocale addr_converter \<subseteq> attrs: item_codec "attr_serialize A X g" "attrs_parse A X" "attr_wf A X g" g for X g
  by unfold_locales (simp, rule attr_item)

section \<open>Messages\<close>

definition open_wf :: "addrconv \<Rightarrow> bgp_open \<Rightarrow> bool" where
  "open_wf A m \<longleftrightarrow> bo_version m = 4 \<and> in_range 2 (bo_my_as m) \<and> in_range 2 (bo_hold_time m) \<and>
     canon_ip4 A (bo_identifier m) \<and> list_all opt_wf (bo_opt_param m)"

definition update_wf :: "addrconv \<Rightarrow> 'e attr_ext \<Rightarrow> bool \<Rightarrow> 'e wire_update \<Rightarrow> bool" where
  "update_wf A X g u \<longleftrightarrow> list_all (prefix_wf A) (wu_withdrawn u) \<and> list_all (attr_wf A X g) (wu_attrs u) \<and>
     list_all (prefix_wf A) (wu_nlri u)"

fun message_wf :: "addrconv \<Rightarrow> 'e attr_ext \<Rightarrow> bool \<Rightarrow> 'e bgp_message \<Rightarrow> bool" where
  "message_wf A X g (MOpen m) \<longleftrightarrow> open_wf A m"
| "message_wf A X g (MUpdate u) \<longleftrightarrow> update_wf A X g u"
| "message_wf A X g (MNotification c s d) \<longleftrightarrow> in_range 1 c \<and> in_range 1 s"
| "message_wf A X g MKeepAlive \<longleftrightarrow> True"
| "message_wf A X g (MRouteRefresh afi safi dem) \<longleftrightarrow> in_range 2 afi \<and> in_range 1 safi \<and> in_range 1 dem"

lemma pack_uint_Inr: "pack [FU n] [VI v] = Inr b \<longleftrightarrow> 0 \<le> v \<and> v < 256 ^ n \<and> b = be_bytes n v"
  by (auto simp: pack_uint_def)

lemma update_slices:
  assumes "length ws < 65536" "length as < 65536"
    and "buf = be_bytes 2 (int (length ws)) @ ws @ be_bytes 2 (int (length as)) @ as @ ns"
  shows "be_int (take 2 buf) = int (length ws)" "py_slice 2 (2 + length ws) buf = ws"
    "be_int (py_slice (2 + length ws) (2 + length ws + 2) buf) = int (length as)"
    "py_slice (2 + length ws + 2) (2 + length ws + 2 + length as) buf = as"
    "drop (2 + length ws + 2 + length as) buf = ns" "2 + length ws + 2 \<le> length buf"
  using assms by (simp_all add: py_slice_def)

context addr_converter
begin

lemma open_codec:
  assumes "open_wf A m" "open_serialize A m = Inr b"
  shows "open_parse A b = Inr m"
proof -
  have wf: "bo_version m = 4" "in_range 2 (bo_my_as m)" "in_range 2 (bo_hold_time m)"
    "canon_ip4 A (bo_identifier m)" "list_all opt_wf (bo_opt_param m)" using assms(1) by (simp_all add: open_wf_def)
  obtain os where os: "res_map opt_serialize (bo_opt_param m) = Inr os" "opts_parse (concat os) = Inr (bo_opt_param m)"
    using opts_codec [OF wf(5)] by blast
  obtain i where i: "ip4_to_bin A (bo_identifier m) = Inr i" "length i = 4" "ip4_to_text A i = bo_identifier m"
    using canon_ip4E [OF conv_ok wf(4)] .
  let ?fs = "[fB, fH, fH, FS 4, fB]"
  let ?vs = "[VI 4, VI (bo_my_as m), VI (bo_hold_time m), VS i, VI (int (length (concat os)))]"
  obtain h where h: "pack ?fs ?vs = Inr h" "b = h @ concat os"
    using assms(2) by (auto simp: open_serialize_def os(1) i(1) res_bind_eq_Inr simp del: pack.simps)
  then have "length (concat os) < 256" by (auto simp: res_bind_eq_Inr pack_uint_def split: if_splits)
  then have f: "fits ?fs ?vs" using wf i(2) by (simp add: in_range_def)
  have hb: "h = pack_bytes ?fs ?vs" using h(1) pack_fits [OF f] by simp
  then have "length h = 10" using length_pack_bytes [OF f] by simp
  then have "take (nat (int (length (concat os)))) (drop 10 b) = concat os" using h(2) by simp
  moreover have "unpack_from ?fs b = Inr ?vs" unfolding h(2) hb by (rule unpack_from_pack_bytes [OF f])
  ultimately show ?thesis using os(2) i(3) wf(1) by (simp add: open_parse_def)
qed

lemma update_octets:
  assumes "update_wf A X g u" "update_serialize A X g u = Inr b"
  obtains bs where "res_map (attr_serialize A X g) (wu_attrs u) = Inr bs"
    "update_parse A X b = st_bind (attrs_parse A X (concat bs)) (\<lambda>as.
      st_ret (Inr \<lparr>wu_withdrawn = wu_withdrawn u, wu_attrs = as, wu_nlri = wu_nlri u\<rparr>))"
proof -
  obtain ws where ws: "prefixes_serialize A (wu_withdrawn u) = Inr ws" "prefixes_parse A ws = Inr (wu_withdrawn u)"
    using prefixes_codec assms(1) by (auto simp: update_wf_def)
  obtain ns where ns: "prefixes_serialize A (wu_nlri u) = Inr ns" "prefixes_parse A ns = Inr (wu_nlri u)"
    using prefixes_codec assms(1) by (auto simp: update_wf_def)
  obtain bs where bs: "res_map (attr_serialize A X g) (wu_attrs u) = Inr bs"
    using attrs.parse_items [of X g "wu_attrs u"] assms(1) by (auto simp: update_wf_def)
  have l: "int (length ws) < 256 ^ 2" "int (length (concat bs)) < 256 ^ 2"
    and b: "b = be_bytes 2 (int (length ws)) @ ws @ be_bytes 2 (int (length (concat bs))) @ concat bs @ ns"
    using assms(2) unfolding update_serialize_def ws(1) bs(1) ns(1) res_bind_Inr Let_def
    by (auto simp only: res_bind_eq_Inr pack_uint_Inr sum.inject)
  from l have l: "length ws < 65536" "length (concat bs) < 65536" by simp_all
  note sl = update_slices [OF l b]
  have lb: "\<not> (length b < 2 \<or> length b < 2 + length ws + 2)" using sl(6) by linarith
  have "update_parse A X b = st_bind (attrs_parse A X (concat bs)) (\<lambda>as.
      st_ret (Inr \<lparr>wu_withdrawn = wu_withdrawn u, wu_attrs = as, wu_nlri = wu_nlri u\<rparr>))"
    unfolding update_parse_def Let_def sl(1) nat_int sl(2-5) if_not_P [OF lb] ws(2) ns(2) st_bind_ret(1) ..
  then show ?thesis using that bs by blast
qed

lemma update_codec:
  assumes "update_wf A X g u" "update_serialize A X g u = Inr b"
  shows "update_parse A X b g = (g, Inr u)"
proof -
  obtain bs where bs: "res_map (attr_serialize A X g) (wu_attrs u) = Inr bs"
    "update_parse A X b = st_bind (attrs_parse A X (concat bs)) (\<lambda>as.
      st_ret (Inr \<lparr>wu_withdrawn = wu_withdrawn u, wu_attrs = as, wu_nlri = wu_nlri u\<rparr>))"
    by (rule update_octets [OF assms])
  have "attrs_parse A X (concat bs) g = (g, Inr (wu_attrs u))"
    using attrs.parse_items [of X g "wu_attrs u"] assms(1) bs(1) by (auto simp: update_wf_def)
  then show ?thesis unfolding bs(2) by (simp add: st_bind_Inr)
qed

lemma body_codec:
  assumes "message_wf A X g m" "body_serialize A X g m = Inr b"
  shows "body_parse A X (msg_type m) b g = (g, Inr m)"
proof (cases m)
  case (MOpen x)
  then show ?thesis using assms open_codec [of x b] by (simp add: body_parse_def)
next
  case (MUpdate u)
  then show ?thesis using assms update_codec [of X g u b] by (simp add: body_parse_def st_bind_Inr)
next
  case (MNotification c s d)
  then have f: "fits [fB, fB] [VI c, VI s]" using assms(1) by (simp add: in_range_def)
  then have "b = pack_bytes [fB, fB] [VI c, VI s] @ d" using assms(2) pack_fits [OF f] by (simp add: MNotification)
  then show ?thesis using unpack_from_pack_bytes [OF f, of d] by (simp add: MNotification body_parse_def)
next
  case MKeepAlive
  then show ?thesis by (simp add: body_parse_def)
next
  case (MRouteRefresh afi safi dem)
  then have f: "fits [fH, fB, fB] [VI afi, VI dem, VI safi]" using assms(1) by (simp add: in_range_def)
  then have "b = pack_bytes [fH, fB, fB] [VI afi, VI dem, VI safi]" using assms(2) pack_fits [OF f] by (simp add: MRouteRefresh)
  then show ?thesis using unpack_from_pack_bytes [OF f, of "[]"] by (simp add: MRouteRefresh body_parse_def)
qed

end

lemma msg_type_range: "0 < msg_type m \<and> msg_type m < 6"
  by (cases m) simp_all

lemma message_header:
  assumes "message_serialize A X g m = Inr bs"
  obtains b where "body_serialize A X g m = Inr b" "bs = MARKER @ be_bytes 2 (int (19 + length b)) @ [word_of_int (msg_type m)] @ b"
    "19 + length b < 65536"
proof -
  obtain b h where b: "body_serialize A X g m = Inr b" and
    h: "pack [FS 16, fH, fB] [VS MARKER, VI (int (BGP_HDR_LEN + length b)), VI (msg_type m)] = Inr h" and bs: "bs = h @ b"
    using assms unfolding message_serialize_def res_bind_eq_Inr by auto
  have "19 + length b < 65536" using h by (auto simp: res_bind_eq_Inr pack_uint_def BGP_HDR_LEN_def split: if_splits)
  moreover have "length MARKER = 16" by (simp add: MARKER_def)
  ultimately have "bs = MARKER @ be_bytes 2 (int (19 + length b)) @ [word_of_int (msg_type m)] @ b"
    using h bs msg_type_range [of m] by (simp add: BGP_HDR_LEN_def)
  then show ?thesis using that b \<open>19 + length b < 65536\<close> by blast
qed

lemma header_fields:
  assumes "19 + length b < 65536" "0 \<le> t" "t < 256"
    "bs = MARKER @ be_bytes 2 (int (19 + length b)) @ [word_of_int t] @ b"
  shows "header_len (bs @ rest) = length bs" "header_type (bs @ rest) = t" "take 16 (bs @ rest) = MARKER"
    "py_slice 19 (length bs) (bs @ rest) = b" "19 \<le> length bs" "length bs = 19 + length b"
proof -
  have m: "length MARKER = 16" by (simp add: MARKER_def)
  show l: "length bs = 19 + length b" using m by (simp add: assms(4))
  have "py_slice 16 18 (bs @ rest) = be_bytes 2 (int (19 + length b))" using m by (simp add: assms(4) py_slice_def)
  then show "header_len (bs @ rest) = length bs" using assms(1) l unfolding header_len_def by simp
  have "py_slice 18 19 (bs @ rest) = [word_of_int t]" using m by (simp add: assms(4) py_slice_def)
  then show "header_type (bs @ rest) = t" using assms(2,3) by (simp add: header_type_def be_int_1 uint_byte_of_int)
  show "take 16 (bs @ rest) = MARKER" using m by (simp add: assms(4))
  show "py_slice 19 (length bs) (bs @ rest) = b" unfolding l using m by (simp add: assms(4) py_slice_def)
  show "19 \<le> length bs" using l by simp
qed

lemma message_codec:
  assumes "addrconv_ok A" "message_wf A X g m" "message_serialize A X g m = Inr bs"
  shows "message_parse A X (bs @ rest) g = (g, Inr (m, rest))"
proof -
  obtain b where b: "body_serialize A X g m = Inr b" "bs = MARKER @ be_bytes 2 (int (19 + length b)) @ [word_of_int (msg_type m)] @ b"
    "19 + length b < 65536" using message_header [OF assms(3)] .
  have t: "0 \<le> msg_type m" "msg_type m < 256" using msg_type_range [of m] by simp_all
  note hf = header_fields [OF b(3) t b(2)]
  have "body_parse A X (msg_type m) b g = (g, Inr m)"
    by (rule addr_converter.body_codec [OF addr_converter.intro [OF assms(1)] assms(2) b(1)])
  then show ?thesis using hf(5) unfolding message_parse_def BGP_HDR_LEN_def hf(1,2,4) by (simp add: st_bind_Inr)
qed

section \<open>An aggregator for another class state\<close>

text \<open>What was serialized while the class had the two-octet format, parsed after it has the other.\<close>

fun is_aggregator :: "'e attr_value \<Rightarrow> bool" where
  "is_aggregator (PaAggregator n a) \<longleftrightarrow> True" | "is_aggregator _ \<longleftrightarrow> False"

lemma parse_value_class:
  "\<not> is_aggregator v \<Longrightarrow> value_wf A g v \<Longrightarrow> attr_parse_value A X (attr_type v) b g = (g, Inr v) \<Longrightarrow>
    attr_parse_value A X (attr_type v) b g' = (g', Inr v)"
  by (cases v) (auto simp: attr_parse_value_def)

context addr_converter
begin

lemma aggregator_stale:
  assumes "value_wf A False v" "is_aggregator v" "attr_serialize_value A X False v = Inr b"
  shows "attr_parse_value A X (attr_type v) b True = (True, Inl StructError)"
proof -
  obtain n a where v: "v = PaAggregator n a" using assms(2) by (cases v) simp_all
  have w: "in_range 2 n" "canon_ip4 A a" using assms(1) by (simp_all add: v)
  then have "\<not> 65535 < n" by (simp add: in_range_def)
  then have b: "aggregator_bytes A 2 n a = Inr b" using assms(3) by (simp add: v)
  then have "length b = 6" using aggregator_value [OF w(2,1)] by auto
  then have "aggregator_parse A 4 b = Inl StructError" by (simp add: aggregator_parse_def unpack_from_def)
  then show ?thesis by (simp add: v attr_parse_value_def aggregator_read_def st_bind_Inl)
qed

lemma attrs_stale:
  "list_all (attr_wf A X False) as \<Longrightarrow> list_ex (\<lambda>a. is_aggregator (pa_value a)) as \<Longrightarrow>
    res_map (attr_serialize A X False) as = Inr bs \<Longrightarrow> attrs_parse A X (concat bs) True = (True, Inl StructError)"
proof (induction as arbitrary: bs)
  case (Cons a as)
  from Cons.prems have wf: "attr_wf A X False a" by simp
  obtain k v where b: "attr_serialize A X False a =
      Inr (word_of_int (pa_flags a) # word_of_int (attr_type (pa_value a)) # be_bytes k (int (length v)) @ v)"
    "attr_serialize_value A X False (pa_value a) = Inr v" and
    v: "length v < 256 ^ k" "k = (if pa_flags a AND 16 \<noteq> 0 then 2 else 1)" and
    p: "attr_parse_value A X (attr_type (pa_value a)) v False = (False, Inr (pa_value a))" and
    r: "0 \<le> pa_flags a" "pa_flags a < 256" "0 \<le> attr_type (pa_value a)" "attr_type (pa_value a) < 256"
    by (rule attr_octets [OF wf])
  obtain bs' where bs': "res_map (attr_serialize A X False) as = Inr bs'"
    "concat bs = word_of_int (pa_flags a) # word_of_int (attr_type (pa_value a)) # be_bytes k (int (length v)) @ v @ concat bs'"
    using Cons.prems(3) b(1) by (auto simp: res_bind_eq_Inr)
  show ?case
  proof (cases "is_aggregator (pa_value a)")
    case True
    then have "attr_parse_value A X (attr_type (pa_value a)) v True = (True, Inl StructError)"
      using wf b(2) by (intro aggregator_stale) (simp_all add: attr_wf_def)
    then show ?thesis unfolding bs'(2) attrs_parse_head [OF r v] by (simp add: st_bind_Inl)
  next
    case False
    then have "attr_parse_value A X (attr_type (pa_value a)) v True = (True, Inr (pa_value a))"
      using parse_value_class [OF False _ p] wf by (simp add: attr_wf_def)
    moreover have "attrs_parse A X (concat bs') True = (True, Inl StructError)"
      using Cons.prems False bs'(1) by (intro Cons.IH) simp_all
    ultimately show ?thesis unfolding bs'(2) attrs_parse_head [OF r v] by (simp add: st_bind_def)
  qed
qed simp

lemma update_stale:
  assumes "update_wf A X False u" "update_serialize A X False u = Inr b" "list_ex (\<lambda>a. is_aggregator (pa_value a)) (wu_attrs u)"
  shows "update_parse A X b True = (True, Inl StructError)"
proof -
  obtain bs where bs: "res_map (attr_serialize A X False) (wu_attrs u) = Inr bs"
    "update_parse A X b = st_bind (attrs_parse A X (concat bs)) (\<lambda>as.
      st_ret (Inr \<lparr>wu_withdrawn = wu_withdrawn u, wu_attrs = as, wu_nlri = wu_nlri u\<rparr>))"
    by (rule update_octets [OF assms(1,2)])
  then have "attrs_parse A X (concat bs) True = (True, Inl StructError)"
    using assms(1,3) by (intro attrs_stale) (simp_all add: update_wf_def)
  then show ?thesis unfolding bs(2) by (simp add: st_bind_Inl)
qed

end

lemma message_stale:
  assumes "addrconv_ok A" "update_wf A X False u" "message_serialize A X False (MUpdate u) = Inr bs"
    "list_ex (\<lambda>a. is_aggregator (pa_value a)) (wu_attrs u)"
  shows "message_parse A X (bs @ rest) True = (True, Inl StructError)"
proof -
  obtain b where b: "body_serialize A X False (MUpdate u) = Inr b" "bs = MARKER @ be_bytes 2 (int (19 + length b)) @ [word_of_int (msg_type (MUpdate u))] @ b"
    "19 + length b < 65536" using message_header [OF assms(3)] .
  note hf = header_fields [OF b(3) _ _ b(2)]
  have "update_parse A X b True = (True, Inl StructError)"
    using addr_converter.update_stale [OF addr_converter.intro [OF assms(1)] assms(2) _ assms(4)] b(1) by simp
  then show ?thesis using hf(1,2,4,5) unfolding message_parse_def BGP_HDR_LEN_def by (simp add: body_parse_def st_bind_Inl)
qed

end
