(* ===== verification/Bgp_Session.thy ===== *)
theory Bgp_Session
  imports Bgp_Messages
begin

text \<open>
  The session with a neighbour: the connections (\<^verbatim>\<open>BgpProtocol\<close> in \<^verbatim>\<open>speaker.py\<close>, an \<^verbatim>\<open>Activity\<close> of
  \<^verbatim>\<open>base.py\<close>), the neighbour's state machine (\<^verbatim>\<open>PeerState\<close> and the session half of \<^verbatim>\<open>Peer\<close> in \<^verbatim>\<open>peer.py\<close>),
  and the acceptance of connections (\<^verbatim>\<open>start_protocol\<close> in \<^verbatim>\<open>core.py\<close>). Several connections to one neighbour
  may be open at once; one of them at most is bound.
\<close>

section \<open>State\<close>

datatype fsm = Idle | Connect | Active | OpenSent | OpenConfirm | Established

text \<open>
  A connection. \<open>cn_open\<close> is the socket's state, \<open>cn_started\<close> and \<open>cn_running\<close> say that the activity is
  started and that its receive loop runs, \<open>cn_peer\<close> that \<^verbatim>\<open>_peer\<close> is set; a timer is its interval.
\<close>

record bgp_conn =
  cn_state :: fsm
  cn_reactive :: bool
  cn_remote :: string
  cn_local :: string
  cn_spawned :: bool
  cn_started :: bool
  cn_running :: bool
  cn_open :: bool
  cn_peer :: bool
  cn_bound :: bool
  cn_holdtime :: int
  cn_keepalive :: "int option"
  cn_expiry :: "int option"
  cn_cap4 :: bool
  cn_sent_open :: "bgp_open option"
  cn_recv_open :: "bgp_open option"

text \<open>What is seen from outside: octets on a connection and the signals of \<^verbatim>\<open>signals/emit.py\<close>.\<close>

datatype bgp_event =
    EvSent nat bytes
  | EvClosed nat
  | EvAdjUp
  | EvAdjDown
  | EvError int int
  | EvNotificationSent
  | EvNotificationReceived int int

text \<open>
  One neighbour with its connections. \<open>sp_core\<close> is the state that the UPDATE handling and the tables
  of \<^verbatim>\<open>Bgp_Core\<close> keep, \<open>sp_retry\<close> is \<^verbatim>\<open>_connect_retry_event\<close>, \<open>sp_connecting\<close> says that the connect loop waits
  for \<^verbatim>\<open>_connect_tcp\<close>.
\<close>

record 'c bgp_speaker =
  sp_state :: fsm
  sp_protocol :: "nat option"
  sp_retry :: bool
  sp_enabled :: bool
  sp_connecting :: bool
  sp_transitions :: int
  sp_conns :: "nat \<Rightarrow> bgp_conn"
  sp_next :: nat
  sp_core :: 'c
  sp_log :: "bgp_event list"

datatype connect_mode = ModeActive | ModePassive | ModeBoth

record peer_conf =
  pc_local_as :: int
  pc_remote_as :: int
  pc_router_id :: string
  pc_hold_time :: int
  pc_opts :: "bgp_opt list"
  pc_mode :: connect_mode

text \<open>The rest of the peer, as the session calls it: \<^verbatim>\<open>Bgp_Core\<close> gives an instance.\<close>

record ('c, 'e) peer_ops =
  po_state :: "fsm \<Rightarrow> 'c \<Rightarrow> 'c"
  po_init :: "'c \<Rightarrow> 'c \<times> unit res"
  po_update :: "'e wire_update \<Rightarrow> 'c \<Rightarrow> 'c \<times> unit res"
  po_refresh :: "int \<Rightarrow> int \<Rightarrow> int \<Rightarrow> 'c \<Rightarrow> 'c \<times> unit res"
  po_down :: "'c \<Rightarrow> 'c"

definition upd_conn :: "nat \<Rightarrow> (bgp_conn \<Rightarrow> bgp_conn) \<Rightarrow> 'c bgp_speaker \<Rightarrow> 'c bgp_speaker" where
  "upd_conn i f w = w\<lparr>sp_conns := (sp_conns w)(i := f (sp_conns w i))\<rparr>"

definition report :: "bgp_event \<Rightarrow> 'c bgp_speaker \<Rightarrow> 'c bgp_speaker" where
  "report e w = w\<lparr>sp_log := sp_log w @ [e]\<rparr>"

section \<open>Exceptions that are notified\<close>

text \<open>The subclasses of \<^verbatim>\<open>BgpExc\<close> with \<^verbatim>\<open>CODE\<close> and \<^verbatim>\<open>SUB_CODE\<close>; \<^verbatim>\<open>BadNotification\<close> has \<^verbatim>\<open>SEND_ERROR\<close> false.\<close>

definition bgp_exc_codes :: "(string \<times> int \<times> int) list" where
  "bgp_exc_codes = [
    (''NotSync'', 1, 1), (''BadLen'', 1, 2), (''BadMsg'', 1, 3),
    (''MalformedOptionalParam'', 2, 0), (''UnsupportedVersion'', 2, 1), (''BadPeerAs'', 2, 2), (''BadBgpId'', 2, 3),
    (''UnsupportedOptParam'', 2, 4), (''AuthFailure'', 2, 5), (''UnacceptableHoldTime'', 2, 6),
    (''MalformedAttrList'', 3, 1), (''UnRegWellKnowAttr'', 3, 2), (''MissingWellKnown'', 3, 3), (''AttrFlagError'', 3, 4),
    (''AttrLenError'', 3, 5), (''InvalidOriginError'', 3, 6), (''RoutingLoop'', 3, 7), (''InvalidNextHop'', 3, 8),
    (''OptAttrError'', 3, 9), (''InvalidNetworkField'', 3, 10), (''MalformedAsPath'', 3, 11),
    (''HoldTimerExpired'', 4, 1), (''FiniteStateMachineError'', 5, 1),
    (''MaxPrefixReached'', 6, 1), (''AdminShutdown'', 6, 2), (''PeerDeConfig'', 6, 3), (''AdminReset'', 6, 4),
    (''ConnRejected'', 6, 5), (''OtherConfChange'', 6, 6), (''CollisionResolution'', 6, 7), (''OutOfResource'', 6, 8)]"

fun exc_codes :: "py_error \<Rightarrow> (int \<times> int) option" where
  "exc_codes (RyuError n) = map_of bgp_exc_codes n"
| "exc_codes _ = None"

fun is_bad_notification :: "py_error \<Rightarrow> bool" where
  "is_bad_notification (RyuError n) \<longleftrightarrow> n = ''BadNotification''"
| "is_bad_notification _ \<longleftrightarrow> False"

section \<open>The neighbour's state\<close>

text \<open>The setter of \<^verbatim>\<open>PeerState.bgp_state\<close>.\<close>

definition set_bgp_state :: "('c, 'e) peer_ops \<Rightarrow> fsm \<Rightarrow> 'c bgp_speaker \<Rightarrow> 'c bgp_speaker" where
  "set_bgp_state P new w =
     (let old = sp_state w in
      if old = new then w
      else
        let w = w\<lparr>sp_state := new, sp_core := po_state P new (sp_core w)\<rparr> in
        if new = Established then report EvAdjUp (w\<lparr>sp_transitions := sp_transitions w + 1\<rparr>)
        else if old = Established then report EvAdjDown w
        else w)"

text \<open>\<^verbatim>\<open>Activity.stop\<close>: the timers and the socket. The loop that \<^verbatim>\<open>_run\<close> is in is not interrupted.\<close>

definition conn_stop :: "nat \<Rightarrow> 'c bgp_speaker \<Rightarrow> 'c bgp_speaker \<times> unit res" where
  "conn_stop i w =
     (if \<not> cn_started (sp_conns w i) then (w, Inl (RyuError ''ActivityException''))
      else (report (EvClosed i) (upd_conn i (\<lambda>c. c\<lparr>cn_started := False, cn_open := False, cn_keepalive := None, cn_expiry := None\<rparr>) w),
            Inr ()))"

text \<open>\<^verbatim>\<open>Peer.connection_lost\<close>\<close>

definition peer_connection_lost :: "('c, 'e) peer_ops \<Rightarrow> 'c bgp_speaker \<Rightarrow> 'c bgp_speaker \<times> unit res" where
  "peer_connection_lost P w =
     (let w = set_bgp_state P Idle w in
      case sp_protocol w of None \<Rightarrow> (w, Inr ())
      | Some j \<Rightarrow>
          st_bind (conn_stop j) (\<lambda>_ w.
          (w\<lparr>sp_protocol := None, sp_core := po_down P (sp_core w), sp_retry := (sp_retry w \<or> sp_enabled w)\<rparr>, Inr ())) w)"

text \<open>\<^verbatim>\<open>BgpProtocol.connection_lost\<close>\<close>

definition connection_lost :: "('c, 'e) peer_ops \<Rightarrow> nat \<Rightarrow> 'c bgp_speaker \<Rightarrow> 'c bgp_speaker \<times> unit res" where
  "connection_lost P i w =
     (if cn_peer (sp_conns w i) then
        st_bind (if cn_bound (sp_conns w i) \<or> sp_state w = OpenSent then peer_connection_lost P else st_ret (Inr ()))
          (\<lambda>_ w. (upd_conn i (\<lambda>c. c\<lparr>cn_peer := False\<rparr>) w, Inr ())) w
      else (w, Inr ()))"

section \<open>Sending\<close>

text \<open>A session sends OPEN, KEEPALIVE and NOTIFICATION: no path attributes.\<close>

definition no_ext :: "unit attr_ext" where
  "no_ext = \<lparr>ex_parse = (\<lambda>t b. Inl StructError), ex_serialize = (\<lambda>t e. Inl StructError)\<rparr>"

definition session_bytes :: "addrconv \<Rightarrow> unit bgp_message \<Rightarrow> bytes res" where
  "session_bytes A m = message_serialize A no_ext False m"

definition send_with_lock :: "addrconv \<Rightarrow> ('c, 'e) peer_ops \<Rightarrow> nat \<Rightarrow> unit bgp_message \<Rightarrow>
    'c bgp_speaker \<Rightarrow> 'c bgp_speaker \<times> unit res" where
  "send_with_lock A P i m w =
     (case session_bytes A m of Inl e \<Rightarrow> (w, Inl e)
      | Inr b \<Rightarrow> if cn_open (sp_conns w i) then (report (EvSent i b) w, Inr ()) else connection_lost P i w)"

definition conn_send :: "addrconv \<Rightarrow> ('c, 'e) peer_ops \<Rightarrow> nat \<Rightarrow> unit bgp_message \<Rightarrow>
    'c bgp_speaker \<Rightarrow> 'c bgp_speaker \<times> unit res" where
  "conn_send A P i m w =
     (if \<not> cn_started (sp_conns w i) then (w, Inl (RyuError ''BgpProtocolException''))
      else st_bind (send_with_lock A P i m) (\<lambda>_ w.
        ((if msg_type m = 3 then report EvNotificationSent w else w), Inr ())) w)"

definition send_notification :: "addrconv \<Rightarrow> ('c, 'e) peer_ops \<Rightarrow> nat \<Rightarrow> int \<Rightarrow> int \<Rightarrow>
    'c bgp_speaker \<Rightarrow> 'c bgp_speaker \<times> unit res" where
  "send_notification A P i code subcode =
     st_bind (send_with_lock A P i (MNotification code subcode [])) (\<lambda>_ w.
     (report (EvClosed i) (upd_conn i (\<lambda>c. c\<lparr>cn_open := False\<rparr>) (report (EvError code subcode) w)), Inr ()))"

section \<open>OPEN\<close>

definition create_open_msg :: "peer_conf \<Rightarrow> bgp_open" where
  "create_open_msg C =
     \<lparr>bo_version = 4, bo_my_as = (if is_valid_old_asn (pc_local_as C) then pc_local_as C else AS_TRANS),
      bo_hold_time = pc_hold_time C, bo_identifier = pc_router_id C, bo_opt_param = pc_opts C\<rparr>"

text \<open>\<^verbatim>\<open>opt_param_cap_map\<close>: the last capability of a code counts.\<close>

fun opt_cap :: "bgp_opt \<Rightarrow> bgp_cap list" where
  "opt_cap (OptCapability c) = [c]"
| "opt_cap (OptUnknown t v) = []"

definition opt_param_cap :: "bgp_open \<Rightarrow> int \<Rightarrow> bgp_cap option" where
  "opt_param_cap m code =
     (case filter (\<lambda>c. cap_code c = code) (concat (map opt_cap (bo_opt_param m))) of [] \<Rightarrow> None | cs \<Rightarrow> Some (last cs))"

definition open_remote_as :: "bgp_open \<Rightarrow> int res" where
  "open_remote_as m =
     (case opt_param_cap m 65 of
        Some (CapFourOctetAs n) \<Rightarrow> Inr n
      | Some _ \<Rightarrow> Inl AttributeError
      | None \<Rightarrow> if bo_my_as m = AS_TRANS then Inl (RyuError ''BadPeerAs'') else Inr (bo_my_as m))"

definition validate_open_msg :: "peer_conf \<Rightarrow> nat \<Rightarrow> bgp_open \<Rightarrow> 'c bgp_speaker \<Rightarrow> 'c bgp_speaker \<times> unit res" where
  "validate_open_msg C i m w =
     (case open_remote_as m of Inl e \<Rightarrow> (w, Inl e)
      | Inr remote_as \<Rightarrow>
          (upd_conn i (\<lambda>c. c\<lparr>cn_cap4 := (opt_param_cap m 65 \<noteq> None)\<rparr>) w,
           if \<not> cn_peer (sp_conns w i) then Inl AttributeError
           else if remote_as \<noteq> pc_remote_as C then Inl (RyuError ''BadPeerAs'')
           else if bo_version m \<noteq> 4 then Inl (RyuError ''UnsupportedVersion'')
           else Inr ()))"

section \<open>Binding a connection\<close>

definition is_colliding :: "bgp_conn \<Rightarrow> bgp_conn \<Rightarrow> bool" where
  "is_colliding c d \<longleftrightarrow> cn_remote c = cn_remote d \<and> cn_local c = cn_local d"

definition is_local_router_id_greater :: "addrconv \<Rightarrow> bgp_conn \<Rightarrow> bool res" where
  "is_local_router_id_greater A c =
     (if cn_state c \<noteq> OpenConfirm then Inl (RyuError ''BgpProtocolException'')
      else case (cn_recv_open c, cn_sent_open c) of
        (Some r, Some s) \<Rightarrow>
          res_bind (from_inet_ptoi A (bo_identifier s)) (\<lambda>l.
          res_bind (from_inet_ptoi A (bo_identifier r)) (\<lambda>rid. opt_int_lt rid l))
      | _ \<Rightarrow> Inl AttributeError)"

definition set_protocol :: "nat \<Rightarrow> 'c bgp_speaker \<Rightarrow> 'c bgp_speaker" where
  "set_protocol i w = w\<lparr>sp_protocol := Some i, sp_retry := False\<rparr>"

definition send_collision_err_and_stop :: "addrconv \<Rightarrow> ('c, 'e) peer_ops \<Rightarrow> nat \<Rightarrow>
    'c bgp_speaker \<Rightarrow> 'c bgp_speaker \<times> unit res" where
  "send_collision_err_and_stop A P i w =
     st_bind (send_notification A P i 6 7) (\<lambda>_. conn_stop i) (report (EvError 6 7) w)"

definition bind_protocol :: "addrconv \<Rightarrow> ('c, 'e) peer_ops \<Rightarrow> nat \<Rightarrow> 'c bgp_speaker \<Rightarrow> 'c bgp_speaker \<times> bool res" where
  "bind_protocol A P i w =
     (let c = sp_conns w i in
      if cn_state c \<noteq> OpenConfirm then (w, Inl ValueError)
      else case sp_protocol w of
        None \<Rightarrow> (set_protocol i w, Inr True)
      | Some j \<Rightarrow>
          if sp_state w \<noteq> Idle then st_bind (send_collision_err_and_stop A P i) (\<lambda>_ w. (w, Inr False)) w
          else
            let d = sp_conns w j in
            if \<not> is_colliding c d \<or> cn_reactive c = cn_reactive d then (w, Inl AssertionError)
            else (case is_local_router_id_greater A c of Inl e \<Rightarrow> (w, Inl e)
              | Inr local_greater \<Rightarrow>
                  let winner = (if local_greater = cn_reactive c then j else i); w = set_protocol winner w in
                  if winner \<noteq> i then (w, Inr False)
                  else st_bind (send_collision_err_and_stop A P j) (\<lambda>_ w. (w, Inr True)) w))"

section \<open>Messages\<close>

definition core_act :: "('c \<Rightarrow> 'c \<times> unit res) \<Rightarrow> 'c bgp_speaker \<Rightarrow> 'c bgp_speaker \<times> unit res" where
  "core_act f w = (case f (sp_core w) of (c, r) \<Rightarrow> (w\<lparr>sp_core := c\<rparr>, r))"

text \<open>\<^verbatim>\<open>Peer.handle_msg\<close>\<close>

fun peer_handle_msg :: "('c, 'e) peer_ops \<Rightarrow> 'e bgp_message \<Rightarrow> 'c bgp_speaker \<Rightarrow> 'c bgp_speaker \<times> unit res" where
  "peer_handle_msg P MKeepAlive w =
     (if sp_state w = OpenConfirm then core_act (po_init P) (set_bgp_state P Established w) else (w, Inr ()))"
| "peer_handle_msg P (MUpdate u) w =
     (if sp_state w \<noteq> Established then (w, Inl AssertionError) else core_act (po_update P u) w)"
| "peer_handle_msg P (MRouteRefresh afi safi dem) w =
     (if sp_state w \<noteq> Established then (w, Inl AssertionError) else core_act (po_refresh P afi safi dem) w)"
| "peer_handle_msg P m w = (w, Inl ValueError)"

definition start_timers :: "nat \<Rightarrow> int \<Rightarrow> 'c bgp_speaker \<Rightarrow> 'c bgp_speaker" where
  "start_timers i peer_holdtime =
     upd_conn i (\<lambda>c. let t = min (cn_holdtime c) peer_holdtime in
       c\<lparr>cn_holdtime := t, cn_keepalive := Some (t div 3), cn_expiry := Some t\<rparr>)"

definition handle_open :: "addrconv \<Rightarrow> ('c, 'e) peer_ops \<Rightarrow> peer_conf \<Rightarrow> nat \<Rightarrow> bgp_open \<Rightarrow>
    'c bgp_speaker \<Rightarrow> 'c bgp_speaker \<times> unit res" where
  "handle_open A P C i m w =
     (if cn_state (sp_conns w i) \<noteq> OpenSent then (w, Inl (RyuError ''FiniteStateMachineError''))
      else
        st_bind (validate_open_msg C i m) (\<lambda>_ w.
        st_bind (bind_protocol A P i) (\<lambda>bound w.
        let w = upd_conn i (\<lambda>c. c\<lparr>cn_bound := bound\<rparr>) w in
        if \<not> bound then (w, Inl (RyuError ''CollisionResolution''))
        else if bo_hold_time m = 0 then (w, Inr ())
        else conn_send A P i MKeepAlive (start_timers i (bo_hold_time m) w))
        (set_bgp_state P OpenConfirm
          (upd_conn i (\<lambda>c. c\<lparr>cn_recv_open := Some m, cn_state := OpenConfirm\<rparr>) w))) w)"

text \<open>
  \<^verbatim>\<open>_handle_msg\<close>. A KEEPALIVE or an UPDATE restarts the hold timer, which keeps its interval. Whether the
  connection has seen an OPEN is asked of an OPEN only.
\<close>

fun handle_msg :: "addrconv \<Rightarrow> ('c, 'e) peer_ops \<Rightarrow> peer_conf \<Rightarrow> nat \<Rightarrow> 'e bgp_message \<Rightarrow>
    'c bgp_speaker \<Rightarrow> 'c bgp_speaker \<times> unit res" where
  "handle_msg A P C i (MOpen m) w = handle_open A P C i m w"
| "handle_msg A P C i (MNotification code subcode d) w =
     ((let w = (if cn_peer (sp_conns w i) then report (EvNotificationReceived code subcode) w else w) in
       report (EvClosed i) (upd_conn i (\<lambda>c. c\<lparr>cn_open := False\<rparr>) w)), Inr ())"
| "handle_msg A P C i m w =
     (if \<not> cn_peer (sp_conns w i) then (w, Inl AttributeError) else peer_handle_msg P m w)"

section \<open>Receiving\<close>

text \<open>
  The checks on the front of the receive buffer. \<^verbatim>\<open>_MIN_LEN\<close> of an UPDATE is the length of the header.
\<close>

datatype frame_status = NeedMore | BadFrame py_error | Whole nat

definition frame_check :: "bytes \<Rightarrow> frame_status" where
  "frame_check buf =
     (if length buf < BGP_HDR_LEN then NeedMore
      else if take 16 buf \<noteq> MARKER then BadFrame (RyuError ''NotSync'')
      else
        let n = header_len buf; t = header_type buf in
        if n < 19 \<or> 4096 < n \<or> t = 1 \<and> n < 29 \<or> t = 4 \<and> n \<noteq> 19 \<or> t = 2 \<and> n < 19 then BadFrame (RyuError ''BadLen'')
        else if length buf < n then NeedMore
        else Whole n)"

lemma frame_check_Whole: "frame_check buf = Whole n \<Longrightarrow> 19 \<le> n \<and> n \<le> length buf \<and> n = header_len buf"
  by (auto simp: frame_check_def Let_def split: if_splits)

text \<open>
  \<^verbatim>\<open>_data_received\<close>. Nothing but this loop uses the buffer, so it is an argument and a result, like
  the state of the attribute classes that parsing threads.
\<close>

function data_loop :: "addrconv \<Rightarrow> 'e attr_ext \<Rightarrow> ('c, 'e) peer_ops \<Rightarrow> peer_conf \<Rightarrow> nat \<Rightarrow>
    bytes \<Rightarrow> bool \<Rightarrow> 'c bgp_speaker \<Rightarrow> bytes \<times> bool \<times> 'c bgp_speaker \<times> unit res" where
  "data_loop A X P C i buf g w =
     (case frame_check buf of
        NeedMore \<Rightarrow> (buf, g, w, Inr ())
      | BadFrame e \<Rightarrow> (buf, g, w, Inl e)
      | Whole n \<Rightarrow>
          (case message_parse A X buf g of
             (g, Inl e) \<Rightarrow> (buf, g, w, Inl e)
           | (g, Inr (m, rest)) \<Rightarrow>
               (case handle_msg A P C i m w of
                  (w, Inl e) \<Rightarrow> (drop n buf, g, w, Inl e)
                | (w, Inr _) \<Rightarrow> data_loop A X P C i (drop n buf) g w)))"
  by pat_completeness auto
termination
  by (relation "measure (\<lambda>(A, X, P, C, i, buf, g, w). length buf)") (auto dest!: frame_check_Whole)

declare data_loop.simps [simp del]

text \<open>Octets as they arrive, in chunks, until an exception.\<close>

fun receive_chunks :: "addrconv \<Rightarrow> 'e attr_ext \<Rightarrow> ('c, 'e) peer_ops \<Rightarrow> peer_conf \<Rightarrow> nat \<Rightarrow>
    bytes list \<Rightarrow> bytes \<Rightarrow> bool \<Rightarrow> 'c bgp_speaker \<Rightarrow> bytes \<times> bool \<times> 'c bgp_speaker \<times> unit res" where
  "receive_chunks A X P C i [] buf g w = (buf, g, w, Inr ())"
| "receive_chunks A X P C i (c # cs) buf g w =
     (case data_loop A X P C i (buf @ c) g w of
        (buf, g, w, Inl e) \<Rightarrow> (buf, g, w, Inl e)
      | (buf, g, w, Inr _) \<Rightarrow> receive_chunks A X P C i cs buf g w)"

text \<open>The messages of a list, until an exception.\<close>

fun handle_msgs :: "addrconv \<Rightarrow> ('c, 'e) peer_ops \<Rightarrow> peer_conf \<Rightarrow> nat \<Rightarrow> 'e bgp_message list \<Rightarrow>
    'c bgp_speaker \<Rightarrow> 'c bgp_speaker \<times> unit res" where
  "handle_msgs A P C i [] w = (w, Inr ())"
| "handle_msgs A P C i (m # ms) w = st_bind (handle_msg A P C i m) (\<lambda>_. handle_msgs A P C i ms) w"

end
