(* ===== verification/Bgp_Stream.thy ===== *)
theory Bgp_Stream
  imports Bgp_Session
begin

text \<open>
  The octets of a connection come in chunks of any size: the messages that are handled, and what
  handling them does, depend on the octets alone.
\<close>

section \<open>A longer buffer\<close>

lemma header_append:
  assumes "19 \<le> length buf"
  shows "header_len (buf @ x) = header_len buf" "header_type (buf @ x) = header_type buf"
    "take 16 (buf @ x) = take 16 buf"
  using assms by (simp_all add: header_len_def header_type_def py_slice_def)

lemma frame_check_append:
  assumes "frame_check buf \<noteq> NeedMore"
  shows "frame_check (buf @ x) = frame_check buf"
proof -
  have l: "19 \<le> length buf" using assms by (auto simp: frame_check_def BGP_HDR_LEN_def split: if_splits)
  show ?thesis using assms l unfolding frame_check_def header_append [OF l] Let_def
    by (auto simp: BGP_HDR_LEN_def)
qed

lemma message_parse_append:
  assumes "frame_check buf = Whole n"
  shows "message_parse A X (buf @ x) g =
    (case message_parse A X buf g of (g', Inl e) \<Rightarrow> (g', Inl e) | (g', Inr (m, rest)) \<Rightarrow> (g', Inr (m, rest @ x)))"
proof -
  have n: "19 \<le> n" "n \<le> length buf" "n = header_len buf" using frame_check_Whole [OF assms] by simp_all
  then have l: "19 \<le> length buf" by simp
  have "py_slice BGP_HDR_LEN n (buf @ x) = py_slice BGP_HDR_LEN n buf" "drop n (buf @ x) = drop n buf @ x"
    using n(2) by (simp_all add: py_slice_def)
  then show ?thesis using n l unfolding message_parse_def header_append [OF l] n(3) [symmetric]
    by (simp add: BGP_HDR_LEN_def st_bind_def split: prod.splits sum.splits)
qed

lemma message_parse_rest:
  assumes "frame_check buf = Whole n" "message_parse A X buf g = (g', Inr (m, rest))"
  shows "rest = drop n buf"
  using assms frame_check_Whole [OF assms(1)]
  by (auto simp: message_parse_def st_bind_def split: prod.splits sum.splits if_splits)

section \<open>The loop on a longer buffer\<close>

lemma data_loop_append:
  "(\<forall>b g' w'. data_loop A X P C i buf g w = (b, g', w', Inr ()) \<longrightarrow>
      data_loop A X P C i (buf @ x) g w = data_loop A X P C i (b @ x) g' w') \<and>
   (\<forall>b g' w' e. data_loop A X P C i buf g w = (b, g', w', Inl e) \<longrightarrow>
      snd (data_loop A X P C i (buf @ x) g w) = (g', w', Inl e))"
proof (induction A X P C i buf g w rule: data_loop.induct)
  case (1 A X P C i buf g w)
  show ?case
  proof (cases "frame_check buf")
    case NeedMore
    then show ?thesis by (subst (1 4) data_loop.simps) simp
  next
    case (BadFrame e)
    then have "frame_check (buf @ x) = BadFrame e" using frame_check_append [of buf x] by simp
    with BadFrame show ?thesis by (simp add: data_loop.simps [of A X P C i buf] data_loop.simps [of A X P C i "buf @ x"])
  next
    case (Whole n)
    then have f: "frame_check (buf @ x) = Whole n" using frame_check_append [of buf x] by simp
    have n: "n \<le> length buf" using frame_check_Whole [OF Whole] by simp
    obtain g' r where p: "message_parse A X buf g = (g', r)" by fastforce
    show ?thesis
    proof (cases r)
      case (Inl e)
      then have "message_parse A X (buf @ x) g = (g', Inl e)" using message_parse_append [OF Whole, of A X x g] p by simp
      then show ?thesis using Whole f p Inl
        by (simp add: data_loop.simps [of A X P C i buf] data_loop.simps [of A X P C i "buf @ x"])
    next
      case (Inr mr)
      obtain m rest where mr: "mr = (m, rest)" by (cases mr)
      have px: "message_parse A X (buf @ x) g = (g', Inr (m, rest @ x))" using message_parse_append [OF Whole, of A X x g] p Inr mr by simp
      obtain w' h where h: "handle_msg A P C i m w = (w', h)" by fastforce
      have d: "drop n (buf @ x) = drop n buf @ x" using n by simp
      show ?thesis
      proof (cases h)
        case (Inl e)
        then show ?thesis using Whole f p px Inr mr h d
          by (simp add: data_loop.simps [of A X P C i buf] data_loop.simps [of A X P C i "buf @ x"])
      next
        case (Inr u)
        have "data_loop A X P C i buf g w = data_loop A X P C i (drop n buf) g' w'"
          "data_loop A X P C i (buf @ x) g w = data_loop A X P C i (drop n buf @ x) g' w'"
          using Whole f p px \<open>r = Inr mr\<close> mr h d Inr
          by (simp_all add: data_loop.simps [of A X P C i buf] data_loop.simps [of A X P C i "buf @ x"])
        then show ?thesis using "1.IH" [OF Whole p [symmetric] _ mr [symmetric]] \<open>r = Inr mr\<close> mr h Inr by auto
      qed
    qed
  qed
qed

lemma data_loop_idle: "data_loop A X P C i buf g w = (b, g', w', Inr ()) \<Longrightarrow> frame_check b = NeedMore"
proof (induction A X P C i buf g w rule: data_loop.induct)
  case (1 A X P C i buf g w)
  from "1.prems" show ?case
    by (subst (asm) data_loop.simps)
      (auto split: frame_status.splits prod.splits sum.splits dest: "1.IH")
qed

lemma receive_chunks_concat:
  "cs \<noteq> [] \<or> frame_check buf = NeedMore \<Longrightarrow>
     snd (receive_chunks A X P C i cs buf g w) = snd (data_loop A X P C i (buf @ concat cs) g w)"
proof (induction cs arbitrary: buf g w)
  case Nil
  then show ?case by (simp add: data_loop.simps)
next
  case (Cons c cs)
  obtain b g' w' r where r: "data_loop A X P C i (buf @ c) g w = (b, g', w', r)" by (metis prod_cases4)
  show ?case
  proof (cases r)
    case (Inl e)
    then show ?thesis using r data_loop_append [of A X P C i "buf @ c" g w "concat cs"] by simp
  next
    case (Inr u)
    then have "frame_check b = NeedMore" using r data_loop_idle by simp
    then have "snd (receive_chunks A X P C i cs b g' w') = snd (data_loop A X P C i (b @ concat cs) g' w')"
      by (intro Cons.IH) simp
    then show ?thesis using r Inr data_loop_append [of A X P C i "buf @ c" g w "concat cs"] by simp
  qed
qed

section \<open>A stream of messages\<close>

lemma message_frame:
  assumes "message_serialize A X g m = Inr bs" "length bs \<le> 4096"
  shows "frame_check (bs @ rest) = Whole (length bs)"
proof -
  obtain b where b: "body_serialize A X g m = Inr b" "bs = MARKER @ be_bytes 2 (int (19 + length b)) @ [word_of_int (msg_type m)] @ b"
    "19 + length b < 65536" using message_header [OF assms(1)] .
  have t: "0 \<le> msg_type m" "msg_type m < 256" using msg_type_range [of m] by simp_all
  note hf = header_fields [OF b(3) t b(2)]
  have "10 \<le> length b" if t1: "msg_type m = 1"
  proof -
    obtain x where x: "m = MOpen x" using t1 by (cases m) simp_all
    then show ?thesis using b(1) by (auto simp: open_serialize_def res_bind_eq_Inr simp del: pack.simps dest!: length_pack)
  qed
  moreover have "b = []" if t4: "msg_type m = 4"
  proof -
    have "m = MKeepAlive" using t4 by (cases m) simp_all
    then show ?thesis using b(1) by simp
  qed
  ultimately show ?thesis using assms(2) hf(5,6) unfolding frame_check_def Let_def BGP_HDR_LEN_def hf(1,2,3) by auto
qed

lemma data_loop_stream:
  assumes "addrconv_ok A"
    "list_all2 (\<lambda>m b. message_wf A X g m \<and> message_serialize A X g m = Inr b \<and> length b \<le> 4096) ms bs"
  shows "snd (data_loop A X P C i (concat bs) g w) = (g, handle_msgs A P C i ms w) \<and>
    (snd (handle_msgs A P C i ms w) = Inr () \<longrightarrow> fst (data_loop A X P C i (concat bs) g w) = [])"
  using assms(2)
proof (induction ms bs arbitrary: w rule: list_all2_induct)
  case Nil
  show ?case by (simp add: data_loop.simps frame_check_def BGP_HDR_LEN_def)
next
  case (Cons m ms b bs)
  then have f: "frame_check (b @ concat bs) = Whole (length b)" using message_frame by blast
  have p: "message_parse A X (b @ concat bs) g = (g, Inr (m, concat bs))"
    using message_codec [OF assms(1)] Cons.hyps by blast
  obtain w' r where r: "handle_msg A P C i m w = (w', r)" by fastforce
  show ?case
  proof (cases r)
    case (Inl e)
    then show ?thesis using f p r by (simp add: data_loop.simps [of A X P C i "b @ concat bs"] st_bind_def)
  next
    case (Inr u)
    then show ?thesis using f p r Cons.IH [of w']
      by (simp add: data_loop.simps [of A X P C i "b @ concat bs"] st_bind_def)
  qed
qed

end
