(* ===== verification/Bgp_Fsm.thy ===== *)
theory Bgp_Fsm
  imports Bgp_Stream
begin

text \<open>
  Everything that moves a session: connections that come and go, octets, timers, the connect loop and
  the configuration, as a step relation, and the invariant of the states it reaches.
\<close>

section \<open>The threads\<close>

record 'c bgp_world =
  bw_speaker :: "'c bgp_speaker"
  bw_buffs :: "nat \<Rightarrow> bytes"
  bw_agg4 :: bool

text \<open>\<^verbatim>\<open>data_received\<close>: what an exception of the protocol sends before it goes on.\<close>

definition notify_exc :: "addrconv \<Rightarrow> ('c, 'e) peer_ops \<Rightarrow> nat \<Rightarrow> py_error \<Rightarrow> 'c bgp_speaker \<Rightarrow> 'c bgp_speaker \<times> unit res" where
  "notify_exc A P i e w =
     (case exc_codes e of
        Some (code, subcode) \<Rightarrow> st_bind (send_notification A P i code subcode) (\<lambda>_ w. (w, Inl e)) w
      | None \<Rightarrow>
          ((if is_bad_notification e then report (EvClosed i) (upd_conn i (\<lambda>c. c\<lparr>cn_open := False\<rparr>) w) else w), Inl e))"

text \<open>The \<^verbatim>\<open>finally\<close> of \<^verbatim>\<open>_recv_loop\<close>, and the one of \<^verbatim>\<open>Activity.start\<close>.\<close>

definition activity_end :: "nat \<Rightarrow> 'c bgp_speaker \<Rightarrow> 'c bgp_speaker" where
  "activity_end i w =
     (let w = upd_conn i (\<lambda>c. c\<lparr>cn_running := False\<rparr>) w in
      if cn_started (sp_conns w i) then fst (conn_stop i w) else w)"

definition conn_ended :: "('c, 'e) peer_ops \<Rightarrow> nat \<Rightarrow> 'c bgp_speaker \<Rightarrow> 'c bgp_speaker" where
  "conn_ended P i w = activity_end i (fst (connection_lost P i w))"

text \<open>One round of \<^verbatim>\<open>_recv_loop\<close>: no octets mean that the other side has closed.\<close>

definition recv_step :: "addrconv \<Rightarrow> 'e attr_ext \<Rightarrow> ('c, 'e) peer_ops \<Rightarrow> peer_conf \<Rightarrow> nat \<Rightarrow> bytes \<Rightarrow>
    'c bgp_world \<Rightarrow> 'c bgp_world" where
  "recv_step A X P C i bs s =
     (let w = bw_speaker s in
      if \<not> cn_open (sp_conns w i) \<or> bs = [] then s\<lparr>bw_speaker := conn_ended P i w\<rparr>
      else case data_loop A X P C i (bw_buffs s i @ bs) (bw_agg4 s) w of
        (b, g, w, r) \<Rightarrow>
          s\<lparr>bw_buffs := (bw_buffs s)(i := b), bw_agg4 := g,
            bw_speaker := (case r of Inr _ \<Rightarrow> w | Inl e \<Rightarrow> conn_ended P i (fst (notify_exc A P i e w)))\<rparr>)"

definition connection_made :: "addrconv \<Rightarrow> ('c, 'e) peer_ops \<Rightarrow> peer_conf \<Rightarrow> nat \<Rightarrow> 'c bgp_speaker \<Rightarrow> 'c bgp_speaker \<times> unit res" where
  "connection_made A P C i w =
     (if cn_state (sp_conns w i) \<noteq> Connect then (w, Inl AssertionError)
      else
        let m = create_open_msg C;
            w = upd_conn i (\<lambda>c. c\<lparr>cn_holdtime := bo_hold_time m, cn_state := OpenSent, cn_sent_open := Some m\<rparr>) w;
            w = (if cn_reactive (sp_conns w i) then w else set_bgp_state P OpenSent w)
        in st_bind (conn_send A P i (MOpen m)) (\<lambda>_ w.
           (w, if cn_peer (sp_conns w i) then Inr () else Inl AttributeError)) w)"

text \<open>A spawned connection starts: \<^verbatim>\<open>_run\<close> up to its receive loop.\<close>

definition conn_run :: "addrconv \<Rightarrow> ('c, 'e) peer_ops \<Rightarrow> peer_conf \<Rightarrow> nat \<Rightarrow> 'c bgp_speaker \<Rightarrow> 'c bgp_speaker" where
  "conn_run A P C i w =
     (let w = upd_conn i (\<lambda>c. c\<lparr>cn_spawned := False, cn_started := True, cn_peer := True\<rparr>) w in
      case connection_made A P C i w of
        (w, Inr _) \<Rightarrow> upd_conn i (\<lambda>c. c\<lparr>cn_running := True\<rparr>) w
      | (w, Inl e) \<Rightarrow> activity_end i w)"

definition new_conn :: "bool \<Rightarrow> string \<Rightarrow> string \<Rightarrow> bgp_conn" where
  "new_conn reactive remote loc =
     \<lparr>cn_state = Connect, cn_reactive = reactive, cn_remote = remote, cn_local = loc, cn_spawned = False,
      cn_started = False, cn_running = False, cn_open = True, cn_peer = False, cn_bound = False, cn_holdtime = 0,
      cn_keepalive = None, cn_expiry = None, cn_cap4 = False, cn_sent_open = None, cn_recv_open = None\<rparr>"

text \<open>\<^verbatim>\<open>start_protocol\<close> for a connection with this neighbour, from it (\<^verbatim>\<open>reactive\<close>) or to it.\<close>

definition start_protocol :: "addrconv \<Rightarrow> ('c, 'e) peer_ops \<Rightarrow> peer_conf \<Rightarrow> bool \<Rightarrow> string \<Rightarrow> string \<Rightarrow>
    'c bgp_speaker \<Rightarrow> 'c bgp_speaker" where
  "start_protocol A P C reactive remote loc w =
     (let i = sp_next w; w = upd_conn i (\<lambda>_. new_conn reactive remote loc) (w\<lparr>sp_next := Suc i\<rparr>) in
      if \<not> sp_enabled w then fst (send_notification A P i 6 5 w)
      else if reactive \<and> pc_mode C = ModeActive then fst (send_notification A P i 6 5 w)
      else if sp_state w \<notin> {Idle, Active, Connect} then fst (send_notification A P i 6 7 w)
      else upd_conn i (\<lambda>c. c\<lparr>cn_spawned := True\<rparr>) w)"

definition hold_expired :: "addrconv \<Rightarrow> ('c, 'e) peer_ops \<Rightarrow> nat \<Rightarrow> 'c bgp_speaker \<Rightarrow> 'c bgp_speaker \<times> unit res" where
  "hold_expired A P i =
     st_bind (send_notification A P i 4 1) (\<lambda>_. st_bind (connection_lost P i) (\<lambda>_. conn_stop i))"

text \<open>\<^verbatim>\<open>_connect_loop\<close>, before \<^verbatim>\<open>_connect_tcp\<close>, and after it has failed or connected.\<close>

definition connect_begin :: "('c, 'e) peer_ops \<Rightarrow> 'c bgp_speaker \<Rightarrow> 'c bgp_speaker" where
  "connect_begin P w =
     (if sp_retry w \<and> sp_state w \<in> {Idle, Active} then (set_bgp_state P Connect w)\<lparr>sp_connecting := True\<rparr> else w)"

definition connect_failed :: "('c, 'e) peer_ops \<Rightarrow> 'c bgp_speaker \<Rightarrow> 'c bgp_speaker" where
  "connect_failed P w = (set_bgp_state P Active w)\<lparr>sp_connecting := False\<rparr>"

definition connect_done :: "'c bgp_speaker \<Rightarrow> 'c bgp_speaker" where
  "connect_done w = w\<lparr>sp_connecting := False\<rparr>"

text \<open>\<^verbatim>\<open>on_update_enabled\<close>\<close>

definition set_enabled :: "addrconv \<Rightarrow> ('c, 'e) peer_ops \<Rightarrow> bool \<Rightarrow> 'c bgp_speaker \<Rightarrow> 'c bgp_speaker \<times> unit res" where
  "set_enabled A P en w =
     (let w = w\<lparr>sp_enabled := en\<rparr> in
      if en then
        (case sp_protocol w of
           Some j \<Rightarrow> if cn_started (sp_conns w j) then (w, Inr ()) else ((set_bgp_state P Connect w)\<lparr>sp_retry := True\<rparr>, Inr ())
         | None \<Rightarrow> ((set_bgp_state P Connect w)\<lparr>sp_retry := True\<rparr>, Inr ()))
      else
        (case sp_protocol w of
           None \<Rightarrow> (w\<lparr>sp_retry := False\<rparr>, Inr ())
         | Some j \<Rightarrow>
             st_bind (send_notification A P j 6 2) (\<lambda>_ w.
             case sp_protocol w of None \<Rightarrow> (w, Inl AttributeError)
             | Some k \<Rightarrow>
                 st_bind (conn_stop k) (\<lambda>_ w.
                 ((set_bgp_state P Idle (w\<lparr>sp_protocol := None\<rparr>))\<lparr>sp_retry := False\<rparr>, Inr ())) w) w))"

section \<open>Steps\<close>

text \<open>
  \<^verbatim>\<open>start_protocol\<close> runs in a thread of its own for a connection of either kind, any time after it was made.
\<close>

inductive bgp_step :: "addrconv \<Rightarrow> 'e attr_ext \<Rightarrow> ('c, 'e) peer_ops \<Rightarrow> peer_conf \<Rightarrow> 'c bgp_world \<Rightarrow> 'c bgp_world \<Rightarrow> bool"
  for A X P C where
  accept: "bgp_step A X P C s (s\<lparr>bw_speaker := start_protocol A P C reactive remote loc (bw_speaker s)\<rparr>)"
| run: "cn_spawned (sp_conns (bw_speaker s) i) \<Longrightarrow> bgp_step A X P C s (s\<lparr>bw_speaker := conn_run A P C i (bw_speaker s)\<rparr>)"
| recv: "cn_running (sp_conns (bw_speaker s) i) \<Longrightarrow> bgp_step A X P C s (recv_step A X P C i bs s)"
| reset: "bgp_step A X P C s (s\<lparr>bw_speaker := upd_conn i (\<lambda>c. c\<lparr>cn_open := False\<rparr>) (bw_speaker s)\<rparr>)"
| keepalive: "cn_keepalive (sp_conns (bw_speaker s) i) = Some t \<Longrightarrow>
    bgp_step A X P C s (s\<lparr>bw_speaker := fst (conn_send A P i MKeepAlive (bw_speaker s))\<rparr>)"
| expire: "cn_expiry (sp_conns (bw_speaker s) i) = Some t \<Longrightarrow>
    bgp_step A X P C s (s\<lparr>bw_speaker := fst (hold_expired A P i (bw_speaker s))\<rparr>)"
| dial: "\<not> sp_connecting (bw_speaker s) \<Longrightarrow> bgp_step A X P C s (s\<lparr>bw_speaker := connect_begin P (bw_speaker s)\<rparr>)"
| dial_failed: "sp_connecting (bw_speaker s) \<Longrightarrow> bgp_step A X P C s (s\<lparr>bw_speaker := connect_failed P (bw_speaker s)\<rparr>)"
| dial_done: "sp_connecting (bw_speaker s) \<Longrightarrow>
    bgp_step A X P C s (s\<lparr>bw_speaker := connect_done (bw_speaker s)\<rparr>)"
| configure: "bgp_step A X P C s (s\<lparr>bw_speaker := fst (set_enabled A P en (bw_speaker s))\<rparr>)"

definition bgp_start :: "bool \<Rightarrow> 'c \<Rightarrow> bool \<Rightarrow> 'c bgp_world" where
  "bgp_start en core g =
     \<lparr>bw_speaker = \<lparr>sp_state = Idle, sp_protocol = None, sp_retry = en, sp_enabled = en, sp_connecting = False,
        sp_transitions = 0, sp_conns = (\<lambda>_. new_conn False [] []), sp_next = 0, sp_core = core, sp_log = []\<rparr>,
      bw_buffs = (\<lambda>_. []), bw_agg4 = g\<rparr>"

inductive bgp_reachable :: "addrconv \<Rightarrow> 'e attr_ext \<Rightarrow> ('c, 'e) peer_ops \<Rightarrow> peer_conf \<Rightarrow> 'c bgp_world \<Rightarrow> bool"
  for A X P C where
  start: "bgp_reachable A X P C (bgp_start en core g)"
| next_step: "bgp_reachable A X P C s \<Longrightarrow> bgp_step A X P C s s' \<Longrightarrow> bgp_reachable A X P C s'"

inductive_cases bgp_stepE: "bgp_step A X P C s s'"

section \<open>The invariant\<close>

definition open_accepted :: "peer_conf \<Rightarrow> bgp_open \<Rightarrow> bool" where
  "open_accepted C m \<longleftrightarrow> open_remote_as m = Inr (pc_remote_as C) \<and> bo_version m = 4"

definition conn_inv :: "peer_conf \<Rightarrow> bgp_conn \<Rightarrow> bool" where
  "conn_inv C c \<longleftrightarrow>
     (cn_state c = OpenConfirm \<longrightarrow> (\<exists>m. cn_recv_open c = Some m \<and> open_accepted C m)) \<and>
     (cn_state c = OpenSent \<and> cn_running c \<and> cn_peer c \<longrightarrow> cn_started c) \<and>
     (cn_spawned c \<longrightarrow> \<not> cn_started c)"

definition conn_unused :: "bgp_conn \<Rightarrow> bool" where
  "conn_unused c \<longleftrightarrow> \<not> cn_spawned c \<and> \<not> cn_started c \<and> \<not> cn_running c"

text \<open>
  The bound connection is one that is started and whose OPEN was accepted, and a session that is
  confirmed or established has one.
\<close>

definition session_inv :: "peer_conf \<Rightarrow> 'c bgp_speaker \<Rightarrow> bool" where
  "session_inv C w \<longleftrightarrow>
     (\<forall>i. conn_inv C (sp_conns w i) \<and> (sp_next w \<le> i \<longrightarrow> conn_unused (sp_conns w i))) \<and>
     (\<forall>j. sp_protocol w = Some j \<longrightarrow> cn_bound (sp_conns w j) \<and> cn_started (sp_conns w j) \<and>
        cn_peer (sp_conns w j) \<and> cn_state (sp_conns w j) = OpenConfirm) \<and>
     (sp_state w \<in> {OpenConfirm, Established} \<longrightarrow> sp_protocol w \<noteq> None)"

end
