(* ===== verification/Bgp_Fsm_Inv.thy ===== *)
theory Bgp_Fsm_Inv
  imports Bgp_Fsm
begin

text \<open>The invariant of the session holds in every state that is reached.\<close>

section \<open>What sending and losing a connection may change\<close>

text \<open>
  An operation is mild when it leaves the progress of the connections alone: it may drop the bound one
  and make the neighbour idle, and it may take the peer from a connection that is not bound.
\<close>

definition mild_conn :: "bgp_conn \<Rightarrow> bgp_conn \<Rightarrow> bool" where
  "mild_conn c c' \<longleftrightarrow> cn_state c' = cn_state c \<and> cn_recv_open c' = cn_recv_open c \<and> cn_running c' = cn_running c \<and>
     cn_bound c' = cn_bound c \<and> cn_spawned c' = cn_spawned c \<and> (cn_peer c' \<longrightarrow> cn_peer c) \<and>
     (cn_started c' \<longrightarrow> cn_started c)"

definition mild :: "'c bgp_speaker \<Rightarrow> 'c bgp_speaker \<Rightarrow> bool" where
  "mild w w' \<longleftrightarrow>
     (\<forall>k. mild_conn (sp_conns w k) (sp_conns w' k) \<and>
        (sp_protocol w \<noteq> Some k \<longrightarrow> cn_started (sp_conns w' k) = cn_started (sp_conns w k)) \<and>
        (sp_protocol w' = Some k \<longrightarrow> cn_started (sp_conns w' k) = cn_started (sp_conns w k) \<and>
           cn_peer (sp_conns w' k) = cn_peer (sp_conns w k))) \<and>
     sp_next w' = sp_next w \<and>
     (sp_state w' = Idle \<and> sp_protocol w' = None \<or> sp_state w' = sp_state w \<and> sp_protocol w' = sp_protocol w)"

lemma mild_conn_refl [simp]: "mild_conn c c"
  by (simp add: mild_conn_def)

lemma mild_conn_trans: "mild_conn c d \<Longrightarrow> mild_conn d e \<Longrightarrow> mild_conn c e"
  by (simp add: mild_conn_def)

lemma mild_refl [simp]: "mild w w"
  by (simp add: mild_def)

lemma mild_trans:
  assumes "mild u v" "mild v w"
  shows "mild u w"
proof -
  have p: "sp_protocol w = Some k \<Longrightarrow> sp_protocol v = Some k" "sp_protocol v = Some k \<Longrightarrow> sp_protocol u = Some k" for k
    using assms by (auto simp: mild_def)
  show ?thesis unfolding mild_def
  proof (intro conjI allI)
    fix k
    show "mild_conn (sp_conns u k) (sp_conns w k)" using assms by (auto simp: mild_def intro: mild_conn_trans)
    show "sp_protocol u \<noteq> Some k \<longrightarrow> cn_started (sp_conns w k) = cn_started (sp_conns u k)"
      using assms p(2) [of k] by (auto simp: mild_def)
    show "sp_protocol w = Some k \<longrightarrow> cn_started (sp_conns w k) = cn_started (sp_conns u k) \<and>
        cn_peer (sp_conns w k) = cn_peer (sp_conns u k)"
      using assms p(1) [of k] by (auto simp: mild_def)
  next
    show "sp_next w = sp_next u" using assms by (simp add: mild_def)
    show "sp_state w = Idle \<and> sp_protocol w = None \<or> sp_state w = sp_state u \<and> sp_protocol w = sp_protocol u"
      using assms by (auto simp: mild_def)
  qed
qed

lemma mild_protocol: "mild w w' \<Longrightarrow> sp_protocol w' = Some k \<Longrightarrow> sp_protocol w = Some k"
  by (auto simp: mild_def)

lemma report_fields [simp]:
  "sp_conns (report e w) = sp_conns w" "sp_protocol (report e w) = sp_protocol w" "sp_state (report e w) = sp_state w"
  "sp_next (report e w) = sp_next w" "sp_enabled (report e w) = sp_enabled w" "sp_core (report e w) = sp_core w"
  by (simp_all add: report_def)

lemma upd_conn_fields [simp]:
  "sp_conns (upd_conn i f w) = (sp_conns w)(i := f (sp_conns w i))" "sp_protocol (upd_conn i f w) = sp_protocol w"
  "sp_state (upd_conn i f w) = sp_state w" "sp_next (upd_conn i f w) = sp_next w"
  "sp_enabled (upd_conn i f w) = sp_enabled w" "sp_core (upd_conn i f w) = sp_core w"
  by (simp_all add: upd_conn_def)

lemma set_bgp_state_fields [simp]:
  "sp_conns (set_bgp_state P s w) = sp_conns w" "sp_protocol (set_bgp_state P s w) = sp_protocol w"
  "sp_state (set_bgp_state P s w) = s" "sp_next (set_bgp_state P s w) = sp_next w"
  "sp_enabled (set_bgp_state P s w) = sp_enabled w"
  by (simp_all add: set_bgp_state_def Let_def)

lemma mild_emit [simp]: "mild w (report e w') \<longleftrightarrow> mild w w'"
  by (simp add: mild_def)

lemma mild_emit_left [simp]: "mild (report e w) w' \<longleftrightarrow> mild w w'"
  by (simp add: mild_def)

lemma mild_shut [simp]: "mild w (upd_conn i (\<lambda>c. c\<lparr>cn_open := False\<rparr>) w)"
  by (simp add: mild_def mild_conn_def)

lemma mild_shut_emit [simp]: "mild w (upd_conn i (\<lambda>c. c\<lparr>cn_open := False\<rparr>) (report e w))"
  by (rule iffD1 [OF mild_emit_left mild_shut])

section \<open>The invariant under mild changes\<close>

lemma session_invD:
  assumes "session_inv C w"
  shows "conn_inv C (sp_conns w i)"
    "sp_protocol w = Some j \<Longrightarrow> cn_bound (sp_conns w j) \<and> cn_started (sp_conns w j) \<and>
        cn_peer (sp_conns w j) \<and> cn_state (sp_conns w j) = OpenConfirm"
    "sp_state w \<in> {OpenConfirm, Established} \<Longrightarrow> sp_protocol w \<noteq> None"
    "sp_next w \<le> i \<Longrightarrow> conn_unused (sp_conns w i)"
  using assms by (simp_all add: session_inv_def)

lemma session_inv_mild:
  assumes "session_inv C w" "mild w w'"
  shows "session_inv C w'"
  unfolding session_inv_def
proof (intro conjI allI impI)
  fix i
  have m: "mild_conn (sp_conns w i) (sp_conns w' i)"
    "sp_protocol w \<noteq> Some i \<Longrightarrow> cn_started (sp_conns w' i) = cn_started (sp_conns w i)" using assms(2) by (simp_all add: mild_def)
  moreover have "sp_protocol w = Some i \<Longrightarrow> cn_state (sp_conns w i) = OpenConfirm" using session_invD [OF assms(1)] by simp
  ultimately show "conn_inv C (sp_conns w' i)"
    using session_invD(1) [OF assms(1), of i] by (cases "sp_protocol w = Some i") (auto simp: conn_inv_def mild_conn_def)
  show "conn_unused (sp_conns w' i)" if "sp_next w' \<le> i"
    using that m(1) session_invD(4) [OF assms(1), of i] assms(2) by (auto simp: conn_unused_def mild_conn_def mild_def)
next
  fix j assume j: "sp_protocol w' = Some j"
  then have "sp_protocol w = Some j" using mild_protocol [OF assms(2)] by simp
  note i = session_invD(2) [OF assms(1) this]
  show "cn_bound (sp_conns w' j)" "cn_started (sp_conns w' j)" "cn_peer (sp_conns w' j)"
    "cn_state (sp_conns w' j) = OpenConfirm"
    using i j assms(2) by (simp_all add: mild_def mild_conn_def)
next
  assume "sp_state w' \<in> {OpenConfirm, Established}"
  then show "sp_protocol w' \<noteq> None" using assms(2) session_invD(3) [OF assms(1)] by (auto simp: mild_def)
qed

lemma st_bind_elim:
  assumes "st_bind m f w = (w', r)"
  obtains (exc) e where "m w = (w', Inl e)" "r = Inl e"
    | (ret) v x where "m w = (v, Inr x)" "f x v = (w', r)"
  using assms by (auto simp: st_bind_def split: prod.splits sum.splits)

lemma peer_connection_lost_mild:
  assumes "session_inv C w" "peer_connection_lost P w = (w', r)"
  shows "r = Inr ()" "mild w w'" "sp_protocol w' = None" "sp_state w' = Idle"
proof -
  have s: "sp_protocol w = Some j \<Longrightarrow> cn_started (sp_conns w j)" for j using session_invD(2) [OF assms(1)] by simp
  show "r = Inr ()" "sp_protocol w' = None" "sp_state w' = Idle"
    using assms(2) s unfolding peer_connection_lost_def Let_def
    by (auto simp: st_bind_def conn_stop_def split: option.splits)
  show "mild w w'"
    using assms(2) s unfolding peer_connection_lost_def Let_def
    by (auto simp: st_bind_def conn_stop_def mild_def mild_conn_def split: option.splits if_splits)
qed

lemma connection_lost_mild:
  assumes "session_inv C w" "connection_lost P i w = (w', r)"
  shows "r = Inr ()" "mild w w'" "sp_protocol w' \<noteq> Some i" "\<not> cn_peer (sp_conns w' i)"
proof -
  have b: "sp_protocol w = Some i \<Longrightarrow> cn_bound (sp_conns w i) \<and> cn_peer (sp_conns w i)" using session_invD(2) [OF assms(1)] by simp
  consider (none) "\<not> cn_peer (sp_conns w i)"
    | (told) "cn_peer (sp_conns w i)" "cn_bound (sp_conns w i) \<or> sp_state w = OpenSent"
    | (quiet) "cn_peer (sp_conns w i)" "\<not> (cn_bound (sp_conns w i) \<or> sp_state w = OpenSent)" by blast
  then have "r = Inr () \<and> mild w w' \<and> sp_protocol w' \<noteq> Some i \<and> \<not> cn_peer (sp_conns w' i)"
  proof cases
    case none
    then show ?thesis using assms(2) b by (auto simp: connection_lost_def)
  next
    case told
    obtain v x where v: "peer_connection_lost P w = (v, x)" by fastforce
    note p = peer_connection_lost_mild [OF assms(1) v]
    have w': "w' = upd_conn i (\<lambda>c. c\<lparr>cn_peer := False\<rparr>) v" "r = Inr ()"
      using told assms(2) v p(1) by (auto simp: connection_lost_def st_bind_def)
    have "mild v w'" unfolding w'(1) using p(3) by (auto simp: mild_def mild_conn_def)
    then show ?thesis using mild_trans [OF p(2)] w' p(3) by simp
  next
    case quiet
    then have w': "w' = upd_conn i (\<lambda>c. c\<lparr>cn_peer := False\<rparr>) w" "r = Inr ()"
      using assms(2) by (auto simp: connection_lost_def st_bind_def st_ret_def)
    then show ?thesis using quiet b by (auto simp: mild_def mild_conn_def)
  qed
  then show "r = Inr ()" "mild w w'" "sp_protocol w' \<noteq> Some i" "\<not> cn_peer (sp_conns w' i)" by simp_all
qed

lemma send_with_lock_mild:
  assumes "session_inv C w" "send_with_lock A P i m w = (w', r)"
  shows "mild w w'"
  using assms connection_lost_mild [OF assms(1)] by (auto simp: send_with_lock_def split: sum.splits if_splits)

lemma conn_send_mild:
  assumes "session_inv C w" "conn_send A P i m w = (w', r)"
  shows "mild w w'"
  using assms(2) send_with_lock_mild [OF assms(1)]
  by (auto simp: conn_send_def st_bind_def split: prod.splits sum.splits if_splits)

lemma send_notification_mild:
  assumes "session_inv C w" "send_notification A P i code subcode w = (w', r)"
  shows "mild w w'"
  using assms(2) unfolding send_notification_def
proof (cases rule: st_bind_elim)
  case (exc e)
  then show ?thesis using send_with_lock_mild [OF assms(1)] by blast
next
  case (ret v x)
  then have "mild v w'" by auto
  then show ?thesis using mild_trans send_with_lock_mild [OF assms(1) ret(1)] by blast
qed

lemma notify_exc_mild:
  assumes "session_inv C w"
  shows "mild w (fst (notify_exc A P i e w))"
proof (cases "exc_codes e")
  case None
  then show ?thesis by (simp add: notify_exc_def)
next
  case (Some cs)
  obtain code subcode where cs: "cs = (code, subcode)" by (cases cs)
  obtain w' r where w': "send_notification A P i code subcode w = (w', r)" by fastforce
  then have "mild w w'" by (rule send_notification_mild [OF assms])
  then show ?thesis using Some cs w' by (cases r) (simp_all add: notify_exc_def st_bind_def)
qed

section \<open>The operations keep the invariant\<close>

lemma session_inv_emit [simp]: "session_inv C (report e w) \<longleftrightarrow> session_inv C w"
  by (simp add: session_inv_def)

lemma session_inv_set_state:
  "session_inv C w \<Longrightarrow> s \<in> {OpenConfirm, Established} \<longrightarrow> sp_protocol w \<noteq> None \<Longrightarrow> session_inv C (set_bgp_state P s w)"
  by (simp add: session_inv_def)

lemma session_inv_more [simp]:
  "session_inv C (w\<lparr>sp_core := c\<rparr>) \<longleftrightarrow> session_inv C w"
  "session_inv C (w\<lparr>sp_retry := b\<rparr>) \<longleftrightarrow> session_inv C w"
  "session_inv C (w\<lparr>sp_enabled := b\<rparr>) \<longleftrightarrow> session_inv C w"
  "session_inv C (w\<lparr>sp_connecting := b\<rparr>) \<longleftrightarrow> session_inv C w"
  by (simp_all add: session_inv_def)

lemma session_inv_upd:
  assumes "session_inv C w" "conn_inv C (sp_conns w i) \<Longrightarrow> conn_inv C (f (sp_conns w i))" "sp_protocol w \<noteq> Some i"
    "conn_unused (sp_conns w i) \<Longrightarrow> i < sp_next w \<or> conn_unused (f (sp_conns w i))"
  shows "session_inv C (upd_conn i f w)"
  using assms by (auto simp: session_inv_def)

lemma conn_stop_inv:
  assumes "session_inv C w" "sp_protocol w \<noteq> Some i"
    "cn_state (sp_conns w i) \<noteq> OpenSent \<or> \<not> cn_running (sp_conns w i) \<or> \<not> cn_peer (sp_conns w i)"
  shows "session_inv C (fst (conn_stop i w))"
  using assms by (auto simp: conn_stop_def conn_inv_def conn_unused_def intro!: session_inv_upd)

lemma activity_end_inv:
  assumes "session_inv C w" "sp_protocol w \<noteq> Some i"
  shows "session_inv C (activity_end i w)"
proof -
  let ?w = "upd_conn i (\<lambda>c. c\<lparr>cn_running := False\<rparr>) w"
  have "session_inv C ?w" by (rule session_inv_upd [OF assms(1) _ assms(2)]) (simp_all add: conn_inv_def conn_unused_def)
  moreover have "session_inv C (fst (conn_stop i ?w))" by (rule conn_stop_inv) (use calculation assms(2) in simp_all)
  ultimately show ?thesis by (simp add: activity_end_def Let_def)
qed

lemma conn_ended_inv:
  assumes "session_inv C w"
  shows "session_inv C (conn_ended P i w)"
proof -
  obtain w' r where l: "connection_lost P i w = (w', r)" by fastforce
  note m = connection_lost_mild [OF assms l]
  show ?thesis unfolding conn_ended_def l fst_conv
    by (rule activity_end_inv [OF session_inv_mild [OF assms m(2)] m(3)])
qed

definition same_running :: "'c bgp_speaker \<Rightarrow> 'c bgp_speaker \<Rightarrow> bool" where
  "same_running w w' \<longleftrightarrow> (\<forall>k. cn_running (sp_conns w' k) = cn_running (sp_conns w k))"

lemma same_running_refl [simp]: "same_running w w"
  by (simp add: same_running_def)

lemma same_running_upd [simp]:
  "(\<And>c. cn_running (f c) = cn_running c) \<Longrightarrow> same_running w (upd_conn i f w') \<longleftrightarrow> same_running w w'"
  by (auto simp: same_running_def)

lemma mild_running: "mild w w' \<Longrightarrow> same_running w w'"
  by (simp add: mild_def mild_conn_def same_running_def)

lemma core_act_inv:
  "session_inv C w \<Longrightarrow> core_act f w = (w', r) \<Longrightarrow> session_inv C w' \<and> same_running w w'"
  by (auto simp: core_act_def same_running_def split: prod.splits)

lemma peer_handle_msg_inv:
  assumes "session_inv C w" "peer_handle_msg P m w = (w', r)"
  shows "session_inv C w' \<and> same_running w w'"
proof (cases m)
  case MKeepAlive
  show ?thesis
  proof (cases "sp_state w = OpenConfirm")
    case True
    then have "session_inv C (set_bgp_state P Established w)"
      using session_invD(3) [OF assms(1)] by (intro session_inv_set_state [OF assms(1)]) simp
    then show ?thesis using True MKeepAlive assms(2) core_act_inv [of C "set_bgp_state P Established w" "po_init P" w' r]
      by (simp add: same_running_def)
  next
    case False
    then show ?thesis using MKeepAlive assms by (auto simp: same_running_def)
  qed
next
  case (MUpdate u)
  then show ?thesis using assms core_act_inv [of C w "po_update P u" w' r] by (auto simp: same_running_def split: if_splits)
next
  case (MRouteRefresh afi safi dem)
  then show ?thesis using assms core_act_inv [of C w "po_refresh P afi safi dem" w' r]
    by (auto simp: same_running_def split: if_splits)
qed (use assms in \<open>auto simp: same_running_def\<close>)

section \<open>OPEN\<close>

lemma validate_open_msg_ok:
  assumes "validate_open_msg C i m w = (w', Inr u)"
  shows "open_accepted C m" "cn_peer (sp_conns w i)" "w' = upd_conn i (\<lambda>c. c\<lparr>cn_cap4 := (opt_param_cap m 65 \<noteq> None)\<rparr>) w"
  using assms by (auto simp: validate_open_msg_def open_accepted_def split: sum.splits if_splits)

lemma send_collision_inv:
  assumes "session_inv C w" "sp_protocol w \<noteq> Some i" "cn_state (sp_conns w i) = OpenConfirm"
    "send_collision_err_and_stop A P i w = (w', r)"
  shows "session_inv C w' \<and> same_running w w' \<and> sp_protocol w' \<noteq> Some i"
  using assms(4) unfolding send_collision_err_and_stop_def
proof (cases rule: st_bind_elim)
  case (exc e)
  then have m: "mild w w'" using send_notification_mild [of C "report (EvError 6 7) w"] assms(1) by simp
  then show ?thesis using session_inv_mild [OF assms(1) m] mild_running [OF m] mild_protocol [OF m] assms(2) by auto
next
  case (ret v x)
  then have m: "mild w v" using send_notification_mild [of C "report (EvError 6 7) w"] assms(1) by simp
  have v: "session_inv C v" "same_running w v" "sp_protocol v \<noteq> Some i"
    using session_inv_mild [OF assms(1) m] mild_running [OF m] mild_protocol [OF m] assms(2) by auto
  have "cn_state (sp_conns v i) = OpenConfirm" using m assms(3) by (simp add: mild_def mild_conn_def)
  then have "session_inv C (fst (conn_stop i v))" by (intro conn_stop_inv v) simp
  moreover have "same_running v w'" "sp_protocol w' = sp_protocol v" "w' = fst (conn_stop i v)"
    using ret(2) by (auto simp: conn_stop_def same_running_def split: if_splits)
  ultimately show ?thesis using v by (simp add: same_running_def)
qed

lemma bind_protocol_cases:
  assumes "session_inv C (w\<lparr>sp_state := st\<rparr>)" "sp_state w = OpenConfirm" "sp_protocol w \<noteq> Some i"
    "cn_state (sp_conns w i) = OpenConfirm" "bind_protocol A P i w = (w', r)"
  shows "(sp_protocol w = None \<and> w' = set_protocol i w \<and> r = Inr True) \<or>
    (sp_protocol w \<noteq> None \<and> session_inv C w' \<and> same_running w w' \<and> sp_protocol w' \<noteq> Some i \<and> r \<noteq> Inr True)"
proof (cases "sp_protocol w")
  case None
  then show ?thesis using assms(4,5) by (simp add: bind_protocol_def)
next
  case (Some j)
  have inv: "session_inv C w" using assms(1,2) Some by (simp add: session_inv_def)
  have b: "st_bind (send_collision_err_and_stop A P i) (\<lambda>_ w. (w, Inr False)) w = (w', r)"
    using assms(2,4,5) Some by (simp add: bind_protocol_def Let_def)
  obtain v x where v: "send_collision_err_and_stop A P i w = (v, x)" by fastforce
  have "w' = v \<and> r \<noteq> Inr True" using b v by (cases x) (auto simp: st_bind_def)
  then show ?thesis using Some send_collision_inv [OF inv assms(3,4) v] by simp
qed

lemma session_inv_bound:
  assumes "session_inv C w" "cn_started (sp_conns w i)" "cn_peer (sp_conns w i)" "cn_state (sp_conns w i) = OpenConfirm"
  shows "session_inv C (upd_conn i (\<lambda>c. c\<lparr>cn_bound := True\<rparr>) (set_protocol i (set_bgp_state P OpenConfirm w)))"
proof -
  have c: "conn_inv C (sp_conns w k) \<and> (sp_next w \<le> k \<longrightarrow> conn_unused (sp_conns w k))" for k
    using session_invD(1,4) [OF assms(1), of k] by simp
  have "conn_inv C ((sp_conns w i)\<lparr>cn_bound := True\<rparr>) \<and> (sp_next w \<le> i \<longrightarrow> conn_unused ((sp_conns w i)\<lparr>cn_bound := True\<rparr>))"
    using c [of i] by (simp add: conn_inv_def conn_unused_def)
  then show ?thesis using c assms(2-4) by (simp add: session_inv_def set_protocol_def)
qed

lemma start_timers_inv:
  assumes "session_inv C w"
  shows "session_inv C (start_timers i t w)"
proof -
  have "mild w (start_timers i t w)" by (simp add: start_timers_def Let_def mild_def mild_conn_def)
  then show ?thesis by (rule session_inv_mild [OF assms])
qed

lemma handle_open_inv:
  assumes "session_inv C w" "cn_running (sp_conns w i)" "handle_open A P C i m w = (w', r)"
  shows "session_inv C w' \<and> same_running w w'"
proof (cases "cn_state (sp_conns w i) = OpenSent")
  case False
  then show ?thesis using assms by (auto simp: handle_open_def same_running_def)
next
  case sent: True
  then have np: "sp_protocol w \<noteq> Some i" using session_invD(2) [OF assms(1), of i] by auto
  obtain w1 r1 where w1: "validate_open_msg C i m w = (w1, r1)" by fastforce
  show ?thesis
  proof (cases r1)
    case (Inl e)
    then have "w' = w1" using assms(3) sent w1 by (simp add: handle_open_def st_bind_def)
    moreover have "session_inv C w1 \<and> same_running w w1"
      using w1 Inl assms(1) by (auto simp: validate_open_msg_def same_running_def conn_inv_def conn_unused_def
          split: sum.splits if_splits intro!: session_inv_upd [OF assms(1) _ np])
    ultimately show ?thesis by simp
  next
    case (Inr u)
    note ok = validate_open_msg_ok [OF w1 [unfolded Inr]]
    let ?w2 = "upd_conn i (\<lambda>c. c\<lparr>cn_recv_open := Some m, cn_state := OpenConfirm\<rparr>) w1"
    let ?w3 = "set_bgp_state P OpenConfirm ?w2"
    have st: "cn_started (sp_conns w i)" "\<not> cn_spawned (sp_conns w i)"
      using session_invD(1) [OF assms(1), of i] sent assms(2) ok(2) by (auto simp: conn_inv_def)
    have w2: "session_inv C ?w2" unfolding ok(3)
      using assms(1) np st ok(1) by (auto simp: session_inv_def conn_inv_def conn_unused_def)
    have same3: "same_running w ?w3" using ok(3) by (simp add: same_running_def)
    obtain w4 r4 where w4: "bind_protocol A P i ?w3 = (w4, r4)" by fastforce
    have "session_inv C (?w3\<lparr>sp_state := sp_state ?w2\<rparr>)" using w2 by (simp add: session_inv_def)
    from bind_protocol_cases [OF this _ _ _ w4]
    consider (bound) "sp_protocol w = None" "w4 = set_protocol i ?w3" "r4 = Inr True"
      | (lost) "session_inv C w4" "same_running ?w3 w4" "sp_protocol w4 \<noteq> Some i" "r4 \<noteq> Inr True"
      using np ok(3) by auto
    then show ?thesis
    proof cases
      case bound
      let ?w5 = "upd_conn i (\<lambda>c. c\<lparr>cn_bound := True\<rparr>) w4"
      have "cn_started (sp_conns ?w2 i)" "cn_peer (sp_conns ?w2 i)" "cn_state (sp_conns ?w2 i) = OpenConfirm"
        using st ok by simp_all
      then have w5: "session_inv C ?w5" unfolding bound(2) by (rule session_inv_bound [OF w2])
      have "same_running w ?w5" unfolding bound(2) ok(3) by (simp add: same_running_def set_protocol_def)
      note w5 = w5 this
      let ?w6 = "start_timers i (bo_hold_time m) ?w5"
      have w6: "session_inv C ?w6" "same_running w ?w6"
        using start_timers_inv [OF w5(1)] w5(2) by (simp_all add: start_timers_def Let_def)
      have r: "(if bo_hold_time m = 0 then (?w5, Inr ()) else conn_send A P i MKeepAlive ?w6) = (w', r)"
        using assms(3) sent w1 Inr w4 bound(3) by (simp add: handle_open_def st_bind_def Let_def)
      show ?thesis
      proof (cases "bo_hold_time m = 0")
        case True
        then show ?thesis using r w5 by simp
      next
        case False
        then have m: "mild ?w6 w'" using r conn_send_mild [OF w6(1)] by simp
        then show ?thesis using session_inv_mild [OF w6(1) m] mild_running [OF m] w6(2) by (simp add: same_running_def)
      qed
    next
      case lost
      have c: "session_inv C (upd_conn i (\<lambda>c. c\<lparr>cn_bound := False\<rparr>) w4)"
        by (rule session_inv_upd [OF lost(1) _ lost(3)]) (simp_all add: conn_inv_def conn_unused_def)
      have "w' = w4 \<or> w' = upd_conn i (\<lambda>c. c\<lparr>cn_bound := False\<rparr>) w4"
        using assms(3) sent w1 Inr w4 lost(4) by (cases r4) (auto simp: handle_open_def st_bind_def Let_def)
      moreover have "same_running w w4" using lost(2) same3 by (auto simp: same_running_def)
      ultimately show ?thesis using c lost(1) by auto
    qed
  qed
qed

section \<open>Octets\<close>

lemma handle_msg_inv:
  assumes "session_inv C w" "cn_running (sp_conns w i)" "handle_msg A P C i m w = (w', r)"
  shows "session_inv C w' \<and> same_running w w'"
proof (cases m)
  case (MOpen x)
  then show ?thesis using assms handle_open_inv by simp
next
  case (MNotification code subcode d)
  then have "mild w w'" using assms(3) by (auto split: if_splits)
  then show ?thesis using session_inv_mild [OF assms(1)] mild_running by blast
qed (use assms peer_handle_msg_inv [of C w P m w' r] in \<open>auto split: if_splits simp del: peer_handle_msg.simps\<close>)

lemma data_loop_inv:
  "session_inv C w \<Longrightarrow> cn_running (sp_conns w i) \<Longrightarrow> data_loop A X P C i buf g w = (b, g', w', r) \<Longrightarrow>
     session_inv C w'"
proof (induction A X P C i buf g w rule: data_loop.induct)
  case (1 A X P C i buf g w)
  show ?case
  proof (cases "frame_check buf")
    case (Whole n)
    obtain g1 mr where p: "message_parse A X buf g = (g1, mr)" by fastforce
    show ?thesis
    proof (cases mr)
      case (Inl e)
      then show ?thesis using 1 Whole p by (simp add: data_loop.simps [of A X P C i buf])
    next
      case (Inr y)
      obtain m rest where y: "y = (m, rest)" by (cases y)
      obtain w1 h where h: "handle_msg A P C i m w = (w1, h)" by fastforce
      have inv: "session_inv C w1" "cn_running (sp_conns w1 i)"
        using handle_msg_inv [OF "1.prems"(1,2) h] "1.prems"(2) by (simp_all add: same_running_def)
      show ?thesis
      proof (cases h)
        case (Inl e)
        then show ?thesis using "1.prems"(3) Whole p \<open>mr = Inr y\<close> y h inv(1) by (simp add: data_loop.simps [of A X P C i buf])
      next
        case (Inr u)
        then have d: "data_loop A X P C i (drop n buf) g1 w1 = (b, g', w', r)"
          using "1.prems"(3) Whole p \<open>mr = Inr y\<close> y h by (simp add: data_loop.simps [of A X P C i buf])
        show ?thesis
          by (rule "1.IH" [OF Whole p [symmetric] \<open>mr = Inr y\<close> y [symmetric] h [symmetric] Inr inv d])
      qed
    qed
  qed (use 1 in \<open>simp_all add: data_loop.simps [of A X P C i buf]\<close>)
qed

lemma recv_step_inv:
  assumes "session_inv C (bw_speaker s)" "cn_running (sp_conns (bw_speaker s) i)"
  shows "session_inv C (bw_speaker (recv_step A X P C i bs s))"
proof (cases "\<not> cn_open (sp_conns (bw_speaker s) i) \<or> bs = []")
  case True
  then show ?thesis using conn_ended_inv [OF assms(1)] by (simp add: recv_step_def Let_def)
next
  case False
  obtain b g w r where d: "data_loop A X P C i (bw_buffs s i @ bs) (bw_agg4 s) (bw_speaker s) = (b, g, w, r)"
    by (metis prod_cases4)
  then have inv: "session_inv C w" by (rule data_loop_inv [OF assms])
  have "bw_speaker (recv_step A X P C i bs s) =
      (case r of Inr _ \<Rightarrow> w | Inl e \<Rightarrow> conn_ended P i (fst (notify_exc A P i e w)))"
    using False d unfolding recv_step_def Let_def by simp
  then show ?thesis
    using inv conn_ended_inv [OF session_inv_mild [OF inv notify_exc_mild [OF inv]]] by (cases r) simp_all
qed

section \<open>Connections and configuration\<close>

lemma connection_made_inv:
  assumes "session_inv C w" "sp_protocol w \<noteq> Some i" "cn_started (sp_conns w i)" "i < sp_next w"
    "connection_made A P C i w = (w', r)"
  shows "session_inv C w' \<and> sp_protocol w' \<noteq> Some i \<and> cn_started (sp_conns w' i)"
proof (cases "cn_state (sp_conns w i) = Connect")
  case False
  then show ?thesis using assms by (auto simp: connection_made_def)
next
  case True
  let ?f = "\<lambda>c. c\<lparr>cn_holdtime := bo_hold_time (create_open_msg C), cn_state := OpenSent, cn_sent_open := Some (create_open_msg C)\<rparr>"
  let ?w1 = "upd_conn i ?f w"
  have w1: "session_inv C ?w1"
    by (rule session_inv_upd [OF assms(1) _ assms(2)])
      (use assms(3,4) session_invD(1) [OF assms(1), of i] in \<open>simp_all add: conn_inv_def\<close>)
  define w2 where "w2 = (if cn_reactive (sp_conns ?w1 i) then ?w1 else set_bgp_state P OpenSent ?w1)"
  have w2: "session_inv C w2" "sp_protocol w2 \<noteq> Some i" "cn_started (sp_conns w2 i)"
    using w1 session_inv_set_state [OF w1, of OpenSent P] assms(2,3) by (simp_all add: w2_def)
  obtain v x where v: "conn_send A P i (MOpen (create_open_msg C)) w2 = (v, x)" by fastforce
  then have m: "mild w2 v" by (rule conn_send_mild [OF w2(1)])
  have "w' = v" using assms(5) True v by (cases x) (auto simp: connection_made_def Let_def w2_def st_bind_def)
  moreover have "cn_started (sp_conns v i)" using m w2 by (simp add: mild_def)
  ultimately show ?thesis using session_inv_mild [OF w2(1) m] mild_protocol [OF m] w2(2) by auto
qed

lemma conn_run_inv:
  assumes "session_inv C w" "cn_spawned (sp_conns w i)"
  shows "session_inv C (conn_run A P C i w)"
proof -
  have n: "sp_protocol w \<noteq> Some i" "i < sp_next w"
    using session_invD [OF assms(1)] assms(2) by (auto simp: conn_inv_def conn_unused_def not_less dest!: spec [of _ i] simp flip: not_less)
  let ?w = "upd_conn i (\<lambda>c. c\<lparr>cn_spawned := False, cn_started := True, cn_peer := True\<rparr>) w"
  have w: "session_inv C ?w"
    by (rule session_inv_upd [OF assms(1) _ n(1)]) (use n in \<open>simp_all add: conn_inv_def\<close>)
  obtain w' r where r: "connection_made A P C i ?w = (w', r)" by fastforce
  have m: "session_inv C w'" "sp_protocol w' \<noteq> Some i" "cn_started (sp_conns w' i)"
    using connection_made_inv [OF w _ _ _ r] n by simp_all
  have "i < sp_next w'" using session_invD(4) [OF m(1), of i] m(3) by (auto simp: conn_unused_def not_less [symmetric])
  then have "session_inv C (upd_conn i (\<lambda>c. c\<lparr>cn_running := True\<rparr>) w')"
    by (intro session_inv_upd m(1,2)) (use m(3) in \<open>simp_all add: conn_inv_def\<close>)
  then show ?thesis using r activity_end_inv [OF m(1,2)] by (cases r) (simp_all add: conn_run_def Let_def)
qed

lemma start_protocol_inv:
  assumes "session_inv C w"
  shows "session_inv C (start_protocol A P C reactive remote loc w)"
proof -
  let ?i = "sp_next w"
  define v where "v = upd_conn ?i (\<lambda>_. new_conn reactive remote loc) (w\<lparr>sp_next := Suc ?i\<rparr>)"
  have np: "sp_protocol w \<noteq> Some ?i" using session_invD(2,4) [OF assms, of ?i] by (auto simp: conn_unused_def)
  have v: "session_inv C v"
    unfolding v_def using assms np by (auto simp: session_inv_def new_conn_def conn_inv_def conn_unused_def)
  have "session_inv C (fst (send_notification A P ?i code subcode v))" for code subcode
    using session_inv_mild [OF v send_notification_mild [OF v]] by (metis prod.collapse)
  moreover have "session_inv C (upd_conn ?i (\<lambda>c. c\<lparr>cn_spawned := True\<rparr>) v)"
    by (rule session_inv_upd [OF v]) (use np in \<open>simp_all add: v_def new_conn_def conn_inv_def\<close>)
  ultimately show ?thesis unfolding start_protocol_def Let_def v_def [symmetric] by simp
qed

lemma hold_expired_inv:
  assumes "session_inv C w"
  shows "session_inv C (fst (hold_expired A P i w))"
proof -
  obtain w1 r1 where w1: "send_notification A P i 4 1 w = (w1, r1)" by fastforce
  have i1: "session_inv C w1" by (rule session_inv_mild [OF assms send_notification_mild [OF assms w1]])
  obtain w2 r2 where w2: "connection_lost P i w1 = (w2, r2)" by fastforce
  note m = connection_lost_mild [OF i1 w2]
  have i2: "session_inv C w2" by (rule session_inv_mild [OF i1 m(2)])
  have "session_inv C (fst (conn_stop i w2))" by (rule conn_stop_inv [OF i2 m(3)]) (simp add: m(4))
  then show ?thesis using w1 w2 m(1) i1 by (cases r1) (simp_all add: hold_expired_def st_bind_def)
qed

lemma connect_inv:
  "session_inv C w \<Longrightarrow> session_inv C (connect_begin P w)"
  "session_inv C w \<Longrightarrow> session_inv C (connect_failed P w)"
  "session_inv C w \<Longrightarrow> session_inv C (connect_done w)"
  by (simp_all add: connect_begin_def connect_failed_def connect_done_def session_inv_set_state)

lemma disable_inv:
  assumes "session_inv C w" "sp_protocol w = Some k"
  shows "session_inv C (fst (st_bind (conn_stop k) (\<lambda>_ w. ((set_bgp_state P Idle (w\<lparr>sp_protocol := None\<rparr>))\<lparr>sp_retry := False\<rparr>, Inr ())) w))"
  using assms session_invD(2) [OF assms]
  by (auto simp: st_bind_def conn_stop_def session_inv_def conn_inv_def conn_unused_def)

lemma set_enabled_inv:
  assumes "session_inv C w"
  shows "session_inv C (fst (set_enabled A P en w))"
proof -
  let ?w = "w\<lparr>sp_enabled := en\<rparr>"
  have inv: "session_inv C ?w" using assms by simp
  show ?thesis
  proof (cases "en \<or> sp_protocol w = None")
    case True
    then show ?thesis using inv by (auto simp: set_enabled_def Let_def session_inv_set_state split: option.splits)
  next
    case False
    then obtain j where j: "sp_protocol w = Some j" "\<not> en" by auto
    obtain v x where v: "send_notification A P j 6 2 ?w = (v, x)" by fastforce
    have iv: "session_inv C v" by (rule session_inv_mild [OF inv send_notification_mild [OF inv v]])
    show ?thesis
    proof (cases "sp_protocol v")
      case None
      then show ?thesis using j v iv by (cases x) (simp_all add: set_enabled_def st_bind_def)
    next
      case (Some k)
      then show ?thesis using j v iv disable_inv [OF iv Some, of P]
        by (cases x) (simp_all add: set_enabled_def st_bind_def [of "send_notification A P j 6 2"])
    qed
  qed
qed

section \<open>Every reachable state\<close>

lemma bgp_step_inv:
  assumes "bgp_step A X P C s s'" "session_inv C (bw_speaker s)"
  shows "session_inv C (bw_speaker s')"
  using assms(1)
proof cases
  case (keepalive i t)
  obtain v x where v: "conn_send A P i MKeepAlive (bw_speaker s) = (v, x)" by fastforce
  then show ?thesis using keepalive session_inv_mild [OF assms(2) conn_send_mild [OF assms(2) v]] by simp
next
  case (reset i)
  then show ?thesis using session_inv_mild [OF assms(2) mild_shut [of "bw_speaker s" i]] by simp
qed (use assms(2) in \<open>simp_all add: start_protocol_inv conn_run_inv recv_step_inv hold_expired_inv connect_inv set_enabled_inv\<close>)

lemma bgp_start_inv: "session_inv C (bw_speaker (bgp_start en core g))"
  by (simp add: bgp_start_def session_inv_def conn_inv_def conn_unused_def new_conn_def)

lemma bgp_reachable_inv: "bgp_reachable A X P C s \<Longrightarrow> session_inv C (bw_speaker s)"
  by (induction rule: bgp_reachable.induct) (auto intro: bgp_start_inv bgp_step_inv)

end
