(* ===== verification/Bgp_Speaker.thy ===== *)
theory Bgp_Speaker
  imports Bgp_Fsm_Inv Bgp_Core
begin

text \<open>
  The session on top of the tables: what \<^verbatim>\<open>Bgp_Core\<close> does for an UPDATE that a connection has received, and
  the answers of a session to its messages.
\<close>

section \<open>From the wire to the tables\<close>

text \<open>\<^verbatim>\<open>pathattr_map\<close> keeps the last attribute of a type.\<close>

definition last_of :: "('v \<Rightarrow> 'x option) \<Rightarrow> 'v list \<Rightarrow> 'x option" where
  "last_of f vs = (case List.map_filter f vs of [] \<Rightarrow> None | xs \<Rightarrow> Some (last xs))"

fun as_path_of :: "'e attr_value \<Rightarrow> as_segment list option" where
  "as_path_of (PaAsPath four ss) = Some ss" | "as_path_of _ = None"

fun as4_path_of :: "'e attr_value \<Rightarrow> as_segment list option" where
  "as4_path_of (PaAs4Path ss) = Some ss" | "as4_path_of _ = None"

fun aggregator_of :: "'e attr_value \<Rightarrow> int option" where
  "aggregator_of (PaAggregator n a) = Some n" | "aggregator_of _ = None"

fun as4_aggregator_of :: "'e attr_value \<Rightarrow> int option" where
  "as4_aggregator_of (PaAs4Aggregator n a) = Some n" | "as4_aggregator_of _ = None"

fun origin_of :: "'e attr_value \<Rightarrow> int option" where
  "origin_of (PaOrigin v) = Some v" | "origin_of _ = None"

fun next_hop_of :: "'e attr_value \<Rightarrow> string option" where
  "next_hop_of (PaNextHop a) = Some a" | "next_hop_of _ = None"

fun local_pref_of :: "'e attr_value \<Rightarrow> int option" where
  "local_pref_of (PaLocalPref v) = Some v" | "local_pref_of _ = None"

fun med_of :: "'e attr_value \<Rightarrow> int option" where
  "med_of (PaMultiExitDisc v) = Some v" | "med_of _ = None"

fun originator_of :: "'e attr_value \<Rightarrow> string option" where
  "originator_of (PaOriginatorId a) = Some a" | "originator_of _ = None"

fun cluster_of :: "'e attr_value \<Rightarrow> string list option" where
  "cluster_of (PaClusterList as) = Some as" | "cluster_of _ = None"

fun communities_of :: "'e attr_value \<Rightarrow> int list option" where
  "communities_of (PaCommunities cs) = Some cs" | "communities_of _ = None"

text \<open>\<^verbatim>\<open>prefix\<close>, the key of the tables; the length is an octet.\<close>

definition nlri_text :: "string \<times> int \<Rightarrow> string \<times> int" where
  "nlri_text = (\<lambda>(addr, len). (addr @ ''/'' @ dec_text (word_of_int len), len))"

fun rts_of :: "'e attr_value \<Rightarrow> string list option" where
  "rts_of (PaExtComms cs) = Some (rt_list cs)" | "rts_of _ = None"

text \<open>The message that \<^verbatim>\<open>Bgp_Core\<close> handles.\<close>

definition update_of :: "'e wire_update \<Rightarrow> bgp_update" where
  "update_of u =
     (let vs = map pa_value (wu_attrs u) in
      \<lparr>up_as_path = last_of as_path_of vs, up_as4_path = last_of as4_path_of vs,
       up_aggregator = last_of aggregator_of vs, up_as4_aggregator = last_of as4_aggregator_of vs,
       up_origin = last_of origin_of vs, up_next_hop = last_of next_hop_of vs,
       up_local_pref = last_of local_pref_of vs, up_med = last_of med_of vs,
       up_originator_id = last_of originator_of vs, up_cluster_list = last_of cluster_of vs,
       up_communities = last_of communities_of vs, up_rts = last_of rts_of vs,
       up_nlri = map nlri_text (wu_nlri u), up_withdrawn = map nlri_text (wu_withdrawn u)\<rparr>)"

text \<open>\<^verbatim>\<open>_handle_update_msg\<close> for neighbour \<open>j\<close>; what an exception leaves behind in the tables is not modelled.\<close>

definition core_update :: "netaddr \<Rightarrow> nat \<Rightarrow> 'e wire_update \<Rightarrow> bgp_core \<Rightarrow> bgp_core \<times> unit res" where
  "core_update within j u c =
     (case handle_update_msg within j (update_of u) c of Inl e \<Rightarrow> (c, Inl e) | Inr c' \<Rightarrow> (c', Inr ()))"

text \<open>The state that the rest of the speaker asks for.\<close>

definition core_state :: "nat \<Rightarrow> fsm \<Rightarrow> bgp_core \<Rightarrow> bgp_core" where
  "core_state j s c = put_session j ((co_sessions c j)\<lparr>se_established := (s = Established)\<rparr>) c"

text \<open>The end of a session: its queue is emptied, and the paths of its version become stale and are cleaned.\<close>

definition core_down :: "nat \<Rightarrow> bgp_core \<Rightarrow> bgp_core" where
  "core_down j c =
     (let s = co_sessions c j in
      clean_stale_routes j (put_session j (s\<lparr>se_outgoing := [], se_version_num := se_version_num s + 1\<rparr>) c))"

definition core_ops :: "netaddr \<Rightarrow> nat \<Rightarrow> (bgp_core, 'e) peer_ops \<Rightarrow> (bgp_core, 'e) peer_ops" where
  "core_ops within j P = P\<lparr>po_state := core_state j, po_update := core_update within j, po_down := core_down j\<rparr>"

section \<open>What a session sends\<close>

lemma notification_bytes:
  "in_range 1 code \<Longrightarrow> in_range 1 subcode \<Longrightarrow> \<exists>b. session_bytes A (MNotification code subcode []) = Inr b"
  by (simp add: session_bytes_def message_serialize_def in_range_def BGP_HDR_LEN_def MARKER_def)

definition keepalive_bytes :: bytes where
  "keepalive_bytes = MARKER @ [0, 19, 4]"

lemma keepalive_session_bytes: "session_bytes A MKeepAlive = Inr keepalive_bytes"
proof -
  have "length MARKER = 16" by (simp add: MARKER_def)
  then have "pack [FS 16, fH, fB] [VS MARKER, VI 19, VI 4] = Inr (MARKER @ be_bytes 2 19 @ be_bytes 1 4)" by simp
  moreover have "be_bytes 2 19 @ be_bytes 1 4 = [0, 19, 4]" by (simp add: numeral_2_eq_2)
  ultimately show ?thesis by (simp add: session_bytes_def message_serialize_def BGP_HDR_LEN_def keepalive_bytes_def)
qed

lemma send_notification_open:
  assumes "session_bytes A (MNotification code subcode []) = Inr b" "cn_open (sp_conns w i)"
  shows "send_notification A P i code subcode w =
    (report (EvClosed i) (upd_conn i (\<lambda>c. c\<lparr>cn_open := False\<rparr>) (report (EvError code subcode) (report (EvSent i b) w))), Inr ())"
  using assms by (simp add: send_notification_def send_with_lock_def st_bind_def)

section \<open>An OPEN that is accepted\<close>

lemma more_fields [simp]:
  "sp_connecting (report e w) = sp_connecting w" "sp_connecting (upd_conn i f w) = sp_connecting w"
  "sp_connecting (set_bgp_state P s w) = sp_connecting w"
  "sp_retry (report e w) = sp_retry w" "sp_retry (upd_conn i f w) = sp_retry w"
  "sp_retry (set_bgp_state P s w) = sp_retry w"
  by (simp_all add: report_def upd_conn_def set_bgp_state_def Let_def)

lemma handle_open_accepted:
  fixes P :: "('c, 'e) peer_ops" and w :: "'c bgp_speaker"
  assumes "cn_state (sp_conns w i) = OpenSent" "cn_peer (sp_conns w i)" "open_accepted C m"
  defines "v \<equiv> set_bgp_state P OpenConfirm (upd_conn i (\<lambda>c. c\<lparr>cn_cap4 := (opt_param_cap m 65 \<noteq> None),
      cn_recv_open := Some m, cn_state := OpenConfirm\<rparr>) w)"
  shows "handle_open A P C i m w =
    st_bind (bind_protocol A P i) (\<lambda>bound w.
      let w = upd_conn i (\<lambda>c. c\<lparr>cn_bound := bound\<rparr>) w in
      if \<not> bound then (w, Inl (RyuError ''CollisionResolution''))
      else if bo_hold_time m = 0 then (w, Inr ())
      else conn_send A P i MKeepAlive (start_timers i (bo_hold_time m) w)) v"
proof -
  have "validate_open_msg C i m w = (upd_conn i (\<lambda>c. c\<lparr>cn_cap4 := (opt_param_cap m 65 \<noteq> None)\<rparr>) w, Inr ())"
    using assms(2,3) by (simp add: validate_open_msg_def open_accepted_def)
  moreover have "upd_conn i (\<lambda>c. c\<lparr>cn_recv_open := Some m, cn_state := OpenConfirm\<rparr>)
      (upd_conn i (\<lambda>c. c\<lparr>cn_cap4 := (opt_param_cap m 65 \<noteq> None)\<rparr>) w) =
    upd_conn i (\<lambda>c. c\<lparr>cn_cap4 := (opt_param_cap m 65 \<noteq> None), cn_recv_open := Some m, cn_state := OpenConfirm\<rparr>) w"
    by (simp add: upd_conn_def)
  ultimately show ?thesis using assms(1) by (simp add: handle_open_def st_bind_def [of "validate_open_msg C i m"] v_def)
qed

lemma set_bgp_state_log:
  "sp_state w \<noteq> Established \<Longrightarrow> s \<noteq> Established \<Longrightarrow> sp_log (set_bgp_state P s w) = sp_log w"
  by (simp add: set_bgp_state_def Let_def)

lemma upd_conn_log [simp]: "sp_log (upd_conn i f w) = sp_log w"
  by (simp add: upd_conn_def)

lemma open_answer:
  assumes "sp_protocol w = None" "sp_state w \<noteq> Established" "cn_state (sp_conns w i) = OpenSent"
    "cn_peer (sp_conns w i)" "cn_started (sp_conns w i)" "cn_open (sp_conns w i)" "open_accepted C m"
  shows "\<exists>w'. handle_open A P C i m w = (w', Inr ()) \<and> sp_protocol w' = Some i \<and> sp_state w' = OpenConfirm \<and>
    cn_bound (sp_conns w' i) \<and> cn_recv_open (sp_conns w' i) = Some m \<and> cn_peer (sp_conns w' i) \<and> cn_open (sp_conns w' i) \<and>
    cn_running (sp_conns w' i) = cn_running (sp_conns w i) \<and> sp_connecting w' = sp_connecting w \<and>
    (if bo_hold_time m = 0
     then sp_log w' = sp_log w \<and> cn_keepalive (sp_conns w' i) = cn_keepalive (sp_conns w i) \<and> cn_expiry (sp_conns w' i) = cn_expiry (sp_conns w i)
     else sp_log w' = sp_log w @ [EvSent i keepalive_bytes] \<and>
       cn_expiry (sp_conns w' i) = Some (min (cn_holdtime (sp_conns w i)) (bo_hold_time m)) \<and>
       cn_keepalive (sp_conns w' i) = Some (min (cn_holdtime (sp_conns w i)) (bo_hold_time m) div 3))"
proof -
  let ?u = "upd_conn i (\<lambda>c. c\<lparr>cn_cap4 := (opt_param_cap m 65 \<noteq> None), cn_recv_open := Some m, cn_state := OpenConfirm\<rparr>) w"
  let ?v = "set_bgp_state P OpenConfirm ?u"
  have b: "bind_protocol A P i ?v = (set_protocol i ?v, Inr True)"
    using assms(1) by (simp add: bind_protocol_def)
  have log: "sp_log ?v = sp_log w" using set_bgp_state_log [of ?u OpenConfirm P] assms(2) by simp
  have h: "handle_open A P C i m w =
    (let w = upd_conn i (\<lambda>c. c\<lparr>cn_bound := True\<rparr>) (set_protocol i ?v) in
      if bo_hold_time m = 0 then (w, Inr ()) else conn_send A P i MKeepAlive (start_timers i (bo_hold_time m) w))"
    unfolding handle_open_accepted [OF assms(3,4,7)] st_bind_def b by simp
  show ?thesis
  proof (cases "bo_hold_time m = 0")
    case True
    then show ?thesis unfolding h using log assms(4,6) by (simp add: set_protocol_def)
  next
    case False
    then show ?thesis unfolding h using log assms(4-6)
      by (simp add: set_protocol_def conn_send_def send_with_lock_def start_timers_def Let_def keepalive_session_bytes st_bind_def report_def)
  qed
qed

section \<open>A second connection\<close>

lemma second_open:
  assumes "session_inv C w" "sp_protocol w = Some j" "cn_state (sp_conns w i) = OpenSent" "cn_running (sp_conns w i)"
    "cn_peer (sp_conns w i)" "cn_open (sp_conns w i)" "open_accepted C m"
  shows "\<exists>w'. handle_open A P C i m w = (w', Inl (RyuError ''CollisionResolution'')) \<and> sp_protocol w' = Some j \<and>
    sp_state w' = OpenConfirm \<and> \<not> cn_open (sp_conns w' i) \<and> cn_peer (sp_conns w' j)"
proof -
  have j: "j \<noteq> i" "cn_peer (sp_conns w j)" using session_invD(2) [OF assms(1,2)] assms(3) by auto
  have st: "cn_started (sp_conns w i)" using session_invD(1) [OF assms(1), of i] assms(3-5) by (simp add: conn_inv_def)
  let ?u = "upd_conn i (\<lambda>c. c\<lparr>cn_cap4 := (opt_param_cap m 65 \<noteq> None), cn_recv_open := Some m, cn_state := OpenConfirm\<rparr>) w"
  let ?v = "set_bgp_state P OpenConfirm ?u"
  obtain nb where nb: "session_bytes A (MNotification 6 7 []) = Inr nb" using notification_bytes [of 6 7 A] by (auto simp: in_range_def)
  let ?w1 = "report (EvClosed i) (upd_conn i (\<lambda>c. c\<lparr>cn_open := False\<rparr>) (report (EvError 6 7) (report (EvSent i nb) (report (EvError 6 7) ?v))))"
  have n: "send_notification A P i 6 7 (report (EvError 6 7) ?v) = (?w1, Inr ())"
    by (rule send_notification_open [OF nb]) (simp add: assms(6))
  obtain w2 where w2: "conn_stop i ?w1 = (w2, Inr ())" "sp_protocol w2 = Some j" "sp_state w2 = OpenConfirm"
    "\<not> cn_open (sp_conns w2 i)" "sp_conns w2 j = sp_conns w j"
    using st j(1) assms(2) by (simp add: conn_stop_def)
  have "send_collision_err_and_stop A P i ?v = (w2, Inr ())"
    unfolding send_collision_err_and_stop_def st_bind_def n using w2(1) by simp
  then have b: "bind_protocol A P i ?v = (w2, Inr False)" using assms(2) by (simp add: bind_protocol_def Let_def st_bind_def)
  show ?thesis unfolding handle_open_accepted [OF assms(3,5,7)] st_bind_def b using w2 j by simp
qed

section \<open>The connect loop\<close>

lemma dial_failure:
  assumes "session_inv C w" "sp_state w = Established"
  obtains j where "sp_protocol w = Some j" "sp_protocol (connect_failed P w) = Some j" "sp_state (connect_failed P w) = Active"
    "sp_conns (connect_failed P w) = sp_conns w" "cn_peer (sp_conns w j)" "cn_bound (sp_conns w j)"
proof -
  obtain j where j: "sp_protocol w = Some j" using session_invD(3) [OF assms(1)] assms(2) by auto
  then show ?thesis using session_invD(2) [OF assms(1) j] by (intro that [of j]) (simp_all add: connect_failed_def)
qed

lemma conn_run_reactive:
  assumes "cn_state (sp_conns w i) = Connect" "cn_reactive (sp_conns w i)" "cn_open (sp_conns w i)"
    "session_bytes A (MOpen (create_open_msg C)) = Inr ob"
  shows "\<exists>w'. conn_run A P C i w = w' \<and> sp_state w' = sp_state w \<and> sp_protocol w' = sp_protocol w \<and>
    sp_connecting w' = sp_connecting w \<and> cn_state (sp_conns w' i) = OpenSent \<and> cn_peer (sp_conns w' i) \<and>
    cn_started (sp_conns w' i) \<and> cn_running (sp_conns w' i) \<and> cn_open (sp_conns w' i)"
  using assms by (simp add: conn_run_def connection_made_def conn_send_def send_with_lock_def st_bind_def Let_def)

lemma recv_message:
  assumes "addrconv_ok A" "message_wf A X (bw_agg4 s) m" "message_serialize A X (bw_agg4 s) m = Inr b" "length b \<le> 4096"
    "bw_buffs s i = []" "cn_open (sp_conns (bw_speaker s) i)" "handle_msg A P C i m (bw_speaker s) = (w', Inr ())"
  shows "recv_step A X P C i b s = s\<lparr>bw_buffs := (bw_buffs s)(i := []), bw_speaker := w'\<rparr>"
proof -
  have "list_all2 (\<lambda>m b. message_wf A X (bw_agg4 s) m \<and> message_serialize A X (bw_agg4 s) m = Inr b \<and> length b \<le> 4096) [m] [b]"
    using assms(2-4) by simp
  from data_loop_stream [OF assms(1) this, of P C i "bw_speaker s"]
  have d: "data_loop A X P C i b (bw_agg4 s) (bw_speaker s) = ([], bw_agg4 s, w', Inr ())"
    using assms(7) by (simp add: st_bind_def prod_eq_iff)
  obtain body where "b = MARKER @ be_bytes 2 (int (19 + length body)) @ [word_of_int (msg_type m)] @ body"
    using message_header [OF assms(3)] by metis
  then have "b \<noteq> []" by simp
  then show ?thesis using assms(5,6) d by (simp add: recv_step_def Let_def)
qed

lemma keepalive_established:
  assumes "sp_state w = OpenConfirm" "cn_peer (sp_conns w i)" "po_init P (po_state P Established (sp_core w)) = (c', Inr ())"
  shows "\<exists>w'. handle_msg A P C i MKeepAlive w = (w', Inr ()) \<and> sp_state w' = Established \<and> sp_protocol w' = sp_protocol w \<and>
    sp_connecting w' = sp_connecting w \<and> sp_conns w' = sp_conns w \<and> sp_log w' = sp_log w @ [EvAdjUp]"
proof -
  have "sp_core (set_bgp_state P Established w) = po_state P Established (sp_core w)"
    "sp_log (set_bgp_state P Established w) = sp_log w @ [EvAdjUp]"
    using assms(1) by (simp_all add: set_bgp_state_def Let_def report_def)
  then show ?thesis using assms by (simp add: core_act_def)
qed

text \<open>
  The neighbour connects and the session is established while the speaker's own attempt to connect
  is still under way.
\<close>

lemma established_while_connecting:
  fixes P :: "('c, 'e) peer_ops" and core :: 'c
  assumes A: "addrconv_ok A" and C: "pc_mode C \<noteq> ModeActive" "session_bytes A (MOpen (create_open_msg C)) = Inr ob"
    and m: "open_wf A m" "open_accepted C m" "message_serialize A X g (MOpen m) = Inr b" "length b \<le> 4096"
    and P: "\<forall>c. \<exists>c'. po_init P c = (c', Inr ())"
  shows "\<exists>s. bgp_reachable A X P C s \<and> sp_state (bw_speaker s) = Established \<and> sp_connecting (bw_speaker s) \<and>
    sp_protocol (bw_speaker s) = Some 0 \<and> cn_open (sp_conns (bw_speaker s) 0) \<and> cn_running (sp_conns (bw_speaker s) 0)"
proof -
  define s0 where "s0 = bgp_start True core g"
  define s1 where "s1 = s0\<lparr>bw_speaker := connect_begin P (bw_speaker s0)\<rparr>"
  define s2 where "s2 = s1\<lparr>bw_speaker := start_protocol A P C True ''n'' ''l'' (bw_speaker s1)\<rparr>"
  define s3 where "s3 = s2\<lparr>bw_speaker := conn_run A P C 0 (bw_speaker s2)\<rparr>"
  have r0: "bgp_reachable A X P C s0" unfolding s0_def by (rule bgp_reachable.start)
  have f0: "sp_state (bw_speaker s0) = Idle" "sp_retry (bw_speaker s0)" "sp_enabled (bw_speaker s0)" "sp_next (bw_speaker s0) = 0"
    "sp_protocol (bw_speaker s0) = None" "\<not> sp_connecting (bw_speaker s0)" "bw_agg4 s0 = g" "bw_buffs s0 0 = []"
    by (simp_all add: s0_def bgp_start_def)
  have r1: "bgp_reachable A X P C s1" unfolding s1_def by (rule bgp_reachable.next_step [OF r0 bgp_step.dial]) (simp add: f0)
  have f1: "sp_state (bw_speaker s1) = Connect" "sp_enabled (bw_speaker s1)" "sp_next (bw_speaker s1) = 0"
    "sp_protocol (bw_speaker s1) = None" "sp_connecting (bw_speaker s1)"
    using f0 by (simp_all add: s1_def connect_begin_def)
  have r2: "bgp_reachable A X P C s2" unfolding s2_def by (rule bgp_reachable.next_step [OF r1 bgp_step.accept])
  have f2: "sp_state (bw_speaker s2) = Connect" "sp_protocol (bw_speaker s2) = None" "sp_connecting (bw_speaker s2)"
    "sp_conns (bw_speaker s2) 0 = (new_conn True ''n'' ''l'')\<lparr>cn_spawned := True\<rparr>"
    using f1 C(1) by (simp_all add: s2_def start_protocol_def Let_def upd_conn_def)
  have r3: "bgp_reachable A X P C s3" unfolding s3_def by (rule bgp_reachable.next_step [OF r2 bgp_step.run]) (simp add: f2)
  have f3: "sp_state (bw_speaker s3) = Connect" "sp_protocol (bw_speaker s3) = None" "sp_connecting (bw_speaker s3)"
    "cn_state (sp_conns (bw_speaker s3) 0) = OpenSent" "cn_peer (sp_conns (bw_speaker s3) 0)" "cn_started (sp_conns (bw_speaker s3) 0)"
    "cn_running (sp_conns (bw_speaker s3) 0)" "cn_open (sp_conns (bw_speaker s3) 0)"
    using conn_run_reactive [of "bw_speaker s2" 0, OF _ _ _ C(2), of P] f2 by (simp_all add: s3_def new_conn_def)
  have g3: "bw_agg4 s3 = g" "bw_buffs s3 0 = []" using f0 by (simp_all add: s3_def s2_def s1_def)
  obtain w4 where w4: "handle_msg A P C 0 (MOpen m) (bw_speaker s3) = (w4, Inr ())" "sp_protocol w4 = Some 0"
    "sp_state w4 = OpenConfirm" "cn_peer (sp_conns w4 0)" "cn_open (sp_conns w4 0)" "cn_running (sp_conns w4 0)" "sp_connecting w4"
    using open_answer [of "bw_speaker s3" 0 C m A P] f3 m(2) by auto
  define s4 where "s4 = recv_step A X P C 0 b s3"
  have r4: "bgp_reachable A X P C s4" unfolding s4_def by (rule bgp_reachable.next_step [OF r3 bgp_step.recv]) (simp add: f3)
  have s4: "s4 = s3\<lparr>bw_buffs := (bw_buffs s3)(0 := []), bw_speaker := w4\<rparr>" unfolding s4_def
    by (rule recv_message [OF A _ _ m(4) g3(2) f3(8) w4(1)]) (simp_all add: g3(1) m(1,3))
  have k: "message_serialize A X g (MKeepAlive :: 'e bgp_message) = Inr keepalive_bytes"
    using keepalive_session_bytes [of A] by (simp add: session_bytes_def message_serialize_def)
  obtain c' where c': "po_init P (po_state P Established (sp_core w4)) = (c', Inr ())" using P by blast
  obtain w5 where w5: "handle_msg A P C 0 MKeepAlive w4 = (w5, Inr ())" "sp_state w5 = Established"
    "sp_protocol w5 = sp_protocol w4" "sp_connecting w5 = sp_connecting w4" "sp_conns w5 = sp_conns w4"
    using keepalive_established [of w4 0 P, OF w4(3,4) c'] by blast
  define s5 where "s5 = recv_step A X P C 0 keepalive_bytes s4"
  have r5: "bgp_reachable A X P C s5" unfolding s5_def by (rule bgp_reachable.next_step [OF r4 bgp_step.recv]) (simp add: s4 w4(6))
  have "s5 = s4\<lparr>bw_buffs := (bw_buffs s4)(0 := []), bw_speaker := w5\<rparr>" unfolding s5_def
    by (rule recv_message [OF A, where m = MKeepAlive])
      (use k w4(5) w5(1) g3 in \<open>simp_all add: s4 keepalive_bytes_def MARKER_def\<close>)
  then have "bw_speaker s5 = w5" by simp
  then show ?thesis using r5 w4 w5 by (intro exI [of _ s5]) simp
qed

end
