(* ===== verification/Bgp_Session_Props.thy ===== *)
theory Bgp_Session_Props
  imports Bgp_Speaker Bgp_Props
begin

text \<open>The properties of the session with a neighbour and of the messages on the wire.\<close>

section \<open>Samples\<close>

lemma unix_ip4_text [simp]: "length b = 4 \<Longrightarrow> ip4_to_bin unix_addrconv (ip4_to_text unix_addrconv b) = Inr b"
  using unix_addrconv_ok by (simp add: addrconv_ok_def)

definition sample_ops :: "(unit, unit) peer_ops" where
  "sample_ops = \<lparr>po_state = (\<lambda>s c. c), po_init = (\<lambda>c. (c, Inr ())), po_update = (\<lambda>u c. (c, Inr ())),
     po_refresh = (\<lambda>afi safi dem c. (c, Inr ())), po_down = (\<lambda>c. c)\<rparr>"

definition sample_conf :: peer_conf where
  "sample_conf = \<lparr>pc_local_as = 65000, pc_remote_as = 65001, pc_router_id = ip4_to_text unix_addrconv [10, 0, 0, 1], pc_hold_time = 90,
     pc_opts = [OptCapability (CapMultiprotocol 1 0 1)], pc_mode = ModeBoth\<rparr>"

definition sample_open :: "int \<Rightarrow> bgp_open" where
  "sample_open hold = \<lparr>bo_version = 4, bo_my_as = 65001, bo_hold_time = hold, bo_identifier = ip4_to_text unix_addrconv [10, 0, 0, 2],
     bo_opt_param = [OptCapability (CapMultiprotocol 1 0 1), OptCapability CapRouteRefresh]\<rparr>"

text \<open>Connection 0 is bound, connection 1 has sent its OPEN and waits for the other side's.\<close>

definition sample_conn :: "fsm \<Rightarrow> bool \<Rightarrow> bgp_conn" where
  "sample_conn st bound = (new_conn bound ''10.0.0.2'' ''10.0.0.1'')\<lparr>cn_state := st, cn_started := True, cn_running := True,
     cn_peer := True, cn_bound := bound, cn_holdtime := 90, cn_sent_open := Some (create_open_msg sample_conf),
     cn_recv_open := (if bound then Some (sample_open 30) else None)\<rparr>"

definition sample_speaker :: "fsm \<Rightarrow> nat option \<Rightarrow> unit bgp_speaker" where
  "sample_speaker st p = \<lparr>sp_state = st, sp_protocol = p, sp_retry = False, sp_enabled = True, sp_connecting = False,
     sp_transitions = 0,
     sp_conns = (\<lambda>i. if i = 0 then sample_conn OpenConfirm True else if i = 1 then sample_conn OpenSent False else new_conn False [] []),
     sp_next = 2, sp_core = (), sp_log = []\<rparr>"

lemma sample_open_accepted: "open_accepted sample_conf (sample_open hold)"
  by (simp add: open_accepted_def sample_open_def sample_conf_def open_remote_as_def opt_param_cap_def AS_TRANS_def)

lemma sample_speaker_inv: "session_inv sample_conf (sample_speaker Established (Some 0))"
  by (simp add: session_inv_def sample_speaker_def sample_conn_def conn_inv_def conn_unused_def new_conn_def sample_open_accepted)

section \<open>Messages\<close>

text \<open>An UPDATE of the sample neighbour: a prefix withdrawn, one announced, with a path and a next hop.\<close>

definition sample_update_msg :: "unit bgp_message" where
  "sample_update_msg = MUpdate \<lparr>wu_withdrawn = [(ip4_to_text unix_addrconv [10, 2, 0, 0], 15)],
     wu_attrs = [\<lparr>pa_flags = 0x40, pa_value = PaOrigin 0\<rparr>,
       \<lparr>pa_flags = 0x40, pa_value = PaAsPath False [AsSequence [65001, 23456], AsSet [3, 5]]\<rparr>,
       \<lparr>pa_flags = 0x40, pa_value = PaNextHop (ip4_to_text unix_addrconv [10, 0, 0, 2])\<rparr>,
       \<lparr>pa_flags = 0xC0, pa_value = PaCommunities [0xFFFFFF01]\<rparr>,
       \<lparr>pa_flags = 0xD0, pa_value = PaAs4Path [AsSequence [65001, 70000]]\<rparr>,
       \<lparr>pa_flags = 0xC0, pa_value = PaAggregator 65001 (ip4_to_text unix_addrconv [10, 0, 0, 3])\<rparr>],
     wu_nlri = [(ip4_to_text unix_addrconv [10, 1, 0, 0], 16)]\<rparr>"

lemma be_bytes_numerals:
  "be_bytes 1 v = [word_of_int v]" "be_bytes 2 v = [word_of_int (v div 256), word_of_int v]"
  "be_bytes 4 v = [word_of_int (v div 16777216), word_of_int (v div 65536), word_of_int (v div 256), word_of_int v]"
  by (simp_all add: eval_nat_numeral flip: zdiv_zmult2_eq)

lemma sample_open_wf: "in_range 2 hold \<Longrightarrow> open_wf unix_addrconv (sample_open hold)"
  by (simp add: open_wf_def sample_open_def canon_ip4_def, simp add: in_range_def)

lemma sample_opt_bytes:
  "opt_serialize (OptCapability (CapMultiprotocol 1 0 1)) = Inr [2, 6, 1, 4, 0, 1, 0, 1]"
  "opt_serialize (OptCapability CapRouteRefresh) = Inr [2, 2, 2, 0]"
  by (simp_all add: tlv_def be_bytes_numerals)

lemma sample_open_bytes:
  "message_serialize unix_addrconv no_ext False (MOpen (sample_open 30)) =
    Inr (MARKER @ [0, 41, 1, 4, 253, 233, 0, 30, 10, 0, 0, 2, 12, 2, 6, 1, 4, 0, 1, 0, 1, 2, 2, 2, 0])"
  unfolding message_serialize_def body_serialize.simps open_serialize_def sample_open_def
  by (simp add: sample_opt_bytes MARKER_def BGP_HDR_LEN_def be_bytes_numerals del: opt_serialize.simps)

lemma sample_conf_bytes:
  "session_bytes unix_addrconv (MOpen (create_open_msg sample_conf)) =
    Inr (MARKER @ [0, 37, 1, 4, 253, 232, 0, 90, 10, 0, 0, 1, 8, 2, 6, 1, 4, 0, 1, 0, 1])"
  unfolding session_bytes_def message_serialize_def body_serialize.simps open_serialize_def create_open_msg_def sample_conf_def
  by (simp add: sample_opt_bytes MARKER_def BGP_HDR_LEN_def be_bytes_numerals is_valid_old_asn_def del: opt_serialize.simps)

lemma sample_established:
  "\<exists>s. bgp_reachable unix_addrconv no_ext sample_ops sample_conf s \<and> sp_state (bw_speaker s) = Established \<and>
    sp_connecting (bw_speaker s) \<and> sp_protocol (bw_speaker s) = Some 0 \<and> cn_open (sp_conns (bw_speaker s) 0) \<and>
    cn_running (sp_conns (bw_speaker s) 0)"
  by (rule established_while_connecting [OF unix_addrconv_ok _ sample_conf_bytes _ sample_open_accepted sample_open_bytes])
    (simp_all add: sample_open_wf in_range_def sample_conf_def sample_ops_def MARKER_def)

lemma sample_prefixes_wf:
  "prefix_wf unix_addrconv (ip4_to_text unix_addrconv [10, 2, 0, 0], 15)"
  "prefix_wf unix_addrconv (ip4_to_text unix_addrconv [10, 1, 0, 0], 16)"
  by (simp_all add: prefix_wf_def prefix_bin_def Let_def numeral_2_eq_2)

lemma sample_attrs_wf:
  "attr_wf unix_addrconv no_ext False \<lparr>pa_flags = 0x40, pa_value = PaOrigin 0\<rparr>"
  "attr_wf unix_addrconv no_ext False \<lparr>pa_flags = 0x40, pa_value = PaAsPath False [AsSequence [65001, 23456], AsSet [3, 5]]\<rparr>"
  "attr_wf unix_addrconv no_ext False \<lparr>pa_flags = 0x40, pa_value = PaNextHop (ip4_to_text unix_addrconv [10, 0, 0, 2])\<rparr>"
  "attr_wf unix_addrconv no_ext False \<lparr>pa_flags = 0xC0, pa_value = PaCommunities [0xFFFFFF01]\<rparr>"
  "attr_wf unix_addrconv no_ext False \<lparr>pa_flags = 0xD0, pa_value = PaAs4Path [AsSequence [65001, 70000]]\<rparr>"
  "attr_wf unix_addrconv no_ext False \<lparr>pa_flags = 0xC0, pa_value = PaAggregator 65001 (ip4_to_text unix_addrconv [10, 0, 0, 3])\<rparr>"
  by (simp_all add: attr_wf_def fixed_flags_def in_range_def canon_ip4_def as_path_bytes seg_bytes_def aggregator_bytes_def)

lemma sample_update_wf: "message_wf unix_addrconv no_ext False sample_update_msg"
  unfolding sample_update_msg_def by (simp add: update_wf_def sample_prefixes_wf sample_attrs_wf)

lemma sample_attr_bytes:
  "attr_serialize unix_addrconv no_ext False \<lparr>pa_flags = 0x40, pa_value = PaOrigin 0\<rparr> = Inr [64, 1, 1, 0]"
  "attr_serialize unix_addrconv no_ext False \<lparr>pa_flags = 0x40, pa_value = PaAsPath False [AsSequence [65001, 23456], AsSet [3, 5]]\<rparr> =
     Inr [64, 2, 12, 2, 2, 253, 233, 91, 160, 1, 2, 0, 3, 0, 5]"
  "attr_serialize unix_addrconv no_ext False \<lparr>pa_flags = 0x40, pa_value = PaNextHop (ip4_to_text unix_addrconv [10, 0, 0, 2])\<rparr> =
     Inr [64, 3, 4, 10, 0, 0, 2]"
  "attr_serialize unix_addrconv no_ext False \<lparr>pa_flags = 0xC0, pa_value = PaCommunities [0xFFFFFF01]\<rparr> =
     Inr [192, 8, 4, 255, 255, 255, 1]"
  "attr_serialize unix_addrconv no_ext False \<lparr>pa_flags = 0xD0, pa_value = PaAs4Path [AsSequence [65001, 70000]]\<rparr> =
     Inr [208, 17, 0, 10, 2, 2, 0, 0, 253, 233, 0, 1, 17, 112]"
  "attr_serialize unix_addrconv no_ext False \<lparr>pa_flags = 0xC0, pa_value = PaAggregator 65001 (ip4_to_text unix_addrconv [10, 0, 0, 3])\<rparr> =
     Inr [192, 7, 6, 253, 233, 10, 0, 0, 3]"
  by (simp_all add: attr_serialize_def fixed_flags_def as_path_bytes in_range_def seg_bytes_def aggregator_bytes_def
    be_bytes_numerals)

lemma sample_prefix_bytes:
  "prefix_serialize unix_addrconv (ip4_to_text unix_addrconv [10, 2, 0, 0], 15) = Inr [15, 10, 2]"
  "prefix_serialize unix_addrconv (ip4_to_text unix_addrconv [10, 1, 0, 0], 16) = Inr [16, 10, 1]"
  by (simp_all add: prefix_serialize_def prefix_bin_def Let_def numeral_2_eq_2)

text \<open>What the sample is on the wire.\<close>

definition sample_update_octets :: bytes where
  "sample_update_octets = MARKER @ [0, 85, 2, 0, 3, 15, 10, 2, 0, 56,
     64, 1, 1, 0, 64, 2, 12, 2, 2, 253, 233, 91, 160, 1, 2, 0, 3, 0, 5, 64, 3, 4, 10, 0, 0, 2,
     192, 8, 4, 255, 255, 255, 1, 208, 17, 0, 10, 2, 2, 0, 0, 253, 233, 0, 1, 17, 112,
     192, 7, 6, 253, 233, 10, 0, 0, 3, 16, 10, 1]"

lemma sample_update_bytes: "message_serialize unix_addrconv no_ext False sample_update_msg = Inr sample_update_octets"
  unfolding sample_update_msg_def message_serialize_def body_serialize.simps update_serialize_def prefixes_serialize_def
  by (simp add: sample_attr_bytes sample_prefix_bytes sample_update_octets_def MARKER_def BGP_HDR_LEN_def be_bytes_numerals)

lemma sample_update_length: "length sample_update_octets \<le> 4096"
  by (simp add: sample_update_octets_def MARKER_def)

text \<open>C16: what a well-formed message is serialized to is parsed as that message, and the octets behind it are
  left: for OPEN with its capabilities, UPDATE with its attributes and prefixes, NOTIFICATION, KEEPALIVE
  and ROUTE-REFRESH.\<close>

theorem bgp_message_roundtrip:
  assumes "addrconv_ok A" "message_wf A X g m" "message_serialize A X g m = Inr bs"
  shows "message_parse A X (bs @ rest) g = (g, Inr (m, rest))"
  by (rule message_codec [OF assms])

lemma bgp_message_roundtrip_witness:
  "message_parse unix_addrconv no_ext (sample_update_octets @ [255]) False = (False, Inr (sample_update_msg, [255]))"
  by (rule bgp_message_roundtrip [OF unix_addrconv_ok sample_update_wf sample_update_bytes])


lemma sample_keepalive_bytes: "message_serialize A X g MKeepAlive = Inr keepalive_bytes"
  using keepalive_session_bytes [of A] by (simp add: session_bytes_def message_serialize_def)


section \<open>The session\<close>

text \<open>C12: in every state that connections, octets, timers, failures and configuration can lead to, a session
  that is confirmed or established has a bound connection, and the bound connection is a started one
  that knows the neighbour and whose OPEN named the neighbour's AS and version 4.\<close>

theorem bgp_session_invariant:
  assumes "bgp_reachable A X P C s"
  shows "(sp_state (bw_speaker s) \<in> {OpenConfirm, Established} \<longrightarrow> sp_protocol (bw_speaker s) \<noteq> None) \<and>
    (\<forall>j. sp_protocol (bw_speaker s) = Some j \<longrightarrow>
      cn_bound (sp_conns (bw_speaker s) j) \<and> cn_started (sp_conns (bw_speaker s) j) \<and> cn_peer (sp_conns (bw_speaker s) j) \<and>
      (\<exists>m. cn_recv_open (sp_conns (bw_speaker s) j) = Some m \<and> open_remote_as m = Inr (pc_remote_as C) \<and> bo_version m = 4))"
proof -
  note inv = bgp_reachable_inv [OF assms]
  have "\<exists>m. cn_recv_open (sp_conns (bw_speaker s) j) = Some m \<and> open_remote_as m = Inr (pc_remote_as C) \<and> bo_version m = 4"
    if "sp_protocol (bw_speaker s) = Some j" for j
    using session_invD(1) [OF inv, of j] session_invD(2) [OF inv that] by (auto simp: conn_inv_def open_accepted_def)
  then show ?thesis using session_invD(2,3) [OF inv] by blast
qed

lemma bgp_session_invariant_witness:
  "\<exists>s :: unit bgp_world. sp_state (bw_speaker s) = Established \<and> sp_protocol (bw_speaker s) = Some 0 \<and>
    (\<exists>m. cn_recv_open (sp_conns (bw_speaker s) 0) = Some m \<and> open_remote_as m = Inr 65001)"
proof -
  obtain s where s: "bgp_reachable unix_addrconv no_ext sample_ops sample_conf s" "sp_state (bw_speaker s) = Established"
    "sp_protocol (bw_speaker s) = Some 0" using sample_established by blast
  have "pc_remote_as sample_conf = 65001" by (simp add: sample_conf_def)
  then show ?thesis using bgp_session_invariant [OF s(1)] s(2,3) by fastforce
qed

text \<open>The answer to the first acceptable OPEN: the connection is bound and the neighbour confirmed; unless
  the OPEN asks for a hold time of zero, a KEEPALIVE is sent and the timers start with the smaller
  of the two hold times and a third of it. With a hold time of zero nothing is sent.\<close>

lemma bgp_open_answer:
  assumes "sp_protocol w = None" "sp_state w \<noteq> Established" "cn_state (sp_conns w i) = OpenSent"
    "cn_peer (sp_conns w i)" "cn_started (sp_conns w i)" "cn_open (sp_conns w i)"
    "open_remote_as m = Inr (pc_remote_as C)" "bo_version m = 4"
  shows "\<exists>w'. handle_msg A P C i (MOpen m) w = (w', Inr ()) \<and> sp_protocol w' = Some i \<and> sp_state w' = OpenConfirm \<and>
    cn_bound (sp_conns w' i) \<and> cn_recv_open (sp_conns w' i) = Some m \<and>
    (if bo_hold_time m = 0
     then sp_log w' = sp_log w \<and> cn_keepalive (sp_conns w' i) = cn_keepalive (sp_conns w i) \<and>
       cn_expiry (sp_conns w' i) = cn_expiry (sp_conns w i)
     else sp_log w' = sp_log w @ [EvSent i keepalive_bytes] \<and>
       cn_expiry (sp_conns w' i) = Some (min (cn_holdtime (sp_conns w i)) (bo_hold_time m)) \<and>
       cn_keepalive (sp_conns w' i) = Some (min (cn_holdtime (sp_conns w i)) (bo_hold_time m) div 3))"
proof -
  have "open_accepted C m" using assms(7,8) by (simp add: open_accepted_def)
  from open_answer [OF assms(1-6) this, of A P] show ?thesis by auto
qed

lemma bgp_open_answer_witness:
  "\<exists>w w'. handle_msg unix_addrconv sample_ops sample_conf 1 (MOpen (sample_open 30)) (sample_speaker Active None) = (w, Inr ()) \<and>
    sp_log w = [EvSent 1 keepalive_bytes] \<and> cn_keepalive (sp_conns w 1) = Some 10 \<and>
    handle_msg unix_addrconv sample_ops sample_conf 1 (MOpen (sample_open 0)) (sample_speaker Active None) = (w', Inr ()) \<and>
    sp_log w' = [] \<and> cn_keepalive (sp_conns w' 1) = None"
proof -
  have c: "sp_conns (sample_speaker Active None) 1 = sample_conn OpenSent False" by (simp add: sample_speaker_def)
  have s: "sp_protocol (sample_speaker Active None) = None" "sp_state (sample_speaker Active None) \<noteq> Established"
    "sp_log (sample_speaker Active None) = []" by (simp_all add: sample_speaker_def)
  have f: "cn_state (sample_conn OpenSent False) = OpenSent" "cn_peer (sample_conn OpenSent False)"
    "cn_started (sample_conn OpenSent False)" "cn_open (sample_conn OpenSent False)" "cn_holdtime (sample_conn OpenSent False) = 90"
    "cn_keepalive (sample_conn OpenSent False) = None" by (simp_all add: sample_conn_def new_conn_def)
  have m: "open_remote_as (sample_open h) = Inr (pc_remote_as sample_conf)" "bo_version (sample_open h) = 4"
    "bo_hold_time (sample_open h) = h" for h
    using sample_open_accepted [of h] by (simp_all add: open_accepted_def sample_open_def)
  note t = bgp_open_answer [of "sample_speaker Active None" 1, unfolded c, OF s(1,2) f(1-4) m(1,2), of unix_addrconv sample_ops]
  show ?thesis using t [of 30] t [of 0] by (simp only: m(3) s(3) f(5,6)) auto
qed

text \<open>C23: a session comes up: when the octets of an acceptable OPEN and of a KEEPALIVE arrive on a connection
  that has sent its OPEN, in whatever chunks, the neighbour ends established and bound to that
  connection, and the speaker has sent a KEEPALIVE (unless the hold time is zero) and reported the
  adjacency.\<close>

theorem bgp_session_established:
  assumes "addrconv_ok A" "sp_protocol w = None" "sp_state w \<noteq> Established" "cn_state (sp_conns w i) = OpenSent"
    "cn_peer (sp_conns w i)" "cn_started (sp_conns w i)" "cn_open (sp_conns w i)"
    and "open_wf A m" "open_remote_as m = Inr (pc_remote_as C)" "message_serialize A X g (MOpen m) = Inr b" "length b \<le> 4096"
    and "\<forall>c. \<exists>c'. po_init P c = (c', Inr ())" "concat cs = b @ keepalive_bytes"
  shows "\<exists>w'. snd (receive_chunks A X P C i cs [] g w) = (g, w', Inr ()) \<and> sp_state w' = Established \<and>
    sp_protocol w' = Some i \<and> cn_bound (sp_conns w' i) \<and>
    sp_log w' = sp_log w @ (if bo_hold_time m = 0 then [] else [EvSent i keepalive_bytes]) @ [EvAdjUp]"
proof -
  have "bo_version m = 4" using assms(8) by (simp add: open_wf_def)
  then have acc: "open_accepted C m" using assms(9) by (simp add: open_accepted_def)
  obtain w1 where w1: "handle_open A P C i m w = (w1, Inr ())" "sp_protocol w1 = Some i" "sp_state w1 = OpenConfirm"
    "cn_bound (sp_conns w1 i)" "cn_peer (sp_conns w1 i)"
    "sp_log w1 = sp_log w @ (if bo_hold_time m = 0 then [] else [EvSent i keepalive_bytes])"
    using open_answer [OF assms(2-7) acc, of A P] by (auto split: if_splits)
  obtain c' where "po_init P (po_state P Established (sp_core w1)) = (c', Inr ())" using assms(12) by blast
  from keepalive_established [OF w1(3,5) this] obtain w2 where w2: "handle_msg A P C i MKeepAlive w1 = (w2, Inr ())"
    "sp_state w2 = Established" "sp_protocol w2 = sp_protocol w1" "sp_conns w2 = sp_conns w1" "sp_log w2 = sp_log w1 @ [EvAdjUp]"
    by blast
  have "list_all2 (\<lambda>m b. message_wf A X g m \<and> message_serialize A X g m = Inr b \<and> length b \<le> 4096)
      [MOpen m, MKeepAlive] [b, keepalive_bytes]"
    using assms(8,10,11) sample_keepalive_bytes [of A X g] by (simp add: keepalive_bytes_def MARKER_def)
  moreover have "frame_check [] = NeedMore" by (simp add: frame_check_def BGP_HDR_LEN_def)
  moreover have "handle_msgs A P C i [MOpen m, MKeepAlive] w = (w2, Inr ())" using w1(1) w2(1) by (simp add: st_bind_def)
  ultimately have "snd (receive_chunks A X P C i cs [] g w) = (g, w2, Inr ())"
    using receive_chunks_concat [of cs "[]" A X P C i g w] assms(13)
      data_loop_stream [OF assms(1), of X g "[MOpen m, MKeepAlive]" "[b, keepalive_bytes]" P C i w] by simp
  then show ?thesis using w1 w2 by simp
qed

lemma bgp_session_established_witness:
  "\<exists>w. snd (receive_chunks unix_addrconv no_ext sample_ops sample_conf 1
      [MARKER @ [0, 41, 1, 4, 253, 233, 0, 30, 10, 0, 0, 2, 12, 2, 6, 1],
       [4, 0, 1, 0, 1, 2, 2, 2, 0] @ keepalive_bytes] [] False (sample_speaker Active None)) = (False, w, Inr ()) \<and>
    sp_state w = Established \<and> sp_protocol w = Some 1 \<and> sp_log w = [EvSent 1 keepalive_bytes, EvAdjUp]"
proof -
  have c: "sp_conns (sample_speaker Active None) 1 = sample_conn OpenSent False" by (simp add: sample_speaker_def)
  have s: "sp_protocol (sample_speaker Active None) = None" "sp_state (sample_speaker Active None) \<noteq> Established"
    "sp_log (sample_speaker Active None) = []" by (simp_all add: sample_speaker_def)
  have f: "cn_state (sample_conn OpenSent False) = OpenSent" "cn_peer (sample_conn OpenSent False)"
    "cn_started (sample_conn OpenSent False)" "cn_open (sample_conn OpenSent False)" by (simp_all add: sample_conn_def new_conn_def)
  have m: "open_wf unix_addrconv (sample_open 30)" "open_remote_as (sample_open 30) = Inr (pc_remote_as sample_conf)" "bo_hold_time (sample_open 30) = 30"
    using sample_open_accepted [of 30] sample_open_wf [of 30] by (simp_all add: open_accepted_def in_range_def sample_open_def)
  have i: "\<forall>c. \<exists>c'. po_init sample_ops c = (c', Inr ())" by (simp add: sample_ops_def)
  have l: "length (MARKER @ [0, 41, 1, 4, 253, 233, 0, 30, 10, 0, 0, 2, 12, 2, 6, 1, 4, 0, 1, 0, 1, 2, 2, 2, 0]) \<le> 4096"
    by (simp add: MARKER_def)
  note t = bgp_session_established [of unix_addrconv "sample_speaker Active None" 1, unfolded c,
      OF unix_addrconv_ok s(1,2) f m(1,2) sample_open_bytes l i]
  show ?thesis using t [of "[MARKER @ [0, 41, 1, 4, 253, 233, 0, 30, 10, 0, 0, 2, 12, 2, 6, 1],
       [4, 0, 1, 0, 1, 2, 2, 2, 0] @ keepalive_bytes]"] s(3) m(3) by auto
qed

text \<open>C31: two connections that were opened at the same time are never told apart by the router identifiers:
  whatever they are, an acceptable OPEN on the second is refused with CollisionResolution, its
  connection is closed, the first stays, but the neighbour falls back to OPENCONFIRM, so that the
  next UPDATE on the first connection, the established one, fails an assertion.\<close>

theorem bgp_collision_unresolved:
  assumes "session_inv C w" "sp_protocol w = Some j" "cn_state (sp_conns w i) = OpenSent" "cn_running (sp_conns w i)"
    "cn_peer (sp_conns w i)" "cn_open (sp_conns w i)" "open_accepted C m"
  shows "\<exists>w'. handle_msg A P C i (MOpen m) w = (w', Inl (RyuError ''CollisionResolution'')) \<and> sp_protocol w' = Some j \<and>
    sp_state w' = OpenConfirm \<and> \<not> cn_open (sp_conns w' i) \<and> (\<forall>u. handle_msg A P C j (MUpdate u) w' = (w', Inl AssertionError))"
  using second_open [OF assms, of A P] by fastforce

lemma bgp_collision_unresolved_witness:
  "\<exists>w'. handle_msg unix_addrconv sample_ops sample_conf 1 (MOpen (sample_open 30)) (sample_speaker Established (Some 0)) =
      (w', Inl (RyuError ''CollisionResolution'')) \<and> sp_state w' = OpenConfirm \<and>
    handle_msg unix_addrconv sample_ops sample_conf 0 sample_update_msg w' = (w', Inl AssertionError)"
proof -
  have c: "sp_conns (sample_speaker Established (Some 0)) 1 = sample_conn OpenSent False" by (simp add: sample_speaker_def)
  have p: "sp_protocol (sample_speaker Established (Some 0)) = Some 0" by (simp add: sample_speaker_def)
  have f: "cn_state (sample_conn OpenSent False) = OpenSent" "cn_running (sample_conn OpenSent False)" "cn_peer (sample_conn OpenSent False)"
    "cn_open (sample_conn OpenSent False)" by (simp_all add: sample_conn_def new_conn_def)
  show ?thesis unfolding sample_update_msg_def
    using bgp_collision_unresolved [OF sample_speaker_inv p, of 1, unfolded c, OF f sample_open_accepted, of unix_addrconv sample_ops 30] by blast
qed

text \<open>C32: a connect attempt that fails takes down a session that the neighbour has opened meanwhile: a state
  is reachable in which the session is established and the attempt still waits, and when it fails the
  neighbour is ACTIVE, although the session's connection is open and bound; the next UPDATE on it
  fails an assertion, and a KEEPALIVE does not bring the session back.\<close>

theorem bgp_dial_failure:
  fixes P :: "('c, 'e) peer_ops"
  assumes "addrconv_ok A" "pc_mode C \<noteq> ModeActive" "session_bytes A (MOpen (create_open_msg C)) = Inr ob"
    and "open_wf A m" "open_accepted C m" "message_serialize A X g (MOpen m) = Inr b" "length b \<le> 4096"
    and "\<forall>c. \<exists>c'. po_init P c = (c', Inr ())"
  shows "\<exists>s s'. bgp_reachable A X P C s \<and> sp_state (bw_speaker s) = Established \<and> bgp_step A X P C s s' \<and>
    sp_state (bw_speaker s') = Active \<and> sp_protocol (bw_speaker s') = Some 0 \<and> cn_open (sp_conns (bw_speaker s') 0) \<and>
    cn_running (sp_conns (bw_speaker s') 0) \<and>
    (\<forall>u. handle_msg A P C 0 (MUpdate u) (bw_speaker s') = (bw_speaker s', Inl AssertionError)) \<and>
    handle_msg A P C 0 MKeepAlive (bw_speaker s') = (bw_speaker s', Inr ())"
proof -
  obtain s :: "'c bgp_world" where s: "bgp_reachable A X P C s" "sp_state (bw_speaker s) = Established" "sp_connecting (bw_speaker s)"
    "sp_protocol (bw_speaker s) = Some 0" "cn_open (sp_conns (bw_speaker s) 0)" "cn_running (sp_conns (bw_speaker s) 0)"
    using established_while_connecting [OF assms] by blast
  obtain j where j: "sp_protocol (bw_speaker s) = Some j" "sp_protocol (connect_failed P (bw_speaker s)) = Some j"
    "sp_state (connect_failed P (bw_speaker s)) = Active" "sp_conns (connect_failed P (bw_speaker s)) = sp_conns (bw_speaker s)"
    "cn_peer (sp_conns (bw_speaker s) j)"
    by (rule dial_failure [OF bgp_reachable_inv [OF s(1)] s(2)])
  have "j = 0" using j(1) s(4) by simp
  moreover have "bgp_step A X P C s (s\<lparr>bw_speaker := connect_failed P (bw_speaker s)\<rparr>)" by (rule bgp_step.dial_failed [OF s(3)])
  ultimately show ?thesis using s j
    by (intro exI [of _ s] exI [of _ "s\<lparr>bw_speaker := connect_failed P (bw_speaker s)\<rparr>"]) simp
qed

lemma bgp_dial_failure_witness:
  "\<exists>s s'. bgp_reachable unix_addrconv no_ext sample_ops sample_conf s \<and> sp_state (bw_speaker s) = Established \<and>
    bgp_step unix_addrconv no_ext sample_ops sample_conf s s' \<and> sp_state (bw_speaker s') = Active \<and>
    handle_msg unix_addrconv sample_ops sample_conf 0 sample_update_msg (bw_speaker s') = (bw_speaker s', Inl AssertionError)"
  unfolding sample_update_msg_def
  using bgp_dial_failure [OF unix_addrconv_ok _ sample_conf_bytes _ sample_open_accepted sample_open_bytes, of sample_ops]
  by (auto simp: sample_open_wf in_range_def sample_conf_def sample_ops_def MARKER_def simp del: handle_msg.simps)

section \<open>UPDATE messages\<close>

lemma update_octets_handled:
  assumes "addrconv_ok A" "sp_state w = Established" "cn_peer (sp_conns w i)"
    and "update_wf A X g u" "message_serialize A X g (MUpdate u) = Inr b" "length b \<le> 4096" "concat cs = b"
    and "handle_update_msg within j (update_of u) (sp_core w) = Inr c'"
  shows "snd (receive_chunks A X (core_ops within j P) C i cs [] g w) = (g, w\<lparr>sp_core := c'\<rparr>, Inr ())"
proof -
  let ?P = "core_ops within j P"
  have l: "list_all2 (\<lambda>m b. message_wf A X g m \<and> message_serialize A X g m = Inr b \<and> length b \<le> 4096) [MUpdate u] [b]"
    using assms(4-6) by simp
  have "frame_check [] = NeedMore" by (simp add: frame_check_def BGP_HDR_LEN_def)
  moreover have "handle_msgs A ?P C i [MUpdate u] w = (w\<lparr>sp_core := c'\<rparr>, Inr ())"
    using assms(2,3,8) by (simp add: st_bind_def core_ops_def core_act_def core_update_def)
  ultimately show ?thesis
    using receive_chunks_concat [of cs "[]" A X ?P C i g w] data_loop_stream [OF assms(1) l, of ?P C i w] assms(7) by simp
qed

text \<open>C24: while the session is established the octets of a well-formed UPDATE, in whatever chunks, do to the
  tables what the UPDATE does, and nothing else; and the connection they come on need not be the bound
  one, nor have received an OPEN.\<close>

theorem bgp_update_reaches_tables:
  assumes "addrconv_ok A" "sp_state w = Established" "cn_peer (sp_conns w i)"
    and "update_wf A X g u" "message_serialize A X g (MUpdate u) = Inr b" "length b \<le> 4096" "concat cs = b"
    and "handle_update_msg within j (update_of u) (sp_core w) = Inr c'"
  shows "snd (receive_chunks A X (core_ops within j P) C i cs [] g w) = (g, w\<lparr>sp_core := c'\<rparr>, Inr ())"
  by (rule update_octets_handled [OF assms])

text \<open>The sample UPDATE on an empty table.\<close>

definition sample_wire_update :: "unit wire_update" where
  "sample_wire_update = (case sample_update_msg of MUpdate u \<Rightarrow> u | _ \<Rightarrow> \<lparr>wu_withdrawn = [], wu_attrs = [], wu_nlri = []\<rparr>)"

definition empty_core :: bgp_core where
  "empty_core = (sample_core sample_dest)\<lparr>co_table := \<lparr>tb_rf = (1, 1), tb_dests = []\<rparr>, co_queue := []\<rparr>"

definition sample_core_ops :: "(bgp_core, unit) peer_ops" where
  "sample_core_ops = \<lparr>po_state = (\<lambda>s c. c), po_init = (\<lambda>c. (c, Inr ())), po_update = (\<lambda>u c. (c, Inr ())),
     po_refresh = (\<lambda>afi safi dem c. (c, Inr ())), po_down = (\<lambda>c. c)\<rparr>"

text \<open>Its UPDATE comes on connection 1, which has received no OPEN.\<close>

definition sample_core_speaker :: "bgp_core bgp_speaker" where
  "sample_core_speaker = \<lparr>sp_state = Established, sp_protocol = Some 0, sp_retry = False, sp_enabled = True, sp_connecting = False,
     sp_transitions = 0, sp_conns = (\<lambda>i. sample_conn (if i = 0 then OpenConfirm else OpenSent) (i = 0)),
     sp_next = 2, sp_core = empty_core, sp_log = []\<rparr>"

lemma sample_wire_update_eq: "sample_update_msg = MUpdate sample_wire_update"
  by (simp add: sample_wire_update_def sample_update_msg_def)

lemma sample_update_queue:
  "(case handle_update_msg (\<lambda>a b. Inr True) 1 (update_of sample_wire_update) empty_core of Inl e \<Rightarrow> [] | Inr c \<Rightarrow> co_queue c) =
    [''10.1.0.0/16'', ''10.2.0.0/15'']"
  by code_simp

lemma bgp_update_reaches_tables_witness:
  "\<exists>c. snd (receive_chunks unix_addrconv no_ext (core_ops (\<lambda>a b. Inr True) 1 sample_core_ops) sample_conf 1
      [take 40 sample_update_octets, drop 40 sample_update_octets] [] False sample_core_speaker) =
    (False, sample_core_speaker\<lparr>sp_core := c\<rparr>, Inr ()) \<and> co_queue c = [''10.1.0.0/16'', ''10.2.0.0/15'']"
proof -
  obtain c where c: "handle_update_msg (\<lambda>a b. Inr True) 1 (update_of sample_wire_update) empty_core = Inr c"
    "co_queue c = [''10.1.0.0/16'', ''10.2.0.0/15'']"
    using sample_update_queue by (cases "handle_update_msg (\<lambda>a b. Inr True) 1 (update_of sample_wire_update) empty_core") simp_all
  have w: "sp_state sample_core_speaker = Established" "cn_peer (sp_conns sample_core_speaker 1)" "sp_core sample_core_speaker = empty_core"
    by (simp_all add: sample_core_speaker_def sample_conn_def)
  have u: "update_wf unix_addrconv no_ext False sample_wire_update"
    "message_serialize unix_addrconv no_ext False (MUpdate sample_wire_update) = Inr sample_update_octets"
    using sample_update_wf sample_update_bytes by (simp_all add: sample_wire_update_eq)
  have l: "concat [take 40 sample_update_octets, drop 40 sample_update_octets] = sample_update_octets" by simp
  show ?thesis using bgp_update_reaches_tables [OF unix_addrconv_ok w(1,2) u sample_update_length l, unfolded w(3), OF c(1), of sample_core_ops sample_conf] c(2)
    by blast
qed

text \<open>
  A path in four-octet numbers whose number ends with 256 reads as one in two-octet numbers too, and
  is taken for that: half of the number is lost.
\<close>

lemma as4_path_misread:
  assumes "0 \<le> h" "h < 65536"
  shows "as_path_serialize 4 [AsSequence [h * 65536 + 256]] = Inr (2 # 1 # be_bytes 2 h @ [1, 0])"
    "as_path_parse (2 # 1 # be_bytes 2 h @ [1, 0]) = Inr (False, [AsSequence [h], AsSet []])"
proof -
  have "(h * 65536 + 256) div 65536 = h" "(h * 65536 + 256) div 256 = h * 256 + 1" by simp_all
  moreover from this have "(h * 65536 + 256) div 16777216 = h div 256"
    using zdiv_zmult2_eq [of 256 "h * 65536 + 256" 65536] by simp
  moreover have "(256 :: byte) = 0" "(65536 :: byte) = 0" by simp_all
  then have "(word_of_int (h * 256 + 1) :: byte) = 1" "(word_of_int (h * 65536 + 256) :: byte) = 0"
    by (simp_all only: of_int_add of_int_mult of_int_numeral of_int_1 mult_zero_right add_0)
  ultimately have b: "be_bytes 4 (h * 65536 + 256) = be_bytes 2 h @ [1, 0]" by (simp only: be_bytes_numerals append.simps)
  have "in_range 4 (h * 65536 + 256)" using assms by (simp add: in_range_def)
  then show "as_path_serialize 4 [AsSequence [h * 65536 + 256]] = Inr (2 # 1 # be_bytes 2 h @ [1, 0])"
    by (simp add: as_path_bytes seg_bytes_def b)
  have "be_int (be_bytes 2 h) = h" using assms by simp
  then show "as_path_parse (2 # 1 # be_bytes 2 h @ [1, 0]) = Inr (False, [AsSequence [h], AsSet []])"
    by (simp add: as_path_parse_def be_bytes_numerals)
qed

text \<open>C38: once the class of AGGREGATOR has seen a value with a four-octet number, from whatever neighbour, an
  UPDATE with a two-octet one, which would be read before, raises a struct error from then on.\<close>

theorem bgp_aggregator_sticks:
  assumes "addrconv_ok A" "update_wf A X False u" "message_serialize A X False (MUpdate u) = Inr b"
    and "list_ex (\<lambda>a. is_aggregator (pa_value a)) (wu_attrs u)" "length v = 8"
  shows "message_parse A X (b @ rest) False = (False, Inr (MUpdate u, rest)) \<and>
    fst (attr_parse_value A X 7 v g) = True \<and> message_parse A X (b @ rest) True = (True, Inl StructError)"
  using message_codec [OF assms(1) _ assms(3), of rest] message_stale [OF assms(1-4), of rest] assms(2,5)
  by (simp add: attr_parse_value_def aggregator_read_def st_bind_def split: sum.splits prod.splits)

lemma bgp_aggregator_sticks_witness:
  "fst (attr_parse_value unix_addrconv no_ext 7 [0, 1, 17, 112, 10, 0, 0, 3] False) = True \<and>
    message_parse unix_addrconv no_ext (sample_update_octets @ []) True = (True, Inl StructError)"
proof -
  have u: "update_wf unix_addrconv no_ext False u" "message_serialize unix_addrconv no_ext False (MUpdate u) = Inr sample_update_octets"
    "list_ex (\<lambda>a. is_aggregator (pa_value a)) (wu_attrs u)" if "sample_update_msg = MUpdate u" for u
    using sample_update_wf sample_update_bytes that by (simp_all, auto simp: sample_update_msg_def)
  obtain u where "sample_update_msg = MUpdate u" by (simp add: sample_update_msg_def)
  from bgp_aggregator_sticks [OF unix_addrconv_ok u [OF this], of "[0, 1, 17, 112, 10, 0, 0, 3]" "[]" False]
  show ?thesis by simp
qed

end
