(* ===== verification/Bgp_Construct.thy ===== *)
theory Bgp_Construct
  imports Bgp_Speaker
begin

text \<open>
  The UPDATE that a peer sends for a path, \<^verbatim>\<open>_construct_update\<close> in \<^verbatim>\<open>peer.py\<close>, for IPv4 unicast: the
  attributes that go out, and what constructing them does to the attributes of the path.
\<close>

section \<open>Settings\<close>

text \<open>
  The settings of the neighbour and of the speaker that are read here only, beside those of
  \<^typ>\<open>bgp_session\<close>; \<open>oc_peer_ip\<close> is the address of a neighbour.
\<close>

record out_conf =
  oc_router_id :: string
  oc_next_hop :: "string option"
  oc_host_bind_ip :: string
  oc_next_hop_self :: bool
  oc_local_pref :: int
  oc_local_pref_maps :: "(bgp_filter list \<times> int) list"
  oc_soo_list :: "string list"
  oc_peer_ip :: "nat \<Rightarrow> string"

text \<open>\<^verbatim>\<open>pathattr_map\<close> of a path: its attributes, one for a type, in their order.\<close>

definition attr_of :: "int \<Rightarrow> 'e path_attr list \<Rightarrow> 'e path_attr option" where
  "attr_of t m = find (\<lambda>a. attr_type (pa_value a) = t) m"

text \<open>An attribute that the code creates; \<^verbatim>\<open>serialize\<close> sets its flags.\<close>

definition new_attr :: "'e attr_value \<Rightarrow> 'e path_attr" where
  "new_attr v = \<lparr>pa_flags = 0, pa_value = v\<rparr>"

definition opt_list :: "'x option \<Rightarrow> 'x list" where
  "opt_list x = (case x of None \<Rightarrow> [] | Some y \<Rightarrow> [y])"

section \<open>Single attributes\<close>

definition session_next_hop :: "out_conf \<Rightarrow> string" where
  "session_next_hop C = (case oc_next_hop C of Some (c # cs) \<Rightarrow> c # cs | _ \<Rightarrow> oc_host_bind_ip C)"

definition has_nexthop :: "bgp_path \<Rightarrow> bool" where
  "has_nexthop p \<longleftrightarrow> pt_nexthop p \<notin> {[], ''0.0.0.0'', ''::''}"

definition out_next_hop :: "out_conf \<Rightarrow> bgp_session \<Rightarrow> bgp_path \<Rightarrow> string" where
  "out_next_hop C s p =
     (if is_ebgp_peer s
      then (if pt_source p = NC \<and> has_nexthop p then pt_nexthop p else session_next_hop C)
      else (if oc_next_hop_self C \<or> pt_source p = NC \<and> \<not> has_nexthop p then session_next_hop C else pt_nexthop p))"

text \<open>\<^verbatim>\<open>_lookup_attribute_map\<close> with the maps for local preferences.\<close>

fun lookup_local_pref :: "netaddr \<Rightarrow> (bgp_filter list \<times> int) list \<Rightarrow> bgp_path \<Rightarrow> int option res" where
  "lookup_local_pref within [] p = Inr None"
| "lookup_local_pref within ((fs, v) # ms) p =
     res_bind (attribute_map_evaluate within fs p) (\<lambda>(cause, result).
     if result then Inr (Some v) else lookup_local_pref within ms p)"

definition out_local_pref :: "netaddr \<Rightarrow> out_conf \<Rightarrow> bgp_session \<Rightarrow> bgp_path \<Rightarrow> 'e path_attr list res" where
  "out_local_pref within C s p =
     (if is_ebgp_peer s then Inr []
      else
        res_bind (lookup_local_pref within (oc_local_pref_maps C) p) (\<lambda>r.
        Inr [new_attr (PaLocalPref (case r of None \<Rightarrow> oc_local_pref C | Some v \<Rightarrow> v))]))"

definition out_med :: "bgp_session \<Rightarrow> 'e path_attr list \<Rightarrow> 'e path_attr list" where
  "out_med s m =
     (if is_ebgp_peer s
      then (case se_med s of None \<Rightarrow> [] | Some v \<Rightarrow> if v = 0 then [] else [new_attr (PaMultiExitDisc v)])
      else opt_list (attr_of 4 m))"

text \<open>\<^verbatim>\<open>AGGREGATOR\<close>, and \<^verbatim>\<open>AS4_AGGREGATOR\<close> if its number does not fit two octets.\<close>

definition out_aggregator :: "bool \<Rightarrow> 'e path_attr list \<Rightarrow> 'e path_attr list" where
  "out_aggregator four m =
     (case attr_of 7 m of None \<Rightarrow> []
      | Some a \<Rightarrow>
          (case pa_value a of
             PaAggregator n addr \<Rightarrow>
               if four \<or> is_valid_old_asn n then [a]
               else [new_attr (PaAggregator AS_TRANS addr), new_attr (PaAs4Aggregator n addr)]
           | _ \<Rightarrow> [a]))"

text \<open>\<^verbatim>\<open>get_unknown_opttrans_attr\<close>\<close>

definition is_unknown_opttrans :: "'e path_attr \<Rightarrow> bool" where
  "is_unknown_opttrans a =
     (case pa_value a of
        PaUnknown t v \<Rightarrow> pa_flags a AND 0xC0 \<noteq> 0
      | PaAs4Path ss \<Rightarrow> True | PaAs4Aggregator n addr \<Rightarrow> True | _ \<Rightarrow> False)"

text \<open>
  The sites of origin are appended to the list of the path's own attribute, which is the same object.
\<close>

definition put_ext_comms :: "ext_comm list \<Rightarrow> 'e path_attr list \<Rightarrow> 'e path_attr list" where
  "put_ext_comms cs m = map (\<lambda>a. if attr_type (pa_value a) = 16 then a\<lparr>pa_value := PaExtComms cs\<rparr> else a) m"

definition out_ext_comms :: "out_conf \<Rightarrow> 'e path_attr list \<Rightarrow> ('e path_attr list \<times> 'e path_attr list) res" where
  "out_ext_comms C m =
     (case attr_of 16 m of
        Some a \<Rightarrow>
          (case pa_value a of
             PaExtComms cs \<Rightarrow>
               res_bind (res_map soo_comm (oc_soo_list C)) (\<lambda>soos.
               Inr (put_ext_comms (cs @ soos) m, new_attr (PaExtComms (cs @ soos)) # opt_list (attr_of 22 m)))
           | _ \<Rightarrow> Inl AttributeError)
      | None \<Rightarrow> Inr (m, []))"

section \<open>The message\<close>

text \<open>For a client of the route reflector.\<close>

definition originator_of_path :: "out_conf \<Rightarrow> bgp_path \<Rightarrow> string" where
  "originator_of_path C p =
     (case pt_source p of NC \<Rightarrow> oc_router_id C | FromPeer i \<Rightarrow> oc_peer_ip C i | TableSource t \<Rightarrow> t)"

definition reflect_attr :: "string \<Rightarrow> 'e path_attr \<Rightarrow> 'e path_attr" where
  "reflect_attr cluster a =
     (case pa_value a of
        PaClusterList ids \<Rightarrow> new_attr (PaClusterList (if cluster \<in> set ids then ids else ids @ [cluster]))
      | _ \<Rightarrow> a)"

definition reflected_attrs :: "out_conf \<Rightarrow> bgp_session \<Rightarrow> bgp_path \<Rightarrow> 'e path_attr list \<Rightarrow> 'e path_attr list" where
  "reflected_attrs C s p m =
     (if attr_of 9 m = None then [new_attr (PaOriginatorId (originator_of_path C p))] else []) @
     (if attr_of 10 m = None then [new_attr (PaClusterList [se_cluster_id s])] else []) @
     map (reflect_attr (se_cluster_id s)) m"

text \<open>For any other neighbour; the flag says that both sides have the capability for four-octet numbers.\<close>

definition plain_attrs :: "netaddr \<Rightarrow> out_conf \<Rightarrow> bool \<Rightarrow> bgp_session \<Rightarrow> bgp_path \<Rightarrow> 'e path_attr list \<Rightarrow>
    ('e path_attr list \<times> 'e path_attr list) res" where
  "plain_attrs within C four s p m =
     (case (attr_of 1 m, attr_of 2 m) of
        (Some origin, Some aspath) \<Rightarrow>
          (case as_path_of (pa_value aspath) of None \<Rightarrow> Inl AttributeError
           | Some segs \<Rightarrow>
               (case trans_as_path four (if is_ebgp_peer s then prepend_local_as (se_local_as s) segs else segs) of (p2, p4) \<Rightarrow>
                  res_bind (out_local_pref within C s p) (\<lambda>lp.
                  res_bind (out_ext_comms C m) (\<lambda>(m', ec).
                  Inr (m',
                    [new_attr (PaNextHop (out_next_hop C s p)), origin, new_attr (PaAsPath four p2)] @
                    (case p4 of None \<Rightarrow> [] | Some q \<Rightarrow> if q = [] then [] else [new_attr (PaAs4Path q)]) @
                    out_aggregator four m @ out_med s m @ lp @ opt_list (attr_of 8 m) @ ec @ filter is_unknown_opttrans m)))))
      | _ \<Rightarrow> Inl AssertionError)"

text \<open>
  The result is the attributes of the path afterwards, and the message. A withdrawal has the prefix only.
\<close>

definition construct_update :: "netaddr \<Rightarrow> out_conf \<Rightarrow> bool \<Rightarrow> bgp_session \<Rightarrow> bgp_path \<Rightarrow> 'e path_attr list \<Rightarrow>
    string \<times> int \<Rightarrow> ('e path_attr list \<times> 'e wire_update) res" where
  "construct_update within C four s p m nlri =
     (if pt_is_withdraw p then Inr (m, \<lparr>wu_withdrawn = [nlri], wu_attrs = [], wu_nlri = []\<rparr>)
      else if se_rs_client s then Inr (m, \<lparr>wu_withdrawn = [], wu_attrs = m, wu_nlri = [nlri]\<rparr>)
      else if se_rr_client s then Inr (m, \<lparr>wu_withdrawn = [], wu_attrs = reflected_attrs C s p m, wu_nlri = [nlri]\<rparr>)
      else
        res_bind (plain_attrs within C four s p m) (\<lambda>(m', as).
        Inr (m', \<lparr>wu_withdrawn = [], wu_attrs = as, wu_nlri = [nlri]\<rparr>)))"

section \<open>Flags\<close>

text \<open>An attribute as it is after \<^verbatim>\<open>serialize\<close>, which changes its flags.\<close>

definition settled :: "addrconv \<Rightarrow> 'e attr_ext \<Rightarrow> bool \<Rightarrow> 'e path_attr \<Rightarrow> 'e path_attr" where
  "settled A X g a =
     (case attr_serialize_value A X g (pa_value a) of Inl e \<Rightarrow> a
      | Inr v \<Rightarrow> a\<lparr>pa_flags := fixed_flags a (length v)\<rparr>)"

lemma settled_value [simp]: "pa_value (settled A X g a) = pa_value a"
  by (simp add: settled_def split: sum.split)

lemma attr_flags_cases: "attr_flags v = Some k \<Longrightarrow> k \<in> {0x40, 0x80, 0xC0}"
  by (cases v) (auto split: if_splits)

lemma bit_16: "bit (16 :: int) n \<Longrightarrow> \<not> bit (64 :: int) n \<and> \<not> bit (128 :: int) n \<and> \<not> bit (192 :: int) n"
proof -
  have "\<not> bit (16 AND 64 :: int) n" "\<not> bit (16 AND 128 :: int) n" "\<not> bit (16 AND 192 :: int) n" by simp_all
  then show "bit (16 :: int) n \<Longrightarrow> ?thesis" by (simp only: bit_and_iff) simp
qed

lemma fixed_bits:
  fixes x k :: int
  assumes "k \<in> {0x40, 0x80, 0xC0}"
  shows "(x AND NOT 0xC0 OR k) AND NOT 0xC0 OR k = x AND NOT 0xC0 OR k"
    "((x AND NOT 0xC0 OR k) OR 16) AND NOT 0xC0 OR k = (x AND NOT 0xC0 OR k) OR 16"
    "((x AND NOT 0xC0 OR k) AND NOT 16) AND NOT 0xC0 OR k = (x AND NOT 0xC0 OR k) AND NOT 16"
  using assms by (auto simp: bit_eq_iff bit_simps dest: bit_16)

lemma and_not_16: "x AND NOT 16 AND 16 = (0 :: int)"
  by (simp add: bit_eq_iff bit_simps)

lemma fixed_flags_again: "fixed_flags (a\<lparr>pa_flags := fixed_flags a n\<rparr>) n = fixed_flags a n"
proof (cases "attr_flags (pa_value a)")
  case None
  then show ?thesis by (simp add: fixed_flags_def Let_def or_16_and_16 and_not_16 and.assoc)
next
  case (Some k)
  note fb = fixed_bits [OF attr_flags_cases [OF Some]]
  show ?thesis using fb [of "pa_flags a"]
    by (simp add: fixed_flags_def Some Let_def or_16_and_16 and_not_16 and.assoc)
qed

lemma attr_serialize_settled: "attr_serialize A X g (settled A X g a) = attr_serialize A X g a"
  by (simp add: attr_serialize_def settled_def fixed_flags_again split: sum.split)

lemma settled_wf:
  assumes "value_wf A g (pa_value a)" "attr_serialize A X g a = Inr b"
  shows "attr_wf A X g (settled A X g a)"
proof -
  obtain v where v: "attr_serialize_value A X g (pa_value a) = Inr v" using assms(2) by (auto simp: attr_serialize_def res_bind_eq_Inr)
  let ?f = "fixed_flags a (length v)"
  have "0 \<le> ?f" "?f < 256" "int (length v) < 256 ^ (if ?f AND 16 \<noteq> 0 then 2 else 1)"
    using assms(2) v by (auto simp: attr_serialize_def res_bind_eq_Inr pack_uint_def Let_def split: if_splits)
  moreover from this(3) have "length v < 65536" by (auto split: if_splits)
  ultimately show ?thesis using assms(1) v by (simp add: attr_wf_def settled_def fixed_flags_again in_range_def)
qed

definition settled_update :: "addrconv \<Rightarrow> 'e attr_ext \<Rightarrow> bool \<Rightarrow> 'e wire_update \<Rightarrow> 'e wire_update" where
  "settled_update A X g u = u\<lparr>wu_attrs := map (settled A X g) (wu_attrs u)\<rparr>"

lemma update_of_settled [simp]: "update_of (settled_update A X g u) = update_of u"
  by (simp add: update_of_def settled_update_def Let_def comp_def)

lemma res_map_Inr: "res_map f xs = Inr ys \<Longrightarrow> x \<in> set xs \<Longrightarrow> \<exists>y. f x = Inr y"
  by (induction xs arbitrary: ys) (auto simp: res_bind_eq_Inr)

lemma res_map_settled: "res_map (attr_serialize A X g) (map (settled A X g) as) = res_map (attr_serialize A X g) as"
  by (induction as) (simp_all add: attr_serialize_settled)

text \<open>What is sent is received, with the flags that were put.\<close>

lemma settled_message:
  assumes "message_serialize A X g (MUpdate u) = Inr b" "list_all (\<lambda>a. value_wf A g (pa_value a)) (wu_attrs u)"
    "list_all (prefix_wf A) (wu_withdrawn u)" "list_all (prefix_wf A) (wu_nlri u)"
  shows "message_serialize A X g (MUpdate (settled_update A X g u)) = Inr b" "update_wf A X g (settled_update A X g u)"
proof -
  have "update_serialize A X g (settled_update A X g u) = update_serialize A X g u"
    by (simp add: update_serialize_def settled_update_def res_map_settled)
  then show "message_serialize A X g (MUpdate (settled_update A X g u)) = Inr b"
    using assms(1) by (simp add: message_serialize_def)
  obtain bs where "res_map (attr_serialize A X g) (wu_attrs u) = Inr bs"
    using assms(1) by (auto simp: message_serialize_def update_serialize_def res_bind_eq_Inr)
  then have "\<exists>y. attr_serialize A X g a = Inr y" if "a \<in> set (wu_attrs u)" for a using res_map_Inr that by fastforce
  then have "list_all (attr_wf A X g) (map (settled A X g) (wu_attrs u))"
    using settled_wf assms(2) by (fastforce simp: list_all_iff)
  then show "update_wf A X g (settled_update A X g u)" using assms(3,4) by (simp add: update_wf_def settled_update_def)
qed

end
