(* ===== verification/Bgp_Send.thy ===== *)
theory Bgp_Send
  imports Bgp_Construct
begin

text \<open>
  What the neighbour makes of the UPDATE that \<^const>\<open>construct_update\<close> gives: the message it stands for once the
  attributes that were split for old speakers are merged again, and the path it puts into its table.
\<close>

section \<open>Attributes by their types\<close>

definition attr_val :: "('e attr_value \<Rightarrow> 'x option) \<Rightarrow> int \<Rightarrow> 'e path_attr list \<Rightarrow> 'x option" where
  "attr_val f t m = (case attr_of t m of None \<Rightarrow> None | Some a \<Rightarrow> f (pa_value a))"

lemma last_of_simps [simp]:
  "last_of f [] = None" "last_of f (v # vs) = (case last_of f vs of None \<Rightarrow> f v | Some x \<Rightarrow> Some x)"
  by (simp_all add: last_of_def List.map_filter_def split: option.split list.split)

lemma last_of_append [simp]: "last_of f (us @ vs) = (case last_of f vs of None \<Rightarrow> last_of f us | Some x \<Rightarrow> Some x)"
  by (induction us) (simp_all split: option.split)

lemma last_of_none: "(\<And>v. v \<in> set vs \<Longrightarrow> f v = None) \<Longrightarrow> last_of f vs = None"
  by (induction vs) simp_all

lemma attr_of_simps [simp]:
  "attr_of t [] = None" "attr_of t (a # m) = (if attr_type (pa_value a) = t then Some a else attr_of t m)"
  by (simp_all add: attr_of_def)

lemma attr_of_some: "attr_of t m = Some a \<Longrightarrow> a \<in> set m \<and> attr_type (pa_value a) = t"
  by (induction m) (auto split: if_splits)

lemma attr_of_none: "attr_of t m = None \<longleftrightarrow> (\<forall>a\<in>set m. attr_type (pa_value a) \<noteq> t)"
  by (induction m) auto

lemma selector_types:
  "as_path_of v \<noteq> None \<Longrightarrow> attr_type v = 2" "as4_path_of v \<noteq> None \<Longrightarrow> attr_type v = 17"
  "aggregator_of v \<noteq> None \<Longrightarrow> attr_type v = 7" "as4_aggregator_of v \<noteq> None \<Longrightarrow> attr_type v = 18"
  "origin_of v \<noteq> None \<Longrightarrow> attr_type v = 1" "next_hop_of v \<noteq> None \<Longrightarrow> attr_type v = 3"
  "local_pref_of v \<noteq> None \<Longrightarrow> attr_type v = 5" "med_of v \<noteq> None \<Longrightarrow> attr_type v = 4"
  "originator_of v \<noteq> None \<Longrightarrow> attr_type v = 9" "cluster_of v \<noteq> None \<Longrightarrow> attr_type v = 10"
  "communities_of v \<noteq> None \<Longrightarrow> attr_type v = 8" "rts_of v \<noteq> None \<Longrightarrow> attr_type v = 16"
  by (cases v; simp)+

text \<open>A selector on the attribute of another type.\<close>

lemma last_of_opt_attr:
  assumes "\<And>v. f v \<noteq> None \<Longrightarrow> attr_type v = t"
  shows "last_of f (map pa_value (opt_list (attr_of t' m))) = (if t' = t then attr_val f t m else None)"
proof (cases "attr_of t' m")
  case (Some a)
  then have "t' \<noteq> t \<Longrightarrow> f (pa_value a) = None" using assms attr_of_some [OF Some] by blast
  then show ?thesis using Some by (cases "t' = t") (simp_all add: opt_list_def attr_val_def)
qed (auto simp: opt_list_def attr_val_def)

lemmas opt_attrs = last_of_opt_attr [OF selector_types(1)] last_of_opt_attr [OF selector_types(2)]
  last_of_opt_attr [OF selector_types(3)] last_of_opt_attr [OF selector_types(4)] last_of_opt_attr [OF selector_types(5)]
  last_of_opt_attr [OF selector_types(6)] last_of_opt_attr [OF selector_types(7)] last_of_opt_attr [OF selector_types(8)]
  last_of_opt_attr [OF selector_types(9)] last_of_opt_attr [OF selector_types(10)] last_of_opt_attr [OF selector_types(11)]
  last_of_opt_attr [OF selector_types(12)]

text \<open>Unknown attributes are forwarded, and say nothing.\<close>

lemma unknown_silent:
  assumes "is_unknown_opttrans a" "attr_of 17 m = None" "attr_of 18 m = None" "a \<in> set m"
  shows "\<exists>t v. pa_value a = PaUnknown t v"
  using assms by (cases "pa_value a") (auto simp: is_unknown_opttrans_def attr_of_none)

lemma last_of_unknown:
  assumes "attr_of 17 m = None" "attr_of 18 m = None" "\<And>t v. f (PaUnknown t v) = None"
  shows "last_of f (map pa_value (filter is_unknown_opttrans m)) = None"
proof (rule last_of_none)
  fix v assume "v \<in> set (map pa_value (filter is_unknown_opttrans m))"
  then obtain a where "a \<in> set m" "is_unknown_opttrans a" "v = pa_value a" by auto
  then show "f v = None" using unknown_silent assms by metis
qed

section \<open>What a plain neighbour is told\<close>

text \<open>The AS path that goes out.\<close>

definition meant_path :: "bgp_session \<Rightarrow> as_segment list \<Rightarrow> as_segment list" where
  "meant_path s segs = (if is_ebgp_peer s then prepend_local_as (se_local_as s) segs else segs)"

text \<open>
  The message of a path with the attributes \<open>m\<close>, by the rules of RFC 4271: the next hop of
  \<^const>\<open>out_next_hop\<close>, the local AS in front for another AS, the MED of the settings there and that of the path
  inside, a local preference inside only; and the rest as the path has it.
\<close>

definition advertised :: "out_conf \<Rightarrow> bgp_session \<Rightarrow> bgp_path \<Rightarrow> 'e path_attr list \<Rightarrow> int \<Rightarrow> string \<times> int \<Rightarrow> bgp_update" where
  "advertised C s p m lp nlri =
     \<lparr>up_as_path = map_option (meant_path s) (attr_val as_path_of 2 m), up_as4_path = None,
      up_aggregator = attr_val aggregator_of 7 m, up_as4_aggregator = None,
      up_origin = attr_val origin_of 1 m, up_next_hop = Some (out_next_hop C s p),
      up_local_pref = (if is_ebgp_peer s then None else Some lp),
      up_med = (if is_ebgp_peer s then (if se_med s = Some 0 then None else se_med s) else attr_val med_of 4 m),
      up_originator_id = None, up_cluster_list = None,
      up_communities = attr_val communities_of 8 m, up_rts = attr_val rts_of 16 m,
      up_nlri = [nlri_text nlri], up_withdrawn = []\<rparr>"

lemma soo_no_target: "soo_comm soo = Inr c \<Longrightarrow> ext_text 2 c = []"
  by (auto simp: soo_comm_def res_bind_eq_Inr split: list.splits if_splits)

lemma soos_no_target: "res_map soo_comm soos = Inr cs \<Longrightarrow> concat (map (ext_text 2) cs) = []"
  by (induction soos arbitrary: cs) (auto simp: res_bind_eq_Inr soo_no_target)

text \<open>The parts of the list of attributes, each for all selectors.\<close>

lemma ext_comms_values:
  fixes f :: "'e attr_value \<Rightarrow> 'x option"
  assumes "out_ext_comms C m = Inr (m', ec)"
  shows "(\<And>v. f v \<noteq> None \<Longrightarrow> attr_type v = t) \<Longrightarrow> t \<noteq> 16 \<Longrightarrow> t \<noteq> 22 \<Longrightarrow> last_of f (map pa_value ec) = None"
    "last_of rts_of (map pa_value ec) = attr_val rts_of 16 m"
proof -
  show "last_of rts_of (map pa_value ec) = attr_val rts_of 16 m"
    using assms by (auto simp: out_ext_comms_def res_bind_eq_Inr attr_val_def new_attr_def opt_attrs rt_list_def
        soos_no_target split: option.splits attr_value.splits)
  assume f: "\<And>v. f v \<noteq> None \<Longrightarrow> attr_type v = t" and t: "t \<noteq> 16" "t \<noteq> 22"
  have "f (PaExtComms cs) = None" for cs using f [of "PaExtComms cs"] t by (cases "f (PaExtComms cs)") auto
  moreover have "last_of f (map pa_value (opt_list (attr_of 22 m))) = None" using last_of_opt_attr [of f t, OF f] t by auto
  ultimately show "last_of f (map pa_value ec) = None"
    using assms by (auto simp: out_ext_comms_def res_bind_eq_Inr new_attr_def split: option.splits attr_value.splits)
qed

lemma med_values:
  "last_of med_of (map pa_value (out_med s m)) =
    (if is_ebgp_peer s then (if se_med s = Some 0 then None else se_med s) else attr_val med_of 4 m)"
  "(\<And>v. f v \<noteq> None \<Longrightarrow> attr_type v = t) \<Longrightarrow> t \<noteq> 4 \<Longrightarrow> last_of f (map pa_value (out_med s m)) = None"
proof -
  show "last_of med_of (map pa_value (out_med s m)) =
      (if is_ebgp_peer s then (if se_med s = Some 0 then None else se_med s) else attr_val med_of 4 m)"
    by (simp add: out_med_def new_attr_def opt_attrs split: option.split)
  assume f: "\<And>v. f v \<noteq> None \<Longrightarrow> attr_type v = t" and t: "t \<noteq> 4"
  have "f (PaMultiExitDisc v) = None" for v using f [of "PaMultiExitDisc v"] t by (cases "f (PaMultiExitDisc v)") auto
  then show "last_of f (map pa_value (out_med s m)) = None"
    using last_of_opt_attr [of f t, OF f] t by (simp add: out_med_def new_attr_def split: option.split)
qed

lemma local_pref_values:
  assumes "out_local_pref within C s p = Inr lps"
  shows "last_of local_pref_of (map pa_value lps) =
      (if is_ebgp_peer s then None else Some (case lookup_local_pref within (oc_local_pref_maps C) p of Inr (Some v) \<Rightarrow> v | _ \<Rightarrow> oc_local_pref C))"
    "(\<And>v. f v \<noteq> None \<Longrightarrow> attr_type v = t) \<Longrightarrow> t \<noteq> 5 \<Longrightarrow> last_of f (map pa_value lps) = None"
proof -
  show "last_of local_pref_of (map pa_value lps) =
      (if is_ebgp_peer s then None else Some (case lookup_local_pref within (oc_local_pref_maps C) p of Inr (Some v) \<Rightarrow> v | _ \<Rightarrow> oc_local_pref C))"
    using assms by (auto simp: out_local_pref_def res_bind_eq_Inr new_attr_def split: option.splits if_splits)
  assume f: "\<And>v. f v \<noteq> None \<Longrightarrow> attr_type v = t" and t: "t \<noteq> 5"
  have "f (PaLocalPref v) = None" for v using f [of "PaLocalPref v"] t by (cases "f (PaLocalPref v)") auto
  then show "last_of f (map pa_value lps) = None"
    using assms by (auto simp: out_local_pref_def res_bind_eq_Inr new_attr_def split: option.splits if_splits)
qed

text \<open>The aggregator, with its number in the one attribute or in the other.\<close>

lemma aggregator_values:
  "(last_of aggregator_of (map pa_value (out_aggregator four m)), last_of as4_aggregator_of (map pa_value (out_aggregator four m)))
    \<in> {(attr_val aggregator_of 7 m, None), (Some AS_TRANS, attr_val aggregator_of 7 m)}"
  "last_of as4_aggregator_of (map pa_value (out_aggregator four m)) = None \<longrightarrow>
    last_of aggregator_of (map pa_value (out_aggregator four m)) = attr_val aggregator_of 7 m"
  "(\<And>v. f v \<noteq> None \<Longrightarrow> attr_type v = t) \<Longrightarrow> t \<noteq> 7 \<Longrightarrow> t \<noteq> 18 \<Longrightarrow> last_of f (map pa_value (out_aggregator four m)) = None"
proof -
  have a4: "as4_aggregator_of v = None" if "attr_type v = 7" for v :: "'a attr_value" using that by (cases v) simp_all
  show "(last_of aggregator_of (map pa_value (out_aggregator four m)), last_of as4_aggregator_of (map pa_value (out_aggregator four m)))
    \<in> {(attr_val aggregator_of 7 m, None), (Some AS_TRANS, attr_val aggregator_of 7 m)}"
    "last_of as4_aggregator_of (map pa_value (out_aggregator four m)) = None \<longrightarrow>
    last_of aggregator_of (map pa_value (out_aggregator four m)) = attr_val aggregator_of 7 m"
    using a4 attr_of_some [of 7 m] by (auto simp: out_aggregator_def attr_val_def new_attr_def split: option.split attr_value.split)
  assume f: "\<And>v. f v \<noteq> None \<Longrightarrow> attr_type v = t" and t: "t \<noteq> 7" "t \<noteq> 18"
  have "f v = None" if "attr_type v = 7 \<or> attr_type v = 18" for v using f that t by blast
  then show "last_of f (map pa_value (out_aggregator four m)) = None"
    using attr_of_some [of 7 m] by (auto simp: out_aggregator_def new_attr_def split: option.split attr_value.split)
qed

text \<open>The local preference that the maps of the neighbour give.\<close>

definition meant_local_pref :: "netaddr \<Rightarrow> out_conf \<Rightarrow> bgp_path \<Rightarrow> int" where
  "meant_local_pref within C p =
     (case lookup_local_pref within (oc_local_pref_maps C) p of Inr (Some v) \<Rightarrow> v | _ \<Rightarrow> oc_local_pref C)"

lemma plain_attrs_parts:
  assumes "plain_attrs within C four s p m = Inr (m', as)"
  obtains origin aspath segs lps ec where "attr_of 1 m = Some origin" "attr_of 2 m = Some aspath"
    "as_path_of (pa_value aspath) = Some segs" "out_local_pref within C s p = Inr lps" "out_ext_comms C m = Inr (m', ec)"
    "as = [new_attr (PaNextHop (out_next_hop C s p)), origin, new_attr (PaAsPath four (fst (trans_as_path four (meant_path s segs))))] @
      (case snd (trans_as_path four (meant_path s segs)) of None \<Rightarrow> [] | Some q \<Rightarrow> if q = [] then [] else [new_attr (PaAs4Path q)]) @
      out_aggregator four m @ out_med s m @ lps @ opt_list (attr_of 8 m) @ ec @ filter is_unknown_opttrans m"
  using assms by (auto simp: plain_attrs_def meant_path_def res_bind_eq_Inr split: option.splits prod.splits)

text \<open>Every attribute that a plain neighbour is sent, as the message reads it.\<close>

lemma plain_update_of:
  assumes u: "plain_attrs within C four s p m = Inr (m', as)" and old: "attr_of 17 m = None" "attr_of 18 m = None"
  obtains segs n n4 where "attr_val as_path_of 2 m = Some segs"
    "(n, n4) \<in> {(attr_val aggregator_of 7 m, None), (Some AS_TRANS, attr_val aggregator_of 7 m)}"
    "n4 = None \<longrightarrow> n = attr_val aggregator_of 7 m"
    "update_of \<lparr>wu_withdrawn = [], wu_attrs = as, wu_nlri = [nlri]\<rparr> =
      (advertised C s p m (meant_local_pref within C p) nlri)\<lparr>up_as_path := Some (fst (trans_as_path four (meant_path s segs))),
      up_as4_path := (case snd (trans_as_path four (meant_path s segs)) of None \<Rightarrow> None | Some q \<Rightarrow> if q = [] then None else Some q),
      up_aggregator := n, up_as4_aggregator := n4\<rparr>"
proof -
  obtain origin aspath segs lps ec where a: "attr_of 1 m = Some origin" "attr_of 2 m = Some aspath"
    "as_path_of (pa_value aspath) = Some segs" "out_local_pref within C s p = Inr lps" "out_ext_comms C m = Inr (m', ec)"
    "as = [new_attr (PaNextHop (out_next_hop C s p)), origin, new_attr (PaAsPath four (fst (trans_as_path four (meant_path s segs))))] @
      (case snd (trans_as_path four (meant_path s segs)) of None \<Rightarrow> [] | Some q \<Rightarrow> if q = [] then [] else [new_attr (PaAs4Path q)]) @
      out_aggregator four m @ out_med s m @ lps @ opt_list (attr_of 8 m) @ ec @ filter is_unknown_opttrans m"
    by (rule plain_attrs_parts [OF u])
  have o1: "attr_type (pa_value origin) = 1" using attr_of_some [OF a(1)] by simp
  have o: "as_path_of (pa_value origin) = None" "as4_path_of (pa_value origin) = None" "aggregator_of (pa_value origin) = None"
    "as4_aggregator_of (pa_value origin) = None" "next_hop_of (pa_value origin) = None" "local_pref_of (pa_value origin) = None"
    "med_of (pa_value origin) = None" "originator_of (pa_value origin) = None" "cluster_of (pa_value origin) = None"
    "communities_of (pa_value origin) = None" "rts_of (pa_value origin) = None"
    using o1 by (cases "pa_value origin"; simp)+
  have og: "origin_of (pa_value origin) = attr_val origin_of 1 m" using a(1) by (simp add: attr_val_def)
  note part = med_values(2) local_pref_values(2) [OF a(4)] ext_comms_values(1) [OF a(5)] aggregator_values(3)
  note sel = selector_types
  note parts = part [OF sel(1)] part [OF sel(2)] part [OF sel(3)] part [OF sel(4)] part [OF sel(5)] part [OF sel(6)]
    part [OF sel(7)] part [OF sel(8)] part [OF sel(9)] part [OF sel(10)] part [OF sel(11)] part [OF sel(12)]
    med_values(1) local_pref_values(1) [OF a(4)] ext_comms_values(2) [OF a(5)] opt_attrs last_of_unknown [OF old]
  define P2 P4 where "P2 = fst (trans_as_path four (meant_path s segs))"
    and "P4 = (case snd (trans_as_path four (meant_path s segs)) of None \<Rightarrow> None | Some q \<Rightarrow> if q = [] then None else Some q)"
  define L4 :: "'a path_attr list" where "L4 = map (\<lambda>q. new_attr (PaAs4Path q)) (opt_list P4)"
  define N N4 where "N = last_of aggregator_of (map pa_value (out_aggregator four m))"
    and "N4 = last_of as4_aggregator_of (map pa_value (out_aggregator four m))"
  have as: "as = new_attr (PaNextHop (out_next_hop C s p)) # origin # new_attr (PaAsPath four P2) # L4 @
      out_aggregator four m @ out_med s m @ lps @ opt_list (attr_of 8 m) @ ec @ filter is_unknown_opttrans m"
    unfolding a(6) L4_def P2_def P4_def by (simp add: opt_list_def split: option.split)
  have l4: "last_of as4_path_of (map pa_value L4) = P4" "(\<And>q. f (PaAs4Path q) = None) \<Longrightarrow> last_of f (map pa_value L4) = None"
    for f :: "'a attr_value \<Rightarrow> 'x option"
    by (simp_all add: L4_def opt_list_def new_attr_def split: option.split)
  have "last_of as_path_of (map pa_value as) = Some P2" "last_of as4_path_of (map pa_value as) = P4"
    "last_of aggregator_of (map pa_value as) = N" "last_of as4_aggregator_of (map pa_value as) = N4"
    "last_of origin_of (map pa_value as) = attr_val origin_of 1 m" "last_of next_hop_of (map pa_value as) = Some (out_next_hop C s p)"
    "last_of local_pref_of (map pa_value as) = (if is_ebgp_peer s then None else Some (meant_local_pref within C p))"
    "last_of med_of (map pa_value as) = (if is_ebgp_peer s then (if se_med s = Some 0 then None else se_med s) else attr_val med_of 4 m)"
    "last_of originator_of (map pa_value as) = None" "last_of cluster_of (map pa_value as) = None"
    "last_of communities_of (map pa_value as) = attr_val communities_of 8 m" "last_of rts_of (map pa_value as) = attr_val rts_of 16 m"
    unfolding as by (simp_all add: parts o og N_def N4_def new_attr_def meant_local_pref_def)
      (simp_all add: parts o l4 flip: og split: option.split)
  then have "update_of \<lparr>wu_withdrawn = [], wu_attrs = as, wu_nlri = [nlri]\<rparr> =
      (advertised C s p m (meant_local_pref within C p) nlri)\<lparr>up_as_path := Some P2, up_as4_path := P4,
      up_aggregator := N, up_as4_aggregator := N4\<rparr>" by (simp add: update_of_def advertised_def)
  then show ?thesis
  proof (intro that [of segs N N4])
    show "attr_val as_path_of 2 m = Some segs" using a(2,3) by (simp add: attr_val_def)
    show "(N, N4) \<in> {(attr_val aggregator_of 7 m, None), (Some AS_TRANS, attr_val aggregator_of 7 m)}"
      "N4 = None \<longrightarrow> N = attr_val aggregator_of 7 m" unfolding N_def N4_def by (rule aggregator_values)+
  qed (simp only: P2_def P4_def)
qed

text \<open>What was split is merged again.\<close>

lemma plain_received:
  assumes u: "plain_attrs within C four s p m = Inr (m', as)" and old: "attr_of 17 m = None" "attr_of 18 m = None"
    and path: "attr_val as_path_of 2 m = Some segs" "canonical_path (meant_path s segs)"
  shows "reconstruct_as_path (update_of \<lparr>wu_withdrawn = [], wu_attrs = as, wu_nlri = [nlri]\<rparr>) =
    advertised C s p m (meant_local_pref within C p) nlri"
proof -
  let ?A = "advertised C s p m (meant_local_pref within C p) nlri"
  obtain segs' n n4 where s': "attr_val as_path_of 2 m = Some segs'"
    and n: "(n, n4) \<in> {(attr_val aggregator_of 7 m, None), (Some AS_TRANS, attr_val aggregator_of 7 m)}"
      "n4 = None \<longrightarrow> n = attr_val aggregator_of 7 m"
    and U: "update_of \<lparr>wu_withdrawn = [], wu_attrs = as, wu_nlri = [nlri]\<rparr> =
      ?A\<lparr>up_as_path := Some (fst (trans_as_path four (meant_path s segs'))),
      up_as4_path := (case snd (trans_as_path four (meant_path s segs')) of None \<Rightarrow> None | Some q \<Rightarrow> if q = [] then None else Some q),
      up_aggregator := n, up_as4_aggregator := n4\<rparr>"
    by (rule plain_update_of [OF u old])
  have segs: "segs' = segs" using s' path(1) by simp
  have "construct_as_path_attr (fst (trans_as_path four (meant_path s segs))) (snd (trans_as_path four (meant_path s segs))) = meant_path s segs"
    using trans_construct [OF path(2), of four] by (simp add: case_prod_beta)
  moreover from this have "snd (trans_as_path four (meant_path s segs)) = None \<Longrightarrow>
      fst (trans_as_path four (meant_path s segs)) = meant_path s segs" by (simp add: construct_as_path_attr_def)
  moreover have "snd (trans_as_path four (meant_path s segs)) = Some q \<Longrightarrow> q \<noteq> [] \<and> as_path_len (fst (trans_as_path four (meant_path s segs))) = as_path_len q" for q
    using swap_len [of "meant_path s segs"] by (auto simp: trans_as_path_def Let_def split: if_splits)
  ultimately have "U' = ?A" if "U' = reconstruct_as_path (?A\<lparr>up_as_path := Some (fst (trans_as_path four (meant_path s segs))),
      up_as4_path := (case snd (trans_as_path four (meant_path s segs)) of None \<Rightarrow> None | Some q \<Rightarrow> if q = [] then None else Some q),
      up_aggregator := n, up_as4_aggregator := n4\<rparr>)" for U'
    using that path(1) n
    by (cases "snd (trans_as_path four (meant_path s segs))"; cases n4)
      (auto simp: reconstruct_as_path_def Let_def advertised_def AS_TRANS_def split: option.split)
  then show ?thesis unfolding U segs by blast
qed

section \<open>On the wire\<close>

text \<open>
  The attributes of a path that can be sent to an old speaker: every value fits its field; the numbers
  of the AS path and of the aggregator may have four octets.
\<close>

fun sendable :: "addrconv \<Rightarrow> bool \<Rightarrow> 'e attr_value \<Rightarrow> bool" where
  "sendable A g (PaAsPath four ss) \<longleftrightarrow> True"
| "sendable A g (PaAggregator n a) \<longleftrightarrow> in_range 4 n \<and> canon_ip4 A a"
| "sendable A g v \<longleftrightarrow> value_wf A g v"

lemma swapped_wf: "seg_wf 4 seg \<Longrightarrow> seg_wf 2 (swap_segment seg)"
proof -
  have r: "in_range 2 (swap_asn n)" for n by (simp add: swap_asn_def in_range_def is_valid_old_asn_def AS_TRANS_def)
  have l: "length (remdups (map swap_asn ns)) \<le> length ns" for ns using length_remdups_leq [of "map swap_asn ns"] by simp
  show "seg_wf 4 seg \<Longrightarrow> seg_wf 2 (swap_segment seg)"
    using l le_less_trans by (cases seg) (auto simp: list_all_iff r)
qed

lemma trans_wf:
  assumes "list_all (seg_wf 4) p"
  shows "list_all (seg_wf 2) (fst (trans_as_path False p))"
    "snd (trans_as_path False p) = Some q \<Longrightarrow> list_all (seg_wf 4) q"
proof -
  have old: "seg_wf 2 seg" if "seg_wf 4 seg" "segment_eq seg (swap_segment seg)" for seg
  proof -
    have "list_all is_valid_old_asn (seg_asns seg)" using that(2) by (simp add: segment_eq_old)
    then show ?thesis using that(1) by (cases seg) (auto simp: list_all_iff in_range_def is_valid_old_asn_def)
  qed
  have "list_all2 segment_eq p (map swap_segment p) \<Longrightarrow> list_all (seg_wf 2) p"
    using assms old by (auto simp: list_all2_conv_all_nth list_all_length)
  then show "list_all (seg_wf 2) (fst (trans_as_path False p))"
    using assms swapped_wf by (auto simp: trans_as_path_def Let_def list_all_iff)
  show "snd (trans_as_path False p) = Some q \<Longrightarrow> list_all (seg_wf 4) q"
    using assms by (auto simp: trans_as_path_def Let_def split: if_splits)
qed

definition settings_wf :: "addrconv \<Rightarrow> out_conf \<Rightarrow> bgp_session \<Rightarrow> bool" where
  "settings_wf A C s \<longleftrightarrow> (case se_med s of None \<Rightarrow> True | Some v \<Rightarrow> in_range 4 v) \<and>
     (case res_map soo_comm (oc_soo_list C) of Inl e \<Rightarrow> True | Inr cs \<Rightarrow> list_all (ext_comm_wf A) cs)"

abbreviation sendable_attrs :: "addrconv \<Rightarrow> bool \<Rightarrow> 'e path_attr list \<Rightarrow> bool" where
  "sendable_attrs A g m \<equiv> list_all (\<lambda>a. sendable A g (pa_value a)) m"

abbreviation wire_attrs :: "addrconv \<Rightarrow> bool \<Rightarrow> 'e path_attr list \<Rightarrow> bool" where
  "wire_attrs A g m \<equiv> list_all (\<lambda>a. value_wf A g (pa_value a)) m"

lemma sendable_value: "sendable A g v \<Longrightarrow> attr_type v \<notin> {2, 7} \<Longrightarrow> value_wf A g v"
  by (cases v) simp_all

lemma sendable_opt: "sendable_attrs A g m \<Longrightarrow> t \<notin> {2, 7} \<Longrightarrow> wire_attrs A g (opt_list (attr_of t m))"
proof (cases "attr_of t m")
  case (Some a)
  assume "sendable_attrs A g m" "t \<notin> {2, 7}"
  then have "value_wf A g (pa_value a)" using attr_of_some [OF Some] by (intro sendable_value) (auto simp: list_all_iff)
  then show ?thesis using Some by (simp add: opt_list_def)
qed (simp add: opt_list_def)

lemma aggregator_wf: "sendable_attrs A g m \<Longrightarrow> wire_attrs A g (out_aggregator False m)"
proof (cases "attr_of 7 m")
  case (Some a)
  assume m: "sendable_attrs A g m"
  have a: "sendable A g (pa_value a)" "attr_type (pa_value a) = 7" using m attr_of_some [OF Some] by (auto simp: list_all_iff)
  then show ?thesis using Some
    by (cases "pa_value a") (auto simp: out_aggregator_def new_attr_def in_range_def AS_TRANS_def is_valid_old_asn_def)
qed (simp add: out_aggregator_def)

lemma ext_comms_wf:
  "sendable_attrs A g m \<Longrightarrow> settings_wf A C s \<Longrightarrow> out_ext_comms C m = Inr (m', ec) \<Longrightarrow> wire_attrs A g ec"
  using sendable_opt [of A g m 22] attr_of_some [of 16 m]
  by (fastforce simp: out_ext_comms_def settings_wf_def res_bind_eq_Inr new_attr_def list_all_iff split: option.splits attr_value.splits)

lemma unknown_wf:
  assumes "sendable_attrs A g m" "attr_of 17 m = None" "attr_of 18 m = None"
  shows "wire_attrs A g (filter is_unknown_opttrans m)"
proof -
  have "value_wf A g (pa_value a)" if "a \<in> set m" "is_unknown_opttrans a" for a
    using unknown_silent [OF that(2) assms(2,3) that(1)] assms(1) that(1) by (auto simp: list_all_iff)
  then show ?thesis by (simp add: list_all_iff)
qed

lemma plain_wire:
  assumes u: "plain_attrs within C False s p m = Inr (m', as)" and old: "attr_of 17 m = None" "attr_of 18 m = None"
    and path: "attr_val as_path_of 2 m = Some segs" "list_all (seg_wf 4) (meant_path s segs)"
    and wf: "sendable_attrs A g m" "settings_wf A C s" "canon_ip4 A (out_next_hop C s p)" "in_range 4 (meant_local_pref within C p)"
  shows "wire_attrs A g as"
proof -
  obtain origin aspath segs' lps ec where a: "attr_of 1 m = Some origin" "attr_of 2 m = Some aspath"
    "as_path_of (pa_value aspath) = Some segs'" "out_local_pref within C s p = Inr lps" "out_ext_comms C m = Inr (m', ec)"
    "as = [new_attr (PaNextHop (out_next_hop C s p)), origin, new_attr (PaAsPath False (fst (trans_as_path False (meant_path s segs'))))] @
      (case snd (trans_as_path False (meant_path s segs')) of None \<Rightarrow> [] | Some q \<Rightarrow> if q = [] then [] else [new_attr (PaAs4Path q)]) @
      out_aggregator False m @ out_med s m @ lps @ opt_list (attr_of 8 m) @ ec @ filter is_unknown_opttrans m"
    by (rule plain_attrs_parts [OF u])
  have segs: "segs' = segs" using a(2,3) path(1) by (simp add: attr_val_def)
  have origin: "value_wf A g (pa_value origin)" using sendable_opt [OF wf(1), of 1] a(1) by (simp add: opt_list_def)
  have p4: "wire_attrs A g (case snd (trans_as_path False (meant_path s segs)) of None \<Rightarrow> [] | Some q \<Rightarrow> if q = [] then [] else [new_attr (PaAs4Path q)])"
    using trans_wf(2) [OF path(2)] by (auto simp: new_attr_def split: option.split)
  have med: "wire_attrs A g (out_med s m)"
    using wf(2) sendable_opt [OF wf(1), of 4] by (auto simp: out_med_def settings_wf_def new_attr_def split: option.splits)
  have lp: "wire_attrs A g lps"
    using a(4) wf(4) by (auto simp: out_local_pref_def meant_local_pref_def res_bind_eq_Inr new_attr_def split: option.splits if_splits)
  show ?thesis unfolding a(6) segs
    using origin p4 med lp wf(3) trans_wf(1) [OF path(2)] aggregator_wf [OF wf(1)] sendable_opt [OF wf(1), of 8]
      ext_comms_wf [OF wf(1,2) a(5)] unknown_wf [OF wf(1) old]
    by (simp add: new_attr_def)
qed

section \<open>Into the table of the neighbour\<close>

lemma path_learned:
  assumes "tb_rf (co_table c) = pt_rf p" "pt_rf p = (1, 1)" "\<not> pt_is_withdraw p"
  shows "\<exists>c' d. learn_path p c = Inr c' \<and> map_of (tb_dests (co_table c')) (pt_nlri p) = Some d \<and>
    p \<in> set (ds_new d) \<and> pt_nlri p \<in> set (co_queue c')"
  using assms by (auto simp: learn_path_def table_insert_def Let_def put_dest_def update_conv add_new_path_def)

lemma prefix_learned:
  assumes s: "se_established (co_sessions c j)" "\<not> se_check_first_as (co_sessions c j)" "tb_rf (co_table c) = (1, 1)"
    and u: "up_nlri u = [k]" "up_as_path u \<noteq> None" "up_origin u \<noteq> None" "up_next_hop u \<noteq> None"
    and v: "reconstruct_as_path u = v" "up_nlri v = [k]" "up_withdrawn v = []" "up_next_hop v = Some (h # hs)"
    and f: "apply_filter within (se_in_filters (co_sessions c j)) (new_path (co_next c) j (se_version_num (co_sessions c j)) v k) = Inr False"
  shows "\<exists>c' d. handle_update_msg within j u c = Inr c' \<and> map_of (tb_dests (co_table c')) (fst k) = Some d \<and>
    new_path (co_next c) j (se_version_num (co_sessions c j)) v k \<in> set (ds_new d) \<and> fst k \<in> set (co_queue c')"
proof -
  obtain nlri plen where k: "k = (nlri, plen)" by (cases k)
  have l: "is_looped_path_attrs (co_sessions c j) v \<noteq> Some True" by (simp add: is_looped_path_attrs_def)
  let ?p = "new_path (co_next c) j (se_version_num (co_sessions c j)) v k"
  have p: "pt_nexthop ?p \<noteq> []" "pt_nlri ?p = nlri" "pt_rf ?p = (1, 1)" "\<not> pt_is_withdraw ?p" using v(4) by (simp_all add: new_path_def k)
  have "handle_update_msg within j u c = handle_nlri within j v k c"
    using s u v l by (auto simp: handle_update_msg_def validate_update_msg_def Let_def res_bind_def split: sum.split)
  moreover have "handle_nlri within j v k c = learn_path ?p (put_session j ((co_sessions c j)
      \<lparr>se_adj_rib_in := AList.update nlri (?p, False) (se_adj_rib_in (co_sessions c j))\<rparr>) (c\<lparr>co_next := Suc (co_next c)\<rparr>))"
    using f p by (simp add: handle_nlri_def Let_def)
  moreover have "tb_rf (co_table (put_session j ((co_sessions c j)
      \<lparr>se_adj_rib_in := AList.update nlri (?p, False) (se_adj_rib_in (co_sessions c j))\<rparr>) (c\<lparr>co_next := Suc (co_next c)\<rparr>))) = pt_rf ?p"
    using s(3) p(3) by (simp add: put_session_def)
  from path_learned [OF this p(3,4)] have "\<exists>c' d. learn_path ?p (put_session j ((co_sessions c j)
      \<lparr>se_adj_rib_in := AList.update nlri (?p, False) (se_adj_rib_in (co_sessions c j))\<rparr>) (c\<lparr>co_next := Suc (co_next c)\<rparr>)) = Inr c' \<and>
    map_of (tb_dests (co_table c')) nlri = Some d \<and> ?p \<in> set (ds_new d) \<and> nlri \<in> set (co_queue c')" by (simp only: p(2))
  ultimately show ?thesis by (simp add: k)
qed

text \<open>It passes the checks of a received UPDATE.\<close>

lemma plain_valid:
  assumes u: "plain_attrs within C four s p m = Inr (m', as)" and old: "attr_of 17 m = None" "attr_of 18 m = None"
    and m: "sendable_attrs A g m"
  shows "up_as_path (update_of \<lparr>wu_withdrawn = [], wu_attrs = as, wu_nlri = [nlri]\<rparr>) \<noteq> None"
    "up_origin (update_of \<lparr>wu_withdrawn = [], wu_attrs = as, wu_nlri = [nlri]\<rparr>) \<noteq> None"
    "up_next_hop (update_of \<lparr>wu_withdrawn = [], wu_attrs = as, wu_nlri = [nlri]\<rparr>) \<noteq> None"
    "up_nlri (update_of \<lparr>wu_withdrawn = [], wu_attrs = as, wu_nlri = [nlri]\<rparr>) = [nlri_text nlri]"
proof -
  obtain origin where o: "attr_of 1 m = Some origin" by (rule plain_attrs_parts [OF u])
  then have "sendable A g (pa_value origin)" "attr_type (pa_value origin) = 1" using attr_of_some [OF o] m by (auto simp: list_all_iff)
  then have "origin_of (pa_value origin) \<noteq> None" by (cases "pa_value origin") simp_all
  then have o: "attr_val origin_of 1 m \<noteq> None" using o by (simp add: attr_val_def)
  obtain segs n n4 where "update_of \<lparr>wu_withdrawn = [], wu_attrs = as, wu_nlri = [nlri]\<rparr> =
      (advertised C s p m (meant_local_pref within C p) nlri)\<lparr>up_as_path := Some (fst (trans_as_path four (meant_path s segs))),
      up_as4_path := (case snd (trans_as_path four (meant_path s segs)) of None \<Rightarrow> None | Some q \<Rightarrow> if q = [] then None else Some q),
      up_aggregator := n, up_as4_aggregator := n4\<rparr>" by (rule plain_update_of [OF u old])
  then show "up_as_path (update_of \<lparr>wu_withdrawn = [], wu_attrs = as, wu_nlri = [nlri]\<rparr>) \<noteq> None"
    "up_origin (update_of \<lparr>wu_withdrawn = [], wu_attrs = as, wu_nlri = [nlri]\<rparr>) \<noteq> None"
    "up_next_hop (update_of \<lparr>wu_withdrawn = [], wu_attrs = as, wu_nlri = [nlri]\<rparr>) \<noteq> None"
    "up_nlri (update_of \<lparr>wu_withdrawn = [], wu_attrs = as, wu_nlri = [nlri]\<rparr>) = [nlri_text nlri]"
    using o by (simp_all add: advertised_def)
qed

end
