(* ===== verification/Bgp_Out_Props.thy ===== *)
theory Bgp_Out_Props
  imports Bgp_Send Bgp_Session_Props
begin

text \<open>The properties of the UPDATE messages that are sent.\<close>

section \<open>Samples\<close>

text \<open>
  A route with a four-octet number in its AS path and a route target, for a neighbour in another AS that is
  given a site of origin.
\<close>

definition sample_out :: out_conf where
  "sample_out = \<lparr>oc_router_id = ''10.0.0.1'', oc_next_hop = None, oc_host_bind_ip = ip4_to_text unix_addrconv [10, 0, 0, 1],
     oc_next_hop_self = False, oc_local_pref = 100, oc_local_pref_maps = [], oc_soo_list = [''65000:7''],
     oc_peer_ip = (\<lambda>i. ''10.0.0.2'')\<rparr>"

definition sample_attrs :: "unit path_attr list" where
  "sample_attrs = [\<lparr>pa_flags = 0x40, pa_value = PaOrigin 0\<rparr>, \<lparr>pa_flags = 0x40, pa_value = PaAsPath False [AsSequence [70000]]\<rparr>,
     \<lparr>pa_flags = 0x40, pa_value = PaAtomicAggregate\<rparr>,
     \<lparr>pa_flags = 0xC0, pa_value = PaExtComms [ExtComm False (EcTwoOctetAs 2 65001 100)]\<rparr>]"

definition sample_nlri :: "string \<times> int" where
  "sample_nlri = (ip4_to_text unix_addrconv [10, 1, 0, 0], 16)"

definition sample_out_attrs :: "unit path_attr list" where
  "sample_out_attrs = [new_attr (PaNextHop (ip4_to_text unix_addrconv [10, 0, 0, 1])), \<lparr>pa_flags = 0x40, pa_value = PaOrigin 0\<rparr>,
     new_attr (PaAsPath False [AsSequence [65000, 23456]]), new_attr (PaAs4Path [AsSequence [65000, 70000]]),
     new_attr (PaExtComms [ExtComm False (EcTwoOctetAs 2 65001 100), ExtComm False (EcTwoOctetAs 3 65000 7)])]"

definition sample_out_update :: "unit wire_update" where
  "sample_out_update = \<lparr>wu_withdrawn = [], wu_attrs = sample_out_attrs, wu_nlri = [sample_nlri]\<rparr>"

lemma sample_soo: "res_map soo_comm (oc_soo_list sample_out) = Inr [ExtComm False (EcTwoOctetAs 3 65000 7)]"
proof -
  have "soo_comm ''65000:7'' = Inr (ExtComm False (EcTwoOctetAs 3 65000 7))"
    by (simp add: soo_comm_def py_int10_def dec_start_def decval_def py_space_def Let_def)
  then show ?thesis by (simp add: sample_out_def)
qed

lemma sample_trans:
  "trans_as_path False (meant_path (sample_session 65009) [AsSequence [70000]]) = ([AsSequence [65000, 23456]], Some [AsSequence [65000, 70000]])"
  by code_simp

lemma sample_construct:
  "construct_update (\<lambda>a b. Inr True) sample_out False (sample_session 65009) (sample_path 2 2 [70000]) sample_attrs sample_nlri =
    Inr (put_ext_comms [ExtComm False (EcTwoOctetAs 2 65001 100), ExtComm False (EcTwoOctetAs 3 65000 7)] sample_attrs, sample_out_update)"
proof -
  have s: "is_ebgp_peer (sample_session 65009)" "se_med (sample_session 65009) = None" "\<not> se_rs_client (sample_session 65009)"
    "\<not> se_rr_client (sample_session 65009)" by (simp_all add: sample_session_def is_ebgp_peer_def)
  have p: "\<not> pt_is_withdraw (sample_path 2 2 [70000])" "pt_source (sample_path 2 2 [70000]) = FromPeer 2" by (simp_all add: sample_path_def)
  show ?thesis
    using sample_trans unfolding meant_path_def
    by (simp add: construct_update_def plain_attrs_def s p sample_attrs_def out_next_hop_def session_next_hop_def
        out_local_pref_def out_ext_comms_def sample_soo out_aggregator_def out_med_def opt_list_def is_unknown_opttrans_def
        sample_out_update_def sample_out_attrs_def, simp add: sample_out_def)
qed




section \<open>Routes\<close>




section \<open>What a path keeps of its neighbours\<close>

lemma put_ext_comms_attr: "attr_of 16 m = Some a \<Longrightarrow> attr_of 16 (put_ext_comms cs m) = Some (a\<lparr>pa_value := PaExtComms cs\<rparr>)"
  by (induction m) (auto simp: put_ext_comms_def)

text \<open>The extended communities go out, and into the path.\<close>

lemma plain_ext_comms:
  assumes "construct_update within C four s p m nlri = Inr (m', u)" "\<not> pt_is_withdraw p" "\<not> se_rs_client s" "\<not> se_rr_client s"
    and "attr_of 16 m = Some a" "pa_value a = PaExtComms cs" "res_map soo_comm (oc_soo_list C) = Inr soos"
  shows "new_attr (PaExtComms (cs @ soos)) \<in> set (wu_attrs u)" "attr_of 16 m' = Some (a\<lparr>pa_value := PaExtComms (cs @ soos)\<rparr>)"
proof -
  obtain as where as: "plain_attrs within C four s p m = Inr (m', as)" "wu_attrs u = as"
    using assms(1-4) by (auto simp: construct_update_def res_bind_eq_Inr)
  obtain ec where ec: "out_ext_comms C m = Inr (m', ec)" "set ec \<subseteq> set as"
    by (rule plain_attrs_parts [OF as(1)], erule that) auto
  then show "new_attr (PaExtComms (cs @ soos)) \<in> set (wu_attrs u)" "attr_of 16 m' = Some (a\<lparr>pa_value := PaExtComms (cs @ soos)\<rparr>)"
    using put_ext_comms_attr [OF assms(5)] by (auto simp: as(2) out_ext_comms_def assms(5-7))
qed

text \<open>C39: the sites of origin that are set for one neighbour are told to the next: they are appended to the
  communities of the path itself, so a second neighbour gets those of the first before its own, and a
  neighbour that is told the same path twice gets its own twice.\<close>

theorem bgp_site_of_origin_leaks:
  assumes "construct_update within C1 four1 s1 p m nlri = Inr (m1, u1)" "construct_update within C2 four2 s2 p m1 nlri = Inr (m2, u2)"
    and "\<not> pt_is_withdraw p" "\<not> se_rs_client s1" "\<not> se_rr_client s1" "\<not> se_rs_client s2" "\<not> se_rr_client s2"
    and "attr_of 16 m = Some a" "pa_value a = PaExtComms cs"
    and "res_map soo_comm (oc_soo_list C1) = Inr soos1" "res_map soo_comm (oc_soo_list C2) = Inr soos2"
  shows "new_attr (PaExtComms (cs @ soos1 @ soos2)) \<in> set (wu_attrs u2)"
  using plain_ext_comms(1) [OF assms(2,3,6,7) plain_ext_comms(2) [OF assms(1,3-5,8-10)] _ assms(11)] by simp

text \<open>The second neighbour has no site of origin of its own.\<close>

lemma bgp_site_of_origin_leaks_witness:
  "\<exists>m2 u2. construct_update (\<lambda>a b. Inr True) (sample_out\<lparr>oc_soo_list := []\<rparr>) False (sample_session 65008) (sample_path 2 2 [70000])
      (put_ext_comms [ExtComm False (EcTwoOctetAs 2 65001 100), ExtComm False (EcTwoOctetAs 3 65000 7)] sample_attrs) sample_nlri =
      Inr (m2, u2) \<and>
    new_attr (PaExtComms [ExtComm False (EcTwoOctetAs 2 65001 100), ExtComm False (EcTwoOctetAs 3 65000 7)]) \<in> set (wu_attrs u2)"
proof -
  let ?m = "put_ext_comms [ExtComm False (EcTwoOctetAs 2 65001 100), ExtComm False (EcTwoOctetAs 3 65000 7)] sample_attrs"
  have s: "is_ebgp_peer (sample_session 65008)" "\<not> se_rs_client (sample_session r)" "\<not> se_rr_client (sample_session r)" for r
    by (simp_all add: sample_session_def is_ebgp_peer_def)
  have p: "\<not> pt_is_withdraw (sample_path 2 2 [70000])" by (simp add: sample_path_def)
  have "\<exists>m2 u2. construct_update (\<lambda>a b. Inr True) (sample_out\<lparr>oc_soo_list := []\<rparr>) False (sample_session 65008) (sample_path 2 2 [70000])
      ?m sample_nlri = Inr (m2, u2)"
    by (simp add: construct_update_def plain_attrs_def s p sample_attrs_def put_ext_comms_def out_local_pref_def out_ext_comms_def split: prod.split)
  then obtain m2 u2 where u2: "construct_update (\<lambda>a b. Inr True) (sample_out\<lparr>oc_soo_list := []\<rparr>) False (sample_session 65008)
      (sample_path 2 2 [70000]) ?m sample_nlri = Inr (m2, u2)" by blast
  have a: "attr_of 16 sample_attrs = Some \<lparr>pa_flags = 0xC0, pa_value = PaExtComms [ExtComm False (EcTwoOctetAs 2 65001 100)]\<rparr>"
    by (simp add: sample_attrs_def)
  have soo: "res_map soo_comm (oc_soo_list (sample_out\<lparr>oc_soo_list := []\<rparr>)) = Inr []" by simp
  show ?thesis
    using bgp_site_of_origin_leaks [OF sample_construct u2 p s(2,3,2,3) a _ sample_soo soo] u2 by auto
qed

lemma reflected_types:
  assumes "t \<in> {9, 10}"
  shows "t \<in> (\<lambda>a. attr_type (pa_value a)) ` set (reflected_attrs C s p m)"
proof (cases "attr_of t m")
  case None
  then show ?thesis using assms by (auto simp: reflected_attrs_def new_attr_def)
next
  case (Some a)
  have "attr_type (pa_value (reflect_attr k a)) = attr_type (pa_value a)" for k
    by (cases "pa_value a") (simp_all add: reflect_attr_def new_attr_def)
  then have "reflect_attr (se_cluster_id s) a \<in> set (reflected_attrs C s p m)" "attr_type (pa_value (reflect_attr (se_cluster_id s) a)) = t"
    using attr_of_some [OF Some] by (simp_all add: reflected_attrs_def)
  then show ?thesis by (metis (no_types, lifting) imageI)
qed

lemma reflected_cluster: "a \<in> set (reflected_attrs C s p m) \<Longrightarrow> pa_value a = PaClusterList ids \<Longrightarrow> se_cluster_id s \<in> set ids"
  by (auto simp: reflected_attrs_def reflect_attr_def new_attr_def split: if_splits attr_value.splits)

text \<open>What only route reflection sends.\<close>

definition unreflected :: "'e attr_value \<Rightarrow> bool" where
  "unreflected v \<longleftrightarrow> v \<noteq> PaAtomicAggregate \<and> originator_of v = None \<and> cluster_of v = None"

lemma unreflected_type: "attr_type v \<notin> {6, 9, 10} \<Longrightarrow> unreflected v"
  by (cases v) (auto simp: unreflected_def)

lemma unreflected_opt: "t \<notin> {6, 9, 10} \<Longrightarrow> a \<in> set (opt_list (attr_of t m)) \<Longrightarrow> unreflected (pa_value a)"
  using attr_of_some [of t m] by (intro unreflected_type) (auto simp: opt_list_def split: option.splits)

lemma plain_unreflected:
  assumes "plain_attrs within C four s p m = Inr (m', as)" "a \<in> set as"
  shows "unreflected (pa_value a)"
proof -
  obtain origin aspath segs lps ec where a: "attr_of 1 m = Some origin" "out_local_pref within C s p = Inr lps" "out_ext_comms C m = Inr (m', ec)"
    "as = [new_attr (PaNextHop (out_next_hop C s p)), origin, new_attr (PaAsPath four (fst (trans_as_path four (meant_path s segs))))] @
      (case snd (trans_as_path four (meant_path s segs)) of None \<Rightarrow> [] | Some q \<Rightarrow> if q = [] then [] else [new_attr (PaAs4Path q)]) @
      out_aggregator four m @ out_med s m @ lps @ opt_list (attr_of 8 m) @ ec @ filter is_unknown_opttrans m"
    by (rule plain_attrs_parts [OF assms(1)])
  have new: "unreflected (PaNextHop h)" "unreflected (PaAsPath four ss)" "unreflected (PaAs4Path ss)" "unreflected (PaMultiExitDisc v)"
    "unreflected (PaLocalPref v)" "unreflected (PaAggregator v h)" "unreflected (PaAs4Aggregator v h)" "unreflected (PaExtComms es)"
    for h ss v es by (simp_all add: unreflected_def)
  have parts: "unreflected (pa_value origin)" "\<And>b. b \<in> set (out_aggregator four m) \<Longrightarrow> unreflected (pa_value b)"
    "\<And>b. b \<in> set (out_med s m) \<Longrightarrow> unreflected (pa_value b)" "\<And>b. b \<in> set lps \<Longrightarrow> unreflected (pa_value b)"
    "\<And>b. b \<in> set ec \<Longrightarrow> unreflected (pa_value b)" "\<And>b. is_unknown_opttrans b \<Longrightarrow> unreflected (pa_value b)"
  proof -
    show "unreflected (pa_value origin)" using attr_of_some [OF a(1)] by (intro unreflected_type) simp
    show "unreflected (pa_value b)" if "b \<in> set (out_aggregator four m)" for b
    proof (cases "attr_of 7 m")
      case (Some c)
      have "unreflected (pa_value c)" using attr_of_some [OF Some] by (intro unreflected_type) simp
      then show ?thesis using that Some by (cases "pa_value c") (auto simp: out_aggregator_def new_attr_def new split: if_splits)
    next
      case None
      then show ?thesis using that by (simp add: out_aggregator_def)
    qed
    show "unreflected (pa_value b)" if "b \<in> set (out_med s m)" for b
      using that unreflected_opt [of 4 b m] by (auto simp: out_med_def new_attr_def new split: option.splits if_splits)
    show "unreflected (pa_value b)" if "b \<in> set lps" for b
      using that a(2) by (auto simp: out_local_pref_def res_bind_eq_Inr new_attr_def new split: if_splits)
    show "unreflected (pa_value b)" if "b \<in> set ec" for b
      using that a(3) unreflected_opt [of 22 b m]
      by (auto simp: out_ext_comms_def res_bind_eq_Inr new_attr_def new split: option.splits attr_value.splits)
    show "unreflected (pa_value b)" if "is_unknown_opttrans b" for b
      using that by (cases "pa_value b") (simp_all add: is_unknown_opttrans_def unreflected_def)
  qed
  show ?thesis using assms(2) unreflected_opt [of 8 a m] parts unfolding a(4)
    by (auto simp: new_attr_def new split: option.splits if_splits)
qed

text \<open>C40: route reflection: a client is sent an originator and a cluster list with the own cluster; a neighbour that is
  not a client is sent neither, also none that the path has, and no \<^verbatim>\<open>ATOMIC_AGGREGATE\<close> either.\<close>

theorem bgp_reflection_attrs:
  assumes "construct_update within C four s p m nlri = Inr (m', u)" "\<not> pt_is_withdraw p" "\<not> se_rs_client s"
  shows "if se_rr_client s
    then {9, 10} \<subseteq> (\<lambda>a. attr_type (pa_value a)) ` set (wu_attrs u) \<and>
      (\<forall>a\<in>set (wu_attrs u). \<forall>ids. pa_value a = PaClusterList ids \<longrightarrow> se_cluster_id s \<in> set ids)
    else \<forall>a\<in>set (wu_attrs u). pa_value a \<noteq> PaAtomicAggregate \<and> originator_of (pa_value a) = None \<and> cluster_of (pa_value a) = None"
proof (cases "se_rr_client s")
  case True
  then have "wu_attrs u = reflected_attrs C s p m" using assms by (auto simp: construct_update_def)
  then show ?thesis using True reflected_types [of 9 C s p m] reflected_types [of 10 C s p m] reflected_cluster by auto
next
  case False
  then obtain as where "plain_attrs within C four s p m = Inr (m', as)" "wu_attrs u = as"
    using assms by (auto simp: construct_update_def res_bind_eq_Inr)
  then have "unreflected (pa_value a)" if "a \<in> set (wu_attrs u)" for a
    using plain_unreflected [of within C four s p m m' as a] that by simp
  then show ?thesis using False by (simp add: unreflected_def)
qed

lemma bgp_reflection_attrs_witness:
  "list_all (\<lambda>a. pa_value a \<noteq> PaAtomicAggregate) sample_out_attrs \<and>
    (\<exists>u. construct_update (\<lambda>a b. Inr True) sample_out False ((sample_session 65009)\<lparr>se_rr_client := True\<rparr>) (sample_path 2 2 [70000])
      sample_attrs sample_nlri = Inr (sample_attrs, u) \<and> (\<exists>a\<in>set (wu_attrs u). attr_type (pa_value a) = 9))"
proof -
  let ?s = "(sample_session 65009)\<lparr>se_rr_client := True\<rparr>"
  have p: "\<not> pt_is_withdraw (sample_path 2 2 [70000])" by (simp add: sample_path_def)
  have s: "\<not> se_rs_client (sample_session 65009)" "\<not> se_rr_client (sample_session 65009)" "\<not> se_rs_client ?s" "se_rr_client ?s"
    by (simp_all add: sample_session_def)
  obtain u where u: "construct_update (\<lambda>a b. Inr True) sample_out False ?s (sample_path 2 2 [70000]) sample_attrs sample_nlri =
      Inr (sample_attrs, u)" using p s(3,4) by (simp add: construct_update_def)
  show ?thesis using bgp_reflection_attrs [OF sample_construct p s(1)] bgp_reflection_attrs [OF u p s(3)] s(2,4) u
    by (auto simp: sample_out_update_def list_all_iff)
qed

end
