(* ===== verification/Py_Hashlib.thy ===== *)
theory Py_Hashlib
  imports Py_Struct
begin

text \<open>
  The two digests of Python's \<^verbatim>\<open>hashlib\<close> that the library uses: MD5 (RFC 1321) and SHA-1 (RFC 3174), on
  byte strings, with words of 32 bits.
\<close>

unbundle bit_operations_syntax

type_synonym w32 = "32 word"

definition be32 :: "bytes \<Rightarrow> w32" where
  "be32 bs = word_of_int (be_int bs)"

definition be32_bytes :: "w32 \<Rightarrow> bytes" where
  "be32_bytes w = be_bytes 4 (uint w)"

function chunks :: "nat \<Rightarrow> bytes \<Rightarrow> bytes list" where
  "chunks n bs = (if n = 0 \<or> length bs < n then [] else take n bs # chunks n (drop n bs))"
  by pat_completeness auto
termination by (relation "measure (\<lambda>(n, bs). length bs)") auto

declare chunks.simps [simp del]

text \<open>A bit of one, zeros up to the last eight octets of a block, and the length in bits.\<close>

definition padded :: "(bytes \<Rightarrow> bytes) \<Rightarrow> bytes \<Rightarrow> bytes" where
  "padded order m =
     m @ [0x80] @ replicate ((119 - length m mod 64) mod 64) 0 @ order (be_bytes 8 (8 * int (length m) mod 2 ^ 64))"

section \<open>MD5\<close>

definition md5_sines :: "w32 list" where
  "md5_sines =
    [0xd76aa478, 0xe8c7b756, 0x242070db, 0xc1bdceee, 0xf57c0faf, 0x4787c62a,
     0xa8304613, 0xfd469501, 0x698098d8, 0x8b44f7af, 0xffff5bb1, 0x895cd7be,
     0x6b901122, 0xfd987193, 0xa679438e, 0x49b40821, 0xf61e2562, 0xc040b340,
     0x265e5a51, 0xe9b6c7aa, 0xd62f105d, 0x02441453, 0xd8a1e681, 0xe7d3fbc8,
     0x21e1cde6, 0xc33707d6, 0xf4d50d87, 0x455a14ed, 0xa9e3e905, 0xfcefa3f8,
     0x676f02d9, 0x8d2a4c8a, 0xfffa3942, 0x8771f681, 0x6d9d6122, 0xfde5380c,
     0xa4beea44, 0x4bdecfa9, 0xf6bb4b60, 0xbebfbc70, 0x289b7ec6, 0xeaa127fa,
     0xd4ef3085, 0x04881d05, 0xd9d4d039, 0xe6db99e5, 0x1fa27cf8, 0xc4ac5665,
     0xf4292244, 0x432aff97, 0xab9423a7, 0xfc93a039, 0x655b59c3, 0x8f0ccc92,
     0xffeff47d, 0x85845dd1, 0x6fa87e4f, 0xfe2ce6e0, 0xa3014314, 0x4e0811a1,
     0xf7537e82, 0xbd3af235, 0x2ad7d2bb, 0xeb86d391]"

definition md5_shifts :: "nat list" where
  "md5_shifts = concat (map (\<lambda>r. concat (replicate 4 r)) [[7, 12, 17, 22], [5, 9, 14, 20], [4, 11, 16, 23], [6, 10, 15, 21]])"

definition md5_step :: "w32 list \<Rightarrow> nat \<Rightarrow> w32 \<times> w32 \<times> w32 \<times> w32 \<Rightarrow> w32 \<times> w32 \<times> w32 \<times> w32" where
  "md5_step ws i = (\<lambda>(a, b, c, d).
     let (f, g) =
       (if i < 16 then ((b AND c) OR (NOT b AND d), i)
        else if i < 32 then ((d AND b) OR (NOT d AND c), (5 * i + 1) mod 16)
        else if i < 48 then (b XOR c XOR d, (3 * i + 5) mod 16)
        else (c XOR (b OR NOT d), (7 * i) mod 16))
     in (d, b + word_rotl (md5_shifts ! i) (f + a + md5_sines ! i + ws ! g), b, c))"

definition md5_block :: "bytes \<Rightarrow> w32 \<times> w32 \<times> w32 \<times> w32 \<Rightarrow> w32 \<times> w32 \<times> w32 \<times> w32" where
  "md5_block blk s =
     (case (s, fold (md5_step (map (\<lambda>b. be32 (rev b)) (chunks 4 blk))) [0..<64] s) of
        ((a, b, c, d), (a', b', c', d')) \<Rightarrow> (a + a', b + b', c + c', d + d'))"

definition md5 :: "bytes \<Rightarrow> bytes" where
  "md5 m =
     (case fold md5_block (chunks 64 (padded rev m)) (0x67452301, 0xefcdab89, 0x98badcfe, 0x10325476) of
        (a, b, c, d) \<Rightarrow> concat (map (\<lambda>w. rev (be32_bytes w)) [a, b, c, d]))"

section \<open>SHA-1\<close>

fun sha1_words :: "nat \<Rightarrow> w32 list \<Rightarrow> w32 list" where
  "sha1_words 0 ws = ws"
| "sha1_words (Suc n) ws =
     (let t = length ws in sha1_words n (ws @ [word_rotl 1 (ws ! (t - 3) XOR ws ! (t - 8) XOR ws ! (t - 14) XOR ws ! (t - 16))]))"

definition sha1_step :: "w32 list \<Rightarrow> nat \<Rightarrow> w32 \<times> w32 \<times> w32 \<times> w32 \<times> w32 \<Rightarrow> w32 \<times> w32 \<times> w32 \<times> w32 \<times> w32" where
  "sha1_step ws i = (\<lambda>(a, b, c, d, e).
     let (f, k) =
       (if i < 20 then ((b AND c) OR (NOT b AND d), 0x5a827999)
        else if i < 40 then (b XOR c XOR d, 0x6ed9eba1)
        else if i < 60 then ((b AND c) OR (b AND d) OR (c AND d), 0x8f1bbcdc)
        else (b XOR c XOR d, 0xca62c1d6))
     in (word_rotl 5 a + f + e + k + ws ! i, a, word_rotl 30 b, c, d))"

definition sha1_block :: "bytes \<Rightarrow> w32 \<times> w32 \<times> w32 \<times> w32 \<times> w32 \<Rightarrow> w32 \<times> w32 \<times> w32 \<times> w32 \<times> w32" where
  "sha1_block blk s =
     (case (s, fold (sha1_step (sha1_words 64 (map be32 (chunks 4 blk)))) [0..<80] s) of
        ((a, b, c, d, e), (a', b', c', d', e')) \<Rightarrow> (a + a', b + b', c + c', d + d', e + e'))"

definition sha1 :: "bytes \<Rightarrow> bytes" where
  "sha1 m =
     (case fold sha1_block (chunks 64 (padded id m)) (0x67452301, 0xefcdab89, 0x98badcfe, 0x10325476, 0xc3d2e1f0) of
        (a, b, c, d, e) \<Rightarrow> concat (map be32_bytes [a, b, c, d, e]))"

section \<open>Lengths\<close>

lemma length_md5 [simp]: "length (md5 m) = 16"
  by (simp add: md5_def be32_bytes_def split: prod.split)

lemma length_sha1 [simp]: "length (sha1 m) = 20"
  by (simp add: sha1_def be32_bytes_def split: prod.split)

end
