(* ===== verification/Bfd_Packet.thy ===== *)
theory Bfd_Packet
  imports Py_Hashlib
begin

text \<open>
  BFD control packets (RFC 5880), \<^verbatim>\<open>ryu/lib/packet/bfd.py\<close>: the packet, its authentication sections, their
  parsers and serializers, and the authentication of a packet with a table of keys.
\<close>

section \<open>Data\<close>

datatype hash_kind = KeyedMD5 | MeticulousKeyedMD5 | KeyedSHA1 | MeticulousKeyedSHA1

text \<open>
  \<open>SimplePassword\<close> has the key identifier, the password and the length of the section; a keyed section the
  key identifier, sequence number, key, digest and length.
\<close>

datatype bfd_auth =
    SimplePassword int bytes int
  | KeyedAuth hash_kind int int "bytes option" "bytes option" int

record bfd =
  bf_ver :: int
  bf_diag :: int
  bf_state :: int
  bf_flags :: int
  bf_detect_mult :: int
  bf_my_discr :: int
  bf_your_discr :: int
  bf_desired_min_tx :: int
  bf_required_min_rx :: int
  bf_required_min_echo_rx :: int
  bf_auth :: "bfd_auth option"
  bf_length :: int

definition BFD_STATE_ADMIN_DOWN :: int where [simp]: "BFD_STATE_ADMIN_DOWN = 0"
definition BFD_STATE_DOWN :: int where [simp]: "BFD_STATE_DOWN = 1"
definition BFD_STATE_INIT :: int where [simp]: "BFD_STATE_INIT = 2"
definition BFD_STATE_UP :: int where [simp]: "BFD_STATE_UP = 3"

definition BFD_FLAG_POLL :: int where [simp]: "BFD_FLAG_POLL = 32"
definition BFD_FLAG_FINAL :: int where [simp]: "BFD_FLAG_FINAL = 16"
definition BFD_FLAG_AUTH_PRESENT :: int where [simp]: "BFD_FLAG_AUTH_PRESENT = 4"
definition BFD_FLAG_DEMAND :: int where [simp]: "BFD_FLAG_DEMAND = 2"
definition BFD_FLAG_MULTIPOINT :: int where [simp]: "BFD_FLAG_MULTIPOINT = 1"

definition BFD_DIAG_CTRL_DETECT_TIME_EXPIRED :: int where [simp]: "BFD_DIAG_CTRL_DETECT_TIME_EXPIRED = 1"
definition BFD_DIAG_NEIG_SIG_SESS_DOWN :: int where [simp]: "BFD_DIAG_NEIG_SIG_SESS_DOWN = 3"

text \<open>The type of a section, the octets of its digest, and \<^verbatim>\<open>len\<close>.\<close>

fun hash_type :: "hash_kind \<Rightarrow> int" where
  "hash_type KeyedMD5 = 2" | "hash_type MeticulousKeyedMD5 = 3"
| "hash_type KeyedSHA1 = 4" | "hash_type MeticulousKeyedSHA1 = 5"

fun digest_len :: "hash_kind \<Rightarrow> nat" where
  "digest_len KeyedMD5 = 16" | "digest_len MeticulousKeyedMD5 = 16"
| "digest_len KeyedSHA1 = 20" | "digest_len MeticulousKeyedSHA1 = 20"

fun hash_fun :: "hash_kind \<Rightarrow> bytes \<Rightarrow> bytes" where
  "hash_fun KeyedMD5 = md5" | "hash_fun MeticulousKeyedMD5 = md5"
| "hash_fun KeyedSHA1 = sha1" | "hash_fun MeticulousKeyedSHA1 = sha1"

fun auth_type_of :: "bfd_auth \<Rightarrow> int" where
  "auth_type_of (SimplePassword i pw l) = 1"
| "auth_type_of (KeyedAuth k i sq key dg l) = hash_type k"

fun auth_size :: "bfd_auth \<Rightarrow> int" where
  "auth_size (SimplePassword i pw l) = 3 + int (length pw)"
| "auth_size (KeyedAuth k i sq key dg l) = 8 + int (digest_len k)"

fun auth_len_of :: "bfd_auth \<Rightarrow> int" where
  "auth_len_of (SimplePassword i pw l) = l"
| "auth_len_of (KeyedAuth k i sq key dg l) = l"

text \<open>The constructors; the length is that of the section unless one is given.\<close>

definition simple_password :: "int \<Rightarrow> bytes \<Rightarrow> int option \<Rightarrow> bfd_auth res" where
  "simple_password i pw l =
     (if 1 \<le> length pw \<and> length pw \<le> 16
      then Inr (SimplePassword i pw (case l of None \<Rightarrow> 3 + int (length pw) | Some n \<Rightarrow> n)) else Inl AssertionError)"

definition keyed_auth :: "hash_kind \<Rightarrow> int \<Rightarrow> int \<Rightarrow> bytes option \<Rightarrow> bytes option \<Rightarrow> bfd_auth" where
  "keyed_auth k i sq key dg = KeyedAuth k i sq key dg (8 + int (digest_len k))"

text \<open>\<^verbatim>\<open>len\<close> of a packet: the section counts if the flag is set.\<close>

definition bfd_size :: "bfd \<Rightarrow> int" where
  "bfd_size m =
     (if bf_flags m AND BFD_FLAG_AUTH_PRESENT \<noteq> 0 then (case bf_auth m of None \<Rightarrow> 24 | Some a \<Rightarrow> 24 + auth_size a) else 24)"

definition bfd_new :: "bfd \<Rightarrow> bfd" where
  "bfd_new m = m\<lparr>bf_length := bfd_size m\<rparr>"

section \<open>Parsing\<close>

definition bfd_fmt :: "fmt list" where
  "bfd_fmt = [fB, fB, fB, fB, fI, fI, fI, fI, fI]"

definition simple_parser :: "bytes \<Rightarrow> bfd_auth res" where
  "simple_parser buf =
     res_bind (unpack_from [fB, fB] (take 2 buf)) (\<lambda>vs. case vs of
       [VI t, VI l] \<Rightarrow>
         if t \<noteq> 1 then Inl AssertionError
         else if length buf \<le> 2 then Inl IndexError
         else simple_password (uint (buf ! 2)) (py_slice 3 (nat l) buf) (Some l)
     | _ \<Rightarrow> Inl StructError)"

definition keyed_parser :: "hash_kind \<Rightarrow> bytes \<Rightarrow> bfd_auth res" where
  "keyed_parser k buf =
     res_bind (unpack_from [fB, fB] (take 2 buf)) (\<lambda>vs. case vs of
       [VI t, VI l] \<Rightarrow>
         if t \<noteq> hash_type k \<or> l \<noteq> 8 + int (digest_len k) then Inl AssertionError
         else
           res_bind (unpack_from [fB, fB, fI, FS (digest_len k)] (drop 2 buf)) (\<lambda>ws. case ws of
             [VI i, VI reserved, VI sq, VS dg] \<Rightarrow>
               if reserved \<noteq> 0 then Inl AssertionError else Inr (keyed_auth k i sq None (Some dg))
           | _ \<Rightarrow> Inl StructError)
     | _ \<Rightarrow> Inl StructError)"

definition hash_kinds :: "hash_kind list" where
  "hash_kinds = [KeyedMD5, MeticulousKeyedMD5, KeyedSHA1, MeticulousKeyedSHA1]"

text \<open>\<^verbatim>\<open>_auth_parsers\<close>\<close>

definition bfd_auth_parser :: "int \<Rightarrow> bytes \<Rightarrow> bfd_auth res" where
  "bfd_auth_parser t buf =
     (if t = 1 then simple_parser buf
      else (case find (\<lambda>k. hash_type k = t) hash_kinds of None \<Rightarrow> Inl KeyError | Some k \<Rightarrow> keyed_parser k buf))"

definition bfd_parser :: "bytes \<Rightarrow> bfd res" where
  "bfd_parser buf =
     res_bind (unpack_from bfd_fmt (take 24 buf)) (\<lambda>vs. case vs of
       [VI vd, VI sf, VI mult, VI len, VI mine, VI yours, VI tx, VI rx, VI echo] \<Rightarrow>
         (let flags = sf AND 0x3f in
          res_bind
            (if flags AND BFD_FLAG_AUTH_PRESENT \<noteq> 0
             then (if length buf \<le> 24 then Inl IndexError
                   else res_bind (bfd_auth_parser (uint (buf ! 24)) (drop 24 buf)) (\<lambda>a. Inr (Some a)))
             else Inr None) (\<lambda>auth.
          Inr (bfd_new \<lparr>bf_ver = drop_bit 5 vd, bf_diag = vd AND 0x1f, bf_state = drop_bit 6 sf, bf_flags = flags,
            bf_detect_mult = mult, bf_my_discr = mine, bf_your_discr = yours, bf_desired_min_tx = tx,
            bf_required_min_rx = rx, bf_required_min_echo_rx = echo, bf_auth = auth, bf_length = 0\<rparr>)))
     | _ \<Rightarrow> Inl StructError)"

section \<open>Serializing\<close>

definition bfd_pack :: "bfd \<Rightarrow> bytes res" where
  "bfd_pack m =
     pack bfd_fmt [VI (push_bit 5 (bf_ver m) + bf_diag m), VI (push_bit 6 (bf_state m) + bf_flags m), VI (bf_detect_mult m),
       VI (bfd_size m), VI (bf_my_discr m), VI (bf_your_discr m), VI (bf_desired_min_tx m), VI (bf_required_min_rx m),
       VI (bf_required_min_echo_rx m)]"

text \<open>
  The digest of a packet with a key. A key that is too long is padded with \<^verbatim>\<open>len(key) - n\<close> zeros and then cut, one
  that is shorter is padded by \<^verbatim>\<open>struct.pack\<close>.
\<close>

definition keyed_digest :: "hash_kind \<Rightarrow> int \<Rightarrow> int \<Rightarrow> int \<Rightarrow> bytes \<Rightarrow> bfd \<Rightarrow> bytes res" where
  "keyed_digest k i sq l key m =
     res_bind (bfd_pack m) (\<lambda>b.
     res_bind (pack [fB, fB] [VI (hash_type k), VI l]) (\<lambda>h.
     res_bind (pack [fB, fB, fI, FS (digest_len k)] [VI i, VI 0, VI sq, VS (key @ replicate (length key - digest_len k) 0)]) (\<lambda>d.
     Inr (hash_fun k (b @ h @ d)))))"

text \<open>The section of a packet, and the section with the digest that serializing has put in.\<close>

fun auth_serialize :: "bfd_auth \<Rightarrow> bfd \<Rightarrow> (bytes \<times> bfd_auth) res" where
  "auth_serialize (SimplePassword i pw l) m =
     res_bind (pack [fB, fB] [VI 1, VI l]) (\<lambda>h.
     res_bind (pack [fB] [VI i]) (\<lambda>b. Inr (h @ b @ pw, SimplePassword i pw l)))"
| "auth_serialize (KeyedAuth k i sq key dg l) m =
     (case key of None \<Rightarrow> Inl AssertionError
      | Some q \<Rightarrow>
          if length q > digest_len k then Inl AssertionError
          else
            res_bind (keyed_digest k i sq l q m) (\<lambda>dg.
            res_bind (pack [fB, fB] [VI (hash_type k), VI l]) (\<lambda>h.
            res_bind (pack [fB, fB, fI, FS (digest_len k)] [VI i, VI 0, VI sq, VS dg]) (\<lambda>d.
            Inr (h @ d, KeyedAuth k i sq key (Some dg) l)))))"

definition bfd_serialize :: "bfd \<Rightarrow> (bytes \<times> bfd) res" where
  "bfd_serialize m =
     (case (if bf_flags m AND BFD_FLAG_AUTH_PRESENT \<noteq> 0 then bf_auth m else None) of
        None \<Rightarrow> res_bind (bfd_pack m) (\<lambda>b. Inr (b, m))
      | Some a \<Rightarrow>
          res_bind (bfd_pack m) (\<lambda>b.
          res_bind (auth_serialize a m) (\<lambda>(s, a'). Inr (b @ s, m\<lparr>bf_auth := Some a'\<rparr>))))"

section \<open>Authentication\<close>

type_synonym key_table = "(int \<times> bytes) list"

fun auth_authenticate :: "bfd_auth \<Rightarrow> bfd \<Rightarrow> key_table \<Rightarrow> bool res" where
  "auth_authenticate (SimplePassword i pw l) m keys = Inr (map_of keys i = Some pw)"
| "auth_authenticate (KeyedAuth k i sq key dg l) m keys =
     (case (dg, map_of keys i) of
        (Some d, Some q) \<Rightarrow> res_bind (keyed_digest k i sq l q m) (\<lambda>d'. Inr (d = d'))
      | _ \<Rightarrow> Inr False)"

definition bfd_authenticate :: "bfd \<Rightarrow> key_table \<Rightarrow> bool res" where
  "bfd_authenticate m keys =
     (if bf_flags m AND BFD_FLAG_AUTH_PRESENT = 0 then Inr False
      else (case bf_auth m of None \<Rightarrow> Inr False | Some a \<Rightarrow> auth_authenticate a m keys))"

section \<open>Round trip\<close>

text \<open>Values that fit their fields; the flag says whether there is a section.\<close>

fun bfd_auth_wf :: "bfd_auth \<Rightarrow> bool" where
  "bfd_auth_wf (SimplePassword i pw l) \<longleftrightarrow> 0 \<le> i \<and> i < 256 \<and> 1 \<le> length pw \<and> length pw \<le> 16 \<and> l = 3 + int (length pw)"
| "bfd_auth_wf (KeyedAuth k i sq key dg l) \<longleftrightarrow> 0 \<le> i \<and> i < 256 \<and> 0 \<le> sq \<and> sq < 4294967296 \<and>
     (case key of None \<Rightarrow> False | Some q \<Rightarrow> length q \<le> digest_len k) \<and> l = 8 + int (digest_len k)"

definition bfd_wf :: "bfd \<Rightarrow> bool" where
  "bfd_wf m \<longleftrightarrow> 0 \<le> bf_ver m \<and> bf_ver m < 8 \<and> 0 \<le> bf_diag m \<and> bf_diag m < 32 \<and> 0 \<le> bf_state m \<and> bf_state m < 4 \<and>
     0 \<le> bf_flags m \<and> bf_flags m < 64 \<and> 0 \<le> bf_detect_mult m \<and> bf_detect_mult m < 256 \<and>
     0 \<le> bf_my_discr m \<and> bf_my_discr m < 4294967296 \<and> 0 \<le> bf_your_discr m \<and> bf_your_discr m < 4294967296 \<and>
     0 \<le> bf_desired_min_tx m \<and> bf_desired_min_tx m < 4294967296 \<and> 0 \<le> bf_required_min_rx m \<and> bf_required_min_rx m < 4294967296 \<and>
     0 \<le> bf_required_min_echo_rx m \<and> bf_required_min_echo_rx m < 4294967296 \<and>
     (bf_flags m AND BFD_FLAG_AUTH_PRESENT \<noteq> 0 \<longleftrightarrow> bf_auth m \<noteq> None) \<and>
     (case bf_auth m of None \<Rightarrow> True | Some a \<Rightarrow> bfd_auth_wf a)"

text \<open>A section as it is received: without the key, with the digest that was sent.\<close>

fun auth_received :: "bfd \<Rightarrow> bfd_auth \<Rightarrow> bfd_auth" where
  "auth_received m (SimplePassword i pw l) = SimplePassword i pw l"
| "auth_received m (KeyedAuth k i sq key dg l) =
     KeyedAuth k i sq None (case keyed_digest k i sq l (the key) m of Inl e \<Rightarrow> None | Inr d \<Rightarrow> Some d) l"

definition bfd_received :: "bfd \<Rightarrow> bfd" where
  "bfd_received m = m\<lparr>bf_auth := map_option (auth_received m) (bf_auth m), bf_length := bfd_size m\<rparr>"

abbreviation bfd_fields :: "bfd \<Rightarrow> fval list" where
  "bfd_fields m \<equiv> [VI (bf_ver m * 32 + bf_diag m), VI (bf_state m * 64 + bf_flags m), VI (bf_detect_mult m),
       VI (bfd_size m), VI (bf_my_discr m), VI (bf_your_discr m), VI (bf_desired_min_tx m), VI (bf_required_min_rx m),
       VI (bf_required_min_echo_rx m)]"

lemma digest_len_cases: "digest_len k = 16 \<or> digest_len k = 20"
  by (cases k) simp_all

lemma length_hash_fun [simp]: "length (hash_fun k b) = digest_len k"
  by (cases k) simp_all

lemma hash_type_range [simp]: "0 \<le> hash_type k" "hash_type k < 256" "1 < hash_type k"
  by (cases k; simp)+

lemma find_kind: "find (\<lambda>k'. hash_type k' = hash_type k) hash_kinds = Some k"
  by (cases k) (simp_all add: hash_kinds_def)

lemma auth_size_range: "bfd_auth_wf a \<Longrightarrow> 0 \<le> auth_size a \<and> auth_size a < 29"
proof (cases a)
  case (KeyedAuth k i sq key dg l)
  then show ?thesis using digest_len_cases [of k] by auto
qed auto

lemma bfd_size_range: "bfd_wf m \<Longrightarrow> 24 \<le> bfd_size m \<and> bfd_size m < 256"
  using auth_size_range [of "the (bf_auth m)"] by (auto simp: bfd_wf_def bfd_size_def split: option.splits)

lemma bfd_pack_fields:
  assumes "bfd_wf m"
  shows "bfd_pack m = Inr (pack_bytes bfd_fmt (bfd_fields m))" "fits bfd_fmt (bfd_fields m)"
proof -
  show "fits bfd_fmt (bfd_fields m)"
    using assms bfd_size_range [OF assms] by (simp add: bfd_wf_def bfd_fmt_def)
  from pack_fits [OF this] show "bfd_pack m = Inr (pack_bytes bfd_fmt (bfd_fields m))"
    by (simp add: bfd_pack_def push_bit_eq_mult)
qed

lemma keyed_digest_ok:
  assumes "bfd_wf m" "0 \<le> i" "i < 256" "0 \<le> sq" "sq < 4294967296"
  shows "\<exists>d. keyed_digest k i sq (8 + int (digest_len k)) q m = Inr d \<and> length d = digest_len k"
proof -
  have "pack [fB, fB] [VI (hash_type k), VI (8 + int (digest_len k))] = Inr (be_bytes 1 (hash_type k) @ be_bytes 1 (8 + int (digest_len k)))"
    using digest_len_cases [of k] by auto
  then show ?thesis using assms(2-5) bfd_pack_fields(1) [OF assms(1)] by (simp add: keyed_digest_def)
qed

lemma be_bytes_octet: "be_bytes (Suc 0) v = [word_of_int v]"
  by simp

lemma be_int_octet: "be_int [b] = uint b"
  using be_int_snoc [of "[]" b] by simp

lemma uint_octet: "0 \<le> v \<Longrightarrow> v < 256 \<Longrightarrow> uint (word_of_int v :: byte) = v"
  by (simp add: uint_word_of_int_byte)

lemma simple_codec:
  assumes "bfd_auth_wf (SimplePassword i pw l)"
  shows "\<exists>b. auth_serialize (SimplePassword i pw l) m = Inr (1 # b, SimplePassword i pw l) \<and>
    bfd_auth_parser 1 (1 # b @ rest) = Inr (SimplePassword i pw l)"
proof -
  have h: "pack [fB, fB] [VI 1, VI l] = Inr [1, word_of_int l]" "pack [fB] [VI i] = Inr [word_of_int i]"
    using assms by (simp_all add: be_bytes_octet)
  have u: "uint (word_of_int l :: byte) = l" "uint (word_of_int i :: byte) = i" using assms by (intro uint_octet; simp)+
  have "unpack_from [fB, fB] [1, word_of_int l] = Inr [VI 1, VI l]" using u(1) by (simp add: unpack_from_def be_int_octet)
  moreover have "nat l = Suc (Suc (Suc (length pw)))" using assms by simp
  ultimately show ?thesis using assms u(2) unfolding auth_serialize.simps h
    by (intro exI [of _ "word_of_int l # word_of_int i # pw"]) (simp add: bfd_auth_parser_def simple_parser_def simple_password_def py_slice_def)
qed

lemma keyed_parser_step:
  assumes "uint a = hash_type k" "uint b = 8 + int (digest_len k)"
    and "unpack_from [fB, fB, fI, FS (digest_len k)] body = Inr [VI i, VI 0, VI sq, VS dg]"
  shows "bfd_auth_parser (hash_type k) (a # b # body) = Inr (keyed_auth k i sq None (Some dg))"
proof -
  have "unpack_from [fB, fB] [a, b] = Inr [VI (hash_type k), VI (8 + int (digest_len k))]"
    using assms(1,2) by (simp add: unpack_from_def be_int_octet)
  moreover have "hash_type k \<noteq> 1" by (cases k) simp_all
  ultimately show ?thesis using assms(3) by (simp add: bfd_auth_parser_def find_kind keyed_parser_def)
qed

lemma keyed_codec:
  assumes "bfd_auth_wf (KeyedAuth k i sq key dg l)" "bfd_wf m"
  shows "\<exists>b d. auth_serialize (KeyedAuth k i sq key dg l) m = Inr (word_of_int (hash_type k) # b, KeyedAuth k i sq key (Some d) l) \<and>
    keyed_digest k i sq l (the key) m = Inr d \<and>
    bfd_auth_parser (hash_type k) (word_of_int (hash_type k) # b @ rest) = Inr (KeyedAuth k i sq None (Some d) l)"
proof -
  obtain q where q: "key = Some q" "length q \<le> digest_len k" and l: "l = 8 + int (digest_len k)"
    and r: "0 \<le> i" "i < 256" "0 \<le> sq" "sq < 4294967296" using assms(1) by (auto split: option.splits)
  obtain d where d: "keyed_digest k i sq l q m = Inr d" "length d = digest_len k"
    using keyed_digest_ok [OF assms(2) r] by (auto simp: l)
  have ll: "0 \<le> l" "l < 256" using l digest_len_cases [of k] by auto
  let ?h = "[word_of_int (hash_type k), word_of_int l]" and ?vs = "[VI i, VI 0, VI sq, VS d]" and ?fs = "[fB, fB, fI, FS (digest_len k)]"
  have h: "pack [fB, fB] [VI (hash_type k), VI l] = Inr ?h" using ll by (simp add: be_bytes_octet)
  have f: "fits ?fs ?vs" using r d(2) by simp
  have s: "auth_serialize (KeyedAuth k i sq key dg l) m = Inr (?h @ pack_bytes ?fs ?vs, KeyedAuth k i sq key (Some d) l)"
    using q d(1) pack_fits [OF f] by (simp add: h del: pack.simps pack_bytes.simps)
  have "uint (word_of_int (hash_type k) :: byte) = hash_type k" "uint (word_of_int l :: byte) = l" using ll by (intro uint_octet; simp)+
  from keyed_parser_step [OF this [unfolded l], of "pack_bytes ?fs ?vs @ rest" i sq d] unpack_from_pack_bytes [OF f, of rest]
  have "bfd_auth_parser (hash_type k) (?h @ pack_bytes ?fs ?vs @ rest) = Inr (KeyedAuth k i sq None (Some d) l)"
    by (simp only: append.simps keyed_auth_def l)
  then show ?thesis using s d(1) q(1) by (intro exI [of _ "word_of_int l # pack_bytes ?fs ?vs"] exI [of _ d]) simp
qed

text \<open>A section of either class.\<close>

lemma auth_codec:
  assumes "bfd_auth_wf a" "bfd_wf m"
  shows "\<exists>b a'. auth_serialize a m = Inr (word_of_int (auth_type_of a) # b, a') \<and>
    bfd_auth_parser (auth_type_of a) (word_of_int (auth_type_of a) # b @ rest) = Inr (auth_received m a)"
proof (cases a)
  case (SimplePassword i pw l)
  then show ?thesis using simple_codec [of i pw l m rest] assms(1) by auto
next
  case (KeyedAuth k i sq key dg l)
  then show ?thesis using keyed_codec [of k i sq key dg l m rest] assms by auto
qed

text \<open>Two fields of an octet.\<close>

lemma two_fields:
  assumes "0 \<le> d" "d < n"
  shows "n = 2 ^ k \<Longrightarrow> drop_bit k (v * n + d) = (v :: int)" "n = 2 ^ k \<Longrightarrow> (v * n + d) AND (n - 1) = d"
  using assms and_mask_mod [of "n - 1" k n "v * n + d"] by (simp_all add: drop_bit_eq_div)

lemma bfd_codec:
  assumes "bfd_wf m"
  shows "\<exists>b m'. bfd_serialize m = Inr (b, m') \<and> b \<noteq> [] \<and> bfd_parser (b @ rest) = Inr (bfd_received m)"
proof -
  let ?h = "pack_bytes bfd_fmt (bfd_fields m)"
  note h = bfd_pack_fields [OF assms]
  have lh: "length ?h = 24" using length_pack_bytes [OF h(2)] by (simp add: bfd_fmt_def)
  have r: "0 \<le> bf_diag m" "bf_diag m < 32" "0 \<le> bf_flags m" "bf_flags m < 64" using assms by (simp_all add: bfd_wf_def)
  note bits = two_fields [OF r(1,2), of 5 "bf_ver m", simplified] two_fields [OF r(3,4), of 6 "bf_state m", simplified]
  have u: "unpack_from bfd_fmt (take 24 (?h @ s)) = Inr (bfd_fields m)" for s
    using unpack_from_pack_bytes [OF h(2), of "[]"] lh by simp
  show ?thesis
  proof (cases "bf_auth m")
    case None
    then have f: "bf_flags m AND 4 = 0" using assms by (simp add: bfd_wf_def)
    have "bfd_parser (?h @ rest) = Inr (bfd_received m)"
      unfolding bfd_parser_def u by (simp add: bits f None bfd_new_def bfd_received_def bfd_size_def Let_def)
    then show ?thesis using None h(1) lh by (auto simp: bfd_serialize_def)
  next
    case (Some a)
    then have f: "bf_flags m AND 4 \<noteq> 0" and a: "bfd_auth_wf a" using assms by (simp_all add: bfd_wf_def)
    obtain b a' where b: "auth_serialize a m = Inr (word_of_int (auth_type_of a) # b, a')"
      "bfd_auth_parser (auth_type_of a) (word_of_int (auth_type_of a) # b @ rest) = Inr (auth_received m a)"
      using auth_codec [OF a assms] by blast
    let ?b = "word_of_int (auth_type_of a) # b"
    have "0 \<le> auth_type_of a \<and> auth_type_of a < 256" by (cases a) simp_all
    then have t: "uint ((?h @ ?b @ rest) ! 24) = auth_type_of a" using lh by (simp add: nth_append uint_octet)
    have "auth_size (auth_received m a) = auth_size a" by (cases a) simp_all
    then have "bfd_parser (?h @ ?b @ rest) = Inr (bfd_received m)"
      unfolding bfd_parser_def u using b(2) lh t
      by (simp add: bits f Some bfd_new_def bfd_received_def bfd_size_def Let_def)
    then show ?thesis using Some h(1) lh b(1) f by (auto simp: bfd_serialize_def)
  qed
qed

text \<open>The octets on the wire are those of \<^verbatim>\<open>len\<close>, and the first of them holds the version.\<close>

lemma auth_serialize_length: "auth_serialize a m = Inr (b, a') \<Longrightarrow> int (length b) = auth_size a"
proof (cases a)
  case (KeyedAuth k i sq key dg l)
  then show "auth_serialize a m = Inr (b, a') \<Longrightarrow> ?thesis"
    by (auto simp: res_bind_eq_Inr simp del: pack.simps dest!: length_pack split: option.splits if_splits)
qed (auto simp: res_bind_eq_Inr simp del: pack.simps dest!: length_pack)

lemma bfd_serialize_length: "bfd_wf m \<Longrightarrow> bfd_serialize m = Inr (b, m') \<Longrightarrow> int (length b) = bfd_size m"
  by (auto simp: bfd_serialize_def bfd_wf_def bfd_size_def bfd_pack_def bfd_fmt_def res_bind_eq_Inr simp del: pack.simps
      dest!: length_pack auth_serialize_length split: option.splits if_splits)

lemma bfd_serialize_nonzero:
  assumes "bfd_wf m" "bfd_serialize m = Inr (b, m')" "bf_ver m = 1"
  shows "\<not> list_all (\<lambda>x. x = 0) b"
proof -
  obtain h where h: "pack_bytes bfd_fmt (bfd_fields m) = word_of_int (bf_ver m * 32 + bf_diag m) # h"
    by (simp add: bfd_fmt_def be_bytes_octet)
  obtain c where c: "b = pack_bytes bfd_fmt (bfd_fields m) @ c"
    using assms(2) bfd_pack_fields(1) [OF assms(1)]
    by (auto simp: bfd_serialize_def res_bind_eq_Inr simp del: pack_bytes.simps split: option.splits)
  have "uint (word_of_int (bf_ver m * 32 + bf_diag m) :: byte) = 32 + bf_diag m"
    using assms(1,3) by (subst uint_octet) (simp_all add: bfd_wf_def)
  then have "(word_of_int (bf_ver m * 32 + bf_diag m) :: byte) \<noteq> 0" using assms(1) by (auto simp: bfd_wf_def)
  then show ?thesis unfolding c h by simp
qed

section \<open>Who is authenticated\<close>

fun auth_key_id :: "bfd_auth \<Rightarrow> int" where
  "auth_key_id (SimplePassword i pw l) = i"
| "auth_key_id (KeyedAuth k i sq key dg l) = i"

fun auth_secret :: "bfd_auth \<Rightarrow> bytes option" where
  "auth_secret (SimplePassword i pw l) = Some pw"
| "auth_secret (KeyedAuth k i sq key dg l) = key"

lemma bfd_pack_received [simp]: "bfd_pack (bfd_received m) = bfd_pack m"
proof -
  have "auth_size (auth_received m a) = auth_size a" for a by (cases a) simp_all
  then have "bfd_size (bfd_received m) = bfd_size m" by (simp add: bfd_size_def bfd_received_def split: option.split)
  then show ?thesis unfolding bfd_pack_def by (simp add: bfd_received_def)
qed

lemma keyed_digest_received [simp]: "keyed_digest k i sq l q (bfd_received m) = keyed_digest k i sq l q m"
  by (simp only: keyed_digest_def bfd_pack_received)

text \<open>A packet that is received is authentic for those who know the key.\<close>

lemma received_authentic:
  assumes "bfd_wf m" "bf_auth m = Some a" "map_of keys (auth_key_id a) = auth_secret a"
  shows "bfd_authenticate (bfd_received m) keys = Inr True"
proof -
  have f: "bf_flags (bfd_received m) AND 4 \<noteq> 0" "bf_auth (bfd_received m) = Some (auth_received m a)"
    using assms(1,2) by (simp_all add: bfd_wf_def bfd_received_def)
  show ?thesis
  proof (cases a)
    case (SimplePassword i pw l)
    then show ?thesis using f assms(3) by (simp add: bfd_authenticate_def)
  next
    case (KeyedAuth k i sq key dg l)
    obtain q where q: "key = Some q" "0 \<le> i" "i < 256" "0 \<le> sq" "sq < 4294967296" "l = 8 + int (digest_len k)"
      using assms(1,2) KeyedAuth by (auto simp: bfd_wf_def split: option.splits)
    obtain d where "keyed_digest k i sq l q m = Inr d" using keyed_digest_ok [OF assms(1) q(2-5)] by (auto simp: q(6))
    then show ?thesis using f assms(3) KeyedAuth q(1) by (simp add: bfd_authenticate_def)
  qed
qed

end
