(* ===== verification/Bfd_Session.thy ===== *)
theory Bfd_Session
  imports Bfd_Packet Packet_Chain
begin

text \<open>
  BFD sessions on a switch, \<^verbatim>\<open>ryu/lib/bfdlib.py\<close>: the session with its timers and threads, the packets it sends,
  and the handlers of \<^verbatim>\<open>BFDLib\<close>. Times are seconds, exact where the code has floats; what \<^verbatim>\<open>random\<close> returns is
  an argument. A thread is counted, and one turn of its loop is a function. The dictionary of sessions is a list in
  the order in which it is walked. This is what Python 2 runs: under Python 3 the first \<^verbatim>\<open>LOG.debug\<close> of \<^verbatim>\<open>recv\<close> raises,
  since it makes a byte string of the packet object.
\<close>

section \<open>The session\<close>

record bfd_session =
  bs_session_state :: int
  bs_remote_state :: int
  bs_remote_session_state :: int
  bs_local_discr :: int
  bs_remote_discr :: int
  bs_local_diag :: int
  bs_desired_min_tx :: int
  bs_required_min_rx :: int
  bs_remote_min_rx :: int
  bs_demand_mode :: int
  bs_remote_demand_mode :: int
  bs_detect_mult :: int
  bs_auth_type :: int
  bs_auth_keys :: key_table
  bs_rcv_auth_seq :: int
  bs_xmit_auth_seq :: int
  bs_auth_seq_known :: bool
  bs_cfg_desired_min_tx :: int
  bs_cfg_required_min_echo_rx :: int
  bs_active_role :: bool
  bs_detect_time :: rat
  bs_xmit_period :: rat
  bs_is_polling :: bool
  bs_pending_final :: bool
  bs_enable_send :: bool
  bs_src_mac :: string
  bs_dst_mac :: string
  bs_src_ip :: string
  bs_dst_ip :: string
  bs_ipv4_id :: int
  bs_src_port :: int
  bs_dst_port :: int
  bs_remote_addr_config :: bool
  bs_dpid :: int
  bs_datapath :: bool
  bs_ofport :: int
  bs_send_loops :: nat
  bs_timeout_loops :: nat
  bs_events :: "(int \<times> int) list"

definition BROADCAST_MAC :: string where "BROADCAST_MAC = ''FF:FF:FF:FF:FF:FF''"
definition BROADCAST_IP :: string where "BROADCAST_IP = ''255.255.255.255''"

definition keyed_type :: "int \<Rightarrow> bool" where
  "keyed_type t \<longleftrightarrow> t \<in> {2, 3, 4, 5}"

definition microseconds :: "int \<Rightarrow> rat" where
  "microseconds n = of_int n / 1000000"

text \<open>\<open>r\<close> is the random percentage: from 75 to 100, and to 90 if the multiplier is 1.\<close>

definition update_xmit_period :: "int \<Rightarrow> bfd_session \<Rightarrow> bfd_session" where
  "update_xmit_period r s =
     (let period = (if bs_desired_min_tx s > bs_remote_min_rx s then bs_desired_min_tx s else bs_remote_min_rx s) in
      s\<lparr>bs_xmit_period := microseconds period * (of_int r / 100)\<rparr>)"

definition set_state :: "int \<Rightarrow> int \<Rightarrow> int option \<Rightarrow> bfd_session \<Rightarrow> bfd_session" where
  "set_state r new diag s =
     (let old = bs_session_state s;
          s = s\<lparr>bs_session_state := new\<rparr>;
          s = (if new = BFD_STATE_DOWN then
                 update_xmit_period r (s\<lparr>bs_local_diag := (case diag of None \<Rightarrow> bs_local_diag s | Some d \<Rightarrow> d),
                   bs_desired_min_tx := 1000000, bs_is_polling := True\<rparr>)
               else if new = BFD_STATE_UP then
                 update_xmit_period r (s\<lparr>bs_desired_min_tx := bs_cfg_desired_min_tx s, bs_is_polling := True\<rparr>)
               else s)
      in s\<lparr>bs_events := bs_events s @ [(old, new)]\<rparr>)"

text \<open>\<^verbatim>\<open>BFDSession.__init__\<close>, with the sequence number and the identification of the IP header drawn.\<close>

definition bfd_session_init :: "int \<Rightarrow> int \<Rightarrow> int \<Rightarrow> int \<Rightarrow> int \<Rightarrow> int \<Rightarrow> string \<Rightarrow> string \<Rightarrow> int \<Rightarrow> string \<Rightarrow> string \<Rightarrow>
    int \<Rightarrow> int \<Rightarrow> int \<Rightarrow> int \<Rightarrow> key_table \<Rightarrow> bfd_session res" where
  "bfd_session_init r sq ident my_discr dpid ofport src_mac src_ip src_port dst_mac dst_ip mult tx rx auth_type keys =
     (if auth_type \<noteq> 0 \<and> keys = [] then Inl AssertionError
      else Inr ((update_xmit_period r
        \<lparr>bs_session_state = BFD_STATE_DOWN, bs_remote_state = 0, bs_remote_session_state = BFD_STATE_DOWN,
         bs_local_discr = my_discr, bs_remote_discr = 0, bs_local_diag = 0, bs_desired_min_tx = 1000000,
         bs_required_min_rx = rx, bs_remote_min_rx = -1, bs_demand_mode = 0, bs_remote_demand_mode = 0,
         bs_detect_mult = mult, bs_auth_type = auth_type, bs_auth_keys = keys, bs_rcv_auth_seq = 0,
         bs_xmit_auth_seq = sq, bs_auth_seq_known = False, bs_cfg_desired_min_tx = tx, bs_cfg_required_min_echo_rx = 0,
         bs_active_role = True, bs_detect_time = 0, bs_xmit_period = 0, bs_is_polling = True, bs_pending_final = False,
         bs_enable_send = True, bs_src_mac = src_mac, bs_dst_mac = dst_mac, bs_src_ip = src_ip, bs_dst_ip = dst_ip,
         bs_ipv4_id = ident, bs_src_port = src_port, bs_dst_port = 3784,
         bs_remote_addr_config = (\<not> (dst_mac = BROADCAST_MAC \<or> dst_ip = BROADCAST_IP)),
         bs_dpid = dpid, bs_datapath = False, bs_ofport = ofport, bs_send_loops = 0, bs_timeout_loops = 0,
         bs_events = []\<rparr>)\<lparr>bs_send_loops := 1\<rparr>))"

definition set_remote_addr :: "string \<Rightarrow> string \<Rightarrow> bfd_session \<Rightarrow> bfd_session" where
  "set_remote_addr dst_mac dst_ip s =
     s\<lparr>bs_dst_mac := dst_mac, bs_dst_ip := dst_ip,
       bs_remote_addr_config := (if dst_mac = BROADCAST_MAC \<or> dst_ip = BROADCAST_IP then bs_remote_addr_config s else True)\<rparr>"

section \<open>Receiving\<close>

text \<open>The change of state that a packet asks for, and its reason.\<close>

definition recv_transition :: "int \<Rightarrow> int \<Rightarrow> (int \<times> int option) option" where
  "recv_transition st remote =
     (if remote = BFD_STATE_ADMIN_DOWN then
        (if st \<noteq> BFD_STATE_DOWN then Some (BFD_STATE_DOWN, Some BFD_DIAG_NEIG_SIG_SESS_DOWN) else None)
      else if st = BFD_STATE_DOWN then
        (if remote = BFD_STATE_DOWN then Some (BFD_STATE_INIT, None)
         else if remote = BFD_STATE_INIT then Some (BFD_STATE_UP, None) else None)
      else if st = BFD_STATE_INIT then
        (if remote \<in> {BFD_STATE_INIT, BFD_STATE_UP} then Some (BFD_STATE_UP, None) else None)
      else
        (if remote = BFD_STATE_DOWN then Some (BFD_STATE_DOWN, Some BFD_DIAG_NEIG_SIG_SESS_DOWN) else None))"

text \<open>The demand mode of the neighbour switches the periodic packets off and on.\<close>

definition demand_active :: "bfd_session \<Rightarrow> bool" where
  "demand_active s \<longleftrightarrow> bs_remote_demand_mode s \<noteq> 0 \<and> bs_session_state s = BFD_STATE_UP \<and>
     bs_remote_session_state s = BFD_STATE_UP"

definition demand_switch :: "bfd_session \<Rightarrow> bfd_session" where
  "demand_switch s =
     (if demand_active s then s\<lparr>bs_enable_send := False\<rparr>
      else if \<not> bs_enable_send s then s\<lparr>bs_enable_send := True, bs_send_loops := Suc (bs_send_loops s)\<rparr> else s)"

definition recv_detect_time :: "bfd \<Rightarrow> bfd_session \<Rightarrow> bfd_session" where
  "recv_detect_time m s =
     (let t = microseconds (bf_desired_min_tx m * bf_detect_mult m);
          s = (if bs_detect_time s = 0 then s\<lparr>bs_detect_time := t, bs_timeout_loops := Suc (bs_timeout_loops s)\<rparr> else s)
      in if bf_flags m AND BFD_FLAG_POLL \<noteq> 0 then s\<lparr>bs_pending_final := True, bs_detect_time := t\<rparr> else s)"

definition recv_auth_seq :: "bfd \<Rightarrow> bfd_session \<Rightarrow> bfd_session \<times> unit res" where
  "recv_auth_seq m s =
     (if keyed_type (bs_auth_type s) then
        (case bf_auth m of
           Some (KeyedAuth k i sq key dg l) \<Rightarrow> (s\<lparr>bs_rcv_auth_seq := sq, bs_auth_seq_known := True\<rparr>, Inr ())
         | _ \<Rightarrow> (s, Inl AttributeError))
      else (s, Inr ()))"

text \<open>\<^verbatim>\<open>recv\<close>, with a percentage for each of the two updates of the transmission period.\<close>

definition recv_fields :: "int \<Rightarrow> bfd \<Rightarrow> bfd_session \<Rightarrow> bfd_session" where
  "recv_fields r m s =
     (let s = s\<lparr>bs_remote_discr := bf_my_discr m, bs_remote_state := bf_state m,
                bs_remote_demand_mode := bf_flags m AND BFD_FLAG_DEMAND\<rparr>;
          s = (if bs_remote_min_rx s \<noteq> bf_required_min_rx m
               then update_xmit_period r (s\<lparr>bs_remote_min_rx := bf_required_min_rx m\<rparr>) else s)
      in if bf_flags m AND BFD_FLAG_FINAL \<noteq> 0 \<and> bs_is_polling s then s\<lparr>bs_is_polling := False\<rparr> else s)"

definition recv_state :: "int \<Rightarrow> bfd \<Rightarrow> bfd_session \<Rightarrow> bfd_session" where
  "recv_state r m s =
     (case recv_transition (bs_session_state s) (bf_state m) of None \<Rightarrow> s | Some (new, diag) \<Rightarrow> set_state r new diag s)"

definition bfd_recv :: "int \<times> int \<Rightarrow> bfd \<Rightarrow> bfd_session \<Rightarrow> bfd_session \<times> unit res" where
  "bfd_recv r m s =
     (let s = recv_fields (fst r) m s in
      if bs_session_state s = BFD_STATE_ADMIN_DOWN then (s, Inr ())
      else recv_auth_seq m (recv_detect_time m (demand_switch (recv_state (snd r) m s))))"

text \<open>
  A turn of \<^verbatim>\<open>_recv_timeout_loop\<close>: the loop ends if the detection time is zero; otherwise it has waited, and \<open>heard\<close>
  says whether a packet came in time. (The test that a packet came too late compares a time with a later one.)
\<close>

definition recv_timeout_turn :: "int \<Rightarrow> bool \<Rightarrow> bfd_session \<Rightarrow> bfd_session" where
  "recv_timeout_turn r heard s =
     (if bs_detect_time s = 0 then s\<lparr>bs_timeout_loops := bs_timeout_loops s - 1\<rparr>
      else if heard then s
      else
        (let s = (if bs_session_state s \<notin> {BFD_STATE_DOWN, BFD_STATE_ADMIN_DOWN}
                  then set_state r BFD_STATE_DOWN (Some BFD_DIAG_CTRL_DETECT_TIME_EXPIRED) s else s)
         in s\<lparr>bs_auth_seq_known := False\<rparr>))"

section \<open>Sending\<close>

text \<open>\<^verbatim>\<open>BFDPacket.bfd_packet\<close>: the frame.\<close>

definition bfd_eth :: "string \<Rightarrow> string \<Rightarrow> ethernet" where
  "bfd_eth dst src = \<lparr>eth_dst = dst, eth_src = src, eth_ethertype = 0x0800\<rparr>"

definition bfd_ip :: "string \<Rightarrow> string \<Rightarrow> int \<Rightarrow> ipv4" where
  "bfd_ip src dst ident =
     \<lparr>ip4_version = 4, ip4_header_length = 5, ip4_tos = 192, ip4_total_length = 0, ip4_identification = ident, ip4_flags = 0,
      ip4_offset = 0, ip4_ttl = 255, ip4_proto = 17, ip4_csum = 0, ip4_src = src, ip4_dst = dst, ip4_option = None\<rparr>"

definition bfd_udp :: "int \<Rightarrow> int \<Rightarrow> udp" where
  "bfd_udp src_port dst_port = \<lparr>udp_src_port = src_port, udp_dst_port = dst_port, udp_total_length = 0, udp_csum = 0\<rparr>"

definition bfd_packet :: "bool \<Rightarrow> addrconv \<Rightarrow> 'o ext \<Rightarrow> string \<Rightarrow> string \<Rightarrow> string \<Rightarrow> string \<Rightarrow> int \<Rightarrow> int \<Rightarrow> int \<Rightarrow> bfd \<Rightarrow> bytes res" where
  "bfd_packet le A E src_mac dst_mac src_ip dst_ip ident src_port dst_port m =
     res_bind (bfd_serialize m) (\<lambda>(b, m').
     res_bind (packet_serialize le A E \<lparr>pk_data = [], pk_protocols =
       [PEth (bfd_eth dst_mac src_mac), PIpv4 (bfd_ip src_ip dst_ip ident), PUdp (bfd_udp src_port dst_port), Raw b]\<rparr>) (\<lambda>pkt.
     Inr (pk_data pkt)))"

text \<open>
  The authentication section of the next packet: \<open>ki\<close> is the random index of the key, and \<open>coin\<close> whether the
  sequence number is advanced where that is left open.
\<close>

definition next_auth_seq :: "int \<Rightarrow> int" where
  "next_auth_seq n = (n + 1) AND 0xffffffff"

definition send_auth :: "nat \<Rightarrow> bool \<Rightarrow> bfd_session \<Rightarrow> bfd_session \<times> bfd_auth option res" where
  "send_auth ki coin s =
     (if bs_auth_type s = 0 then (s, Inr None)
      else if length (bs_auth_keys s) \<le> ki then (s, Inl ValueError)
      else
        (case bs_auth_keys s ! ki of (i, key) \<Rightarrow>
           if bs_auth_type s = 1 then (s, res_bind (simple_password i key None) (\<lambda>a. Inr (Some a)))
           else
             (case find (\<lambda>k. hash_type k = bs_auth_type s) hash_kinds of
                None \<Rightarrow> (s, Inr None)
              | Some k \<Rightarrow>
                  (let s = (if k \<in> {KeyedMD5, KeyedSHA1} \<and> \<not> coin then s
                            else s\<lparr>bs_xmit_auth_seq := next_auth_seq (bs_xmit_auth_seq s)\<rparr>)
                   in (s, Inr (Some (keyed_auth k i (bs_xmit_auth_seq s) (Some key) None)))))))"

definition send_flags :: "bool \<Rightarrow> bool \<Rightarrow> bool \<Rightarrow> bfd_session \<Rightarrow> int" where
  "send_flags final poll auth s =
     (if final then BFD_FLAG_FINAL else 0) OR (if poll then BFD_FLAG_POLL else 0) OR (if auth then BFD_FLAG_AUTH_PRESENT else 0) OR
     (if bs_demand_mode s \<noteq> 0 \<and> bs_session_state s = BFD_STATE_UP \<and> bs_remote_session_state s = BFD_STATE_UP
      then BFD_FLAG_DEMAND else 0)"

definition control_packet :: "int \<Rightarrow> bfd_auth option \<Rightarrow> bfd_session \<Rightarrow> bfd" where
  "control_packet flags auth s =
     bfd_new \<lparr>bf_ver = 1, bf_diag = bs_local_diag s, bf_state = bs_session_state s, bf_flags = flags,
       bf_detect_mult = bs_detect_mult s, bf_my_discr = bs_local_discr s, bf_your_discr = bs_remote_discr s,
       bf_desired_min_tx = bs_desired_min_tx s, bf_required_min_rx = bs_required_min_rx s,
       bf_required_min_echo_rx = bs_cfg_required_min_echo_rx s, bf_auth = auth, bf_length = 0\<rparr>"

text \<open>\<^verbatim>\<open>_send\<close> up to the packet, and the whole of it: nothing is sent without a datapath.\<close>

definition send_control :: "nat \<Rightarrow> bool \<Rightarrow> bfd_session \<Rightarrow> bfd_session \<times> bfd res" where
  "send_control ki coin s =
     (let final = bs_pending_final s;
          s = (if final then s\<lparr>bs_pending_final := False, bs_is_polling := False\<rparr> else s);
          poll = bs_is_polling s
      in (case send_auth ki coin s of
            (s, Inl e) \<Rightarrow> (s, Inl e)
          | (s, Inr auth) \<Rightarrow>
              (s\<lparr>bs_ipv4_id := (bs_ipv4_id s + 1) AND 0xffff\<rparr>,
               Inr (control_packet (send_flags final poll (auth \<noteq> None) s) auth s))))"

definition bfd_send :: "bool \<Rightarrow> addrconv \<Rightarrow> 'o ext \<Rightarrow> nat \<Rightarrow> bool \<Rightarrow> bfd_session \<Rightarrow> bfd_session \<times> bytes option res" where
  "bfd_send le A E ki coin s =
     (if \<not> bs_datapath s then (s, Inr None)
      else
        (case send_control ki coin s of
           (s, Inl e) \<Rightarrow> (s, Inl e)
         | (s, Inr m) \<Rightarrow>
             (s, res_bind (bfd_packet le A E (bs_src_mac s) (bs_dst_mac s) (bs_src_ip s) (bs_dst_ip s) (bs_ipv4_id s)
               (bs_src_port s) (bs_dst_port s) m) (\<lambda>data. Inr (Some data)))))"

text \<open>A turn of \<^verbatim>\<open>_send_loop\<close>, after its sleep; the loop ends when sending is switched off.\<close>

definition send_suppressed :: "bfd_session \<Rightarrow> bool" where
  "send_suppressed s \<longleftrightarrow> bs_remote_discr s = 0 \<and> \<not> bs_active_role s \<or> bs_remote_min_rx s = 0 \<or>
     demand_active s \<and> \<not> bs_is_polling s"

definition send_turn :: "bool \<Rightarrow> addrconv \<Rightarrow> 'o ext \<Rightarrow> nat \<Rightarrow> bool \<Rightarrow> bfd_session \<Rightarrow> bfd_session \<times> bytes option res" where
  "send_turn le A E ki coin s =
     (if \<not> bs_enable_send s then (s\<lparr>bs_send_loops := bs_send_loops s - 1\<rparr>, Inr None)
      else if send_suppressed s then (s, Inr None)
      else bfd_send le A E ki coin s)"

section \<open>The library\<close>

text \<open>The sessions by their discriminators, and the frames sent to answer ARP requests, with their ports.\<close>

record bfd_lib =
  bl_sessions :: "(int \<times> bfd_session) list"
  bl_sent :: "(int \<times> int \<times> bytes) list"

definition switch_features :: "int \<Rightarrow> bfd_lib \<Rightarrow> bfd_lib" where
  "switch_features dpid lib =
     lib\<lparr>bl_sessions := map (\<lambda>(k, s). (k, if bs_dpid s = dpid then s\<lparr>bs_datapath := True\<rparr> else s)) (bl_sessions lib)\<rparr>"

text \<open>\<^verbatim>\<open>add_bfd_session\<close>, with the discriminator and port of the last, accepted, draw.\<close>

definition discr_free :: "int \<Rightarrow> int \<Rightarrow> bfd_lib \<Rightarrow> bool" where
  "discr_free my_discr src_port lib \<longleftrightarrow> map_of (bl_sessions lib) my_discr = None \<and>
     list_all (\<lambda>(k, s). bs_remote_discr s \<noteq> my_discr \<and> bs_src_port s \<noteq> src_port) (bl_sessions lib)"

definition add_bfd_session :: "int \<Rightarrow> int \<Rightarrow> int \<Rightarrow> int \<Rightarrow> int \<Rightarrow> int \<Rightarrow> int \<Rightarrow> string \<Rightarrow> string \<Rightarrow> string \<Rightarrow> string \<Rightarrow> int \<Rightarrow> key_table \<Rightarrow>
    bfd_lib \<Rightarrow> bfd_lib res" where
  "add_bfd_session r sq ident my_discr src_port dpid ofport src_mac src_ip dst_mac dst_ip auth_type keys lib =
     res_bind (bfd_session_init r sq ident my_discr dpid ofport src_mac src_ip src_port dst_mac dst_ip 3 1000000 1000000
       auth_type keys) (\<lambda>s.
     Inr (lib\<lparr>bl_sessions := bl_sessions lib @ [(my_discr, s)]\<rparr>))"

text \<open>
  \<^verbatim>\<open>bfd_parse\<close> and \<^verbatim>\<open>arp_parse\<close>, which walk over the protocols of the frame. (The code decodes the frame again
  each time.)
\<close>

definition bfd_parse :: "'o packet \<Rightarrow> bfd res" where
  "bfd_parse pkt =
     (case pk_protocols pkt of
        [] \<Rightarrow> Inl (RyuError ''StopIteration'')
      | PEth e # ps \<Rightarrow>
          (case ps of [] \<Rightarrow> Inl (RyuError ''StopIteration'')
           | PIpv4 h # ps \<Rightarrow>
               (case ps of [] \<Rightarrow> Inl (RyuError ''StopIteration'')
                | PUdp u # ps \<Rightarrow>
                    (case ps of [] \<Rightarrow> Inl (RyuError ''StopIteration'')
                     | Raw b # _ \<Rightarrow> bfd_parser b | _ \<Rightarrow> Inl TypeError)
                | _ \<Rightarrow> Inl AssertionError)
           | _ \<Rightarrow> Inl AssertionError)
      | _ \<Rightarrow> Inl AssertionError)"

definition arp_parse :: "'o packet \<Rightarrow> arp res" where
  "arp_parse pkt =
     (case pk_protocols pkt of
        [] \<Rightarrow> Inl (RyuError ''StopIteration'')
      | PEth e # ps \<Rightarrow>
          (case ps of [] \<Rightarrow> Inl (RyuError ''StopIteration'')
           | PArp h # _ \<Rightarrow>
               if arp_opcode h \<notin> {1, 2} \<or> arp_proto h \<noteq> 0x0800 then Inl (RyuError ''ARPUnknownFormat'') else Inr h
           | _ \<Rightarrow> Inl (RyuError ''ARPUnknownFormat''))
      | _ \<Rightarrow> Inl AssertionError)"

text \<open>The checks of RFC 5880 that do not need the session, and the choice of the session.\<close>

definition bfd_sane :: "bfd_lib \<Rightarrow> bfd \<Rightarrow> bool" where
  "bfd_sane lib m \<longleftrightarrow> bf_ver m = 1 \<and>
     (if bf_flags m AND BFD_FLAG_AUTH_PRESENT \<noteq> 0 then 26 \<le> bf_length m else 24 \<le> bf_length m) \<and>
     bf_detect_mult m \<noteq> 0 \<and> bf_flags m AND BFD_FLAG_MULTIPOINT = 0 \<and> bf_my_discr m \<noteq> 0 \<and>
     (bf_your_discr m \<noteq> 0 \<longrightarrow> map_of (bl_sessions lib) (bf_your_discr m) \<noteq> None) \<and>
     (bf_your_discr m = 0 \<longrightarrow> bf_state m \<in> {BFD_STATE_ADMIN_DOWN, BFD_STATE_DOWN})"

definition select_session :: "int \<Rightarrow> int \<Rightarrow> bfd_lib \<Rightarrow> bfd \<Rightarrow> int option" where
  "select_session dpid in_port lib m =
     (if bf_your_discr m = 0
      then map_option (\<lambda>(k, s). bs_local_discr s) (find (\<lambda>(k, s). bs_dpid s = dpid \<and> bs_ofport s = in_port) (bl_sessions lib))
      else Some (bf_your_discr m))"

text \<open>The authentication of a packet for a session.\<close>

definition seq_acceptable :: "bfd_session \<Rightarrow> int \<Rightarrow> bool" where
  "seq_acceptable s sq \<longleftrightarrow> \<not> (bs_auth_seq_known s \<and>
     (sq < bs_rcv_auth_seq s \<or> bs_auth_type s \<in> {3, 5} \<and> sq \<le> bs_rcv_auth_seq s \<or>
      sq > bs_rcv_auth_seq s + 3 * bs_detect_mult s))"

definition recv_authentic :: "bfd \<Rightarrow> bfd_session \<Rightarrow> bool res" where
  "recv_authentic m s =
     (if bf_flags m AND BFD_FLAG_AUTH_PRESENT = 0 then Inr (bs_auth_type s = 0)
      else if bs_auth_type s = 0 then Inr False
      else
        (case bf_auth m of
           None \<Rightarrow> Inl AttributeError
         | Some a \<Rightarrow>
             if auth_type_of a \<noteq> bs_auth_type s then Inr False
             else if (case a of KeyedAuth k i sq key dg l \<Rightarrow> \<not> seq_acceptable s sq | _ \<Rightarrow> False) then Inr False
             else bfd_authenticate m (bs_auth_keys s)))"

definition put_bfd_session :: "int \<Rightarrow> bfd_session \<Rightarrow> bfd_lib \<Rightarrow> bfd_lib" where
  "put_bfd_session k s lib = lib\<lparr>bl_sessions := map (\<lambda>(j, t). (j, if j = k then s else t)) (bl_sessions lib)\<rparr>"

text \<open>The headers that \<^verbatim>\<open>get_protocols\<close> finds first.\<close>

fun eth_headers :: "'o proto list \<Rightarrow> ethernet list" where
  "eth_headers [] = []" | "eth_headers (PEth h # ps) = h # eth_headers ps" | "eth_headers (p # ps) = eth_headers ps"

fun ip_headers :: "'o proto list \<Rightarrow> ipv4 list" where
  "ip_headers [] = []" | "ip_headers (PIpv4 h # ps) = h # ip_headers ps" | "ip_headers (p # ps) = ip_headers ps"

fun udp_headers :: "'o proto list \<Rightarrow> udp list" where
  "udp_headers [] = []" | "udp_headers (PUdp h # ps) = h # udp_headers ps" | "udp_headers (p # ps) = udp_headers ps"

fun arp_headers :: "'o proto list \<Rightarrow> arp list" where
  "arp_headers [] = []" | "arp_headers (PArp h # ps) = h # arp_headers ps" | "arp_headers (p # ps) = arp_headers ps"

text \<open>What a packet does to its session.\<close>

definition recv_session :: "int \<times> int \<Rightarrow> string \<Rightarrow> string \<Rightarrow> bfd \<Rightarrow> bfd_session \<Rightarrow> bfd_session \<times> unit res" where
  "recv_session r src_mac src_ip m s =
     bfd_recv r m (if bs_remote_addr_config s then s else set_remote_addr src_mac src_ip s)"

definition recv_bfd_pkt :: "int \<times> int \<Rightarrow> int \<Rightarrow> int \<Rightarrow> 'o packet \<Rightarrow> bfd_lib \<Rightarrow> bfd_lib \<times> unit res" where
  "recv_bfd_pkt r dpid in_port pkt lib =
     (case eth_headers (pk_protocols pkt) of
        [] \<Rightarrow> (lib, Inl IndexError)
      | eth # _ \<Rightarrow>
          if eth_ethertype eth \<noteq> 0x0800 then (lib, Inr ())
          else
            (case ip_headers (pk_protocols pkt) of
               [] \<Rightarrow> (lib, Inl IndexError)
             | ip # _ \<Rightarrow>
                 if ip4_ttl ip \<noteq> 255 then (lib, Inr ())
                 else
                   (case bfd_parse pkt of
                      Inl e \<Rightarrow> (lib, Inl e)
                    | Inr m \<Rightarrow>
                        if \<not> bfd_sane lib m then (lib, Inr ())
                        else
                          (case select_session dpid in_port lib m of
                             None \<Rightarrow> (lib, Inr ())
                           | Some k \<Rightarrow>
                               (case map_of (bl_sessions lib) k of
                                  None \<Rightarrow> (lib, Inl KeyError)
                                | Some s \<Rightarrow>
                                    (case recv_authentic m s of
                                       Inl e \<Rightarrow> (lib, Inl e)
                                     | Inr ok \<Rightarrow>
                                         if \<not> ok then (lib, Inr ())
                                         else (case recv_session r (eth_src eth) (ip4_src ip) m s of
                                                 (s', res) \<Rightarrow> (put_bfd_session k s' lib, res))))))))"

text \<open>The handler of frames: ARP requests for the address of a session are answered.\<close>

definition arp_answer :: "bool \<Rightarrow> addrconv \<Rightarrow> 'o ext \<Rightarrow> int \<Rightarrow> int \<Rightarrow> arp \<Rightarrow> bfd_lib \<Rightarrow> bfd_lib \<times> unit res" where
  "arp_answer le A E dpid in_port q lib =
     (if arp_opcode q \<noteq> 1 then (lib, Inr ())
      else
        (case find (\<lambda>(k, s). bs_dpid s = dpid \<and> bs_ofport s = in_port \<and> bs_src_ip s = arp_dst_ip q) (bl_sessions lib) of
           None \<Rightarrow> (lib, Inr ())
         | Some (k, s) \<Rightarrow>
             (case packet_serialize le A E \<lparr>pk_data = [], pk_protocols =
                  [PEth \<lparr>eth_dst = arp_src_mac q, eth_src = bs_src_mac s, eth_ethertype = 0x0806\<rparr>,
                   PArp (arp_ip 2 (bs_src_mac s) (bs_src_ip s) (arp_src_mac q) (arp_src_ip q))]\<rparr> of
                Inl e \<Rightarrow> (lib, Inl e)
              | Inr out \<Rightarrow> (lib\<lparr>bl_sent := bl_sent lib @ [(dpid, in_port, pk_data out)]\<rparr>, Inr ()))))"

definition bfd_packet_in :: "bool \<Rightarrow> addrconv \<Rightarrow> 'o ext \<Rightarrow> int \<times> int \<Rightarrow> int \<Rightarrow> int \<Rightarrow> 'o packet \<Rightarrow> bfd_lib \<Rightarrow> bfd_lib \<times> unit res" where
  "bfd_packet_in le A E r dpid in_port pkt lib =
     (if arp_headers (pk_protocols pkt) \<noteq> [] then
        (case arp_parse pkt of Inl e \<Rightarrow> (lib, Inl e) | Inr q \<Rightarrow> arp_answer le A E dpid in_port q lib)
      else if ip_headers (pk_protocols pkt) = [] then (lib, Inr ())
      else
        (case udp_headers (pk_protocols pkt) of
           [] \<Rightarrow> (lib, Inr ())
         | u # _ \<Rightarrow> if udp_dst_port u \<noteq> 3784 then (lib, Inr ()) else recv_bfd_pkt r dpid in_port pkt lib))"

text \<open>The frame as the switch passes it on; the outer option is the fuel of the packet decoder.\<close>

definition bfd_frame_in :: "bool \<Rightarrow> addrconv \<Rightarrow> 'o ext \<Rightarrow> int \<times> int \<Rightarrow> int \<Rightarrow> int \<Rightarrow> bytes \<Rightarrow> bfd_lib \<Rightarrow> (bfd_lib \<times> unit res) option" where
  "bfd_frame_in le A E r dpid in_port data lib =
     map_option (\<lambda>d. case d of Inl e \<Rightarrow> (lib, Inl e) | Inr pkt \<Rightarrow> bfd_packet_in le A E r dpid in_port pkt lib)
       (packet_decode A E data)"

end
