(* ===== verification/Bfd_Frames.thy ===== *)
theory Bfd_Frames
  imports Bfd_Session
begin

text \<open>A packet that a session sends reaches the session it is meant for, through the frame on the wire.\<close>

section \<open>The frame\<close>

text \<open>Settings that fit the headers.\<close>

definition bfd_addrs_ok :: "addrconv \<Rightarrow> bfd_session \<Rightarrow> bool" where
  "bfd_addrs_ok A s \<longleftrightarrow> canon_mac A (bs_src_mac s) \<and> canon_mac A (bs_dst_mac s) \<and> canon_ip4 A (bs_src_ip s) \<and> canon_ip4 A (bs_dst_ip s) \<and>
     0 \<le> bs_ipv4_id s \<and> bs_ipv4_id s < 65536 \<and> 49152 \<le> bs_src_port s \<and> bs_src_port s < 65536 \<and> bs_dst_port s = 3784"

lemma bfd_frame:
  assumes A: "addrconv_ok A" and E: "ext_shrinks E" and s: "bfd_addrs_ok A s" and m: "bfd_wf m" "bf_ver m = 1"
  shows "\<exists>data b ip u. bfd_packet le A E (bs_src_mac s) (bs_dst_mac s) (bs_src_ip s) (bs_dst_ip s) (bs_ipv4_id s)
      (bs_src_port s) (bs_dst_port s) m = Inr data \<and>
    packet_decode A E data = Some (Inr \<lparr>pk_data = data, pk_protocols =
      [PEth (bfd_eth (bs_dst_mac s) (bs_src_mac s)), PIpv4 ip, PUdp u, Raw b]\<rparr>) \<and>
    bfd_parser b = Inr (bfd_received m) \<and> ip4_ttl ip = 255 \<and> ip4_src ip = bs_src_ip s \<and> udp_dst_port u = 3784"
proof -
  obtain b m' where b: "bfd_serialize m = Inr (b, m')" "bfd_parser (b @ []) = Inr (bfd_received m)"
    using bfd_codec [OF m(1)] by blast
  let ?eth = "bfd_eth (bs_dst_mac s) (bs_src_mac s)" and ?ip = "bfd_ip (bs_src_ip s) (bs_dst_ip s) (bs_ipv4_id s)"
    and ?u = "bfd_udp (bs_src_port s) (bs_dst_port s)"
  have eth: "ethernet_wf A ?eth" "tags_lead (ethernet_get_packet_type (eth_ethertype ?eth)) [] (Some C_ipv4)"
    using s by (simp_all add: bfd_eth_def ethernet_wf_def bfd_addrs_ok_def, code_simp)
  have ip: "ipv4_wf A ?ip" "ip4_version ?ip = 4" "ip4_proto ?ip = 17" "ip4_total_length ?ip = 0"
    using s by (simp_all add: bfd_ip_def ipv4_wf_def bfd_addrs_ok_def)
  have u: "udp_wf ?u" "udp_total_length ?u = 0" "udp_csum ?u = 0" "udp_get_packet_type (udp_src_port ?u) (udp_dst_port ?u) = None"
    using s by (simp_all add: bfd_udp_def udp_wf_def bfd_addrs_ok_def udp_get_packet_type_def)
  have d: "\<not> all_zero b" "int (length b) + 8 + ip4_header_length ?ip * 4 < 65536"
    using bfd_serialize_nonzero [OF m(1) b(1) m(2)] bfd_serialize_length [OF m(1) b(1)] bfd_size_range [OF m(1)]
    by (simp_all add: all_zero_def bfd_ip_def)
  obtain bs ip' u' where e: "encodes le A E None (Some C_ethernet) (PEth ?eth # [] @ [PIpv4 ?ip, PUdp ?u, Raw b]) bs
      (PEth ?eth # [] @ [PIpv4 ip', PUdp u', Raw b]) True"
    "ip' = ?ip\<lparr>ip4_total_length := ip4_header_length ?ip * 4 + 8 + int (length b), ip4_csum := ip4_csum ip'\<rparr>"
    "u' = ?u\<lparr>udp_total_length := 8 + int (length b), udp_csum := udp_csum u'\<rparr>"
    using encodes_udp_frame [OF A eth ip u d, of le E] by blast
  have "ip4_ttl ip' = 255" "ip4_src ip' = bs_src_ip s" "udp_dst_port u' = 3784"
    using s by (subst e(2), simp add: bfd_ip_def, subst e(2), simp add: bfd_ip_def, subst e(3), simp add: bfd_udp_def bfd_addrs_ok_def)
  then show ?thesis using encodes_packet [OF e(1) E] b by (simp add: bfd_packet_def)
qed

section \<open>What is sent\<close>

lemma send_flags_bits:
  "send_flags final poll auth s AND 1 = 0" "send_flags final poll auth s AND 4 \<noteq> 0 \<longleftrightarrow> auth"
  "send_flags final poll auth s AND 16 \<noteq> 0 \<longleftrightarrow> final" "send_flags final poll auth s AND 32 \<noteq> 0 \<longleftrightarrow> poll"
  by (cases final; cases poll; cases auth; simp add: send_flags_def)+

lemma send_auth_section:
  assumes "send_auth ki coin s = (s', Inr (Some a))"
  shows "(auth_key_id a, the (auth_secret a)) \<in> set (bs_auth_keys s)" "auth_secret a \<noteq> None" "auth_type_of a = bs_auth_type s"
    "bs_auth_type s \<noteq> 0"
proof -
  let ?ki = "bs_auth_keys s ! ki"
  have k: "bs_auth_type s \<noteq> 0" "ki < length (bs_auth_keys s)" using assms by (auto simp: send_auth_def split: if_splits)
  then have n: "?ki \<in> set (bs_auth_keys s)" by simp
  obtain i key where e: "?ki = (i, key)" by (cases ?ki)
  have "auth_key_id a = i \<and> auth_secret a = Some key \<and> auth_type_of a = bs_auth_type s"
  proof (cases "bs_auth_type s = 1")
    case True
    then show ?thesis using assms k e by (auto simp: send_auth_def simple_password_def split: if_splits)
  next
    case False
    then obtain k' where "find (\<lambda>k. hash_type k = bs_auth_type s) hash_kinds = Some k'" "a = keyed_auth k' i (bs_xmit_auth_seq s') (Some key) None"
      using assms k e by (auto simp: send_auth_def Let_def split: option.splits)
    moreover from this(1) have "hash_type k' = bs_auth_type s" by (auto simp: find_Some_iff)
    ultimately show ?thesis by (simp add: keyed_auth_def)
  qed
  then show "(auth_key_id a, the (auth_secret a)) \<in> set (bs_auth_keys s)" "auth_secret a \<noteq> None" "auth_type_of a = bs_auth_type s"
    "bs_auth_type s \<noteq> 0" using n e k by auto
qed

lemma send_auth_none: "send_auth ki coin s = (s', Inr None) \<Longrightarrow> bs_auth_type s \<in> {1, 2, 3, 4, 5} \<Longrightarrow> False"
  by (auto simp: send_auth_def Let_def hash_kinds_def simple_password_def split: if_splits option.splits prod.splits)

lemma send_auth_same:
  assumes "send_auth ki coin s = (s', r)"
  shows "s' = s\<lparr>bs_xmit_auth_seq := bs_xmit_auth_seq s'\<rparr>"
  using assms by (auto simp: send_auth_def Let_def split: if_splits option.splits prod.splits)

lemma send_auth_off: "bs_auth_type s = 0 \<Longrightarrow> send_auth ki coin s = (s, Inr None)"
  by (simp add: send_auth_def)

lemma send_control_parts:
  assumes "send_control ki coin s = (s', Inr m)"
  obtains auth s1 where "send_auth ki coin (if bs_pending_final s then s\<lparr>bs_pending_final := False, bs_is_polling := False\<rparr> else s) = (s1, Inr auth)"
    "s' = s1\<lparr>bs_ipv4_id := (bs_ipv4_id s1 + 1) AND 0xffff\<rparr>"
    "m = control_packet (send_flags (bs_pending_final s) (bs_is_polling s \<and> \<not> bs_pending_final s) (auth \<noteq> None) s1) auth s1"
  using assms by (auto simp: send_control_def Let_def split: sum.splits prod.splits if_splits)

lemma send_control_fields:
  assumes "send_control ki coin s = (s', Inr m)"
  shows "bf_ver m = 1" "bf_state m = bs_session_state s" "bf_my_discr m = bs_local_discr s" "bf_your_discr m = bs_remote_discr s"
    "bf_detect_mult m = bs_detect_mult s" "bf_desired_min_tx m = bs_desired_min_tx s" "bf_required_min_rx m = bs_required_min_rx s"
    "bf_flags m AND 1 = 0" "bf_flags m AND 4 \<noteq> 0 \<longleftrightarrow> bf_auth m \<noteq> None" "bf_flags m AND 16 \<noteq> 0 \<longleftrightarrow> bs_pending_final s"
    "bf_flags m AND 32 \<noteq> 0 \<longleftrightarrow> bs_is_polling s \<and> \<not> bs_pending_final s"
    "bs_auth_type s = 0 \<Longrightarrow> bf_auth m = None" "bs_auth_type s \<in> {1, 2, 3, 4, 5} \<Longrightarrow> bf_auth m \<noteq> None"
    "bf_auth m = Some a \<Longrightarrow> (auth_key_id a, the (auth_secret a)) \<in> set (bs_auth_keys s) \<and> auth_secret a \<noteq> None \<and>
      auth_type_of a = bs_auth_type s \<and> bs_auth_type s \<noteq> 0"
    "s' = s\<lparr>bs_pending_final := False, bs_is_polling := bs_is_polling s \<and> \<not> bs_pending_final s, bs_xmit_auth_seq := bs_xmit_auth_seq s',
      bs_ipv4_id := (bs_ipv4_id s + 1) AND 0xffff\<rparr>"
proof -
  let ?s = "if bs_pending_final s then s\<lparr>bs_pending_final := False, bs_is_polling := False\<rparr> else s"
  obtain auth s1 where a: "send_auth ki coin ?s = (s1, Inr auth)" "s' = s1\<lparr>bs_ipv4_id := (bs_ipv4_id s1 + 1) AND 0xffff\<rparr>"
    "m = control_packet (send_flags (bs_pending_final s) (bs_is_polling s \<and> \<not> bs_pending_final s) (auth \<noteq> None) s1) auth s1"
    by (rule send_control_parts [OF assms])
  have s1: "s1 = ?s\<lparr>bs_xmit_auth_seq := bs_xmit_auth_seq s1\<rparr>" by (rule send_auth_same [OF a(1)])
  have f: "bs_session_state s1 = bs_session_state s" "bs_local_discr s1 = bs_local_discr s" "bs_remote_discr s1 = bs_remote_discr s"
    "bs_detect_mult s1 = bs_detect_mult s" "bs_desired_min_tx s1 = bs_desired_min_tx s" "bs_required_min_rx s1 = bs_required_min_rx s"
    by (subst s1, simp)+
  have same: "bs_auth_type ?s = bs_auth_type s" "bs_auth_keys ?s = bs_auth_keys s" by simp_all
  show "bf_ver m = 1" "bf_state m = bs_session_state s" "bf_my_discr m = bs_local_discr s" "bf_your_discr m = bs_remote_discr s"
    "bf_detect_mult m = bs_detect_mult s" "bf_desired_min_tx m = bs_desired_min_tx s" "bf_required_min_rx m = bs_required_min_rx s"
    "bf_flags m AND 1 = 0" "bf_flags m AND 4 \<noteq> 0 \<longleftrightarrow> bf_auth m \<noteq> None" "bf_flags m AND 16 \<noteq> 0 \<longleftrightarrow> bs_pending_final s"
    "bf_flags m AND 32 \<noteq> 0 \<longleftrightarrow> bs_is_polling s \<and> \<not> bs_pending_final s"
    using send_flags_bits unfolding a(3) by (simp_all add: control_packet_def bfd_new_def f)
  have m: "bf_auth m = auth" by (simp add: a(3) control_packet_def bfd_new_def)
  show "bs_auth_type s = 0 \<Longrightarrow> bf_auth m = None" using a(1) send_auth_off [of ?s ki coin] same(1) by (simp add: m)
  show "bs_auth_type s \<in> {1, 2, 3, 4, 5} \<Longrightarrow> bf_auth m \<noteq> None"
    using send_auth_none [of ki coin ?s s1] a(1) same(1) by (auto simp: m)
  show "bf_auth m = Some a \<Longrightarrow> (auth_key_id a, the (auth_secret a)) \<in> set (bs_auth_keys s) \<and> auth_secret a \<noteq> None \<and>
      auth_type_of a = bs_auth_type s \<and> bs_auth_type s \<noteq> 0"
    using send_auth_section [of ki coin ?s s1 a] a(1) same by (simp add: m)
  show "s' = s\<lparr>bs_pending_final := False, bs_is_polling := bs_is_polling s \<and> \<not> bs_pending_final s, bs_xmit_auth_seq := bs_xmit_auth_seq s',
      bs_ipv4_id := (bs_ipv4_id s + 1) AND 0xffff\<rparr>"
  proof -
    obtain sq where sq: "s1 = ?s\<lparr>bs_xmit_auth_seq := sq\<rparr>" using s1 by blast
    show ?thesis unfolding a(2) sq by (cases s) simp
  qed
qed

section \<open>What is accepted\<close>

text \<open>The session that a packet is meant for.\<close>

definition meant_for :: "int \<Rightarrow> int \<Rightarrow> bfd_lib \<Rightarrow> bfd \<Rightarrow> int \<Rightarrow> bfd_session \<Rightarrow> bool" where
  "meant_for dpid in_port lib m k t \<longleftrightarrow> map_of (bl_sessions lib) k = Some t \<and> bs_local_discr t = k \<and>
     (if bf_your_discr m = 0
      then bf_state m \<in> {BFD_STATE_ADMIN_DOWN, BFD_STATE_DOWN} \<and>
        find (\<lambda>(k, s). bs_dpid s = dpid \<and> bs_ofport s = in_port) (bl_sessions lib) = Some (k, t)
      else bf_your_discr m = k)"

text \<open>The two sides share the authentication, and a sequence number is in the window of the receiver.\<close>

definition shares_auth :: "bfd_session \<Rightarrow> bfd_session \<Rightarrow> bfd \<Rightarrow> bool" where
  "shares_auth s t m \<longleftrightarrow> bs_auth_type s \<in> {0, 1, 2, 3, 4, 5} \<and> bs_auth_type t = bs_auth_type s \<and> bs_auth_keys t = bs_auth_keys s \<and>
     distinct (map fst (bs_auth_keys s)) \<and>
     (case bf_auth m of Some (KeyedAuth k i sq key dg l) \<Rightarrow> seq_acceptable t sq | _ \<Rightarrow> True)"

lemma received_same [simp]:
  "bf_ver (bfd_received m) = bf_ver m" "bf_state (bfd_received m) = bf_state m" "bf_flags (bfd_received m) = bf_flags m"
  "bf_detect_mult (bfd_received m) = bf_detect_mult m" "bf_my_discr (bfd_received m) = bf_my_discr m"
  "bf_your_discr (bfd_received m) = bf_your_discr m" "bf_desired_min_tx (bfd_received m) = bf_desired_min_tx m"
  "bf_required_min_rx (bfd_received m) = bf_required_min_rx m" "bf_auth (bfd_received m) = map_option (auth_received m) (bf_auth m)"
  "bf_length (bfd_received m) = bfd_size m"
  by (simp_all add: bfd_received_def)

lemma sent_authentic:
  assumes m: "send_control ki coin s = (s', Inr m)" "bfd_wf m" and a: "shares_auth s t m"
  shows "recv_authentic (bfd_received m) t = Inr True"
proof (cases "bf_auth m")
  case None
  then have "bs_auth_type s = 0" using send_control_fields(13) [OF m(1)] a by (auto simp: shares_auth_def)
  then show ?thesis using None send_control_fields(9) [OF m(1)] a by (simp add: recv_authentic_def shares_auth_def)
next
  case (Some c)
  note f = send_control_fields(9) [OF m(1)] send_control_fields(14) [OF m(1) Some]
  have "map_of (bs_auth_keys t) (auth_key_id c) = auth_secret c" using f(2) a by (auto simp: shares_auth_def)
  from received_authentic [OF m(2) Some this] have "bfd_authenticate (bfd_received m) (bs_auth_keys t) = Inr True" .
  moreover have "auth_type_of (auth_received m c) = bs_auth_type t" "bs_auth_type t \<noteq> 0" using f(2) a by (cases c; simp add: shares_auth_def)+
  ultimately show ?thesis using Some f(1) a by (cases c) (simp_all add: recv_authentic_def shares_auth_def)
qed

lemma auth_size_min: "bfd_auth_wf a \<Longrightarrow> 4 \<le> auth_size a"
  by (cases a) simp_all

lemma auth_received_type [simp]: "auth_type_of (auth_received m a) = auth_type_of a"
  by (cases a) simp_all

lemma recv_auth_type [simp]:
  "bs_auth_type (update_xmit_period r s) = bs_auth_type s" "bs_auth_type (set_state r new d s) = bs_auth_type s"
  "bs_auth_type (recv_fields r m s) = bs_auth_type s" "bs_auth_type (demand_switch s) = bs_auth_type s"
  "bs_auth_type (recv_detect_time m s) = bs_auth_type s" "bs_auth_type (set_remote_addr mac ip s) = bs_auth_type s"
  by (simp_all add: recv_fields_def recv_detect_time_def demand_switch_def set_state_def update_xmit_period_def set_remote_addr_def Let_def)

lemma recv_state_auth_type [simp]: "bs_auth_type (recv_state r m s) = bs_auth_type s"
  by (simp add: recv_state_def split: option.split prod.split)

lemma recv_session_ok:
  assumes "bf_auth m = None \<longrightarrow> bs_auth_type t = 0" "\<forall>a. bf_auth m = Some a \<longrightarrow> auth_type_of a = bs_auth_type t"
  shows "snd (recv_session r mac ip m t) = Inr ()"
proof -
  have k: "snd (recv_auth_seq m u) = Inr ()" if "bs_auth_type u = bs_auth_type t" for u
    using that assms by (auto simp: recv_auth_seq_def keyed_type_def split: option.split bfd_auth.split)
  have "snd (bfd_recv r m u) = Inr ()" if "bs_auth_type u = bs_auth_type t" for u
    unfolding bfd_recv_def Let_def using that k [of "recv_detect_time m (demand_switch (recv_state (snd r) m (recv_fields (fst r) m u)))"] by simp
  then show ?thesis by (simp add: recv_session_def)
qed

end
