(* ===== verification/Bfd_Steps.thy ===== *)
theory Bfd_Steps
  imports Bfd_Frames
begin

text \<open>
  Sessions over time: two sessions that deliver packets to each other, and the reachable states of one session with
  the invariant of its state machine and its timers.
\<close>

section \<open>Deliveries\<close>

text \<open>
  The draws of a delivery are the index of the key, whether the sequence number advances, and the percentages of
  the receiver.
\<close>

type_synonym draw = "nat \<times> bool \<times> int \<times> int"

fun deliver :: "draw \<Rightarrow> bfd_session \<Rightarrow> bfd_session \<Rightarrow> bfd_session \<times> bfd_session" where
  "deliver (ki, coin, r) s t =
     (case send_control ki coin s of
        (s', Inl e) \<Rightarrow> (s', t)
      | (s', Inr m) \<Rightarrow> (s', fst (recv_session r (bs_src_mac s) (bs_src_ip s) (bfd_received m) t)))"

fun exchange_round :: "draw \<times> draw \<Rightarrow> bfd_session \<times> bfd_session \<Rightarrow> bfd_session \<times> bfd_session" where
  "exchange_round (d, e) (s, t) = (case deliver d s t of (s, t) \<Rightarrow> (case deliver e t s of (t, s) \<Rightarrow> (s, t)))"

definition exchange :: "(draw \<times> draw) list \<Rightarrow> bfd_session \<times> bfd_session \<Rightarrow> bfd_session \<times> bfd_session" where
  "exchange ds st = foldl (\<lambda>st d. exchange_round d st) st ds"

text \<open>A draw that picks a key that the session has and can use.\<close>

definition can_send :: "bfd_session \<Rightarrow> draw \<Rightarrow> bool" where
  "can_send s d \<longleftrightarrow> bs_auth_type s = 0 \<or>
     fst d < length (bs_auth_keys s) \<and>
       (bs_auth_type s = 1 \<longrightarrow> 1 \<le> length (snd (bs_auth_keys s ! fst d)) \<and> length (snd (bs_auth_keys s ! fst d)) \<le> 16)"

definition next_state :: "int \<Rightarrow> int \<Rightarrow> int" where
  "next_state st remote =
     (if st = BFD_STATE_ADMIN_DOWN then st
      else case recv_transition st remote of None \<Rightarrow> st | Some (new, diag) \<Rightarrow> new)"

lemma recv_parts_state [simp]:
  "bs_session_state (update_xmit_period r s) = bs_session_state s" "bs_session_state (set_state r new d s) = new"
  "bs_session_state (recv_fields r m s) = bs_session_state s" "bs_session_state (demand_switch s) = bs_session_state s"
  "bs_session_state (recv_detect_time m s) = bs_session_state s" "bs_session_state (set_remote_addr mac ip s) = bs_session_state s"
  "bs_session_state (fst (recv_auth_seq m s)) = bs_session_state s"
  by (auto simp: recv_fields_def recv_detect_time_def demand_switch_def set_state_def update_xmit_period_def set_remote_addr_def
      recv_auth_seq_def Let_def split: option.split bfd_auth.split)

lemma recv_parts_keys [simp]:
  "bs_auth_keys (update_xmit_period r s) = bs_auth_keys s" "bs_auth_keys (set_state r new d s) = bs_auth_keys s"
  "bs_auth_keys (recv_fields r m s) = bs_auth_keys s" "bs_auth_keys (demand_switch s) = bs_auth_keys s"
  "bs_auth_keys (recv_detect_time m s) = bs_auth_keys s" "bs_auth_keys (set_remote_addr mac ip s) = bs_auth_keys s"
  "bs_auth_keys (fst (recv_auth_seq m s)) = bs_auth_keys s" "bs_auth_type (fst (recv_auth_seq m s)) = bs_auth_type s"
  by (auto simp: recv_fields_def recv_detect_time_def demand_switch_def set_state_def update_xmit_period_def set_remote_addr_def
      recv_auth_seq_def Let_def split: option.split bfd_auth.split)

lemma recv_state_keys [simp]: "bs_auth_keys (recv_state r m s) = bs_auth_keys s"
  by (simp add: recv_state_def split: option.split prod.split)

lemma bfd_recv_state:
  "bs_session_state (fst (bfd_recv r m s)) = next_state (bs_session_state s) (bf_state m)"
  "bs_auth_type (fst (bfd_recv r m s)) = bs_auth_type s" "bs_auth_keys (fst (bfd_recv r m s)) = bs_auth_keys s"
  by (auto simp: bfd_recv_def next_state_def recv_state_def Let_def split: option.split)

lemma recv_session_state [simp]:
  "bs_session_state (fst (recv_session r mac ip m s)) = next_state (bs_session_state s) (bf_state m)"
  "bs_auth_type (fst (recv_session r mac ip m s)) = bs_auth_type s"
  "bs_auth_keys (fst (recv_session r mac ip m s)) = bs_auth_keys s"
  by (simp_all add: recv_session_def bfd_recv_state)

lemma can_send_packet:
  assumes "can_send s d"
  shows "\<exists>s' m. send_control (fst d) coin s = (s', Inr m)"
proof -
  have "\<exists>a. snd (send_auth (fst d) coin u) = Inr a" if "bs_auth_type u = bs_auth_type s" "bs_auth_keys u = bs_auth_keys s" for u
    using assms that by (cases "bs_auth_keys s ! fst d")
      (auto simp: can_send_def send_auth_def simple_password_def Let_def split: option.split)
  from this [of "if bs_pending_final s then s\<lparr>bs_pending_final := False, bs_is_polling := False\<rparr> else s"]
  show ?thesis by (auto simp: send_control_def Let_def split: prod.split)
qed

lemma deliver_states:
  assumes "can_send s d" "deliver d s t = (s', t')"
  shows "bs_session_state s' = bs_session_state s" "bs_session_state t' = next_state (bs_session_state t) (bs_session_state s)"
    "can_send s' = can_send s" "can_send t' = can_send t"
proof -
  obtain ki coin r where d: "d = (ki, coin, r)" by (cases d) auto
  obtain s1 m where m: "send_control ki coin s = (s1, Inr m)" using can_send_packet [OF assms(1), of coin] d by auto
  note f = send_control_fields(2,15) [OF m]
  have s: "s' = s1" "t' = fst (recv_session r (bs_src_mac s) (bs_src_ip s) (bfd_received m) t)" using assms(2) m d by simp_all
  have g: "bs_session_state s1 = bs_session_state s" "bs_auth_type s1 = bs_auth_type s" "bs_auth_keys s1 = bs_auth_keys s"
    by (subst f(2), simp)+
  show "bs_session_state s' = bs_session_state s" "bs_session_state t' = next_state (bs_session_state t) (bs_session_state s)"
    using s g f(1) by simp_all
  show "can_send s' = can_send s" "can_send t' = can_send t" using s g by (simp_all add: can_send_def fun_eq_iff)
qed

lemma round_states:
  assumes "can_send s d" "can_send t e" "exchange_round (d, e) (s, t) = (s', t')"
  shows "bs_session_state t' = next_state (bs_session_state t) (bs_session_state s)"
    "bs_session_state s' = next_state (bs_session_state s) (bs_session_state t')"
    "can_send s' = can_send s" "can_send t' = can_send t"
proof -
  obtain s1 t1 where 1: "deliver d s t = (s1, t1)" by force
  note a = deliver_states [OF assms(1) 1]
  obtain t2 s2 where 2: "deliver e t1 s1 = (t2, s2)" by force
  have "can_send t1 e" using assms(2) a(4) by simp
  note b = deliver_states [OF this 2]
  have "s' = s2" "t' = t2" using assms(3) 1 2 by simp_all
  then show "bs_session_state t' = next_state (bs_session_state t) (bs_session_state s)"
    "bs_session_state s' = next_state (bs_session_state s) (bs_session_state t')"
    "can_send s' = can_send s" "can_send t' = can_send t" using a b by simp_all
qed

text \<open>How far a pair of states is from both being up, in rounds.\<close>

definition rounds_left :: "int \<Rightarrow> int \<Rightarrow> nat" where
  "rounds_left a b = (if a = 3 then (if b = 3 then 0 else if b = 2 then 1 else 3) else if b = 3 then (if a = 2 then 1 else 2)
     else if a = 1 \<and> b = 1 then 2 else if a = 1 \<and> b = 2 then 2 else 1)"

lemma rounds_decrease:
  assumes "a \<in> {1, 2, 3}" "b \<in> {1, 2, 3}"
  shows "next_state b a \<in> {1, 2, 3}" "next_state a (next_state b a) \<in> {1, 2, 3}"
    "rounds_left (next_state a (next_state b a)) (next_state b a) \<le> rounds_left a b - 1"
  using assms by (elim insertE emptyE; simp add: next_state_def recv_transition_def rounds_left_def)+

lemma rounds_left_0: "a \<in> {1, 2, 3} \<Longrightarrow> b \<in> {1, 2, 3} \<Longrightarrow> rounds_left a b = 0 \<longleftrightarrow> a = 3 \<and> b = 3"
  by (auto simp: rounds_left_def)

lemma rounds_left_le: "rounds_left a b \<le> 3"
  by (simp add: rounds_left_def)

lemma exchange_states:
  assumes "bs_session_state s \<in> {1, 2, 3}" "bs_session_state t \<in> {1, 2, 3}" "list_all (\<lambda>(d, e). can_send s d \<and> can_send t e) ds"
    "exchange ds (s, t) = (s', t')"
  shows "bs_session_state s' \<in> {1, 2, 3} \<and> bs_session_state t' \<in> {1, 2, 3} \<and>
    rounds_left (bs_session_state s') (bs_session_state t') \<le> rounds_left (bs_session_state s) (bs_session_state t) - length ds"
  using assms
proof (induction ds arbitrary: s t)
  case Nil
  then show ?case by (simp add: exchange_def)
next
  case (Cons p ds)
  obtain d e where p: "p = (d, e)" by (cases p)
  obtain s1 t1 where 1: "exchange_round (d, e) (s, t) = (s1, t1)" by force
  have c: "can_send s d" "can_send t e" using Cons.prems(3) p by simp_all
  note a = round_states [OF c 1] and b = rounds_decrease [OF Cons.prems(1,2)]
  have e: "exchange ds (s1, t1) = (s', t')" using Cons.prems(4) 1 p by (simp add: exchange_def)
  have "list_all (\<lambda>(d, e). can_send s1 d \<and> can_send t1 e) ds" using Cons.prems(3) a(3,4) by simp
  from Cons.IH [OF _ _ this e] a(1,2) b
  show ?case by auto
qed

section \<open>The invariant of a session\<close>

text \<open>The changes of state that RFC 5880 knows, and the events told about them, which form one path.\<close>

definition state_changes :: "(int \<times> int) list" where
  "state_changes = [(1, 2), (1, 3), (2, 3), (2, 1), (3, 1)]"

fun event_run :: "int \<Rightarrow> (int \<times> int) list \<Rightarrow> int option" where
  "event_run st [] = Some st"
| "event_run st ((old, new) # es) = (if old = st \<and> (old, new) \<in> set state_changes then event_run new es else None)"

lemma event_run_snoc:
  "event_run st es = Some a \<Longrightarrow> (a, b) \<in> set state_changes \<Longrightarrow> event_run st (es @ [(a, b)]) = Some b"
  by (induction st es rule: event_run.induct) (auto split: if_splits)

text \<open>The greater of the two intervals, which the transmission period follows.\<close>

definition agreed_interval :: "bfd_session \<Rightarrow> int" where
  "agreed_interval s = max (bs_desired_min_tx s) (bs_remote_min_rx s)"

definition bfd_session_ok :: "bfd_session \<Rightarrow> bool" where
  "bfd_session_ok s \<longleftrightarrow> bs_session_state s \<in> {1, 2, 3} \<and> event_run 1 (bs_events s) = Some (bs_session_state s) \<and>
     0 \<le> bs_cfg_desired_min_tx s \<and>
     bs_desired_min_tx s = (if bs_session_state s = 3 then bs_cfg_desired_min_tx s else 1000000) \<and>
     3 / 4 * microseconds (agreed_interval s) \<le> bs_xmit_period s \<and> bs_xmit_period s \<le> microseconds (agreed_interval s) \<and>
     bs_remote_session_state s = 1 \<and> bs_enable_send s \<and> bs_send_loops s = 1 \<and>
     (bs_detect_time s \<noteq> 0 \<longrightarrow> 1 \<le> bs_timeout_loops s)"

lemma session_ok_parts:
  assumes "bfd_session_ok s"
  shows "bs_session_state s \<in> {1, 2, 3}" "event_run 1 (bs_events s) = Some (bs_session_state s)" "0 \<le> bs_cfg_desired_min_tx s"
    "bs_desired_min_tx s = (if bs_session_state s = 3 then bs_cfg_desired_min_tx s else 1000000)"
    "3 / 4 * microseconds (agreed_interval s) \<le> bs_xmit_period s" "bs_xmit_period s \<le> microseconds (agreed_interval s)"
    "bs_remote_session_state s = 1" "bs_enable_send s" "bs_send_loops s = 1" "bs_detect_time s \<noteq> 0 \<Longrightarrow> 1 \<le> bs_timeout_loops s"
  using assms unfolding bfd_session_ok_def by blast+

text \<open>What it does not speak of.\<close>

lemma session_ok_update [simp]:
  "bfd_session_ok (s\<lparr>bs_auth_seq_known := v0\<rparr>) = bfd_session_ok s"
  "bfd_session_ok (s\<lparr>bs_rcv_auth_seq := v1\<rparr>) = bfd_session_ok s"
  "bfd_session_ok (s\<lparr>bs_pending_final := v2\<rparr>) = bfd_session_ok s"
  "bfd_session_ok (s\<lparr>bs_is_polling := v3\<rparr>) = bfd_session_ok s"
  "bfd_session_ok (s\<lparr>bs_xmit_auth_seq := v4\<rparr>) = bfd_session_ok s"
  "bfd_session_ok (s\<lparr>bs_ipv4_id := v5\<rparr>) = bfd_session_ok s"
  "bfd_session_ok (s\<lparr>bs_dst_mac := v6\<rparr>) = bfd_session_ok s"
  "bfd_session_ok (s\<lparr>bs_dst_ip := v7\<rparr>) = bfd_session_ok s"
  "bfd_session_ok (s\<lparr>bs_remote_addr_config := v8\<rparr>) = bfd_session_ok s"
  "bfd_session_ok (s\<lparr>bs_remote_discr := v9\<rparr>) = bfd_session_ok s"
  "bfd_session_ok (s\<lparr>bs_remote_state := v10\<rparr>) = bfd_session_ok s"
  "bfd_session_ok (s\<lparr>bs_remote_demand_mode := v11\<rparr>) = bfd_session_ok s"
  "bfd_session_ok (s\<lparr>bs_datapath := v12\<rparr>) = bfd_session_ok s"
  by (simp_all add: bfd_session_ok_def agreed_interval_def)

abbreviation percent :: "int \<Rightarrow> bool" where
  "percent r \<equiv> 75 \<le> r \<and> r \<le> 100"

text \<open>What the transmission period keeps.\<close>

lemma period_bounds:
  assumes "percent r" "0 \<le> n"
  shows "3 / 4 * microseconds n \<le> microseconds n * (of_int r / 100)" "microseconds n * (of_int r / 100) \<le> microseconds n"
proof -
  have n: "0 \<le> microseconds n" using assms(2) by (simp add: microseconds_def)
  have r: "(3 / 4 :: rat) \<le> of_int r / 100" "of_int r / 100 \<le> (1 :: rat)" using assms(1) by simp_all
  show "3 / 4 * microseconds n \<le> microseconds n * (of_int r / 100)" using mult_left_mono [OF r(1) n] by simp
  show "microseconds n * (of_int r / 100) \<le> microseconds n" using mult_left_mono [OF r(2) n] by simp
qed

lemma update_period_eq: "update_xmit_period r s = s\<lparr>bs_xmit_period := microseconds (agreed_interval s) * (of_int r / 100)\<rparr>"
  by (simp add: update_xmit_period_def agreed_interval_def max_def Let_def)

lemma set_state_ok:
  assumes s: "bfd_session_ok s" and r: "percent r" and n: "(bs_session_state s, new) \<in> set state_changes"
  shows "bfd_session_ok (set_state r new d s)"
proof -
  note p = session_ok_parts [OF s]
  have e: "event_run 1 (bs_events s @ [(bs_session_state s, new)]) = Some new" by (rule event_run_snoc [OF p(2) n])
  have c: "new = 1 \<or> new = 2 \<and> bs_session_state s = 1 \<or> new = 3" using n by (auto simp: state_changes_def)
  have a: "0 \<le> max (1000000 :: int) (bs_remote_min_rx s)" "0 \<le> max (bs_cfg_desired_min_tx s) (bs_remote_min_rx s)" using p(3) by auto
  show ?thesis
    using c
  proof (elim disjE)
    assume "new = 1"
    then show ?thesis using p(3,7-10) e period_bounds [OF r a(1)]
      by (auto simp: bfd_session_ok_def set_state_def update_period_eq agreed_interval_def Let_def)
  next
    assume "new = 3"
    then show ?thesis using p(3,7-10) e period_bounds [OF r a(2)]
      by (auto simp: bfd_session_ok_def set_state_def update_period_eq agreed_interval_def Let_def)
  next
    assume n: "new = 2 \<and> bs_session_state s = 1"
    then have "bs_desired_min_tx s = 1000000" using p(4) by simp
    then show ?thesis using n p(3,5-10) e by (auto simp: bfd_session_ok_def set_state_def agreed_interval_def)
  qed
qed

lemma recv_fields_ok:
  assumes s: "bfd_session_ok s" and r: "percent r"
  shows "bfd_session_ok (recv_fields r m s)"
proof -
  note p = session_ok_parts [OF s]
  have a: "0 \<le> max (bs_desired_min_tx s) (bf_required_min_rx m)" using p(3,4) by (simp add: max_def)
  have "bfd_session_ok (update_xmit_period r (u\<lparr>bs_remote_min_rx := bf_required_min_rx m\<rparr>))"
    if "bfd_session_ok u" "bs_desired_min_tx u = bs_desired_min_tx s" for u
    using session_ok_parts [OF that(1)] that(2) period_bounds [OF r a]
    by (simp add: bfd_session_ok_def update_period_eq agreed_interval_def del: of_int_numeral)
  then show ?thesis using s by (simp add: recv_fields_def Let_def)
qed

lemma recv_transition_changes:
  assumes "st \<in> {1, 2, 3}" "recv_transition st remote = Some (new, d)"
  shows "(st, new) \<in> set state_changes"
  using assms by (auto simp: recv_transition_def state_changes_def split: if_splits)

lemma recv_state_ok:
  assumes s: "bfd_session_ok s" and r: "percent r"
  shows "bfd_session_ok (recv_state r m s)"
  using s set_state_ok [OF s r recv_transition_changes [OF session_ok_parts(1) [OF s]]]
  by (auto simp: recv_state_def split: option.split)

lemma demand_switch_ok: "bfd_session_ok s \<Longrightarrow> demand_switch s = s"
  using session_ok_parts(7,8) [of s] by (simp add: demand_switch_def demand_active_def)

lemma recv_detect_time_ok:
  assumes "bfd_session_ok s"
  shows "bfd_session_ok (recv_detect_time m s)"
proof -
  note p = session_ok_parts [OF assms]
  have k: "bfd_session_ok u" if "t \<noteq> 0 \<longrightarrow> 1 \<le> n" "u = s\<lparr>bs_detect_time := t, bs_timeout_loops := n, bs_pending_final := b\<rparr>" for t n b u
    using p that unfolding bfd_session_ok_def agreed_interval_def by simp
  have e: "recv_detect_time m s = s\<lparr>bs_detect_time := bs_detect_time (recv_detect_time m s),
      bs_timeout_loops := bs_timeout_loops (recv_detect_time m s), bs_pending_final := bs_pending_final (recv_detect_time m s)\<rparr>"
    by (cases s) (simp add: recv_detect_time_def Let_def)
  have "bs_detect_time (recv_detect_time m s) \<noteq> 0 \<longrightarrow> 1 \<le> bs_timeout_loops (recv_detect_time m s)"
    using p(10) by (simp add: recv_detect_time_def Let_def)
  from k [OF this e] show ?thesis .
qed

lemma recv_auth_seq_ok: "bfd_session_ok s \<Longrightarrow> bfd_session_ok (fst (recv_auth_seq m s))"
  by (simp add: recv_auth_seq_def split: option.split bfd_auth.split)

lemma recv_session_inv:
  assumes s: "bfd_session_ok s" and r: "percent (fst r)" "percent (snd r)"
  shows "bfd_session_ok (fst (recv_session r mac ip m s))"
proof -
  have u: "bfd_session_ok (if bs_remote_addr_config s then s else set_remote_addr mac ip s)" (is "bfd_session_ok ?u")
    using s by (simp add: set_remote_addr_def)
  have f: "bfd_session_ok (recv_fields (fst r) m ?u)" by (rule recv_fields_ok [OF u r(1)])
  have g: "bfd_session_ok (recv_state (snd r) m (recv_fields (fst r) m ?u))" by (rule recv_state_ok [OF f r(2)])
  then have "bfd_session_ok (fst (recv_auth_seq m (recv_detect_time m (demand_switch (recv_state (snd r) m (recv_fields (fst r) m ?u))))))"
    by (simp only: demand_switch_ok recv_detect_time_ok recv_auth_seq_ok)
  then show ?thesis using f unfolding recv_session_def bfd_recv_def Let_def by (simp split: if_split)
qed

lemma timeout_turn_ok:
  assumes s: "bfd_session_ok s" and r: "percent r"
  shows "bfd_session_ok (recv_timeout_turn r heard s)"
proof -
  have l: "bs_detect_time s = 0 \<Longrightarrow> bfd_session_ok (s\<lparr>bs_timeout_loops := n\<rparr>)" for n
    using session_ok_parts [OF s] unfolding bfd_session_ok_def agreed_interval_def by simp
  have "bs_session_state s \<notin> {1, 0} \<Longrightarrow> (bs_session_state s, 1) \<in> set state_changes"
    using session_ok_parts(1) [OF s] by (auto simp: state_changes_def)
  from set_state_ok [OF s r this] show ?thesis using s l by (simp add: recv_timeout_turn_def Let_def)
qed

lemma send_turn_ok:
  assumes s: "bfd_session_ok s"
  shows "bfd_session_ok (fst (send_turn le A E ki coin s))"
proof -
  have a: "bfd_session_ok (fst (send_auth ki coin u))" if "bfd_session_ok u" for u
    using that by (simp add: send_auth_def Let_def split: prod.split option.split)
  let ?u = "if bs_pending_final s then s\<lparr>bs_pending_final := False, bs_is_polling := False\<rparr> else s"
  obtain s1 x where x: "send_auth ki coin ?u = (s1, x)" by force
  have "bfd_session_ok s1" using a [of ?u] s x by simp
  then have c: "bfd_session_ok (fst (send_control ki coin s))"
    using x by (cases "bs_pending_final s"; cases x) (simp_all add: send_control_def Let_def)
  then have "bfd_session_ok (fst (bfd_send le A E ki coin s))"
    using s by (auto simp: bfd_send_def split: prod.split sum.split)
  then show ?thesis using s session_ok_parts(8) [OF s] by (simp add: send_turn_def)
qed

lemma init_ok:
  assumes "bfd_session_init r sq ident my dpid port mac ip sp dm di mult tx rx ty keys = Inr s" "percent r" "0 \<le> tx"
  shows "bfd_session_ok s" "bs_local_discr s = my"
proof -
  have "1000000 = microseconds 1000000 * 1000000" "(75 :: rat) \<le> of_int r" "(of_int r :: rat) \<le> 100"
    using assms(2) by (simp_all add: microseconds_def)
  then show "bfd_session_ok s" "bs_local_discr s = my"
    using assms(1,3) by (auto simp: bfd_session_init_def update_xmit_period_def bfd_session_ok_def agreed_interval_def Let_def
        microseconds_def split: if_splits)
qed

section \<open>The library\<close>

text \<open>
  What can happen to the library: frames and switches come, sessions are added, and the threads of a session take
  their turns.
\<close>

inductive bfd_lib_step :: "bool \<Rightarrow> addrconv \<Rightarrow> 'o ext \<Rightarrow> bfd_lib \<Rightarrow> bfd_lib \<Rightarrow> bool" for le A E where
  lib_frame: "percent (fst r) \<Longrightarrow> percent (snd r) \<Longrightarrow> bfd_frame_in le A E r dpid in_port data lib = Some (lib', res) \<Longrightarrow>
    bfd_lib_step le A E lib lib'"
| lib_switch: "bfd_lib_step le A E lib (switch_features dpid lib)"
| lib_add: "percent r \<Longrightarrow> 0 < my_discr \<Longrightarrow> discr_free my_discr src_port lib \<Longrightarrow>
    add_bfd_session r sq ident my_discr src_port dpid ofport src_mac src_ip dst_mac dst_ip auth_type keys lib = Inr lib' \<Longrightarrow>
    bfd_lib_step le A E lib lib'"
| lib_send: "map_of (bl_sessions lib) k = Some s \<Longrightarrow> 1 \<le> bs_send_loops s \<Longrightarrow>
    bfd_lib_step le A E lib (put_bfd_session k (fst (send_turn le A E ki coin s)) lib)"
| lib_timeout: "map_of (bl_sessions lib) k = Some s \<Longrightarrow> 1 \<le> bs_timeout_loops s \<Longrightarrow> percent r \<Longrightarrow>
    bfd_lib_step le A E lib (put_bfd_session k (recv_timeout_turn r heard s) lib)"

definition bfd_lib_ok :: "bfd_lib \<Rightarrow> bool" where
  "bfd_lib_ok lib \<longleftrightarrow> distinct (map fst (bl_sessions lib)) \<and> distinct (map (\<lambda>(k, s). bs_src_port s) (bl_sessions lib)) \<and>
     (\<forall>(k, s) \<in> set (bl_sessions lib). k = bs_local_discr s \<and> 0 < k \<and> bfd_session_ok s)"

text \<open>The discriminator and the port of a session never change.\<close>

definition ident_of :: "bfd_session \<Rightarrow> int \<times> int" where
  "ident_of s = (bs_local_discr s, bs_src_port s)"

lemma ident_parts [simp]:
  "ident_of (update_xmit_period r s) = ident_of s" "ident_of (set_state r new d s) = ident_of s"
  "ident_of (recv_fields r m s) = ident_of s" "ident_of (demand_switch s) = ident_of s"
  "ident_of (recv_detect_time m s) = ident_of s" "ident_of (set_remote_addr mac ip s) = ident_of s"
  "ident_of (fst (recv_auth_seq m s)) = ident_of s" "ident_of (recv_timeout_turn r heard s) = ident_of s"
  by (auto simp: ident_of_def recv_fields_def recv_detect_time_def demand_switch_def set_state_def update_xmit_period_def
      set_remote_addr_def recv_auth_seq_def recv_timeout_turn_def Let_def split: option.split bfd_auth.split)

lemma ident_recv [simp]: "ident_of (fst (recv_session r mac ip m s)) = ident_of s"
proof -
  have "ident_of (recv_state k m u) = ident_of u" for k u by (simp add: recv_state_def split: option.split prod.split)
  then show ?thesis by (simp add: recv_session_def bfd_recv_def Let_def)
qed

lemma ident_send [simp]: "ident_of (fst (send_turn le A E ki coin s)) = ident_of s"
proof -
  have a: "ident_of (fst (send_auth ki coin u)) = ident_of u" for u
    by (simp add: send_auth_def Let_def ident_of_def split: prod.split option.split)
  let ?u = "if bs_pending_final s then s\<lparr>bs_pending_final := False, bs_is_polling := False\<rparr> else s"
  obtain s1 x where x: "send_auth ki coin ?u = (s1, x)" by force
  have "ident_of s1 = ident_of s" using a [of ?u ] x by (cases "bs_pending_final s") (simp_all add: ident_of_def)
  then have "ident_of (fst (send_control ki coin s)) = ident_of s"
    using x by (cases "bs_pending_final s"; cases x) (simp_all add: send_control_def Let_def ident_of_def)
  then have "ident_of (fst (bfd_send le A E ki coin s)) = ident_of s"
    by (cases "send_control ki coin s") (auto simp: bfd_send_def split: sum.split)
  then show ?thesis by (simp add: send_turn_def) (simp add: ident_of_def)
qed

lemma put_bfd_session_ok:
  assumes l: "bfd_lib_ok lib" and k: "map_of (bl_sessions lib) k = Some s" and t: "bfd_session_ok t" "ident_of t = ident_of s"
  shows "bfd_lib_ok (put_bfd_session k t lib)"
proof -
  have d: "distinct (map fst (bl_sessions lib))" using l by (simp add: bfd_lib_ok_def)
  have s: "(k, s) \<in> set (bl_sessions lib)" using k by (rule map_of_SomeD)
  have p: "bs_src_port (if j = k then t else u) = bs_src_port u" if "(j, u) \<in> set (bl_sessions lib)" for j u
    using map_of_is_SomeI [OF d that] k t(2) by (auto simp: ident_of_def)
  have "map (\<lambda>(k, s). bs_src_port s) (bl_sessions (put_bfd_session k t lib)) = map (\<lambda>(k, s). bs_src_port s) (bl_sessions lib)"
    using p by (auto simp: put_bfd_session_def)
  moreover have "map fst (bl_sessions (put_bfd_session k t lib)) = map fst (bl_sessions lib)"
    by (auto simp: put_bfd_session_def)
  moreover have "j = bs_local_discr u \<and> 0 < j \<and> bfd_session_ok u" if "(j, u) \<in> set (bl_sessions (put_bfd_session k t lib))" for j u
    using that l s t by (auto simp: put_bfd_session_def bfd_lib_ok_def ident_of_def)
  then have "\<forall>(k, s) \<in> set (bl_sessions (put_bfd_session k t lib)). k = bs_local_discr s \<and> 0 < k \<and> bfd_session_ok s" by blast
  ultimately show ?thesis using l unfolding bfd_lib_ok_def by presburger
qed

text \<open>What a frame can do to the sessions.\<close>

definition frame_effects :: "int \<times> int \<Rightarrow> bfd_lib \<Rightarrow> bfd_lib set" where
  "frame_effects r lib = {lib'. bl_sessions lib' = bl_sessions lib} \<union>
     {put_bfd_session k (fst (recv_session r mac ip m s)) lib | k s mac ip m. map_of (bl_sessions lib) k = Some s}"

lemma frame_effectsI:
  "bl_sessions lib' = bl_sessions lib \<Longrightarrow> lib' \<in> frame_effects r lib"
  "map_of (bl_sessions lib) k = Some s \<Longrightarrow> put_bfd_session k (fst (recv_session r mac ip m s)) lib \<in> frame_effects r lib"
  unfolding frame_effects_def by (simp, blast)

lemma recv_pkt_effect: "fst (recv_bfd_pkt r dpid in_port pkt lib) \<in> frame_effects r lib"
  by (simp add: recv_bfd_pkt_def split_beta frame_effectsI split: list.split option.split sum.split)

lemma packet_in_effect: "fst (bfd_packet_in le A E r dpid in_port pkt lib) \<in> frame_effects r lib"
proof -
  have "fst (arp_answer le A E dpid in_port q lib) \<in> frame_effects r lib" for q
    by (simp add: arp_answer_def split_beta frame_effectsI split: option.split sum.split)
  then show ?thesis using recv_pkt_effect [of r dpid in_port pkt lib]
    by (simp add: bfd_packet_in_def frame_effectsI split: sum.split list.split)
qed

lemma frame_effect:
  assumes "bfd_frame_in le A E r dpid in_port data lib = Some (lib', res)"
  shows "lib' \<in> frame_effects r lib"
proof -
  obtain d where d: "(case d of Inl e \<Rightarrow> (lib, Inl e) | Inr pkt \<Rightarrow> bfd_packet_in le A E r dpid in_port pkt lib) = (lib', res)"
    using assms by (auto simp: bfd_frame_in_def)
  show ?thesis
  proof (cases d)
    case (Inl e)
    then show ?thesis using d by (simp add: frame_effectsI)
  next
    case (Inr pkt)
    then show ?thesis using d packet_in_effect [of le A E r dpid in_port pkt lib] by simp
  qed
qed

lemma add_bfd_session_ok:
  assumes l: "bfd_lib_ok lib" and r: "percent r" "0 < my" "discr_free my port lib"
    and a: "add_bfd_session r sq ident my port dpid ofport mac ip dm di ty keys lib = Inr lib'"
  shows "bfd_lib_ok lib'"
proof -
  obtain s where s: "bfd_session_init r sq ident my dpid ofport mac ip port dm di 3 1000000 1000000 ty keys = Inr s"
    "lib' = lib\<lparr>bl_sessions := bl_sessions lib @ [(my, s)]\<rparr>" using a by (auto simp: add_bfd_session_def res_bind_eq_Inr)
  have p: "bs_src_port s = port" using s(1) by (auto simp: bfd_session_init_def update_xmit_period_def Let_def split: if_splits)
  have n: "my \<notin> fst ` set (bl_sessions lib)" using r(3) by (simp add: discr_free_def map_of_eq_None_iff)
  have q: "port \<notin> (\<lambda>(k, s). bs_src_port s) ` set (bl_sessions lib)" using r(3) by (auto simp: discr_free_def list_all_iff)
  show ?thesis using l init_ok [OF s(1) r(1)] r(2) p n q unfolding s(2) bfd_lib_ok_def by simp
qed

lemma switch_features_ok: "bfd_lib_ok lib \<Longrightarrow> bfd_lib_ok (switch_features dpid lib)"
proof -
  assume l: "bfd_lib_ok lib"
  have "map fst (bl_sessions (switch_features dpid lib)) = map fst (bl_sessions lib)"
    "map (\<lambda>(k, s). bs_src_port s) (bl_sessions (switch_features dpid lib)) = map (\<lambda>(k, s). bs_src_port s) (bl_sessions lib)"
    by (auto simp: switch_features_def)
  moreover have "\<forall>(k, s) \<in> set (bl_sessions (switch_features dpid lib)). k = bs_local_discr s \<and> 0 < k \<and> bfd_session_ok s"
    using l by (fastforce simp: switch_features_def bfd_lib_ok_def)
  ultimately show ?thesis using l unfolding bfd_lib_ok_def by presburger
qed

lemma lib_step_ok:
  assumes "bfd_lib_step le A E lib lib'" "bfd_lib_ok lib"
  shows "bfd_lib_ok lib'"
  using assms
proof (induction rule: bfd_lib_step.induct)
  case (lib_frame r dpid in_port data lib lib' res)
  have k: "bfd_session_ok s" if "map_of (bl_sessions lib) k = Some s" for k s
    using map_of_SomeD [OF that] lib_frame.prems by (auto simp: bfd_lib_ok_def)
  have p: "bfd_lib_ok (put_bfd_session k (fst (recv_session r mac ip m s)) lib)" if "map_of (bl_sessions lib) k = Some s" for k s mac ip m
    by (rule put_bfd_session_ok [OF lib_frame.prems that recv_session_inv [OF k [OF that] lib_frame.hyps(1,2)] ident_recv])
  from frame_effect [OF lib_frame.hyps(3)]
  consider "bl_sessions lib' = bl_sessions lib"
    | k s mac ip m where "map_of (bl_sessions lib) k = Some s" "lib' = put_bfd_session k (fst (recv_session r mac ip m s)) lib"
    unfolding frame_effects_def by blast
  then show ?case
  proof cases
    case 1
    then show ?thesis using lib_frame.prems by (simp add: bfd_lib_ok_def)
  next
    case 2
    then show ?thesis using p by simp
  qed
next
  case (lib_send lib k s ki coin)
  have "bfd_session_ok s" using map_of_SomeD [OF lib_send.hyps(1)] lib_send.prems by (auto simp: bfd_lib_ok_def)
  from put_bfd_session_ok [OF lib_send.prems lib_send.hyps(1) send_turn_ok [OF this]] show ?case by simp
next
  case (lib_timeout lib k s r heard)
  have "bfd_session_ok s" using map_of_SomeD [OF lib_timeout.hyps(1)] lib_timeout.prems by (auto simp: bfd_lib_ok_def)
  from put_bfd_session_ok [OF lib_timeout.prems lib_timeout.hyps(1) timeout_turn_ok [OF this lib_timeout.hyps(3)]] show ?case by simp
qed (blast intro: switch_features_ok add_bfd_session_ok)+

lemma lib_steps_ok: "(bfd_lib_step le A E)\<^sup>*\<^sup>* lib lib' \<Longrightarrow> bfd_lib_ok lib \<Longrightarrow> bfd_lib_ok lib'"
  by (induction rule: rtranclp_induct) (auto intro: lib_step_ok)

end
