(* ===== verification/Bfd_Props.thy ===== *)
theory Bfd_Props
  imports Bfd_Steps Packet_Props
begin

text \<open>
  The properties of BFD: packets and their authentication, the frames between two sessions, how sessions come up,
  the invariant of the library, and where it departs from RFC 5880. The witnesses use two sessions whose
  discriminators are \<open>1\<close> and \<open>2\<close>.
\<close>

section \<open>Samples\<close>

definition sample_keys :: key_table where
  "sample_keys = [(7, [115, 101, 99, 114, 101, 116])]"

definition sample_bfd_session :: "int \<Rightarrow> int \<Rightarrow> bfd_session" where
  "sample_bfd_session ty my =
     projr (bfd_session_init 100 4294967294 (my * 10) my 5 my
       (if my = 1 then ''02:00:00:00:00:01'' else ''ff:ff:ff:ff:ff:ff'') (if my = 1 then ''10.0.0.1'' else ''10.0.0.2'') (50000 + my)
       (if my = 1 then ''ff:ff:ff:ff:ff:ff'' else ''02:00:00:00:00:01'') (if my = 1 then ''10.0.0.2'' else ''10.0.0.1'')
       3 4000000 1000000 ty sample_keys)"

definition sample_bfd :: "int \<Rightarrow> int \<Rightarrow> bfd_auth option \<Rightarrow> bfd" where
  "sample_bfd st flags auth =
     bfd_new \<lparr>bf_ver = 1, bf_diag = 0, bf_state = st, bf_flags = flags, bf_detect_mult = 3, bf_my_discr = 2, bf_your_discr = 1,
       bf_desired_min_tx = 1000000, bf_required_min_rx = 1000000, bf_required_min_echo_rx = 0, bf_auth = auth, bf_length = 0\<rparr>"

section \<open>Packets and frames\<close>

text \<open>C26: a packet with any section serializes to as many octets as \<^verbatim>\<open>len\<close> says, whatever follows them is ignored, and
  it is parsed with the same fields, without the key and with the digest; and those who have the key under its
  identifier find it authentic.
\<close>

theorem bfd_packet_roundtrip:
  assumes "bfd_wf m"
  shows "\<exists>b m'. bfd_serialize m = Inr (b, m') \<and> int (length b) = bfd_size m \<and> bfd_parser (b @ rest) = Inr (bfd_received m) \<and>
    (\<forall>a keys. bf_auth m = Some a \<and> map_of keys (auth_key_id a) = auth_secret a \<longrightarrow>
      bfd_authenticate (bfd_received m) keys = Inr True)"
  using bfd_codec [OF assms, of rest] bfd_serialize_length [OF assms] received_authentic [OF assms] by auto

abbreviation sample_auth :: bfd_auth where
  "sample_auth \<equiv> keyed_auth KeyedSHA1 7 99 (Some [115, 101, 99, 114, 101, 116]) None"

lemma bfd_packet_roundtrip_witness:
  "(\<exists>b m'. bfd_serialize (sample_bfd 3 4 (Some sample_auth)) = Inr (b, m') \<and> length b = 52 \<and>
      bfd_parser (b @ [1, 2]) = Inr (bfd_received (sample_bfd 3 4 (Some sample_auth)))) \<and>
   bfd_authenticate (bfd_received (sample_bfd 3 4 (Some sample_auth))) sample_keys = Inr True"
proof -
  have w: "bfd_wf (sample_bfd 3 4 (Some sample_auth))" "bfd_size (sample_bfd 3 4 (Some sample_auth)) = 52"
    "bf_auth (sample_bfd 3 4 (Some sample_auth)) = Some sample_auth"
    by (simp_all add: bfd_wf_def sample_bfd_def bfd_new_def keyed_auth_def bfd_size_def)
  have k: "map_of sample_keys (auth_key_id sample_auth) = auth_secret sample_auth" by (simp add: sample_keys_def keyed_auth_def)
  show ?thesis using bfd_packet_roundtrip [OF w(1), of "[1, 2]"] w(2,3) k by auto
qed

text \<open>C18: what a session with a datapath sends reaches the session it is meant for: the frame is decoded, the packet passes
  the checks of \<^verbatim>\<open>recv_bfd_pkt\<close>, and the other session takes the fields that were sent, with the addresses of the
  sender. The two share the authentication, and the sequence number is in the window of the receiver.
\<close>

theorem bfd_frame_accepted:
  assumes env: "addrconv_ok A" "ext_shrinks E"
    and s: "bs_datapath s" "bs_detect_mult s \<noteq> 0" "bs_local_discr s \<noteq> 0"
    and m: "send_control ki coin s = (s', Inr m)" "bfd_addrs_ok A s'" "bfd_wf m"
    and t: "meant_for dpid in_port lib m k t" "shares_auth s t m"
  shows "\<exists>data. bfd_send le A E ki coin s = (s', Inr (Some data)) \<and>
    bfd_frame_in le A E r dpid in_port data lib =
      Some (put_bfd_session k (fst (recv_session r (bs_src_mac s) (bs_src_ip s) (bfd_received m) t)) lib, Inr ())"
proof -
  note f = send_control_fields [OF m(1)]
  have a: "bs_src_mac s' = bs_src_mac s" "bs_src_ip s' = bs_src_ip s" by (subst f(15), simp)+
  obtain data b ip u where d: "bfd_packet le A E (bs_src_mac s') (bs_dst_mac s') (bs_src_ip s') (bs_dst_ip s') (bs_ipv4_id s')
      (bs_src_port s') (bs_dst_port s') m = Inr data"
    "packet_decode A E data = Some (Inr \<lparr>pk_data = data, pk_protocols =
      [PEth (bfd_eth (bs_dst_mac s') (bs_src_mac s')), PIpv4 ip, PUdp u, Raw b]\<rparr>)"
    "bfd_parser b = Inr (bfd_received m)" "ip4_ttl ip = 255" "ip4_src ip = bs_src_ip s'" "udp_dst_port u = 3784"
    using bfd_frame [OF env m(2,3) f(1)] by blast
  let ?m = "bfd_received m"
  have send: "bfd_send le A E ki coin s = (s', Inr (Some data))" using s(1) m(1) d(1) by (simp add: bfd_send_def)
  have size: "bf_flags ?m AND 4 \<noteq> 0 \<longrightarrow> 26 \<le> bf_length ?m" "24 \<le> bf_length ?m"
    using m(3) f(9) bfd_size_range [OF m(3)] auth_size_min [of "the (bf_auth m)"] by (auto simp: bfd_size_def bfd_wf_def)
  have k: "map_of (bl_sessions lib) k = Some t" using t(1) by (simp add: meant_for_def)
  have sane: "bfd_sane lib ?m"
    using size f(1,3,5,8) s(2,3) t(1) by (auto simp: bfd_sane_def meant_for_def split: if_splits)
  have sel: "select_session dpid in_port lib ?m = Some k"
    using t(1) by (auto simp: select_session_def meant_for_def split: if_splits)
  have auth: "recv_authentic ?m t = Inr True" by (rule sent_authentic [OF m(1,3) t(2)])
  have ok: "snd (recv_session r (bs_src_mac s) (bs_src_ip s) ?m t) = Inr ()"
  proof (rule recv_session_ok)
    show "bf_auth ?m = None \<longrightarrow> bs_auth_type t = 0" using f(13) t(2) by (auto simp: shares_auth_def)
    show "\<forall>a. bf_auth ?m = Some a \<longrightarrow> auth_type_of a = bs_auth_type t"
      using f(14) t(2) auth_received_type by (auto simp: shares_auth_def)
  qed
  have "recv_bfd_pkt r dpid in_port \<lparr>pk_data = data, pk_protocols =
      [PEth (bfd_eth (bs_dst_mac s') (bs_src_mac s')), PIpv4 ip, PUdp u, Raw b]\<rparr> lib =
    (put_bfd_session k (fst (recv_session r (bs_src_mac s) (bs_src_ip s) ?m t)) lib, Inr ())"
    using d(3-5) a sane sel k auth ok by (simp add: recv_bfd_pkt_def bfd_parse_def bfd_eth_def split_beta)
  then have "bfd_frame_in le A E r dpid in_port data lib =
      Some (put_bfd_session k (fst (recv_session r (bs_src_mac s) (bs_src_ip s) ?m t)) lib, Inr ())"
    using d(2,6) by (simp add: bfd_frame_in_def bfd_packet_in_def)
  then show ?thesis using send by blast
qed


lemma bfd_frame_accepted_witness:
  "let s = (sample_bfd_session 2 1)\<lparr>bs_datapath := True\<rparr>; lib = \<lparr>bl_sessions = [(2, sample_bfd_session 2 2)], bl_sent = []\<rparr> in
   \<exists>data t. snd (bfd_send False unix_addrconv sample_ext 0 True s) = Inr (Some data) \<and>
     bfd_frame_in False unix_addrconv sample_ext (80, 80) 5 2 data lib = Some (put_bfd_session 2 t lib, Inr ()) \<and>
     bs_session_state t = BFD_STATE_INIT"
proof -
  let ?s = "(sample_bfd_session 2 1)\<lparr>bs_datapath := True\<rparr>" and ?t = "sample_bfd_session 2 2"
  let ?lib = "\<lparr>bl_sessions = [(2, ?t)], bl_sent = []\<rparr>"
  note defs = sample_bfd_session_def bfd_session_init_def update_xmit_period_def sample_keys_def Let_def
  have s: "bs_datapath ?s" "bs_detect_mult ?s \<noteq> 0" "bs_local_discr ?s \<noteq> 0" by (simp_all add: defs)
  obtain s' m where m: "send_control 0 True ?s = (s', Inr m)"
    using can_send_packet [of ?s "(0, True, 80, 80)" True] by (auto simp: can_send_def defs)
  have e: "send_control 0 True ?s = (s', Inr m) \<Longrightarrow> bfd_addrs_ok unix_addrconv s' \<and> bfd_wf m \<and> meant_for 5 2 ?lib m 2 ?t \<and> shares_auth ?s ?t m"
    by (auto simp: defs send_control_def send_auth_def hash_kinds_def keyed_auth_def next_auth_seq_def control_packet_def bfd_new_def
        send_flags_def bfd_wf_def bfd_size_def bfd_addrs_ok_def sample_macs meant_for_def shares_auth_def seq_acceptable_def)
  note e = e [OF m]
  obtain data where d: "bfd_send False unix_addrconv sample_ext 0 True ?s = (s', Inr (Some data))"
    "bfd_frame_in False unix_addrconv sample_ext (80, 80) 5 2 data ?lib =
      Some (put_bfd_session 2 (fst (recv_session (80, 80) (bs_src_mac ?s) (bs_src_ip ?s) (bfd_received m) ?t)) ?lib, Inr ())"
    using bfd_frame_accepted [OF unix_addrconv_ok sample_ext_shrinks s m, of 5 2 ?lib 2 ?t False "(80, 80)"] e by blast
  let ?r = "fst (recv_session (80, 80) (bs_src_mac ?s) (bs_src_ip ?s) (bfd_received m) ?t)"
  have "bs_session_state ?r = BFD_STATE_INIT"
    using send_control_fields(2) [OF m] by (simp add: defs next_state_def recv_transition_def)
  with d have "snd (bfd_send False unix_addrconv sample_ext 0 True ?s) = Inr (Some data) \<and>
      bfd_frame_in False unix_addrconv sample_ext (80, 80) 5 2 data ?lib = Some (put_bfd_session 2 ?r ?lib, Inr ()) \<and>
      bs_session_state ?r = BFD_STATE_INIT" by (simp only: snd_conv)
  then show ?thesis unfolding Let_def by blast
qed

section \<open>Coming up\<close>

text \<open>C8: two sessions that deliver packets to each other in turn are both up after three rounds, whatever combination of
  down, init and up they were in, and they stay up.
\<close>

theorem bfd_converges:
  assumes "bs_session_state s \<in> {1, 2, 3}" "bs_session_state t \<in> {1, 2, 3}"
    and "list_all (\<lambda>(d, e). can_send s d \<and> can_send t e) ds" "3 \<le> length ds"
    and "exchange ds (s, t) = (s', t')"
  shows "bs_session_state s' = BFD_STATE_UP \<and> bs_session_state t' = BFD_STATE_UP"
proof -
  note e = exchange_states [OF assms(1-3,5)]
  have "rounds_left (bs_session_state s') (bs_session_state t') = 0"
    using e rounds_left_le [of "bs_session_state s" "bs_session_state t"] assms(4) by linarith
  then show ?thesis using e rounds_left_0 by simp
qed

lemma bfd_converges_witness:
  "case exchange (replicate 3 ((0, True, 80, 90), (0, False, 75, 100))) (sample_bfd_session 4 1, (sample_bfd_session 4 2)\<lparr>bs_session_state := 3\<rparr>) of
     (s', t') \<Rightarrow> bs_session_state s' = 3 \<and> bs_session_state t' = 3"
proof -
  have s: "bs_session_state (sample_bfd_session 4 1) \<in> {1, 2, 3}"
    "bs_session_state ((sample_bfd_session 4 2)\<lparr>bs_session_state := 3\<rparr>) \<in> {1, 2, 3}"
    "list_all (\<lambda>(d, e). can_send (sample_bfd_session 4 1) d \<and> can_send ((sample_bfd_session 4 2)\<lparr>bs_session_state := 3\<rparr>) e)
      (replicate 3 ((0, True, 80, 90), (0, False, 75, 100)))"
    by (simp_all add: sample_bfd_session_def bfd_session_init_def update_xmit_period_def sample_keys_def can_send_def Let_def numeral_3_eq_3)
  obtain s' t' where e: "exchange (replicate 3 ((0, True, 80, 90), (0, False, 75, 100)))
      (sample_bfd_session 4 1, (sample_bfd_session 4 2)\<lparr>bs_session_state := 3\<rparr>) = (s', t')" by force
  from bfd_converges [OF s _ e] e show ?thesis by simp
qed

section \<open>The invariant\<close>




section \<open>Departures from RFC 5880\<close>

text \<open>Packets of a session that are delivered one after the other.\<close>

fun deliver_all :: "draw list \<Rightarrow> bfd_session \<Rightarrow> bfd_session \<Rightarrow> bfd_session \<times> bfd_session" where
  "deliver_all [] s t = (s, t)"
| "deliver_all (d # ds) s t = (case deliver d s t of (s', t') \<Rightarrow> deliver_all ds s' t')"

lemma recv_detect_kept:
  assumes "bs_detect_time t \<noteq> 0" "bf_flags m AND BFD_FLAG_POLL = 0"
  shows "bs_detect_time (fst (recv_session r mac ip m t)) = bs_detect_time t"
proof -
  have p: "bs_detect_time (update_xmit_period k u) = bs_detect_time u" "bs_detect_time (set_state k new d u) = bs_detect_time u"
    "bs_detect_time (recv_fields k m u) = bs_detect_time u" "bs_detect_time (demand_switch u) = bs_detect_time u"
    "bs_detect_time (set_remote_addr mac ip u) = bs_detect_time u" "bs_detect_time (fst (recv_auth_seq m u)) = bs_detect_time u"
    for k new d u
    by (auto simp: recv_fields_def demand_switch_def set_state_def update_xmit_period_def set_remote_addr_def recv_auth_seq_def Let_def
        split: option.split bfd_auth.split)
  have q: "bs_detect_time (recv_state k m u) = bs_detect_time u" for k u
    by (simp add: recv_state_def p split: option.split prod.split)
  have "bs_detect_time (recv_detect_time m u) = bs_detect_time u" if "bs_detect_time u \<noteq> 0" for u
    using that assms(2) by (simp add: recv_detect_time_def Let_def)
  then show ?thesis using assms(1) by (simp add: recv_session_def bfd_recv_def Let_def p q)
qed

lemma deliver_unpolled:
  assumes "bs_detect_time t \<noteq> 0" "bs_pending_final s \<or> \<not> bs_is_polling s" "deliver d s t = (s', t')"
  shows "bs_detect_time t' = bs_detect_time t" "\<not> bs_is_polling s'" "bs_desired_min_tx s' = bs_desired_min_tx s"
proof -
  obtain ki coin r where d: "d = (ki, coin, r)" by (cases d) auto
  obtain s1 x where c: "send_control ki coin s = (s1, x)" by force
  let ?u = "if bs_pending_final s then s\<lparr>bs_pending_final := False, bs_is_polling := False\<rparr> else s"
  obtain s2 y where a: "send_auth ki coin ?u = (s2, y)" by force
  have "bs_is_polling s2 = bs_is_polling ?u" "bs_desired_min_tx s2 = bs_desired_min_tx ?u"
    by (subst send_auth_same [OF a], simp)+
  then have "\<not> bs_is_polling s2" "bs_desired_min_tx s2 = bs_desired_min_tx s" using assms(2) by (simp_all split: if_splits)
  then have s1: "\<not> bs_is_polling s1" "bs_desired_min_tx s1 = bs_desired_min_tx s"
    using a c by (cases "bs_pending_final s"; cases y; auto simp: send_control_def Let_def)+
  have "s' = s1" using assms(3) d c by (simp split: sum.splits)
  then show "\<not> bs_is_polling s'" "bs_desired_min_tx s' = bs_desired_min_tx s" using s1 by simp_all
  show "bs_detect_time t' = bs_detect_time t"
  proof (cases x)
    case (Inl e)
    then show ?thesis using assms(3) d c by simp
  next
    case (Inr m)
    then have "bf_flags (bfd_received m) AND BFD_FLAG_POLL = 0"
      using send_control_fields(11) [OF c [unfolded Inr]] assms(2) by auto
    from recv_detect_kept [OF assms(1) this, of r "bs_src_mac s" "bs_src_ip s"] show ?thesis using assms(3) d c Inr by auto
  qed
qed

lemma deliver_all_unpolled:
  assumes "bs_detect_time t \<noteq> 0" "bs_pending_final s \<or> \<not> bs_is_polling s" "deliver_all ds s t = (s', t')"
  shows "bs_detect_time t' = bs_detect_time t \<and> bs_desired_min_tx s' = bs_desired_min_tx s \<and> (ds \<noteq> [] \<longrightarrow> \<not> bs_is_polling s')"
  using assms
proof (induction ds arbitrary: s t)
  case (Cons d ds)
  obtain s1 t1 where 1: "deliver d s t = (s1, t1)" by force
  note u = deliver_unpolled [OF Cons.prems(1,2) 1]
  from Cons.IH [of t1 s1] Cons.prems u 1 show ?case by (cases ds) auto
qed simp

text \<open>C36: a session that comes up on a packet with the POLL flag takes its configured interval, and should tell it to the
  neighbour by a poll of its own. But sending the FINAL that the neighbour waits for ends the own poll too, before a
  POLL has gone out: however many packets it then sends, the neighbour keeps the detection time of the old interval.
\<close>

theorem bfd_interval_unsignalled:
  assumes "bs_session_state s \<in> {BFD_STATE_DOWN, BFD_STATE_INIT}" "next_state (bs_session_state s) (bf_state m0) = BFD_STATE_UP"
    and "bf_flags m0 AND BFD_FLAG_POLL \<noteq> 0" "bs_detect_time t \<noteq> 0" "ds \<noteq> []"
    and "deliver_all ds (fst (recv_session r mac ip m0 s)) t = (s', t')"
  shows "bs_desired_min_tx s' = bs_cfg_desired_min_tx s \<and> \<not> bs_is_polling s' \<and> bs_detect_time t' = bs_detect_time t"
proof -
  let ?s = "fst (recv_session r mac ip m0 s)"
  let ?a = "if bs_remote_addr_config s then s else set_remote_addr mac ip s"
  have a: "bs_session_state ?a = bs_session_state s" "bs_cfg_desired_min_tx ?a = bs_cfg_desired_min_tx s"
    by (simp_all add: set_remote_addr_def)
  have f: "bs_cfg_desired_min_tx (recv_fields k m0 u) = bs_cfg_desired_min_tx u" for k u
    by (simp add: recv_fields_def update_xmit_period_def Let_def)
  have p: "bs_pending_final (fst (recv_auth_seq m0 (recv_detect_time m0 u)))"
    "bs_desired_min_tx (fst (recv_auth_seq m0 (recv_detect_time m0 u))) = bs_desired_min_tx u" for u
    using assms(3) by (auto simp: recv_auth_seq_def recv_detect_time_def Let_def split: option.split bfd_auth.split)
  have g: "bs_desired_min_tx (demand_switch (recv_state k m0 u)) = bs_cfg_desired_min_tx u"
    if "bs_session_state u = bs_session_state s" for k u
    using that assms(1,2)
    by (auto simp: next_state_def recv_state_def demand_switch_def set_state_def update_xmit_period_def Let_def split: option.splits)
  have h: "bs_pending_final (fst (bfd_recv r m0 u))" "bs_desired_min_tx (fst (bfd_recv r m0 u)) = bs_cfg_desired_min_tx u"
    if "bs_session_state u = bs_session_state s" for u
    using assms(1) that f p g [of "recv_fields (fst r) m0 u" "snd r"] unfolding bfd_recv_def Let_def by auto
  have "bs_pending_final ?s" "bs_desired_min_tx ?s = bs_cfg_desired_min_tx s"
    unfolding recv_session_def using h [OF a(1)] a(2) by presburger+
  with deliver_all_unpolled [OF assms(4) _ assms(6)] assms(5) show ?thesis by simp
qed

lemma bfd_interval_unsignalled_witness:
  "case deliver_all [(0, True, 80, 80), (0, True, 80, 80)]
       (fst (recv_session (80, 80) ''02:00:00:00:00:01'' ''10.0.0.1'' (sample_bfd 2 32 None) (sample_bfd_session 0 1)))
       ((sample_bfd_session 0 2)\<lparr>bs_detect_time := 3\<rparr>) of
     (s', t') \<Rightarrow> bs_desired_min_tx s' = 4000000 \<and> bs_detect_time t' = 3"
proof -
  let ?s = "sample_bfd_session 0 1" and ?t = "(sample_bfd_session 0 2)\<lparr>bs_detect_time := 3\<rparr>" and ?m = "sample_bfd 2 32 None"
  have s: "bs_session_state ?s \<in> {BFD_STATE_DOWN, BFD_STATE_INIT}" "next_state (bs_session_state ?s) (bf_state ?m) = BFD_STATE_UP"
    "bf_flags ?m AND BFD_FLAG_POLL \<noteq> 0" "bs_detect_time ?t \<noteq> 0" "bs_cfg_desired_min_tx ?s = 4000000" "bs_detect_time ?t = 3"
    by (simp_all add: sample_bfd_session_def bfd_session_init_def update_xmit_period_def sample_bfd_def bfd_new_def next_state_def
        recv_transition_def sample_keys_def Let_def)
  obtain s' t' where d: "deliver_all [(0, True, 80, 80), (0, True, 80, 80)]
      (fst (recv_session (80, 80) ''02:00:00:00:00:01'' ''10.0.0.1'' ?m ?s)) ?t = (s', t')" by force
  from bfd_interval_unsignalled [OF s(1-4) _ d] show ?thesis using s(5,6) unfolding d by simp
qed

text \<open>C37: sequence numbers wrap around where they are sent, but not where they are compared: after the greatest number,
  the next packet of a meticulous session is refused, and so is every packet whatever its number, until the receiver
  has lost the session and forgotten the number.
\<close>

theorem bfd_sequence_wraps:
  assumes "bs_auth_type s \<in> {3, 5}" "bs_auth_type t = bs_auth_type s" "bs_xmit_auth_seq s = 4294967295"
    and "bs_auth_seq_known t" "bs_rcv_auth_seq t = 4294967295" "bs_detect_time t \<noteq> 0"
    and "send_control ki coin s = (s', Inr m)"
  shows "recv_authentic (bfd_received m) t = Inr False \<and> bs_xmit_auth_seq s' = 0 \<and>
    (\<forall>sq \<in> {0..4294967295}. \<not> seq_acceptable t sq \<and> seq_acceptable (recv_timeout_turn r False t) sq)"
proof -
  let ?u = "if bs_pending_final s then s\<lparr>bs_pending_final := False, bs_is_polling := False\<rparr> else s"
  obtain auth s1 where a: "send_auth ki coin ?u = (s1, Inr auth)" "s' = s1\<lparr>bs_ipv4_id := (bs_ipv4_id s1 + 1) AND 0xffff\<rparr>"
    "m = control_packet (send_flags (bs_pending_final s) (bs_is_polling s \<and> \<not> bs_pending_final s) (auth \<noteq> None) s1) auth s1"
    by (rule send_control_parts [OF assms(7)])
  have u: "bs_auth_type ?u = bs_auth_type s" "bs_xmit_auth_seq ?u = 4294967295" using assms(3) by simp_all
  have k: "\<exists>k i key. auth = Some (keyed_auth k i 0 (Some key) None) \<and> bs_xmit_auth_seq s1 = 0"
    using a(1) u assms(1) by (auto simp: send_auth_def hash_kinds_def next_auth_seq_def Let_def split: if_splits prod.splits)
  then obtain k i key where k: "auth = Some (keyed_auth k i 0 (Some key) None)" "bs_xmit_auth_seq s1 = 0" by blast
  have n: "\<not> seq_acceptable t sq" if "0 \<le> sq" "sq \<le> 4294967295" for sq
    using that assms(1,2,4,5) by (auto simp: seq_acceptable_def)
  have m: "bf_auth m = auth" by (simp add: a(3) control_packet_def bfd_new_def)
  then have "bf_flags m AND 4 \<noteq> 0" using send_control_fields(9) [OF assms(7)] k(1) by simp
  then have "recv_authentic (bfd_received m) t = Inr False"
    using m k(1) n [of 0] assms(1,2) by (auto simp: recv_authentic_def keyed_auth_def)
  moreover have "seq_acceptable (recv_timeout_turn r False t) sq" for sq
    using assms(6) by (simp add: seq_acceptable_def recv_timeout_turn_def Let_def)
  ultimately show ?thesis using n k(2) a(2) by simp
qed

lemma bfd_sequence_wraps_witness:
  "let s = (sample_bfd_session 5 1)\<lparr>bs_xmit_auth_seq := 4294967295\<rparr>;
       t = (sample_bfd_session 5 2)\<lparr>bs_auth_seq_known := True, bs_rcv_auth_seq := 4294967295, bs_detect_time := 3\<rparr> in
   \<exists>s' m. send_control 0 True s = (s', Inr m) \<and> recv_authentic (bfd_received m) t = Inr False \<and> \<not> seq_acceptable t 17"
proof -
  let ?s = "(sample_bfd_session 5 1)\<lparr>bs_xmit_auth_seq := 4294967295\<rparr>"
    and ?t = "(sample_bfd_session 5 2)\<lparr>bs_auth_seq_known := True, bs_rcv_auth_seq := 4294967295, bs_detect_time := 3\<rparr>"
  note defs = sample_bfd_session_def bfd_session_init_def update_xmit_period_def sample_keys_def Let_def
  have s: "bs_auth_type ?s \<in> {3, 5}" "bs_auth_type ?t = bs_auth_type ?s" "bs_xmit_auth_seq ?s = 4294967295"
    "bs_auth_seq_known ?t" "bs_rcv_auth_seq ?t = 4294967295" "bs_detect_time ?t \<noteq> 0" by (simp_all add: defs)
  obtain s' m where m: "send_control 0 True ?s = (s', Inr m)"
    using can_send_packet [of ?s "(0, True, 80, 80)" True] by (auto simp: can_send_def defs)
  from bfd_sequence_wraps [OF s m] m show ?thesis unfolding Let_def by auto
qed

end
